(* ===== verification/Prelude.thy ===== *)
theory Prelude
  imports Complex_Main "HOL-Library.Char_ord" "HOL-Library.List_Lexorder"
begin

text \<open>
  Shared vocabulary of the development: results as sums with a bind and a list traversal
  (Rust's \<open>?\<close> and \<open>collect::<Result<Vec<_>, _>>\<close>), checked machine arithmetic on
  bounded naturals and integers, and the part of the Rust standard library on strings and
  decimal digits that several components use.  A Rust \<open>String\<close> is the list of the bytes
  of its UTF-8 encoding, so \<open>length\<close> is \<open>str::len\<close> and the lexicographic order
  on lists is the order of \<open>str\<close>.
\<close>

section \<open>Results\<close>

definition bindR :: "'e + 'a \<Rightarrow> ('a \<Rightarrow> 'e + 'b) \<Rightarrow> 'e + 'b" where
  "bindR m f = (case m of Inl e \<Rightarrow> Inl e | Inr a \<Rightarrow> f a)"

text \<open>Evaluation looks at the first result before it goes into the continuation.\<close>

lemma bindR_inline [code_unfold]: "bindR m f = (case m of Inl e \<Rightarrow> Inl e | Inr a \<Rightarrow> f a)"
  by (fact bindR_def)

lemma bindR_simps [simp]: "bindR (Inl e) f = Inl e" "bindR (Inr a) f = f a"
  by (simp_all add: bindR_def)

lemma bindR_cong [fundef_cong]:
  "m = n \<Longrightarrow> (\<And>a. n = Inr a \<Longrightarrow> f a = g a) \<Longrightarrow> bindR m f = bindR n g"
  by (auto simp: bindR_def split: sum.splits)

lemma bindR_eq_Inr: "bindR m f = Inr b \<longleftrightarrow> (\<exists>a. m = Inr a \<and> f a = Inr b)"
  by (cases m) auto

lemma bindR_eq_Inl: "bindR m f = Inl e \<longleftrightarrow> m = Inl e \<or> (\<exists>a. m = Inr a \<and> f a = Inl e)"
  by (cases m) auto

lemma bindR_InrE [elim]:
  assumes "bindR m f = Inr b"
  obtains a where "m = Inr a" "f a = Inr b"
  using assms by (auto simp: bindR_eq_Inr)

definition ensureR :: "bool \<Rightarrow> 'e \<Rightarrow> 'e + unit" where
  "ensureR b e = (if b then Inr () else Inl e)"

lemma ensureR_simps [simp]: "ensureR True e = Inr ()" "ensureR False e = Inl e"
  by (simp_all add: ensureR_def)

lemma ensureR_eq_Inr [simp]: "ensureR b e = Inr u \<longleftrightarrow> b"
  by (simp add: ensureR_def)

lemma ensureR_eq_Inl [simp]: "ensureR b e = Inl e' \<longleftrightarrow> \<not> b \<and> e' = e"
  by (auto simp: ensureR_def)

definition of_optionR :: "'e \<Rightarrow> 'a option \<Rightarrow> 'e + 'a" where
  "of_optionR e x = (case x of None \<Rightarrow> Inl e | Some a \<Rightarrow> Inr a)"

lemma of_optionR_simps [simp]: "of_optionR e None = Inl e" "of_optionR e (Some a) = Inr a"
  by (simp_all add: of_optionR_def)

lemma of_optionR_eq_Inr [simp]: "of_optionR e x = Inr a \<longleftrightarrow> x = Some a"
  by (cases x) auto

lemma of_optionR_eq_Inl [simp]: "of_optionR e x = Inl e' \<longleftrightarrow> x = None \<and> e' = e"
  by (cases x) auto

definition map_errR :: "('e \<Rightarrow> 'f) \<Rightarrow> 'e + 'a \<Rightarrow> 'f + 'a" where
  "map_errR h m = (case m of Inl e \<Rightarrow> Inl (h e) | Inr a \<Rightarrow> Inr a)"

lemma map_errR_simps [simp]: "map_errR h (Inl e) = Inl (h e)" "map_errR h (Inr a) = Inr a"
  by (simp_all add: map_errR_def)

lemma map_errR_eq_Inr [simp]: "map_errR h m = Inr a \<longleftrightarrow> m = Inr a"
  by (cases m) auto

fun mapR :: "('a \<Rightarrow> 'e + 'b) \<Rightarrow> 'a list \<Rightarrow> 'e + 'b list" where
  "mapR f [] = Inr []"
| "mapR f (x # xs) = bindR (f x) (\<lambda>y. bindR (mapR f xs) (\<lambda>ys. Inr (y # ys)))"

lemma mapR_cong [fundef_cong]:
  "xs = ys \<Longrightarrow> (\<And>x. x \<in> set ys \<Longrightarrow> f x = g x) \<Longrightarrow> mapR f xs = mapR g ys"
  by (induction xs arbitrary: ys) auto

lemma mapR_eq_Inr:
  "mapR f xs = Inr ys \<longleftrightarrow> list_all2 (\<lambda>x y. f x = Inr y) xs ys"
proof (induction xs arbitrary: ys)
  case (Cons x xs)
  then show ?case by (cases ys) (auto simp: bindR_eq_Inr)
qed auto

lemma mapR_length: "mapR f xs = Inr ys \<Longrightarrow> length ys = length xs"
  by (simp add: mapR_eq_Inr list_all2_lengthD)

lemma mapR_set: "mapR f xs = Inr ys \<Longrightarrow> y \<in> set ys \<Longrightarrow> \<exists>x \<in> set xs. f x = Inr y"
  by (fastforce simp: mapR_eq_Inr in_set_conv_nth list_all2_conv_all_nth)

section \<open>Checked and saturating machine arithmetic\<close>

definition u64_max :: nat where "u64_max = 2 ^ 64 - 1"
definition u128_max :: nat where "u128_max = 2 ^ 128 - 1"
definition i64_min :: int where "i64_min = - (2 ^ 63)"
definition i64_max :: int where "i64_max = 2 ^ 63 - 1"
definition i32_min :: int where "i32_min = - (2 ^ 31)"
definition i32_max :: int where "i32_max = 2 ^ 31 - 1"

definition checked_add_u64 :: "nat \<Rightarrow> nat \<Rightarrow> nat option" where
  "checked_add_u64 a b = (if a + b \<le> u64_max then Some (a + b) else None)"

definition checked_i64 :: "int \<Rightarrow> int option" where
  "checked_i64 x = (if i64_min \<le> x \<and> x \<le> i64_max then Some x else None)"

definition checked_i32 :: "int \<Rightarrow> int option" where
  "checked_i32 x = (if i32_min \<le> x \<and> x \<le> i32_max then Some x else None)"

lemma checked_add_u64_Some [simp]:
  "checked_add_u64 a b = Some c \<longleftrightarrow> a + b \<le> u64_max \<and> c = a + b"
  by (auto simp: checked_add_u64_def)

lemma checked_i64_Some [simp]: "checked_i64 x = Some y \<longleftrightarrow> i64_min \<le> x \<and> x \<le> i64_max \<and> y = x"
  by (auto simp: checked_i64_def)

lemma checked_i32_Some [simp]: "checked_i32 x = Some y \<longleftrightarrow> i32_min \<le> x \<and> x \<le> i32_max \<and> y = x"
  by (auto simp: checked_i32_def)

section \<open>Characters and decimal digits\<close>

definition byte :: "char \<Rightarrow> nat" where
  "byte c = of_char c"

definition is_digit :: "char \<Rightarrow> bool" where
  "is_digit c \<longleftrightarrow> 48 \<le> byte c \<and> byte c \<le> 57"

definition is_upper :: "char \<Rightarrow> bool" where
  "is_upper c \<longleftrightarrow> 65 \<le> byte c \<and> byte c \<le> 90"

definition is_lower :: "char \<Rightarrow> bool" where
  "is_lower c \<longleftrightarrow> 97 \<le> byte c \<and> byte c \<le> 122"

definition is_alpha :: "char \<Rightarrow> bool" where
  "is_alpha c \<longleftrightarrow> is_upper c \<or> is_lower c"

definition digit_val :: "char \<Rightarrow> nat" where
  "digit_val c = byte c - 48"

definition digit_char :: "nat \<Rightarrow> char" where
  "digit_char n = char_of (48 + n)"

definition digits_val :: "string \<Rightarrow> nat" where
  "digits_val ds = foldl (\<lambda>a c. 10 * a + digit_val c) 0 ds"

fun show_nat :: "nat \<Rightarrow> string" where
  "show_nat n = (if n < 10 then [digit_char n] else show_nat (n div 10) @ [digit_char (n mod 10)])"

declare show_nat.simps [simp del]

lemma byte_less: "byte c < 256"
  using of_char_mod_256 [of c, where ?'a = nat] by (metis byte_def mod_less_divisor zero_less_numeral)

lemma digit_val_less: "is_digit c \<Longrightarrow> digit_val c < 10"
  by (auto simp: is_digit_def digit_val_def)

lemma digit_char_byte: "n < 10 \<Longrightarrow> byte (digit_char n) = 48 + n"
  by (simp add: byte_def digit_char_def)

lemma is_digit_digit_char [simp]: "n < 10 \<Longrightarrow> is_digit (digit_char n)"
  by (simp add: is_digit_def digit_char_byte)

lemma digit_val_digit_char [simp]: "n < 10 \<Longrightarrow> digit_val (digit_char n) = n"
  by (simp add: digit_val_def digit_char_byte)

lemma byte_inject: "byte c = byte d \<longleftrightarrow> c = d"
  by (simp add: byte_def)

lemma digit_char_digit_val [simp]: "is_digit c \<Longrightarrow> digit_char (digit_val c) = c"
  using byte_inject [of "digit_char (digit_val c)" c]
  by (simp add: digit_char_byte digit_val_less) (simp add: digit_val_def is_digit_def)

lemma digit_val_inj: "is_digit c \<Longrightarrow> is_digit d \<Longrightarrow> digit_val c = digit_val d \<Longrightarrow> c = d"
  by (metis digit_char_digit_val)

lemma digits_val_Nil [simp]: "digits_val [] = 0"
  by (simp add: digits_val_def)

lemma digits_val_snoc [simp]: "digits_val (ds @ [c]) = 10 * digits_val ds + digit_val c"
  by (simp add: digits_val_def)

lemma digits_val_append: "digits_val (ds @ es) = digits_val ds * 10 ^ length es + digits_val es"
  by (induction es rule: rev_induct) (simp_all flip: append_assoc add: algebra_simps)

lemma digits_val_Cons: "digits_val (c # ds) = digit_val c * 10 ^ length ds + digits_val ds"
  using digits_val_append [of "[c]" ds] by (simp add: digits_val_def)

lemma digits_val_bound: "list_all is_digit ds \<Longrightarrow> digits_val ds < 10 ^ length ds"
proof (induction ds rule: rev_induct)
  case (snoc c ds)
  then show ?case using digit_val_less [of c] by auto
qed simp

lemma show_nat_digits: "list_all is_digit (show_nat n)"
  by (induction n rule: show_nat.induct) (subst show_nat.simps, auto)

lemma show_nat_not_Nil [simp]: "show_nat n \<noteq> []"
  by (subst show_nat.simps) simp

lemma digits_val_show_nat [simp]: "digits_val (show_nat n) = n"
proof (induction n rule: show_nat.induct)
  case (1 n)
  show ?case
  proof (cases "n < 10")
    case True
    then show ?thesis by (simp add: show_nat.simps [of n] digits_val_def)
  next
    case False
    then show ?thesis using 1 by (simp add: show_nat.simps [of n])
  qed
qed

lemma show_nat_inj [simp]: "show_nat m = show_nat n \<longleftrightarrow> m = n"
  by (metis digits_val_show_nat)

lemma digits_val_pos: "list_all is_digit ds \<Longrightarrow> ds \<noteq> [] \<Longrightarrow> hd ds \<noteq> CHR ''0'' \<Longrightarrow> 0 < digits_val ds"
proof (cases ds)
  case (Cons c cs)
  assume "list_all is_digit ds" "hd ds \<noteq> CHR ''0''"
  then have "digit_val c \<noteq> 0"
    using Cons digit_val_inj [of c "CHR ''0''"] by (auto simp: digit_val_def is_digit_def byte_def)
  then show ?thesis by (simp add: Cons digits_val_Cons)
qed simp

text \<open>Digits without a leading zero are the only numeral of their value.\<close>

lemma show_nat_digits_val:
  "list_all is_digit ds \<Longrightarrow> ds \<noteq> [] \<Longrightarrow> length ds = 1 \<or> hd ds \<noteq> CHR ''0'' \<Longrightarrow> show_nat (digits_val ds) = ds"
proof (induction ds rule: rev_induct)
  case (snoc c es)
  have c: "digit_val c < 10" "digit_char (digit_val c) = c" using snoc(2) digit_val_less by simp_all
  show ?case
  proof (cases "es = []")
    case True
    then show ?thesis using c by (simp add: show_nat.simps digits_val_def)
  next
    case False
    then have "0 < digits_val es" using snoc(2,4) by (intro digits_val_pos) auto
    moreover have "show_nat (digits_val es) = es" using snoc False by auto
    ultimately show ?thesis
      using c by (subst show_nat.simps) simp
  qed
qed simp

section \<open>Splitting and trimming of strings\<close>

text \<open>\<open>str::split_once\<close> with a predicate on characters, and trimming of one character.\<close>

definition split_once :: "(char \<Rightarrow> bool) \<Rightarrow> string \<Rightarrow> (string \<times> string) option" where
  "split_once p s =
     (case dropWhile (\<lambda>c. \<not> p c) s of [] \<Rightarrow> None
      | _ # r \<Rightarrow> Some (takeWhile (\<lambda>c. \<not> p c) s, r))"

definition trim_start :: "char \<Rightarrow> string \<Rightarrow> string" where
  "trim_start z s = dropWhile (\<lambda>c. c = z) s"

definition trim_end :: "char \<Rightarrow> string \<Rightarrow> string" where
  "trim_end z s = rev (dropWhile (\<lambda>c. c = z) (rev s))"

lemma split_once_None:
  assumes "list_all (\<lambda>c. \<not> p c) s"
  shows "split_once p s = None"
proof -
  have "dropWhile (\<lambda>c. \<not> p c) s = []"
    using assms by (simp add: dropWhile_eq_Nil_conv list_all_iff)
  then show ?thesis unfolding split_once_def by (simp only: list.case)
qed

lemma split_once_Some:
  "list_all (\<lambda>c. \<not> p c) l \<Longrightarrow> p c \<Longrightarrow> split_once p (l @ c # r) = Some (l, r)"
  by (simp add: split_once_def list_all_iff)

lemma trim_start_decomp: "\<exists>n. s = replicate n z @ trim_start z s"
proof (induction s)
  case (Cons c s)
  then obtain n where "s = replicate n z @ trim_start z s" by blast
  then show ?case
    by (cases "c = z") (auto simp: trim_start_def intro: exI [of _ "Suc n"] exI [of _ 0])
qed (simp add: trim_start_def)

lemma trim_end_decomp: "\<exists>n. s = trim_end z s @ replicate n z"
proof -
  obtain n where "rev s = replicate n z @ trim_start z (rev s)"
    using trim_start_decomp by blast
  then have "rev (rev s) = rev (trim_start z (rev s)) @ replicate n z"
    by (metis rev_append rev_replicate)
  then show ?thesis by (auto simp: trim_end_def trim_start_def)
qed

lemma trim_start_hd: "trim_start z s \<noteq> [] \<Longrightarrow> hd (trim_start z s) \<noteq> z"
  unfolding trim_start_def by (rule hd_dropWhile)

lemma trim_end_last: "trim_end z s \<noteq> [] \<Longrightarrow> last (trim_end z s) \<noteq> z"
  unfolding trim_end_def using hd_dropWhile [of "\<lambda>c. c = z" "rev s"] by (simp add: last_rev)

section \<open>Integer parsing of the standard library\<close>

text \<open>
  \<open>str::parse\<close> at an unsigned type: one optional \<open>+\<close>, then at least one digit and
  nothing else; a value beyond the type's maximum is an error.
\<close>

definition parse_unsigned :: "nat \<Rightarrow> string \<Rightarrow> nat option" where
  "parse_unsigned bound s =
     (let ds = (case s of [] \<Rightarrow> [] | c # r \<Rightarrow> if c = CHR ''+'' then r else s)
      in if ds \<noteq> [] \<and> list_all is_digit ds \<and> digits_val ds \<le> bound
         then Some (digits_val ds) else None)"

definition parse_usize :: "string \<Rightarrow> nat option" where
  "parse_usize = parse_unsigned u64_max"

text \<open>\<open>str::parse\<close> at a signed type also takes one \<open>-\<close>.\<close>

definition parse_signed :: "int \<Rightarrow> int \<Rightarrow> string \<Rightarrow> int option" where
  "parse_signed lo hi s =
     (let (neg, ds) = (case s of [] \<Rightarrow> (False, [])
                       | c # r \<Rightarrow> if c = CHR ''-'' then (True, r)
                                  else if c = CHR ''+'' then (False, r) else (False, s));
          v = (if neg then - int (digits_val ds) else int (digits_val ds))
      in if ds \<noteq> [] \<and> list_all is_digit ds \<and> lo \<le> v \<and> v \<le> hi then Some v else None)"

definition parse_i64 :: "string \<Rightarrow> int option" where
  "parse_i64 = parse_signed i64_min i64_max"

definition parse_i32 :: "string \<Rightarrow> int option" where
  "parse_i32 = parse_signed i32_min i32_max"

lemma parse_i64_bounds: "parse_i64 s = Some v \<Longrightarrow> i64_min \<le> v \<and> v \<le> i64_max"
  by (auto simp: parse_i64_def parse_signed_def Let_def split: prod.splits if_splits)

section \<open>Sets of seen keys\<close>

text \<open>
  The loops \<open>if !seen.insert(x)\<close> of the source walk a list and note whether an element
  was there before: they test distinctness.
\<close>

fun all_new :: "'a set \<Rightarrow> 'a list \<Rightarrow> bool" where
  "all_new seen [] = True"
| "all_new seen (x # xs) = (x \<notin> seen \<and> all_new (insert x seen) xs)"

lemma all_new_iff: "all_new seen xs \<longleftrightarrow> distinct xs \<and> set xs \<inter> seen = {}"
  by (induction xs arbitrary: seen) auto

end
