(* ===== verification/Errors.thy ===== *)
theory Errors
  imports Prelude
begin

text \<open>
  The error values of \<open>crates/core/src/error.rs\<close>.  Messages that only repeat the code
  in words are kept where the source gives a constant; the texts formatted by other
  packages are not modelled.
\<close>

record validation_issue =
  issue_code :: string
  issue_path :: string
  issue_message :: string

definition issue_error :: "string \<Rightarrow> string \<Rightarrow> string \<Rightarrow> validation_issue" where
  "issue_error code path message =
     \<lparr>issue_code = code, issue_path = path, issue_message = message\<rparr>"

datatype domain_error =
    InvalidJson
  | JsonLimit string
  | GraphValidation "validation_issue list"
  | SchemaValidation "validation_issue list"
  | Serialization

end
