(* ===== verification/Canonical_Number.thy ===== *)
theory Canonical_Number
  imports Errors
begin

text \<open>
  \<open>crates/core/src/canonical/number.rs\<close>: the canonical plain-decimal form of a JSON
  number.  The specification reads a number text through the grammar \<open>number_text\<close>
  and gives it its exact rational value; the lemmas show that normalisation keeps the value
  and that two accepted texts get the same canonical form exactly when their values agree.
\<close>

section \<open>The code\<close>

definition MAX_NUMBER_DIGITS :: nat where "MAX_NUMBER_DIGITS = 128"
definition MAX_EXPONENT_MAGNITUDE :: int where "MAX_EXPONENT_MAGNITUDE = 1024"

record analyzed_number =
  an_negative :: bool
  an_significant :: string
  an_exponent :: int

definition is_exp :: "char \<Rightarrow> bool" where
  "is_exp c \<longleftrightarrow> c = CHR ''e'' \<or> c = CHR ''E''"

definition split_exponent :: "string \<Rightarrow> int \<Rightarrow> domain_error + string \<times> int" where
  "split_exponent v max_exponent =
     (case split_once is_exp v of None \<Rightarrow> Inr (v, 0)
      | Some (coefficient, e) \<Rightarrow>
          (case parse_i64 e of None \<Rightarrow> Inl (JsonLimit ''number exponent exceeded'')
           | Some ex \<Rightarrow> if \<bar>ex\<bar> > max_exponent
                        then Inl (JsonLimit ''number exponent exceeded'')
                        else Inr (coefficient, ex)))"

definition scientific_exponent :: "int \<Rightarrow> nat \<Rightarrow> nat \<Rightarrow> nat \<Rightarrow> int option" where
  "scientific_exponent explicit fraction_len trailing significant_len =
     Option.bind (checked_i64 (explicit - int fraction_len)) (\<lambda>a.
     Option.bind (checked_i64 (a + int trailing)) (\<lambda>b.
     checked_i64 (b + (int significant_len - 1))))"

definition strip_minus :: "string \<Rightarrow> bool \<times> string" where
  "strip_minus raw = (case raw of [] \<Rightarrow> (False, raw)
     | c # r \<Rightarrow> if c = CHR ''-'' then (True, r) else (False, raw))"

definition analyze :: "string \<Rightarrow> nat \<Rightarrow> int \<Rightarrow> domain_error + analyzed_number" where
  "analyze raw max_digits max_exponent =
     (if max_digits = 0 \<or> max_exponent < 0 then Inl (JsonLimit ''number limits are invalid'')
      else let (negative, unsigned) = strip_minus raw in
      bindR (split_exponent unsigned max_exponent) (\<lambda>(coefficient, explicit).
        let (integer, fraction) =
              (case split_once (\<lambda>c. c = CHR ''.'') coefficient of
                 None \<Rightarrow> (coefficient, []) | Some p \<Rightarrow> p);
            raw_digits = integer @ fraction
        in if length raw_digits > max_digits then Inl (JsonLimit ''number digits exceeded'')
        else let without_leading = trim_start (CHR ''0'') raw_digits in
        if without_leading = []
        then Inr \<lparr>an_negative = False, an_significant = [], an_exponent = 0\<rparr>
        else let significant = trim_end (CHR ''0'') without_leading;
                 trailing = length without_leading - length significant
        in (case scientific_exponent explicit (length fraction) trailing (length significant) of
              None \<Rightarrow> Inl (JsonLimit ''number exponent exceeded'')
            | Some sci \<Rightarrow>
                if \<bar>sci\<bar> > max_exponent then Inl (JsonLimit ''number exponent exceeded'')
                else Inr \<lparr>an_negative = negative, an_significant = significant,
                          an_exponent = sci\<rparr>)))"

definition validate_number :: "string \<Rightarrow> nat \<Rightarrow> int \<Rightarrow> domain_error + unit" where
  "validate_number raw max_digits max_exponent =
     bindR (analyze raw max_digits max_exponent) (\<lambda>_. Inr ())"

definition plain_decimal :: "string \<Rightarrow> int \<Rightarrow> string" where
  "plain_decimal significant decimal_position =
     (if decimal_position \<le> 0
      then ''0.'' @ replicate (nat (- decimal_position)) (CHR ''0'') @ significant
      else if nat decimal_position \<ge> length significant
      then significant @ replicate (nat decimal_position - length significant) (CHR ''0'')
      else take (nat decimal_position) significant @ ''.''
           @ drop (nat decimal_position) significant)"

definition render_analyzed :: "analyzed_number \<Rightarrow> string" where
  "render_analyzed n =
     (if an_significant n = [] then ''0''
      else (if an_negative n then ''-'' else [])
           @ plain_decimal (an_significant n) (an_exponent n + 1))"

definition normalize_number :: "string \<Rightarrow> domain_error + string" where
  "normalize_number raw =
     bindR (analyze raw MAX_NUMBER_DIGITS MAX_EXPONENT_MAGNITUDE) (\<lambda>n.
       Inr (render_analyzed n))"

section \<open>Specification: number texts and their values\<close>

text \<open>
  The JSON number grammar (leading zeros allowed, which only makes the statements
  stronger): sign, integer digits, optional fraction digits, optional exponent with the
  exponent letter, an optional sign and digits.
\<close>

datatype exp_sign = ENone | EPlus | EMinus

record number_text =
  nt_negative :: bool
  nt_integer :: string
  nt_fraction :: "string option"
  nt_exponent :: "(char \<times> exp_sign \<times> string) option"

fun exp_sign_text :: "exp_sign \<Rightarrow> string" where
  "exp_sign_text ENone = []"
| "exp_sign_text EPlus = ''+''"
| "exp_sign_text EMinus = ''-''"

definition fraction_digits :: "number_text \<Rightarrow> string" where
  "fraction_digits t = (case nt_fraction t of None \<Rightarrow> [] | Some f \<Rightarrow> f)"

definition exponent_value :: "number_text \<Rightarrow> int" where
  "exponent_value t = (case nt_exponent t of None \<Rightarrow> 0
     | Some (_, sg, ds) \<Rightarrow> (if sg = EMinus then - int (digits_val ds) else int (digits_val ds)))"

definition wf_number_text :: "number_text \<Rightarrow> bool" where
  "wf_number_text t \<longleftrightarrow> nt_integer t \<noteq> [] \<and> list_all is_digit (nt_integer t) \<and>
     (case nt_fraction t of None \<Rightarrow> True | Some f \<Rightarrow> f \<noteq> [] \<and> list_all is_digit f) \<and>
     (case nt_exponent t of None \<Rightarrow> True
      | Some (c, _, ds) \<Rightarrow> is_exp c \<and> ds \<noteq> [] \<and> list_all is_digit ds)"

definition coefficient_text :: "number_text \<Rightarrow> string" where
  "coefficient_text t = nt_integer t @ (case nt_fraction t of None \<Rightarrow> [] | Some f \<Rightarrow> CHR ''.'' # f)"

definition exponent_text :: "number_text \<Rightarrow> string" where
  "exponent_text t = (case nt_exponent t of None \<Rightarrow> []
     | Some (c, sg, ds) \<Rightarrow> c # exp_sign_text sg @ ds)"

definition number_string :: "number_text \<Rightarrow> string" where
  "number_string t = (if nt_negative t then ''-'' else []) @ coefficient_text t @ exponent_text t"

definition sign_factor :: "bool \<Rightarrow> rat" where
  "sign_factor neg = (if neg then - 1 else 1)"

definition decimal_value :: "bool \<Rightarrow> string \<Rightarrow> int \<Rightarrow> rat" where
  "decimal_value neg ds ex = sign_factor neg * of_nat (digits_val ds) * 10 powi ex"

definition number_value :: "number_text \<Rightarrow> rat" where
  "number_value t = decimal_value (nt_negative t) (nt_integer t @ fraction_digits t)
     (exponent_value t - int (length (fraction_digits t)))"

section \<open>Digit strings\<close>

lemma digit_val_0: "digit_val (CHR ''0'') = 0"
  by (simp add: digit_val_def byte_def)

lemma is_digit_0: "is_digit (CHR ''0'')"
  by (simp add: is_digit_def byte_def)

lemma digits_val_zeros_left: "digits_val (replicate n (CHR ''0'') @ ds) = digits_val ds"
  by (induction n) (simp_all add: digits_val_Cons digit_val_0)

lemma digits_val_zeros_right: "digits_val (ds @ replicate n (CHR ''0'')) = digits_val ds * 10 ^ n"
  using digits_val_zeros_left [of n "[]"] by (simp add: digits_val_append)

lemma digits_val_lower:
  assumes "list_all is_digit ds" "ds \<noteq> []" "hd ds \<noteq> CHR ''0''"
  shows "10 ^ (length ds - 1) \<le> digits_val ds"
proof -
  obtain c cs where ds: "ds = c # cs" using assms(2) by (cases ds) auto
  have "digit_val c \<noteq> 0"
    using assms digit_val_inj [of c "CHR ''0''"] by (auto simp: ds digit_val_0 is_digit_0)
  then show ?thesis by (simp add: ds digits_val_Cons trans_le_add1)
qed

lemma digits_val_inj_length:
  "length ds = length es \<Longrightarrow> list_all is_digit ds \<Longrightarrow> list_all is_digit es \<Longrightarrow>
   digits_val ds = digits_val es \<Longrightarrow> ds = es"
proof (induction ds arbitrary: es rule: rev_induct)
  case (snoc c ds)
  then obtain e es' where es: "es = es' @ [e]" by (cases es rule: rev_cases) auto
  have "digit_val c < 10" "digit_val e < 10"
    using snoc.prems by (auto simp: es digit_val_less)
  with snoc.prems(4) have "digits_val ds = digits_val es'" "digit_val c = digit_val e"
    by (simp_all add: es) presburger+
  with snoc show ?case by (auto simp: es intro: digit_val_inj)
qed simp

lemma digits_val_inj:
  assumes "list_all is_digit ds" "list_all is_digit es" "ds \<noteq> []" "es \<noteq> []"
    and "hd ds \<noteq> CHR ''0''" "hd es \<noteq> CHR ''0''" "digits_val ds = digits_val es"
  shows "ds = es"
proof -
  have le: "length xs \<le> length ys"
    if "list_all is_digit xs" "list_all is_digit ys" "xs \<noteq> []" "hd xs \<noteq> CHR ''0''"
      "digits_val xs = digits_val ys" for xs ys
  proof -
    have "(10::nat) ^ (length xs - 1) \<le> digits_val xs" using that by (intro digits_val_lower)
    moreover have "digits_val ys < 10 ^ length ys" using that by (intro digits_val_bound)
    ultimately have "(10::nat) ^ (length xs - 1) < 10 ^ length ys" using that(5) by linarith
    then have "length xs - 1 < length ys" by (simp add: power_less_imp_less_exp)
    then show ?thesis using that(3) by (cases xs) auto
  qed
  show ?thesis
    using assms le [of ds es] le [of es ds] by (auto intro: digits_val_inj_length)
qed

lemma digits_val_not_dvd:
  assumes "list_all is_digit ds" "ds \<noteq> []" "last ds \<noteq> CHR ''0''"
  shows "\<not> 10 dvd digits_val ds"
proof
  assume d: "10 dvd digits_val ds"
  obtain c cs where ds: "ds = cs @ [c]" using assms(2) by (cases ds rule: rev_cases) auto
  have "digit_val c < 10" using assms by (auto simp: ds digit_val_less)
  moreover have "10 dvd digit_val c" using d by (simp add: ds dvd_add_right_iff)
  ultimately have "digit_val c = 0" by (metis gr0I nat_dvd_not_less)
  then show False
    using assms digit_val_inj [of c "CHR ''0''"] by (auto simp: ds digit_val_0 is_digit_0)
qed

section \<open>Analysed numbers\<close>

definition wf_analyzed :: "analyzed_number \<Rightarrow> bool" where
  "wf_analyzed n \<longleftrightarrow> list_all is_digit (an_significant n) \<and>
     (if an_significant n = [] then \<not> an_negative n \<and> an_exponent n = 0
      else hd (an_significant n) \<noteq> CHR ''0'' \<and> last (an_significant n) \<noteq> CHR ''0'')"

definition analyzed_value :: "analyzed_number \<Rightarrow> rat" where
  "analyzed_value n = decimal_value (an_negative n) (an_significant n)
     (an_exponent n + 1 - int (length (an_significant n)))"

lemma powi_shift: "(10::rat) powi p = 10 ^ n * 10 powi (p - int n)"
  by (simp add: power_int_diff)

lemma scaled_digits_inj:
  assumes a: "list_all is_digit a" "a \<noteq> []" "last a \<noteq> CHR ''0''" and le: "p \<le> q"
    and eq: "of_nat (digits_val a) * (10::rat) powi p = of_nat (digits_val b) * 10 powi q"
  shows "p = q \<and> digits_val a = digits_val b"
proof -
  obtain n where q: "q = p + int n" using le zle_iff_zadd by blast
  have "(10::rat) powi q = 10 ^ n * 10 powi p" by (simp add: q power_int_add)
  with eq have "of_nat (digits_val a) * (10::rat) powi p
      = of_nat (digits_val b * 10 ^ n) * 10 powi p" by simp
  then have eqn: "of_nat (digits_val a) = (of_nat (digits_val b * 10 ^ n) :: rat)"
    by (simp only: mult_cancel_right) simp
  then have "digits_val a = digits_val b * 10 ^ n" by (simp only: of_nat_eq_iff)
  moreover have "n = 0"
    using digits_val_not_dvd [OF a] calculation by (cases n) auto
  ultimately show ?thesis by (simp add: q)
qed

lemma analyzed_value_0:
  assumes "wf_analyzed n"
  shows "analyzed_value n = 0 \<longleftrightarrow> an_significant n = []"
  using assms digits_val_pos [of "an_significant n"]
  by (auto simp: wf_analyzed_def analyzed_value_def decimal_value_def sign_factor_def
      split: if_splits)

lemma analyzed_value_sign:
  assumes "wf_analyzed n" "an_significant n \<noteq> []"
  shows "analyzed_value n < 0 \<longleftrightarrow> an_negative n"
  using assms digits_val_pos [of "an_significant n"]
  by (auto simp: wf_analyzed_def analyzed_value_def decimal_value_def sign_factor_def
      mult_less_0_iff zero_less_power_int not_less split: if_splits)

lemma analyzed_value_inj:
  assumes wf: "wf_analyzed m" "wf_analyzed n" and eq: "analyzed_value m = analyzed_value n"
  shows "m = n"
proof (cases "an_significant m = []")
  case True
  then have "an_significant n = []" using analyzed_value_0 wf eq by metis
  with True wf show ?thesis by (simp add: wf_analyzed_def analyzed_number.equality)
next
  case m: False
  then have n: "an_significant n \<noteq> []" using analyzed_value_0 wf eq by metis
  have neg: "an_negative m = an_negative n"
    using analyzed_value_sign wf m n eq by metis
  define p where "p = an_exponent m + 1 - int (length (an_significant m))"
  define q where "q = an_exponent n + 1 - int (length (an_significant n))"
  have dig: "list_all is_digit (an_significant m)" "list_all is_digit (an_significant n)"
    "hd (an_significant m) \<noteq> CHR ''0''" "hd (an_significant n) \<noteq> CHR ''0''"
    "last (an_significant m) \<noteq> CHR ''0''" "last (an_significant n) \<noteq> CHR ''0''"
    using wf m n by (simp_all add: wf_analyzed_def)
  have "of_nat (digits_val (an_significant m)) * (10::rat) powi p
      = of_nat (digits_val (an_significant n)) * 10 powi q"
    using eq neg by (simp add: analyzed_value_def decimal_value_def sign_factor_def p_def q_def
        split: if_splits)
  then have "p = q \<and> digits_val (an_significant m) = digits_val (an_significant n)"
    using scaled_digits_inj [of "an_significant m" p q "an_significant n"]
      scaled_digits_inj [of "an_significant n" q p "an_significant m"] dig m n
    by (cases "p \<le> q") auto
  moreover from this have "an_significant m = an_significant n"
    using digits_val_inj dig m n by blast
  ultimately have "an_exponent m = an_exponent n" by (simp add: p_def q_def)
  with neg \<open>an_significant m = an_significant n\<close> show ?thesis
    by (simp add: analyzed_number.equality)
qed

section \<open>Analysis of number texts\<close>

lemma digit_not_special:
  assumes "is_digit c"
  shows "c \<noteq> CHR ''.''" "c \<noteq> CHR ''-''" "c \<noteq> CHR ''+''" "\<not> is_exp c"
  using assms by (auto simp: is_digit_def byte_def is_exp_def)

lemma digits_not_special:
  assumes "list_all is_digit ds"
  shows "list_all (\<lambda>c. \<not> is_exp c) ds" "list_all (\<lambda>c. c \<noteq> CHR ''.'') ds"
  using assms digit_not_special by (auto simp: list_all_iff)

lemma strip_minus_number_string:
  assumes "wf_number_text t"
  shows "strip_minus (number_string t) = (nt_negative t, coefficient_text t @ exponent_text t)"
proof -
  obtain c ds where "nt_integer t = c # ds" "is_digit c"
    using assms by (cases "nt_integer t") (auto simp: wf_number_text_def)
  then show ?thesis
    using digit_not_special(2)
    by (auto simp: strip_minus_def number_string_def coefficient_text_def)
qed

lemma coefficient_no_exp: "wf_number_text t \<Longrightarrow> list_all (\<lambda>c. \<not> is_exp c) (coefficient_text t)"
  using digits_not_special
  by (auto simp: wf_number_text_def coefficient_text_def is_exp_def split: option.splits)

lemma parse_exponent:
  assumes "ds \<noteq> []" "list_all is_digit ds" "parse_i64 (exp_sign_text sg @ ds) = Some v"
  shows "v = (if sg = EMinus then - int (digits_val ds) else int (digits_val ds))"
proof -
  obtain c cs where ds: "ds = c # cs" using assms(1) by (cases ds) auto
  then show ?thesis
    using assms digit_not_special [of c]
    by (cases sg) (auto simp: parse_i64_def parse_signed_def Let_def split: if_splits)
qed

lemma split_exponent_number_text:
  assumes wf: "wf_number_text t"
    and sp: "split_exponent (coefficient_text t @ exponent_text t) m = Inr (c, ex)"
  shows "c = coefficient_text t \<and> ex = exponent_value t"
proof (cases "nt_exponent t")
  case None
  then show ?thesis
    using sp split_once_None [OF coefficient_no_exp [OF wf]]
    by (simp add: split_exponent_def exponent_text_def exponent_value_def)
next
  case (Some p)
  then obtain e sg ds where p: "nt_exponent t = Some (e, sg, ds)" by (cases p) auto
  with wf have e: "is_exp e" "ds \<noteq> []" "list_all is_digit ds"
    by (simp_all add: wf_number_text_def)
  have "split_once is_exp (coefficient_text t @ exponent_text t)
      = Some (coefficient_text t, exp_sign_text sg @ ds)"
    using split_once_Some [OF coefficient_no_exp [OF wf] e(1)] by (simp add: p exponent_text_def)
  then show ?thesis
    using sp parse_exponent [OF e(2,3), of sg ex]
    by (auto simp: split_exponent_def p exponent_value_def split: option.splits if_splits)
qed

lemma split_fraction_number_text:
  assumes "wf_number_text t"
  shows "(case split_once (\<lambda>c. c = CHR ''.'') (coefficient_text t) of
            None \<Rightarrow> (coefficient_text t, []) | Some p \<Rightarrow> p) = (nt_integer t, fraction_digits t)"
  using assms digits_not_special(2)
    split_once_Some [where p = "\<lambda>c. c = CHR ''.''" and l = "nt_integer t" and c = "CHR ''.''"]
    split_once_None [where p = "\<lambda>c. c = CHR ''.''" and s = "nt_integer t"]
  by (cases "nt_fraction t")
     (auto simp: wf_number_text_def coefficient_text_def fraction_digits_def)

lemma fraction_digits_wf: "wf_number_text t \<Longrightarrow> list_all is_digit (nt_integer t @ fraction_digits t)"
  by (auto simp: wf_number_text_def fraction_digits_def split: option.splits)

lemma trimmed_digits:
  assumes "list_all is_digit raw"
  obtains k n where "raw = replicate k (CHR ''0'') @ trim_start (CHR ''0'') raw"
    "trim_start (CHR ''0'') raw
       = trim_end (CHR ''0'') (trim_start (CHR ''0'') raw) @ replicate n (CHR ''0'')"
    "list_all is_digit (trim_end (CHR ''0'') (trim_start (CHR ''0'') raw))"
proof -
  obtain k where k: "raw = replicate k (CHR ''0'') @ trim_start (CHR ''0'') raw"
    using trim_start_decomp by blast
  moreover obtain n where n: "trim_start (CHR ''0'') raw
      = trim_end (CHR ''0'') (trim_start (CHR ''0'') raw) @ replicate n (CHR ''0'')"
    using trim_end_decomp by blast
  moreover have "list_all is_digit (trim_start (CHR ''0'') raw)"
    using assms by (subst (asm) k) simp
  then have "list_all is_digit (trim_end (CHR ''0'') (trim_start (CHR ''0'') raw))"
    by (subst (asm) n) simp
  ultimately show ?thesis by (rule that)
qed

lemma trimmed_nonempty:
  assumes "trim_start z raw \<noteq> []"
  shows "trim_end z (trim_start z raw) \<noteq> []"
    and "hd (trim_end z (trim_start z raw)) = hd (trim_start z raw)"
proof -
  obtain n where n: "trim_start z raw = trim_end z (trim_start z raw) @ replicate n z"
    using trim_end_decomp by blast
  show ne: "trim_end z (trim_start z raw) \<noteq> []"
  proof
    assume "trim_end z (trim_start z raw) = []"
    with n have r: "trim_start z raw = replicate n z" by simp
    with assms have "hd (trim_start z raw) = z" by (cases n) auto
    with trim_start_hd [OF assms] show False by simp
  qed
  then show "hd (trim_end z (trim_start z raw)) = hd (trim_start z raw)"
    by (metis n hd_append2)
qed

lemma decimal_value_shift:
  "digits_val ds = digits_val es * 10 ^ j \<Longrightarrow> p + int j = q \<Longrightarrow>
   decimal_value neg ds p = decimal_value neg es q"
  by (auto simp: decimal_value_def power_int_add)

lemma analyze_number_text:
  assumes wf: "wf_number_text t" and an: "analyze (number_string t) md me = Inr n"
  shows "wf_analyzed n \<and> analyzed_value n = number_value t"
proof -
  define raw where "raw = nt_integer t @ fraction_digits t"
  define lead where "lead = trim_start (CHR ''0'') raw"
  define sig where "sig = trim_end (CHR ''0'') lead"
  have raw: "list_all is_digit raw" using fraction_digits_wf [OF wf] by (simp add: raw_def)
  obtain k j where kj: "raw = replicate k (CHR ''0'') @ lead" "lead = sig @ replicate j (CHR ''0'')"
    "list_all is_digit sig"
    using trimmed_digits [OF raw] unfolding lead_def sig_def by metis
  have val: "digits_val raw = digits_val sig * 10 ^ j"
    using kj(1,2) by (metis digits_val_zeros_left digits_val_zeros_right)
  obtain c ex where sp: "split_exponent (coefficient_text t @ exponent_text t) me = Inr (c, ex)"
    using an by (auto simp: analyze_def strip_minus_number_string [OF wf] bindR_eq_Inr
        split: if_splits)
  then have c: "c = coefficient_text t" "ex = exponent_value t"
    using split_exponent_number_text [OF wf] by blast+
  note an' = an [unfolded analyze_def strip_minus_number_string [OF wf] Let_def prod.case sp
      bindR_simps c split_fraction_number_text [OF wf] raw_def [symmetric]
      lead_def [symmetric] sig_def [symmetric]]
  show ?thesis
  proof (cases "lead = []")
    case True
    then have "digits_val raw = 0" using kj(1) digits_val_zeros_left [of k "[]"] by simp
    with True an' show ?thesis
      by (auto simp: wf_analyzed_def analyzed_value_def number_value_def decimal_value_def raw_def
          split: if_splits)
  next
    case False
    have sig: "sig \<noteq> []" "hd sig \<noteq> CHR ''0''" "last sig \<noteq> CHR ''0''"
      using trimmed_nonempty [of "CHR ''0''" raw] trim_start_hd [of "CHR ''0''" raw]
        trim_end_last [of "CHR ''0''" lead] False by (auto simp: lead_def sig_def)
    have j: "length lead - length sig = j" using kj(2) by (metis add_diff_cancel_left' length_append length_replicate)
    have n: "n = \<lparr>an_negative = nt_negative t, an_significant = sig, an_exponent =
        exponent_value t - int (length (fraction_digits t)) + int j + (int (length sig) - 1)\<rparr>"
      using an' False
      by (auto simp: j scientific_exponent_def split: if_splits option.splits Option.bind_splits)
    have "analyzed_value n = number_value t"
      unfolding n analyzed_value_def number_value_def raw_def [symmetric] analyzed_number.select_convs
      by (rule decimal_value_shift [symmetric, OF val]) simp
    moreover have "wf_analyzed n" using sig kj(3) by (simp add: n wf_analyzed_def)
    ultimately show ?thesis by simp
  qed
qed

section \<open>The rendered form\<close>

lemma digits_val_zero_Cons: "digits_val (CHR ''0'' # ds) = digits_val ds"
  by (simp add: digits_val_Cons digit_val_0)

definition plain_text :: "analyzed_number \<Rightarrow> number_text" where
  "plain_text n =
     (let sig = an_significant n; dp = an_exponent n + 1 in
      if sig = [] then \<lparr>nt_negative = False, nt_integer = ''0'', nt_fraction = None, nt_exponent = None\<rparr>
      else if dp \<le> 0
      then \<lparr>nt_negative = an_negative n, nt_integer = ''0'',
            nt_fraction = Some (replicate (nat (- dp)) (CHR ''0'') @ sig), nt_exponent = None\<rparr>
      else if nat dp \<ge> length sig
      then \<lparr>nt_negative = an_negative n,
            nt_integer = sig @ replicate (nat dp - length sig) (CHR ''0''),
            nt_fraction = None, nt_exponent = None\<rparr>
      else \<lparr>nt_negative = an_negative n, nt_integer = take (nat dp) sig,
            nt_fraction = Some (drop (nat dp) sig), nt_exponent = None\<rparr>)"

lemma render_plain_text: "render_analyzed n = number_string (plain_text n)"
  by (simp add: render_analyzed_def plain_decimal_def plain_text_def number_string_def
      coefficient_text_def exponent_text_def Let_def)

lemma plain_text_no_exponent: "nt_exponent (plain_text n) = None"
  by (simp add: plain_text_def Let_def)

lemma plain_text_wf: "wf_analyzed n \<Longrightarrow> wf_number_text (plain_text n)"
  by (auto simp: plain_text_def wf_number_text_def wf_analyzed_def Let_def is_digit_0 list_all_iff
      dest: in_set_takeD in_set_dropD split: if_splits)

lemma plain_text_value:
  assumes "wf_analyzed n"
  shows "number_value (plain_text n) = analyzed_value n"
proof (cases "an_significant n = []")
  case True
  with assms show ?thesis
    by (simp add: plain_text_def number_value_def analyzed_value_def decimal_value_def
        fraction_digits_def digits_val_def digit_val_0 Let_def)
next
  case ne: False
  define dp where "dp = an_exponent n + 1"
  consider (small) "dp \<le> 0" | (big) "dp > 0" "nat dp \<ge> length (an_significant n)"
    | (mid) "dp > 0" "nat dp < length (an_significant n)" by linarith
  then show ?thesis
  proof cases
    case small
    then show ?thesis using ne
      by (simp add: plain_text_def number_value_def analyzed_value_def Let_def fraction_digits_def
          exponent_value_def dp_def digits_val_Cons digit_val_0)
        (rule decimal_value_shift [where j = 0], simp_all add: digits_val_zeros_left digits_val_zero_Cons)
  next
    case big
    then show ?thesis using ne
      by (simp add: plain_text_def number_value_def analyzed_value_def Let_def fraction_digits_def
          exponent_value_def dp_def)
        (rule decimal_value_shift, rule digits_val_zeros_right, simp)
  next
    case mid
    then show ?thesis using ne
      by (simp add: plain_text_def number_value_def analyzed_value_def Let_def fraction_digits_def
          exponent_value_def dp_def)
  qed
qed

lemma normalize_number_text:
  assumes "wf_number_text t" "normalize_number (number_string t) = Inr s"
  shows "\<exists>n. wf_analyzed n \<and> analyzed_value n = number_value t \<and> s = number_string (plain_text n)"
proof -
  obtain n where n: "analyze (number_string t) MAX_NUMBER_DIGITS MAX_EXPONENT_MAGNITUDE = Inr n"
    "s = render_analyzed n"
    using assms(2) by (auto simp: normalize_number_def bindR_eq_Inr)
  then show ?thesis using analyze_number_text [OF assms(1) n(1)] by (auto simp: render_plain_text)
qed

lemma number_string_value:
  assumes "wf_number_text t" "wf_number_text u" "number_string t = number_string u"
    "nt_exponent t = None" "nt_exponent u = None"
  shows "number_value t = number_value u"
proof -
  have "(nt_negative t, coefficient_text t) = (nt_negative u, coefficient_text u)"
    using strip_minus_number_string [OF assms(1)] strip_minus_number_string [OF assms(2)] assms
    by (simp add: exponent_text_def)
  moreover from this have "(nt_integer t, fraction_digits t) = (nt_integer u, fraction_digits u)"
    using split_fraction_number_text [OF assms(1)] split_fraction_number_text [OF assms(2)]
    by (metis prod.inject)
  ultimately show ?thesis
    using assms(4,5) by (simp add: number_value_def exponent_value_def)
qed

text \<open>
  A JSON number text that the canonicaliser accepts becomes a plain decimal text (no
  exponent) with exactly the same rational value.
\<close>
theorem normalize_number_value:
  assumes "wf_number_text t" "normalize_number (number_string t) = Inr s"
  shows "\<exists>u. wf_number_text u \<and> nt_exponent u = None \<and> s = number_string u
    \<and> number_value u = number_value t"
  using normalize_number_text [OF assms]
  by (metis plain_text_wf plain_text_no_exponent plain_text_value)

text \<open>
  Two accepted number texts have the same canonical form exactly when they denote the
  same rational number.
\<close>
theorem normalize_number_canonical:
  assumes "wf_number_text t" "normalize_number (number_string t) = Inr s"
    and "wf_number_text u" "normalize_number (number_string u) = Inr r"
  shows "s = r \<longleftrightarrow> number_value t = number_value u"
proof -
  obtain m where m: "wf_analyzed m" "analyzed_value m = number_value t" "s = number_string (plain_text m)"
    using normalize_number_text [OF assms(1,2)] by blast
  obtain n where n: "wf_analyzed n" "analyzed_value n = number_value u" "r = number_string (plain_text n)"
    using normalize_number_text [OF assms(3,4)] by blast
  show ?thesis
    using m n analyzed_value_inj plain_text_value plain_text_wf number_string_value
      plain_text_no_exponent by metis
qed

section \<open>Which canonical forms are accepted again\<close>

definition written_digits :: "number_text \<Rightarrow> nat" where
  "written_digits t = length (nt_integer t) + length (fraction_digits t)"

lemma scientific_exponent_small:
  assumes "f + tr + sg \<le> 1000"
  shows "scientific_exponent 0 f tr sg = Some (int tr + int sg - 1 - int f)"
  using assms by (simp add: scientific_exponent_def checked_i64_def i64_min_def i64_max_def)

lemma analyze_plain_total:
  assumes wf: "wf_number_text t" and ex: "nt_exponent t = None"
    and small: "written_digits t \<le> md" "md \<le> 500" "0 < md" "1000 \<le> me"
  shows "\<exists>n. analyze (number_string t) md me = Inr n"
proof -
  define raw where "raw = nt_integer t @ fraction_digits t"
  define lead where "lead = trim_start (CHR ''0'') raw"
  define sig where "sig = trim_end (CHR ''0'') lead"
  have len: "length raw \<le> md" "length (fraction_digits t) \<le> length raw"
    using small by (simp_all add: raw_def written_digits_def)
  have lens: "length sig \<le> length lead" "length lead \<le> length raw"
    unfolding sig_def lead_def trim_end_def trim_start_def
    by (simp_all add: length_dropWhile_le) (metis length_dropWhile_le length_rev)
  have sp: "split_exponent (coefficient_text t @ exponent_text t) me = Inr (coefficient_text t, 0)"
    using split_once_None [OF coefficient_no_exp [OF wf]]
    by (simp add: split_exponent_def exponent_text_def ex)
  define sci where "sci = int (length lead - length sig) + int (length sig) - 1
      - int (length (fraction_digits t))"
  have "scientific_exponent 0 (length (fraction_digits t)) (length lead - length sig) (length sig)
      = Some sci"
    unfolding sci_def by (rule scientific_exponent_small) (use len lens small in linarith)
  moreover have "\<bar>sci\<bar> \<le> me" unfolding sci_def using len lens small by linarith
  ultimately show ?thesis
    using small len
    unfolding analyze_def strip_minus_number_string [OF wf] Let_def prod.case sp bindR_simps
      split_fraction_number_text [OF wf] raw_def [symmetric] lead_def [symmetric] sig_def [symmetric]
    by auto
qed

lemma analyze_plain_too_long:
  assumes wf: "wf_number_text t" and ex: "nt_exponent t = None"
    and long: "md < written_digits t" "0 < md" "0 \<le> me"
  shows "analyze (number_string t) md me = Inl (JsonLimit ''number digits exceeded'')"
proof -
  have sp: "split_exponent (coefficient_text t @ exponent_text t) me = Inr (coefficient_text t, 0)"
    using split_once_None [OF coefficient_no_exp [OF wf]]
    by (simp add: split_exponent_def exponent_text_def ex)
  have "\<not> length (nt_integer t @ fraction_digits t) \<le> md"
    using long(1) by (simp add: written_digits_def)
  then show ?thesis using long
    unfolding analyze_def strip_minus_number_string [OF wf] Let_def prod.case sp bindR_simps
      split_fraction_number_text [OF wf]
    by simp
qed

text \<open>
  A canonical form is a fixed point of the canonicaliser when it writes at most 128
  digits, and is refused otherwise.
\<close>
theorem normalize_number_again:
  assumes "wf_number_text t" "normalize_number (number_string t) = Inr s"
  shows "\<exists>u. wf_number_text u \<and> s = number_string u \<and> number_value u = number_value t
    \<and> normalize_number s =
       (if written_digits u \<le> MAX_NUMBER_DIGITS then Inr s
        else Inl (JsonLimit ''number digits exceeded''))"
proof -
  obtain n where n: "wf_analyzed n" "analyzed_value n = number_value t" "s = number_string (plain_text n)"
    using normalize_number_text [OF assms] by blast
  let ?u = "plain_text n"
  have u: "wf_number_text ?u" "nt_exponent ?u = None" "number_value ?u = analyzed_value n"
    using n plain_text_wf plain_text_no_exponent plain_text_value by blast+
  have "normalize_number s = (if written_digits ?u \<le> MAX_NUMBER_DIGITS then Inr s
        else Inl (JsonLimit ''number digits exceeded''))"
  proof (cases "written_digits ?u \<le> MAX_NUMBER_DIGITS")
    case True
    then obtain m where m: "analyze s MAX_NUMBER_DIGITS MAX_EXPONENT_MAGNITUDE = Inr m"
      using analyze_plain_total [OF u(1,2), of MAX_NUMBER_DIGITS MAX_EXPONENT_MAGNITUDE] n(3)
      by (auto simp: MAX_NUMBER_DIGITS_def MAX_EXPONENT_MAGNITUDE_def)
    then have "wf_analyzed m \<and> analyzed_value m = number_value ?u"
      using analyze_number_text [OF u(1)] n(3) by blast
    then have "m = n" using analyzed_value_inj n(1) u(3) by simp
    with m True show ?thesis by (simp add: normalize_number_def render_plain_text n(3))
  next
    case False
    then show ?thesis
      using analyze_plain_too_long [OF u(1,2)] n(3)
      by (simp add: normalize_number_def MAX_NUMBER_DIGITS_def MAX_EXPONENT_MAGNITUDE_def)
  qed
  with u n show ?thesis by (intro exI [of _ ?u]) simp
qed

definition text_1e200 :: number_text where
  "text_1e200 = \<lparr>nt_negative = False, nt_integer = ''1'', nt_fraction = None,
     nt_exponent = Some (CHR ''e'', ENone, ''200'')\<rparr>"

definition text_12_50e1 :: number_text where
  "text_12_50e1 = \<lparr>nt_negative = False, nt_integer = ''12'', nt_fraction = Some ''50'',
     nt_exponent = Some (CHR ''e'', EPlus, ''1'')\<rparr>"

lemma normalize_number_value_witness:
  "wf_number_text text_12_50e1 \<and> normalize_number (number_string text_12_50e1) = Inr ''125''
   \<and> (\<exists>u. wf_number_text u \<and> nt_exponent u = None \<and> ''125'' = number_string u
          \<and> number_value u = number_value text_12_50e1)"
proof -
  have h: "wf_number_text text_12_50e1" "normalize_number (number_string text_12_50e1) = Inr ''125''"
    by code_simp+
  show ?thesis using h normalize_number_value [OF h] by blast
qed

lemma normalize_number_canonical_witness:
  "\<exists>s. normalize_number (number_string text_1e200) = Inr s
     \<and> (s = ''125'' \<longleftrightarrow> number_value text_1e200 = number_value text_12_50e1)"
proof -
  have h: "wf_number_text text_1e200"
    "normalize_number (number_string text_1e200) = Inr (CHR ''1'' # replicate 200 (CHR ''0''))"
    "wf_number_text text_12_50e1" "normalize_number (number_string text_12_50e1) = Inr ''125''"
    by code_simp+
  show ?thesis using h normalize_number_canonical [OF h] by blast
qed

lemma normalize_number_again_witness:
  "\<exists>s u. normalize_number (number_string text_1e200) = Inr s \<and> s = number_string u
     \<and> normalize_number s = (if written_digits u \<le> MAX_NUMBER_DIGITS then Inr s
        else Inl (JsonLimit ''number digits exceeded''))"
proof -
  have h: "wf_number_text text_1e200"
    "normalize_number (number_string text_1e200) = Inr (CHR ''1'' # replicate 200 (CHR ''0''))"
    by code_simp+
  show ?thesis using h normalize_number_again [OF h] by blast
qed

text \<open>
  The canonical form of \<open>1e200\<close>, an accepted number, is itself refused: writing a
  document out canonically and canonicalising it again can fail.
\<close>
theorem canonical_form_refused:
  "\<exists>s. normalize_number ''1e200'' = Inr s
     \<and> normalize_number s = Inl (JsonLimit ''number digits exceeded'')"
  by (rule exI [of _ "CHR ''1'' # replicate 200 (CHR ''0'')"]) code_simp

end
