(* ===== verification/Ordmap.thy ===== *)
theory Ordmap
  imports Prelude
begin

text \<open>
  \<open>std::collections::BTreeMap\<close> (which is also \<open>serde_json::Map\<close> in this build, whose
  \<open>preserve_order\<close> feature is off): an association list with strictly ascending keys.
  The locale \<open>ordered_map\<close> is the interface its clients use; the interpretation
  \<open>om\<close> discharges its laws for the list model.
\<close>

section \<open>The interface\<close>

locale ordered_map =
  fixes empty :: "'m"
    and get :: "'m \<Rightarrow> 'k::linorder \<Rightarrow> 'v option"
    and put :: "'k \<Rightarrow> 'v \<Rightarrow> 'm \<Rightarrow> 'm"
    and del :: "'k \<Rightarrow> 'm \<Rightarrow> 'm"
    and keys :: "'m \<Rightarrow> 'k list"
    and wf :: "'m \<Rightarrow> bool"
  assumes get_empty: "get empty k = None"
    and get_put: "get (put k v m) k' = (if k' = k then Some v else get m k')"
    and get_del: "wf m \<Longrightarrow> get (del k m) k' = (if k' = k then None else get m k')"
    and keys_get: "k \<in> set (keys m) \<longleftrightarrow> get m k \<noteq> None"
    and keys_sorted: "wf m \<Longrightarrow> sorted_wrt (<) (keys m)"
    and wf_empty: "wf empty"
    and wf_put: "wf m \<Longrightarrow> wf (put k v m)"
    and wf_del: "wf m \<Longrightarrow> wf (del k m)"
    and ext: "wf m \<Longrightarrow> wf m' \<Longrightarrow> (\<And>k. get m k = get m' k) \<Longrightarrow> m = m'"
begin

lemma put_commute:
  assumes "wf m" "k \<noteq> l"
  shows "put k v (put l w m) = put l w (put k v m)"
  by (rule ext) (use assms in \<open>auto simp: wf_put get_put\<close>)

lemma put_del_commute:
  assumes "wf m" "k \<noteq> l"
  shows "put k v (del l m) = del l (put k v m)"
  by (rule ext) (use assms in \<open>auto simp: wf_put wf_del get_put get_del\<close>)

lemma del_commute:
  assumes "wf m"
  shows "del k (del l m) = del l (del k m)"
  by (rule ext) (use assms in \<open>auto simp: wf_del get_del\<close>)

lemma put_same:
  assumes "wf m" "get m k = Some v"
  shows "put k v m = m"
  by (rule ext) (use assms in \<open>auto simp: wf_put get_put\<close>)

lemma put_put:
  assumes "wf m"
  shows "put k v (put k w m) = put k v m"
  by (rule ext) (use assms in \<open>auto simp: wf_put get_put\<close>)

lemma del_absent:
  assumes "wf m" "get m k = None"
  shows "del k m = m"
  by (rule ext) (use assms in \<open>auto simp: wf_del get_del\<close>)

end

section \<open>The implementation\<close>

type_synonym ('k, 'v) omap = "('k \<times> 'v) list"

fun om_insert :: "'k::linorder \<Rightarrow> 'v \<Rightarrow> ('k, 'v) omap \<Rightarrow> ('k, 'v) omap" where
  "om_insert k v [] = [(k, v)]"
| "om_insert k v ((l, w) # m) =
     (if k < l then (k, v) # (l, w) # m else if k = l then (k, v) # m
      else (l, w) # om_insert k v m)"

definition om_remove :: "'k \<Rightarrow> ('k, 'v) omap \<Rightarrow> ('k, 'v) omap" where
  "om_remove k m = filter (\<lambda>(l, _). l \<noteq> k) m"

definition om_get :: "('k, 'v) omap \<Rightarrow> 'k \<Rightarrow> 'v option" where
  "om_get m k = map_of m k"

definition om_keys :: "('k, 'v) omap \<Rightarrow> 'k list" where
  "om_keys m = map fst m"

definition om_wf :: "('k::linorder, 'v) omap \<Rightarrow> bool" where
  "om_wf m \<longleftrightarrow> sorted_wrt (<) (map fst m)"

definition om_of_list :: "('k::linorder \<times> 'v) list \<Rightarrow> ('k, 'v) omap" where
  "om_of_list kvs = fold (\<lambda>(k, v). om_insert k v) kvs []"

lemma om_get_insert: "om_get (om_insert k v m) k' = (if k' = k then Some v else om_get m k')"
  unfolding om_get_def by (induction k v m rule: om_insert.induct) auto

lemma om_get_remove: "om_get (om_remove k m) k' = (if k' = k then None else om_get m k')"
  unfolding om_get_def om_remove_def by (induction m) (auto split: if_splits)

lemma om_insert_keys: "set (map fst (om_insert k v m)) = insert k (set (map fst m))"
  by (induction k v m rule: om_insert.induct) auto

lemma om_wf_insert: "om_wf m \<Longrightarrow> om_wf (om_insert k v m)"
  unfolding om_wf_def
proof (induction k v m rule: om_insert.induct)
  case (2 k v l w m)
  have "fst ` set (om_insert k v m) = insert k (fst ` set m)"
    using om_insert_keys [of k v m] by simp
  with 2 show ?case by auto
qed simp

lemma om_wf_remove: "om_wf m \<Longrightarrow> om_wf (om_remove k m)"
  unfolding om_wf_def om_remove_def by (induction m) (auto split: if_splits)

lemma om_wf_distinct: "om_wf m \<Longrightarrow> distinct (map fst m)"
  unfolding om_wf_def by (simp add: strict_sorted_iff)

lemma om_ext:
  assumes "om_wf m" "om_wf m'" "\<And>k. om_get m k = om_get m' k"
  shows "m = m'"
proof -
  have "map_of m = map_of m'"
    using assms(3) unfolding om_get_def by (rule ext)
  then have "set m = set m'"
    using assms(1,2) om_wf_distinct map_of_inject_set by blast
  moreover have "sorted (map fst m)" "sorted (map fst m')"
    using assms(1,2) unfolding om_wf_def by (simp_all add: strict_sorted_imp_sorted)
  ultimately show ?thesis
    using assms(1,2) om_wf_distinct map_sorted_distinct_set_unique [of fst m m']
    by (metis (no_types, lifting) distinct_map inj_on_Un sup.idem)
qed

interpretation om: ordered_map "[]" om_get om_insert om_remove om_keys om_wf
proof unfold_locales
  show "k \<in> set (om_keys m) \<longleftrightarrow> om_get m k \<noteq> None" for k :: 'a and m :: "('a, 'b) omap"
    by (simp add: om_keys_def om_get_def map_of_eq_None_iff)
  show "m = m'" if "om_wf m" "om_wf m'" "\<And>k. om_get m k = om_get m' k" for m m' :: "('a, 'b) omap"
    using that by (rule om_ext)
  show "om_wf m \<Longrightarrow> sorted_wrt (<) (om_keys m)" for m :: "('a, 'b) omap"
    by (simp add: om_wf_def om_keys_def)
  show "om_wf ([] :: ('a, 'b) omap)"
    by (simp add: om_wf_def)
  show "om_get ([] :: ('a, 'b) omap) k = None" for k
    by (simp add: om_get_def)
qed (simp_all add: om_get_insert om_get_remove om_wf_insert om_wf_remove)

lemma om_get_set: "om_wf m \<Longrightarrow> om_get m k = Some v \<longleftrightarrow> (k, v) \<in> set m"
  unfolding om_get_def by (simp add: om_wf_distinct)

lemma om_get_in_set: "om_get m k = Some v \<Longrightarrow> (k, v) \<in> set m"
  unfolding om_get_def by (rule map_of_SomeD)

lemma om_insert_set_subset: "set (om_insert k v m) \<subseteq> insert (k, v) (set m)"
  by (induction k v m rule: om_insert.induct) auto

lemma om_remove_set_subset: "set (om_remove k m) \<subseteq> set m"
  by (auto simp: om_remove_def)

lemma om_wf_of_list_aux: "om_wf acc \<Longrightarrow> om_wf (fold (\<lambda>(k, v). om_insert k v) kvs acc)"
  by (induction kvs arbitrary: acc) (auto simp: om_wf_insert)

lemma om_wf_of_list [simp]: "om_wf (om_of_list kvs)"
  unfolding om_of_list_def by (rule om_wf_of_list_aux) (simp add: om_wf_def)

lemma om_get_of_list_aux:
  "om_get (fold (\<lambda>(k, v). om_insert k v) kvs acc) k =
     (case map_of (rev kvs) k of None \<Rightarrow> om_get acc k | Some v \<Rightarrow> Some v)"
  by (induction kvs arbitrary: acc)
     (auto simp: om_get_insert map_add_def split: option.splits)

text \<open>A later entry replaces an earlier one with the same key, as collecting into a map does.\<close>

lemma om_get_of_list: "om_get (om_of_list kvs) k = map_of (rev kvs) k"
  using om_get_of_list_aux [of kvs "[]" k]
  by (simp add: om_of_list_def om_get_def split: option.splits)

lemma om_of_list_idem:
  assumes "om_wf m"
  shows "om_of_list m = m"
proof (rule om_ext)
  have "map_of (rev m) = map_of m"
    using om_wf_distinct [OF assms] by (subst map_of_inject_set) (simp_all flip: rev_map)
  then show "om_get (om_of_list m) k = om_get m k" for k
    unfolding om_get_of_list by (simp add: om_get_def)
qed (use assms in simp_all)

end
