(* ===== verification/Json.thy ===== *)
theory Json
  imports Ordmap
begin

text \<open>
  \<open>serde_json::Value\<close> as the program uses it: with the \<open>arbitrary_precision\<close> feature a
  number is its text, and two numbers are equal when their texts are; objects are ordered
  maps.  The functions of the package that the program calls and that are not under
  \<open>src/\<close> are fields of the record \<open>serde\<close>, an argument of the definitions that use
  them.
\<close>

datatype json =
    JNull
  | JBool bool
  | JNumber string
  | JString string
  | JArray "json list"
  | JObject "(string \<times> json) list"

record serde =
  decode_string :: "string \<Rightarrow> string option"
    \<comment> \<open>\<open>from_str::<String>\<close> of a quoted string literal\<close>
  quote_string :: "string \<Rightarrow> string option"
    \<comment> \<open>\<open>to_string\<close> of a string\<close>
  encoded_len :: "json \<Rightarrow> nat option"
    \<comment> \<open>\<open>to_vec(value).ok().map(len)\<close>\<close>

text \<open>Every object of a document that Rust code can hold is an ordered map.\<close>

fun wf_json :: "json \<Rightarrow> bool" where
  "wf_json (JArray xs) = list_all wf_json xs"
| "wf_json (JObject m) = (om_wf m \<and> list_all (\<lambda>(_, v). wf_json v) m)"
| "wf_json _ = True"

lemma wf_json_object_get: "wf_json (JObject m) \<Longrightarrow> om_get m k = Some v \<Longrightarrow> wf_json v"
  by (auto simp: list_all_iff dest!: om_get_in_set)

lemma wf_json_object_insert: "wf_json (JObject m) \<Longrightarrow> wf_json v \<Longrightarrow> wf_json (JObject (om_insert k v m))"
  using om_insert_set_subset [of k v m] by (auto simp: list_all_iff om_wf_insert)

lemma wf_json_object_remove: "wf_json (JObject m) \<Longrightarrow> wf_json (JObject (om_remove k m))"
  using om_remove_set_subset [of k m] by (auto simp: list_all_iff om_wf_remove)

lemma wf_json_array_nth: "wf_json (JArray xs) \<Longrightarrow> i < length xs \<Longrightarrow> wf_json (xs ! i)"
  by (simp add: list_all_length)

text \<open>Numbers built by \<open>json!\<close> from unsigned integers.\<close>

definition json_nat :: "nat \<Rightarrow> json" where
  "json_nat n = JNumber (show_nat n)"

end
