(* ===== verification/Canonical.thy ===== *)
theory Canonical
  imports Canonical_Number Json
begin

text \<open>
  \<open>crates/core/src/canonical.rs\<close>: the resource limits of documents, canonical
  serialisation and hashing.  The parts that the module takes from \<open>serde_json\<close> (the
  scanner, the escaping of strings) and \<open>sha2\<close> are arguments.
\<close>

section \<open>The code\<close>

definition MAX_JSON_DEPTH :: nat where "MAX_JSON_DEPTH = 128"
definition MAX_JSON_BYTES :: nat where "MAX_JSON_BYTES = 16 * 1024 * 1024"
definition MAX_COLLECTION_ITEMS :: nat where "MAX_COLLECTION_ITEMS = 100000"
definition MAX_STRING_BYTES :: nat where "MAX_STRING_BYTES = 8 * 1024 * 1024"

fun validate_limits :: "json \<Rightarrow> nat \<Rightarrow> domain_error + unit" where
  "validate_limits v depth =
     (if depth > MAX_JSON_DEPTH then Inl (JsonLimit ''max depth exceeded'')
      else case v of
        JString s \<Rightarrow>
          if length s > MAX_STRING_BYTES then Inl (JsonLimit ''string bytes exceeded'') else Inr ()
      | JNumber n \<Rightarrow> bindR (normalize_number n) (\<lambda>_. Inr ())
      | JArray vs \<Rightarrow>
          if length vs > MAX_COLLECTION_ITEMS then Inl (JsonLimit ''collection items exceeded'')
          else bindR (mapR (\<lambda>w. validate_limits w (depth + 1)) vs) (\<lambda>_. Inr ())
      | JObject m \<Rightarrow>
          if length m > MAX_COLLECTION_ITEMS then Inl (JsonLimit ''collection items exceeded'')
          else bindR (mapR (\<lambda>(k, w).
                 if length k > MAX_STRING_BYTES then Inl (JsonLimit ''string bytes exceeded'')
                 else validate_limits w (depth + 1)) m) (\<lambda>_. Inr ())
      | _ \<Rightarrow> Inr ())"

declare validate_limits.simps [simp del]

definition join :: "string \<Rightarrow> string list \<Rightarrow> string" where
  "join sep parts = (case parts of [] \<Rightarrow> [] | p # ps \<Rightarrow> p @ concat (map (\<lambda>q. sep @ q) ps))"

definition quoted :: "serde \<Rightarrow> string \<Rightarrow> domain_error + string" where
  "quoted sd s = of_optionR Serialization (quote_string sd s)"

fun write_value :: "serde \<Rightarrow> json \<Rightarrow> domain_error + string" where
  "write_value sd JNull = Inr ''null''"
| "write_value sd (JBool b) = Inr (if b then ''true'' else ''false'')"
| "write_value sd (JNumber n) = normalize_number n"
| "write_value sd (JString s) = quoted sd s"
| "write_value sd (JArray vs) =
     bindR (mapR (\<lambda>v. write_value sd v) vs) (\<lambda>parts. Inr (''['' @ join '','' parts @ '']''))"
| "write_value sd (JObject m) =
     bindR (mapR (\<lambda>(k, v). bindR (quoted sd k) (\<lambda>q. bindR (write_value sd v) (\<lambda>w.
              Inr (q @ '':'' @ w)))) (sort_key fst m))
       (\<lambda>parts. Inr (''{'' @ join '','' parts @ ''}''))"

definition to_vec :: "serde \<Rightarrow> json \<Rightarrow> domain_error + string" where
  "to_vec sd v =
     bindR (validate_limits v 0) (\<lambda>_.
     bindR (write_value sd v) (\<lambda>out.
       if length out > MAX_JSON_BYTES then Inl (JsonLimit ''max bytes exceeded'') else Inr out))"

definition hash_bytes :: "(string \<Rightarrow> string) \<Rightarrow> string \<Rightarrow> string" where
  "hash_bytes sha256_hex bytes = ''sha256:'' @ sha256_hex bytes"

definition canonical_hash :: "serde \<Rightarrow> (string \<Rightarrow> string) \<Rightarrow> json \<Rightarrow> domain_error + string" where
  "canonical_hash sd sha256_hex v = bindR (to_vec sd v) (\<lambda>out. Inr (hash_bytes sha256_hex out))"

text \<open>
  \<open>parse\<close>: the size check, the duplicate-key scan and the scan of the value (both by
  \<open>serde_json\<close>, hence arguments), then the limits.
\<close>

definition canonical_parse ::
    "(string \<Rightarrow> bool) \<Rightarrow> (string \<Rightarrow> json option) \<Rightarrow> string \<Rightarrow> domain_error + json" where
  "canonical_parse no_duplicate_keys from_str input =
     (if length input > MAX_JSON_BYTES then Inl (JsonLimit ''max bytes exceeded'')
      else bindR (ensureR (no_duplicate_keys input) InvalidJson) (\<lambda>_.
      bindR (of_optionR InvalidJson (from_str input)) (\<lambda>v.
      bindR (validate_limits v 0) (\<lambda>_. Inr v))))"

lemma object_entries_sorted: "om_wf m \<Longrightarrow> sort_key fst m = m"
  by (intro sort_key_id_if_sorted) (simp add: om_wf_def strict_sorted_imp_sorted)

section \<open>Canonical bytes determine the document\<close>

text \<open>
  What the writer relies on from the string escaper: an escaped string starts with a quote,
  and no escaped string is a proper prefix of another (JSON strings end at their closing
  quote).
\<close>

definition quote_codec :: "serde \<Rightarrow> bool" where
  "quote_codec sd \<longleftrightarrow>
     (\<forall>s q. quote_string sd s = Some q \<longrightarrow> q \<noteq> [] \<and> hd q = CHR 0x22) \<and>
     (\<forall>s t q p r r'. quote_string sd s = Some q \<longrightarrow> quote_string sd t = Some p \<longrightarrow>
        q @ r = p @ r' \<longrightarrow> s = t \<and> r = r')"

definition is_number_text :: "string \<Rightarrow> bool" where
  "is_number_text s \<longleftrightarrow> (\<exists>t. wf_number_text t \<and> s = number_string t)"

fun valid_numbers :: "json \<Rightarrow> bool" where
  "valid_numbers (JNumber n) = is_number_text n"
| "valid_numbers (JArray vs) = list_all valid_numbers vs"
| "valid_numbers (JObject m) = list_all (\<lambda>(_, v). valid_numbers v) m"
| "valid_numbers _ = True"

text \<open>Equality of documents up to the spelling of their numbers.\<close>

fun json_equiv :: "json \<Rightarrow> json \<Rightarrow> bool" where
  "json_equiv JNull JNull = True"
| "json_equiv (JBool a) (JBool b) = (a = b)"
| "json_equiv (JNumber a) (JNumber b) =
     (\<exists>t u. wf_number_text t \<and> wf_number_text u \<and> a = number_string t \<and> b = number_string u
        \<and> number_value t = number_value u)"
| "json_equiv (JString a) (JString b) = (a = b)"
| "json_equiv (JArray a) (JArray b) = list_all2 json_equiv a b"
| "json_equiv (JObject a) (JObject b) = list_all2 (\<lambda>(k, v) (l, w). k = l \<and> json_equiv v w) a b"
| "json_equiv _ _ = False"

definition number_char :: "char \<Rightarrow> bool" where
  "number_char c \<longleftrightarrow> is_digit c \<or> c = CHR ''-'' \<or> c = CHR ''.''"

lemma normalize_number_chars:
  assumes "is_number_text n" "normalize_number n = Inr s"
  shows "s \<noteq> [] \<and> list_all number_char s \<and> (is_digit (hd s) \<or> hd s = CHR ''-'')"
proof -
  obtain t where "wf_number_text t" "n = number_string t"
    using assms(1) by (auto simp: is_number_text_def)
  then obtain m where m: "wf_analyzed m" "s = number_string (plain_text m)"
    using normalize_number_text assms(2) by blast
  have wf: "wf_number_text (plain_text m)" and ne: "nt_exponent (plain_text m) = None"
    using m plain_text_wf plain_text_no_exponent by blast+
  obtain c cs where c: "nt_integer (plain_text m) = c # cs" "is_digit c" "list_all is_digit cs"
    using wf by (cases "nt_integer (plain_text m)") (auto simp: wf_number_text_def)
  show ?thesis
    using wf ne c
    by (auto simp: m number_string_def coefficient_text_def exponent_text_def number_char_def
        wf_number_text_def list_all_iff split: option.splits)
qed

definition kind_of_char :: "char \<Rightarrow> nat" where
  "kind_of_char c = (if c = CHR ''n'' then 0 else if c = CHR ''t'' \<or> c = CHR ''f'' then 1
     else if is_digit c \<or> c = CHR ''-'' then 2 else if c = CHR 0x22 then 3
     else if c = CHR ''['' then 4 else if c = CHR ''{'' then 5 else 6)"

fun kind_of_json :: "json \<Rightarrow> nat" where
  "kind_of_json JNull = 0"
| "kind_of_json (JBool _) = 1"
| "kind_of_json (JNumber _) = 2"
| "kind_of_json (JString _) = 3"
| "kind_of_json (JArray _) = 4"
| "kind_of_json (JObject _) = 5"

lemma kind_simps [simp]:
  "kind_of_char (CHR ''n'') = 0" "kind_of_char (CHR ''t'') = 1" "kind_of_char (CHR ''f'') = 1"
  "kind_of_char (CHR 0x22) = 3" "kind_of_char (CHR ''['') = 4" "kind_of_char (CHR ''{'') = 5"
  "kind_of_char (CHR '']'') = 6" "kind_of_char (CHR ''}'') = 6" "kind_of_char (CHR '','') = 6"
  by (simp_all add: kind_of_char_def is_digit_def byte_def)

lemma kind_of_char_number: "is_digit c \<or> c = CHR ''-'' \<Longrightarrow> kind_of_char c = 2"
  by (auto simp: kind_of_char_def is_digit_def byte_def)

lemma write_value_head:
  assumes "quote_codec sd" "valid_numbers v" "write_value sd v = Inr s"
  shows "s \<noteq> [] \<and> kind_of_char (hd s) = kind_of_json v"
proof (cases v)
  case (JNumber n)
  then show ?thesis
    using assms normalize_number_chars [of n s] kind_of_char_number by auto
next
  case (JString x)
  then show ?thesis using assms by (auto simp: quoted_def quote_codec_def)
qed (use assms in \<open>auto simp: bindR_eq_Inr split: if_splits\<close>)

definition stops :: "string \<Rightarrow> bool" where
  "stops r \<longleftrightarrow> r = [] \<or> hd r = CHR '','' \<or> hd r = CHR '']'' \<or> hd r = CHR ''}''"

lemma stops_not_number: "stops r \<Longrightarrow> r = [] \<or> \<not> number_char (hd r)"
  by (auto simp: stops_def number_char_def is_digit_def byte_def)

lemma takeWhile_stop: "list_all P s \<Longrightarrow> r = [] \<or> \<not> P (hd r) \<Longrightarrow> takeWhile P (s @ r) = s"
  by (cases r) (auto simp: list_all_iff)

lemma number_prefix:
  assumes "list_all number_char s" "list_all number_char t" "stops r" "stops r'" "s @ r = t @ r'"
  shows "s = t \<and> r = r'"
  using takeWhile_stop [OF assms(1) stops_not_number [OF assms(3)]]
    takeWhile_stop [OF assms(2) stops_not_number [OF assms(4)]] assms(5)
  by simp

text \<open>
  A bracketed, comma-separated sequence is read back uniquely when each of its elements is,
  up to a relation \<open>R\<close>.
\<close>

definition comma_tail :: "char \<Rightarrow> string list \<Rightarrow> string \<Rightarrow> string" where
  "comma_tail close ps r = concat (map (\<lambda>q. CHR '','' # q) ps) @ close # r"

lemma comma_tail_simps [simp]:
  "comma_tail close [] r = close # r"
  "comma_tail close (p # ps) r = CHR '','' # p @ comma_tail close ps r"
  by (simp_all add: comma_tail_def)

definition closing :: "char \<Rightarrow> bool" where
  "closing c \<longleftrightarrow> c = CHR '']'' \<or> c = CHR ''}''"

lemma stops_tail: "closing c \<Longrightarrow> stops (comma_tail c ps r)"
  by (cases ps) (auto simp: stops_def closing_def)

lemma comma_append: "(@) '','' = (#) (CHR '','')"
  by (rule ext) simp

lemma join_tail: "join '','' (p # ps) @ close # r = p @ comma_tail close ps r"
  by (simp add: join_def comma_tail_def comma_append)

definition reads_back :: "('a \<Rightarrow> 'e + string) \<Rightarrow> ('a \<Rightarrow> 'b \<Rightarrow> bool) \<Rightarrow> ('b \<Rightarrow> 'e + string) \<Rightarrow> 'a \<Rightarrow> 'b \<Rightarrow> bool" where
  "reads_back f R g x y \<longleftrightarrow> (\<forall>s t r r'. f x = Inr s \<longrightarrow> g y = Inr t \<longrightarrow> stops r \<longrightarrow> stops r' \<longrightarrow>
     s @ r = t @ r' \<longrightarrow> R x y \<and> r = r')"

lemma reads_backD:
  "reads_back f R g x y \<Longrightarrow> f x = Inr s \<Longrightarrow> g y = Inr t \<Longrightarrow> stops r \<Longrightarrow> stops r' \<Longrightarrow>
   s @ r = t @ r' \<Longrightarrow> R x y \<and> r = r'"
  unfolding reads_back_def by blast

lemma comma_tail_inj:
  assumes "closing close" "\<forall>x \<in> set xs. \<forall>y \<in> set ys. reads_back f R f x y"
    and "mapR f xs = Inr ps" "mapR f ys = Inr qs" "comma_tail close ps r = comma_tail close qs r'"
  shows "list_all2 R xs ys \<and> r = r'"
  using assms
proof (induction xs arbitrary: ys ps qs)
  case Nil
  then show ?case by (cases ys) (auto simp: bindR_eq_Inr closing_def)
next
  case (Cons x xs)
  from Cons.prems(3) obtain s ps' where s: "f x = Inr s" "mapR f xs = Inr ps'" "ps = s # ps'"
    by (auto simp: bindR_eq_Inr)
  with Cons.prems obtain y ys' where y: "ys = y # ys'" by (cases ys) (auto simp: closing_def)
  from Cons.prems(4) y obtain t qs' where t: "f y = Inr t" "mapR f ys' = Inr qs'" "qs = t # qs'"
    by (auto simp: bindR_eq_Inr)
  have "R x y \<and> comma_tail close ps' r = comma_tail close qs' r'"
    using Cons.prems s t y by (intro reads_backD [of f R f x y s t]) (simp_all add: stops_tail)
  moreover from this have "list_all2 R xs ys' \<and> r = r'"
    using Cons.prems s t y by (intro Cons.IH [of ys' ps' qs']) simp_all
  ultimately show ?case by (simp add: y)
qed

lemma sequence_inj:
  assumes close: "closing close" and rb: "\<forall>x \<in> set xs. \<forall>y \<in> set ys. reads_back f R f x y"
    and hd: "\<forall>x \<in> set xs \<union> set ys. \<forall>p. f x = Inr p \<longrightarrow> p \<noteq> [] \<and> hd p \<noteq> close"
    and ps: "mapR f xs = Inr ps" "mapR f ys = Inr qs"
    and eq: "join '','' ps @ close # r = join '','' qs @ close # r'"
  shows "list_all2 R xs ys \<and> r = r'"
proof (cases "xs = [] \<or> ys = []")
  case True
  then show ?thesis
    using ps eq hd by (cases xs; cases ys) (auto simp: bindR_eq_Inr join_def neq_Nil_conv)
next
  case False
  then obtain x xs' y ys' where "xs = x # xs'" "ys = y # ys'" by (meson neq_Nil_conv)
  with ps obtain p ps' q qs' where "ps = p # ps'" "qs = q # qs'" by (auto simp: bindR_eq_Inr)
  with eq have "comma_tail close ps r = comma_tail close qs r'" by (simp add: join_tail)
  then show ?thesis using comma_tail_inj [OF close rb ps] by blast
qed

lemma reads_backI:
  assumes codec: "quote_codec sd" and vn: "valid_numbers v" "valid_numbers w"
    and step: "\<And>s t r r'. kind_of_json v = kind_of_json w \<Longrightarrow> write_value sd v = Inr s \<Longrightarrow>
      write_value sd w = Inr t \<Longrightarrow> stops r \<Longrightarrow> stops r' \<Longrightarrow> s @ r = t @ r' \<Longrightarrow>
      json_equiv v w \<and> r = r'"
  shows "reads_back (write_value sd) json_equiv (write_value sd) v w"
  unfolding reads_back_def
proof (intro allI impI)
  fix s t r r'
  assume h: "write_value sd v = Inr s" "write_value sd w = Inr t" "stops r" "stops r'"
    "s @ r = t @ r'"
  then have "kind_of_json v = kind_of_json w"
    using write_value_head [OF codec vn(1)] write_value_head [OF codec vn(2)] by (metis hd_append2)
  with h show "json_equiv v w \<and> r = r'" by (intro step)
qed

definition write_entry :: "serde \<Rightarrow> string \<times> json \<Rightarrow> domain_error + string" where
  "write_entry sd = (\<lambda>(k, v). bindR (quoted sd k) (\<lambda>q. bindR (write_value sd v) (\<lambda>w.
     Inr (q @ '':'' @ w))))"

lemma quoted_inj:
  assumes "quote_codec sd" "quoted sd x = Inr q" "quoted sd y = Inr p" "q @ r = p @ r'"
  shows "x = y \<and> r = r'"
  using assms unfolding quoted_def quote_codec_def of_optionR_eq_Inr by blast

lemma write_entry_reads_back:
  assumes codec: "quote_codec sd"
    and rb: "reads_back (write_value sd) json_equiv (write_value sd) v w"
  shows "reads_back (write_entry sd) (\<lambda>(k, v) (l, w). k = l \<and> json_equiv v w) (write_entry sd) (k, v) (l, w)"
  unfolding reads_back_def
proof (intro allI impI)
  fix s t r r'
  assume h: "write_entry sd (k, v) = Inr s" "write_entry sd (l, w) = Inr t" "stops r" "stops r'"
    "s @ r = t @ r'"
  then obtain q a p b where e: "quoted sd k = Inr q" "write_value sd v = Inr a" "s = q @ '':'' @ a"
    "quoted sd l = Inr p" "write_value sd w = Inr b" "t = p @ '':'' @ b"
    by (auto simp: write_entry_def bindR_eq_Inr)
  have "k = l \<and> CHR '':'' # a @ r = CHR '':'' # b @ r'"
    using quoted_inj [OF codec e(1,4), of "CHR '':'' # a @ r" "CHR '':'' # b @ r'"] h(5) e by simp
  then show "(case (k, v) of (k, v) \<Rightarrow> \<lambda>(l, w). k = l \<and> json_equiv v w) (l, w) \<and> r = r'"
    using reads_backD [OF rb e(2,5) h(3,4)] by simp
qed

lemma write_entry_head:
  assumes "quote_codec sd" "write_entry sd e = Inr p"
  shows "p \<noteq> [] \<and> hd p = CHR 0x22"
proof -
  obtain k q a where q: "quote_string sd k = Some q" "p = q @ '':'' @ a"
    using assms(2) by (cases e) (auto simp: write_entry_def bindR_eq_Inr quoted_def)
  then have "q \<noteq> [] \<and> hd q = CHR 0x22"
    using assms(1) unfolding quote_codec_def by blast
  with q(2) show ?thesis by (simp add: hd_append)
qed

lemma write_value_reads_back:
  assumes codec: "quote_codec sd"
  shows "wf_json v \<Longrightarrow> wf_json w \<Longrightarrow> valid_numbers v \<Longrightarrow> valid_numbers w \<Longrightarrow>
    reads_back (write_value sd) json_equiv (write_value sd) v w"
proof (induction v arbitrary: w)
  case JNull
  show ?case by (rule reads_backI [OF codec JNull(3,4)]) (cases w; simp)
next
  case (JBool b)
  show ?case by (rule reads_backI [OF codec JBool(3,4)]) (cases w; cases b; auto split: if_splits)
next
  case (JNumber n)
  show ?case
  proof (rule reads_backI [OF codec JNumber(3,4)])
    fix s t r r'
    assume h: "kind_of_json (JNumber n) = kind_of_json w" "write_value sd (JNumber n) = Inr s"
      "write_value sd w = Inr t" "stops r" "stops r'" "s @ r = t @ r'"
    then obtain m where w: "w = JNumber m" by (cases w) auto
    then have st: "s = t \<and> r = r'"
      using h JNumber normalize_number_chars [of n s] normalize_number_chars [of m t]
      by (intro number_prefix) auto
    obtain x y where "wf_number_text x" "n = number_string x" "wf_number_text y" "m = number_string y"
      using JNumber w by (auto simp: is_number_text_def)
    then show "json_equiv (JNumber n) w \<and> r = r'"
      using h st w normalize_number_canonical [of x s y t] by auto
  qed
next
  case (JString x)
  show ?case
  proof (rule reads_backI [OF codec JString(3,4)])
    fix s t r r'
    assume h: "kind_of_json (JString x) = kind_of_json w" "write_value sd (JString x) = Inr s"
      "write_value sd w = Inr t" "stops r" "stops r'" "s @ r = t @ r'"
    then obtain y where w: "w = JString y" by (cases w) auto
    then show "json_equiv (JString x) w \<and> r = r'"
      using quoted_inj [OF codec _ _ h(6), of x y] h by simp
  qed
next
  case (JArray vs)
  show ?case
  proof (rule reads_backI [OF codec JArray(4,5)])
    fix s t r r'
    assume h: "kind_of_json (JArray vs) = kind_of_json w" "write_value sd (JArray vs) = Inr s"
      "write_value sd w = Inr t" "stops r" "stops r'" "s @ r = t @ r'"
    then obtain ws where w: "w = JArray ws" by (cases w) auto
    obtain ps qs where ps: "mapR (write_value sd) vs = Inr ps" "s = ''['' @ join '','' ps @ '']''"
      "mapR (write_value sd) ws = Inr qs" "t = ''['' @ join '','' qs @ '']''"
      using h w by (auto simp: bindR_eq_Inr)
    have "list_all2 json_equiv vs ws \<and> r = r'"
    proof (rule sequence_inj [OF _ _ _ ps(1,3)])
      show "\<forall>x \<in> set vs. \<forall>y \<in> set ws. reads_back (write_value sd) json_equiv (write_value sd) x y"
        using JArray w by (simp add: list_all_iff)
      show "\<forall>x \<in> set vs \<union> set ws. \<forall>p. write_value sd x = Inr p \<longrightarrow> p \<noteq> [] \<and> hd p \<noteq> CHR '']''"
      proof (intro ballI allI impI)
        fix x p assume x: "x \<in> set vs \<union> set ws" "write_value sd x = Inr p"
        then have "valid_numbers x" using JArray w by (auto simp: list_all_iff)
        then show "p \<noteq> [] \<and> hd p \<noteq> CHR '']''"
          using write_value_head [OF codec _ x(2)] by (cases x) auto
      qed
    qed (use h ps in \<open>simp_all add: closing_def\<close>)
    then show "json_equiv (JArray vs) w \<and> r = r'" by (simp add: w)
  qed
next
  case (JObject vs)
  show ?case
  proof (rule reads_backI [OF codec JObject(4,5)])
    fix s t r r'
    assume h: "kind_of_json (JObject vs) = kind_of_json w" "write_value sd (JObject vs) = Inr s"
      "write_value sd w = Inr t" "stops r" "stops r'" "s @ r = t @ r'"
    then obtain ws where w: "w = JObject ws" by (cases w) auto
    have srt: "sort_key fst vs = vs" "sort_key fst ws = ws"
      using JObject w by (simp_all add: object_entries_sorted)
    obtain ps qs where ps: "mapR (write_entry sd) vs = Inr ps" "s = ''{'' @ join '','' ps @ ''}''"
      "mapR (write_entry sd) ws = Inr qs" "t = ''{'' @ join '','' qs @ ''}''"
      using h w srt by (auto simp: bindR_eq_Inr write_entry_def)
    have "list_all2 (\<lambda>(k, v) (l, w). k = l \<and> json_equiv v w) vs ws \<and> r = r'"
    proof (rule sequence_inj [OF _ _ _ ps(1,3)])
      show "\<forall>x \<in> set vs. \<forall>y \<in> set ws. reads_back (write_entry sd)
          (\<lambda>(k, v) (l, w). k = l \<and> json_equiv v w) (write_entry sd) x y"
      proof (intro ballI)
        fix x y assume mem: "x \<in> set vs" "y \<in> set ws"
        obtain k v l u where xy: "x = (k, v)" "y = (l, u)" by (cases x; cases y)
        have "wf_json v" "valid_numbers v" "wf_json u" "valid_numbers u"
          using mem JObject.prems w by (auto simp: list_all_iff xy)
        then have "reads_back (write_value sd) json_equiv (write_value sd) v u"
          using JObject.IH [of "(k, v)" v u] mem by (simp add: xy)
        then show "reads_back (write_entry sd)
          (\<lambda>(k, v) (l, w). k = l \<and> json_equiv v w) (write_entry sd) x y"
          unfolding xy by (rule write_entry_reads_back [OF codec])
      qed
    qed (use h ps write_entry_head [OF codec] in \<open>auto simp: closing_def\<close>)
    then show "json_equiv (JObject vs) w \<and> r = r'" by (simp add: w)
  qed
qed

lemma mapR_pointwise:
  assumes "mapR f xs = Inr ps" "mapR f ys = Inr qs" "list_all2 R xs ys"
    and "\<And>x y s t. x \<in> set xs \<Longrightarrow> y \<in> set ys \<Longrightarrow> R x y \<Longrightarrow> f x = Inr s \<Longrightarrow> f y = Inr t \<Longrightarrow> s = t"
  shows "ps = qs"
  using assms
  by (intro nth_equalityI) (auto simp: mapR_eq_Inr list_all2_conv_all_nth, metis nth_mem)

lemma write_value_equiv:
  "wf_json v \<Longrightarrow> wf_json w \<Longrightarrow> json_equiv v w \<Longrightarrow> write_value sd v = Inr s \<Longrightarrow>
   write_value sd w = Inr t \<Longrightarrow> s = t"
proof (induction v arbitrary: w s t)
  case (JNumber n)
  then obtain m where w: "w = JNumber m" by (cases w) auto
  from JNumber w obtain x y where "wf_number_text x" "n = number_string x" "wf_number_text y"
    "m = number_string y" "number_value x = number_value y" by auto
  then show ?case using JNumber w normalize_number_canonical [of x s y t] by auto
next
  case (JArray vs)
  then obtain ws where w: "w = JArray ws" "list_all2 json_equiv vs ws" by (cases w) auto
  from JArray w obtain ps qs where ps: "mapR (write_value sd) vs = Inr ps" "mapR (write_value sd) ws = Inr qs"
    "s = ''['' @ join '','' ps @ '']''" "t = ''['' @ join '','' qs @ '']''"
    by (auto simp: bindR_eq_Inr)
  have "ps = qs"
    by (rule mapR_pointwise [OF ps(1,2) w(2)])
      (use JArray.IH JArray.prems w in \<open>auto simp: list_all_iff\<close>)
  then show ?case by (simp add: ps)
next
  case (JObject vs)
  then obtain ws where w: "w = JObject ws"
    "list_all2 (\<lambda>(k, v) (l, w). k = l \<and> json_equiv v w) vs ws" by (cases w) auto
  have srt: "sort_key fst vs = vs" "sort_key fst ws = ws"
    using JObject.prems w by (simp_all add: object_entries_sorted)
  from JObject.prems w srt obtain ps qs where ps: "mapR (write_entry sd) vs = Inr ps"
    "mapR (write_entry sd) ws = Inr qs"
    "s = ''{'' @ join '','' ps @ ''}''" "t = ''{'' @ join '','' qs @ ''}''"
    by (auto simp: bindR_eq_Inr write_entry_def)
  have "ps = qs"
  proof (rule mapR_pointwise [OF ps(1,2) w(2)])
    fix x y a b
    assume h: "x \<in> set vs" "y \<in> set ws" "(\<lambda>(k, v) (l, w). k = l \<and> json_equiv v w) x y"
      "write_entry sd x = Inr a" "write_entry sd y = Inr b"
    obtain k v l u where xy: "x = (k, v)" "y = (l, u)" by (cases x; cases y)
    have "wf_json v" "wf_json u"
      using h(1,2) JObject.prems w by (auto simp: list_all_iff xy)
    then show "a = b"
      using JObject.IH [of "(k, v)" v u] h by (auto simp: xy write_entry_def bindR_eq_Inr)
  qed
  then show ?case by (simp add: ps)
next
  case JNull
  then show ?case by (cases w) auto
next
  case (JBool b)
  then show ?case by (cases w) auto
next
  case (JString x)
  then show ?case by (cases w) auto
qed

text \<open>
  C40: canonical bytes determine the document up to the spelling of its numbers, and equal
  documents have equal bytes, for any string escaper whose output is self-delimiting.
\<close>
theorem write_value_injective:
  assumes "quote_codec sd" "wf_json v" "wf_json w" "valid_numbers v" "valid_numbers w"
    and "write_value sd v = Inr s" "write_value sd w = Inr t"
  shows "s = t \<longleftrightarrow> json_equiv v w"
  using reads_backD [OF write_value_reads_back [OF assms(1-5)] assms(6,7), of "[]" "[]"]
    write_value_equiv [OF assms(2,3) _ assms(6,7)]
  by (auto simp: stops_def)

text \<open>A concrete escaper: quotes and backslashes are escaped, other bytes are copied.\<close>

fun escape_bytes :: "string \<Rightarrow> string" where
  "escape_bytes [] = [CHR 0x22]"
| "escape_bytes (c # s) =
     (if c = CHR 0x22 \<or> c = CHR 0x5C then CHR 0x5C # c # escape_bytes s else c # escape_bytes s)"

definition simple_serde :: serde where
  "simple_serde = \<lparr>decode_string = (\<lambda>s. Some (butlast (tl s))),
     quote_string = (\<lambda>s. Some (CHR 0x22 # escape_bytes s)),
     encoded_len = (\<lambda>_. Some 0)\<rparr>"

lemma escape_bytes_inj: "escape_bytes s @ r = escape_bytes t @ r' \<Longrightarrow> s = t \<and> r = r'"
proof (induction s arbitrary: t)
  case Nil
  then show ?case by (cases t) (auto split: if_splits)
next
  case (Cons c s)
  then show ?case by (cases t) (auto split: if_splits)
qed

lemma simple_serde_codec: "quote_codec simple_serde"
  unfolding quote_codec_def by (auto simp: simple_serde_def dest: escape_bytes_inj)

definition sample_document :: "string \<Rightarrow> json" where
  "sample_document n = JObject [(''a'', JArray [JNull, JNumber n]), (''b'', JString ''x'')]"

lemma write_value_injective_witness:
  "(\<exists>s t. write_value simple_serde (sample_document ''12.50e+1'') = Inr s
        \<and> write_value simple_serde (sample_document ''125'') = Inr t
        \<and> (s = t \<longleftrightarrow> json_equiv (sample_document ''12.50e+1'') (sample_document ''125'')))"
proof -
  have n: "is_number_text ''12.50e+1''" "is_number_text ''125''"
    unfolding is_number_text_def
    by (rule exI [of _ text_12_50e1], code_simp)
      (rule exI [of _ "\<lparr>nt_negative = False, nt_integer = ''125'', nt_fraction = None, nt_exponent = None\<rparr>"], code_simp)
  have h: "wf_json (sample_document ''12.50e+1'')" "wf_json (sample_document ''125'')"
    by code_simp+
  have v: "valid_numbers (sample_document ''12.50e+1'')" "valid_numbers (sample_document ''125'')"
    using n by (simp_all add: sample_document_def)
  obtain s t where "write_value simple_serde (sample_document ''12.50e+1'') = Inr s"
    "write_value simple_serde (sample_document ''125'') = Inr t"
  proof (rule that)
    show "write_value simple_serde (sample_document ''12.50e+1'')
        = Inr (''{'' @ [CHR 0x22] @ ''a'' @ [CHR 0x22] @ '':[null,125],'' @ [CHR 0x22] @ ''b''
               @ [CHR 0x22] @ '':'' @ [CHR 0x22] @ ''x'' @ [CHR 0x22] @ ''}'')"
      by code_simp
    show "write_value simple_serde (sample_document ''125'')
        = Inr (''{'' @ [CHR 0x22] @ ''a'' @ [CHR 0x22] @ '':[null,125],'' @ [CHR 0x22] @ ''b''
               @ [CHR 0x22] @ '':'' @ [CHR 0x22] @ ''x'' @ [CHR 0x22] @ ''}'')"
      by code_simp
  qed
  with write_value_injective [OF simple_serde_codec h v this] show ?thesis by blast
qed

section \<open>Errors\<close>

text \<open>The canonical form fails only for a limit or a string that cannot be written.\<close>

definition form_errors :: "(domain_error + 'a) \<Rightarrow> bool" where
  "form_errors m \<longleftrightarrow> (\<forall>e. m = Inl e \<longrightarrow> e = Serialization \<or> (\<exists>l. e = JsonLimit l))"

lemma form_errors_simps [simp]:
  "form_errors (Inr a)" "form_errors (Inl (JsonLimit l))" "form_errors (Inl Serialization)"
  "form_errors (of_optionR Serialization x)"
  by (simp_all add: form_errors_def)

lemma form_errors_bind: "form_errors m \<Longrightarrow> (\<And>a. m = Inr a \<Longrightarrow> form_errors (f a)) \<Longrightarrow> form_errors (bindR m f)"
  by (auto simp: form_errors_def bindR_eq_Inl)

lemma form_errors_mapR: "(\<And>x. x \<in> set xs \<Longrightarrow> form_errors (f x)) \<Longrightarrow> form_errors (mapR f xs)"
  by (induction xs) (simp_all add: form_errors_bind)

lemma form_errors_number: "form_errors (normalize_number n)"
  unfolding normalize_number_def analyze_def split_exponent_def Let_def
  by (auto intro!: form_errors_bind split: option.splits prod.splits)

lemma form_errors_limits: "form_errors (validate_limits v d)"
proof (induction v arbitrary: d)
  case (JArray vs)
  then show ?case
    by (subst validate_limits.simps) (auto intro!: form_errors_bind form_errors_mapR)
next
  case (JObject m)
  then show ?case
    by (subst validate_limits.simps)
      (auto intro!: form_errors_bind form_errors_mapR split: prod.splits)
qed (subst validate_limits.simps, auto intro!: form_errors_bind form_errors_number)+

lemma form_errors_write: "form_errors (write_value sd v)"
proof (induction sd v rule: write_value.induct)
  case (6 sd m)
  then show ?case
    by (auto intro!: form_errors_bind form_errors_mapR simp: quoted_def split: prod.splits)
qed (auto intro!: form_errors_bind form_errors_mapR form_errors_number simp: quoted_def)

lemma canonical_hash_error: "form_errors (canonical_hash sd sha v)"
  unfolding canonical_hash_def to_vec_def
  by (auto intro!: form_errors_bind form_errors_limits form_errors_write)

end
