(* ===== verification/Graph_Types.thy ===== *)
theory Graph_Types
  imports Json Errors
begin

text \<open>
  The graph data of \<open>crates/core/src/graph/types.rs\<close>, the router's part of
  \<open>graph/memory.rs\<close> and the schema specification of \<open>schema.rs\<close>.  The configuration
  of an LLM node is the type parameter \<open>'llm\<close>: none of the operations modelled over graphs
  looks into it.  The fields \<open>u64\<close> and \<open>u32\<close> are naturals.
\<close>

section \<open>Selectors and ports\<close>

datatype selector_result = One | Many

datatype input_selector = WholeValue | JsonPointer string | JsonPath string selector_result

record json_schema_limits =
  max_schema_bytes :: nat
  max_schema_nodes :: nat
  max_schema_depth :: nat
  max_local_refs :: nat
  max_ref_depth :: nat
  max_regex_bytes :: nat
  max_instance_bytes :: nat
  max_instance_depth :: nat
  max_collection_items :: nat
  max_string_bytes :: nat
  max_number_digits :: nat
  max_number_exponent_magnitude :: nat
  max_validation_errors :: nat
  validation_fuel :: nat

record json_schema_spec =
  schema_version :: nat
  dialect :: string
  validation_profile_version :: nat
  format_policy_version :: nat
  document :: json
  schema_limits :: json_schema_limits

record input_port =
  in_name :: string
  in_schema :: "json_schema_spec option"
  in_selector :: input_selector

record output_port =
  out_name :: string
  out_schema :: "json_schema_spec option"

section \<open>Routers\<close>

record router_rule =
  rule_id :: string
  rule_when :: string
  rule_outputs :: "string list"

datatype match_mode = First | All

record router_limits =
  max_visits_per_run :: "nat option"
  timeout_ms_per_run :: "nat option"
  max_read_reconciles :: "nat option"
  on_limit_outputs :: "string list option"

datatype memory_record_status = Active | Obsolete

record memory_query =
  query_text :: string
  query_tags :: "string list"
  query_status :: "memory_record_status option"

datatype read_consistency = Snapshot | ValidateOnCommit

datatype router_read_source =
    WorkingContext string string
  | LongTermMemory string "memory_query option"

record router_read =
  read_id :: string
  read_alias :: string
  read_source :: router_read_source
  read_required :: bool
  read_consistency :: read_consistency
  read_limit :: "nat option"
  read_max_bytes :: nat

record router_config =
  dsl_version :: string
  rules :: "router_rule list"
  router_match_mode :: match_mode
  default_outputs :: "string list option"
  payload_port :: "string option"
  router_memory :: "router_read list option"
  router_limits_of :: "router_limits option"

section \<open>Nodes\<close>

datatype merge_mode = Any

datatype 'llm node_kind =
    NInput input_selector
  | NOutput string
  | NLlm 'llm
  | NRouter router_config
  | NMerge merge_mode
  | NJoinByKey "(string \<times> string) list" nat nat
  | NAggregator nat
  | NExpand nat

datatype refresh_read_set = Never

record retry_policy =
  max_retries :: nat
  retry_on :: "string list"
  initial_backoff_ms :: nat
  multiplier_micros :: nat
  max_backoff_ms :: nat
  jitter_ratio_micros :: nat
  refresh_read_set :: refresh_read_set

record 'llm draft_node =
  d_id :: string
  d_name :: "string option"
  d_is_entry :: "bool option"
  d_inputs :: "input_port list"
  d_outputs :: "output_port list"
  d_timeout_ms :: "nat option"
  d_retry_policy :: "retry_policy option"
  d_kind :: "'llm node_kind"

record 'llm graph_node =
  node_id :: string
  node_name :: "string option"
  is_entry :: bool
  inputs :: "input_port list"
  outputs :: "output_port list"
  timeout_ms :: "nat option"
  node_retry_policy :: "retry_policy option"
  kind :: "'llm node_kind"

section \<open>Edges, contracts and limits\<close>

record output_ref =
  from_node :: string
  from_output :: string

record input_ref =
  to_node :: string
  to_input :: string

record draft_edge =
  de_id :: "string option"
  de_from :: output_ref
  de_to :: input_ref

record graph_edge =
  edge_id :: string
  edge_from :: output_ref
  edge_to :: input_ref

datatype output_collection = Single | Append

record output_contract_entry =
  contract_key :: string
  contract_schema :: "json_schema_spec option"
  contract_collection :: output_collection
  contract_required :: bool

record draft_run_limits =
  d_max_node_activations :: "nat option"
  d_max_attempts_per_activation :: "nat option"
  d_max_total_queue_values :: "nat option"
  d_max_pending_queue_values :: "nat option"
  d_max_open_waits :: "nat option"
  d_max_coordinator_buffered_values :: "nat option"
  d_max_run_wall_clock_ms :: "nat option"
  d_max_value_bytes :: "nat option"

record run_limits =
  max_node_activations :: nat
  max_attempts_per_activation :: nat
  max_total_queue_values :: nat
  max_pending_queue_values :: nat
  max_open_waits :: nat
  max_coordinator_buffered_values :: nat
  max_run_wall_clock_ms :: nat
  max_value_bytes :: nat

definition default_run_limits :: run_limits where
  "default_run_limits =
     \<lparr>max_node_activations = 10000, max_attempts_per_activation = 8,
      max_total_queue_values = 100000, max_pending_queue_values = 10000, max_open_waits = 128,
      max_coordinator_buffered_values = 10000,
      max_run_wall_clock_ms = 24 * 60 * 60 * 1000, max_value_bytes = 16 * 1024 * 1024\<rparr>"

record 'llm graph_draft =
  dg_graph_id :: string
  dg_name :: "string option"
  dg_nodes :: "'llm draft_node list"
  dg_edges :: "draft_edge list"
  dg_run_input_schema :: "json_schema_spec option"
  dg_output_contract :: "output_contract_entry list"
  dg_limits :: "draft_run_limits option"

record schema_compilation =
  canonical_document_hash :: string
  schema_hash :: string
  canonical_source :: string
  compiled_payload :: string
  compiled_payload_hash :: string
  compiler_id :: string
  compiler_version :: string
  payload_format_version :: nat

record schema_semantic_digest =
  sd_canonical_document_hash :: string
  sd_schema_hash :: string
  sd_compiler_id :: string
  sd_compiler_version :: string
  sd_payload_format_version :: nat
  sd_compiled_payload_hash :: string

record 'llm applied_definition =
  ad_schema_version :: nat
  ad_graph_id :: string
  ad_operation_taxonomy_version :: nat
  ad_adapter_decoder_version :: nat
  ad_nodes :: "'llm graph_node list"
  ad_edges :: "graph_edge list"
  ad_run_input_schema :: "json_schema_spec option"
  ad_output_contract :: "output_contract_entry list"
  ad_limits :: run_limits
  ad_schema_semantics :: "schema_semantic_digest list"

record 'llm applied_graph =
  ag_definition :: "'llm applied_definition"
  ag_content_hash :: string
  ag_schemas :: "schema_compilation list"
  ag_warnings :: "validation_issue list"

end
