(* ===== verification/Schema.thy ===== *)
theory Schema
  imports Graph_Types Canonical "HOL-Library.Code_Target_Numeral"
begin

text \<open>
  The JSON schemas of \<open>crates/core/src/schema.rs\<close> and \<open>schema/validate.rs\<close>: the
  closed keyword profile, the limits, the compilation record and the validation of instances.  The
  validator of the package \<open>jsonschema\<close> is an argument: what it answers to a document is an
  error text or the function from instances to their errors.
\<close>

section \<open>The code\<close>

definition DIALECT_2020_12 :: string where
  "DIALECT_2020_12 = ''https://json-schema.org/draft/2020-12/schema''"

definition ALLOWED :: "string list" where
  "ALLOWED =
     [''$schema'', ''$defs'', ''$ref'', ''type'', ''enum'', ''const'', ''multipleOf'', ''minimum'', ''maximum'',
      ''exclusiveMinimum'', ''exclusiveMaximum'', ''minLength'', ''maxLength'', ''pattern'', ''format'',
      ''properties'', ''required'', ''additionalProperties'', ''patternProperties'', ''propertyNames'',
      ''minProperties'', ''maxProperties'', ''prefixItems'', ''items'', ''contains'', ''minContains'',
      ''maxContains'', ''minItems'', ''maxItems'', ''uniqueItems'', ''allOf'', ''anyOf'', ''oneOf'', ''not'', ''if'',
      ''then'', ''else'', ''dependentRequired'', ''dependentSchemas'', ''title'', ''description'', ''default'',
      ''examples'', ''deprecated'', ''readOnly'', ''writeOnly'', ''$comment'']"

definition SUPPORTED_FORMATS :: "string list" where
  "SUPPORTED_FORMATS =
     [''date-time'', ''date'', ''time'', ''duration'', ''email'', ''hostname'', ''ipv4'', ''ipv6'', ''uuid'', ''uri'',
      ''uri-reference'', ''json-pointer'']"

definition default_schema_limits :: json_schema_limits where
  "default_schema_limits =
     \<lparr>max_schema_bytes = 256 * 1024, max_schema_nodes = 4096, max_schema_depth = 128, max_local_refs = 1024,
      max_ref_depth = 64, max_regex_bytes = 4096, max_instance_bytes = 16 * 1024 * 1024,
      max_instance_depth = 128, max_collection_items = 100000, max_string_bytes = 8 * 1024 * 1024,
      max_number_digits = 128, max_number_exponent_magnitude = 1024, max_validation_errors = 32,
      validation_fuel = 1000000\<rparr>"

text \<open>The limits in the order of their fields.\<close>

definition limit_values :: "json_schema_limits \<Rightarrow> nat list" where
  "limit_values l =
     [max_schema_bytes l, max_schema_nodes l, max_schema_depth l, max_local_refs l, max_ref_depth l,
      max_regex_bytes l, max_instance_bytes l, max_instance_depth l, max_collection_items l, max_string_bytes l,
      max_number_digits l, max_number_exponent_magnitude l, max_validation_errors l, validation_fuel l]"

definition fits_within :: "json_schema_limits \<Rightarrow> json_schema_limits \<Rightarrow> bool" where
  "fits_within l cap = list_all2 (\<le>) (limit_values l) (limit_values cap)"

definition schema_issue :: "string \<Rightarrow> string \<Rightarrow> validation_issue" where
  "schema_issue code path = issue_error code path (map (\<lambda>c. if c = CHR ''_'' then CHR '' '' else c) code)"

definition schema_escape :: "string \<Rightarrow> string" where
  "schema_escape s = concat (map (\<lambda>c. if c = CHR ''~'' then ''~0'' else if c = CHR ''/'' then ''~1'' else [c]) s)"

text \<open>The state of the walk: the local references, the nodes and the issues so far.\<close>

record walk_state =
  ws_refs :: "string list"
  ws_nodes :: nat
  ws_issues :: "validation_issue list"

definition push_issue :: "string \<Rightarrow> string \<Rightarrow> walk_state \<Rightarrow> walk_state" where
  "push_issue code path st = st\<lparr>ws_issues := ws_issues st @ [schema_issue code path]\<rparr>"

definition insert_ref :: "string \<Rightarrow> string list \<Rightarrow> string list" where
  "insert_ref r rs = (if r \<in> set rs then rs else insort r rs)"

definition is_local_ref :: "string \<Rightarrow> bool" where
  "is_local_ref r \<longleftrightarrow> r = ''#'' \<or> take 8 r = ''#/$defs/''"

definition check_ref :: "json \<Rightarrow> string \<Rightarrow> json_schema_spec \<Rightarrow> walk_state \<Rightarrow> walk_state" where
  "check_ref v path spec st =
     (case v of
        JString r \<Rightarrow>
          (let st = (if is_local_ref r then st else push_issue ''schema_remote_ref_forbidden'' path st);
               st = st\<lparr>ws_refs := insert_ref r (ws_refs st)\<rparr>
           in if length (ws_refs st) > max_local_refs (schema_limits spec)
              then push_issue ''schema_local_refs_exceeded'' path st else st)
      | _ \<Rightarrow> push_issue ''schema_ref_not_string'' path st)"

definition map_keywords :: "string list" where
  "map_keywords = [''$defs'', ''properties'', ''patternProperties'', ''dependentSchemas'']"

definition list_keywords :: "string list" where
  "list_keywords = [''allOf'', ''anyOf'', ''oneOf'', ''prefixItems'']"

definition single_keywords :: "string list" where
  "single_keywords = [''items'', ''contains'', ''not'', ''if'', ''then'', ''else'', ''propertyNames'']"

text \<open>The arms of the \<open>match\<close> that do not descend.\<close>

definition check_keyword :: "string \<Rightarrow> json \<Rightarrow> string \<Rightarrow> json_schema_spec \<Rightarrow> walk_state \<Rightarrow> walk_state" where
  "check_keyword key child path spec st =
     (if key = ''$schema'' \<and> child \<noteq> JString (dialect spec) then push_issue ''schema_dialect_mismatch'' path st
      else if key = ''$ref'' then check_ref child path spec st
      else if key = ''pattern'' \<and> (case child of JString s \<Rightarrow> length s > max_regex_bytes (schema_limits spec) | _ \<Rightarrow> False)
      then push_issue ''schema_regex_bytes_exceeded'' path st
      else if key = ''format'' \<and> \<not> (case child of JString s \<Rightarrow> s \<in> set SUPPORTED_FORMATS | _ \<Rightarrow> False)
      then push_issue ''unsupported_schema_format'' path st
      else st)"

function (sequential) walk :: "json \<Rightarrow> string \<Rightarrow> nat \<Rightarrow> json_schema_spec \<Rightarrow> walk_state \<Rightarrow> walk_state"
and walk_keys :: "(string \<times> json) list \<Rightarrow> string \<Rightarrow> nat \<Rightarrow> json_schema_spec \<Rightarrow> walk_state \<Rightarrow> walk_state"
and walk_map :: "(string \<times> json) list \<Rightarrow> string \<Rightarrow> nat \<Rightarrow> json_schema_spec \<Rightarrow> walk_state \<Rightarrow> walk_state"
and walk_list :: "json list \<Rightarrow> nat \<Rightarrow> string \<Rightarrow> nat \<Rightarrow> json_schema_spec \<Rightarrow> walk_state \<Rightarrow> walk_state" where
  "walk v path depth spec st0 =
     (let st = st0\<lparr>ws_nodes := ws_nodes st0 + 1\<rparr> in
      if ws_nodes st > max_schema_nodes (schema_limits spec) \<or> depth > max_schema_depth (schema_limits spec)
      then push_issue ''schema_structure_limit_exceeded'' path st
      else case v of
        JObject m \<Rightarrow> walk_keys m path depth spec st
      | JBool _ \<Rightarrow> st
      | _ \<Rightarrow> push_issue ''schema_must_be_object_or_boolean'' path st)"
| "walk_keys [] path depth spec st = st"
| "walk_keys ((key, child) # m) path depth spec st =
     (let child_path = path @ ''/'' @ schema_escape key in
      walk_keys m path depth spec
        (if key \<notin> set ALLOWED then push_issue ''unsupported_schema_keyword'' child_path st
         else if key \<in> set map_keywords
         then (case child of JObject ss \<Rightarrow> walk_map ss child_path depth spec st | _ \<Rightarrow> st)
         else if key \<in> set list_keywords
         then (case child of JArray ss \<Rightarrow> walk_list ss 0 child_path depth spec st | _ \<Rightarrow> st)
         else if key \<in> set single_keywords then walk child child_path (depth + 1) spec st
         else check_keyword key child child_path spec st))"
| "walk_map [] path depth spec st = st"
| "walk_map ((name, s) # ss) path depth spec st =
     walk_map ss path depth spec (walk s (path @ ''/'' @ schema_escape name) (depth + 1) spec st)"
| "walk_list [] index path depth spec st = st"
| "walk_list (s # ss) index path depth spec st =
     walk_list ss (index + 1) path depth spec (walk s (path @ ''/'' @ show_nat index) (depth + 1) spec st)"
  by pat_completeness auto
termination
  by (relation "measure (case_sum
      (case_sum (\<lambda>(v, _). 2 * size v) (\<lambda>(m, _). 2 * size_list (size_prod (\<lambda>_. 0) size) m + 1))
      (case_sum (\<lambda>(m, _). 2 * size_list (size_prod (\<lambda>_. 0) size) m + 1) (\<lambda>(vs, _). 2 * size_list size vs + 1)))")
    auto

declare walk.simps [simp del]

text \<open>The serialisation that \<open>serde\<close> derives for a specification.\<close>

definition limits_json :: "json_schema_limits \<Rightarrow> json" where
  "limits_json l =
     JObject (om_of_list (zip
       [''maxSchemaBytes'', ''maxSchemaNodes'', ''maxSchemaDepth'', ''maxLocalRefs'', ''maxRefDepth'',
        ''maxRegexBytes'', ''maxInstanceBytes'', ''maxInstanceDepth'', ''maxCollectionItems'', ''maxStringBytes'',
        ''maxNumberDigits'', ''maxNumberExponentMagnitude'', ''maxValidationErrors'', ''validationFuel'']
       (map json_nat (limit_values l))))"

definition identity_fields :: "json_schema_spec \<Rightarrow> (string \<times> json) list" where
  "identity_fields spec =
     [(''schemaVersion'', json_nat (schema_version spec)), (''dialect'', JString (dialect spec)),
      (''validationProfileVersion'', json_nat (validation_profile_version spec)),
      (''formatPolicyVersion'', json_nat (format_policy_version spec)), (''document'', document spec)]"

definition spec_json :: "json_schema_spec \<Rightarrow> json" where
  "spec_json spec = JObject (om_of_list (identity_fields spec @ [(''limits'', limits_json (schema_limits spec))]))"

record schema_env =
  se_serde :: serde
  se_sha :: "string \<Rightarrow> string"
  se_build :: "json \<Rightarrow> string + (json \<Rightarrow> (string \<times> string) list)"
    \<comment> \<open>\<open>build_validator\<close>: the path and the text of each error of an instance\<close>
  se_version :: string
    \<comment> \<open>\<open>CARGO_PKG_VERSION\<close>\<close>

definition start_walk :: walk_state where
  "start_walk = \<lparr>ws_refs = [], ws_nodes = 0, ws_issues = []\<rparr>"

definition walk_document :: "json_schema_spec \<Rightarrow> walk_state" where
  "walk_document spec = walk (document spec) [] 0 spec start_walk"

definition schema_issues :: "schema_env \<Rightarrow> json_schema_spec \<Rightarrow> validation_issue list" where
  "schema_issues env spec =
     (let found =
        (if schema_version spec \<noteq> 1 then [schema_issue ''unsupported_schema_version'' ''/schemaVersion''] else [])
        @ (if dialect spec \<noteq> DIALECT_2020_12 then [schema_issue ''unsupported_schema_dialect'' ''/dialect''] else [])
        @ (if validation_profile_version spec \<noteq> 1 \<or> format_policy_version spec \<noteq> 1
           then [schema_issue ''unsupported_schema_profile'' ''/''] else [])
        @ (if 0 \<in> set (limit_values (schema_limits spec))
           then [schema_issue ''schema_limit_not_positive'' ''/limits''] else [])
        @ ws_issues (walk_document spec)
      in if found \<noteq> [] then found
         else case se_build env (document spec) of
           Inl message \<Rightarrow> [schema_issue ''schema_compile_failed'' message] | Inr _ \<Rightarrow> [])"

definition compile_schema :: "schema_env \<Rightarrow> json_schema_spec \<Rightarrow> domain_error + schema_compilation" where
  "compile_schema env spec =
     bindR (to_vec (se_serde env) (spec_json spec)) (\<lambda>source.
     let found = schema_issues env spec
           @ (if length source > max_schema_bytes (schema_limits spec)
              then [schema_issue ''schema_bytes_exceeded'' ''/document''] else [])
     in bindR (ensureR (found = []) (SchemaValidation found)) (\<lambda>_.
        bindR (canonical_hash (se_serde env) (se_sha env) (JObject (om_of_list (identity_fields spec)))) (\<lambda>doc_hash.
        bindR (canonical_hash (se_serde env) (se_sha env) (spec_json spec)) (\<lambda>h.
        bindR (to_vec (se_serde env) (JObject (om_of_list
            [(''payloadFormatVersion'', json_nat 1), (''schemaHash'', JString h),
             (''localRefs'', JArray (map JString (ws_refs (walk_document spec)))),
             (''schemaNodes'', json_nat (ws_nodes (walk_document spec)))]))) (\<lambda>payload.
        Inr \<lparr>canonical_document_hash = doc_hash, schema_hash = h, canonical_source = source,
             compiled_payload = payload, compiled_payload_hash = hash_bytes (se_sha env) payload,
             compiler_id = ''zhuangsheng-json-schema'', compiler_version = se_version env,
             payload_format_version = 1\<rparr>)))))"

text \<open>\<open>schema/validate.rs\<close>.\<close>

definition schema_limit :: domain_error where
  "schema_limit = SchemaValidation [issue_error ''schema_validation_limit_exceeded'' ''/'' []]"

text \<open>The cast from \<open>u64\<close> to \<open>i64\<close>.\<close>

definition as_i64 :: "nat \<Rightarrow> int" where
  "as_i64 n = (if n < 2 ^ 63 then int n else int n - 2 ^ 64)"

definition validate_number_limits :: "json_schema_spec \<Rightarrow> string \<Rightarrow> domain_error + unit" where
  "validate_number_limits spec raw =
     map_errR (\<lambda>_. schema_limit)
       (validate_number raw (max_number_digits (schema_limits spec))
         (as_i64 (max_number_exponent_magnitude (schema_limits spec))))"

fun validate_instance_limits :: "json_schema_spec \<Rightarrow> json \<Rightarrow> nat \<Rightarrow> domain_error + unit" where
  "validate_instance_limits spec v depth =
     (if depth > max_instance_depth (schema_limits spec) then Inl schema_limit
      else case v of
        JString s \<Rightarrow> ensureR (length s \<le> max_string_bytes (schema_limits spec)) schema_limit
      | JNumber n \<Rightarrow> validate_number_limits spec n
      | JArray vs \<Rightarrow>
          bindR (ensureR (length vs \<le> max_collection_items (schema_limits spec)) schema_limit) (\<lambda>_.
          bindR (mapR (\<lambda>w. validate_instance_limits spec w (depth + 1)) vs) (\<lambda>_. Inr ()))
      | JObject m \<Rightarrow>
          bindR (ensureR (length m \<le> max_collection_items (schema_limits spec)) schema_limit) (\<lambda>_.
          bindR (mapR (\<lambda>(_, w). validate_instance_limits spec w (depth + 1)) m) (\<lambda>_. Inr ()))
      | _ \<Rightarrow> Inr ())"

declare validate_instance_limits.simps [simp del]

definition validate_schema :: "schema_env \<Rightarrow> json_schema_spec \<Rightarrow> json \<Rightarrow> domain_error + unit" where
  "validate_schema env spec v =
     bindR (compile_schema env spec) (\<lambda>_.
     bindR (validate_instance_limits spec v 0) (\<lambda>_.
     bindR (to_vec (se_serde env) v) (\<lambda>bytes.
     bindR (ensureR (length bytes \<le> max_instance_bytes (schema_limits spec)) schema_limit) (\<lambda>_.
     bindR (map_errR (\<lambda>message. SchemaValidation [issue_error ''schema_compile_failed'' ''/'' message])
         (se_build env (document spec))) (\<lambda>validator.
     let found = map (\<lambda>(path, message). issue_error ''schema_instance_invalid'' path message)
           (take (max_validation_errors (schema_limits spec)) (validator v))
     in ensureR (found = []) (SchemaValidation found))))))"

end
