(* ===== verification/Llm_Ir.thy ===== *)
theory Llm_Ir
  imports Graph_Types
begin

text \<open>
  The provider-neutral representation of model calls: requests, responses, transcripts and stream
  events of \<open>crates/core/src/llm/ir/\<close>, and the artifact references of
  \<open>artifact/types.rs\<close>.  The operation key of a provider protocol comes from a third-party
  crate and is the type parameter \<open>'k\<close>; the floating-point generation options of a request
  are the type parameter \<open>'g\<close>, since nothing modelled looks into them.
\<close>

section \<open>Artifacts\<close>

record artifact_ref =
  ar_artifact_id :: string
  ar_content_hash :: string
  ar_byte_size :: nat
  ar_media_type :: string

definition is_hex_lower :: "char \<Rightarrow> bool" where
  "is_hex_lower c \<longleftrightarrow> is_digit c \<or> 97 \<le> byte c \<and> byte c \<le> 102"

definition starts_with :: "string \<Rightarrow> string \<Rightarrow> bool" where
  "starts_with pre s \<longleftrightarrow> take (length pre) s = pre"

text \<open>A digest as \<open>sha256:\<close> and 64 lower-case hexadecimal digits.\<close>

definition is_digest :: "string \<Rightarrow> bool" where
  "is_digest s \<longleftrightarrow> length s = 71 \<and> starts_with ''sha256:'' s \<and> list_all is_hex_lower (drop 7 s)"

definition artifact_valid :: "artifact_ref \<Rightarrow> bool" where
  "artifact_valid r \<longleftrightarrow>
     ar_artifact_id r \<noteq> [] \<and> length (ar_artifact_id r) \<le> 128
     \<and> ar_byte_size r \<noteq> 0 \<and> ar_byte_size r \<le> 1024 * 1024 * 1024
     \<and> is_digest (ar_content_hash r)
     \<and> ar_media_type r \<noteq> [] \<and> length (ar_media_type r) \<le> 128
     \<and> list_all (\<lambda>c. byte c < 128) (ar_media_type r) \<and> CHR ''/'' \<in> set (ar_media_type r)"

section \<open>Transcripts\<close>

datatype context_trust = RuntimePolicy | TrustedConfig | UserInput | ExternalUntrusted

datatype context_sensitivity = PublicData | PrivateData | SensitiveData

datatype provenance_role =
    PolicyRole | SystemRole | DeveloperRole | ContextRole | UserRole | AssistantRole

record context_provenance_ir =
  cp_id :: string
  cp_item_id :: string
  cp_source_type :: string
  cp_source_id :: string
  cp_trust :: context_trust
  cp_sensitivity :: context_sensitivity
  cp_final_role :: provenance_role
  cp_transformations :: "string list"

datatype instruction_role = SystemInstruction | DeveloperInstruction | PolicyInstruction | ContextInstruction

datatype content_part = TextPart string | ImagePart artifact_ref | FilePart artifact_ref

record instruction_ir =
  ins_id :: string
  ins_role :: instruction_role
  ins_content :: "content_part list"
  ins_provenance :: context_provenance_ir

datatype message_role = FromUser | FromAssistant

record tool_call_ir =
  tc_id :: string
  tc_provider_call_id :: "string option"
  tc_name :: string
  tc_arguments :: json

datatype tool_result_outcome = ToolSuccess | ToolError | ToolDenied

datatype hosted_tool_phase = HostedRequested | HostedRunning | HostedCompleted | HostedFailed

record internal_sensitive_entry_ref =
  se_object_id :: string
  se_entry_key :: string

record 'k continuation_ref =
  cr_adapter_key :: string
  cr_operation_key :: 'k
  cr_operation_taxonomy_version :: nat
  cr_adapter_decoder_version :: nat
  cr_model_call_id :: string
  cr_entry_ref :: internal_sensitive_entry_ref
  cr_digest :: string
  cr_expires_at :: "int option"

datatype 'k turn_item =
    Message string message_role "content_part list" "context_provenance_ir option" bool
  | AssistantToolCall string tool_call_ir
  | ToolResult string string string tool_result_outcome "content_part list"
  | HostedTool string string string hosted_tool_phase "content_part list" "'k continuation_ref option"
  | Reasoning string "string option" "'k continuation_ref option"

fun item_id :: "'k turn_item \<Rightarrow> string" where
  "item_id (Message i _ _ _ _) = i"
| "item_id (AssistantToolCall i _) = i"
| "item_id (ToolResult i _ _ _ _) = i"
| "item_id (HostedTool i _ _ _ _ _) = i"
| "item_id (Reasoning i _ _) = i"

section \<open>Requests\<close>

datatype metadata_value = MetaNull | MetaBoolean bool | MetaNumber string | MetaString string

record tool_descriptor_ir =
  td_name :: string
  td_description :: "string option"
  td_input_schema :: json_schema_spec

record hosted_tool_descriptor_ir =
  hd_binding_id :: string
  hd_hosted_kind :: string
  hd_config :: "(string, metadata_value) omap"

datatype response_format_ir = TextFormat | JsonFormat "json_schema_spec option" bool

datatype tool_choice_ir = AutoChoice | NoChoice | RequiredChoice | NamedChoice string

record provider_extra_ir =
  px_options :: "(string, json) omap"
  px_extra_body :: "(string, json) omap"
  px_extra_headers :: "(string, string) omap"

record provider_extensions_ir =
  ext_openai :: "provider_extra_ir option"
  ext_claude :: "provider_extra_ir option"
  ext_gemini :: "provider_extra_ir option"

record ('k, 'g) llm_request =
  rq_model :: string
  rq_instructions :: "instruction_ir list"
  rq_transcript :: "'k turn_item list"
  rq_tools :: "tool_descriptor_ir list"
  rq_hosted_tools :: "hosted_tool_descriptor_ir list"
  rq_tool_choice :: "tool_choice_ir option"
  rq_response_format :: "response_format_ir option"
  rq_generation :: "'g option"
  rq_extensions :: "provider_extensions_ir option"
  rq_metadata :: "(string, metadata_value) omap"
  rq_continuation :: "'k continuation_ref option"

section \<open>Responses\<close>

datatype finish_reason =
    FinishCompleted | FinishToolCalls | FinishLength | FinishContentFilter | FinishCancelled | FinishUnknown

record llm_usage =
  input_tokens :: "nat option"
  output_tokens :: "nat option"
  total_tokens :: "nat option"
  cached_input_tokens :: "nat option"
  reasoning_tokens :: "nat option"

record 'k llm_response =
  rs_model_call_id :: string
  rs_items :: "'k turn_item list"
  rs_usage :: "llm_usage option"
  rs_finish_reason :: "finish_reason option"
  rs_continuation :: "'k continuation_ref option"
  rs_raw_response_ref :: "artifact_ref option"

record 'k llm_api_error =
  le_operation_key :: 'k
  le_operation_taxonomy_version :: nat
  le_adapter_decoder_version :: nat
  le_status_code :: "nat option"
  le_code :: "string option"
  le_message :: string
  le_retryable :: bool

section \<open>Stream events\<close>

datatype 'k stream_event =
    Started string nat
  | TextDelta string nat string string
  | ReasoningDelta string nat string string
  | ToolCallDelta string nat string string "string option" "string option"
  | ToolCallCompleted string nat "'k turn_item"
  | HostedToolEvent string nat "'k turn_item"
  | UsageEvent string nat llm_usage
  | CompletedEvent string nat "'k llm_response"
  | FailedEvent string nat "'k llm_api_error"

fun event_call_id :: "'k stream_event \<Rightarrow> string" where
  "event_call_id (Started c _) = c"
| "event_call_id (TextDelta c _ _ _) = c"
| "event_call_id (ReasoningDelta c _ _ _) = c"
| "event_call_id (ToolCallDelta c _ _ _ _ _) = c"
| "event_call_id (ToolCallCompleted c _ _) = c"
| "event_call_id (HostedToolEvent c _ _) = c"
| "event_call_id (UsageEvent c _ _) = c"
| "event_call_id (CompletedEvent c _ _) = c"
| "event_call_id (FailedEvent c _ _) = c"

fun event_seq :: "'k stream_event \<Rightarrow> nat" where
  "event_seq (Started _ n) = n"
| "event_seq (TextDelta _ n _ _) = n"
| "event_seq (ReasoningDelta _ n _ _) = n"
| "event_seq (ToolCallDelta _ n _ _ _ _) = n"
| "event_seq (ToolCallCompleted _ n _) = n"
| "event_seq (HostedToolEvent _ n _) = n"
| "event_seq (UsageEvent _ n _) = n"
| "event_seq (CompletedEvent _ n _) = n"
| "event_seq (FailedEvent _ n _) = n"

fun is_terminal :: "'k stream_event \<Rightarrow> bool" where
  "is_terminal (CompletedEvent _ _ _) = True"
| "is_terminal (FailedEvent _ _ _) = True"
| "is_terminal _ = False"

fun is_started :: "'k stream_event \<Rightarrow> bool" where
  "is_started (Started _ _) = True"
| "is_started _ = False"

end
