(* ===== verification/Utf8.thy ===== *)
theory Utf8
  imports Prelude
begin

text \<open>
  The scalar values of UTF-8 texts, as \<open>str::chars\<close> gives them, and the functions of
  \<open>str\<close> that work on them: counting, cutting, trimming, replacing.
\<close>

section \<open>Scalar values\<close>

definition is_continuation :: "char \<Rightarrow> bool" where
  "is_continuation c \<longleftrightarrow> 128 \<le> byte c \<and> byte c < 192"

text \<open>\<open>str::chars\<close>: a byte and the continuation bytes after it.\<close>

function (sequential) scalars :: "string \<Rightarrow> string list" where
  "scalars [] = []"
| "scalars (c # s) = (c # takeWhile is_continuation s) # scalars (dropWhile is_continuation s)"
  by pat_completeness auto
termination by (relation "measure length") (auto simp: length_dropWhile_le le_imp_less_Suc)

definition scalar_count :: "string \<Rightarrow> nat" where
  "scalar_count s = length (scalars s)"

definition take_scalars :: "nat \<Rightarrow> string \<Rightarrow> string" where
  "take_scalars n s = concat (take n (scalars s))"

definition drop_scalars :: "nat \<Rightarrow> string \<Rightarrow> string" where
  "drop_scalars n s = concat (drop n (scalars s))"

lemma concat_scalars [simp]: "concat (scalars s) = s"
  by (induction s rule: scalars.induct) auto

lemma scalars_not_Nil: "s \<noteq> [] \<Longrightarrow> scalars s \<noteq> []"
  by (cases s) auto

lemma scalar_count_zero [simp]: "scalar_count s = 0 \<longleftrightarrow> s = []"
  by (cases s) (auto simp: scalar_count_def)

text \<open>A list of scalars: each is one byte with its continuation bytes, and no later one starts with one.\<close>

definition scalar_list :: "string list \<Rightarrow> bool" where
  "scalar_list xs \<longleftrightarrow>
     (\<forall>x \<in> set xs. x \<noteq> [] \<and> (\<forall>c \<in> set (tl x). is_continuation c))
     \<and> (\<forall>x \<in> set (tl xs). \<not> is_continuation (hd x))"

lemma scalars_hd: "x \<in> set (scalars s) \<Longrightarrow> x \<noteq> [] \<and> (\<forall>c \<in> set (tl x). is_continuation c)"
  by (induction s rule: scalars.induct) (auto dest: set_takeWhileD)

lemma scalars_first: "scalars s \<noteq> [] \<Longrightarrow> hd (hd (scalars s)) = hd s"
  by (cases s) auto

lemma scalars_tl: "x \<in> set (tl (scalars s)) \<Longrightarrow> \<not> is_continuation (hd x)"
proof (induction s rule: scalars.induct)
  case (2 c s)
  let ?r = "dropWhile is_continuation s"
  from 2(2) consider "x \<in> set (tl (scalars ?r))" | "scalars ?r \<noteq> []" "x = hd (scalars ?r)"
    by (cases "scalars ?r") auto
  then show ?case
  proof cases
    case 2
    then have "?r \<noteq> []" by (metis scalars.simps(1))
    then show ?thesis using hd_dropWhile [of is_continuation s] scalars_first [OF 2(1)] 2(2) by simp
  qed (rule 2(1))
qed simp

lemma scalar_list_scalars: "scalar_list (scalars s)"
  unfolding scalar_list_def using scalars_hd scalars_tl by blast

lemma scalar_list_Cons:
  "scalar_list (x # xs) \<Longrightarrow> scalar_list xs \<and> (\<forall>y \<in> set xs. y \<noteq> [] \<and> \<not> is_continuation (hd y))"
  by (cases xs) (auto simp: scalar_list_def)

lemma scalars_concat: "scalar_list xs \<Longrightarrow> scalars (concat xs) = xs"
proof (induction xs)
  case (Cons x xs)
  obtain c r where x: "x = c # r" "list_all is_continuation r"
    using Cons.prems by (cases x) (auto simp: scalar_list_def list_all_iff)
  have "takeWhile is_continuation (r @ concat xs) = r \<and> dropWhile is_continuation (r @ concat xs) = concat xs"
  proof (cases xs)
    case Nil
    then show ?thesis using x(2) by (simp add: list_all_iff takeWhile_eq_all_conv)
  next
    case (Cons y ys)
    then obtain d z where "y = d # z" "\<not> is_continuation d"
      using scalar_list_Cons [OF \<open>scalar_list (x # xs)\<close>] by (cases y) auto
    then show ?thesis using x(2) Cons by (simp add: list_all_iff)
  qed
  then show ?case using Cons scalar_list_Cons [OF Cons.prems] by (simp add: x(1))
qed simp

lemma scalar_list_take: "scalar_list xs \<Longrightarrow> scalar_list (take n xs)"
  unfolding scalar_list_def by (metis in_set_takeD tl_take)

lemma scalar_list_drop: "scalar_list xs \<Longrightarrow> scalar_list (drop n xs)"
  unfolding scalar_list_def by (metis in_set_dropD tl_drop)

lemma scalars_take_scalars [simp]: "scalars (take_scalars n s) = take n (scalars s)"
  unfolding take_scalars_def by (intro scalars_concat scalar_list_take scalar_list_scalars)

lemma scalars_drop_scalars [simp]: "scalars (drop_scalars n s) = drop n (scalars s)"
  unfolding drop_scalars_def by (intro scalars_concat scalar_list_drop scalar_list_scalars)

lemma scalar_count_take [simp]: "scalar_count (take_scalars n s) = min n (scalar_count s)"
  by (simp add: scalar_count_def min.commute)

lemma scalar_count_drop [simp]: "scalar_count (drop_scalars n s) = scalar_count s - n"
  by (simp add: scalar_count_def)

section \<open>White space\<close>

text \<open>\<open>char::is_whitespace\<close>: the characters of the Unicode property \<open>White_Space\<close>, by their bytes.\<close>

definition is_white :: "string \<Rightarrow> bool" where
  "is_white s \<longleftrightarrow>
     (case map byte s of
        [a] \<Rightarrow> 9 \<le> a \<and> a \<le> 13 \<or> a = 32
      | [a, b] \<Rightarrow> a = 194 \<and> (b = 133 \<or> b = 160)
      | [a, b, c] \<Rightarrow>
          a = 225 \<and> b = 154 \<and> c = 128
          \<or> a = 226 \<and> b = 128 \<and> (c \<le> 138 \<or> c = 168 \<or> c = 169 \<or> c = 175)
          \<or> a = 226 \<and> b = 129 \<and> c = 159
          \<or> a = 227 \<and> b = 128 \<and> c = 128
      | _ \<Rightarrow> False)"

text \<open>\<open>str::trim\<close>.\<close>

definition trim_scalars :: "string list \<Rightarrow> string list" where
  "trim_scalars xs = rev (dropWhile is_white (rev (dropWhile is_white xs)))"

definition trim :: "string \<Rightarrow> string" where
  "trim s = concat (trim_scalars (scalars s))"

lemma trim_scalars_sublist: "\<exists>a b. xs = a @ trim_scalars xs @ b"
proof -
  let ?d = "dropWhile is_white xs"
  have "rev ?d = takeWhile is_white (rev ?d) @ dropWhile is_white (rev ?d)" by simp
  then have "?d = trim_scalars xs @ rev (takeWhile is_white (rev ?d))"
    unfolding trim_scalars_def by (metis rev_append rev_rev_ident)
  then have "xs = takeWhile is_white xs @ trim_scalars xs @ rev (takeWhile is_white (rev ?d))"
    by (metis takeWhile_dropWhile_id)
  then show ?thesis by blast
qed

lemma scalar_list_infix: "scalar_list (a @ xs @ b) \<Longrightarrow> scalar_list xs"
  using scalar_list_take [of "drop (length a) (a @ xs @ b)" "length xs"] scalar_list_drop [of "a @ xs @ b" "length a"]
  by simp

lemma scalars_trim [simp]: "scalars (trim s) = trim_scalars (scalars s)"
  unfolding trim_def
  by (intro scalars_concat) (metis scalar_list_infix scalar_list_scalars trim_scalars_sublist)

lemma trim_scalars_hd: "trim_scalars xs \<noteq> [] \<Longrightarrow> \<not> is_white (hd (trim_scalars xs))"
proof -
  assume ne: "trim_scalars xs \<noteq> []"
  let ?d = "dropWhile is_white xs"
  have "rev ?d = takeWhile is_white (rev ?d) @ dropWhile is_white (rev ?d)" by simp
  then have d: "?d = trim_scalars xs @ rev (takeWhile is_white (rev ?d))"
    unfolding trim_scalars_def by (metis rev_append rev_rev_ident)
  then have "?d \<noteq> []" "hd ?d = hd (trim_scalars xs)" using ne by (metis append_is_Nil_conv, metis hd_append2)
  then show ?thesis by (metis hd_dropWhile)
qed

lemma trim_scalars_idem [simp]: "trim_scalars (trim_scalars xs) = trim_scalars xs"
proof (cases "trim_scalars xs = []")
  case False
  then have "dropWhile is_white (trim_scalars xs) = trim_scalars xs"
    using trim_scalars_hd [OF False] False by (cases "trim_scalars xs") auto
  moreover have "dropWhile is_white (rev (trim_scalars xs)) = rev (trim_scalars xs)"
    unfolding trim_scalars_def by simp
  ultimately show ?thesis unfolding trim_scalars_def [of "trim_scalars xs"] by simp
next
  case True
  then show ?thesis by (simp add: trim_scalars_def [of "[]"])
qed

lemma trim_idem [simp]: "trim (trim s) = trim s"
proof -
  have "trim (trim s) = concat (trim_scalars (scalars (trim s)))" by (rule trim_def)
  also have "\<dots> = concat (trim_scalars (scalars s))" by simp
  finally show ?thesis by (simp only: trim_def)
qed

section \<open>Replacing\<close>

text \<open>\<open>str::replace\<close>: the occurrences from the left; an empty pattern matches at every boundary.\<close>

function (sequential) replace_from :: "string \<Rightarrow> string \<Rightarrow> string \<Rightarrow> string" where
  "replace_from pattern v [] = []"
| "replace_from pattern v (c # s) =
     (if pattern \<noteq> [] \<and> take (length pattern) (c # s) = pattern
      then v @ replace_from pattern v (drop (length pattern) (c # s))
      else c # replace_from pattern v s)"
  by pat_completeness auto
termination by (relation "measure (\<lambda>(_, _, s). length s)") (auto simp: le_imp_less_Suc)

definition replace_str :: "string \<Rightarrow> string \<Rightarrow> string \<Rightarrow> string" where
  "replace_str pattern v s =
     (if pattern = [] then v @ concat (map (\<lambda>c. c @ v) (scalars s))
      else replace_from pattern v s)"

lemma replace_str_absent: "pattern \<noteq> [] \<Longrightarrow> (\<nexists>a b. s = a @ pattern @ b) \<Longrightarrow> replace_str pattern v s = s"
proof (induction s)
  case (Cons c s)
  have "take (length pattern) (c # s) \<noteq> pattern"
    using Cons.prems(2) by (metis append_take_drop_id append_Nil)
  moreover have "\<nexists>a b. s = a @ pattern @ b" using Cons.prems(2) by (metis append_Cons)
  ultimately show ?case using Cons.IH Cons.prems(1) by (simp add: replace_str_def)
qed (simp add: replace_str_def)

end
