(* ===== verification/Context_Types.thy ===== *)
theory Context_Types
  imports Llm_Ir Utf8 "HOL-Library.Product_Lexorder"
begin

text \<open>
  The data of the context assembly: candidates and groups (\<open>llm/context/candidate.rs\<close>),
  budgets and reports (\<open>llm/context/types.rs\<close>, \<open>engine_types.rs\<close>), and the scalar
  values of UTF-8 texts, by which texts are counted and cut.
\<close>

section \<open>Policies\<close>

datatype context_role = AsPolicy | AsSystem | AsDeveloper | AsContext | AsUser | AsAssistant

datatype context_position =
    AtStart | BeforeHistory | InHistory | AfterHistory | BeforeUserInput | AtUserInput | AssistantPrefill | AtEnd

datatype overflow_policy =
    DropOverflow | TruncateHead | TruncateTail | KeepRecent "nat option" | TopK nat | Dedupe

datatype budget_strategy = Strict | BestEffort

record budget_policy =
  max_input_tokens :: "nat option"
  budget_strategy_of :: "budget_strategy option"

datatype count_source = CountProvider | CountLocal | CountEstimate

record budget_input =
  context_window_tokens :: nat
  reserved_output_tokens :: nat
  fixed_request_tokens :: nat
  safety_margin_tokens :: nat
  input_count_source :: count_source

section \<open>Candidates and reports\<close>

record context_candidate =
  cc_id :: string
  cc_sub_index :: nat
  cc_history_order :: "nat option"
  cc_role :: context_role
  cc_content :: "content_part list"
  cc_provenance :: context_provenance_ir
  cc_content_hash :: string
  cc_relevance :: "int option"
  cc_included :: bool
  cc_token_count :: nat

record candidate_group =
  cg_item_id :: string
  cg_item_index :: nat
  cg_position :: context_position
  cg_order :: int
  cg_priority :: int
  cg_insertion_depth :: nat
  cg_required :: bool
  cg_max_tokens :: "nat option"
  cg_overflow :: "overflow_policy option"
  cg_candidates :: "context_candidate list"
  cg_pre_action :: "string option"

datatype budget_action = Kept | Dropped | Truncated | Deduped | Unsupported

record item_report =
  ir_item_id :: string
  ir_included :: bool
  ir_token_count :: nat
  ir_action :: budget_action

record budget_report =
  available_input_tokens :: nat
  report_fixed_tokens :: nat
  assembled_tokens :: nat
  report_count_source :: count_source
  report_items :: "item_report list"

text \<open>A token counter (the trait \<open>ContextTokenCounter\<close>): it may fail, with a code.\<close>

type_synonym token_counter = "context_role \<Rightarrow> content_part list \<Rightarrow> string + nat"

text \<open>\<open>EstimateTokenCounter\<close>: half a token per scalar, rounded up, and 256 for a binary part.\<close>

fun estimated_part :: "content_part \<Rightarrow> nat" where
  "estimated_part (TextPart t) = (scalar_count t + 1) div 2"
| "estimated_part _ = 256"

definition estimate_count :: token_counter where
  "estimate_count role content = Inr (foldl (\<lambda>n p. min u64_max (n + estimated_part p)) 4 content)"

end
