(* ===== verification/Text_Transform.thy ===== *)
theory Text_Transform
  imports Utf8 Ordmap "HOL-Library.Product_Lexorder"
begin

text \<open>
  \<open>crates/core/src/llm/text_transform/\<close>: the regular-expression rules that rewrite texts,
  their normalisation and their application.  The package \<open>fancy_regex\<close> is the record
  \<open>regex_lib\<close>, an argument.  An error is its code.
\<close>

section \<open>The data\<close>

datatype transform_target = TargetUserInput | TargetAssistantOutput | TargetWorldInfo | TargetReasoning

datatype transform_surface = SurfaceCanonical | SurfacePrompt | SurfaceDisplay

datatype macro_mode = MacroNone | MacroRaw | MacroEscaped

record text_rule =
  tr_id :: string
  tr_name :: string
  tr_priority :: int
  tr_order :: nat
  tr_find_regex :: string
  tr_replace_string :: string
  tr_trim_strings :: "string list"
  tr_targets :: "transform_target list"
  tr_surfaces :: "transform_surface list"
  tr_disabled :: bool
  tr_run_on_edit :: bool
  tr_macro_mode :: macro_mode
  tr_min_depth :: "int option"
  tr_max_depth :: "nat option"

record transform_context =
  tx_target :: "transform_target option"
  tx_surface :: "transform_surface option"
  tx_depth :: "nat option"
  tx_is_edit :: bool
  tx_macros :: "(string, string) omap"

record transform_output =
  to_text :: string
  to_applied :: "string list"

section \<open>The package \<open>fancy_regex\<close>\<close>

record regex_options =
  ro_case_insensitive :: bool
  ro_multi_line :: bool
  ro_dot_all :: bool
  ro_unicode :: bool
  ro_backtrack_limit :: "nat option"

text \<open>A match: its byte range, and those of its numbered and named groups.\<close>

record capture =
  cp_range :: "nat \<times> nat"
  cp_group :: "nat \<Rightarrow> (nat \<times> nat) option"
  cp_name :: "string \<Rightarrow> (nat \<times> nat) option"

record regex_lib =
  rx_build :: "string \<Rightarrow> regex_options \<Rightarrow> (string \<Rightarrow> capture option list) option"
    \<comment> \<open>\<open>build\<close>, and then \<open>captures_iter\<close>; a match is \<open>None\<close> when the matcher gives up\<close>
  rx_escape :: "string \<Rightarrow> string"

definition default_options :: regex_options where
  "default_options =
     \<lparr>ro_case_insensitive = False, ro_multi_line = False, ro_dot_all = False, ro_unicode = True,
      ro_backtrack_limit = None\<rparr>"

definition slice :: "nat \<Rightarrow> nat \<Rightarrow> string \<Rightarrow> string" where
  "slice a b s = take (b - a) (drop a s)"

definition group_text :: "string \<Rightarrow> (nat \<times> nat) option \<Rightarrow> string" where
  "group_text s r = (case r of None \<Rightarrow> [] | Some (a, b) \<Rightarrow> slice a b s)"

definition numbered_group :: "capture \<Rightarrow> nat \<Rightarrow> (nat \<times> nat) option" where
  "numbered_group c i = (if i = 0 then Some (cp_range c) else cp_group c i)"

section \<open>Patterns\<close>

definition BACKTRACK_LIMIT :: nat where "BACKTRACK_LIMIT = 250000"

record compiled_pattern =
  cm_regex :: "string \<Rightarrow> capture option list"
  cm_global :: bool

definition substitute_macros :: "regex_lib \<Rightarrow> string \<Rightarrow> (string, string) omap \<Rightarrow> bool \<Rightarrow> string" where
  "substitute_macros lib s macros escaped =
     foldl (\<lambda>out (name, v). replace_str (''{{'' @ name @ ''}}'') (if escaped then rx_escape lib v else v) out) s macros"

definition validate_flags :: "string \<Rightarrow> string + unit" where
  "validate_flags flags =
     ensureR (list_all (\<lambda>c. c \<in> set ''dgimsuy'') flags \<and> distinct flags) ''unsupported_text_transform_flag''"

text \<open>The last slash that an even number of backslashes precedes.\<close>

definition backslashes_before :: "string \<Rightarrow> nat \<Rightarrow> nat" where
  "backslashes_before s i = length (takeWhile (\<lambda>c. c = CHR 0x5C) (rev (take i s)))"

definition closing_slash :: "string \<Rightarrow> nat option" where
  "closing_slash s =
     find (\<lambda>i. s ! i = CHR ''/'' \<and> even (backslashes_before s i)) (rev [1..<length s])"

definition split_pattern :: "string \<Rightarrow> string + string \<times> string" where
  "split_pattern s =
     (if s = [] \<or> hd s \<noteq> CHR ''/'' then Inr (s, [])
      else (case closing_slash s of
              None \<Rightarrow> Inl ''invalid_text_transform_pattern''
            | Some i \<Rightarrow> Inr (slice 1 i s, drop (i + 1) s)))"

definition compile_pattern :: "regex_lib \<Rightarrow> text_rule \<Rightarrow> (string, string) omap \<Rightarrow> string + compiled_pattern" where
  "compile_pattern lib rule macros =
     (let origin =
        (case tr_macro_mode rule of
           MacroNone \<Rightarrow> tr_find_regex rule
         | MacroRaw \<Rightarrow> substitute_macros lib (tr_find_regex rule) macros False
         | MacroEscaped \<Rightarrow> substitute_macros lib (tr_find_regex rule) macros True)
      in bindR (split_pattern origin) (\<lambda>(pattern, flags).
         bindR (validate_flags flags) (\<lambda>_.
         let sticky = CHR ''y'' \<in> set flags;
             pattern = (if sticky then CHR 0x5C # ''A(?:'' @ pattern @ '')'' else pattern)
         in bindR (of_optionR ''invalid_text_transform_pattern''
              (rx_build lib pattern
                \<lparr>ro_case_insensitive = CHR ''i'' \<in> set flags, ro_multi_line = CHR ''m'' \<in> set flags,
                 ro_dot_all = CHR ''s'' \<in> set flags, ro_unicode = True,
                 ro_backtrack_limit = Some BACKTRACK_LIMIT\<rparr>)) (\<lambda>regex.
            Inr \<lparr>cm_regex = regex, cm_global = (CHR ''g'' \<in> set flags \<and> \<not> sticky)\<rparr>))))"

definition macro_pattern :: string where
  "macro_pattern =
     CHR 0x5C # ''{'' @ CHR 0x5C # ''{([A-Za-z_][A-Za-z0-9_]*)'' @ CHR 0x5C # ''}'' @ CHR 0x5C # ''}''"

definition validation_macros :: "regex_lib \<Rightarrow> string \<Rightarrow> (string, string) omap" where
  "validation_macros lib s =
     (case rx_build lib macro_pattern default_options of
        None \<Rightarrow> []
      | Some regex \<Rightarrow>
          om_of_list (concat (map (\<lambda>c. case Option.bind c (\<lambda>c. numbered_group c 1) of
              None \<Rightarrow> [] | Some r \<Rightarrow> [(group_text s (Some r), ''macro'')]) (regex s))))"

section \<open>Normalisation\<close>

definition MAX_RULES :: nat where "MAX_RULES = 256"
definition MAX_PATTERN_BYTES :: nat where "MAX_PATTERN_BYTES = 64 * 1024"
definition MAX_REPLACEMENT_BYTES :: nat where "MAX_REPLACEMENT_BYTES = 64 * 1024"

definition validate_rule_limits :: "text_rule \<Rightarrow> string + unit" where
  "validate_rule_limits rule =
     ensureR (\<not> (length (tr_name rule) > 200 \<or> tr_find_regex rule = []
         \<or> length (tr_find_regex rule) > MAX_PATTERN_BYTES
         \<or> length (tr_replace_string rule) > MAX_REPLACEMENT_BYTES
         \<or> length (tr_trim_strings rule) > 128
         \<or> list_ex (\<lambda>v. length v > MAX_REPLACEMENT_BYTES) (tr_trim_strings rule)))
       ''invalid_text_transform_rule''"

definition validate_depth :: "text_rule \<Rightarrow> string + text_rule" where
  "validate_depth rule =
     (if (case tr_min_depth rule of None \<Rightarrow> False | Some v \<Rightarrow> v < - 1)
         \<or> (case tr_max_depth rule of None \<Rightarrow> False | Some v \<Rightarrow> v > 10000)
         \<or> (case (tr_min_depth rule, tr_max_depth rule) of
              (Some lo, Some hi) \<Rightarrow> 0 \<le> lo \<and> nat lo > hi
            | _ \<Rightarrow> False)
      then Inl ''invalid_text_transform_depth''
      else Inr (if tr_min_depth rule = Some (- 1) then rule\<lparr>tr_min_depth := None\<rparr> else rule))"

fun target_code :: "transform_target \<Rightarrow> nat" where
  "target_code TargetUserInput = 0"
| "target_code TargetAssistantOutput = 1"
| "target_code TargetWorldInfo = 2"
| "target_code TargetReasoning = 3"

fun surface_code :: "transform_surface \<Rightarrow> nat" where
  "surface_code SurfaceCanonical = 0"
| "surface_code SurfacePrompt = 1"
| "surface_code SurfaceDisplay = 2"

text \<open>One rule at its place \<open>index\<close>, after the ids in \<open>seen\<close>.\<close>

definition normalize_rule :: "regex_lib \<Rightarrow> nat \<Rightarrow> string set \<Rightarrow> text_rule \<Rightarrow> string + text_rule" where
  "normalize_rule lib index seen rule =
     (let rule = rule\<lparr>tr_id := trim (tr_id rule), tr_name := trim (tr_name rule)\<rparr>
      in bindR (ensureR (tr_id rule \<noteq> [] \<and> length (tr_id rule) \<le> 128 \<and> tr_id rule \<notin> seen)
           ''invalid_text_transform_id'') (\<lambda>_.
         bindR (validate_rule_limits rule) (\<lambda>_.
         let rule = rule\<lparr>tr_targets := remdups_adj (sort_key target_code (tr_targets rule)),
                         tr_surfaces := remdups_adj (sort_key surface_code (tr_surfaces rule))\<rparr>
         in bindR (ensureR (tr_surfaces rule \<noteq> []) ''invalid_text_transform_rule'') (\<lambda>_.
            bindR (validate_depth rule) (\<lambda>rule.
            let rule = rule\<lparr>tr_order := index\<rparr>
            in bindR (map_errR (\<lambda>_. ''invalid_text_transform_pattern'')
                 (compile_pattern lib rule (validation_macros lib (tr_find_regex rule)))) (\<lambda>_.
               Inr rule))))))"

fun normalize_rules :: "regex_lib \<Rightarrow> nat \<Rightarrow> string set \<Rightarrow> text_rule list \<Rightarrow> string + text_rule list" where
  "normalize_rules lib index seen [] = Inr []"
| "normalize_rules lib index seen (rule # rs) =
     bindR (normalize_rule lib index seen rule) (\<lambda>rule.
     bindR (normalize_rules lib (index + 1) (insert (tr_id rule) seen) rs) (\<lambda>rs. Inr (rule # rs)))"

definition normalize_text_transforms :: "regex_lib \<Rightarrow> text_rule list \<Rightarrow> string + text_rule list" where
  "normalize_text_transforms lib rs =
     (if length rs > MAX_RULES then Inl ''text_transform_rule_limit''
      else normalize_rules lib 0 {} (sort_key (\<lambda>r. (tr_priority r, tr_order r)) rs))"

section \<open>Application\<close>

definition MAX_INPUT_BYTES :: nat where "MAX_INPUT_BYTES = 4 * 1024 * 1024"
definition MAX_OUTPUT_BYTES :: nat where "MAX_OUTPUT_BYTES = 8 * 1024 * 1024"

definition rule_applies :: "text_rule \<Rightarrow> transform_context \<Rightarrow> bool" where
  "rule_applies rule ctx \<longleftrightarrow>
     \<not> (tr_disabled rule \<or> tx_is_edit ctx \<and> \<not> tr_run_on_edit rule)
     \<and> (case tx_target ctx of None \<Rightarrow> True | Some t \<Rightarrow> t \<in> set (tr_targets rule))
     \<and> (case tx_surface ctx of None \<Rightarrow> True | Some s \<Rightarrow> s \<in> set (tr_surfaces rule))
     \<and> (case tx_depth ctx of None \<Rightarrow> True
        | Some d \<Rightarrow>
            (case tr_min_depth rule of None \<Rightarrow> True | Some lo \<Rightarrow> lo < 0 \<or> nat lo \<le> d)
            \<and> (case tr_max_depth rule of None \<Rightarrow> True | Some hi \<Rightarrow> d \<le> hi))"

definition trim_capture :: "regex_lib \<Rightarrow> text_rule \<Rightarrow> transform_context \<Rightarrow> string \<Rightarrow> string" where
  "trim_capture lib rule ctx v =
     foldl (\<lambda>out t. replace_str (substitute_macros lib t (tx_macros ctx) False) [] out) v (tr_trim_strings rule)"

text \<open>A reference after a dollar sign: the bytes it takes, and its value.\<close>

definition capture_reference :: "string \<Rightarrow> string \<Rightarrow> capture \<Rightarrow> (nat \<times> string) option" where
  "capture_reference tail input c =
     (if tail \<noteq> [] \<and> hd tail = CHR ''<'' \<and> CHR ''>'' \<in> set (tl tail)
      then (let name = takeWhile (\<lambda>x. x \<noteq> CHR ''>'') (tl tail)
            in Some (length name + 2, group_text input (cp_name c name)))
      else (case tail of
              [] \<Rightarrow> None
            | x # _ \<Rightarrow>
                if x = CHR ''$'' then Some (1, ''$'')
                else if x = CHR ''&'' then Some (1, group_text input (Some (cp_range c)))
                else if x = CHR 0x60 then Some (1, take (fst (cp_range c)) input)
                else if x = CHR 0x27 then Some (1, drop (snd (cp_range c)) input)
                else (let digits = take 2 (takeWhile is_digit tail)
                      in if digits = [] then None
                         else Some (length digits, group_text input (numbered_group c (digits_val digits))))))"

function (sequential) replace_loop ::
  "regex_lib \<Rightarrow> text_rule \<Rightarrow> transform_context \<Rightarrow> string \<Rightarrow> capture \<Rightarrow> string \<Rightarrow> string" where
  "replace_loop lib rule ctx input c [] = []"
| "replace_loop lib rule ctx input c (x # xs) =
     (case (if x = CHR ''$'' then capture_reference xs input c else None) of
        Some (n, v) \<Rightarrow> trim_capture lib rule ctx v @ replace_loop lib rule ctx input c (drop n xs)
      | None \<Rightarrow> x # replace_loop lib rule ctx input c xs)"
  by pat_completeness auto
termination by (relation "measure (\<lambda>(_, _, _, _, _, s). length s)") (auto simp: le_imp_less_Suc)

definition replacement :: "regex_lib \<Rightarrow> text_rule \<Rightarrow> transform_context \<Rightarrow> string \<Rightarrow> capture \<Rightarrow> string" where
  "replacement lib rule ctx input c =
     substitute_macros lib (replace_loop lib rule ctx input c (tr_replace_string rule)) (tx_macros ctx) False"

text \<open>The matches in turn: the output so far and the position behind the last match.\<close>

fun replace_matches ::
  "regex_lib \<Rightarrow> text_rule \<Rightarrow> transform_context \<Rightarrow> bool \<Rightarrow> string \<Rightarrow> capture option list \<Rightarrow> string \<Rightarrow> nat
     \<Rightarrow> string + string \<times> nat" where
  "replace_matches lib rule ctx global input [] out cursor = Inr (out, cursor)"
| "replace_matches lib rule ctx global input (None # cs) out cursor = Inl ''text_transform_runtime''"
| "replace_matches lib rule ctx global input (Some c # cs) out cursor =
     (let out = out @ slice cursor (fst (cp_range c)) input @ replacement lib rule ctx input c;
          cursor = snd (cp_range c)
      in if global then replace_matches lib rule ctx global input cs out cursor else Inr (out, cursor))"

definition apply_rule :: "regex_lib \<Rightarrow> text_rule \<Rightarrow> transform_context \<Rightarrow> string \<Rightarrow> string + string" where
  "apply_rule lib rule ctx input =
     bindR (compile_pattern lib rule (tx_macros ctx)) (\<lambda>compiled.
     let matches = cm_regex compiled input
     in bindR (replace_matches lib rule ctx (cm_global compiled) input matches [] 0) (\<lambda>(out, cursor).
        Inr (if matches = [] then input else out @ drop cursor input)))"

fun apply_rules ::
  "regex_lib \<Rightarrow> transform_context \<Rightarrow> text_rule list \<Rightarrow> transform_output \<Rightarrow> string + transform_output" where
  "apply_rules lib ctx [] out = Inr out"
| "apply_rules lib ctx (rule # rs) out =
     (if \<not> rule_applies rule ctx then apply_rules lib ctx rs out
      else
        bindR (apply_rule lib rule ctx (to_text out)) (\<lambda>text'.
        if length text' > MAX_OUTPUT_BYTES then Inl ''text_transform_output_limit''
        else apply_rules lib ctx rs
          \<lparr>to_text = text',
           to_applied = to_applied out @ (if text' \<noteq> to_text out then [tr_id rule] else [])\<rparr>))"

definition apply_text_transforms ::
  "regex_lib \<Rightarrow> string \<Rightarrow> text_rule list \<Rightarrow> transform_context \<Rightarrow> string + transform_output" where
  "apply_text_transforms lib input rs ctx =
     (if length input > MAX_INPUT_BYTES then Inl ''text_transform_input_limit''
      else apply_rules lib ctx rs \<lparr>to_text = input, to_applied = []\<rparr>)"

section \<open>Normalised rules stay as they are\<close>

lemma validate_depth_Inr:
  assumes "validate_depth rule = Inr rule'"
  shows "validate_depth rule' = Inr rule'" "tr_min_depth rule' \<noteq> Some (- 1)"
    "rule' = rule\<lparr>tr_min_depth := tr_min_depth rule'\<rparr>"
proof -
  have "rule' = (if tr_min_depth rule = Some (- 1) then rule\<lparr>tr_min_depth := None\<rparr> else rule)"
    using assms by (simp add: validate_depth_def split: if_splits)
  then show "validate_depth rule' = Inr rule'" "tr_min_depth rule' \<noteq> Some (- 1)"
    "rule' = rule\<lparr>tr_min_depth := tr_min_depth rule'\<rparr>"
    using assms by (simp_all add: validate_depth_def split: option.splits if_splits)
qed

lemma remdups_adj_set_hd: "xs \<noteq> [] \<Longrightarrow> hd (remdups_adj xs) = hd xs"
  by (induction xs rule: remdups_adj.induct) auto

lemma sorted_remdups_adj: "sorted (map f ys) \<Longrightarrow> sorted (map f (remdups_adj ys))"
  by (induction ys rule: remdups_adj.induct) auto

lemma remdups_adj_again: "remdups_adj (remdups_adj xs) = remdups_adj xs"
proof (induction xs rule: remdups_adj.induct)
  case (3 x y xs)
  show ?case
  proof (cases "x = y")
    case False
    obtain z zs where z: "remdups_adj (y # xs) = z # zs" by (cases "remdups_adj (y # xs)") auto
    then have "z = y" using remdups_adj_set_hd [of "y # xs"] by simp
    then show ?thesis using 3(2) False z by simp
  qed (use 3(1) in simp)
qed simp_all

lemma sorted_again: "remdups_adj (sort_key f (remdups_adj (sort_key f xs))) = remdups_adj (sort_key f xs)"
proof -
  have "sort_key f (remdups_adj (sort_key f xs)) = remdups_adj (sort_key f xs)"
    by (intro sort_key_id_if_sorted sorted_remdups_adj) simp
  then show ?thesis by (simp only: remdups_adj_again)
qed

definition normal_rule :: "nat \<Rightarrow> text_rule \<Rightarrow> text_rule" where
  "normal_rule index r =
     r\<lparr>tr_id := trim (tr_id r), tr_name := trim (tr_name r),
       tr_targets := remdups_adj (sort_key target_code (tr_targets r)),
       tr_surfaces := remdups_adj (sort_key surface_code (tr_surfaces r)),
       tr_min_depth := (if tr_min_depth r = Some (- 1) then None else tr_min_depth r), tr_order := index\<rparr>"

definition rule_ok :: "regex_lib \<Rightarrow> string set \<Rightarrow> text_rule \<Rightarrow> bool" where
  "rule_ok lib seen r \<longleftrightarrow>
     tr_id r \<noteq> [] \<and> length (tr_id r) \<le> 128 \<and> tr_id r \<notin> seen \<and> validate_rule_limits r = Inr ()
     \<and> tr_surfaces r \<noteq> [] \<and> validate_depth r = Inr r
     \<and> (\<exists>c. compile_pattern lib r (validation_macros lib (tr_find_regex r)) = Inr c)"

lemma normalize_rule_Inr:
  assumes "normalize_rule lib index seen r = Inr r'"
  shows "r' = normal_rule index r" "rule_ok lib seen r'"
proof -
  let ?a = "r\<lparr>tr_id := trim (tr_id r), tr_name := trim (tr_name r)\<rparr>"
  let ?b = "?a\<lparr>tr_targets := remdups_adj (sort_key target_code (tr_targets r)),
                tr_surfaces := remdups_adj (sort_key surface_code (tr_surfaces r))\<rparr>"
  obtain d where st: "trim (tr_id r) \<noteq> []" "length (trim (tr_id r)) \<le> 128" "trim (tr_id r) \<notin> seen"
      "validate_rule_limits ?a = Inr ()" "remdups_adj (sort_key surface_code (tr_surfaces r)) \<noteq> []"
      "validate_depth ?b = Inr d"
    and c: "\<exists>c. compile_pattern lib (d\<lparr>tr_order := index\<rparr>)
        (validation_macros lib (tr_find_regex (d\<lparr>tr_order := index\<rparr>))) = Inr c"
    and r': "r' = d\<lparr>tr_order := index\<rparr>"
    using assms unfolding normalize_rule_def Let_def by (auto simp: bindR_eq_Inr)
  have d: "d = (if tr_min_depth ?b = Some (- 1) then ?b\<lparr>tr_min_depth := None\<rparr> else ?b)"
    using st(6) by (simp add: validate_depth_def split: if_splits)
  show eq: "r' = normal_rule index r" unfolding r' d by (simp add: normal_rule_def)
  have "validate_rule_limits r' = validate_rule_limits ?a"
    by (simp add: eq normal_rule_def validate_rule_limits_def)
  moreover have "validate_depth r' = Inr r'"
    using validate_depth_Inr [OF st(6)] unfolding r' by (simp add: validate_depth_def split: if_splits)
  moreover have "tr_id r' = trim (tr_id r)" "tr_surfaces r' = remdups_adj (sort_key surface_code (tr_surfaces r))"
    by (simp_all add: eq normal_rule_def)
  ultimately show "rule_ok lib seen r'" using st(1-5) c unfolding rule_ok_def r' [symmetric] by simp
qed

lemma normal_rule_again: "normal_rule index (normal_rule index r) = normal_rule index r"
  by (simp add: normal_rule_def sorted_again)

lemma normalize_rule_again:
  assumes "rule_ok lib seen r" "r = normal_rule index r"
  shows "normalize_rule lib index seen r = Inr r"
proof -
  have n: "tr_id (normal_rule index r) = trim (tr_id r)" "tr_name (normal_rule index r) = trim (tr_name r)"
    "tr_order (normal_rule index r) = index"
    "tr_targets (normal_rule index r) = remdups_adj (sort_key target_code (tr_targets r))"
    "tr_surfaces (normal_rule index r) = remdups_adj (sort_key surface_code (tr_surfaces r))"
    by (simp_all add: normal_rule_def)
  note fixed = n [unfolded assms(2) [symmetric], symmetric]
  have same: "r\<lparr>tr_id := trim (tr_id r), tr_name := trim (tr_name r)\<rparr> = r"
    "r\<lparr>tr_targets := remdups_adj (sort_key target_code (tr_targets r)),
       tr_surfaces := remdups_adj (sort_key surface_code (tr_surfaces r))\<rparr> = r" "r\<lparr>tr_order := index\<rparr> = r"
    using fixed by (cases r; simp)+
  obtain c where "compile_pattern lib r (validation_macros lib (tr_find_regex r)) = Inr c"
    using assms(1) by (auto simp: rule_ok_def)
  then show ?thesis using assms(1) unfolding normalize_rule_def same Let_def rule_ok_def by (simp add: same)
qed

lemma normalize_rules_Inr:
  "normalize_rules lib index seen rs = Inr rs' \<Longrightarrow>
     rs' = map (\<lambda>(i, r). normal_rule i r) (enumerate index rs) \<and> normalize_rules lib index seen rs' = Inr rs'"
proof (induction rs arbitrary: index seen rs')
  case (Cons r rs)
  obtain r1 rs1 where 1: "normalize_rule lib index seen r = Inr r1"
    "normalize_rules lib (index + 1) (insert (tr_id r1) seen) rs = Inr rs1" "rs' = r1 # rs1"
    using Cons.prems by (auto simp: bindR_eq_Inr)
  note r1 = normalize_rule_Inr [OF 1(1)]
  have "normalize_rule lib index seen r1 = Inr r1"
    using normalize_rule_again [OF r1(2)] r1(1) normal_rule_again by simp
  moreover obtain tail: "rs1 = map (\<lambda>(i, r). normal_rule i r) (enumerate (index + 1) rs)"
    and again: "normalize_rules lib (index + 1) (insert (tr_id r1) seen) rs1 = Inr rs1"
    using Cons.IH [OF 1(2)] by blast
  moreover have "rs' = map (\<lambda>(i, r). normal_rule i r) (enumerate index (r # rs))"
    by (simp add: 1(3) tail r1(1))
  ultimately show ?case by (simp add: 1(3))
qed simp

lemma normalize_text_transforms_again:
  assumes "normalize_text_transforms lib rs = Inr rs'"
  shows "normalize_text_transforms lib rs' = Inr rs'"
proof -
  let ?key = "\<lambda>r. (tr_priority r, tr_order r)"
  let ?rs = "sort_key ?key rs"
  have n: "normalize_rules lib 0 {} ?rs = Inr rs'" "length rs \<le> MAX_RULES"
    using assms by (auto simp: normalize_text_transforms_def split: if_splits)
  obtain rs': "rs' = map (\<lambda>(i, r). normal_rule i r) (enumerate 0 ?rs)"
    and again: "normalize_rules lib 0 {} rs' = Inr rs'"
    using normalize_rules_Inr [OF n(1)] by blast
  have len: "length rs' = length rs" using rs' by simp
  have at: "rs' ! i = normal_rule i (?rs ! i)" if "i < length rs" for i
    using rs' that by (simp add: nth_enumerate_eq)
  have "sorted (map ?key rs')"
    unfolding sorted_iff_nth_mono_less length_map len
  proof (intro allI impI)
    fix i j
    assume ij: "i < j" "j < length rs"
    have "sorted (map ?key ?rs)" by simp
    then have "?key (?rs ! i) \<le> ?key (?rs ! j)"
      using ij by (auto simp: sorted_iff_nth_mono_less)
    then have "tr_priority (?rs ! i) \<le> tr_priority (?rs ! j)" by auto
    then show "map ?key rs' ! i \<le> map ?key rs' ! j"
      using ij at [of i] at [of j] len by (simp add: normal_rule_def)
  qed
  then have "sort_key ?key rs' = rs'" by (rule sort_key_id_if_sorted)
  then show ?thesis using n(2) len again by (simp add: normalize_text_transforms_def)
qed

end
