(* ===== verification/State_Patch.thy ===== *)
theory State_Patch
  imports Json
begin

text \<open>
  \<open>crates/core/src/state/types.rs\<close> and \<open>state/patch.rs\<close>: JSON patches over working
  contexts.  \<open>locate_mut\<close> returns a mutable reference into the document; here
  \<open>modify_at\<close> takes the change to make there and returns the changed document.  The
  document of a failed patch is dropped by the code, so an error carries none.
\<close>

section \<open>The code\<close>

datatype aggregate_kind = WorkingContextState | ArtifactMetadata

datatype actor_kind = ActorUser | ActorSystem | ActorNode | ActorTool | ActorApplication

record actor_ref =
  actor_kind :: actor_kind
  actor_id :: "string option"

datatype patch_op =
    PAdd string json
  | PReplace string json
  | PTest string json
  | PRemove string
  | PAppend string string json

fun op_path :: "patch_op \<Rightarrow> string" where
  "op_path (PAdd path _) = path"
| "op_path (PReplace path _) = path"
| "op_path (PTest path _) = path"
| "op_path (PRemove path) = path"
| "op_path (PAppend path _ _) = path"

record state_patch =
  aggregate_kind :: aggregate_kind
  aggregate_id :: string
  lineage_key :: string
  base_commit_id :: string
  operation_id :: string
  ops :: "patch_op list"
  patch_schema_version :: nat
  patch_policy_version :: nat
  author :: actor_ref

datatype state_error = InvalidPatch | PathMissing | StateTypeError | TestFailed

fun state_error_code :: "state_error \<Rightarrow> string" where
  "state_error_code InvalidPatch = ''invalid_state_patch''"
| "state_error_code PathMissing = ''state_path_missing''"
| "state_error_code StateTypeError = ''state_type_error''"
| "state_error_code TestFailed = ''state_test_failed''"

definition MAX_PATCH_OPS :: nat where "MAX_PATCH_OPS = 256"
definition MAX_ID_BYTES :: nat where "MAX_ID_BYTES = 512"

text \<open>\<open>str::split\<close> with a character: always at least one piece.\<close>

fun split_on :: "char \<Rightarrow> string \<Rightarrow> string list" where
  "split_on z [] = [[]]"
| "split_on z (c # s) =
     (if c = z then [] # split_on z s
      else case split_on z s of [] \<Rightarrow> [[c]] | t # ts \<Rightarrow> (c # t) # ts)"

fun decode_token :: "string \<Rightarrow> state_error + string" where
  "decode_token [] = Inr []"
| "decode_token (c # s) =
     (if c \<noteq> CHR ''~'' then bindR (decode_token s) (\<lambda>d. Inr (c # d))
      else case s of [] \<Rightarrow> Inl InvalidPatch
      | e # r \<Rightarrow>
          if e = CHR ''0'' then bindR (decode_token r) (\<lambda>d. Inr (CHR ''~'' # d))
          else if e = CHR ''1'' then bindR (decode_token r) (\<lambda>d. Inr (CHR ''/'' # d))
          else Inl InvalidPatch)"

definition pointer_tokens :: "string \<Rightarrow> state_error + string list" where
  "pointer_tokens pointer =
     (case pointer of [] \<Rightarrow> Inr []
      | c # r \<Rightarrow> if c \<noteq> CHR ''/'' then Inl InvalidPatch else mapR decode_token (split_on (CHR ''/'') r))"

definition array_index :: "string \<Rightarrow> bool \<Rightarrow> nat \<Rightarrow> state_error + nat" where
  "array_index token allow_end len =
     (if token = [] \<or> length token > 1 \<and> hd token = CHR ''0'' then Inl InvalidPatch
      else case parse_usize token of None \<Rightarrow> Inl InvalidPatch
      | Some index \<Rightarrow>
          if index < len \<or> allow_end \<and> index = len then Inr index else Inl PathMissing)"

fun locate :: "json \<Rightarrow> string list \<Rightarrow> state_error + json" where
  "locate v [] = Inr v"
| "locate (JObject m) (t # ts) = bindR (of_optionR PathMissing (om_get m t)) (\<lambda>c. locate c ts)"
| "locate (JArray xs) (t # ts) = bindR (array_index t False (length xs)) (\<lambda>i. locate (xs ! i) ts)"
| "locate _ (t # ts) = Inl StateTypeError"

fun modify_at :: "(json \<Rightarrow> state_error + json) \<Rightarrow> string list \<Rightarrow> json \<Rightarrow> state_error + json" where
  "modify_at f [] v = f v"
| "modify_at f (t # ts) (JObject m) =
     bindR (of_optionR PathMissing (om_get m t)) (\<lambda>c.
     bindR (modify_at f ts c) (\<lambda>c'. Inr (JObject (om_insert t c' m))))"
| "modify_at f (t # ts) (JArray xs) =
     bindR (array_index t False (length xs)) (\<lambda>i.
     bindR (modify_at f ts (xs ! i)) (\<lambda>c'. Inr (JArray (xs[i := c']))))"
| "modify_at f (t # ts) _ = Inl StateTypeError"

fun add_child :: "string \<Rightarrow> json \<Rightarrow> json \<Rightarrow> state_error + json" where
  "add_child key v (JObject m) = Inr (JObject (om_insert key v m))"
| "add_child key v (JArray xs) =
     (if key = ''-'' then Inr (JArray (xs @ [v]))
      else bindR (array_index key True (length xs)) (\<lambda>i. Inr (JArray (take i xs @ v # drop i xs))))"
| "add_child key v _ = Inl StateTypeError"

fun remove_child :: "string \<Rightarrow> json \<Rightarrow> state_error + json" where
  "remove_child key (JObject m) =
     (case om_get m key of None \<Rightarrow> Inl PathMissing | Some _ \<Rightarrow> Inr (JObject (om_remove key m)))"
| "remove_child key (JArray xs) =
     bindR (array_index key False (length xs)) (\<lambda>i. Inr (JArray (take i xs @ drop (Suc i) xs)))"
| "remove_child key _ = Inl StateTypeError"

fun push_value :: "json \<Rightarrow> json \<Rightarrow> state_error + json" where
  "push_value v (JArray xs) = Inr (JArray (xs @ [v]))"
| "push_value v _ = Inl StateTypeError"

definition add_op :: "json \<Rightarrow> string list \<Rightarrow> json \<Rightarrow> state_error + json" where
  "add_op target tokens v =
     (if tokens = [] then Inr v else modify_at (add_child (last tokens) v) (butlast tokens) target)"

definition replace_op :: "json \<Rightarrow> string list \<Rightarrow> json \<Rightarrow> state_error + json" where
  "replace_op target tokens v =
     (if tokens = [] then Inr v else modify_at (\<lambda>_. Inr v) tokens target)"

definition test_op :: "json \<Rightarrow> string list \<Rightarrow> json \<Rightarrow> state_error + json" where
  "test_op target tokens expected =
     bindR (locate target tokens) (\<lambda>actual. if actual = expected then Inr target else Inl TestFailed)"

definition remove_op :: "json \<Rightarrow> string list \<Rightarrow> state_error + json" where
  "remove_op target tokens =
     (if tokens = [] then Inl InvalidPatch
      else modify_at (remove_child (last tokens)) (butlast tokens) target)"

definition append_op :: "json \<Rightarrow> string list \<Rightarrow> json \<Rightarrow> state_error + json" where
  "append_op target tokens v = modify_at (push_value v) tokens target"

definition apply_operation :: "json \<Rightarrow> patch_op \<Rightarrow> state_error + json" where
  "apply_operation target operation =
     bindR (pointer_tokens (op_path operation)) (\<lambda>tokens.
     case operation of
       PAdd _ v \<Rightarrow> add_op target tokens v
     | PReplace _ v \<Rightarrow> replace_op target tokens v
     | PTest _ v \<Rightarrow> test_op target tokens v
     | PRemove _ \<Rightarrow> remove_op target tokens
     | PAppend _ _ v \<Rightarrow> append_op target tokens v)"

fun validate_ops :: "string set \<Rightarrow> patch_op list \<Rightarrow> state_error + unit" where
  "validate_ops append_ids [] = Inr ()"
| "validate_ops append_ids (op # rest) =
     bindR (pointer_tokens (op_path op)) (\<lambda>_.
     case op of
       PAppend _ element_id _ \<Rightarrow>
         (if element_id = [] \<or> length element_id > MAX_ID_BYTES \<or> element_id \<in> append_ids
          then Inl InvalidPatch else validate_ops (insert element_id append_ids) rest)
     | _ \<Rightarrow> validate_ops append_ids rest)"

definition validate_patch :: "state_patch \<Rightarrow> state_error + unit" where
  "validate_patch p =
     (if \<exists>i \<in> set [aggregate_id p, lineage_key p, base_commit_id p, operation_id p].
           i = [] \<or> length i > MAX_ID_BYTES then Inl InvalidPatch
      else if patch_schema_version p = 0 \<or> patch_policy_version p = 0 then Inl InvalidPatch
      else if ops p = [] \<or> length (ops p) > MAX_PATCH_OPS then Inl InvalidPatch
      else validate_ops {} (ops p))"

fun apply_ops :: "json \<Rightarrow> patch_op list \<Rightarrow> state_error + json" where
  "apply_ops v [] = Inr v"
| "apply_ops v (op # rest) = bindR (apply_operation v op) (\<lambda>w. apply_ops w rest)"

definition apply_patch :: "json \<Rightarrow> state_patch \<Rightarrow> state_error + json" where
  "apply_patch base p = bindR (validate_patch p) (\<lambda>_. apply_ops base (ops p))"

definition tokens_or_empty :: "string \<Rightarrow> string list" where
  "tokens_or_empty path = (case pointer_tokens path of Inl _ \<Rightarrow> [] | Inr ts \<Rightarrow> ts)"

definition paths_overlap :: "string \<Rightarrow> string \<Rightarrow> bool" where
  "paths_overlap l r = list_all (\<lambda>(a, b). a = b) (zip (tokens_or_empty l) (tokens_or_empty r))"

fun is_append :: "patch_op \<Rightarrow> bool" where
  "is_append (PAppend _ _ _) = True"
| "is_append _ = False"

definition ops_conflict :: "patch_op \<Rightarrow> patch_op \<Rightarrow> bool" where
  "ops_conflict l r =
     (if is_append l \<and> is_append r \<and> op_path l = op_path r then False
      else paths_overlap (op_path l) (op_path r))"

definition patches_conflict :: "state_patch \<Rightarrow> state_patch \<Rightarrow> bool" where
  "patches_conflict left right \<longleftrightarrow>
     list_ex (\<lambda>l. list_ex (\<lambda>r. ops_conflict l r) (ops right)) (ops left)"

section \<open>JSON pointers\<close>

text \<open>The escaped form of a token and the pointer of a token list.\<close>

fun escape_token :: "string \<Rightarrow> string" where
  "escape_token [] = []"
| "escape_token (c # s) =
     (if c = CHR ''~'' then ''~0'' else if c = CHR ''/'' then ''~1'' else [c]) @ escape_token s"

definition pointer_of :: "string list \<Rightarrow> string" where
  "pointer_of ts = concat (map (\<lambda>t. CHR ''/'' # escape_token t) ts)"

lemma decode_escape: "decode_token (escape_token t) = Inr t"
  by (induction t) auto

lemma escape_decode: "decode_token s = Inr t \<Longrightarrow> CHR ''/'' \<notin> set s \<Longrightarrow> escape_token t = s"
proof (induction s arbitrary: t rule: decode_token.induct)
  case (2 c s)
  show ?case
  proof (cases "c = CHR ''~''")
    case False
    then show ?thesis using 2(1) 2(4,5) by (auto simp: bindR_eq_Inr)
  next
    case True
    obtain e r where s: "s = e # r" using 2(4) True by (cases s) auto
    then consider d where "e = CHR ''0''" "decode_token r = Inr d" "t = CHR ''~'' # d"
      | d where "e = CHR ''1''" "decode_token r = Inr d" "t = CHR ''/'' # d"
      using 2(4) True by (auto simp: bindR_eq_Inr split: if_splits)
    then show ?thesis
      using 2(2) [OF _ s] 2(3) [OF _ s] 2(5) True s by cases auto
  qed
qed simp

lemma escape_no_slash: "CHR ''/'' \<notin> set (escape_token t)"
  by (induction t) auto

lemma split_on_plain: "z \<notin> set s \<Longrightarrow> split_on z s = [s]"
  by (induction s) auto

lemma split_on_append: "z \<notin> set s \<Longrightarrow> split_on z (s @ z # r) = s # split_on z r"
  by (induction s) auto

lemma split_on_no_sep: "t \<in> set (split_on z s) \<Longrightarrow> z \<notin> set t"
  by (induction z s arbitrary: t rule: split_on.induct) (auto split: if_splits list.splits)

lemma split_on_concat: "concat (map (\<lambda>t. z # t) (split_on z s)) = z # s"
proof (induction z s rule: split_on.induct)
  case (2 z c s)
  then show ?case by (cases "split_on z s") auto
qed simp

lemma split_pointer: "split_on (CHR ''/'') (escape_token t @ pointer_of ts) = escape_token t # map escape_token ts"
proof (induction ts arbitrary: t)
  case Nil
  then show ?case by (simp add: pointer_of_def split_on_plain escape_no_slash)
next
  case (Cons u ts)
  have "pointer_of (u # ts) = CHR ''/'' # escape_token u @ pointer_of ts" by (simp add: pointer_of_def)
  then show ?case using Cons [of u] by (simp add: split_on_append escape_no_slash)
qed

lemma mapR_decode_escape: "mapR decode_token (map escape_token ts) = Inr ts"
  by (induction ts) (auto simp: decode_escape)

lemma pointer_tokens_of: "pointer_tokens (pointer_of ts) = Inr ts"
proof (cases ts)
  case (Cons t us)
  have "pointer_of ts = CHR ''/'' # escape_token t @ pointer_of us" by (simp add: Cons pointer_of_def)
  then show ?thesis
    using mapR_decode_escape [of ts] by (simp add: pointer_tokens_def split_pointer Cons)
qed (simp add: pointer_tokens_def pointer_of_def)

lemma pointer_of_tokens:
  assumes "pointer_tokens p = Inr ts"
  shows "pointer_of ts = p"
proof (cases p)
  case (Cons c r)
  then have c: "c = CHR ''/''" "mapR decode_token (split_on (CHR ''/'') r) = Inr ts"
    using assms by (auto simp: pointer_tokens_def split: if_splits)
  have "map escape_token ts = split_on (CHR ''/'') r"
  proof (rule nth_equalityI)
    show "length (map escape_token ts) = length (split_on (CHR ''/'') r)"
      using mapR_length [OF c(2)] by simp
  next
    fix i assume "i < length (map escape_token ts)"
    then have i: "decode_token (split_on (CHR ''/'') r ! i) = Inr (ts ! i)" "i < length (split_on (CHR ''/'') r)"
      "i < length ts"
      using c(2) by (simp_all add: mapR_eq_Inr list_all2_conv_all_nth)
    then show "map escape_token ts ! i = split_on (CHR ''/'') r ! i"
      using escape_decode [OF i(1)] split_on_no_sep [OF nth_mem [OF i(2)]] by simp
  qed
  then have "pointer_of ts = concat (map (\<lambda>t. CHR ''/'' # t) (split_on (CHR ''/'') r))"
    by (simp add: pointer_of_def comp_def flip: \<open>map escape_token ts = _\<close>)
  then show ?thesis using c(1) Cons by (simp add: split_on_concat)
next
  case Nil
  then show ?thesis using assms by (simp add: pointer_tokens_def pointer_of_def)
qed

text \<open>
  C35: the decoder of JSON pointers inverts the encoding with the escapes of \<open>~\<close> and
  \<open>/\<close>, and accepts nothing else: two different pointers never name the same tokens.
\<close>
theorem pointer_roundtrip: "pointer_tokens p = Inr ts \<longleftrightarrow> p = pointer_of ts"
  using pointer_tokens_of pointer_of_tokens by auto

section \<open>One step into an object\<close>

text \<open>What an operation does once its path is decoded.\<close>

definition apply_tokens :: "json \<Rightarrow> patch_op \<Rightarrow> string list \<Rightarrow> state_error + json" where
  "apply_tokens v op ts =
     (case op of
       PAdd _ x \<Rightarrow> add_op v ts x
     | PReplace _ x \<Rightarrow> replace_op v ts x
     | PTest _ x \<Rightarrow> test_op v ts x
     | PRemove _ \<Rightarrow> remove_op v ts
     | PAppend _ _ x \<Rightarrow> append_op v ts x)"

lemma apply_operation_tokens:
  "apply_operation v op = bindR (pointer_tokens (op_path op)) (\<lambda>ts. apply_tokens v op ts)"
  by (simp add: apply_operation_def apply_tokens_def)

text \<open>
  The effect of an operation on the member at the head of its path: the member's new value,
  or \<open>None\<close> when it is removed.
\<close>

definition member_step :: "patch_op \<Rightarrow> string list \<Rightarrow> json option \<Rightarrow> state_error + json option" where
  "member_step op ts member =
     (if ts = [] then
        (case op of
          PAdd _ x \<Rightarrow> Inr (Some x)
        | PReplace _ x \<Rightarrow> bindR (of_optionR PathMissing member) (\<lambda>_. Inr (Some x))
        | PTest _ x \<Rightarrow> bindR (of_optionR PathMissing member) (\<lambda>c. if c = x then Inr (Some c) else Inl TestFailed)
        | PRemove _ \<Rightarrow> bindR (of_optionR PathMissing member) (\<lambda>_. Inr None)
        | PAppend _ _ x \<Rightarrow> bindR (of_optionR PathMissing member) (\<lambda>c. bindR (push_value x c) (\<lambda>c. Inr (Some c))))
      else bindR (of_optionR PathMissing member) (\<lambda>c. bindR (apply_tokens c op ts) (\<lambda>c. Inr (Some c))))"

definition set_member :: "string \<Rightarrow> json option \<Rightarrow> (string \<times> json) list \<Rightarrow> (string \<times> json) list" where
  "set_member k r m = (case r of None \<Rightarrow> om_remove k m | Some v \<Rightarrow> om_insert k v m)"

lemma apply_tokens_object:
  assumes "om_wf m"
  shows "apply_tokens (JObject m) op (t # ts) =
    bindR (member_step op ts (om_get m t)) (\<lambda>r. Inr (JObject (set_member t r m)))"
proof (cases "om_get m t")
  case None
  then show ?thesis
    by (cases ts; cases op) (auto simp: apply_tokens_def member_step_def set_member_def add_op_def
      replace_op_def test_op_def remove_op_def append_op_def split: list.splits)
next
  case (Some c)
  have same: "om_insert t c m = m" using assms Some by (rule om.put_same)
  show ?thesis
  proof (cases "ts = []")
    case True
    then show ?thesis
      using Some same by (cases op) (auto simp: apply_tokens_def member_step_def set_member_def add_op_def
        replace_op_def test_op_def remove_op_def append_op_def bindR_def split: sum.splits)
  next
    case False
    then show ?thesis
      using Some same
      by (cases op) (auto simp: apply_tokens_def member_step_def set_member_def add_op_def
        replace_op_def test_op_def remove_op_def append_op_def bindR_def split: sum.splits)
  qed
qed

lemma set_member_get: "om_wf m \<Longrightarrow> om_get (set_member k r m) k' = (if k' = k then r else om_get m k')"
  by (cases r) (auto simp: set_member_def om.get_put om.get_del)

lemma set_member_wf: "om_wf m \<Longrightarrow> om_wf (set_member k r m)"
  by (cases r) (auto simp: set_member_def om.wf_put om.wf_del)

lemma set_member_commute: "om_wf m \<Longrightarrow> k \<noteq> l \<Longrightarrow> set_member k r (set_member l q m) = set_member l q (set_member k r m)"
  by (rule om.ext) (auto simp: set_member_get set_member_wf)

lemma set_member_twice: "om_wf m \<Longrightarrow> set_member k r (set_member k q m) = set_member k r m"
  by (rule om.ext) (auto simp: set_member_get set_member_wf)

section \<open>Operations on disjoint paths commute\<close>

text \<open>A token that can only name a member of an object.\<close>

definition names_member :: "string \<Rightarrow> bool" where
  "names_member t \<longleftrightarrow> t = [] \<or> \<not> is_digit (hd t) \<and> hd t \<noteq> CHR ''+'' \<and> hd t \<noteq> CHR ''-''"

fun diverge :: "string list \<Rightarrow> string list \<Rightarrow> bool" where
  "diverge (x # xs) (y # ys) = (x \<noteq> y \<or> diverge xs ys)"
| "diverge _ _ = False"

lemma diverge_not_overlap: "diverge ts us \<longleftrightarrow> \<not> list_all (\<lambda>(a, b). a = b) (zip ts us)"
  by (induction ts us rule: diverge.induct) auto

lemma array_index_member: "names_member t \<Longrightarrow> array_index t b n = Inl InvalidPatch"
  by (auto simp: names_member_def array_index_def parse_usize_def parse_unsigned_def Let_def
      split: list.splits option.splits if_splits)

lemma apply_tokens_not_object:
  assumes "names_member t" "\<nexists>m. v = JObject m"
  shows "\<exists>e. apply_tokens v op (t # ts) = Inl e"
proof -
  have t: "t \<noteq> ''-''" using assms(1) by (auto simp: names_member_def)
  show ?thesis
    using assms(2) t array_index_member [OF assms(1)]
    by (cases v; cases ts; cases op)
      (auto simp: apply_tokens_def add_op_def replace_op_def test_op_def remove_op_def append_op_def)
qed


lemma diamond:
  "wf_json v \<Longrightarrow> diverge ts us \<Longrightarrow> list_all names_member ts \<Longrightarrow> list_all names_member us \<Longrightarrow>
    apply_tokens v a ts = Inr v1 \<Longrightarrow> apply_tokens v b us = Inr v2 \<Longrightarrow>
    \<exists>w. apply_tokens v1 b us = Inr w \<and> apply_tokens v2 a ts = Inr w"
proof (induction ts us arbitrary: v v1 v2 rule: diverge.induct)
  case (1 x xs y ys)
  obtain m where v: "v = JObject m" using apply_tokens_not_object [of x v a xs] 1(4,6) by fastforce
  have m: "om_wf m" using 1(2) v by simp
  obtain r q where r: "member_step a xs (om_get m x) = Inr r" "v1 = JObject (set_member x r m)"
    and q: "member_step b ys (om_get m y) = Inr q" "v2 = JObject (set_member y q m)"
    using 1(6,7) by (auto simp: v apply_tokens_object [OF m] bindR_eq_Inr)
  show ?case
  proof (cases "x = y")
    case False
    then show ?thesis
      using r q m by (simp add: apply_tokens_object set_member_wf set_member_get set_member_commute)
  next
    case True
    then have d: "diverge xs ys" "xs \<noteq> []" "ys \<noteq> []" using 1(3) by (auto elim: diverge.elims)
    then obtain c c1 c2 where c: "om_get m x = Some c" "apply_tokens c a xs = Inr c1" "r = Some c1"
      "apply_tokens c b ys = Inr c2" "q = Some c2"
      using r(1) q(1) True by (auto simp: member_step_def bindR_eq_Inr)
    have "wf_json c" using 1(2) v c(1) wf_json_object_get by blast
    then obtain w where "apply_tokens c1 b ys = Inr w" "apply_tokens c2 a xs = Inr w"
      using 1(1) [of c c1 c2] d(1) c(2,4) 1(4,5) by auto
    then show ?thesis
      using r q m True c d
      by (simp add: apply_tokens_object set_member_wf set_member_get set_member_twice member_step_def)
  qed
qed simp_all

text \<open>Operations whose paths decode to tokens that name members.\<close>

definition member_op :: "patch_op \<Rightarrow> bool" where
  "member_op op = list_all names_member (tokens_or_empty (op_path op))"

definition disjoint_ops :: "patch_op \<Rightarrow> patch_op \<Rightarrow> bool" where
  "disjoint_ops a b = diverge (tokens_or_empty (op_path a)) (tokens_or_empty (op_path b))"

text \<open>Documents inside a patch are documents.\<close>

fun op_value :: "patch_op \<Rightarrow> json option" where
  "op_value (PAdd _ v) = Some v"
| "op_value (PReplace _ v) = Some v"
| "op_value (PTest _ v) = Some v"
| "op_value (PRemove _) = None"
| "op_value (PAppend _ _ v) = Some v"

definition wf_op :: "patch_op \<Rightarrow> bool" where
  "wf_op op = (case op_value op of None \<Rightarrow> True | Some v \<Rightarrow> wf_json v)"

lemma list_all_take_drop: "list_all P xs \<Longrightarrow> list_all P (take i xs) \<and> list_all P (drop j xs)"
  by (auto simp: list_all_iff dest: in_set_takeD in_set_dropD)

text \<open>A change that turns documents into documents.\<close>

definition keeps_wf :: "(json \<Rightarrow> state_error + json) \<Rightarrow> bool" where
  "keeps_wf f \<longleftrightarrow> (\<forall>c c'. wf_json c \<longrightarrow> f c = Inr c' \<longrightarrow> wf_json c')"

lemma keeps_wf_add: "wf_json x \<Longrightarrow> keeps_wf (add_child k x)"
proof -
  assume "wf_json x"
  then have "wf_json c \<Longrightarrow> add_child k x c = Inr c' \<Longrightarrow> wf_json c'" for c c'
    using wf_json_object_insert
    by (cases c) (auto simp: list_all_take_drop bindR_eq_Inr split: if_splits)
  then show ?thesis by (simp add: keeps_wf_def)
qed

lemma keeps_wf_remove: "keeps_wf (remove_child k)"
proof -
  have "wf_json c \<Longrightarrow> remove_child k c = Inr c' \<Longrightarrow> wf_json c'" for c c'
    using wf_json_object_remove
    by (cases c) (auto simp: list_all_take_drop bindR_eq_Inr split: option.splits)
  then show ?thesis by (simp add: keeps_wf_def)
qed

lemma keeps_wf_push: "wf_json x \<Longrightarrow> keeps_wf (push_value x)"
  unfolding keeps_wf_def by (intro allI impI, rename_tac c c', case_tac c) auto

lemma modify_at_wf:
  assumes f: "keeps_wf f"
  shows "wf_json v \<Longrightarrow> modify_at f ts v = Inr w \<Longrightarrow> wf_json w"
proof (induction ts arbitrary: v w)
  case (Cons t ts)
  show ?case
  proof (cases v)
    case (JObject m)
    then obtain c c' where c: "om_get m t = Some c" "modify_at f ts c = Inr c'" "w = JObject (om_insert t c' m)"
      using Cons(3) by (auto simp: bindR_eq_Inr)
    have m: "wf_json (JObject m)" using Cons(2) JObject by simp
    have "wf_json c'" using Cons(1) wf_json_object_get [OF m c(1)] c(2) by blast
    then show ?thesis unfolding c(3) by (rule wf_json_object_insert [OF m])
  next
    case (JArray xs)
    then obtain i c' where c: "array_index t False (length xs) = Inr i" "modify_at f ts (xs ! i) = Inr c'"
      "w = JArray (xs[i := c'])"
      using Cons(3) by (auto simp: bindR_eq_Inr)
    have "i < length xs" using c(1) by (auto simp: array_index_def split: if_splits option.splits)
    then have "wf_json c'" using Cons(1,2) c(2) JArray wf_json_array_nth by blast
    then show ?thesis using Cons(2) JArray c(3) set_update_subset_insert [of xs i c'] by (auto simp: list_all_iff)
  qed (use Cons(3) in auto)
qed (use f in \<open>auto simp: keeps_wf_def\<close>)

lemma apply_tokens_wf:
  assumes op: "wf_op op" and v: "wf_json v" and w: "apply_tokens v op ts = Inr w"
  shows "wf_json w"
proof (cases op)
  case (PAdd p x)
  have x: "wf_json x" using op by (simp add: PAdd wf_op_def)
  have "w = x \<or> modify_at (add_child (last ts) x) (butlast ts) v = Inr w"
    using w by (simp add: PAdd apply_tokens_def add_op_def split: if_splits)
  then show ?thesis using x modify_at_wf [OF keeps_wf_add [OF x] v] by blast
next
  case (PReplace p x)
  have x: "wf_json x" using op by (simp add: PReplace wf_op_def)
  have "w = x \<or> modify_at (\<lambda>_. Inr x) ts v = Inr w"
    using w by (simp add: PReplace apply_tokens_def replace_op_def split: if_splits)
  moreover have "keeps_wf (\<lambda>_. Inr x)" using x by (simp add: keeps_wf_def)
  ultimately show ?thesis using x modify_at_wf [OF _ v] by blast
next
  case (PTest p x)
  then show ?thesis
    using w v by (auto simp: apply_tokens_def test_op_def bindR_eq_Inr split: if_splits)
next
  case (PRemove p)
  have "modify_at (remove_child (last ts)) (butlast ts) v = Inr w"
    using w by (simp add: PRemove apply_tokens_def remove_op_def split: if_splits)
  then show ?thesis by (rule modify_at_wf [OF keeps_wf_remove v])
next
  case (PAppend p i x)
  have x: "wf_json x" using op by (simp add: PAppend wf_op_def)
  have "modify_at (push_value x) ts v = Inr w"
    using w by (simp add: PAppend apply_tokens_def append_op_def)
  then show ?thesis by (rule modify_at_wf [OF keeps_wf_push [OF x] v])
qed

lemma apply_operation_wf: "wf_op op \<Longrightarrow> wf_json v \<Longrightarrow> apply_operation v op = Inr w \<Longrightarrow> wf_json w"
  using apply_tokens_wf by (auto simp: apply_operation_tokens bindR_eq_Inr)

lemma apply_ops_wf: "list_all wf_op os \<Longrightarrow> wf_json v \<Longrightarrow> apply_ops v os = Inr w \<Longrightarrow> wf_json w"
  by (induction os arbitrary: v) (auto simp: bindR_eq_Inr dest: apply_operation_wf)

lemma operation_diamond:
  assumes "wf_json v" "member_op a" "member_op b" "disjoint_ops a b"
    "apply_operation v a = Inr v1" "apply_operation v b = Inr v2"
  shows "\<exists>w. apply_operation v1 b = Inr w \<and> apply_operation v2 a = Inr w"
proof -
  obtain ts us where "pointer_tokens (op_path a) = Inr ts" "pointer_tokens (op_path b) = Inr us"
    using assms(5,6) by (auto simp: apply_operation_tokens bindR_eq_Inr)
  then show ?thesis
    using assms diamond [of v ts us a v1 b v2]
    by (auto simp: apply_operation_tokens member_op_def disjoint_ops_def tokens_or_empty_def)
qed

lemma operations_diamond:
  "wf_json v \<Longrightarrow> wf_op a \<Longrightarrow> member_op a \<Longrightarrow> list_all (\<lambda>b. wf_op b \<and> member_op b \<and> disjoint_ops a b) bs \<Longrightarrow>
    apply_operation v a = Inr v1 \<Longrightarrow> apply_ops v bs = Inr v2 \<Longrightarrow>
    \<exists>w. apply_ops v1 bs = Inr w \<and> apply_operation v2 a = Inr w"
proof (induction bs arbitrary: v v1)
  case (Cons b bs)
  then obtain u where u: "apply_operation v b = Inr u" "apply_ops u bs = Inr v2"
    by (auto simp: bindR_eq_Inr)
  obtain w where w: "apply_operation v1 b = Inr w" "apply_operation u a = Inr w"
    using operation_diamond [of v a b v1 u] Cons.prems u by auto
  have "wf_json u" using Cons.prems u(1) apply_operation_wf by auto
  then show ?case using Cons.IH [OF _ _ _ _ w(2) u(2)] Cons.prems w(1) by auto
qed auto

lemma ops_diamond:
  "wf_json v \<Longrightarrow> list_all wf_op as \<Longrightarrow> list_all wf_op bs \<Longrightarrow> list_all member_op as \<Longrightarrow> list_all member_op bs \<Longrightarrow>
    (\<And>a b. a \<in> set as \<Longrightarrow> b \<in> set bs \<Longrightarrow> disjoint_ops a b) \<Longrightarrow>
    apply_ops v as = Inr v1 \<Longrightarrow> apply_ops v bs = Inr v2 \<Longrightarrow>
    \<exists>w. apply_ops v1 bs = Inr w \<and> apply_ops v2 as = Inr w"
proof (induction as arbitrary: v v2)
  case (Cons a as)
  then obtain u where u: "apply_operation v a = Inr u" "apply_ops u as = Inr v1"
    by (auto simp: bindR_eq_Inr)
  obtain w where w: "apply_ops u bs = Inr w" "apply_operation v2 a = Inr w"
    using operations_diamond [of v a bs u v2] Cons.prems u by (auto simp: list_all_iff)
  have "wf_json u" using Cons.prems u(1) apply_operation_wf by auto
  then show ?case using Cons.IH [OF _ _ _ _ _ _ u(2) w(1)] Cons.prems w(2) by auto
qed auto

section \<open>Where an operation acts\<close>

text \<open>The place an operation changes, and the change it makes there.\<close>

definition op_site :: "patch_op \<Rightarrow> string list \<Rightarrow> string list" where
  "op_site op ts = (case op of PAdd _ _ \<Rightarrow> butlast ts | PRemove _ \<Rightarrow> butlast ts | _ \<Rightarrow> ts)"

definition op_change :: "patch_op \<Rightarrow> string list \<Rightarrow> json \<Rightarrow> state_error + json" where
  "op_change op ts u =
     (case op of
       PAdd _ v \<Rightarrow> if ts = [] then Inr v else add_child (last ts) v u
     | PReplace _ v \<Rightarrow> Inr v
     | PTest _ v \<Rightarrow> if u = v then Inr u else Inl TestFailed
     | PRemove _ \<Rightarrow> if ts = [] then Inl InvalidPatch else remove_child (last ts) u
     | PAppend _ _ v \<Rightarrow> push_value v u)"

fun put :: "json \<Rightarrow> string list \<Rightarrow> json \<Rightarrow> json" where
  "put v [] x = x"
| "put (JObject m) (t # ts) x =
     (case om_get m t of None \<Rightarrow> JObject m | Some c \<Rightarrow> JObject (om_insert t (put c ts x) m))"
| "put (JArray xs) (t # ts) x =
     (case array_index t False (length xs) of Inl _ \<Rightarrow> JArray xs | Inr i \<Rightarrow> JArray (xs[i := put (xs ! i) ts x]))"
| "put v (t # ts) x = v"

lemma modify_at_put:
  "modify_at f ts v = bindR (locate v ts) (\<lambda>u. bindR (f u) (\<lambda>u'. Inr (put v ts u')))"
proof (induction v ts arbitrary: f rule: locate.induct)
  case (2 m t ts)
  then show ?case by (cases "om_get m t") (simp_all add: bindR_def split: sum.splits)
next
  case (3 xs t ts)
  then show ?case by (cases "array_index t False (length xs)") (simp_all add: bindR_def split: sum.splits)
qed (simp_all add: bindR_def split: sum.splits)

lemma array_index_bound: "array_index t False n = Inr i \<Longrightarrow> i < n"
  by (auto simp: array_index_def split: if_splits option.splits)

lemma locate_put: "locate v ts = Inr u \<Longrightarrow> locate (put v ts x) ts = Inr x"
proof (induction v ts rule: locate.induct)
  case (3 xs t ts)
  then obtain i where "array_index t False (length xs) = Inr i" by (auto simp: bindR_eq_Inr)
  with 3 show ?case using array_index_bound by auto
qed (auto simp: bindR_eq_Inr om.get_put)

lemma put_located: "wf_json v \<Longrightarrow> locate v ts = Inr u \<Longrightarrow> put v ts u = v"
proof (induction v ts rule: locate.induct)
  case (2 m t ts)
  then obtain c where c: "om_get m t = Some c" by (auto simp: bindR_eq_Inr)
  then have "put c ts u = c" using 2 wf_json_object_get by auto
  then show ?case using c 2(2) om.put_same by auto
next
  case (3 xs t ts)
  then obtain i where i: "array_index t False (length xs) = Inr i" by (auto simp: bindR_eq_Inr)
  then have "put (xs ! i) ts u = xs ! i" using 3 array_index_bound wf_json_array_nth by auto
  then show ?case using i by simp
qed auto

lemma apply_tokens_site:
  assumes "wf_json v"
  shows "apply_tokens v op ts =
    bindR (locate v (op_site op ts)) (\<lambda>u. bindR (op_change op ts u) (\<lambda>u'. Inr (put v (op_site op ts) u')))"
proof (cases op)
  case (PTest p x)
  then show ?thesis
    using put_located [OF assms]
    by (cases "locate v ts") (auto simp: apply_tokens_def op_site_def op_change_def test_op_def)
qed (auto simp: apply_tokens_def op_site_def op_change_def add_op_def replace_op_def remove_op_def
    append_op_def modify_at_put bindR_def split: sum.splits)

lemma array_index_numeral:
  assumes "array_index t b n = Inr i" "hd t \<noteq> CHR ''+''"
  shows "t = show_nat i"
proof -
  have "t \<noteq> []" "length t = 1 \<or> hd t \<noteq> CHR ''0''" "parse_usize t = Some i"
    using assms(1) by (auto simp: array_index_def neq_Nil_conv split: if_splits option.splits)
  then show ?thesis
    using assms(2) show_nat_digits_val [of t]
    by (auto simp: parse_usize_def parse_unsigned_def Let_def neq_Nil_conv split: if_splits)
qed

definition plain_token :: "string \<Rightarrow> bool" where
  "plain_token t \<longleftrightarrow> t = [] \<or> hd t \<noteq> CHR ''+''"

lemma array_index_distinct:
  assumes "array_index t False n = Inr i" "array_index s False n = Inr j" "plain_token t" "plain_token s" "t \<noteq> s"
  shows "i \<noteq> j"
proof -
  have "t \<noteq> []" "s \<noteq> []" using assms(1,2) by (auto simp: array_index_def)
  then show ?thesis
    using array_index_numeral [OF assms(1)] array_index_numeral [OF assms(2)] assms(3-5)
    by (auto simp: plain_token_def)
qed

lemma locate_put_frame:
  "locate v ts = Inr u \<Longrightarrow> diverge ts ps \<Longrightarrow> list_all plain_token ts \<Longrightarrow> list_all plain_token ps \<Longrightarrow>
    locate (put v ts x) ps = locate v ps"
proof (induction ts ps arbitrary: v rule: diverge.induct)
  case (1 t ts p ps)
  show ?case
  proof (cases v)
    case (JObject m)
    then obtain c where c: "om_get m t = Some c" "locate c ts = Inr u" using 1(2) by (auto simp: bindR_eq_Inr)
    then show ?thesis using 1 JObject by (cases "t = p") (auto simp: om.get_put)
  next
    case (JArray xs)
    then obtain i where i: "array_index t False (length xs) = Inr i" "locate (xs ! i) ts = Inr u"
      using 1(2) by (auto simp: bindR_eq_Inr)
    show ?thesis
    proof (cases "t = p")
      case True
      then show ?thesis using 1 JArray i array_index_bound [OF i(1)] by auto
    next
      case False
      then show ?thesis
        using 1(4,5) JArray i array_index_distinct [OF i(1)]
        by (cases "array_index p False (length xs)") auto
    qed
  qed (use 1(2) in auto)
qed auto

text \<open>
  An operation changes the structure of an array when it inserts or removes an element by
  index: then the elements behind it move.
\<close>

definition shifts_array :: "json \<Rightarrow> patch_op \<Rightarrow> string list \<Rightarrow> bool" where
  "shifts_array v op ts \<longleftrightarrow> (case op of PAdd _ _ \<Rightarrow> True | PRemove _ \<Rightarrow> True | _ \<Rightarrow> False)
     \<and> ts \<noteq> [] \<and> (\<exists>xs. locate v (butlast ts) = Inr (JArray xs))"

lemma locate_append: "locate v (ts @ us) = bindR (locate v ts) (\<lambda>u. locate u us)"
  by (induction v ts rule: locate.induct) (simp_all add: bindR_def split: sum.splits)

lemma diverge_snoc: "diverge (ts @ [t]) ps \<Longrightarrow> diverge ts ps \<or> (\<exists>s us. ps = ts @ s # us \<and> s \<noteq> t)"
proof (induction ts arbitrary: ps)
  case (Cons s ts)
  then show ?case by (cases ps) auto
next
  case Nil
  then show ?case by (cases ps) auto
qed

lemma apply_tokens_frame:
  assumes wf: "wf_json v" and ok: "apply_tokens v op ts = Inr w" and d: "diverge ts ps"
    and pl: "list_all plain_token ts" "list_all plain_token ps" and ns: "\<not> shifts_array v op ts"
  shows "locate w ps = locate v ps"
proof -
  obtain u u' where u: "locate v (op_site op ts) = Inr u" "op_change op ts u = Inr u'" "w = put v (op_site op ts) u'"
    using ok by (auto simp: apply_tokens_site [OF wf] bindR_eq_Inr)
  show ?thesis
  proof (cases "op_site op ts = ts")
    case True
    then show ?thesis using locate_put_frame u d pl by auto
  next
    case False
    then have op: "op_site op ts = butlast ts" "(\<exists>p x. op = PAdd p x) \<or> (\<exists>p. op = PRemove p)"
      by (cases op; simp add: op_site_def)+
    have ts: "ts = butlast ts @ [last ts]" "ts \<noteq> []" using d by (cases ts; simp)+
    obtain m where m: "u = JObject m"
      using u op ns ts(2) by (cases u) (auto simp: shifts_array_def op_change_def)
    from diverge_snoc [of "butlast ts" "last ts" ps] consider "diverge (butlast ts) ps"
      | s us where "ps = butlast ts @ s # us" "s \<noteq> last ts"
      using d ts by auto
    then show ?thesis
    proof cases
      case 1
      moreover have "list_all plain_token (butlast ts)"
        using pl(1) ts(1) by (metis list_all_append)
      ultimately show ?thesis using locate_put_frame u pl(2) op(1) by auto
    next
      case (2 s us)
      obtain m' where m': "u' = JObject m'" "om_get m' s = om_get m s"
        using u(2) op(2) m ts(2) 2(2)
        by (auto simp: op_change_def om_get_insert om_get_remove split: option.splits)
      have "locate w (butlast ts) = Inr (JObject m')" using u m'(1) op(1) locate_put by metis
      then show ?thesis using u(1) m m'(2) op(1) by (simp add: 2(1) locate_append)
    qed
  qed
qed

section \<open>Properties\<close>

text \<open>
  An accepted patch turns a document into a document: every object keeps ordered,
  distinct keys.
\<close>
theorem apply_patch_wf:
  assumes "wf_json base" "list_all wf_op (ops p)" "apply_patch base p = Inr v"
  shows "wf_json v"
  using assms apply_ops_wf by (auto simp: apply_patch_def bindR_eq_Inr)

text \<open>
  An operation acts at its place only.  What its path named before and names after is
  the operation's: a \<open>test\<close> saw the expected value and changed nothing, a \<open>replace\<close>
  needs a present target and leaves its value there, an \<open>append\<close> extends the array there by
  one, an added object member or array element is found under its path, a removed member is
  gone; and on a plain path that diverges from the operation's nothing has changed, unless the
  operation shifts the elements of an array.
\<close>
theorem operation_effect:
  assumes wf: "wf_json v" and ok: "apply_operation v op = Inr w" and ts: "pointer_tokens (op_path op) = Inr ts"
  shows "(case op of
      PTest _ x \<Rightarrow> w = v \<and> locate v ts = Inr x
    | PReplace _ x \<Rightarrow> (\<exists>u. locate v ts = Inr u) \<and> locate w ts = Inr x
    | PAppend _ _ x \<Rightarrow> \<exists>xs. locate v ts = Inr (JArray xs) \<and> locate w ts = Inr (JArray (xs @ [x]))
    | PAdd _ x \<Rightarrow>
        ts = [] \<and> w = x
        \<or> (\<exists>m. locate v (butlast ts) = Inr (JObject m) \<and> locate w ts = Inr x)
        \<or> (\<exists>xs i. locate v (butlast ts) = Inr (JArray xs) \<and> i \<le> length xs
             \<and> (last ts = ''-'' \<and> i = length xs \<or> array_index (last ts) True (length xs) = Inr i)
             \<and> locate w (butlast ts) = Inr (JArray (take i xs @ x # drop i xs)))
    | PRemove _ \<Rightarrow>
        ts \<noteq> [] \<and>
        ((\<exists>m c. locate v (butlast ts) = Inr (JObject m) \<and> om_get m (last ts) = Some c
             \<and> locate w (butlast ts) = Inr (JObject (om_remove (last ts) m)))
        \<or> (\<exists>xs i. locate v (butlast ts) = Inr (JArray xs) \<and> array_index (last ts) False (length xs) = Inr i
             \<and> locate w (butlast ts) = Inr (JArray (take i xs @ drop (Suc i) xs)))))
    \<and> (\<forall>ps. diverge ts ps \<longrightarrow> list_all plain_token ts \<longrightarrow> list_all plain_token ps
         \<longrightarrow> \<not> shifts_array v op ts \<longrightarrow> locate w ps = locate v ps)"
proof
  have tok: "apply_tokens v op ts = Inr w" using ok ts by (simp add: apply_operation_tokens)
  then show "\<forall>ps. diverge ts ps \<longrightarrow> list_all plain_token ts \<longrightarrow> list_all plain_token ps
      \<longrightarrow> \<not> shifts_array v op ts \<longrightarrow> locate w ps = locate v ps"
    using apply_tokens_frame [OF wf] by blast
  obtain u u' where u: "locate v (op_site op ts) = Inr u" "op_change op ts u = Inr u'" "w = put v (op_site op ts) u'"
    using tok by (auto simp: apply_tokens_site [OF wf] bindR_eq_Inr)
  then have w: "locate w (op_site op ts) = Inr u'" using locate_put by blast
  show "case op of
      PTest _ x \<Rightarrow> w = v \<and> locate v ts = Inr x
    | PReplace _ x \<Rightarrow> (\<exists>u. locate v ts = Inr u) \<and> locate w ts = Inr x
    | PAppend _ _ x \<Rightarrow> \<exists>xs. locate v ts = Inr (JArray xs) \<and> locate w ts = Inr (JArray (xs @ [x]))
    | PAdd _ x \<Rightarrow>
        ts = [] \<and> w = x
        \<or> (\<exists>m. locate v (butlast ts) = Inr (JObject m) \<and> locate w ts = Inr x)
        \<or> (\<exists>xs i. locate v (butlast ts) = Inr (JArray xs) \<and> i \<le> length xs
             \<and> (last ts = ''-'' \<and> i = length xs \<or> array_index (last ts) True (length xs) = Inr i)
             \<and> locate w (butlast ts) = Inr (JArray (take i xs @ x # drop i xs)))
    | PRemove _ \<Rightarrow>
        ts \<noteq> [] \<and>
        ((\<exists>m c. locate v (butlast ts) = Inr (JObject m) \<and> om_get m (last ts) = Some c
             \<and> locate w (butlast ts) = Inr (JObject (om_remove (last ts) m)))
        \<or> (\<exists>xs i. locate v (butlast ts) = Inr (JArray xs) \<and> array_index (last ts) False (length xs) = Inr i
             \<and> locate w (butlast ts) = Inr (JArray (take i xs @ drop (Suc i) xs))))"
  proof (cases op)
    case (PAdd p x)
    show ?thesis
    proof (cases "ts = []")
      case True
      then show ?thesis using u PAdd by (simp add: op_site_def op_change_def)
    next
      case False
      then have l: "locate w ts = bindR (locate w (butlast ts)) (\<lambda>u. locate u [last ts])"
        by (metis append_butlast_last_id locate_append)
      show ?thesis
        using u w PAdd False l
        by (cases u) (auto simp: op_site_def op_change_def bindR_eq_Inr om_get_insert array_index_def
            split: if_splits option.splits)
    qed
  next
    case (PRemove p)
    then show ?thesis
      using u w by (cases u) (auto simp: op_site_def op_change_def bindR_eq_Inr split: if_splits option.splits)
  next
    case (PAppend p i x)
    then show ?thesis using u w by (cases u) (auto simp: op_site_def op_change_def)
  next
    case (PTest p x)
    then show ?thesis
      using u w put_located [OF wf] by (auto simp: op_site_def op_change_def split: if_splits)
  qed (use u w in \<open>auto simp: op_site_def op_change_def\<close>)
qed

definition shares_append :: "state_patch \<Rightarrow> state_patch \<Rightarrow> bool" where
  "shares_append l r \<longleftrightarrow>
     (\<exists>a \<in> set (ops l). \<exists>b \<in> set (ops r). is_append a \<and> is_append b \<and> op_path a = op_path b)"

text \<open>
  C36: when two patches on the same base do not conflict, name only members of objects on their
  paths and do not append to the same array, the order in which they are committed does not
  matter: each still applies after the other, and the results are the same.
\<close>
theorem disjoint_patches_commute:
  assumes "wf_json base" "list_all wf_op (ops l)" "list_all wf_op (ops r)"
    "list_all member_op (ops l)" "list_all member_op (ops r)"
    "\<not> patches_conflict l r" "\<not> shares_append l r"
    "apply_patch base l = Inr v1" "apply_patch base r = Inr v2"
  shows "\<exists>w. apply_patch v1 r = Inr w \<and> apply_patch v2 l = Inr w"
proof -
  have "disjoint_ops a b" if "a \<in> set (ops l)" "b \<in> set (ops r)" for a b
    using assms(6,7) that
    by (auto simp: patches_conflict_def list_ex_iff ops_conflict_def shares_append_def paths_overlap_def
        disjoint_ops_def diverge_not_overlap split: if_splits)
  moreover have "validate_patch l = Inr ()" "validate_patch r = Inr ()"
    "apply_ops base (ops l) = Inr v1" "apply_ops base (ops r) = Inr v2"
    using assms(8,9) by (auto simp: apply_patch_def bindR_eq_Inr)
  ultimately show ?thesis
    using ops_diamond [OF assms(1-5)] by (simp add: apply_patch_def)
qed

definition sample_patch :: "patch_op list \<Rightarrow> state_patch" where
  "sample_patch os = \<lparr>aggregate_kind = WorkingContextState, aggregate_id = ''ctx'', lineage_key = ''b'',
     base_commit_id = ''c0'', operation_id = ''op'', ops = os, patch_schema_version = 1,
     patch_policy_version = 1, author = \<lparr>actor_kind = ActorUser, actor_id = None\<rparr>\<rparr>"

definition doc :: "string list \<Rightarrow> json" where
  "doc xs = JObject [(''a'', JArray (map JString xs))]"

lemma sample_tokens:
  "pointer_tokens ''/a/0'' = Inr [''a'', ''0'']" "pointer_tokens ''/a/1'' = Inr [''a'', ''1'']"
  "pointer_tokens ''/a/+1'' = Inr [''a'', ''+1'']" "pointer_tokens ''/b'' = Inr [''b'']"
  "pointer_tokens ''/a'' = Inr [''a'']"
  by code_simp+

lemma sample_digits: "digits_val ''0'' = 0" "digits_val ''1'' = 1"
  "list_all is_digit ''0''" "list_all is_digit ''1''"
  by code_simp+

lemma sample_index: "array_index ''0'' b (Suc n) = Inr 0" "array_index ''1'' b (Suc (Suc n)) = Inr 1"
  "array_index ''+1'' b (Suc (Suc n)) = Inr 1"
  using sample_digits by (simp_all add: array_index_def parse_usize_def parse_unsigned_def u64_max_def Let_def)

lemmas patch_compute = patches_conflict_def ops_conflict_def paths_overlap_def tokens_or_empty_def
  apply_patch_def validate_patch_def sample_patch_def sample_tokens apply_operation_def add_op_def
  replace_op_def append_op_def MAX_ID_BYTES_def MAX_PATCH_OPS_def doc_def om_get_def sample_index

lemma disjoint_patches_commute_witness:
  "\<exists>w v1 v2. apply_patch (doc [''x'']) (sample_patch [PAppend ''/a'' ''e'' JNull]) = Inr v1
     \<and> apply_patch (doc [''x'']) (sample_patch [PAdd ''/b'' JNull]) = Inr v2
     \<and> apply_patch v1 (sample_patch [PAdd ''/b'' JNull]) = Inr w
     \<and> apply_patch v2 (sample_patch [PAppend ''/a'' ''e'' JNull]) = Inr w"
proof -
  let ?l = "sample_patch [PAppend ''/a'' ''e'' JNull]" and ?r = "sample_patch [PAdd ''/b'' JNull]"
  have a: "apply_patch (doc [''x'']) ?l = Inr (JObject [(''a'', JArray [JString ''x'', JNull])])"
    "apply_patch (doc [''x'']) ?r = Inr (JObject [(''a'', JArray [JString ''x'']), (''b'', JNull)])"
    by (simp_all add: patch_compute)
  have h: "wf_json (doc [''x''])" "list_all wf_op (ops ?l)" "list_all wf_op (ops ?r)"
    "list_all member_op (ops ?l)" "list_all member_op (ops ?r)"
    "\<not> patches_conflict ?l ?r" "\<not> shares_append ?l ?r"
    by (simp_all add: patch_compute wf_op_def member_op_def shares_append_def names_member_def om_wf_def
        is_digit_def byte_def)
  show ?thesis using disjoint_patches_commute [OF h a] a by blast
qed

lemma apply_patch_wf_witness:
  "\<exists>v. apply_patch (doc [''x'']) (sample_patch [PAdd ''/b'' JNull]) = Inr v \<and> wf_json v"
proof -
  have a: "apply_patch (doc [''x'']) (sample_patch [PAdd ''/b'' JNull])
      = Inr (JObject [(''a'', JArray [JString ''x'']), (''b'', JNull)])"
    by (simp add: patch_compute)
  show ?thesis
    using apply_patch_wf [OF _ _ a] a by (simp add: sample_patch_def wf_op_def doc_def om_wf_def)
qed

lemma operation_effect_witness:
  "\<exists>w. apply_operation (doc [''x'', ''y'']) (PReplace ''/a/1'' JNull) = Inr w \<and> locate w [''a'', ''1''] = Inr JNull"
proof -
  have a: "apply_operation (doc [''x'', ''y'']) (PReplace ''/a/1'' JNull)
      = Inr (JObject [(''a'', JArray [JString ''x'', JNull])])"
    by (simp add: patch_compute)
  show ?thesis
    using operation_effect [OF _ a] a sample_tokens(2) by (simp add: doc_def om_wf_def)
qed

text \<open>Concrete patches for the two limits of the conflict check.\<close>

definition insert_front :: state_patch where
  "insert_front = sample_patch [PAdd ''/a/0'' (JString ''new'')]"

definition edit_second :: "string \<Rightarrow> string \<Rightarrow> state_patch" where
  "edit_second path text = sample_patch [PReplace path (JString text)]"

text \<open>
  The conflict check compares paths as text and does not see that inserting into an array
  moves the elements behind it: an insertion at the front and a replacement of a later
  element, made on the same base, pass as independent, and the document depends on which of
  them is committed first.
\<close>
theorem array_shift_undetected:
  "\<not> patches_conflict insert_front (edit_second ''/a/1'' ''edit'')
   \<and> bindR (apply_patch (doc [''x'', ''y'']) insert_front) (\<lambda>v. apply_patch v (edit_second ''/a/1'' ''edit''))
       = Inr (doc [''new'', ''edit'', ''y''])
   \<and> bindR (apply_patch (doc [''x'', ''y'']) (edit_second ''/a/1'' ''edit'')) (\<lambda>v. apply_patch v insert_front)
       = Inr (doc [''new'', ''x'', ''edit''])"
  by (simp add: insert_front_def edit_second_def patch_compute)

text \<open>
  An index may be written with a plus sign, which the check for canonical indices lets
  through: two patches that replace the same array element under its two names pass as
  independent and the later one wins.
\<close>
theorem index_alias_undetected:
  "\<not> patches_conflict (edit_second ''/a/1'' ''mine'') (edit_second ''/a/+1'' ''theirs'')
   \<and> bindR (apply_patch (doc [''x'', ''y'']) (edit_second ''/a/1'' ''mine''))
       (\<lambda>v. apply_patch v (edit_second ''/a/+1'' ''theirs'')) = Inr (doc [''x'', ''theirs''])
   \<and> bindR (apply_patch (doc [''x'', ''y'']) (edit_second ''/a/+1'' ''theirs''))
       (\<lambda>v. apply_patch v (edit_second ''/a/1'' ''mine'')) = Inr (doc [''x'', ''mine''])"
  by (simp add: edit_second_def patch_compute)

end
