(* ===== verification/Selector.thy ===== *)
theory Selector
  imports Graph_Types State_Patch
begin

text \<open>
  \<open>crates/core/src/selector.rs\<close>: the selectors that take a part of a document.  The pointer
  lookup of \<open>serde_json\<close> and the package \<open>serde_json_path\<close> are fields of the record
  \<open>selector_lib\<close>, an argument.
\<close>

section \<open>The code\<close>

record selector_lib =
  sl_pointer :: "json \<Rightarrow> string \<Rightarrow> json option"
    \<comment> \<open>\<open>Value::pointer\<close>\<close>
  sl_path :: "string \<Rightarrow> (json \<Rightarrow> json list) option"
    \<comment> \<open>\<open>JsonPath::parse\<close> and, for a parsed path, \<open>query(value).all()\<close>\<close>

datatype selector_error = InvalidPointer | InvalidPath | PointerUnmatched | MatchLimit | NotOneMatch nat

fun pointer_escapes :: "string \<Rightarrow> bool" where
  "pointer_escapes [] = True"
| "pointer_escapes (c # s) =
     (if c = CHR ''~''
      then (case s of [] \<Rightarrow> False
        | e # r \<Rightarrow> (e = CHR ''0'' \<or> e = CHR ''1'') \<and> pointer_escapes r)
      else pointer_escapes s)"

definition validate_pointer :: "string \<Rightarrow> selector_error + unit" where
  "validate_pointer pointer =
     (if pointer \<noteq> [] \<and> hd pointer \<noteq> CHR ''/'' then Inl InvalidPointer
      else ensureR (pointer_escapes pointer) InvalidPointer)"

fun validate_selector :: "selector_lib \<Rightarrow> input_selector \<Rightarrow> selector_error + unit" where
  "validate_selector lib WholeValue = Inr ()"
| "validate_selector lib (JsonPointer pointer) = validate_pointer pointer"
| "validate_selector lib (JsonPath path _) =
     (case sl_path lib path of None \<Rightarrow> Inl InvalidPath | Some _ \<Rightarrow> Inr ())"

definition select :: "selector_lib \<Rightarrow> input_selector \<Rightarrow> json \<Rightarrow> nat \<Rightarrow> selector_error + json" where
  "select lib selector v max_matches =
     bindR (validate_selector lib selector) (\<lambda>_.
     case selector of
       WholeValue \<Rightarrow> Inr v
     | JsonPointer pointer \<Rightarrow> of_optionR PointerUnmatched (sl_pointer lib v pointer)
     | JsonPath path result \<Rightarrow>
         bindR (of_optionR InvalidPath (sl_path lib path)) (\<lambda>query.
         let matches = query v in
         if length matches > max_matches then Inl MatchLimit
         else (case result of
             One \<Rightarrow> if length matches = 1 then Inr (matches ! 0) else Inl (NotOneMatch (length matches))
           | Many \<Rightarrow> Inr (JArray matches))))"

section \<open>Pointers of selectors and of patches\<close>

lemma decode_token_valid: "CHR ''/'' \<notin> set t \<Longrightarrow> (\<exists>d. decode_token t = Inr d) \<longleftrightarrow> pointer_escapes t"
proof (induction t rule: pointer_escapes.induct)
  case (2 c s)
  then show ?case by (cases s) (auto simp: bindR_eq_Inr)
qed simp

lemma pointer_escapes_append:
  "pointer_escapes (s @ CHR ''/'' # t) \<longleftrightarrow> pointer_escapes s \<and> pointer_escapes t"
proof (induction s rule: pointer_escapes.induct)
  case (2 c s)
  then show ?case by (cases s) auto
qed simp

lemma mapR_total: "(\<exists>ys. mapR f xs = Inr ys) \<longleftrightarrow> (\<forall>x \<in> set xs. \<exists>y. f x = Inr y)"
  by (induction xs) (auto simp: bindR_eq_Inr)

lemma split_on_pieces:
  "(\<forall>t \<in> set (split_on (CHR ''/'') s). CHR ''/'' \<notin> set t)
    \<and> (pointer_escapes s \<longleftrightarrow> (\<forall>t \<in> set (split_on (CHR ''/'') s). pointer_escapes t))"
proof (induction "length s" arbitrary: s rule: less_induct)
  case less
  show ?case
  proof (cases "CHR ''/'' \<in> set s")
    case False
    then have "split_on (CHR ''/'') s = [s]"
      by (induction s) auto
    then show ?thesis using False by simp
  next
    case True
    then obtain a b where s: "s = a @ CHR ''/'' # b" "CHR ''/'' \<notin> set a" by (metis split_list_first)
    have "split_on (CHR ''/'') s = a # split_on (CHR ''/'') b"
      unfolding s(1) using s(2) by (induction a) auto
    then show ?thesis using less [of b] s by (simp add: pointer_escapes_append)
  qed
qed

lemma validate_pointer_tokens: "(\<exists>ts. pointer_tokens p = Inr ts) \<longleftrightarrow> validate_pointer p = Inr ()"
proof (cases p)
  case (Cons c r)
  show ?thesis
  proof (cases "c = CHR ''/''")
    case True
    have "(\<exists>ts. pointer_tokens p = Inr ts) \<longleftrightarrow> pointer_escapes r"
      using split_on_pieces [of r] by (auto simp: Cons True pointer_tokens_def mapR_total decode_token_valid)
    then show ?thesis by (simp add: Cons True validate_pointer_def)
  qed (simp add: Cons pointer_tokens_def validate_pointer_def)
qed (simp add: pointer_tokens_def validate_pointer_def)

text \<open>
  A selector and a patch accept the same JSON pointers: the byte scan that validates a
  selector succeeds exactly on the pointers whose reference tokens the patch code can split
  and unescape.
\<close>
theorem selector_pointers_are_patch_pointers:
  "validate_selector lib (JsonPointer p) = Inr () \<longleftrightarrow> (\<exists>ts. pointer_tokens p = Inr ts)"
  using validate_pointer_tokens [of p] by simp

text \<open>A selection gives a document or one of the errors, and a selector that was validated fails
  only because of the document.\<close>

lemma select_validated:
  assumes "select lib sel v n = Inl e" "validate_selector lib sel = Inr ()"
  shows "e \<in> {PointerUnmatched, MatchLimit} \<union> range NotOneMatch"
  using assms by (cases sel) (auto simp: select_def Let_def split: selector_result.splits if_splits option.splits)

end
