(* ===== verification/Context_Spec.thy ===== *)
theory Context_Spec
  imports Context_Types Text_Transform Selector Canonical
begin

text \<open>
  Context presets: their data (\<open>crates/core/src/llm/context/types.rs\<close>), the templates
  (\<open>template.rs\<close>) and their normalisation (\<open>normalize.rs\<close>,
  \<open>normalize_text_transform.rs\<close>).  An error is its code.  The Unicode tables behind
  \<open>str::to_lowercase\<close> are the field \<open>ce_lower\<close>.
\<close>

section \<open>The data\<close>

definition CONTEXT_SEMANTIC_POLICY_VERSION :: nat where "CONTEXT_SEMANTIC_POLICY_VERSION = 1"

datatype assembly_mode = ModeChat | ModeCompletion | ModeStructured

datatype template_syntax = ZhuangshengTemplateV1

datatype template_missing = MissingError | MissingEmpty

datatype template_variable =
    VarLiteral json
  | VarInput input_selector
  | VarBinding string input_selector

datatype template_segment = SegText string | SegVariable string

record template_program =
  tp_syntax_version :: nat
  tp_segments :: "template_segment list"

datatype memory_view = ViewSummary | ViewItems | ViewRaw

datatype history_strategy = HistoryAll | HistoryRecent nat

datatype tag_match = MatchAny | MatchAll

datatype world_info_selector = WorldAll | WorldTags "string list" tag_match

record tool_trace_selector =
  ts_terminal_only :: bool
  ts_max_calls :: nat

record event_trace_selector =
  es_event_types :: "string list option"
  es_after_durable_seq :: "nat option"
  es_limit :: nat

datatype artifact_view = ArtifactText | ArtifactMetadata

record artifact_selector =
  as_view :: artifact_view
  as_max_bytes :: nat

datatype context_source =
    SrcLiteral string
  | SrcTemplate template_syntax string "(string, template_variable) omap" template_missing "template_program option"
  | SrcInput string
  | SrcMemory string "memory_view option"
  | SrcWorkingMemory string "string option"
  | SrcState string "string option"
  | SrcHistory string history_strategy
  | SrcWorldInfo string world_info_selector
  | SrcSummary string "string option"
  | SrcToolTrace string tool_trace_selector
  | SrcEventTrace string event_trace_selector
  | SrcArtifact string "artifact_selector option"
  | SrcBranchContext string

fun source_binding :: "context_source \<Rightarrow> string option" where
  "source_binding (SrcLiteral _) = None"
| "source_binding (SrcTemplate _ _ _ _ _) = None"
| "source_binding (SrcInput _) = None"
| "source_binding (SrcMemory b _) = Some b"
| "source_binding (SrcWorkingMemory b _) = Some b"
| "source_binding (SrcState b _) = Some b"
| "source_binding (SrcHistory b _) = Some b"
| "source_binding (SrcWorldInfo b _) = Some b"
| "source_binding (SrcSummary b _) = Some b"
| "source_binding (SrcToolTrace b _) = Some b"
| "source_binding (SrcEventTrace b _) = Some b"
| "source_binding (SrcArtifact b _) = Some b"
| "source_binding (SrcBranchContext b) = Some b"

record token_budget_hint =
  tb_max_tokens :: "nat option"
  tb_required :: bool

record context_item =
  ci_id :: string
  ci_name :: "string option"
  ci_enabled :: bool
  ci_requested_role :: context_role
  ci_source :: context_source
  ci_position :: context_position
  ci_order :: int
  ci_priority :: int
  ci_insertion_depth :: nat
  ci_budget :: token_budget_hint
  ci_overflow :: "overflow_policy option"

datatype post_process_rule = MergeAdjacentMessages | StrictAlternation | SinglePrompt | StripEmptyMessages

datatype preview_content = MetadataOnly | Authorized

datatype preview_count = LocalCount | RemoteExplicit

record preview_policy =
  pv_content :: preview_content
  pv_count :: preview_count

record context_spec =
  sp_id :: "string option"
  sp_name :: "string option"
  sp_mode :: assembly_mode
  sp_items :: "context_item list"
  sp_budget :: "budget_policy option"
  sp_post_process :: "post_process_rule list"
  sp_text_transforms :: "text_rule list"
  sp_macros :: "(string, string) omap"
  sp_preview :: "preview_policy option"

section \<open>Templates\<close>

definition push_text :: "template_segment list \<Rightarrow> string \<Rightarrow> template_segment list" where
  "push_text segs t = (if t = [] then segs else segs @ [SegText t])"

definition identifier_start :: "char \<Rightarrow> bool" where
  "identifier_start c \<longleftrightarrow> is_lower c \<or> is_upper c \<or> c = CHR ''_''"

definition identifier_char :: "char \<Rightarrow> bool" where
  "identifier_char c \<longleftrightarrow> is_lower c \<or> is_upper c \<or> is_digit c \<or> c = CHR ''_''"

definition valid_identifier :: "string \<Rightarrow> bool" where
  "valid_identifier v \<longleftrightarrow> v \<noteq> [] \<and> length v \<le> 64 \<and> identifier_start (hd v) \<and> list_all identifier_char (tl v)"

text \<open>\<open>str::find\<close> of the closing braces: the text before them and after them.\<close>

fun split_close :: "string \<Rightarrow> (string \<times> string) option" where
  "split_close [] = None"
| "split_close (c # s) =
     (if take 2 (c # s) = ''}}'' then Some ([], drop 2 (c # s))
      else map_option (\<lambda>(a, b). (c # a, b)) (split_close s))"

lemma split_close_length: "split_close s = Some (a, b) \<Longrightarrow> length b < length s"
  by (induction s arbitrary: a) (auto split: if_splits)

function (sequential) compile_loop ::
  "template_segment list \<Rightarrow> string set \<Rightarrow> string \<Rightarrow> string \<Rightarrow> string + template_segment list \<times> string set" where
  "compile_loop segs names t [] = Inr (push_text segs t, names)"
| "compile_loop segs names t (c # s) =
     (if take 3 (c # s) = CHR 0x5C # ''{{'' then compile_loop segs names (t @ ''{{'') (drop 3 (c # s))
      else if take 2 (c # s) = ''{{'' then
        (case split_close (drop 2 (c # s)) of
           None \<Rightarrow> Inl ''invalid_context_template''
         | Some (name, s') \<Rightarrow>
             if \<not> valid_identifier name then Inl ''invalid_context_template_variable''
             else compile_loop (push_text segs t @ [SegVariable name]) (insert name names) [] s')
      else compile_loop segs names (t @ [c]) s)"
  by pat_completeness auto
termination
  by (relation "measure (\<lambda>(_, _, _, s). length s)")
    (auto dest!: split_close_length)

definition compile_template :: "string \<Rightarrow> (string, template_variable) omap \<Rightarrow> string + template_program" where
  "compile_template template variables =
     (if length template > 1024 * 1024 then Inl ''context_template_limit''
      else bindR (compile_loop [] {} [] template) (\<lambda>(segs, names).
           bindR (ensureR (names = set (om_keys variables)) ''context_template_variable_mismatch'') (\<lambda>_.
           Inr \<lparr>tp_syntax_version = 1, tp_segments = segs\<rparr>)))"

section \<open>Normalisation\<close>

record ctx_env =
  ce_serde :: serde
  ce_sha :: "string \<Rightarrow> string"
  ce_selectors :: selector_lib
  ce_regex :: regex_lib
  ce_lower :: "string \<Rightarrow> string"

definition MAX_CONTEXT_ITEMS :: nat where "MAX_CONTEXT_ITEMS = 256"
definition MAX_ITEM_TEXT_BYTES :: nat where "MAX_ITEM_TEXT_BYTES = 1024 * 1024"
definition MAX_SELECTOR_LIMIT :: nat where "MAX_SELECTOR_LIMIT = 10000"
definition DEFAULT_ARTIFACT_MAX_BYTES :: nat where "DEFAULT_ARTIFACT_MAX_BYTES = 64 * 1024"

record normalization_policy =
  np_version :: nat
  np_event_types :: "string list"
  np_artifact_bytes :: nat

definition default_policy :: normalization_policy where
  "default_policy =
     \<lparr>np_version = CONTEXT_SEMANTIC_POLICY_VERSION,
      np_event_types = [''node.completed'', ''node.failed'', ''run.completed'', ''run.failed'', ''run.waiting''],
      np_artifact_bytes = DEFAULT_ARTIFACT_MAX_BYTES\<rparr>"

definition selector_limit :: string where
  "selector_limit = ''invalid_context_selector_limit''"

definition normalize_optional_label :: "nat \<Rightarrow> string option \<Rightarrow> string + string option" where
  "normalize_optional_label limit v =
     (let v = (case v of None \<Rightarrow> None | Some s \<Rightarrow> if trim s = [] then None else Some (trim s))
      in if (case v of None \<Rightarrow> False | Some s \<Rightarrow> length s > limit) then Inl ''context_label_limit'' else Inr v)"

definition valid_binding_id :: "string \<Rightarrow> bool" where
  "valid_binding_id b \<longleftrightarrow> trim b \<noteq> [] \<and> length b \<le> 128"

definition validate_path :: "ctx_env \<Rightarrow> string \<Rightarrow> string + unit" where
  "validate_path env p =
     map_errR (\<lambda>_. ''invalid_context_pointer'') (validate_selector (ce_selectors env) (JsonPointer p))"

definition validate_variable :: "ctx_env \<Rightarrow> template_variable \<Rightarrow> string + unit" where
  "validate_variable env v =
     (case v of
        VarLiteral j \<Rightarrow> bindR (map_errR (\<lambda>_. ''invalid_template_literal'') (to_vec (ce_serde env) j)) (\<lambda>_. Inr ())
      | VarInput sel \<Rightarrow> map_errR (\<lambda>_. ''invalid_template_selector'') (validate_selector (ce_selectors env) sel)
      | VarBinding b sel \<Rightarrow>
          bindR (map_errR (\<lambda>_. ''invalid_template_selector'') (validate_selector (ce_selectors env) sel)) (\<lambda>_.
          ensureR (valid_binding_id b) ''invalid_context_binding''))"

fun validate_variables :: "ctx_env \<Rightarrow> (string, template_variable) omap \<Rightarrow> string + unit" where
  "validate_variables env [] = Inr ()"
| "validate_variables env (kv # vs) = bindR (validate_variable env (snd kv)) (\<lambda>_. validate_variables env vs)"

definition validate_variable_sources :: "ctx_env \<Rightarrow> (string, template_variable) omap \<Rightarrow> string + unit" where
  "validate_variable_sources env vs =
     (if length vs > 128 then Inl ''context_template_variable_limit'' else validate_variables env vs)"

definition normalize_tag :: "ctx_env \<Rightarrow> string \<Rightarrow> string + string" where
  "normalize_tag env tag =
     (let tag = ce_lower env (trim tag)
      in if tag = [] \<or> length tag > 64 then Inl selector_limit else Inr tag)"

definition normalize_world_info :: "ctx_env \<Rightarrow> world_info_selector \<Rightarrow> string + world_info_selector" where
  "normalize_world_info env sel =
     (case sel of
        WorldAll \<Rightarrow> Inr WorldAll
      | WorldTags tags m \<Rightarrow>
          if tags = [] \<or> length tags > 128 then Inl selector_limit
          else bindR (mapR (normalize_tag env) tags) (\<lambda>tags. Inr (WorldTags (remdups_adj (sort tags)) m)))"

definition normalize_event_selector ::
  "normalization_policy \<Rightarrow> event_trace_selector \<Rightarrow> string + event_trace_selector" where
  "normalize_event_selector policy sel =
     (if es_limit sel = 0 \<or> es_limit sel > MAX_SELECTOR_LIMIT then Inl selector_limit
      else
        (let after = (case es_after_durable_seq sel of None \<Rightarrow> 0 | Some n \<Rightarrow> n);
             types = remdups_adj (sort (case es_event_types sel of None \<Rightarrow> np_event_types policy | Some ts \<Rightarrow> ts))
         in if types = [] \<or> list_ex (\<lambda>e. e \<notin> set (np_event_types policy)) types
            then Inl ''unauthorized_context_event_type''
            else Inr (sel\<lparr>es_event_types := Some types, es_after_durable_seq := Some after\<rparr>)))"

definition unwrap_path :: "string option \<Rightarrow> string" where
  "unwrap_path p = (case p of None \<Rightarrow> [] | Some s \<Rightarrow> s)"

definition normalize_source :: "ctx_env \<Rightarrow> normalization_policy \<Rightarrow> context_source \<Rightarrow> string + context_source" where
  "normalize_source env policy src =
     bindR (ensureR (\<forall>b \<in> set_option (source_binding src). valid_binding_id b) ''invalid_context_binding'') (\<lambda>_.
     case src of
       SrcLiteral t \<Rightarrow> bindR (ensureR (length t \<le> MAX_ITEM_TEXT_BYTES) ''context_text_limit'') (\<lambda>_. Inr src)
     | SrcTemplate syn t vs missing _ \<Rightarrow>
         bindR (validate_variable_sources env vs) (\<lambda>_.
         bindR (compile_template t vs) (\<lambda>program. Inr (SrcTemplate syn t vs missing (Some program))))
     | SrcInput p \<Rightarrow> bindR (validate_path env p) (\<lambda>_. Inr src)
     | SrcMemory b view \<Rightarrow> Inr (SrcMemory b (Some (case view of None \<Rightarrow> ViewSummary | Some v \<Rightarrow> v)))
     | SrcWorkingMemory b p \<Rightarrow>
         bindR (validate_path env (unwrap_path p)) (\<lambda>_. Inr (SrcWorkingMemory b (Some (unwrap_path p))))
     | SrcState b p \<Rightarrow>
         bindR (validate_path env (unwrap_path p)) (\<lambda>_. Inr (SrcState b (Some (unwrap_path p))))
     | SrcHistory b strategy \<Rightarrow>
         (case strategy of
            HistoryAll \<Rightarrow> Inr src
          | HistoryRecent n \<Rightarrow> if 0 < n \<and> n \<le> MAX_SELECTOR_LIMIT then Inr src else Inl selector_limit)
     | SrcWorldInfo b sel \<Rightarrow> bindR (normalize_world_info env sel) (\<lambda>sel. Inr (SrcWorldInfo b sel))
     | SrcSummary b scope \<Rightarrow> Inr (SrcSummary b (Some (unwrap_path scope)))
     | SrcToolTrace b sel \<Rightarrow>
         if ts_max_calls sel = 0 \<or> ts_max_calls sel > MAX_SELECTOR_LIMIT then Inl selector_limit else Inr src
     | SrcEventTrace b sel \<Rightarrow> bindR (normalize_event_selector policy sel) (\<lambda>sel. Inr (SrcEventTrace b sel))
     | SrcArtifact b sel \<Rightarrow>
         (let sel = (case sel of None \<Rightarrow> \<lparr>as_view = ArtifactMetadata, as_max_bytes = np_artifact_bytes policy\<rparr>
                     | Some s \<Rightarrow> s)
          in if as_max_bytes sel = 0 \<or> as_max_bytes sel > 16 * 1024 * 1024 then Inl ''invalid_artifact_selector''
             else Inr (SrcArtifact b (Some sel)))
     | SrcBranchContext b \<Rightarrow> Inr src)"

fun is_history :: "context_source \<Rightarrow> bool" where
  "is_history (SrcHistory _ _) = True"
| "is_history _ = False"

fun is_config_text :: "context_source \<Rightarrow> bool" where
  "is_config_text (SrcLiteral _) = True"
| "is_config_text (SrcTemplate _ _ _ _ _) = True"
| "is_config_text _ = False"

definition validate_source_position :: "context_item \<Rightarrow> string + unit" where
  "validate_source_position item =
     bindR (ensureR (is_history (ci_source item) = (ci_position item = InHistory))
       ''context_history_position_mismatch'') (\<lambda>_.
     bindR (ensureR (\<not> (ci_position item = AssistantPrefill \<and> \<not> is_config_text (ci_source item)))
       ''untrusted_assistant_prefill'') (\<lambda>_.
     ensureR (\<not> (ci_position item = AssistantPrefill \<and> ci_requested_role item \<noteq> AsAssistant))
       ''invalid_assistant_prefill_role''))"

definition validate_overflow :: "context_item \<Rightarrow> string + unit" where
  "validate_overflow item =
     (case ci_overflow item of
        None \<Rightarrow> Inr ()
      | Some DropOverflow \<Rightarrow> Inr ()
      | Some TruncateHead \<Rightarrow> Inr ()
      | Some TruncateTail \<Rightarrow> Inr ()
      | Some Dedupe \<Rightarrow> Inr ()
      | Some (KeepRecent _) \<Rightarrow> ensureR (is_history (ci_source item)) ''invalid_keep_recent_overflow''
      | Some (TopK k) \<Rightarrow>
          if is_history (ci_source item) then Inl ''invalid_history_overflow''
          else ensureR (0 < k \<and> k \<le> MAX_SELECTOR_LIMIT) selector_limit)"

definition default_overflow :: "context_item \<Rightarrow> context_item" where
  "default_overflow item =
     (if \<not> tb_required (ci_budget item) \<and> ci_overflow item = None
      then item\<lparr>ci_overflow := Some (if is_history (ci_source item) then KeepRecent None else DropOverflow)\<rparr>
      else item)"

definition normalize_item :: "ctx_env \<Rightarrow> normalization_policy \<Rightarrow> context_item \<Rightarrow> string + context_item" where
  "normalize_item env policy item =
     (let item = item\<lparr>ci_id := trim (ci_id item)\<rparr>
      in bindR (ensureR (ci_id item \<noteq> [] \<and> length (ci_id item) \<le> 128) ''invalid_context_item_id'') (\<lambda>_.
         bindR (normalize_optional_label 200 (ci_name item)) (\<lambda>name.
         let item = item\<lparr>ci_name := name\<rparr>
         in bindR (ensureR (tb_max_tokens (ci_budget item) \<noteq> Some 0) ''invalid_context_item_budget'') (\<lambda>_.
            bindR (ensureR (\<not> (tb_required (ci_budget item) \<and> ci_overflow item \<noteq> None))
              ''required_context_item_overflow'') (\<lambda>_.
            bindR (normalize_source env policy (ci_source item)) (\<lambda>src.
            let item = default_overflow (item\<lparr>ci_source := src\<rparr>)
            in bindR (validate_source_position item) (\<lambda>_.
               bindR (validate_overflow item) (\<lambda>_. Inr item))))))))"

fun normalize_items ::
  "ctx_env \<Rightarrow> normalization_policy \<Rightarrow> string set \<Rightarrow> context_item list \<Rightarrow> string + context_item list" where
  "normalize_items env policy seen [] = Inr []"
| "normalize_items env policy seen (item # items) =
     bindR (normalize_item env policy item) (\<lambda>item.
     bindR (ensureR (ci_id item \<notin> seen) ''duplicate_context_item_id'') (\<lambda>_.
     bindR (normalize_items env policy (insert (ci_id item) seen) items) (\<lambda>items. Inr (item # items))))"

definition macro_ok :: "string \<times> string \<Rightarrow> bool" where
  "macro_ok kv \<longleftrightarrow>
     fst kv \<noteq> [] \<and> length (fst kv) \<le> 128 \<and> list_all identifier_char (fst kv) \<and> length (snd kv) \<le> 64 * 1024"

definition normalize_text_transform_macros :: "(string, string) omap \<Rightarrow> string + unit" where
  "normalize_text_transform_macros macros =
     (if length macros > 128 then Inl ''text_transform_macro_limit''
      else ensureR (list_all macro_ok macros) ''invalid_text_transform_macro'')"

definition default_budget :: "budget_policy option \<Rightarrow> budget_policy" where
  "default_budget b =
     (let b = (case b of None \<Rightarrow> \<lparr>max_input_tokens = None, budget_strategy_of = None\<rparr> | Some b \<Rightarrow> b)
      in case budget_strategy_of b of None \<Rightarrow> b\<lparr>budget_strategy_of := Some Strict\<rparr> | Some _ \<Rightarrow> b)"

definition normalize_context_spec :: "ctx_env \<Rightarrow> normalization_policy \<Rightarrow> context_spec \<Rightarrow> string + context_spec" where
  "normalize_context_spec env policy spec =
     bindR (ensureR (np_version policy = CONTEXT_SEMANTIC_POLICY_VERSION) ''unsupported_context_semantic_policy'') (\<lambda>_.
     bindR (normalize_optional_label 128 (sp_id spec)) (\<lambda>sid.
     bindR (normalize_optional_label 200 (sp_name spec)) (\<lambda>name.
     bindR (ensureR (length (sp_items spec) \<le> MAX_CONTEXT_ITEMS) ''context_item_limit'') (\<lambda>_.
     bindR (normalize_items env policy {} (sp_items spec)) (\<lambda>items.
     let budget = default_budget (sp_budget spec)
     in bindR (ensureR (max_input_tokens budget \<noteq> Some 0) ''invalid_context_budget'') (\<lambda>_.
        bindR (ensureR (distinct (sp_post_process spec)) ''duplicate_context_post_process'') (\<lambda>_.
        bindR (normalize_text_transforms (ce_regex env) (sp_text_transforms spec)) (\<lambda>transforms.
        bindR (normalize_text_transform_macros (sp_macros spec)) (\<lambda>_.
        Inr (spec\<lparr>sp_id := sid, sp_name := name, sp_items := items, sp_budget := Some budget,
              sp_text_transforms := transforms,
              sp_preview := Some (case sp_preview spec of
                  None \<Rightarrow> \<lparr>pv_content = MetadataOnly, pv_count = LocalCount\<rparr> | Some p \<Rightarrow> p)\<rparr>))))))))))"

end
