(* ===== verification/Context_Resolve.thy ===== *)
theory Context_Resolve
  imports Context_Spec
begin

text \<open>
  The resolution of a preset's items to candidates: \<open>crates/core/src/llm/context/resolve.rs\<close>,
  \<open>resolve_support.rs\<close>, \<open>resolve_template.rs\<close> and \<open>text_transform.rs\<close>, with the
  input of the assembly (\<open>engine_types.rs\<close>).  An error is its code; the code
  \<open>PANIC\<close> stands for a panic of the source (\<open>expect\<close>, \<open>unreachable!\<close>, an index
  out of range).
\<close>

section \<open>The input\<close>

record context_provenance =
  pr_source_type :: string
  pr_source_id :: string
  pr_trust :: context_trust
  pr_sensitivity :: context_sensitivity

record data_value =
  dv_id :: string
  dv_content_hash :: string
  dv_content :: "content_part list"
  dv_provenance :: context_provenance
  dv_allowed_roles :: "context_role list"
  dv_relevance :: "int option"
  dv_tags :: "string list"

record history_value =
  hv_message_id :: string
  hv_turn_id :: string
  hv_stable_order :: nat
  hv_role :: message_role
  hv_content_hash :: string
  hv_content :: "content_part list"
  hv_provenance :: context_provenance

datatype resolved_value = DataValue data_value | HistoryMessage history_value

record resolved_binding =
  rb_binding_id :: string
  rb_scope :: string
  rb_version :: string
  rb_values :: "resolved_value list"
  rb_template_value :: "json option"
  rb_template_provenance :: "context_provenance option"

datatype config_snapshot =
    PresetSnapshot string string nat string nat context_spec
  | InlineSnapshot string string string nat context_spec

record assembly_input =
  ai_node_input :: json
  ai_config :: config_snapshot
  ai_bindings :: "(string, resolved_binding) omap"
  ai_budget :: budget_input
  ai_read_set_ref :: string
  ai_read_set_digest :: string
  ai_allow_sensitive :: bool

text \<open>The documents that \<open>serde\<close> derives for the hashes of the resolution.\<close>

record resolve_env =
  re_ctx :: ctx_env
  re_encode_content :: "content_part list \<Rightarrow> json"

definition PANIC :: string where "PANIC = ''panic''"

section \<open>Candidates and roles\<close>

definition content_hash_of :: "resolve_env \<Rightarrow> content_part list \<Rightarrow> string + string" where
  "content_hash_of env content =
     map_errR (\<lambda>_. ''context_canonicalization_failed'')
       (canonical_hash (ce_serde (re_ctx env)) (ce_sha (re_ctx env)) (re_encode_content env content))"

fun role_in_provenance :: "context_role \<Rightarrow> provenance_role" where
  "role_in_provenance AsPolicy = PolicyRole"
| "role_in_provenance AsSystem = SystemRole"
| "role_in_provenance AsDeveloper = DeveloperRole"
| "role_in_provenance AsContext = ContextRole"
| "role_in_provenance AsUser = UserRole"
| "role_in_provenance AsAssistant = AssistantRole"

definition candidate_id :: "string \<Rightarrow> nat \<Rightarrow> nat \<Rightarrow> string" where
  "candidate_id item index sub = ''ctx:'' @ item @ '':'' @ show_nat index @ '':'' @ show_nat sub"

definition provenance_id :: "nat \<Rightarrow> nat \<Rightarrow> string" where
  "provenance_id index sub = ''ctxprov:'' @ show_nat index @ '':'' @ show_nat sub"

definition build_candidate ::
  "resolve_env \<Rightarrow> context_item \<Rightarrow> nat \<Rightarrow> nat \<Rightarrow> nat option \<Rightarrow> context_role \<Rightarrow> content_part list
     \<Rightarrow> context_provenance \<Rightarrow> string list \<Rightarrow> string option \<Rightarrow> int option \<Rightarrow> string + context_candidate" where
  "build_candidate env item index sub history role content prov transformations hash relevance =
     bindR (ensureR (content \<noteq> []) ''context_content_empty'') (\<lambda>_.
     bindR (case hash of Some h \<Rightarrow> Inr h | None \<Rightarrow> content_hash_of env content) (\<lambda>hash.
     Inr \<lparr>cc_id = candidate_id (ci_id item) index sub, cc_sub_index = sub, cc_history_order = history,
          cc_role = role, cc_content = content,
          cc_provenance =
            \<lparr>cp_id = provenance_id index sub, cp_item_id = ci_id item,
             cp_source_type = pr_source_type prov, cp_source_id = pr_source_id prov, cp_trust = pr_trust prov,
             cp_sensitivity = pr_sensitivity prov, cp_final_role = role_in_provenance role,
             cp_transformations = transformations\<rparr>,
          cc_content_hash = hash, cc_relevance = relevance, cc_included = False, cc_token_count = 0\<rparr>))"

definition binding_of :: "assembly_input \<Rightarrow> string \<Rightarrow> string + resolved_binding" where
  "binding_of inp b =
     bindR (of_optionR ''context_binding_missing'' (om_get (ai_bindings inp) b)) (\<lambda>rb.
     bindR (ensureR (rb_binding_id rb = b \<and> rb_version rb \<noteq> [] \<and> rb_scope rb \<noteq> []) ''context_binding_invalid'') (\<lambda>_.
     Inr rb))"

fun trusted_data_role :: "context_role \<Rightarrow> context_role" where
  "trusted_data_role AsPolicy = AsSystem"
| "trusted_data_role AsUser = AsContext"
| "trusted_data_role AsAssistant = AsContext"
| "trusted_data_role r = r"

definition authorized_data_role ::
  "context_role \<Rightarrow> context_trust \<Rightarrow> context_role list \<Rightarrow> string + context_role \<times> string list" where
  "authorized_data_role requested trust allowed =
     (let role = (case trust of
            RuntimePolicy \<Rightarrow> AsPolicy
          | ExternalUntrusted \<Rightarrow> AsContext
          | UserInput \<Rightarrow> if requested = AsUser then AsUser else AsContext
          | TrustedConfig \<Rightarrow> trusted_data_role requested);
          ts = (if trust = RuntimePolicy \<and> requested \<noteq> AsPolicy then [''role_normalized_to_policy''] else []);
          ts = ts @ (if role \<noteq> requested \<and> ''role_normalized_to_policy'' \<notin> set ts
                     then [''role_downgraded_by_trust''] else [])
      in if role \<in> set allowed then Inr (role, ts)
         else if AsContext \<in> set allowed \<and> role \<noteq> AsPolicy
         then Inr (AsContext, ts @ [''role_downgraded_by_binding''])
         else Inl ''context_role_unauthorized'')"

definition trusted_config_role :: "context_item \<Rightarrow> context_role \<times> string list" where
  "trusted_config_role item =
     (case ci_requested_role item of
        AsPolicy \<Rightarrow> (AsSystem, [''policy_role_requires_runtime_trust''])
      | AsAssistant \<Rightarrow> if ci_position item = AssistantPrefill then (AsAssistant, [])
                      else (AsContext, [''trusted_config_role_downgraded_to_context''])
      | AsUser \<Rightarrow> (AsContext, [''trusted_config_role_downgraded_to_context''])
      | r \<Rightarrow> (r, []))"

definition template_role :: "context_item \<Rightarrow> context_trust \<Rightarrow> context_role \<times> string list" where
  "template_role item trust =
     (case trust of
        RuntimePolicy \<Rightarrow> (AsPolicy, [])
      | TrustedConfig \<Rightarrow> trusted_config_role item
      | UserInput \<Rightarrow> if ci_requested_role item = AsUser then (AsUser, [])
                     else (AsContext, [''template_taint_downgrade''])
      | ExternalUntrusted \<Rightarrow> (AsContext, [''template_taint_downgrade'']))"

definition select_value :: "resolve_env \<Rightarrow> input_selector \<Rightarrow> json \<Rightarrow> string + json" where
  "select_value env sel v =
     map_errR (\<lambda>e. if e = PointerUnmatched \<or> e = NotOneMatch 0 then ''context_template_value_missing''
                   else ''context_template_selection_failed'')
       (select (ce_selectors (re_ctx env)) sel v 1024)"

definition value_text :: "resolve_env \<Rightarrow> json \<Rightarrow> string + string" where
  "value_text env v =
     (case v of JString s \<Rightarrow> Inr s
      | _ \<Rightarrow> map_errR (\<lambda>_. ''context_value_serialization_failed'') (to_vec (ce_serde (re_ctx env)) v))"

fun trust_rank :: "context_trust \<Rightarrow> nat" where
  "trust_rank RuntimePolicy = 0"
| "trust_rank TrustedConfig = 1"
| "trust_rank UserInput = 2"
| "trust_rank ExternalUntrusted = 3"

definition least_trusted :: "context_trust \<Rightarrow> context_trust \<Rightarrow> context_trust" where
  "least_trusted l r = (if trust_rank l \<ge> trust_rank r then l else r)"

fun sensitivity_rank :: "context_sensitivity \<Rightarrow> nat" where
  "sensitivity_rank PublicData = 0"
| "sensitivity_rank PrivateData = 1"
| "sensitivity_rank SensitiveData = 2"

definition most_sensitive :: "context_sensitivity \<Rightarrow> context_sensitivity \<Rightarrow> context_sensitivity" where
  "most_sensitive l r = (if sensitivity_rank l \<ge> sensitivity_rank r then l else r)"

section \<open>Sources\<close>

definition config_provenance :: "string \<Rightarrow> string \<Rightarrow> context_provenance" where
  "config_provenance t i =
     \<lparr>pr_source_type = t, pr_source_id = i, pr_trust = TrustedConfig, pr_sensitivity = PublicData\<rparr>"

definition input_provenance :: "string \<Rightarrow> context_provenance" where
  "input_provenance i =
     \<lparr>pr_source_type = ''input'', pr_source_id = i, pr_trust = UserInput, pr_sensitivity = PrivateData\<rparr>"

definition literal_candidate :: "resolve_env \<Rightarrow> context_item \<Rightarrow> nat \<Rightarrow> string \<Rightarrow> string + context_candidate" where
  "literal_candidate env item index t =
     (case trusted_config_role item of (role, ts) \<Rightarrow>
        build_candidate env item index 0 None role [TextPart t] (config_provenance ''literal'' (ci_id item)) ts None None)"

definition input_candidate ::
  "resolve_env \<Rightarrow> assembly_input \<Rightarrow> context_item \<Rightarrow> nat \<Rightarrow> string \<Rightarrow> string + context_candidate" where
  "input_candidate env inp item index path =
     bindR (of_optionR ''context_input_missing'' (sl_pointer (ce_selectors (re_ctx env)) (ai_node_input inp) path)) (\<lambda>v.
     bindR (value_text env v) (\<lambda>t.
     let (role, ts) = (if ci_requested_role item = AsUser then (AsUser, [])
                       else (AsContext, [''role_downgraded_to_context'']))
     in build_candidate env item index 0 None role [TextPart t] (input_provenance path) ts None None))"

text \<open>Templates.\<close>

definition resolve_variable ::
  "resolve_env \<Rightarrow> assembly_input \<Rightarrow> template_variable \<Rightarrow> string + json \<times> context_provenance" where
  "resolve_variable env inp v =
     (case v of
        VarLiteral j \<Rightarrow> Inr (j, config_provenance ''template_literal'' ''literal'')
      | VarInput sel \<Rightarrow>
          bindR (select_value env sel (ai_node_input inp)) (\<lambda>j. Inr (j, input_provenance ''node_input''))
      | VarBinding b sel \<Rightarrow>
          bindR (binding_of inp b) (\<lambda>rb.
          bindR (of_optionR ''context_template_binding_missing'' (rb_template_value rb)) (\<lambda>j.
          bindR (of_optionR ''context_template_provenance_missing'' (rb_template_provenance rb)) (\<lambda>prov.
          bindR (select_value env sel j) (\<lambda>j. Inr (j, prov))))))"

definition is_missing_error :: "string \<Rightarrow> bool" where
  "is_missing_error e \<longleftrightarrow>
     e \<in> {''context_binding_missing'', ''context_template_binding_missing'', ''context_template_value_missing''}"

record template_state =
  tm_resolved :: "(string, string) omap"
  tm_trust :: context_trust
  tm_sensitivity :: context_sensitivity
  tm_transformations :: "string list"

fun resolve_variables ::
  "resolve_env \<Rightarrow> assembly_input \<Rightarrow> template_missing \<Rightarrow> (string, template_variable) omap \<Rightarrow> template_state
     \<Rightarrow> string + template_state" where
  "resolve_variables env inp missing [] st = Inr st"
| "resolve_variables env inp missing ((name, v) # vs) st =
     (case resolve_variable env inp v of
        Inr (j, prov) \<Rightarrow>
          bindR (value_text env j) (\<lambda>t.
          resolve_variables env inp missing vs
            (st\<lparr>tm_resolved := om_insert name t (tm_resolved st),
                tm_trust := least_trusted (tm_trust st) (pr_trust prov),
                tm_sensitivity := most_sensitive (tm_sensitivity st) (pr_sensitivity prov)\<rparr>))
      | Inl e \<Rightarrow>
          if missing = MissingEmpty \<and> is_missing_error e
          then resolve_variables env inp missing vs
                 (st\<lparr>tm_resolved := om_insert name [] (tm_resolved st),
                     tm_transformations := tm_transformations st @ [''missing_variable_empty:'' @ name]\<rparr>)
          else Inl e)"

fun render_segments :: "(string, string) omap \<Rightarrow> template_segment list \<Rightarrow> string + string" where
  "render_segments m [] = Inr []"
| "render_segments m (seg # segs) =
     bindR (case seg of
              SegText t \<Rightarrow> Inr t
            | SegVariable name \<Rightarrow> of_optionR ''context_template_variable_missing'' (om_get m name)) (\<lambda>t.
     bindR (render_segments m segs) (\<lambda>r. Inr (t @ r)))"

definition template_candidate ::
  "resolve_env \<Rightarrow> assembly_input \<Rightarrow> context_item \<Rightarrow> nat \<Rightarrow> (string, template_variable) omap \<Rightarrow> template_missing
     \<Rightarrow> template_program \<Rightarrow> string + context_candidate" where
  "template_candidate env inp item index vs missing program =
     bindR (resolve_variables env inp missing vs
        \<lparr>tm_resolved = [], tm_trust = TrustedConfig, tm_sensitivity = PublicData, tm_transformations = []\<rparr>) (\<lambda>st.
     bindR (render_segments (tm_resolved st) (tp_segments program)) (\<lambda>t.
     let (role, ts) = template_role item (tm_trust st)
     in build_candidate env item index 0 None role [TextPart t]
          \<lparr>pr_source_type = ''template'', pr_source_id = ci_id item, pr_trust = tm_trust st,
           pr_sensitivity = tm_sensitivity st\<rparr>
          (tm_transformations st @ ts) None None))"

text \<open>History.\<close>

definition history_values :: "resolved_value list \<Rightarrow> string + history_value list" where
  "history_values vs =
     mapR (\<lambda>v. case v of HistoryMessage h \<Rightarrow> Inr h | DataValue _ \<Rightarrow> Inl ''context_binding_type_mismatch'') vs"

fun message_context_role :: "message_role \<Rightarrow> context_role" where
  "message_context_role FromUser = AsUser"
| "message_context_role FromAssistant = AsAssistant"

definition history_candidate ::
  "resolve_env \<Rightarrow> context_item \<Rightarrow> nat \<Rightarrow> nat \<Rightarrow> history_value \<Rightarrow> string + context_candidate" where
  "history_candidate env item index sub h =
     bindR (build_candidate env item index sub (Some (hv_stable_order h)) (message_context_role (hv_role h))
        (hv_content h) (hv_provenance h) [] (Some (hv_content_hash h)) None) (\<lambda>c.
     Inr (c\<lparr>cc_id := hv_message_id h\<rparr>))"

definition keep_newest :: "history_strategy \<Rightarrow> history_value list \<Rightarrow> history_value list" where
  "keep_newest strategy hs =
     (case strategy of HistoryAll \<Rightarrow> hs | HistoryRecent n \<Rightarrow> drop (length hs - n) hs)"

definition history_candidates ::
  "resolve_env \<Rightarrow> assembly_input \<Rightarrow> context_item \<Rightarrow> nat \<Rightarrow> string \<Rightarrow> history_strategy
     \<Rightarrow> string + context_candidate list" where
  "history_candidates env inp item index b strategy =
     bindR (binding_of inp b) (\<lambda>rb.
     bindR (history_values (rb_values rb)) (\<lambda>hs.
     let hs = sort_key hv_stable_order hs
     in bindR (ensureR (\<not> list_ex (\<lambda>(x, y). hv_stable_order x = hv_stable_order y) (zip hs (tl hs)))
          ''context_history_order_duplicate'') (\<lambda>_.
        mapR (\<lambda>(sub, h). history_candidate env item index sub h) (enumerate 0 (keep_newest strategy hs)))))"

text \<open>Data.\<close>

definition validate_source_scope :: "context_source \<Rightarrow> resolved_binding \<Rightarrow> string + unit" where
  "validate_source_scope src rb =
     (case src of
        SrcSummary _ (Some scope) \<Rightarrow>
          ensureR (scope = [] \<or> rb_scope rb = scope \<or> starts_with (scope @ ''/'') (rb_scope rb))
            ''context_binding_scope_mismatch''
      | _ \<Rightarrow> Inr ())"

definition world_info_matches :: "context_source \<Rightarrow> string list \<Rightarrow> bool" where
  "world_info_matches src tags =
     (case src of
        SrcWorldInfo _ (WorldTags required m) \<Rightarrow>
          (case m of MatchAny \<Rightarrow> list_ex (\<lambda>t. t \<in> set tags) required
           | MatchAll \<Rightarrow> list_all (\<lambda>t. t \<in> set tags) required)
      | _ \<Rightarrow> True)"

definition artifact_view_matches :: "context_source \<Rightarrow> string list \<Rightarrow> string + bool" where
  "artifact_view_matches src tags =
     (case src of
        SrcArtifact _ sel \<Rightarrow>
          bindR (of_optionR PANIC sel) (\<lambda>sel.
          Inr ((case as_view sel of ArtifactText \<Rightarrow> ''artifact_view:text''
                | ArtifactMetadata \<Rightarrow> ''artifact_view:metadata'') \<in> set tags))
      | _ \<Rightarrow> Inr True)"

definition part_size :: "content_part \<Rightarrow> nat" where
  "part_size p = (case p of TextPart t \<Rightarrow> length t | ImagePart r \<Rightarrow> ar_byte_size r | FilePart r \<Rightarrow> ar_byte_size r)"

definition artifact_content_size :: "content_part list \<Rightarrow> string + nat" where
  "artifact_content_size content =
     foldl (\<lambda>acc p. bindR acc (\<lambda>n. of_optionR ''context_artifact_invalid'' (checked_add_u64 n (part_size p))))
       (Inr 0) content"

definition check_artifact_size :: "context_source \<Rightarrow> content_part list \<Rightarrow> string + unit" where
  "check_artifact_size src content =
     (case src of
        SrcArtifact _ sel \<Rightarrow>
          bindR (of_optionR PANIC sel) (\<lambda>sel.
          bindR (artifact_content_size content) (\<lambda>n.
          ensureR (n \<le> as_max_bytes sel) ''context_artifact_too_large''))
      | _ \<Rightarrow> Inr ())"

fun source_limit :: "context_source \<Rightarrow> nat option" where
  "source_limit (SrcToolTrace _ sel) = Some (ts_max_calls sel)"
| "source_limit (SrcEventTrace _ sel) = Some (es_limit sel)"
| "source_limit _ = None"

definition data_candidate ::
  "resolve_env \<Rightarrow> context_item \<Rightarrow> nat \<Rightarrow> nat \<Rightarrow> data_value \<Rightarrow> string + context_candidate" where
  "data_candidate env item index sub d =
     bindR (authorized_data_role (ci_requested_role item) (pr_trust (dv_provenance d)) (dv_allowed_roles d))
       (\<lambda>(role, ts).
     build_candidate env item index sub None role (dv_content d) (dv_provenance d) ts
       (Some (dv_content_hash d)) (dv_relevance d))"

fun data_loop ::
  "resolve_env \<Rightarrow> context_item \<Rightarrow> nat \<Rightarrow> context_source \<Rightarrow> resolved_value list \<Rightarrow> context_candidate list
     \<Rightarrow> string + context_candidate list" where
  "data_loop env item index src [] out = Inr out"
| "data_loop env item index src (v # vs) out =
     (case v of
        HistoryMessage _ \<Rightarrow> Inl ''context_binding_type_mismatch''
      | DataValue d \<Rightarrow>
          if \<not> world_info_matches src (dv_tags d) then data_loop env item index src vs out
          else
            bindR (artifact_view_matches src (dv_tags d)) (\<lambda>matches.
            if \<not> matches then data_loop env item index src vs out
            else
              bindR (check_artifact_size src (dv_content d)) (\<lambda>_.
              bindR (data_candidate env item index (length out) d) (\<lambda>c.
              if (case source_limit src of None \<Rightarrow> False | Some n \<Rightarrow> n \<le> length out + 1) then Inr (out @ [c])
              else data_loop env item index src vs (out @ [c])))))"

fun is_artifact :: "context_source \<Rightarrow> bool" where
  "is_artifact (SrcArtifact _ _) = True"
| "is_artifact _ = False"

definition data_candidates ::
  "resolve_env \<Rightarrow> assembly_input \<Rightarrow> context_item \<Rightarrow> nat \<Rightarrow> context_source \<Rightarrow> string + context_candidate list" where
  "data_candidates env inp item index src =
     bindR (of_optionR PANIC (source_binding src)) (\<lambda>b.
     bindR (binding_of inp b) (\<lambda>rb.
     bindR (validate_source_scope src rb) (\<lambda>_.
     bindR (data_loop env item index src (rb_values rb) []) (\<lambda>out.
     if is_artifact src \<and> out = [] \<and> tb_required (ci_budget item) then Inl ''context_artifact_view_unavailable''
     else Inr out))))"

section \<open>Items\<close>

definition source_candidates ::
  "resolve_env \<Rightarrow> assembly_input \<Rightarrow> context_item \<Rightarrow> nat \<Rightarrow> string + context_candidate list" where
  "source_candidates env inp item index =
     (case ci_source item of
        SrcLiteral t \<Rightarrow> bindR (literal_candidate env item index t) (\<lambda>c. Inr [c])
      | SrcInput path \<Rightarrow> bindR (input_candidate env inp item index path) (\<lambda>c. Inr [c])
      | SrcTemplate _ _ vs missing compiled \<Rightarrow>
          bindR (of_optionR ''context_template_not_compiled'' compiled) (\<lambda>program.
          bindR (template_candidate env inp item index vs missing program) (\<lambda>c. Inr [c]))
      | SrcHistory b strategy \<Rightarrow> history_candidates env inp item index b strategy
      | src \<Rightarrow> data_candidates env inp item index src)"

definition resolve_item :: "resolve_env \<Rightarrow> assembly_input \<Rightarrow> nat \<times> context_item \<Rightarrow> string + candidate_group" where
  "resolve_item env inp = (\<lambda>(index, item).
     bindR (source_candidates env inp item index) (\<lambda>candidates.
     Inr \<lparr>cg_item_id = ci_id item, cg_item_index = index, cg_position = ci_position item, cg_order = ci_order item,
          cg_priority = ci_priority item, cg_insertion_depth = ci_insertion_depth item,
          cg_required = tb_required (ci_budget item), cg_max_tokens = tb_max_tokens (ci_budget item),
          cg_overflow = ci_overflow item, cg_candidates = candidates, cg_pre_action = None\<rparr>))"

definition resolve_items :: "resolve_env \<Rightarrow> assembly_input \<Rightarrow> context_item list \<Rightarrow> string + candidate_group list" where
  "resolve_items env inp items =
     mapR (resolve_item env inp) (filter (\<lambda>(_, item). ci_enabled item) (enumerate 0 items))"

section \<open>Text transformations\<close>

text \<open>The depth of each history order: how many later orders there are.\<close>

definition history_depths :: "candidate_group list \<Rightarrow> (nat \<times> nat) list" where
  "history_depths groups =
     (let orders = remdups_adj (rev (sort (concat (map (\<lambda>g. concat (map (\<lambda>c.
            case cc_history_order c of None \<Rightarrow> [] | Some n \<Rightarrow> [n]) (cg_candidates g))) groups))))
      in filter (\<lambda>(_, depth). depth < 2 ^ 32) (zip orders [0..<length orders]))"

fun is_world_info :: "context_source \<Rightarrow> bool" where
  "is_world_info (SrcWorldInfo _ _) = True"
| "is_world_info _ = False"

definition transform_target_of :: "context_source \<Rightarrow> context_role \<Rightarrow> transform_target option" where
  "transform_target_of src role =
     (if is_world_info src then Some TargetWorldInfo
      else case role of AsUser \<Rightarrow> Some TargetUserInput | AsAssistant \<Rightarrow> Some TargetAssistantOutput | _ \<Rightarrow> None)"

definition candidate_depth :: "(nat \<times> nat) list \<Rightarrow> context_candidate \<Rightarrow> nat option" where
  "candidate_depth depths c =
     (case Option.bind (cc_history_order c) (map_of depths) of
        Some d \<Rightarrow> Some d
      | None \<Rightarrow> if cc_role c = AsUser \<or> cc_role c = AsAssistant then Some 0 else None)"

fun transform_parts ::
  "ctx_env \<Rightarrow> text_rule list \<Rightarrow> transform_context \<Rightarrow> content_part list \<Rightarrow> string + content_part list \<times> string list" where
  "transform_parts env rs ctx [] = Inr ([], [])"
| "transform_parts env rs ctx (p # ps) =
     bindR (case p of
              TextPart t \<Rightarrow>
                bindR (apply_text_transforms (ce_regex env) t rs ctx) (\<lambda>out.
                Inr (TextPart (to_text out), to_applied out))
            | _ \<Rightarrow> Inr (p, [])) (\<lambda>(p, ids).
     bindR (transform_parts env rs ctx ps) (\<lambda>(ps, more). Inr (p # ps, ids @ more)))"

definition transform_candidate ::
  "resolve_env \<Rightarrow> context_spec \<Rightarrow> (nat \<times> nat) list \<Rightarrow> context_source \<Rightarrow> context_candidate \<Rightarrow> string + context_candidate" where
  "transform_candidate env spec depths src c =
     (case transform_target_of src (cc_role c) of
        None \<Rightarrow> Inr c
      | Some target \<Rightarrow>
          bindR (transform_parts (re_ctx env) (sp_text_transforms spec)
             \<lparr>tx_target = Some target, tx_surface = Some SurfacePrompt, tx_depth = candidate_depth depths c,
              tx_is_edit = False, tx_macros = sp_macros spec\<rparr> (cc_content c)) (\<lambda>(content, applied).
          bindR (content_hash_of env content) (\<lambda>hash.
          Inr (c\<lparr>cc_content := content, cc_content_hash := hash,
                 cc_provenance := (cc_provenance c)\<lparr>cp_transformations := cp_transformations (cc_provenance c)
                    @ map (\<lambda>i. ''text_transform:prompt:'' @ i) (remdups_adj (sort applied))\<rparr>\<rparr>))))"

definition transform_group ::
  "resolve_env \<Rightarrow> context_spec \<Rightarrow> (nat \<times> nat) list \<Rightarrow> candidate_group \<Rightarrow> string + candidate_group" where
  "transform_group env spec depths g =
     bindR (ensureR (cg_item_index g < length (sp_items spec)) PANIC) (\<lambda>_.
     bindR (mapR (transform_candidate env spec depths (ci_source (sp_items spec ! cg_item_index g))) (cg_candidates g))
       (\<lambda>cs. Inr (g\<lparr>cg_candidates := cs\<rparr>)))"

definition apply_prompt_text_transforms ::
  "resolve_env \<Rightarrow> candidate_group list \<Rightarrow> context_spec \<Rightarrow> string + candidate_group list" where
  "apply_prompt_text_transforms env groups spec =
     (if sp_text_transforms spec = [] then Inr groups
      else mapR (transform_group env spec (history_depths groups)) groups)"

end
