(* ===== verification/Llm_Config.thy ===== *)
theory Llm_Config
  imports Schema Context_Resolve
begin

text \<open>
  The configuration of language-model nodes: channels and their models (\<open>llm/channel.rs\<close>), tools
  (\<open>llm/tool_registry.rs\<close>), the node itself (\<open>graph/llm.rs\<close>) and its memory
  (\<open>graph/memory.rs\<close>).  The operation keys are the type parameter \<open>'k\<close>: they come from the
  package \<open>gproxy_protocol\<close>, and the record \<open>key_lib\<close> is the view that the program has of them.
\<close>

section \<open>Operation keys\<close>

text \<open>The variants that the sources name, and one for all others.\<close>

datatype operation =
    GenerateContent | StreamGenerateContent | CountTokens | ListModels | CreateImage | CreateEmbedding
  | CompactContent | OtherOperation

datatype content_kind =
    OpenAiResponses | OpenAiChatCompletions | ClaudeMessages | GeminiGenerateContent | OtherContentKind

datatype provider = OpenAiProvider | ClaudeProvider | GeminiProvider | OtherProvider

datatype operation_kind = ContentGeneration content_kind | ProviderKind provider | OtherKind

datatype operation_group = ImagesGroup | EmbeddingsGroup | CompactGroup | OtherGroup

record 'k key_lib =
  kl_operation :: "'k \<Rightarrow> operation"
  kl_kind :: "'k \<Rightarrow> operation_kind"
  kl_group :: "'k \<Rightarrow> operation_group"
    \<comment> \<open>\<open>operation.group()\<close>\<close>
  kl_consistent :: "'k \<Rightarrow> bool"
    \<comment> \<open>\<open>is_consistent\<close>\<close>
  kl_family :: "'k \<Rightarrow> provider"
    \<comment> \<open>\<open>provider_family\<close>\<close>
  kl_json :: "'k \<Rightarrow> json"
    \<comment> \<open>the serialisation derived for keys\<close>

section \<open>Channels\<close>

record secret_ref =
  secret_id :: string

record transport_policy =
  allow_loopback_http :: bool
  allow_unauthenticated :: bool

datatype channel_credential = SecretCredential secret_ref | NoCredential

datatype capability_name = CapStreaming | CapToolCalling | CapStructuredOutput | CapVisionInput

datatype capability_assumption = AssumeSupported

record capability_override =
  co_feature :: capability_name
  co_assumption :: capability_assumption
  co_reason :: string
  co_acknowledgement_ref :: string
  co_policy_version :: nat

record model_capabilities =
  cap_streaming :: "bool option"
  cap_tool_calling :: "bool option"
  cap_structured_output :: "bool option"
  cap_vision_input :: "bool option"

fun capability_get :: "model_capabilities \<Rightarrow> capability_name \<Rightarrow> bool option" where
  "capability_get c CapStreaming = cap_streaming c"
| "capability_get c CapToolCalling = cap_tool_calling c"
| "capability_get c CapStructuredOutput = cap_structured_output c"
| "capability_get c CapVisionInput = cap_vision_input c"

record channel_model =
  cm_id :: string
  cm_name :: "string option"
  cm_context_window :: "nat option"
  cm_max_output_tokens :: "nat option"
  cm_capabilities :: model_capabilities

datatype catalog_policy = OpenCatalog | Allowlist

record 'k model_catalog =
  mc_operation_key :: 'k
  mc_policy :: catalog_policy
  mc_models :: "channel_model list"

datatype 'k channel_capability = HostedToolCapability 'k string | ToolBasedCompact 'k string

fun capability_key :: "'k channel_capability \<Rightarrow> 'k" where
  "capability_key (HostedToolCapability k _) = k"
| "capability_key (ToolBasedCompact k _) = k"

fun capability_kind :: "'k channel_capability \<Rightarrow> string" where
  "capability_kind (HostedToolCapability _ h) = h"
| "capability_kind (ToolBasedCompact _ h) = h"

record 'k channel_spec =
  ch_taxonomy_version :: nat
  ch_decoder_version :: nat
  ch_base_url :: string
  ch_transport_policy :: transport_policy
  ch_credential :: channel_credential
  ch_operation_keys :: "'k list"
  ch_model_catalogs :: "'k model_catalog list"
  ch_capabilities :: "'k channel_capability list"

record 'k channel_revision =
  cr_id :: string
  cr_channel_id :: string
  cr_revision_no :: nat
  cr_spec :: "'k channel_spec"
  cr_content_hash :: string
  cr_created_at :: int

record 'k model_ref =
  mr_channel_id :: string
  mr_model_id :: string
  mr_model_name :: "string option"
  mr_operation_key :: 'k

record 'k operation_pin =
  pin_channel_revision_id :: string
  pin_model_id :: string
  pin_operation_key :: 'k
  pin_taxonomy_version :: nat
  pin_decoder_version :: nat

record capability_requirements =
  need_streaming :: bool
  need_tool_calling :: bool
  need_structured_output :: bool
  need_vision_input :: bool

definition required_features :: "capability_requirements \<Rightarrow> capability_name list" where
  "required_features r =
     map snd (filter fst [(need_streaming r, CapStreaming), (need_tool_calling r, CapToolCalling),
       (need_structured_output r, CapStructuredOutput), (need_vision_input r, CapVisionInput)])"

section \<open>Tools\<close>

datatype effect_classification = PureEffect | Idempotent | NonIdempotent

record tool_effect =
  te_classification :: effect_classification
  te_operation_key :: string
  te_requires_approval :: bool

datatype tool_scope_kind =
    ScopeMemoryRead | ScopeMemoryProposal | ScopeStatePatch | ScopeArtifactRead | ScopeArtifactWrite
  | ScopeNetwork | ScopeLocalNetwork

record tool_scope_requirement =
  req_kind :: tool_scope_kind
  req_scope :: string

record tool_limits =
  tl_timeout_ms :: nat
  tl_max_input_bytes :: nat
  tl_max_llm_result_bytes :: nat
  tl_max_artifact_bytes :: nat

record tool_descriptor =
  tool_id :: string
  tool_version :: string
  tool_name :: string
  tool_description :: "string option"
  tool_input_schema :: json_schema_spec
  tool_binding_schema :: "json_schema_spec option"
  tool_effect_spec :: tool_effect
  tool_supports_parallel :: bool
  tool_required_scopes :: "tool_scope_requirement list"
  tool_limits_of :: tool_limits

record resolved_tool =
  rt_descriptor :: tool_descriptor
  rt_descriptor_digest :: string
  rt_schema_digests :: "string list"
  rt_implementation_digest :: string
  rt_executor_key :: string

record registry_entry =
  re_tool_id :: string
  re_version :: string
  re_descriptor_digest :: string
  re_schema_digests :: "string list"
  re_implementation_digest :: string

record registry_snapshot =
  rg_revision :: string
  rg_entries :: "registry_entry list"

section \<open>Nodes\<close>

text \<open>A double is a real number or not finite; how decimal texts are rounded to doubles is not modelled.\<close>

datatype f64 = Finite real | NonFinite

record generation_options =
  go_temperature :: "f64 option"
  go_top_p :: "f64 option"
  go_max_output_tokens :: "nat option"
  go_stop :: "string list"
  go_seed :: "int option"

record request_options =
  ro_generation :: "generation_options option"
  ro_extensions :: "provider_extensions_ir option"
  ro_tool_choice :: "tool_choice_ir option"

definition default_request_options :: request_options where
  "default_request_options = \<lparr>ro_generation = None, ro_extensions = None, ro_tool_choice = None\<rparr>"

datatype final_text = LastAssistantTurn | AllAssistantText

datatype output_spec = TextOutput "final_text option" bool | JsonOutput json_schema_spec bool

datatype streaming_audience = AudienceUser | AudienceTrace | AudienceBoth | AudienceInternal

record node_streaming =
  ns_enabled :: bool
  ns_audience :: streaming_audience
  ns_persist_chunks :: bool

record node_limits =
  nl_max_model_calls :: "nat option"
  nl_max_count_calls :: "nat option"
  nl_max_tool_calls :: "nat option"
  nl_max_output_repairs :: "nat option"
  nl_max_concurrent_tools :: "nat option"
  nl_max_input_tokens :: "nat option"
  nl_max_output_tokens :: "nat option"

definition default_node_limits :: node_limits where
  "default_node_limits =
     \<lparr>nl_max_model_calls = None, nl_max_count_calls = None, nl_max_tool_calls = None, nl_max_output_repairs = None,
      nl_max_concurrent_tools = None, nl_max_input_tokens = None, nl_max_output_tokens = None\<rparr>"

record tool_scope_grant =
  sg_kind :: tool_scope_kind
  sg_scope :: string
  sg_paths :: "string list"
  sg_origins :: "string list"

record artifact_grant =
  ag_read_scopes :: "string list"
  ag_write_scopes :: "string list"
  ag_allowed_media_types :: "string list"
  ag_max_objects :: nat
  ag_max_bytes :: nat

datatype approval_policy = DescriptorDefault | AlwaysApprove

datatype failure_action = ModelVisibleError | FailNode

datatype approval_action = WaitForApproval | FailOnApproval

record failure_policy =
  fp_invalid_call :: failure_action
  fp_denied :: failure_action
  fp_approval_required :: approval_action
  fp_execution_error :: failure_action
  fp_max_attempts :: nat
  fp_retry_backoff_ms :: "nat list"

record tool_grant =
  tg_binding_id :: string
  tg_tool_id :: string
  tg_version :: string
  tg_exposed_name :: "string option"
  tg_scopes :: "tool_scope_grant list"
  tg_artifact :: artifact_grant
  tg_constraints :: "(string, json) omap"
  tg_approval :: "approval_policy option"
  tg_failure_policy :: "failure_policy option"

record 'k hosted_binding =
  hb_binding_id :: string
  hb_operation_key :: 'k
  hb_hosted_kind :: string
  hb_config :: "(string, json) omap"
  hb_resource_scopes :: "string list"
  hb_effect :: tool_effect
  hb_max_uses :: nat

section \<open>Memory\<close>

datatype pre_execution_source = PreInput

record pre_execution_selector =
  pe_source :: pre_execution_source
  pe_source_name :: string
  pe_selector :: input_selector

datatype static_read_source =
    WorkingContextRead string string
  | HistoryRead string
  | LongTermRead string "memory_query option"
  | ArtifactRead string pre_execution_selector

record static_read =
  sr_id :: string
  sr_alias :: string
  sr_source :: static_read_source
  sr_required :: bool
  sr_consistency :: read_consistency
  sr_limit :: "nat option"
  sr_max_bytes :: nat

datatype write_timing = AfterNodeCompleted

datatype write_op = WriteAdd | WriteReplace | WriteAppend | WriteRemove

datatype final_source = FromInput | FromOutput | FromBinding

record final_selector =
  fs_source :: final_source
  fs_source_name :: string
  fs_selector :: input_selector

record static_write =
  sw_id :: string
  sw_timing :: write_timing
  sw_target_scope :: string
  sw_path :: string
  sw_op :: write_op
  sw_value_from :: "final_selector option"

record node_memory =
  nm_reads :: "static_read list"
  nm_writes :: "static_write list"

datatype memory_capability = SearchMemory | ProposeMemoryChange

record memory_grant =
  mg_capability :: memory_capability
  mg_scopes :: "string list"
  mg_max_results :: "nat option"
  mg_max_proposal_bytes :: "nat option"

record llm_memory =
  lm_node :: node_memory
  lm_tools :: "memory_grant list"

section \<open>The node\<close>

datatype context_config = PresetConfig string | InlineConfig context_spec

record preset_version =
  pvr_id :: string
  pvr_preset_id :: string
  pvr_version_no :: nat
  pvr_policy_version :: nat
  pvr_spec :: context_spec
  pvr_content_hash :: string
  pvr_created_at :: int

record 'k llm_config =
  lc_model :: "'k model_ref"
  lc_overrides :: "capability_override list"
  lc_context :: context_config
  lc_memory :: "llm_memory option"
  lc_tools :: "tool_grant list"
  lc_hosted_tools :: "'k hosted_binding list"
  lc_request :: "request_options option"
  lc_output :: "output_spec option"
  lc_streaming :: "node_streaming option"
  lc_limits :: "node_limits option"

record 'k execution_snapshot =
  ex_schema_version :: nat
  ex_graph_revision_id :: string
  ex_graph_content_hash :: string
  ex_node_id :: string
  ex_operation :: "'k operation_pin"
  ex_channel :: "'k channel_revision"
  ex_context :: config_snapshot
  ex_overrides :: "capability_override list"
  ex_memory :: "llm_memory option"
  ex_tools :: "tool_grant list"
  ex_tool_registry :: registry_snapshot
  ex_tool_descriptors :: "resolved_tool list"
  ex_hosted_tools :: "'k hosted_binding list"
  ex_request :: "request_options option"
  ex_output :: "output_spec option"
  ex_streaming :: "node_streaming option"
  ex_limits :: node_limits

end
