(* ===== verification/Llm_Ledger.thy ===== *)
theory Llm_Ledger
  imports Canonical Llm_Config
begin

text \<open>
  The loop checkpoint of a language-model node and the material of tool-call digests,
  \<open>crates/core/src/llm/ledger.rs\<close>, \<open>tool_ledger.rs\<close> and \<open>artifact/types.rs\<close>.  The
  serialisations that \<open>serde\<close> derives are written out, because the checksum of a checkpoint and
  the digest of a call are hashes of them; the serialisation of an operation key, which comes from a
  third-party crate, is an argument.
\<close>

section \<open>Derived serialisations\<close>

definition json_object :: "(string \<times> json) list \<Rightarrow> json" where
  "json_object entries = JObject (om_of_list entries)"

fun json_option :: "('a \<Rightarrow> json) \<Rightarrow> 'a option \<Rightarrow> json" where
  "json_option f None = JNull"
| "json_option f (Some x) = f x"

definition json_list :: "('a \<Rightarrow> json) \<Rightarrow> 'a list \<Rightarrow> json" where
  "json_list f xs = JArray (map f xs)"

definition json_int :: "int \<Rightarrow> json" where
  "json_int i = JNumber (if i < 0 then CHR ''-'' # show_nat (nat (- i)) else show_nat (nat i))"

lemma json_option_inj: "(\<And>a b. f a = f b \<Longrightarrow> a = b) \<Longrightarrow> (\<And>a. f a \<noteq> JNull) \<Longrightarrow>
    json_option f x = json_option f y \<longleftrightarrow> x = y"
  by (cases x; cases y) (auto dest: sym)

section \<open>The states of calls and effects\<close>

datatype logical_call_status =
    CallPrepared | CallRunning | CallCompleted | CallFailed | CallOutcomeUnknown | CallRetryReady
  | CallCancelledBeforeStart | CallAbandonedUnknown

fun logical_status_text :: "logical_call_status \<Rightarrow> string" where
  "logical_status_text CallPrepared = ''prepared''"
| "logical_status_text CallRunning = ''running''"
| "logical_status_text CallCompleted = ''completed''"
| "logical_status_text CallFailed = ''failed''"
| "logical_status_text CallOutcomeUnknown = ''outcome_unknown''"
| "logical_status_text CallRetryReady = ''retry_ready''"
| "logical_status_text CallCancelledBeforeStart = ''cancelled_before_start''"
| "logical_status_text CallAbandonedUnknown = ''abandoned_unknown''"

datatype tool_call_status =
    ToolRequested | ToolValidated | ToolAwaitingApproval | ToolPrepared | ToolRunning | ToolCompleted
  | ToolFailed | ToolCallDenied | ToolOutcomeUnknown | ToolRetryReady | ToolCancelledBeforeStart
  | ToolAbandonedUnknown

fun tool_status_text :: "tool_call_status \<Rightarrow> string" where
  "tool_status_text ToolRequested = ''requested''"
| "tool_status_text ToolValidated = ''validated''"
| "tool_status_text ToolAwaitingApproval = ''awaiting_approval''"
| "tool_status_text ToolPrepared = ''prepared''"
| "tool_status_text ToolRunning = ''running''"
| "tool_status_text ToolCompleted = ''completed''"
| "tool_status_text ToolFailed = ''failed''"
| "tool_status_text ToolCallDenied = ''denied''"
| "tool_status_text ToolOutcomeUnknown = ''outcome_unknown''"
| "tool_status_text ToolRetryReady = ''retry_ready''"
| "tool_status_text ToolCancelledBeforeStart = ''cancelled_before_start''"
| "tool_status_text ToolAbandonedUnknown = ''abandoned_unknown''"

datatype count_result_source = CountProvider | CountLocal | CountEstimate

fun count_result_source_text :: "count_result_source \<Rightarrow> string" where
  "count_result_source_text CountProvider = ''provider''"
| "count_result_source_text CountLocal = ''local''"
| "count_result_source_text CountEstimate = ''estimate''"

record model_effect =
  me_model_call_id :: string
  me_effect_id :: string
  me_status :: logical_call_status
  me_response_ref :: "string option"

record count_effect =
  ne_count_call_id :: string
  ne_effect_id :: string
  ne_count_ordinal :: nat
  ne_execution_pin_digest :: string
  ne_trim_candidate_ref :: string
  ne_trim_candidate_digest :: string
  ne_request_digest :: string
  ne_status :: logical_call_status
  ne_result_source :: "count_result_source option"
  ne_result_ref :: "string option"

record call_checkpoint =
  cc_tool_call_id :: string
  cc_call_index :: nat
  cc_call_digest :: string
  cc_status :: tool_call_status
  cc_effect_id :: "string option"
  cc_output_ref :: "string option"
  cc_wait_id :: "string option"

record 'k loop_checkpoint =
  lk_schema_version :: nat
  lk_node_instance_id :: string
  lk_last_updated_by :: string
  lk_graph_revision_id :: string
  lk_registry :: registry_snapshot
  lk_context_snapshot_ref :: string
  lk_read_set_digest :: string
  lk_model_call_no :: nat
  lk_transcript_ref :: string
  lk_continuation :: "'k continuation_ref option"
  lk_model_effect :: "model_effect option"
  lk_count_effect :: "count_effect option"
  lk_current_batch :: "call_checkpoint list"
  lk_model_calls_used :: nat
  lk_count_calls_used :: nat
  lk_tool_calls_used :: nat
  lk_effect_watermark :: string
  lk_wait_ids :: "string list"
  lk_checksum :: string

section \<open>Serialised checkpoints\<close>

definition model_effect_json :: "model_effect \<Rightarrow> json" where
  "model_effect_json e =
     json_object [(''modelCallId'', JString (me_model_call_id e)), (''effectId'', JString (me_effect_id e)),
       (''status'', JString (logical_status_text (me_status e))), (''responseRef'', json_option JString (me_response_ref e))]"

definition count_effect_json :: "count_effect \<Rightarrow> json" where
  "count_effect_json e =
     json_object [(''countCallId'', JString (ne_count_call_id e)), (''effectId'', JString (ne_effect_id e)),
       (''countOrdinal'', json_nat (ne_count_ordinal e)),
       (''countExecutionPinDigest'', JString (ne_execution_pin_digest e)),
       (''trimCandidateRef'', JString (ne_trim_candidate_ref e)),
       (''trimCandidateDigest'', JString (ne_trim_candidate_digest e)),
       (''requestDigest'', JString (ne_request_digest e)),
       (''status'', JString (logical_status_text (ne_status e))),
       (''resultSource'', json_option (\<lambda>s. JString (count_result_source_text s)) (ne_result_source e)),
       (''resultRef'', json_option JString (ne_result_ref e))]"

definition call_checkpoint_json :: "call_checkpoint \<Rightarrow> json" where
  "call_checkpoint_json c =
     json_object [(''toolCallId'', JString (cc_tool_call_id c)), (''callIndex'', json_nat (cc_call_index c)),
       (''callDigest'', JString (cc_call_digest c)), (''status'', JString (tool_status_text (cc_status c))),
       (''effectId'', json_option JString (cc_effect_id c)), (''outputRef'', json_option JString (cc_output_ref c)),
       (''waitId'', json_option JString (cc_wait_id c))]"

definition registry_entry_json :: "registry_entry \<Rightarrow> json" where
  "registry_entry_json e =
     json_object [(''toolId'', JString (re_tool_id e)), (''version'', JString (re_version e)),
       (''descriptorDigest'', JString (re_descriptor_digest e)),
       (''schemaCompilationDigests'', json_list JString (re_schema_digests e)),
       (''implementationDigest'', JString (re_implementation_digest e))]"

definition registry_snapshot_json :: "registry_snapshot \<Rightarrow> json" where
  "registry_snapshot_json s =
     json_object [(''revision'', JString (rg_revision s)), (''entries'', json_list registry_entry_json (rg_entries s))]"

definition continuation_json :: "('k \<Rightarrow> json) \<Rightarrow> 'k continuation_ref \<Rightarrow> json" where
  "continuation_json encode_key c =
     json_object [(''adapterKey'', JString (cr_adapter_key c)), (''operationKey'', encode_key (cr_operation_key c)),
       (''operationTaxonomyVersion'', json_nat (cr_operation_taxonomy_version c)),
       (''adapterDecoderVersion'', json_nat (cr_adapter_decoder_version c)),
       (''modelCallId'', JString (cr_model_call_id c)),
       (''ref'', json_object [(''objectId'', JString (se_object_id (cr_entry_ref c))),
          (''entryKey'', JString (se_entry_key (cr_entry_ref c)))]),
       (''digest'', JString (cr_digest c)), (''expiresAt'', json_option json_int (cr_expires_at c))]"

definition checkpoint_fields :: "('k \<Rightarrow> json) \<Rightarrow> 'k loop_checkpoint \<Rightarrow> (string \<times> json) list" where
  "checkpoint_fields encode_key c =
     [(''schemaVersion'', json_nat (lk_schema_version c)), (''nodeInstanceId'', JString (lk_node_instance_id c)),
      (''lastUpdatedByAttemptId'', JString (lk_last_updated_by c)),
      (''graphRevisionId'', JString (lk_graph_revision_id c)),
      (''registrySnapshot'', registry_snapshot_json (lk_registry c)),
      (''contextSnapshotRef'', JString (lk_context_snapshot_ref c)),
      (''readSetDigest'', JString (lk_read_set_digest c)), (''modelCallNo'', json_nat (lk_model_call_no c)),
      (''transcriptRef'', JString (lk_transcript_ref c)),
      (''continuationRef'', json_option (continuation_json encode_key) (lk_continuation c)),
      (''activeModelEffect'', json_option model_effect_json (lk_model_effect c)),
      (''activeCountEffect'', json_option count_effect_json (lk_count_effect c)),
      (''currentBatch'', json_list call_checkpoint_json (lk_current_batch c)),
      (''modelCallsUsed'', json_nat (lk_model_calls_used c)), (''countCallsUsed'', json_nat (lk_count_calls_used c)),
      (''toolCallsUsed'', json_nat (lk_tool_calls_used c)), (''effectWatermark'', JString (lk_effect_watermark c)),
      (''waitIds'', json_list JString (lk_wait_ids c)), (''checksum'', JString (lk_checksum c))]"

definition checkpoint_json :: "('k \<Rightarrow> json) \<Rightarrow> 'k loop_checkpoint \<Rightarrow> (string, json) omap" where
  "checkpoint_json encode_key c = om_of_list (checkpoint_fields encode_key c)"

section \<open>Checksums\<close>

record 'k ledger_env =
  lg_serde :: serde
  lg_sha :: "string \<Rightarrow> string"
  lg_encode_key :: "'k \<Rightarrow> json"
  lg_encode_grant :: "tool_grant \<Rightarrow> json"
  lg_encode_memory_grant :: "memory_grant \<Rightarrow> json"
    \<comment> \<open>the serialisations that \<open>serde\<close> derives for grants\<close>

definition expected_checksum :: "'k ledger_env \<Rightarrow> 'k loop_checkpoint \<Rightarrow> domain_error + string" where
  "expected_checksum env c =
     canonical_hash (lg_serde env) (lg_sha env) (JObject (om_remove ''checksum'' (checkpoint_json (lg_encode_key env) c)))"

definition seal :: "'k ledger_env \<Rightarrow> 'k loop_checkpoint \<Rightarrow> domain_error + 'k loop_checkpoint" where
  "seal env c = bindR (expected_checksum env c) (\<lambda>s. Inr (c\<lparr>lk_checksum := s\<rparr>))"

definition checksum_is_valid :: "'k ledger_env \<Rightarrow> 'k loop_checkpoint \<Rightarrow> bool" where
  "checksum_is_valid env c \<longleftrightarrow> expected_checksum env c = Inr (lk_checksum c)"

section \<open>The digest of a tool call\<close>

definition TOOL_CALL_POLICY_VERSION :: nat where "TOOL_CALL_POLICY_VERSION = 1"

record call_material =
  dm_binding_id :: string
  dm_tool_id :: string
  dm_tool_version :: string
  dm_arguments :: json
  dm_grant :: tool_grant
  dm_descriptor_digest :: string
  dm_schema_digests :: "string list"
  dm_implementation_digest :: string
  dm_policy_version :: nat

definition call_material_json :: "(tool_grant \<Rightarrow> json) \<Rightarrow> call_material \<Rightarrow> json" where
  "call_material_json encode_grant m =
     json_object [(''bindingId'', JString (dm_binding_id m)), (''toolId'', JString (dm_tool_id m)),
       (''toolVersion'', JString (dm_tool_version m)), (''arguments'', dm_arguments m),
       (''grant'', encode_grant (dm_grant m)), (''descriptorDigest'', JString (dm_descriptor_digest m)),
       (''schemaCompilationDigests'', json_list JString (dm_schema_digests m)),
       (''implementationDigest'', JString (dm_implementation_digest m)),
       (''policyVersion'', json_nat (dm_policy_version m))]"

definition call_material_digest :: "'k ledger_env \<Rightarrow> call_material \<Rightarrow> domain_error + string" where
  "call_material_digest env m =
     canonical_hash (lg_serde env) (lg_sha env) (call_material_json (lg_encode_grant env) m)"

record effect_retry_policy =
  rp_max_attempts :: nat
  rp_backoff_ms :: "nat list"

record tool_plan_call =
  pc_tool_call_id :: string
  pc_effect_id :: string
  pc_effect_attempt_id :: string
  pc_provider_call_id :: "string option"
  pc_call_index :: nat
  pc_binding_id :: string
  pc_tool_id :: string
  pc_tool_version :: string
  pc_call_digest :: string
  pc_arguments_bytes :: string
  pc_descriptor_digest :: string
  pc_schema_digests :: "string list"
  pc_implementation_digest :: string
  pc_effect_classification :: effect_classification
  pc_effect_operation_key :: string
  pc_requires_approval :: bool
  pc_idempotency_key :: string
  pc_retry_policy :: effect_retry_policy
  pc_risk_summary :: string
  pc_approval_expires_at :: int

record 'k approval_batch =
  ab_wait_id :: string
  ab_node_instance_id :: string
  ab_originating_attempt_id :: string
  ab_model_call_id :: string
  ab_calls :: "tool_plan_call list"
  ab_checkpoint :: "'k loop_checkpoint"

section \<open>Sealed checkpoints\<close>

lemma checkpoint_without_checksum:
  "om_remove ''checksum'' (checkpoint_json f (c\<lparr>lk_checksum := s\<rparr>)) = om_remove ''checksum'' (checkpoint_json f c)"
  by (rule om_ext) (simp_all add: checkpoint_json_def om_wf_remove om_get_remove om_get_of_list checkpoint_fields_def)

lemma seal_valid: "seal env c = Inr c' \<Longrightarrow> checksum_is_valid env c'"
  by (auto simp: seal_def checksum_is_valid_def expected_checksum_def checkpoint_without_checksum bindR_eq_Inr)

lemma seal_Inr: "seal env c = Inr c' \<Longrightarrow> \<exists>s. c' = c\<lparr>lk_checksum := s\<rparr>"
  by (auto simp: seal_def bindR_eq_Inr)

end
