(* ===== verification/Llm_Ir_Validate.thy ===== *)
theory Llm_Ir_Validate
  imports Llm_Ir Canonical
begin

text \<open>
  \<open>crates/core/src/llm/ir/validate.rs\<close>: the checks of requests, responses and
  transcripts.  An error is its code.  What this module takes from elsewhere comes with the
  record \<open>ir_env\<close>: the consistency of operation keys, which is not under \<open>src/\<close>, the
  generation keys and the schema compiler, which are other modules of it (\<open>request_ir_env\<close> of
  \<open>Request_Builder\<close> puts their models in), and the serialisations that \<open>serde\<close> derives.
\<close>

section \<open>The code\<close>

definition MAX_IR_BYTES :: nat where "MAX_IR_BYTES = 16 * 1024 * 1024"
definition MAX_TEXT_BYTES :: nat where "MAX_TEXT_BYTES = 1024 * 1024"

record ('k, 'g) ir_env =
  ie_serde :: serde
  ie_parse :: "string \<Rightarrow> json option"
    \<comment> \<open>\<open>from_str::<Value>\<close>\<close>
  ie_consistent :: "'k \<Rightarrow> bool"
    \<comment> \<open>\<open>OperationKey::is_consistent\<close>\<close>
  ie_generation :: "'k \<Rightarrow> bool"
    \<comment> \<open>\<open>is_supported_generation_key\<close>\<close>
  ie_compiles :: "json_schema_spec \<Rightarrow> bool"
    \<comment> \<open>\<open>schema::compile\<close> succeeds\<close>
  ie_encode_request :: "('k, 'g) llm_request \<Rightarrow> json"
  ie_encode_response :: "'k llm_response \<Rightarrow> json"
  ie_encode_items :: "'k turn_item list \<Rightarrow> json"

definition supports_operation_versions :: "nat \<Rightarrow> nat \<Rightarrow> bool" where
  "supports_operation_versions taxonomy decoder \<longleftrightarrow> taxonomy = 1 \<and> decoder = 1"

text \<open>
  \<open>char::is_control\<close> on the UTF-8 bytes: the ASCII controls, and the two-byte sequences of
  U+0080 to U+009F.
\<close>

fun has_control :: "string \<Rightarrow> bool" where
  "has_control [] = False"
| "has_control [c] = (byte c < 32 \<or> byte c = 127)"
| "has_control (c # d # s) =
     (byte c < 32 \<or> byte c = 127 \<or> byte c = 194 \<and> 128 \<le> byte d \<and> byte d < 160 \<or> has_control (d # s))"

definition bounded_id :: "string \<Rightarrow> nat \<Rightarrow> string \<Rightarrow> string + unit" where
  "bounded_id s bound code = ensureR (s \<noteq> [] \<and> length s \<le> bound \<and> \<not> has_control s) code"

definition to_ascii_lower :: "char \<Rightarrow> char" where
  "to_ascii_lower c = (if is_upper c then char_of (byte c + 32) else c)"

fun contains_str :: "string \<Rightarrow> string \<Rightarrow> bool" where
  "contains_str needle [] = (needle = [])"
| "contains_str needle (c # s) = (starts_with needle (c # s) \<or> contains_str needle s)"

definition sensitive_name :: "string \<Rightarrow> bool" where
  "sensitive_name s = list_ex (\<lambda>needle. contains_str needle (map to_ascii_lower s))
     [''authorization'', ''cookie'', ''api_key'', ''apikey'', ''token'', ''secret'', ''credential'',
      ''signature'', ''password'']"

definition validate_tool_name :: "string \<Rightarrow> string + unit" where
  "validate_tool_name s =
     ensureR (s \<noteq> [] \<and> length s \<le> 128
       \<and> list_all (\<lambda>c. is_alpha c \<or> is_digit c \<or> c \<in> {CHR ''_'', CHR ''-'', CHR ''.''}) s) ''invalid_tool_name''"

definition validate_artifact :: "artifact_ref \<Rightarrow> string + unit" where
  "validate_artifact r = ensureR (artifact_valid r) ''invalid_artifact_ref''"

fun validate_part :: "content_part \<Rightarrow> string + unit" where
  "validate_part (TextPart text) = ensureR (text \<noteq> [] \<and> length text \<le> MAX_TEXT_BYTES) ''content_text_limit''"
| "validate_part (ImagePart r) =
     bindR (validate_artifact r) (\<lambda>_.
     ensureR (starts_with ''image/'' (ar_media_type r)) ''invalid_image_media_type'')"
| "validate_part (FilePart r) = validate_artifact r"

fun eachR :: "('a \<Rightarrow> 'e + unit) \<Rightarrow> 'a list \<Rightarrow> 'e + unit" where
  "eachR f [] = Inr ()"
| "eachR f (x # xs) = bindR (f x) (\<lambda>_. eachR f xs)"

definition validate_content_parts :: "content_part list \<Rightarrow> bool \<Rightarrow> string + unit" where
  "validate_content_parts content required =
     bindR (ensureR (length content \<le> 256 \<and> \<not> (required \<and> content = [])) ''content_part_limit'') (\<lambda>_.
     eachR validate_part content)"

definition validate_continuation ::
  "('k, 'g) ir_env \<Rightarrow> 'k continuation_ref \<Rightarrow> string option \<Rightarrow> string + unit" where
  "validate_continuation env r expected =
     bindR (ensureR (ie_generation env (cr_operation_key r)
         \<and> supports_operation_versions (cr_operation_taxonomy_version r) (cr_adapter_decoder_version r)
         \<and> (expected = None \<or> expected = Some (cr_model_call_id r))) ''continuation_compatibility_error'') (\<lambda>_.
     bindR (eachR (\<lambda>v. bounded_id v 128 ''invalid_continuation_ref'')
         [cr_adapter_key r, cr_model_call_id r, se_object_id (cr_entry_ref r), se_entry_key (cr_entry_ref r)]) (\<lambda>_.
     ensureR (is_digest (cr_digest r)) ''invalid_continuation_digest''))"

definition validate_opaque ::
  "('k, 'g) ir_env \<Rightarrow> 'k continuation_ref option \<Rightarrow> string + unit" where
  "validate_opaque env r = (case r of None \<Rightarrow> Inr () | Some c \<Rightarrow> validate_continuation env c None)"

text \<open>The calls seen so far with their names, and the calls that have a result.\<close>

record transcript_state =
  ts_ids :: "string set"
  ts_calls :: "string \<rightharpoonup> string"
  ts_results :: "string set"

definition validate_item ::
  "('k, 'g) ir_env \<Rightarrow> 'k turn_item \<Rightarrow> transcript_state \<Rightarrow> string + transcript_state" where
  "validate_item env item st =
     (case item of
        Message _ _ content _ placeholder \<Rightarrow>
          if placeholder
          then bindR (validate_content_parts content False) (\<lambda>_.
               bindR (ensureR (content = []) ''invalid_message_placeholder'') (\<lambda>_. Inr st))
          else bindR (validate_content_parts content True) (\<lambda>_. Inr st)
      | AssistantToolCall _ call \<Rightarrow>
          bindR (bounded_id (tc_id call) 128 ''invalid_tool_call_id'') (\<lambda>_.
          bindR (validate_tool_name (tc_name call)) (\<lambda>_.
          bindR (ensureR (ts_calls st (tc_id call) = None) ''duplicate_tool_call_id'') (\<lambda>_.
          bindR (map_errR (\<lambda>_. ''invalid_tool_arguments'') (to_vec (ie_serde env) (tc_arguments call))) (\<lambda>bytes.
          bindR (ensureR (length bytes \<le> 256 * 1024) ''tool_arguments_limit'') (\<lambda>_.
          Inr (st\<lparr>ts_calls := (ts_calls st)(tc_id call \<mapsto> tc_name call)\<rparr>))))))
      | ToolResult _ call name _ content \<Rightarrow>
          bindR (of_optionR ''orphan_tool_result'' (ts_calls st call)) (\<lambda>expected.
          bindR (ensureR (expected = name \<and> call \<notin> ts_results st) ''invalid_tool_result_pair'') (\<lambda>_.
          bindR (validate_content_parts content True) (\<lambda>_.
          Inr (st\<lparr>ts_results := insert call (ts_results st)\<rparr>))))
      | HostedTool _ binding kd _ display opaque \<Rightarrow>
          bindR (bounded_id binding 128 ''invalid_hosted_binding'') (\<lambda>_.
          bindR (bounded_id kd 128 ''invalid_hosted_kind'') (\<lambda>_.
          bindR (validate_content_parts display False) (\<lambda>_.
          bindR (validate_opaque env opaque) (\<lambda>_. Inr st))))
      | Reasoning _ summary opaque \<Rightarrow>
          bindR (ensureR (case summary of None \<Rightarrow> True | Some s \<Rightarrow> length s \<le> 16 * 1024)
              ''reasoning_summary_limit'') (\<lambda>_.
          bindR (validate_opaque env opaque) (\<lambda>_. Inr st)))"

fun validate_items ::
  "('k, 'g) ir_env \<Rightarrow> 'k turn_item list \<Rightarrow> transcript_state \<Rightarrow> string + transcript_state" where
  "validate_items env [] st = Inr st"
| "validate_items env (item # items) st =
     bindR (bounded_id (item_id item) 128 ''invalid_ir_item_id'') (\<lambda>_.
     bindR (ensureR (item_id item \<notin> ts_ids st) ''duplicate_ir_item_id'') (\<lambda>_.
     bindR (validate_item env item (st\<lparr>ts_ids := insert (item_id item) (ts_ids st)\<rparr>)) (\<lambda>st.
     validate_items env items st)))"

definition validate_transcript ::
  "('k, 'g) ir_env \<Rightarrow> 'k turn_item list \<Rightarrow> string set \<Rightarrow> string + unit" where
  "validate_transcript env items ids =
     bindR (validate_items env items \<lparr>ts_ids = ids, ts_calls = Map.empty, ts_results = {}\<rparr>) (\<lambda>_. Inr ())"

definition bounded_canonical :: "('k, 'g) ir_env \<Rightarrow> json \<Rightarrow> string + unit" where
  "bounded_canonical env v =
     bindR (map_errR (\<lambda>_. ''invalid_llm_ir'') (to_vec (ie_serde env) v)) (\<lambda>bytes.
     ensureR (length bytes \<le> MAX_IR_BYTES) ''llm_ir_size_limit'')"

definition usage_values :: "llm_usage \<Rightarrow> nat list" where
  "usage_values u = List.map_filter id
     [input_tokens u, output_tokens u, total_tokens u, cached_input_tokens u, reasoning_tokens u]"

definition validate_usage :: "llm_usage \<Rightarrow> string + unit" where
  "validate_usage u =
     bindR (ensureR (list_all (\<lambda>v. v \<le> 10000000000) (usage_values u)) ''usage_limit'') (\<lambda>_.
     ensureR (case (input_tokens u, cached_input_tokens u) of
         (Some input, Some cached) \<Rightarrow> cached \<le> input | _ \<Rightarrow> True) ''invalid_usage'')"

definition validate_response_ir :: "('k, 'g) ir_env \<Rightarrow> 'k llm_response \<Rightarrow> string + unit" where
  "validate_response_ir env r =
     bindR (bounded_id (rs_model_call_id r) 128 ''invalid_model_call_id'') (\<lambda>_.
     bindR (ensureR (length (rs_items r) \<le> 4096) ''llm_ir_collection_limit'') (\<lambda>_.
     bindR (validate_transcript env (rs_items r) {}) (\<lambda>_.
     bindR (case rs_continuation r of None \<Rightarrow> Inr ()
            | Some c \<Rightarrow> validate_continuation env c (Some (rs_model_call_id r))) (\<lambda>_.
     bindR (case rs_raw_response_ref r of None \<Rightarrow> Inr ()
            | Some raw \<Rightarrow> ensureR (artifact_valid raw) ''invalid_raw_response_ref'') (\<lambda>_.
     bindR (case rs_usage r of None \<Rightarrow> Inr () | Some u \<Rightarrow> validate_usage u) (\<lambda>_.
     bounded_canonical env (ie_encode_response env r)))))))"

definition validate_transcript_ir :: "('k, 'g) ir_env \<Rightarrow> 'k turn_item list \<Rightarrow> string + unit" where
  "validate_transcript_ir env items =
     bindR (ensureR (length items \<le> 4096) ''llm_ir_collection_limit'') (\<lambda>_.
     bindR (validate_transcript env items {}) (\<lambda>_.
     bounded_canonical env (ie_encode_items env items)))"

text \<open>Requests.\<close>

definition authority_valid :: "instruction_ir \<Rightarrow> bool" where
  "authority_valid i =
     (let trust = cp_trust (ins_provenance i)
      in case ins_role i of
           PolicyInstruction \<Rightarrow> trust = RuntimePolicy
         | SystemInstruction \<Rightarrow> trust = RuntimePolicy \<or> trust = TrustedConfig
         | DeveloperInstruction \<Rightarrow> trust = RuntimePolicy \<or> trust = TrustedConfig
         | ContextInstruction \<Rightarrow> True)"

definition validate_instruction :: "instruction_ir \<Rightarrow> string + unit" where
  "validate_instruction i =
     bindR (validate_content_parts (ins_content i) True) (\<lambda>_.
     bindR (bounded_id (cp_id (ins_provenance i)) 128 ''invalid_provenance_id'') (\<lambda>_.
     bindR (bounded_id (cp_item_id (ins_provenance i)) 128 ''invalid_provenance_item'') (\<lambda>_.
     ensureR (authority_valid i) ''instruction_authority_violation'')))"

fun validate_instructions :: "instruction_ir list \<Rightarrow> string set \<Rightarrow> string + string set" where
  "validate_instructions [] ids = Inr ids"
| "validate_instructions (i # is) ids =
     bindR (bounded_id (ins_id i) 128 ''invalid_instruction_id'') (\<lambda>_.
     bindR (ensureR (ins_id i \<notin> ids) ''duplicate_ir_item_id'') (\<lambda>_.
     bindR (validate_instruction i) (\<lambda>_.
     validate_instructions is (insert (ins_id i) ids))))"

fun validate_tools :: "(json_schema_spec \<Rightarrow> bool) \<Rightarrow> tool_descriptor_ir list \<Rightarrow> string set \<Rightarrow> string + string set" where
  "validate_tools compiles [] names = Inr names"
| "validate_tools compiles (t # ts) names =
     bindR (validate_tool_name (td_name t)) (\<lambda>_.
     bindR (ensureR (td_name t \<notin> names) ''duplicate_tool_name'') (\<lambda>_.
     bindR (ensureR (case td_description t of None \<Rightarrow> True | Some d \<Rightarrow> length d \<le> 4096) ''tool_description_limit'') (\<lambda>_.
     bindR (ensureR (compiles (td_input_schema t)) ''invalid_tool_schema'') (\<lambda>_.
     validate_tools compiles ts (insert (td_name t) names)))))"

fun validate_hosted :: "hosted_tool_descriptor_ir list \<Rightarrow> string set \<Rightarrow> string + unit" where
  "validate_hosted [] ids = Inr ()"
| "validate_hosted (t # ts) ids =
     bindR (bounded_id (hd_binding_id t) 128 ''invalid_hosted_binding'') (\<lambda>_.
     bindR (bounded_id (hd_hosted_kind t) 128 ''invalid_hosted_kind'') (\<lambda>_.
     bindR (ensureR (hd_binding_id t \<notin> ids) ''duplicate_hosted_binding'') (\<lambda>_.
     validate_hosted ts (insert (hd_binding_id t) ids))))"

definition validate_tool_descriptors :: "('k, 'g) ir_env \<Rightarrow> ('k, 'g) llm_request \<Rightarrow> string + unit" where
  "validate_tool_descriptors env r =
     bindR (validate_tools (ie_compiles env) (rq_tools r) {}) (\<lambda>names.
     bindR (validate_hosted (rq_hosted_tools r) {}) (\<lambda>_.
     ensureR (case rq_tool_choice r of Some (NamedChoice name) \<Rightarrow> name \<in> names | _ \<Rightarrow> True)
       ''unknown_tool_choice''))"

fun metadata_json :: "metadata_value \<Rightarrow> json" where
  "metadata_json MetaNull = JNull"
| "metadata_json (MetaBoolean b) = JBool b"
| "metadata_json (MetaNumber n) = JNumber n"
| "metadata_json (MetaString s) = JString s"

definition metadata_entry_ok :: "string \<times> metadata_value \<Rightarrow> bool" where
  "metadata_entry_ok kv =
     (fst kv \<noteq> [] \<and> length (fst kv) \<le> 128 \<and> \<not> sensitive_name (fst kv)
      \<and> (case snd kv of MetaString s \<Rightarrow> length s \<le> 4096 | _ \<Rightarrow> True))"

definition validate_metadata :: "('k, 'g) ir_env \<Rightarrow> (string, metadata_value) omap \<Rightarrow> string + unit" where
  "validate_metadata env m =
     bindR (ensureR (length m \<le> 32) ''metadata_limit'') (\<lambda>_.
     bindR (eachR (\<lambda>kv. ensureR (metadata_entry_ok kv) ''invalid_metadata'') m) (\<lambda>_.
     bindR (map_errR (\<lambda>_. ''invalid_metadata'')
         (to_vec (ie_serde env) (JObject (map (\<lambda>(k, v). (k, metadata_json v)) m)))) (\<lambda>bytes.
     ensureR (length bytes \<le> 16 * 1024) ''metadata_limit'')))"

definition validate_extensions :: "provider_extensions_ir option \<Rightarrow> string + unit" where
  "validate_extensions ext =
     (case ext of
        None \<Rightarrow> Inr ()
      | Some e \<Rightarrow>
          eachR (\<lambda>x. case x of None \<Rightarrow> Inr ()
              | Some p \<Rightarrow> ensureR (\<not> list_ex sensitive_name (om_keys (px_extra_headers p))) ''sensitive_extension_header'')
            [ext_openai e, ext_claude e, ext_gemini e])"

definition validate_request_ir :: "('k, 'g) ir_env \<Rightarrow> ('k, 'g) llm_request \<Rightarrow> string + unit" where
  "validate_request_ir env r =
     bindR (bounded_id (rq_model r) 256 ''invalid_model_id'') (\<lambda>_.
     bindR (ensureR (length (rq_instructions r) \<le> 256 \<and> length (rq_transcript r) \<le> 4096
         \<and> length (rq_tools r) \<le> 128 \<and> length (rq_hosted_tools r) \<le> 64) ''llm_ir_collection_limit'') (\<lambda>_.
     bindR (validate_instructions (rq_instructions r) {}) (\<lambda>ids.
     bindR (validate_transcript env (rq_transcript r) ids) (\<lambda>_.
     bindR (validate_tool_descriptors env r) (\<lambda>_.
     bindR (validate_metadata env (rq_metadata r)) (\<lambda>_.
     bindR (case rq_continuation r of None \<Rightarrow> Inr () | Some c \<Rightarrow> validate_continuation env c None) (\<lambda>_.
     bindR (case rq_response_format r of
              Some (JsonFormat (Some spec) _) \<Rightarrow> ensureR (ie_compiles env spec) ''invalid_response_schema''
            | _ \<Rightarrow> Inr ()) (\<lambda>_.
     bindR (validate_extensions (rq_extensions r)) (\<lambda>_.
     bounded_canonical env (ie_encode_request env r))))))))))"

end
