(* ===== verification/Channel.thy ===== *)
theory Channel
  imports Llm_Config Llm_Ir_Validate
begin

text \<open>
  The channels of \<open>crates/core/src/llm/channel_validation.rs\<close>, \<open>secret.rs\<close> and the keys
  of \<open>service_validation.rs\<close>.  The parser of URLs is an argument: it gives the parts
  of a URL that the code looks at, and writes a URL back.
\<close>

section \<open>URLs and operation keys\<close>

datatype url_host = DomainHost string | IpHost bool
  \<comment> \<open>an address with the answer of \<open>is_loopback\<close>\<close>

record url_parts =
  url_username :: string
  url_password :: "string option"
  url_fragment :: "string option"
  url_query :: "(string \<times> string) list"
  url_host_of :: "url_host option"
  url_scheme :: string
  url_path :: string

record 'k channel_lib =
  cl_keys :: "'k key_lib"
  cl_parse_url :: "string \<Rightarrow> url_parts option"
    \<comment> \<open>\<open>Url::parse\<close>\<close>
  cl_set_path :: "string \<Rightarrow> url_parts \<Rightarrow> url_parts"
  cl_url_text :: "url_parts \<Rightarrow> string"
  cl_serde :: serde

definition MODEL_CAPABILITY_POLICY_VERSION :: nat where "MODEL_CAPABILITY_POLICY_VERSION = 1"
definition MAX_SECRET_ID_BYTES :: nat where "MAX_SECRET_ID_BYTES = 128"

definition is_supported_generation_key :: "'k key_lib \<Rightarrow> 'k \<Rightarrow> bool" where
  "is_supported_generation_key lib k \<longleftrightarrow>
     kl_operation lib k \<in> {GenerateContent, StreamGenerateContent}
     \<and> kl_kind lib k \<in> ContentGeneration ` {OpenAiResponses, OpenAiChatCompletions, ClaudeMessages, GeminiGenerateContent}"

definition is_supported_count_key :: "'k key_lib \<Rightarrow> 'k \<Rightarrow> bool" where
  "is_supported_count_key lib k \<longleftrightarrow>
     kl_operation lib k = CountTokens \<and> kl_kind lib k \<in> ProviderKind ` {OpenAiProvider, ClaudeProvider, GeminiProvider}"

definition is_supported_discovery_key :: "'k key_lib \<Rightarrow> 'k \<Rightarrow> bool" where
  "is_supported_discovery_key lib k \<longleftrightarrow>
     kl_operation lib k = ListModels \<and> kl_kind lib k \<in> ProviderKind ` {OpenAiProvider, ClaudeProvider, GeminiProvider}"

definition is_supported_image_key :: "'k key_lib \<Rightarrow> 'k \<Rightarrow> bool" where
  "is_supported_image_key lib k \<longleftrightarrow> kl_operation lib k = CreateImage \<and> kl_kind lib k = ProviderKind OpenAiProvider"

definition is_supported_embedding_key :: "'k key_lib \<Rightarrow> 'k \<Rightarrow> bool" where
  "is_supported_embedding_key lib k \<longleftrightarrow>
     kl_operation lib k = CreateEmbedding \<and> kl_kind lib k \<in> ProviderKind ` {OpenAiProvider, GeminiProvider}"

definition is_supported_compact_key :: "'k key_lib \<Rightarrow> 'k \<Rightarrow> bool" where
  "is_supported_compact_key lib k \<longleftrightarrow> kl_operation lib k = CompactContent \<and> kl_kind lib k = ProviderKind OpenAiProvider"

section \<open>Models\<close>

fun validate_overrides :: "capability_override list \<Rightarrow> capability_name set \<Rightarrow> string + unit" where
  "validate_overrides [] seen = Inr ()"
| "validate_overrides (c # cs) seen =
     bindR (ensureR (co_feature c \<notin> seen \<and> co_policy_version c = MODEL_CAPABILITY_POLICY_VERSION
         \<and> trim (co_reason c) \<noteq> [] \<and> trim (co_acknowledgement_ref c) \<noteq> []) ''invalid_capability_override'') (\<lambda>_.
     validate_overrides cs (insert (co_feature c) seen))"

definition find_catalog :: "'k channel_spec \<Rightarrow> 'k \<Rightarrow> 'k model_catalog option" where
  "find_catalog spec k = find (\<lambda>c. mc_operation_key c = k) (ch_model_catalogs spec)"

definition find_model :: "'k model_catalog \<Rightarrow> string \<Rightarrow> channel_model option" where
  "find_model catalog i = find (\<lambda>m. cm_id m = i) (mc_models catalog)"

definition check_feature ::
  "channel_model option \<Rightarrow> capability_override list \<Rightarrow> capability_name \<Rightarrow> string + unit" where
  "check_feature model overrides feature =
     (case Option.bind model (\<lambda>m. capability_get (cm_capabilities m) feature) of
        Some True \<Rightarrow> Inr ()
      | Some False \<Rightarrow> Inl ''required_capability_unsupported''
      | None \<Rightarrow> ensureR (list_ex (\<lambda>c. co_feature c = feature) overrides) ''required_capability_unknown'')"

definition validate_generation_model ::
  "'k key_lib \<Rightarrow> 'k channel_spec \<Rightarrow> 'k model_ref \<Rightarrow> capability_requirements \<Rightarrow> capability_override list \<Rightarrow> string + unit" where
  "validate_generation_model lib spec r requirements overrides =
     bindR (ensureR (mr_channel_id r \<noteq> [] \<and> trim (mr_model_id r) \<noteq> []) ''invalid_model_ref'') (\<lambda>_.
     bindR (ensureR (is_supported_generation_key lib (mr_operation_key r)) ''unsupported_generation_operation'') (\<lambda>_.
     bindR (ensureR (mr_operation_key r \<in> set (ch_operation_keys spec)) ''channel_operation_not_declared'') (\<lambda>_.
     bindR (of_optionR ''model_catalog_missing'' (find_catalog spec (mr_operation_key r))) (\<lambda>catalog.
     let model = find_model catalog (mr_model_id r)
     in bindR (ensureR (\<not> (mc_policy catalog = Allowlist \<and> model = None)) ''model_not_allowed'') (\<lambda>_.
        bindR (validate_overrides overrides {}) (\<lambda>_.
        bindR (mapR (check_feature model overrides) (required_features requirements)) (\<lambda>_. Inr ())))))))"

section \<open>The normal form of a channel\<close>

definition name_char :: "char \<Rightarrow> bool" where
  "name_char c \<longleftrightarrow> is_alpha c \<or> is_digit c \<or> c \<in> set ''_-.''"

definition validate_secret_ref :: "secret_ref \<Rightarrow> string + unit" where
  "validate_secret_ref r =
     bindR (ensureR (secret_id r \<noteq> [] \<and> length (secret_id r) \<le> MAX_SECRET_ID_BYTES) ''invalid_secret_ref'') (\<lambda>_.
     ensureR (list_all name_char (secret_id r)) ''invalid_secret_ref'')"

definition version_error :: "'k channel_spec \<Rightarrow> string" where
  "version_error spec =
     (if ch_taxonomy_version spec \<noteq> 1 then ''unsupported_operation_taxonomy'' else ''unsupported_adapter_decoder'')"

definition sensitive_query_key :: "string \<Rightarrow> bool" where
  "sensitive_query_key key =
     list_ex (\<lambda>needle. contains_str needle
         (map to_ascii_lower (filter (\<lambda>c. is_alpha c \<or> is_digit c) key)))
       [''key'', ''token'', ''secret'', ''signature'', ''credential'']"

definition is_loopback_host :: "url_host option \<Rightarrow> bool" where
  "is_loopback_host h =
     (case h of
        Some (DomainHost d) \<Rightarrow> map to_ascii_lower d = ''localhost''
      | Some (IpHost loopback) \<Rightarrow> loopback
      | None \<Rightarrow> False)"

definition trim_slashes :: "string \<Rightarrow> string" where
  "trim_slashes s = rev (dropWhile (\<lambda>c. c = CHR ''/'') (rev s))"

definition normalize_base_url :: "'k channel_lib \<Rightarrow> string \<Rightarrow> transport_policy \<Rightarrow> string + string" where
  "normalize_base_url lib raw policy =
     bindR (of_optionR ''invalid_channel_base_url'' (cl_parse_url lib (trim raw))) (\<lambda>url.
     bindR (ensureR (url_username url = [] \<and> url_password url = None \<and> url_fragment url = None)
       ''invalid_channel_base_url'') (\<lambda>_.
     bindR (ensureR (\<not> list_ex (\<lambda>(key, _). sensitive_query_key key) (url_query url)) ''sensitive_channel_query'') (\<lambda>_.
     bindR (ensureR (url_scheme url = ''https''
         \<or> url_scheme url = ''http'' \<and> is_loopback_host (url_host_of url) \<and> allow_loopback_http policy)
       ''insecure_channel_base_url'') (\<lambda>_.
     let url = (if url_path url \<noteq> ''/'' then cl_set_path lib (trim_slashes (url_path url)) url else url)
     in Inr (trim_slashes (cl_url_text lib url))))))"

text \<open>\<open>windows(2)\<close>: neighbours with the same key.\<close>

definition neighbours_equal :: "('a \<Rightarrow> 'b) \<Rightarrow> 'a list \<Rightarrow> bool" where
  "neighbours_equal f xs = list_ex (\<lambda>(x, y). f x = f y) (zip xs (tl xs))"

definition operation_sort_key :: "'k channel_lib \<Rightarrow> 'k \<Rightarrow> string + string" where
  "operation_sort_key lib k =
     map_errR (\<lambda>_. ''invalid_operation_key'') (to_vec (cl_serde lib) (kl_json (cl_keys lib) k))"

definition supported_key :: "'k key_lib \<Rightarrow> 'k \<Rightarrow> bool" where
  "supported_key lib k \<longleftrightarrow>
     is_supported_generation_key lib k \<or> is_supported_count_key lib k \<or> is_supported_discovery_key lib k
     \<or> is_supported_image_key lib k \<or> is_supported_embedding_key lib k \<or> is_supported_compact_key lib k"

definition normalize_operations :: "'k channel_lib \<Rightarrow> 'k list \<Rightarrow> string + 'k list" where
  "normalize_operations lib ks =
     bindR (ensureR (ks \<noteq> [] \<and> length ks \<le> 64) ''invalid_channel_operations'') (\<lambda>_.
     bindR (ensureR (list_all (kl_consistent (cl_keys lib)) ks) ''invalid_operation_key'') (\<lambda>_.
     bindR (ensureR (list_all (supported_key (cl_keys lib)) ks) ''unsupported_channel_operation'') (\<lambda>_.
     bindR (mapR (\<lambda>k. bindR (operation_sort_key lib k) (\<lambda>s. Inr (s, k))) ks) (\<lambda>keyed.
     let keyed = sort_key fst keyed
     in bindR (ensureR (\<not> neighbours_equal fst keyed) ''duplicate_channel_operation'') (\<lambda>_. Inr (map snd keyed))))))"

definition normalize_model :: "channel_model \<Rightarrow> string + channel_model" where
  "normalize_model m =
     (let m = m\<lparr>cm_id := trim (cm_id m),
                cm_name := (case cm_name m of None \<Rightarrow> None | Some n \<Rightarrow> if trim n = [] then None else Some (trim n))\<rparr>
      in bindR (ensureR (cm_id m \<noteq> [] \<and> length (cm_id m) \<le> 256) ''invalid_model_id'') (\<lambda>_.
         bindR (ensureR (cm_context_window m \<noteq> Some 0 \<and> cm_max_output_tokens m \<noteq> Some 0) ''invalid_model_limits'') (\<lambda>_.
         Inr m)))"

definition normalize_models :: "channel_model list \<Rightarrow> string + channel_model list" where
  "normalize_models ms =
     bindR (mapR normalize_model ms) (\<lambda>ms.
     let ms = sort_key cm_id ms
     in bindR (ensureR (\<not> neighbours_equal cm_id ms) ''duplicate_model_id'') (\<lambda>_. Inr ms))"

definition normalize_catalog :: "'k list \<Rightarrow> 'k model_catalog \<Rightarrow> string + 'k model_catalog" where
  "normalize_catalog ks c =
     bindR (ensureR (mc_operation_key c \<in> set ks) ''catalog_operation_not_declared'') (\<lambda>_.
     bindR (ensureR (length (mc_models c) \<le> 1024 \<and> \<not> (mc_policy c = Allowlist \<and> mc_models c = []))
       ''invalid_model_catalog'') (\<lambda>_.
     bindR (normalize_models (mc_models c)) (\<lambda>ms. Inr (c\<lparr>mc_models := ms\<rparr>))))"

definition normalize_catalogs :: "'k channel_lib \<Rightarrow> 'k list \<Rightarrow> 'k model_catalog list \<Rightarrow> string + 'k model_catalog list" where
  "normalize_catalogs lib ks cs =
     bindR (ensureR (length cs \<le> 64) ''model_catalog_limit'') (\<lambda>_.
     bindR (mapR (normalize_catalog ks) cs) (\<lambda>cs.
     let cs = sort_key (\<lambda>c. case operation_sort_key lib (mc_operation_key c) of Inl _ \<Rightarrow> [] | Inr s \<Rightarrow> s) cs
     in bindR (ensureR (\<not> neighbours_equal mc_operation_key cs) ''duplicate_model_catalog'') (\<lambda>_. Inr cs)))"

definition capability_json :: "'k key_lib \<Rightarrow> 'k channel_capability \<Rightarrow> json" where
  "capability_json lib c =
     JObject (om_of_list
       [(''type'', JString (case c of HostedToolCapability _ _ \<Rightarrow> ''hosted_tool'' | ToolBasedCompact _ _ \<Rightarrow> ''tool_based_compact'')),
        (''operationKey'', kl_json lib (capability_key c)), (''hostedKind'', JString (capability_kind c))])"

fun with_kind :: "string \<Rightarrow> 'k channel_capability \<Rightarrow> 'k channel_capability" where
  "with_kind h (HostedToolCapability k _) = HostedToolCapability k h"
| "with_kind h (ToolBasedCompact k _) = ToolBasedCompact k h"

definition normalize_capability :: "'k list \<Rightarrow> 'k channel_capability \<Rightarrow> string + 'k channel_capability" where
  "normalize_capability ks c =
     bindR (ensureR (capability_key c \<in> set ks) ''capability_operation_not_declared'') (\<lambda>_.
     let c = with_kind (trim (capability_kind c)) c
     in bindR (ensureR (capability_kind c \<noteq> [] \<and> length (capability_kind c) \<le> 128) ''invalid_hosted_capability'') (\<lambda>_.
        Inr c))"

definition normalize_capabilities ::
  "'k channel_lib \<Rightarrow> 'k list \<Rightarrow> 'k channel_capability list \<Rightarrow> string + 'k channel_capability list" where
  "normalize_capabilities lib ks cs =
     bindR (ensureR (length cs \<le> 128) ''channel_capability_limit'') (\<lambda>_.
     bindR (mapR (normalize_capability ks) cs) (\<lambda>cs.
     bindR (mapR (\<lambda>c. bindR (map_errR (\<lambda>_. ''invalid_channel_capability'')
         (to_vec (cl_serde lib) (capability_json (cl_keys lib) c))) (\<lambda>s. Inr (s, c))) cs) (\<lambda>keyed.
     let keyed = sort_key fst keyed
     in bindR (ensureR (\<not> neighbours_equal fst keyed) ''duplicate_channel_capability'') (\<lambda>_. Inr (map snd keyed)))))"

definition validate_credential :: "'k channel_spec \<Rightarrow> string + unit" where
  "validate_credential spec =
     (case ch_credential spec of
        SecretCredential r \<Rightarrow> validate_secret_ref r
      | NoCredential \<Rightarrow> ensureR (allow_unauthenticated (ch_transport_policy spec)) ''unauthenticated_channel_denied'')"

definition normalize_channel_revision :: "'k channel_lib \<Rightarrow> 'k channel_spec \<Rightarrow> string + 'k channel_spec" where
  "normalize_channel_revision lib spec =
     bindR (ensureR (supports_operation_versions (ch_taxonomy_version spec) (ch_decoder_version spec))
       (version_error spec)) (\<lambda>_.
     bindR (normalize_base_url lib (ch_base_url spec) (ch_transport_policy spec)) (\<lambda>url.
     bindR (validate_credential spec) (\<lambda>_.
     bindR (normalize_operations lib (ch_operation_keys spec)) (\<lambda>ks.
     bindR (normalize_catalogs lib ks (ch_model_catalogs spec)) (\<lambda>cs.
     bindR (normalize_capabilities lib ks (ch_capabilities spec)) (\<lambda>caps.
     Inr (spec\<lparr>ch_base_url := url, ch_operation_keys := ks, ch_model_catalogs := cs, ch_capabilities := caps\<rparr>)))))))"

end
