(* ===== verification/Schema_Properties.thy ===== *)
theory Schema_Properties
  imports Schema
begin

text \<open>
  What the compiler of schemas accepts: the subschemas that the walk visits, with their depth, and
  the closed profile on each of them.
\<close>

section \<open>The visited subschemas\<close>

function (sequential) sub :: "json \<Rightarrow> nat \<Rightarrow> (nat \<times> json) list"
and sub_keys :: "(string \<times> json) list \<Rightarrow> nat \<Rightarrow> (nat \<times> json) list"
and sub_map :: "(string \<times> json) list \<Rightarrow> nat \<Rightarrow> (nat \<times> json) list"
and sub_list :: "json list \<Rightarrow> nat \<Rightarrow> (nat \<times> json) list" where
  "sub v d = (d, v) # (case v of JObject m \<Rightarrow> sub_keys m d | _ \<Rightarrow> [])"
| "sub_keys [] d = []"
| "sub_keys ((key, child) # m) d =
     (if key \<in> set map_keywords then (case child of JObject ss \<Rightarrow> sub_map ss d | _ \<Rightarrow> [])
      else if key \<in> set list_keywords then (case child of JArray ss \<Rightarrow> sub_list ss d | _ \<Rightarrow> [])
      else if key \<in> set single_keywords then sub child (d + 1) else [])
     @ sub_keys m d"
| "sub_map [] d = []"
| "sub_map ((name, s) # ss) d = sub s (d + 1) @ sub_map ss d"
| "sub_list [] d = []"
| "sub_list (s # ss) d = sub s (d + 1) @ sub_list ss d"
  by pat_completeness auto
termination
  by (relation "measure (case_sum
      (case_sum (\<lambda>(v, _). 2 * size v) (\<lambda>(m, _). 2 * size_list (size_prod (\<lambda>_. 0) size) m + 1))
      (case_sum (\<lambda>(m, _). 2 * size_list (size_prod (\<lambda>_. 0) size) m + 1) (\<lambda>(vs, _). 2 * size_list size vs + 1)))")
    auto

declare sub.simps [simp del]

text \<open>The profile on the keywords of one schema.\<close>

definition keyword_ok :: "json_schema_spec \<Rightarrow> string \<times> json \<Rightarrow> bool" where
  "keyword_ok spec kv \<longleftrightarrow>
     fst kv \<in> set ALLOWED
     \<and> (fst kv = ''$schema'' \<longrightarrow> snd kv = JString (dialect spec))
     \<and> (fst kv = ''$ref'' \<longrightarrow> (case snd kv of JString r \<Rightarrow> is_local_ref r | _ \<Rightarrow> False))
     \<and> (fst kv = ''pattern'' \<longrightarrow>
          (case snd kv of JString s \<Rightarrow> length s \<le> max_regex_bytes (schema_limits spec) | _ \<Rightarrow> True))
     \<and> (fst kv = ''format'' \<longrightarrow> (case snd kv of JString s \<Rightarrow> s \<in> set SUPPORTED_FORMATS | _ \<Rightarrow> False))"

fun schema_ok :: "json_schema_spec \<Rightarrow> json \<Rightarrow> bool" where
  "schema_ok spec (JObject m) = list_all (keyword_ok spec) m"
| "schema_ok spec (JBool _) = True"
| "schema_ok spec _ = False"

definition profile_ok :: "json_schema_spec \<Rightarrow> (nat \<times> json) list \<Rightarrow> bool" where
  "profile_ok spec ss \<longleftrightarrow>
     list_all (\<lambda>(d, s). d \<le> max_schema_depth (schema_limits spec) \<and> schema_ok spec s) ss"

text \<open>The references that the keywords of a schema contain.\<close>

definition key_refs :: "string \<times> json \<Rightarrow> string set" where
  "key_refs kv = (case snd kv of JString r \<Rightarrow> if fst kv = ''$ref'' then {r} else {} | _ \<Rightarrow> {})"

fun node_refs :: "json \<Rightarrow> string set" where
  "node_refs (JObject m) = \<Union> (key_refs ` set m)"
| "node_refs _ = {}"

definition refs_of :: "(nat \<times> json) list \<Rightarrow> string set" where
  "refs_of ss = \<Union> ((\<lambda>(_, s). node_refs s) ` set ss)"

lemma profile_ok_simps [simp]:
  "profile_ok spec []" "profile_ok spec (x # xs) \<longleftrightarrow>
     fst x \<le> max_schema_depth (schema_limits spec) \<and> schema_ok spec (snd x) \<and> profile_ok spec xs"
  "profile_ok spec (xs @ ys) \<longleftrightarrow> profile_ok spec xs \<and> profile_ok spec ys"
  by (auto simp: profile_ok_def)

lemma refs_of_simps [simp]:
  "refs_of [] = {}" "refs_of (x # xs) = node_refs (snd x) \<union> refs_of xs" "refs_of (xs @ ys) = refs_of xs \<union> refs_of ys"
  by (auto simp: refs_of_def)

lemma finite_refs [simp]: "finite (key_refs kv)" "finite (node_refs s)" "finite (refs_of ss)"
proof -
  show k: "finite (key_refs kv)" for kv by (simp add: key_refs_def split: json.splits)
  show n: "finite (node_refs s)" for s by (cases s) (simp_all add: k)
  show "finite (refs_of ss)" by (auto simp: refs_of_def n)
qed

section \<open>What a part of the walk demands\<close>

definition state_ok :: "json_schema_spec \<Rightarrow> walk_state \<Rightarrow> bool" where
  "state_ok spec st \<longleftrightarrow>
     ws_issues st = [] \<and> distinct (ws_refs st) \<and> length (ws_refs st) \<le> max_local_refs (schema_limits spec)
     \<and> ws_nodes st \<le> max_schema_nodes (schema_limits spec)"

text \<open>
  The part finds no issue exactly when \<open>g\<close> holds and its nodes and references still fit, and
  then it counts \<open>n\<close> nodes and adds the references \<open>rs\<close>.
\<close>

definition demands :: "json_schema_spec \<Rightarrow> (walk_state \<Rightarrow> walk_state) \<Rightarrow> bool \<Rightarrow> nat \<Rightarrow> string set \<Rightarrow> bool" where
  "demands spec f g n rs \<longleftrightarrow>
     (\<forall>st. (ws_issues (f st) = [] \<longrightarrow> ws_issues st = [])
       \<and> (state_ok spec st \<longrightarrow>
            (ws_issues (f st) = [] \<longleftrightarrow>
               g \<and> ws_nodes st + n \<le> max_schema_nodes (schema_limits spec)
               \<and> card (set (ws_refs st) \<union> rs) \<le> max_local_refs (schema_limits spec))
            \<and> (ws_issues (f st) = [] \<longrightarrow>
                 state_ok spec (f st) \<and> ws_nodes (f st) = ws_nodes st + n
                 \<and> set (ws_refs (f st)) = set (ws_refs st) \<union> rs)))"

lemma state_ok_card: "state_ok spec st \<Longrightarrow> card (set (ws_refs st)) \<le> max_local_refs (schema_limits spec)"
  by (simp add: state_ok_def distinct_card)

lemma demands_id: "demands spec (\<lambda>st. st) True 0 {}"
  unfolding demands_def by (auto simp: state_ok_def distinct_card)

lemma demands_push: "demands spec (push_issue code path) False n rs"
  unfolding demands_def by (simp add: push_issue_def)

lemma demands_seq:
  assumes f: "demands spec f g n rs" and f': "demands spec f' g' n' rs'" and fin: "finite rs" "finite rs'"
  shows "demands spec (\<lambda>st. f' (f st)) (g \<and> g') (n + n') (rs \<union> rs')"
  unfolding demands_def
proof (intro allI conjI impI)
  fix st
  have prior: "ws_issues (f' (f st)) = [] \<Longrightarrow> ws_issues (f st) = []" using f' unfolding demands_def by blast
  show "ws_issues (f' (f st)) = [] \<Longrightarrow> ws_issues st = []" using prior f unfolding demands_def by blast
  assume st: "state_ok spec st"
  let ?R = "max_local_refs (schema_limits spec)" and ?N = "max_schema_nodes (schema_limits spec)"
  have one: "ws_issues (f st) = [] \<longleftrightarrow> g \<and> ws_nodes st + n \<le> ?N \<and> card (set (ws_refs st) \<union> rs) \<le> ?R"
    and step: "ws_issues (f st) = [] \<Longrightarrow>
      state_ok spec (f st) \<and> ws_nodes (f st) = ws_nodes st + n \<and> set (ws_refs (f st)) = set (ws_refs st) \<union> rs"
    using f st unfolding demands_def by blast+
  have two: "(ws_issues (f' (f st)) = [] \<longleftrightarrow>
        g' \<and> ws_nodes (f st) + n' \<le> ?N \<and> card (set (ws_refs (f st)) \<union> rs') \<le> ?R)
      \<and> (ws_issues (f' (f st)) = [] \<longrightarrow> state_ok spec (f' (f st)) \<and> ws_nodes (f' (f st)) = ws_nodes (f st) + n'
          \<and> set (ws_refs (f' (f st))) = set (ws_refs (f st)) \<union> rs')" if "ws_issues (f st) = []"
    using f' step [OF that] unfolding demands_def by blast
  have card: "card (set (ws_refs st) \<union> rs) \<le> card (set (ws_refs st) \<union> (rs \<union> rs'))"
    by (rule card_mono) (use fin in auto)
  show "ws_issues (f' (f st)) = [] \<longleftrightarrow>
      (g \<and> g') \<and> ws_nodes st + (n + n') \<le> ?N \<and> card (set (ws_refs st) \<union> (rs \<union> rs')) \<le> ?R"
  proof (cases "ws_issues (f st) = []")
    case True
    then show ?thesis using one two [OF True] step [OF True] by (auto simp: Un_assoc add.assoc)
  next
    case False
    then show ?thesis using one prior card by auto
  qed
  assume "ws_issues (f' (f st)) = []"
  with prior have ok: "ws_issues (f st) = []" by blast
  show "state_ok spec (f' (f st))" "ws_nodes (f' (f st)) = ws_nodes st + (n + n')"
    "set (ws_refs (f' (f st))) = set (ws_refs st) \<union> (rs \<union> rs')"
    using two [OF ok] step [OF ok] \<open>ws_issues (f' (f st)) = []\<close> by auto
qed

lemma demands_cong: "demands spec f g n rs \<Longrightarrow> f = f' \<Longrightarrow> g = g' \<Longrightarrow> n = n' \<Longrightarrow> rs = rs' \<Longrightarrow> demands spec f' g' n' rs'"
  by simp

lemma length_insert_ref: "distinct rs \<Longrightarrow> length (insert_ref r rs) = card (insert r (set rs))"
  by (simp add: insert_ref_def distinct_card insert_absorb)

lemma set_insert_ref: "set (insert_ref r rs) = insert r (set rs)" "distinct rs \<Longrightarrow> distinct (insert_ref r rs)"
  by (auto simp: insert_ref_def set_insort_key distinct_insort)

lemma check_ref_demands:
  "demands spec (check_ref v path spec) (case v of JString r \<Rightarrow> is_local_ref r | _ \<Rightarrow> False) 0
     (case v of JString r \<Rightarrow> {r} | _ \<Rightarrow> {})"
proof (cases v)
  case (JString r)
  then show ?thesis
    unfolding demands_def check_ref_def
    by (auto simp: Let_def push_issue_def state_ok_def length_insert_ref set_insert_ref distinct_card)
qed (simp_all add: demands_def check_ref_def push_issue_def)

lemma check_keyword_demands:
  assumes "key \<in> set ALLOWED"
  shows "demands spec (check_keyword key child path spec) (keyword_ok spec (key, child)) 0 (key_refs (key, child))"
proof (cases "key = ''$ref''")
  case True
  then have "check_keyword key child path spec = check_ref child path spec"
    by (rule_tac ext) (simp add: check_keyword_def)
  moreover have "keyword_ok spec (key, child) = (case child of JString r \<Rightarrow> is_local_ref r | _ \<Rightarrow> False)"
    "key_refs (key, child) = (case child of JString r \<Rightarrow> {r} | _ \<Rightarrow> {})"
    using assms True by (auto simp: keyword_ok_def key_refs_def split: json.splits)
  ultimately show ?thesis using check_ref_demands by simp
next
  case False
  then have r: "key_refs (key, child) = {}" by (simp add: key_refs_def split: json.splits)
  consider "key = ''$schema''" | "key = ''pattern''" | "key = ''format''"
    | "key \<noteq> ''$schema''" "key \<noteq> ''pattern''" "key \<noteq> ''format''" by blast
  then have "check_keyword key child path spec = (\<lambda>st. st) \<and> keyword_ok spec (key, child)
      \<or> (\<exists>code. check_keyword key child path spec = push_issue code path) \<and> \<not> keyword_ok spec (key, child)"
  proof cases
    case 1
    with assms show ?thesis
      by (cases "child = JString (dialect spec)") (auto simp: check_keyword_def keyword_ok_def fun_eq_iff)
  next
    case 2
    with assms show ?thesis
      by (cases "case child of JString s \<Rightarrow> length s > max_regex_bytes (schema_limits spec) | _ \<Rightarrow> False")
        (auto simp: check_keyword_def keyword_ok_def fun_eq_iff split: json.splits)
  next
    case 3
    with assms show ?thesis
      by (cases "case child of JString s \<Rightarrow> s \<in> set SUPPORTED_FORMATS | _ \<Rightarrow> False")
        (auto simp: check_keyword_def keyword_ok_def fun_eq_iff split: json.splits)
  next
    case 4
    with assms False show ?thesis by (simp add: check_keyword_def keyword_ok_def fun_eq_iff)
  qed
  then show ?thesis using demands_id [of spec] demands_push [of spec _ path 0 "{}"] r by auto
qed

lemma demands_node:
  assumes f: "demands spec f g n rs"
  shows "demands spec (\<lambda>st0. let st = st0\<lparr>ws_nodes := ws_nodes st0 + 1\<rparr> in
      if ws_nodes st > max_schema_nodes (schema_limits spec) \<or> d > max_schema_depth (schema_limits spec)
      then push_issue code path st else f st) (d \<le> max_schema_depth (schema_limits spec) \<and> g) (Suc n) rs"
  unfolding demands_def
proof (intro allI)
  fix st0 :: walk_state
  let ?st = "st0\<lparr>ws_nodes := ws_nodes st0 + 1\<rparr>"
  let ?F = "\<lambda>st0. let st = st0\<lparr>ws_nodes := ws_nodes st0 + 1\<rparr> in
      if ws_nodes st > max_schema_nodes (schema_limits spec) \<or> d > max_schema_depth (schema_limits spec)
      then push_issue code path st else f st"
  show "(ws_issues (?F st0) = [] \<longrightarrow> ws_issues st0 = []) \<and> (state_ok spec st0 \<longrightarrow>
      (ws_issues (?F st0) = [] \<longleftrightarrow>
         (d \<le> max_schema_depth (schema_limits spec) \<and> g) \<and> ws_nodes st0 + Suc n \<le> max_schema_nodes (schema_limits spec)
         \<and> card (set (ws_refs st0) \<union> rs) \<le> max_local_refs (schema_limits spec))
      \<and> (ws_issues (?F st0) = [] \<longrightarrow> state_ok spec (?F st0) \<and> ws_nodes (?F st0) = ws_nodes st0 + Suc n
          \<and> set (ws_refs (?F st0)) = set (ws_refs st0) \<union> rs))"
  proof (cases "ws_nodes ?st > max_schema_nodes (schema_limits spec) \<or> d > max_schema_depth (schema_limits spec)")
    case True
    then have "?F st0 = push_issue code path ?st" by (simp add: Let_def)
    then show ?thesis using True by (auto simp: push_issue_def)
  next
    case False
    then have F: "?F st0 = f ?st" by (simp add: Let_def)
    have "state_ok spec st0 \<longrightarrow> state_ok spec ?st" using False by (simp add: state_ok_def)
    moreover have "ws_issues ?st = ws_issues st0" "ws_refs ?st = ws_refs st0" "ws_nodes ?st = Suc (ws_nodes st0)"
      by simp_all
    ultimately show ?thesis
      using f [unfolded demands_def, rule_format, of ?st] False unfolding F by (auto simp del: walk_state.simps)
  qed
qed

definition node_body :: "json \<Rightarrow> string \<Rightarrow> nat \<Rightarrow> json_schema_spec \<Rightarrow> walk_state \<Rightarrow> walk_state" where
  "node_body v path d spec =
     (case v of JObject m \<Rightarrow> walk_keys m path d spec | JBool _ \<Rightarrow> (\<lambda>st. st)
      | _ \<Rightarrow> push_issue ''schema_must_be_object_or_boolean'' path)"

lemma walk_node:
  "walk v path d spec = (\<lambda>st0. let st = st0\<lparr>ws_nodes := ws_nodes st0 + 1\<rparr> in
      if ws_nodes st > max_schema_nodes (schema_limits spec) \<or> d > max_schema_depth (schema_limits spec)
      then push_issue ''schema_structure_limit_exceeded'' path st else node_body v path d spec st)"
  by (rule ext) (simp add: walk.simps node_body_def Let_def split: json.splits)

lemma keyword_kinds:
  assumes "key \<in> set map_keywords \<or> key \<in> set list_keywords \<or> key \<in> set single_keywords"
  shows "keyword_ok spec (key, child)" "key_refs (key, child) = {}"
  using assms
  by (auto simp: keyword_ok_def key_refs_def map_keywords_def list_keywords_def single_keywords_def ALLOWED_def
      split: json.splits)

lemma keyword_kinds_allowed:
  "key \<notin> set ALLOWED \<Longrightarrow> key \<notin> set map_keywords \<and> key \<notin> set list_keywords \<and> key \<notin> set single_keywords"
  by (auto simp: map_keywords_def list_keywords_def single_keywords_def ALLOWED_def)

lemma walk_loops:
  "walk_keys [] path d spec = (\<lambda>st. st)" "walk_map [] path d spec = (\<lambda>st. st)"
  "walk_list [] index path d spec = (\<lambda>st. st)"
  "walk_map ((name, s) # ss) path d spec =
     (\<lambda>st. walk_map ss path d spec (walk s (path @ ''/'' @ schema_escape name) (d + 1) spec st))"
  "walk_list (s # vs) index path d spec =
     (\<lambda>st. walk_list vs (index + 1) path d spec (walk s (path @ ''/'' @ show_nat index) (d + 1) spec st))"
  by (rule ext, simp)+

lemma walk_demands:
  "\<And>path. demands spec (walk v path d spec) (profile_ok spec (sub v d)) (length (sub v d)) (refs_of (sub v d))"
  "\<And>path. demands spec (walk_keys m path d spec)
     (list_all (keyword_ok spec) m \<and> profile_ok spec (sub_keys m d)) (length (sub_keys m d))
     (\<Union> (key_refs ` set m) \<union> refs_of (sub_keys m d))"
  "\<And>path. demands spec (walk_map m path d spec) (profile_ok spec (sub_map m d)) (length (sub_map m d)) (refs_of (sub_map m d))"
  "\<And>path index. demands spec (walk_list vs index path d spec) (profile_ok spec (sub_list vs d)) (length (sub_list vs d))
     (refs_of (sub_list vs d))"
proof (induction v d and m d and m d and vs d rule: sub_sub_keys_sub_map_sub_list.induct)
  case (1 v d)
  have "demands spec (node_body v path d spec) (schema_ok spec v \<and> profile_ok spec (tl (sub v d)))
      (length (tl (sub v d))) (node_refs v \<union> refs_of (tl (sub v d)))"
  proof (cases v)
    case (JObject m)
    then show ?thesis using "1.IH" [OF JObject] by (simp add: node_body_def sub.simps)
  qed (use demands_id demands_push in \<open>simp_all add: node_body_def sub.simps\<close>)
  from demands_node [OF this] show ?case
    unfolding walk_node by (rule demands_cong) (auto simp: sub.simps)
next
  case (3 key child m d)
  let ?path = "path @ ''/'' @ schema_escape key"
  let ?ss = "if key \<in> set map_keywords then (case child of JObject ss \<Rightarrow> sub_map ss d | _ \<Rightarrow> [])
      else if key \<in> set list_keywords then (case child of JArray ss \<Rightarrow> sub_list ss d | _ \<Rightarrow> [])
      else if key \<in> set single_keywords then sub child (d + 1) else []"
  let ?f = "\<lambda>st. if key \<notin> set ALLOWED then push_issue ''unsupported_schema_keyword'' ?path st
         else if key \<in> set map_keywords
         then (case child of JObject ss \<Rightarrow> walk_map ss ?path d spec st | _ \<Rightarrow> st)
         else if key \<in> set list_keywords
         then (case child of JArray ss \<Rightarrow> walk_list ss 0 ?path d spec st | _ \<Rightarrow> st)
         else if key \<in> set single_keywords then walk child ?path (d + 1) spec st
         else check_keyword key child ?path spec st"
  have "demands spec ?f (keyword_ok spec (key, child) \<and> profile_ok spec ?ss) (length ?ss)
      (key_refs (key, child) \<union> refs_of ?ss)"
  proof (cases "key \<in> set ALLOWED")
    case False
    then show ?thesis
      using demands_push [of spec "''unsupported_schema_keyword''" ?path] keyword_kinds_allowed [OF False]
      by (simp add: keyword_ok_def)
  next
    case allowed: True
    show ?thesis
    proof (cases "key \<in> set map_keywords \<or> key \<in> set list_keywords \<or> key \<in> set single_keywords")
      case True
      note kinds = keyword_kinds(1) [OF True, of spec child] keyword_kinds(2) [OF True, of child]
      consider "key \<in> set map_keywords" | "key \<notin> set map_keywords" "key \<in> set list_keywords"
        | "key \<notin> set map_keywords" "key \<notin> set list_keywords" "key \<in> set single_keywords"
        using True by blast
      then show ?thesis
      proof cases
        case 1
        then show ?thesis
          using allowed kinds demands_id [of spec] "3.IH"(1) by (cases child) simp_all
      next
        case 2
        then show ?thesis
          using allowed kinds demands_id [of spec] "3.IH"(2) by (cases child) simp_all
      next
        case 3
        then show ?thesis using allowed kinds "3.IH"(3) by simp
      qed
    next
      case False
      then show ?thesis using allowed check_keyword_demands [OF allowed] by simp
    qed
  qed
  from demands_seq [OF this "3.IH"(4)] show ?case
  proof (rule demands_cong)
    show "(\<lambda>st. walk_keys m path d spec (?f st)) = walk_keys ((key, child) # m) path d spec"
      by (rule ext) (simp only: walk_keys.simps Let_def)
  qed (simp_all only: sub_keys.simps list.pred_inject profile_ok_simps length_append refs_of_simps list.set image_insert
      Union_insert simp_thms conj_ac Un_ac finite_refs finite_Un finite_UN finite_set ball_triv)
next
  case (5 name s ss d)
  show ?case
    unfolding walk_loops sub_map.simps profile_ok_simps length_append refs_of_simps
    by (rule demands_seq [OF "5.IH"(1) "5.IH"(2)]) simp_all
next
  case (7 s ss d)
  show ?case
    unfolding walk_loops sub_list.simps profile_ok_simps length_append refs_of_simps
    by (rule demands_seq [OF "7.IH"(1) "7.IH"(2)]) simp_all
qed (simp_all add: walk_loops demands_id)

section \<open>The profile\<close>

text \<open>A document with one of each of the keywords that the walk treats apart.\<close>

definition closed_document :: json where
  "closed_document =
     JObject [(''$defs'', JObject [(''name'', JObject [(''type'', JString ''string''), (''pattern'', JString ''^a'')])]),
       (''anyOf'', JArray [JBool True, JObject [(''format'', JString ''date'')]]),
       (''items'', JObject [(''$ref'', JString ''#/$defs/name'')])]"

definition plain_schema :: "json \<Rightarrow> json_schema_spec" where
  "plain_schema doc =
     \<lparr>schema_version = 1, dialect = DIALECT_2020_12, validation_profile_version = 1, format_policy_version = 1,
      document = doc, schema_limits = default_schema_limits\<rparr>"

text \<open>
  The walk over a document finds nothing wrong in it exactly when every subschema that it visits is a
  boolean or an object of the closed profile (known keywords, the declared dialect, local references,
  short patterns and supported formats), none lies too deep, and neither the subschemas nor the
  different references are too many.  This says what the code accepts and not what it should: it does
  not visit a subschema below \<open>additionalProperties\<close>.
\<close>
theorem schema_profile_exact:
  "ws_issues (walk_document spec) = [] \<longleftrightarrow>
     profile_ok spec (sub (document spec) 0)
     \<and> length (sub (document spec) 0) \<le> max_schema_nodes (schema_limits spec)
     \<and> card (refs_of (sub (document spec) 0)) \<le> max_local_refs (schema_limits spec)"
proof -
  have "state_ok spec start_walk" "ws_nodes start_walk = 0" "ws_refs start_walk = []"
    by (simp_all add: state_ok_def start_walk_def)
  with walk_demands(1) [of spec "document spec" "[]" 0, unfolded demands_def, rule_format, of start_walk]
  show ?thesis by (simp add: walk_document_def)
qed

lemma closed_document_accepted: "ws_issues (walk_document (plain_schema closed_document)) = []"
  by code_simp

text \<open>
  What the walk does not visit it does not check: a remote reference and a misspelt keyword below
  \<open>additionalProperties\<close> are accepted.
\<close>

lemma additional_properties_unchecked:
  "ws_issues (walk_document (plain_schema (JObject
     [(''additionalProperties'', JObject [(''$ref'', JString ''https://example.com/x''), (''typo'', JNull)])]))) = []"
  by code_simp

text \<open>The limits of a specification are its own: the compiler compares them with no baseline.\<close>

lemma wide_limits_accepted:
  "ws_issues (walk_document ((plain_schema (JBool True))\<lparr>schema_limits := default_schema_limits\<lparr>max_schema_depth := 10 ^ 9\<rparr>\<rparr>)) = []"
  "\<not> fits_within (default_schema_limits\<lparr>max_schema_depth := 10 ^ 9\<rparr>) default_schema_limits"
  by code_simp+

section \<open>Instances\<close>

text \<open>The limits on an instance, declaratively.\<close>

fun instance_ok :: "json_schema_spec \<Rightarrow> json \<Rightarrow> nat \<Rightarrow> bool" where
  "instance_ok spec v d \<longleftrightarrow>
     d \<le> max_instance_depth (schema_limits spec)
     \<and> (case v of
          JString s \<Rightarrow> length s \<le> max_string_bytes (schema_limits spec)
        | JNumber n \<Rightarrow> validate_number_limits spec n = Inr ()
        | JArray vs \<Rightarrow> length vs \<le> max_collection_items (schema_limits spec) \<and> list_all (\<lambda>w. instance_ok spec w (d + 1)) vs
        | JObject m \<Rightarrow> length m \<le> max_collection_items (schema_limits spec)
            \<and> list_all (\<lambda>(_, w). instance_ok spec w (d + 1)) m
        | _ \<Rightarrow> True)"

declare instance_ok.simps [simp del]

lemma mapR_unit: "(\<exists>us. mapR f xs = Inr us) \<longleftrightarrow> list_all (\<lambda>x. f x = Inr ()) xs"
  by (induction xs) (auto simp: bindR_eq_Inr)

lemma validate_instance_limits_exact: "validate_instance_limits spec v d = Inr () \<longleftrightarrow> instance_ok spec v d"
proof (induction spec v d rule: validate_instance_limits.induct)
  case (1 spec v d)
  show ?case
  proof (cases v)
    case (JArray vs)
    then show ?thesis
      using "1.IH"(1) [OF _ JArray] mapR_unit [of "\<lambda>w. validate_instance_limits spec w (d + 1)" vs]
      by (auto simp: JArray validate_instance_limits.simps [of spec "JArray vs" d] instance_ok.simps [of spec "JArray vs" d]
        bindR_eq_Inr list_all_iff)
  next
    case (JObject m)
    then show ?thesis
      using "1.IH"(2) [OF _ JObject] mapR_unit [of "\<lambda>(_, w). validate_instance_limits spec w (d + 1)" m]
      by (auto simp: JObject validate_instance_limits.simps [of spec "JObject m" d] instance_ok.simps [of spec "JObject m" d]
        bindR_eq_Inr list_all_iff)
  qed (simp_all add: validate_instance_limits.simps [of spec _ d] instance_ok.simps [of spec _ d])
qed


text \<open>A validator that wants an array.\<close>

definition array_env :: schema_env where
  "array_env =
     \<lparr>se_serde = simple_serde, se_sha = (\<lambda>_. ''00''),
      se_build = (\<lambda>_. Inr (\<lambda>v. case v of JArray _ \<Rightarrow> [] | _ \<Rightarrow> [([], ''not an array'')])), se_version = ''0.1.0''\<rparr>"

text \<open>The steps of the compilation, each evaluated on its own.\<close>

lemma array_source: "\<not> isl (to_vec simple_serde (spec_json (plain_schema closed_document)))"
  by code_simp

lemma array_source_length: "length (projr (to_vec simple_serde (spec_json (plain_schema closed_document)))) \<le> 1000"
  by code_simp

lemma array_issues: "schema_issues array_env (plain_schema closed_document) = []"
  by code_simp

lemma array_identity: "\<not> isl (to_vec simple_serde (JObject (om_of_list (identity_fields (plain_schema closed_document)))))"
  by code_simp

lemma plain_schema_simps:
  "document (plain_schema d) = d" "schema_limits (plain_schema d) = default_schema_limits"
  "max_schema_bytes default_schema_limits = 262144" "max_instance_bytes default_schema_limits = 16777216"
  by (simp_all add: plain_schema_def default_schema_limits_def)

lemma array_payload:
  "ws_nodes (walk_document (plain_schema closed_document)) = 5"
  "ws_refs (walk_document (plain_schema closed_document)) = [''#/$defs/name'']"
  "\<not> isl (to_vec simple_serde (JObject (om_of_list
       [(''payloadFormatVersion'', json_nat 1), (''schemaHash'', JString ''sha256:00''),
        (''localRefs'', JArray (map JString [''#/$defs/name''])), (''schemaNodes'', json_nat 5)])))"
  by code_simp+

lemma array_instance:
  "validate_instance_limits (plain_schema closed_document) (JArray [JNumber ''1'']) 0 = Inr ()"
  "to_vec simple_serde (JArray [JNumber ''1'']) = Inr ''[1]''"
  by code_simp+

lemma not_isl_Inr: "\<not> isl r \<Longrightarrow> r = Inr (projr r)"
  by (cases r) auto

lemma compile_schema_steps:
  assumes "to_vec (se_serde env) (spec_json spec) = Inr source" "schema_issues env spec = []"
    "length source \<le> max_schema_bytes (schema_limits spec)"
    "to_vec (se_serde env) (JObject (om_of_list (identity_fields spec))) = Inr doc"
    "ws_refs (walk_document spec) = refs" "ws_nodes (walk_document spec) = n"
    "to_vec (se_serde env) (JObject (om_of_list
       [(''payloadFormatVersion'', json_nat 1), (''schemaHash'', JString (hash_bytes (se_sha env) source)),
        (''localRefs'', JArray (map JString refs)), (''schemaNodes'', json_nat n)])) = Inr payload"
  shows "\<exists>c. compile_schema env spec = Inr c"
  unfolding compile_schema_def canonical_hash_def assms(1,2,4,5,6) bindR_simps Let_def
  using assms(3,7) by simp

lemma array_compiles: "\<exists>c. compile_schema array_env (plain_schema closed_document) = Inr c"
proof (rule compile_schema_steps)
  have env: "se_serde array_env = simple_serde" "se_sha array_env = (\<lambda>_. ''00'')" by (simp_all add: array_env_def)
  show "length (projr (to_vec simple_serde (spec_json (plain_schema closed_document))))
      \<le> max_schema_bytes (schema_limits (plain_schema closed_document))"
    unfolding plain_schema_simps using array_source_length by linarith
  show "to_vec (se_serde array_env) (spec_json (plain_schema closed_document))
      = Inr (projr (to_vec simple_serde (spec_json (plain_schema closed_document))))"
    unfolding env by (rule not_isl_Inr [OF array_source])
  show "to_vec (se_serde array_env) (JObject (om_of_list (identity_fields (plain_schema closed_document))))
      = Inr (projr (to_vec simple_serde (JObject (om_of_list (identity_fields (plain_schema closed_document))))))"
    unfolding env by (rule not_isl_Inr [OF array_identity])
  have "hash_bytes (se_sha array_env) source = ''sha256:00''" for source by (simp add: env hash_bytes_def)
  then show "to_vec (se_serde array_env) (JObject (om_of_list
       [(''payloadFormatVersion'', json_nat 1),
        (''schemaHash'', JString (hash_bytes (se_sha array_env)
           (projr (to_vec simple_serde (spec_json (plain_schema closed_document)))))),
        (''localRefs'', JArray (map JString [''#/$defs/name''])), (''schemaNodes'', json_nat 5)]))
      = Inr (projr (to_vec simple_serde (JObject (om_of_list
       [(''payloadFormatVersion'', json_nat 1), (''schemaHash'', JString ''sha256:00''),
        (''localRefs'', JArray (map JString [''#/$defs/name''])), (''schemaNodes'', json_nat 5)]))))"
    unfolding env by (metis not_isl_Inr [OF array_payload(3)])
qed (rule array_issues array_payload)+

lemma array_validates: "validate_schema array_env (plain_schema closed_document) (JArray [JNumber ''1'']) = Inr ()"
proof -
  obtain c where "compile_schema array_env (plain_schema closed_document) = Inr c" using array_compiles by blast
  then show ?thesis
    using array_instance by (simp add: validate_schema_def array_env_def plain_schema_simps Let_def)
qed


end
