(* ===== verification/Tool_Registry.thy ===== *)
theory Tool_Registry
  imports Channel Schema_Properties
begin

text \<open>
  The tool registry of \<open>crates/core/src/llm/tool_registry.rs\<close> and
  \<open>tool_registry_validation.rs\<close>: descriptors, their digests, the snapshots that pin them and the
  grants that use them.
\<close>

section \<open>The code\<close>

record tool_env =
  tv_schema :: schema_env
  tv_encode_descriptor :: "tool_descriptor \<Rightarrow> json"
  tv_encode_entries :: "registry_entry list \<Rightarrow> json"
    \<comment> \<open>the serialisations that \<open>serde\<close> derives\<close>

definition valid_name :: "string \<Rightarrow> bool" where
  "valid_name v \<longleftrightarrow> v \<noteq> [] \<and> length v \<le> 128 \<and> list_all name_char v"

fun scope_kind_key :: "tool_scope_kind \<Rightarrow> nat" where
  "scope_kind_key ScopeMemoryRead = 0"
| "scope_kind_key ScopeMemoryProposal = 1"
| "scope_kind_key ScopeStatePatch = 2"
| "scope_kind_key ScopeArtifactRead = 3"
| "scope_kind_key ScopeArtifactWrite = 4"
| "scope_kind_key ScopeNetwork = 5"
| "scope_kind_key ScopeLocalNetwork = 6"

definition valid_tool_limits :: "tool_limits \<Rightarrow> bool" where
  "valid_tool_limits l \<longleftrightarrow>
     0 < tl_timeout_ms l \<and> tl_timeout_ms l \<le> 60 * 60 * 1000
     \<and> 0 < tl_max_input_bytes l \<and> tl_max_input_bytes l \<le> 16 * 1024 * 1024
     \<and> 0 < tl_max_llm_result_bytes l \<and> tl_max_llm_result_bytes l \<le> 16 * 1024 * 1024
     \<and> 0 < tl_max_artifact_bytes l \<and> tl_max_artifact_bytes l \<le> 1024 * 1024 * 1024"

definition compile_tool_descriptor :: "tool_env \<Rightarrow> tool_descriptor \<Rightarrow> string + schema_compilation list" where
  "compile_tool_descriptor env d =
     bindR (ensureR (valid_name (tool_id d) \<and> valid_name (tool_version d) \<and> valid_name (tool_name d)
         \<and> (case tool_description d of None \<Rightarrow> True | Some t \<Rightarrow> length t \<le> 4096)
         \<and> trim (te_operation_key (tool_effect_spec d)) \<noteq> [] \<and> length (te_operation_key (tool_effect_spec d)) \<le> 256
         \<and> valid_tool_limits (tool_limits_of d)) ''tool_descriptor_invalid'') (\<lambda>_.
     bindR (ensureR (list_all (\<lambda>r. trim (req_scope r) \<noteq> [] \<and> length (req_scope r) \<le> 256) (tool_required_scopes d)
         \<and> distinct (map (\<lambda>r. (scope_kind_key (req_kind r), req_scope r)) (tool_required_scopes d)))
       ''tool_descriptor_scope_invalid'') (\<lambda>_.
     bindR (map_errR (\<lambda>_. ''tool_input_schema_invalid'') (compile_schema (tv_schema env) (tool_input_schema d))) (\<lambda>c.
     case tool_binding_schema d of
       None \<Rightarrow> Inr [c]
     | Some binding \<Rightarrow>
         bindR (map_errR (\<lambda>_. ''tool_binding_schema_invalid'') (compile_schema (tv_schema env) binding)) (\<lambda>b.
         Inr [c, b]))))"

definition entry_of :: "resolved_tool \<Rightarrow> registry_entry" where
  "entry_of r =
     \<lparr>re_tool_id = tool_id (rt_descriptor r), re_version = tool_version (rt_descriptor r),
      re_descriptor_digest = rt_descriptor_digest r, re_schema_digests = rt_schema_digests r,
      re_implementation_digest = rt_implementation_digest r\<rparr>"

definition entry_key :: "registry_entry \<Rightarrow> string \<times> string" where
  "entry_key e = (re_tool_id e, re_version e)"

definition build_tool_registry_snapshot :: "tool_env \<Rightarrow> resolved_tool list \<Rightarrow> string + registry_snapshot" where
  "build_tool_registry_snapshot env rs =
     (let entries = sort_key entry_key (map entry_of rs)
      in bindR (ensureR (\<not> neighbours_equal entry_key entries) ''tool_registry_duplicate'') (\<lambda>_.
         bindR (map_errR (\<lambda>_. ''tool_registry_digest_failed'')
             (canonical_hash (se_serde (tv_schema env)) (se_sha (tv_schema env)) (tv_encode_entries env entries))) (\<lambda>digest.
         Inr \<lparr>rg_revision = ''tool-registry-v1:'' @ digest, rg_entries = entries\<rparr>)))"

definition descriptor_digest :: "tool_env \<Rightarrow> tool_descriptor \<Rightarrow> domain_error + string" where
  "descriptor_digest env d =
     canonical_hash (se_serde (tv_schema env)) (se_sha (tv_schema env)) (tv_encode_descriptor env d)"

definition validate_resolved_tool_descriptor :: "tool_env \<Rightarrow> resolved_tool \<Rightarrow> string + unit" where
  "validate_resolved_tool_descriptor env r =
     bindR (compile_tool_descriptor env (rt_descriptor r)) (\<lambda>cs.
     bindR (map_errR (\<lambda>_. ''tool_descriptor_invalid'') (descriptor_digest env (rt_descriptor r))) (\<lambda>digest.
     ensureR (rt_descriptor_digest r = digest \<and> rt_schema_digests r = map compiled_payload_hash cs
       \<and> rt_implementation_digest r \<noteq> [] \<and> length (rt_implementation_digest r) \<le> 256
       \<and> valid_name (rt_executor_key r)) ''tool_descriptor_pin_mismatch''))"

definition validate_tool_grant :: "tool_env \<Rightarrow> tool_grant \<Rightarrow> resolved_tool \<Rightarrow> string + unit" where
  "validate_tool_grant env g r =
     bindR (validate_resolved_tool_descriptor env r) (\<lambda>_.
     let d = rt_descriptor r
     in bindR (ensureR (tool_id d = tg_tool_id g \<and> tool_version d = tg_version g) ''tool_grant_identity_mismatch'') (\<lambda>_.
        bindR (case tool_binding_schema d of
                 Some spec \<Rightarrow> map_errR (\<lambda>_. ''tool_binding_config_invalid'')
                   (validate_schema (tv_schema env) spec (JObject (tg_constraints g)))
               | None \<Rightarrow> ensureR (tg_constraints g = []) ''tool_binding_config_unsupported'') (\<lambda>_.
        ensureR (list_all (\<lambda>r. list_ex (\<lambda>a. sg_kind a = req_kind r \<and> sg_scope a = req_scope r) (tg_scopes g))
            (tool_required_scopes d)) ''tool_required_scope_missing'')))"

section \<open>Grants\<close>

text \<open>
  What an accepted grant guarantees: it names the descriptor it is resolved to, the descriptor's
  digest and schema digests are the ones of its content, the configuration satisfies the schema of
  the descriptor, and the grant has every scope that the descriptor requires.
\<close>

definition grant_sound :: "tool_env \<Rightarrow> tool_grant \<Rightarrow> resolved_tool \<Rightarrow> bool" where
  "grant_sound env g r \<longleftrightarrow>
     tool_id (rt_descriptor r) = tg_tool_id g \<and> tool_version (rt_descriptor r) = tg_version g
     \<and> descriptor_digest env (rt_descriptor r) = Inr (rt_descriptor_digest r)
     \<and> (\<exists>cs. compile_tool_descriptor env (rt_descriptor r) = Inr cs \<and> rt_schema_digests r = map compiled_payload_hash cs)
     \<and> (\<forall>q \<in> set (tool_required_scopes (rt_descriptor r)).
          (req_kind q, req_scope q) \<in> (\<lambda>a. (sg_kind a, sg_scope a)) ` set (tg_scopes g))
     \<and> (case tool_binding_schema (rt_descriptor r) of
          None \<Rightarrow> tg_constraints g = []
        | Some spec \<Rightarrow> validate_schema (tv_schema env) spec (JObject (tg_constraints g)) = Inr ())"

lemma validate_tool_grant_sound:
  assumes "validate_tool_grant env g r = Inr ()"
  shows "grant_sound env g r"
proof -
  let ?d = "rt_descriptor r"
  obtain cs digest where "compile_tool_descriptor env ?d = Inr cs" "descriptor_digest env ?d = Inr digest"
    "rt_descriptor_digest r = digest" "rt_schema_digests r = map compiled_payload_hash cs"
    using assms by (cases "descriptor_digest env ?d")
      (auto simp: validate_tool_grant_def validate_resolved_tool_descriptor_def bindR_eq_Inr map_errR_def)
  moreover have "tool_id ?d = tg_tool_id g" "tool_version ?d = tg_version g"
    using assms by (auto simp: validate_tool_grant_def bindR_eq_Inr Let_def)
  moreover have "\<forall>q \<in> set (tool_required_scopes ?d).
      (req_kind q, req_scope q) \<in> (\<lambda>a. (sg_kind a, sg_scope a)) ` set (tg_scopes g)"
    using assms by (force simp: validate_tool_grant_def bindR_eq_Inr Let_def list_all_iff list_ex_iff)
  moreover have "case tool_binding_schema ?d of
      None \<Rightarrow> tg_constraints g = []
    | Some spec \<Rightarrow> validate_schema (tv_schema env) spec (JObject (tg_constraints g)) = Inr ()"
    using assms by (cases "tool_binding_schema ?d")
      (auto simp: validate_tool_grant_def bindR_eq_Inr Let_def map_errR_def split: sum.splits)
  ultimately show ?thesis
    unfolding grant_sound_def by blast
qed

end
