(* ===== verification/Context_Post_Process.thy ===== *)
theory Context_Post_Process
  imports Context_Resolve
begin

text \<open>
  \<open>crates/core/src/llm/context/post_process.rs\<close>: the rules that rewrite the assembled
  messages.  The messages refer to their provenance by id.
\<close>

section \<open>The code\<close>

record assembled_message =
  am_id :: string
  am_role :: message_role
  am_content :: "content_part list"
  am_provenance_id :: string
  am_placeholder :: bool

definition content_is_empty :: "content_part list \<Rightarrow> bool" where
  "content_is_empty content = list_all (\<lambda>p. p = TextPart []) content"

fun opposite :: "message_role \<Rightarrow> message_role" where
  "opposite FromUser = FromAssistant"
| "opposite FromAssistant = FromUser"

definition find_provenance :: "context_provenance_ir list \<Rightarrow> string \<Rightarrow> context_provenance_ir option" where
  "find_provenance ps i = find (\<lambda>p. cp_id p = i) ps"

definition provenance_by_id :: "context_provenance_ir list \<Rightarrow> string \<Rightarrow> string + context_provenance_ir" where
  "provenance_by_id ps i = of_optionR ''context_provenance_missing'' (find_provenance ps i)"

definition is_placeholder :: "context_provenance_ir list \<Rightarrow> assembled_message \<Rightarrow> bool" where
  "is_placeholder ps m \<longleftrightarrow>
     am_placeholder m \<and> content_is_empty (am_content m)
     \<and> (case find_provenance ps (am_provenance_id m) of
          None \<Rightarrow> False
        | Some p \<Rightarrow> cp_source_type p = ''adapter_placeholder'')"

type_synonym messages = "assembled_message list \<times> context_provenance_ir list"

definition strip_empty :: "assembled_message list \<Rightarrow> assembled_message list" where
  "strip_empty ms = filter (\<lambda>m. \<not> content_is_empty (am_content m)) ms"

text \<open>The adjacent messages; \<open>out\<close> holds the merged ones, the last one first.\<close>

definition mark_merged :: "string \<Rightarrow> context_provenance_ir \<Rightarrow> context_provenance_ir" where
  "mark_merged name p =
     (if name \<in> set (cp_transformations p) then p
      else p\<lparr>cp_transformations := cp_transformations p @ [name]\<rparr>)"

fun update_first :: "('a \<Rightarrow> bool) \<Rightarrow> ('a \<Rightarrow> 'a) \<Rightarrow> 'a list \<Rightarrow> 'a list" where
  "update_first P f [] = []"
| "update_first P f (x # xs) = (if P x then f x # xs else x # update_first P f xs)"

fun merge_loop ::
  "assembled_message list \<Rightarrow> context_provenance_ir list \<Rightarrow> assembled_message list \<Rightarrow> string + messages" where
  "merge_loop out ps [] = Inr (rev out, ps)"
| "merge_loop [] ps (m # ms) = merge_loop [m] ps ms"
| "merge_loop (prev # out) ps (m # ms) =
     bindR (provenance_by_id ps (am_provenance_id prev)) (\<lambda>left.
     bindR (provenance_by_id ps (am_provenance_id m)) (\<lambda>right.
     if am_role prev = am_role m \<and> cp_trust left = cp_trust right \<and> cp_sensitivity left = cp_sensitivity right
     then merge_loop (prev\<lparr>am_content := am_content prev @ am_content m\<rparr> # out)
            (update_first (\<lambda>p. cp_id p = am_provenance_id prev) (mark_merged ''merge_adjacent_messages'') ps) ms
     else merge_loop (m # prev # out) ps ms))"

definition merge_adjacent :: "messages \<Rightarrow> string + messages" where
  "merge_adjacent s = merge_loop [] (snd s) (fst s)"

definition alternation_provenance :: "nat \<Rightarrow> message_role \<Rightarrow> context_provenance_ir" where
  "alternation_provenance n role =
     \<lparr>cp_id = ''ctxprov:alternation:'' @ show_nat n, cp_item_id = ''__adapter_placeholder__'',
      cp_source_type = ''adapter_placeholder'', cp_source_id = show_nat n, cp_trust = TrustedConfig,
      cp_sensitivity = PublicData,
      cp_final_role = (case role of FromUser \<Rightarrow> UserRole | FromAssistant \<Rightarrow> AssistantRole),
      cp_transformations = [''strict_alternation_placeholder'']\<rparr>"

definition placeholder_message :: "nat \<Rightarrow> message_role \<Rightarrow> assembled_message" where
  "placeholder_message n role =
     \<lparr>am_id = ''ctx-placeholder:'' @ show_nat n, am_role = role, am_content = [],
      am_provenance_id = ''ctxprov:alternation:'' @ show_nat n, am_placeholder = True\<rparr>"

text \<open>\<open>expected\<close> is the role that comes next, \<open>n\<close> the placeholders so far.\<close>

fun alternation_loop ::
  "message_role \<Rightarrow> nat \<Rightarrow> assembled_message list \<Rightarrow> assembled_message list \<times> context_provenance_ir list" where
  "alternation_loop expected n [] = ([], [])"
| "alternation_loop expected n (m # ms) =
     (if am_role m = expected
      then (case alternation_loop (opposite expected) n ms of (out, ps) \<Rightarrow> (m # out, ps))
      else (case alternation_loop (opposite (am_role m)) (n + 1) ms of (out, ps) \<Rightarrow>
              (placeholder_message (n + 1) expected # m # out, alternation_provenance (n + 1) expected # ps)))"

definition strict_alternation :: "messages \<Rightarrow> messages" where
  "strict_alternation s =
     (case alternation_loop FromUser 0 (fst s) of (out, ps) \<Rightarrow> (out, snd s @ ps))"

text \<open>\<open>max_by_key\<close> takes the last of the greatest elements.\<close>

fun max_by :: "('a \<Rightarrow> nat) \<Rightarrow> 'a \<Rightarrow> 'a list \<Rightarrow> 'a" where
  "max_by key best [] = best"
| "max_by key best (x # xs) = max_by key (if key best \<le> key x then x else best) xs"

definition single_prompt_provenance ::
  "context_provenance_ir \<Rightarrow> context_provenance_ir list \<Rightarrow> context_provenance_ir" where
  "single_prompt_provenance p refs =
     \<lparr>cp_id = ''ctxprov:single-prompt'', cp_item_id = ''__single_prompt__'', cp_source_type = ''assembled_prompt'',
      cp_source_id = ''single_prompt'', cp_trust = max_by trust_rank (cp_trust p) (map cp_trust refs),
      cp_sensitivity = max_by sensitivity_rank (cp_sensitivity p) (map cp_sensitivity refs),
      cp_final_role = UserRole, cp_transformations = [''single_prompt'']\<rparr>"

definition single_prompt :: "messages \<Rightarrow> string + messages" where
  "single_prompt s =
     (let ps = snd s; ms = filter (\<lambda>m. \<not> is_placeholder ps m) (fst s)
      in if length ms = 1 \<and> am_role (hd ms) = FromUser then Inr (ms, ps)
         else
           bindR (mapR (\<lambda>m. provenance_by_id ps (am_provenance_id m)) ms) (\<lambda>refs.
           case (ms, refs) of
             (m # _, p # others) \<Rightarrow>
               bindR (ensureR (\<not> (list_ex (\<lambda>p. cp_sensitivity p = PublicData) refs
                   \<and> list_ex (\<lambda>p. cp_sensitivity p = SensitiveData) refs))
                 ''context_post_process_sensitivity_boundary'') (\<lambda>_.
               Inr ([\<lparr>am_id = am_id m, am_role = FromUser, am_content = concat (map am_content ms),
                      am_provenance_id = ''ctxprov:single-prompt'', am_placeholder = False\<rparr>],
                    ps @ [single_prompt_provenance p others]))
           | _ \<Rightarrow> Inr ([], ps)))"

definition apply_rule_post :: "post_process_rule \<Rightarrow> messages \<Rightarrow> string + messages" where
  "apply_rule_post rule s =
     (case rule of
        StripEmptyMessages \<Rightarrow> Inr (strip_empty (fst s), snd s)
      | MergeAdjacentMessages \<Rightarrow> merge_adjacent s
      | StrictAlternation \<Rightarrow> Inr (strict_alternation s)
      | SinglePrompt \<Rightarrow> single_prompt s)"

fun apply_post_process :: "post_process_rule list \<Rightarrow> messages \<Rightarrow> string + messages" where
  "apply_post_process [] s = Inr s"
| "apply_post_process (rule # rs) s = bindR (apply_rule_post rule s) (apply_post_process rs)"

section \<open>Alternation\<close>

text \<open>The roles of the messages alternate, beginning with \<open>r\<close>.\<close>

fun alternating :: "message_role \<Rightarrow> assembled_message list \<Rightarrow> bool" where
  "alternating r [] = True"
| "alternating r (m # ms) = (am_role m = r \<and> alternating (opposite r) ms)"

lemma opposite_opposite [simp]: "opposite (opposite r) = r"
  by (cases r) auto

lemma opposite_neq: "a \<noteq> b \<longleftrightarrow> a = opposite b"
  by (cases a; cases b) auto

lemma alternation_loop_alternating: "alternating expected (fst (alternation_loop expected n ms))"
  by (induction expected n ms rule: alternation_loop.induct)
    (auto split: prod.splits simp: opposite_neq placeholder_message_def)

lemma alternation_loop_kept:
  "filter (\<lambda>m. \<not> am_placeholder m) ms = ms \<Longrightarrow>
     filter (\<lambda>m. \<not> am_placeholder m) (fst (alternation_loop expected n ms)) = ms"
  by (induction expected n ms rule: alternation_loop.induct)
    (auto split: prod.splits if_splits simp: placeholder_message_def dest: filter_eq_ConsD)

lemma alternation_loop_same: "alternating expected ms \<Longrightarrow> alternation_loop expected n ms = (ms, [])"
  by (induction ms arbitrary: expected) auto

end
