(* ===== verification/Context_Budget.thy ===== *)
theory Context_Budget
  imports Context_Types
begin

text \<open>
  \<open>crates/core/src/llm/context/budget.rs\<close> and \<open>budget_trim.rs\<close>: fitting the candidates
  of a context into the token budget.  An error is its code; the reasons of the reports and the
  messages are not modelled.  \<open>u64\<close> values are naturals with checked operations.
\<close>

section \<open>Transformations before the budget\<close>

definition push_transformation :: "string \<Rightarrow> context_candidate \<Rightarrow> context_candidate" where
  "push_transformation name c =
     c\<lparr>cc_provenance := (cc_provenance c)\<lparr>cp_transformations := cp_transformations (cc_provenance c) @ [name]\<rparr>\<rparr>"

definition relevance_key :: "context_candidate \<Rightarrow> int \<times> nat \<times> string" where
  "relevance_key c = (- (case cc_relevance c of None \<Rightarrow> 0 | Some s \<Rightarrow> s), cc_sub_index c, cc_id c)"

definition top_k :: "nat \<Rightarrow> candidate_group \<Rightarrow> string + candidate_group" where
  "top_k k g =
     (if list_ex (\<lambda>c. cc_relevance c = None) (cg_candidates g) then Inl ''context_top_k_score_missing''
      else
        (let sorted = sort_key relevance_key (cg_candidates g);
             truncated = k < length sorted;
             kept = take k sorted
         in Inr (g\<lparr>cg_pre_action := (if truncated then Some ''top_k'' else cg_pre_action g),
                   cg_candidates := map (\<lambda>(i, c).
                     (if truncated then push_transformation ''top_k'' (c\<lparr>cc_sub_index := i\<rparr>)
                      else c\<lparr>cc_sub_index := i\<rparr>)) (enumerate 0 kept)\<rparr>)))"

definition keep_last :: "nat \<Rightarrow> candidate_group \<Rightarrow> candidate_group" where
  "keep_last k g =
     (if k < length (cg_candidates g)
      then g\<lparr>cg_pre_action := Some ''keep_recent'',
             cg_candidates := map (push_transformation ''keep_recent'')
               (drop (length (cg_candidates g) - k) (cg_candidates g))\<rparr>
      else g)"

definition pre_transform :: "candidate_group \<Rightarrow> string + candidate_group" where
  "pre_transform g =
     (case cg_overflow g of
        Some (TopK k) \<Rightarrow> top_k k g
      | Some (KeepRecent (Some k)) \<Rightarrow> Inr (keep_last k g)
      | _ \<Rightarrow> Inr g)"

fun position_rank :: "context_position \<Rightarrow> nat" where
  "position_rank AtStart = 0"
| "position_rank BeforeHistory = 1"
| "position_rank InHistory = 2"
| "position_rank AfterHistory = 3"
| "position_rank BeforeUserInput = 4"
| "position_rank AtUserInput = 5"
| "position_rank AssistantPrefill = 6"
| "position_rank AtEnd = 7"

definition display_key :: "candidate_group \<Rightarrow> nat \<times> int \<times> nat \<times> string" where
  "display_key g = (position_rank (cg_position g), cg_order g, cg_item_index g, cg_item_id g)"

text \<open>The candidates whose content was seen before, in display order, by group index and id.\<close>

fun repeats :: "nat \<Rightarrow> string set \<Rightarrow> context_candidate list \<Rightarrow> (nat \<times> string) set \<times> string set" where
  "repeats index known [] = ({}, known)"
| "repeats index known (c # cs) =
     (if cc_content_hash c \<in> known
      then (case repeats index known cs of (ids, known) \<Rightarrow> (insert (index, cc_id c) ids, known))
      else repeats index (insert (cc_content_hash c) known) cs)"

fun duplicate_ids :: "string set \<Rightarrow> candidate_group list \<Rightarrow> (nat \<times> string) set" where
  "duplicate_ids known [] = {}"
| "duplicate_ids known (g # gs) =
     (if cg_overflow g = Some Dedupe
      then (case repeats (cg_item_index g) known (cg_candidates g) of
              (ids, known) \<Rightarrow> ids \<union> duplicate_ids known gs)
      else duplicate_ids (known \<union> set (map cc_content_hash (cg_candidates g))) gs)"

definition drop_duplicates :: "(nat \<times> string) set \<Rightarrow> candidate_group \<Rightarrow> candidate_group" where
  "drop_duplicates ids g =
     (let kept = filter (\<lambda>c. (cg_item_index g, cc_id c) \<notin> ids) (cg_candidates g)
      in if length kept \<noteq> length (cg_candidates g)
         then g\<lparr>cg_pre_action := Some ''dedupe'', cg_candidates := map (push_transformation ''dedupe'') kept\<rparr>
         else g\<lparr>cg_candidates := kept\<rparr>)"

definition apply_pre_budget_transforms :: "candidate_group list \<Rightarrow> string + candidate_group list" where
  "apply_pre_budget_transforms groups =
     bindR (mapR pre_transform groups) (\<lambda>groups.
     Inr (map (drop_duplicates (duplicate_ids {} (sort_key display_key groups))) groups))"

section \<open>Truncation\<close>

record overflow_outcome =
  oo_included :: bool
  oo_tokens :: nat
  oo_action :: budget_action

definition drop_group :: "candidate_group \<Rightarrow> candidate_group \<times> overflow_outcome" where
  "drop_group g =
     (g\<lparr>cg_candidates := map (\<lambda>c. c\<lparr>cc_included := False\<rparr>) (cg_candidates g)\<rparr>,
      \<lparr>oo_included = False, oo_tokens = 0, oo_action = Dropped\<rparr>)"

fun part_scalars :: "content_part \<Rightarrow> nat" where
  "part_scalars (TextPart t) = scalar_count t"
| "part_scalars _ = 0"

definition content_scalars :: "content_part list \<Rightarrow> nat" where
  "content_scalars content = sum_list (map part_scalars content)"

fun keep_head_scalars :: "nat \<Rightarrow> content_part list \<Rightarrow> content_part list" where
  "keep_head_scalars remaining [] = []"
| "keep_head_scalars remaining (p # ps) =
     (case p of
        TextPart t \<Rightarrow>
          if 0 < remaining
          then (let kept = take_scalars remaining t
                in (if kept = [] then [] else [TextPart kept]) @ keep_head_scalars (remaining - scalar_count kept) ps)
          else keep_head_scalars remaining ps
      | _ \<Rightarrow> keep_head_scalars remaining ps)"

fun keep_tail_loop :: "nat \<Rightarrow> nat \<Rightarrow> content_part list \<Rightarrow> content_part list" where
  "keep_tail_loop skip remaining [] = []"
| "keep_tail_loop skip remaining (p # ps) =
     (case p of
        TextPart t \<Rightarrow>
          if scalar_count t \<le> skip then keep_tail_loop (skip - scalar_count t) remaining ps
          else (let kept = take_scalars remaining (drop_scalars skip t)
                in (if kept = [] then [] else [TextPart kept])
                   @ keep_tail_loop 0 (remaining - scalar_count kept) ps)
      | _ \<Rightarrow> keep_tail_loop skip remaining ps)"

definition keep_tail_scalars :: "content_part list \<Rightarrow> nat \<Rightarrow> content_part list" where
  "keep_tail_scalars content quota = keep_tail_loop (content_scalars content - quota) quota content"

definition keep_scalars :: "content_part list \<Rightarrow> nat \<Rightarrow> bool \<Rightarrow> content_part list" where
  "keep_scalars content quota keep_head =
     (if keep_head then keep_head_scalars quota content else keep_tail_scalars content quota)"

text \<open>The tokens of the content cut to \<open>n\<close> scalars.\<close>

definition cut_tokens :: "token_counter \<Rightarrow> context_role \<Rightarrow> content_part list \<Rightarrow> bool \<Rightarrow> nat \<Rightarrow> string + nat" where
  "cut_tokens counter role content keep_head n =
     (let cut = keep_scalars content n keep_head in if cut = [] then Inr 0 else counter role cut)"

text \<open>The binary search for the largest cut that fits.\<close>

function (sequential) search_cut ::
  "(nat \<Rightarrow> string + nat) \<Rightarrow> nat \<Rightarrow> nat \<Rightarrow> nat \<Rightarrow> (nat \<times> nat) option \<Rightarrow> string + (nat \<times> nat) option" where
  "search_cut tokens cap low high best =
     (if high < low then Inr best
      else
        (let mid = low + (high - low) div 2
         in case tokens mid of
              Inl e \<Rightarrow> Inl e
            | Inr n \<Rightarrow>
                if n \<le> cap then search_cut tokens cap (mid + 1) high (Some (mid, n))
                else if mid = 0 then Inr best
                else search_cut tokens cap low (mid - 1) best))"
  by pat_completeness auto
termination by (relation "measure (\<lambda>(_, _, low, high, _). Suc high - low)") auto

declare search_cut.simps [simp del]

definition truncate_group ::
  "token_counter \<Rightarrow> nat \<Rightarrow> bool \<Rightarrow> candidate_group \<Rightarrow> string + candidate_group \<times> overflow_outcome" where
  "truncate_group counter cap keep_head g =
     (case cg_candidates g of
        [c] \<Rightarrow>
          if list_ex (\<lambda>p. case p of TextPart _ \<Rightarrow> False | _ \<Rightarrow> True) (cc_content c)
          then Inl ''context_binary_truncate_forbidden''
          else
            bindR (search_cut (cut_tokens counter (cc_role c) (cc_content c) keep_head) cap 0
                (content_scalars (cc_content c)) None) (\<lambda>best.
            Inr (case best of
                   None \<Rightarrow> drop_group g
                 | Some (n, tokens) \<Rightarrow>
                     let content = keep_scalars (cc_content c) n keep_head
                     in if content = [] then drop_group g
                        else (g\<lparr>cg_candidates :=
                               [push_transformation (if keep_head then ''truncate_tail'' else ''truncate_head'')
                                 (c\<lparr>cc_content := content, cc_token_count := tokens, cc_included := True\<rparr>)]\<rparr>,
                              \<lparr>oo_included = True, oo_tokens = tokens, oo_action = Truncated\<rparr>)))
      | _ \<Rightarrow> Inl ''context_truncate_shape_unsupported'')"

text \<open>The newest candidates that fit, from the back.\<close>

fun recent_loop :: "nat \<Rightarrow> nat \<Rightarrow> nat \<Rightarrow> context_candidate list \<Rightarrow> string + nat \<times> nat" where
  "recent_loop cap used kept [] = Inr (used, kept)"
| "recent_loop cap used kept (c # cs) =
     (case checked_add_u64 used (cc_token_count c) of
        None \<Rightarrow> Inl ''context_budget_exceeded''
      | Some n \<Rightarrow> if cap < n then Inr (used, kept) else recent_loop cap n (kept + 1) cs)"

definition mark_recent :: "context_candidate \<Rightarrow> context_candidate" where
  "mark_recent c =
     (let c = c\<lparr>cc_included := True\<rparr>
      in if ''keep_recent'' \<in> set (cp_transformations (cc_provenance c)) then c
         else push_transformation ''keep_recent'' c)"

definition keep_recent :: "nat \<Rightarrow> candidate_group \<Rightarrow> string + candidate_group \<times> overflow_outcome" where
  "keep_recent cap g =
     bindR (recent_loop cap 0 0 (rev (cg_candidates g))) (\<lambda>(used, kept).
     let cs = map mark_recent (drop (length (cg_candidates g) - kept) (cg_candidates g))
     in Inr (g\<lparr>cg_candidates := cs\<rparr>,
             \<lparr>oo_included = (cs \<noteq> []), oo_tokens = used, oo_action = (if cs = [] then Dropped else Truncated)\<rparr>))"

definition require_non_empty ::
  "budget_strategy \<Rightarrow> candidate_group \<times> overflow_outcome \<Rightarrow> string + candidate_group \<times> overflow_outcome" where
  "require_non_empty strategy r =
     (if \<not> oo_included (snd r) \<and> strategy = Strict then Inl ''context_budget_exceeded'' else Inr r)"

definition apply_overflow ::
  "token_counter \<Rightarrow> nat \<Rightarrow> budget_strategy \<Rightarrow> candidate_group \<Rightarrow> string + candidate_group \<times> overflow_outcome" where
  "apply_overflow counter cap strategy g =
     (case cg_overflow g of
        Some DropOverflow \<Rightarrow> Inr (drop_group g)
      | Some TruncateHead \<Rightarrow> bindR (truncate_group counter cap False g) (require_non_empty strategy)
      | Some TruncateTail \<Rightarrow> bindR (truncate_group counter cap True g) (require_non_empty strategy)
      | Some (KeepRecent _) \<Rightarrow> bindR (keep_recent cap g) (require_non_empty strategy)
      | _ \<Rightarrow> (case strategy of BestEffort \<Rightarrow> Inr (drop_group g) | Strict \<Rightarrow> Inl ''context_budget_exceeded''))"

section \<open>The budget\<close>

definition group_tokens :: "candidate_group \<Rightarrow> string + nat" where
  "group_tokens g =
     foldl (\<lambda>acc c. bindR acc (\<lambda>total. of_optionR ''context_budget_exceeded'' (checked_add_u64 total (cc_token_count c))))
       (Inr 0) (cg_candidates g)"

definition include_all :: "candidate_group \<Rightarrow> candidate_group" where
  "include_all g = g\<lparr>cg_candidates := map (\<lambda>c. c\<lparr>cc_included := True\<rparr>) (cg_candidates g)\<rparr>"

definition pre_action :: "candidate_group \<Rightarrow> budget_action option" where
  "pre_action g =
     (if cg_pre_action g = Some ''dedupe'' then Some Deduped
      else if cg_pre_action g = Some ''top_k'' \<or> cg_pre_action g = Some ''keep_recent'' then Some Truncated
      else None)"

definition unwrap_action :: "budget_action \<Rightarrow> budget_action option \<Rightarrow> budget_action" where
  "unwrap_action d a = (case a of None \<Rightarrow> d | Some x \<Rightarrow> x)"

definition report :: "candidate_group \<Rightarrow> bool \<Rightarrow> nat \<Rightarrow> budget_action \<Rightarrow> item_report" where
  "report g included tokens action =
     \<lparr>ir_item_id = cg_item_id g, ir_included = included, ir_token_count = tokens, ir_action = action\<rparr>"

definition count_candidate :: "token_counter \<Rightarrow> context_candidate \<Rightarrow> string + context_candidate" where
  "count_candidate counter c =
     bindR (counter (cc_role c) (cc_content c)) (\<lambda>n. Inr (c\<lparr>cc_token_count := n\<rparr>))"

definition count_group :: "token_counter \<Rightarrow> candidate_group \<Rightarrow> string + candidate_group" where
  "count_group counter g =
     bindR (mapR (count_candidate counter) (cg_candidates g)) (\<lambda>cs. Inr (g\<lparr>cg_candidates := cs\<rparr>))"

definition checked_sub :: "nat \<Rightarrow> nat \<Rightarrow> nat option" where
  "checked_sub a b = (if b \<le> a then Some (a - b) else None)"

definition available_tokens :: "budget_input \<Rightarrow> budget_policy \<Rightarrow> string + nat" where
  "available_tokens i p =
     bindR (of_optionR ''context_budget_exceeded''
        (Option.bind (checked_sub (context_window_tokens i) (reserved_output_tokens i))
           (\<lambda>v. checked_sub v (safety_margin_tokens i)))) (\<lambda>available.
     Inr (case max_input_tokens p of None \<Rightarrow> available | Some l \<Rightarrow> min available l))"

text \<open>The required groups in their order: the groups, the tokens used and the reports.\<close>

fun required_loop ::
  "nat \<Rightarrow> candidate_group list \<Rightarrow> nat \<Rightarrow> string + candidate_group list \<times> nat \<times> item_report list" where
  "required_loop capacity [] used = Inr ([], used, [])"
| "required_loop capacity (g # gs) used =
     (if \<not> cg_required g
      then bindR (required_loop capacity gs used) (\<lambda>(gs, used, rs). Inr (g # gs, used, rs))
      else
        bindR (ensureR (cg_candidates g \<noteq> []) ''context_required_item_missing'') (\<lambda>_.
        bindR (group_tokens g) (\<lambda>total.
        bindR (ensureR (\<forall>l \<in> set_option (cg_max_tokens g). total \<le> l) ''context_budget_exceeded'') (\<lambda>_.
        bindR (of_optionR ''context_budget_exceeded'' (checked_add_u64 used total)) (\<lambda>used.
        bindR (ensureR (used \<le> capacity) ''context_budget_exceeded'') (\<lambda>_.
        bindR (required_loop capacity gs used) (\<lambda>(gs, used, rs).
        Inr (include_all g # gs, used, report (include_all g) True total Kept # rs))))))))"

definition optional_indices :: "candidate_group list \<Rightarrow> nat list" where
  "optional_indices gs =
     sort_key (\<lambda>i. (- cg_priority (gs ! i), display_key (gs ! i)))
       (filter (\<lambda>i. \<not> cg_required (gs ! i) \<and> cg_candidates (gs ! i) \<noteq> []) [0..<length gs])"

definition empty_reports :: "candidate_group list \<Rightarrow> item_report list" where
  "empty_reports gs =
     map (\<lambda>g. report g False 0 (unwrap_action Dropped (pre_action g)))
       (filter (\<lambda>g. \<not> cg_required g \<and> cg_candidates g = []) gs)"

definition fit_group ::
  "token_counter \<Rightarrow> nat \<Rightarrow> budget_strategy \<Rightarrow> candidate_group \<Rightarrow> string + candidate_group \<times> nat \<times> item_report" where
  "fit_group counter remaining strategy g =
     (let cap = (case cg_max_tokens g of None \<Rightarrow> remaining | Some l \<Rightarrow> min remaining l)
      in bindR (group_tokens g) (\<lambda>total.
         if total \<le> cap
         then Inr (include_all g, total, report (include_all g) True total (unwrap_action Kept (pre_action g)))
         else bindR (apply_overflow counter cap strategy g) (\<lambda>(g, outcome).
              Inr (g, oo_tokens outcome,
                   report g (oo_included outcome) (oo_tokens outcome) (oo_action outcome)))))"

fun optional_loop ::
  "token_counter \<Rightarrow> nat \<Rightarrow> budget_strategy \<Rightarrow> nat list \<Rightarrow> candidate_group list \<Rightarrow> nat
     \<Rightarrow> string + candidate_group list \<times> nat \<times> item_report list" where
  "optional_loop counter capacity strategy [] gs used = Inr (gs, used, [])"
| "optional_loop counter capacity strategy (i # is) gs used =
     bindR (fit_group counter (capacity - used) strategy (gs ! i)) (\<lambda>(g, tokens, r).
     bindR (of_optionR ''context_budget_exceeded'' (checked_add_u64 used tokens)) (\<lambda>used.
     bindR (optional_loop counter capacity strategy is (gs[i := g]) used) (\<lambda>(gs, used, rs).
     Inr (gs, used, r # rs))))"

fun item_position :: "candidate_group list \<Rightarrow> string \<Rightarrow> nat" where
  "item_position [] i = u64_max"
| "item_position (g # gs) i = (if cg_item_id g = i then 0 else min u64_max (item_position gs i + 1))"

definition apply_budget ::
  "candidate_group list \<Rightarrow> budget_input \<Rightarrow> budget_policy \<Rightarrow> token_counter
     \<Rightarrow> string + candidate_group list \<times> budget_report" where
  "apply_budget groups inp policy counter =
     bindR (apply_pre_budget_transforms groups) (\<lambda>groups.
     bindR (mapR (count_group counter) groups) (\<lambda>groups.
     bindR (available_tokens inp policy) (\<lambda>available.
     bindR (of_optionR ''context_budget_exceeded'' (checked_sub available (fixed_request_tokens inp))) (\<lambda>capacity.
     bindR (required_loop capacity groups 0) (\<lambda>(groups, used, required).
     let strategy = (case budget_strategy_of policy of None \<Rightarrow> Strict | Some s \<Rightarrow> s)
     in bindR (optional_loop counter capacity strategy (optional_indices groups) groups used) (\<lambda>(final, used, optional).
        Inr (final,
          \<lparr>available_input_tokens = available, report_fixed_tokens = fixed_request_tokens inp,
           assembled_tokens = used, report_count_source = input_count_source inp,
           report_items = sort_key (\<lambda>r. item_position final (ir_item_id r))
             (required @ empty_reports groups @ optional)\<rparr>)))))))"

end
