(* ===== verification/Context_Engine.thy ===== *)
theory Context_Engine
  imports Context_Post_Process Context_Budget
begin

text \<open>
  \<open>crates/core/src/llm/context/engine.rs\<close>: the assembly of a context from a preset and the
  resolved bindings, and the records of its result (\<open>engine_types.rs\<close>).
\<close>

section \<open>The result\<close>

datatype snapshot_config =
    SnapshotPreset string string nat string
  | SnapshotInline string string string

record assembly_snapshot =
  as_config :: snapshot_config
  as_read_set_ref :: string
  as_read_set_digest :: string
  as_bindings_digest :: string
  as_assembly_digest :: string

record assembly_output =
  ao_instructions :: "instruction_ir list"
  ao_messages :: "assembled_message list"
  ao_provenance :: "context_provenance_ir list"
  ao_report :: budget_report
  ao_snapshot :: assembly_snapshot

text \<open>The documents that \<open>serde\<close> derives for the hashes of the assembly.\<close>

record assembly_env =
  ay_resolve :: resolve_env
  ay_encode_spec :: "context_spec \<Rightarrow> json"
  ay_encode_bindings :: "(string, resolved_binding) omap \<Rightarrow> json"
  ay_encode_config :: "snapshot_config \<Rightarrow> json"
  ay_encode_instructions :: "instruction_ir list \<Rightarrow> json"
  ay_encode_messages :: "assembled_message list \<Rightarrow> json"
  ay_encode_provenance :: "context_provenance_ir list \<Rightarrow> json"
  ay_encode_report :: "budget_report \<Rightarrow> json"

definition hash_json :: "assembly_env \<Rightarrow> json \<Rightarrow> string + string" where
  "hash_json env v =
     map_errR (\<lambda>_. ''context_canonicalization_failed'')
       (canonical_hash (ce_serde (re_ctx (ay_resolve env))) (ce_sha (re_ctx (ay_resolve env))) v)"

section \<open>Checks\<close>

definition validate_read_set :: "assembly_input \<Rightarrow> string + unit" where
  "validate_read_set inp =
     ensureR (trim (ai_read_set_ref inp) \<noteq> [] \<and> trim (ai_read_set_digest inp) \<noteq> []) ''context_read_set_missing''"

fun config_parts :: "config_snapshot \<Rightarrow> context_spec \<times> nat \<times> string \<times> snapshot_config" where
  "config_parts (PresetSnapshot pid vid version hash policy spec) = (spec, policy, hash, SnapshotPreset pid vid version hash)"
| "config_parts (InlineSnapshot rid nid hash policy spec) = (spec, policy, hash, SnapshotInline rid nid hash)"

definition validate_config :: "assembly_env \<Rightarrow> config_snapshot \<Rightarrow> string + context_spec \<times> snapshot_config" where
  "validate_config env config =
     (case config_parts config of (spec, policy, hash, snapshot) \<Rightarrow>
        bindR (ensureR (policy = CONTEXT_SEMANTIC_POLICY_VERSION) ''unsupported_context_semantic_policy'') (\<lambda>_.
        bindR (normalize_context_spec (re_ctx (ay_resolve env)) default_policy spec) (\<lambda>normalized.
        bindR (ensureR (normalized = spec) ''context_snapshot_not_normalized'') (\<lambda>_.
        bindR (hash_json env (JObject (om_of_list
            [(''semanticPolicyVersion'', json_nat policy), (''spec'', ay_encode_spec env spec)]))) (\<lambda>expected.
        bindR (ensureR (hash = expected) ''context_snapshot_hash_mismatch'') (\<lambda>_.
        Inr (spec, snapshot)))))))"

definition binding_ok :: "string \<times> resolved_binding \<Rightarrow> bool" where
  "binding_ok kv \<longleftrightarrow>
     fst kv = rb_binding_id (snd kv) \<and> trim (rb_binding_id (snd kv)) \<noteq> []
     \<and> trim (rb_scope (snd kv)) \<noteq> [] \<and> trim (rb_version (snd kv)) \<noteq> []"

definition validate_bindings :: "assembly_input \<Rightarrow> string + unit" where
  "validate_bindings inp = ensureR (list_all binding_ok (ai_bindings inp)) ''context_binding_invalid''"

definition validate_candidate :: "assembly_input \<Rightarrow> candidate_group \<Rightarrow> context_candidate \<Rightarrow> string + unit" where
  "validate_candidate inp g c =
     bindR (ensureR (\<not> (cp_sensitivity (cc_provenance c) = SensitiveData \<and> \<not> ai_allow_sensitive inp))
       ''context_sensitive_not_allowed'') (\<lambda>_.
     ensureR (\<not> (cg_position g = AssistantPrefill
         \<and> (cc_role c \<noteq> AsAssistant
            \<or> \<not> (cp_trust (cc_provenance c) = RuntimePolicy \<or> cp_trust (cc_provenance c) = TrustedConfig))))
       ''context_assistant_prefill_unauthorized'')"

definition validate_candidates :: "assembly_input \<Rightarrow> candidate_group list \<Rightarrow> string + unit" where
  "validate_candidates inp groups =
     bindR (mapR (\<lambda>g. mapR (validate_candidate inp g) (cg_candidates g)) groups) (\<lambda>_. Inr ())"

definition history_length :: "candidate_group list \<Rightarrow> string + nat" where
  "history_length groups =
     foldl (\<lambda>acc g. bindR acc (\<lambda>n. of_optionR ''context_history_limit'' (checked_add_u64 n (length (cg_candidates g)))))
       (Inr 0) (filter (\<lambda>g. cg_position g = InHistory) groups)"

definition validate_insertion_depth :: "candidate_group list \<Rightarrow> nat \<Rightarrow> string + unit" where
  "validate_insertion_depth groups history_len =
     ensureR (list_all (\<lambda>g. cg_insertion_depth g \<le> history_len) groups) ''context_insertion_depth_out_of_range''"

section \<open>Order and roles\<close>

type_synonym candidate_key = "nat \<times> nat \<times> int \<times> nat \<times> string \<times> nat \<times> string"

definition order_key :: "nat \<Rightarrow> candidate_group \<Rightarrow> context_candidate \<Rightarrow> candidate_key" where
  "order_key history_len g c =
     (position_rank (cg_position g),
      (case cc_history_order c of Some n \<Rightarrow> n | None \<Rightarrow> history_len - cg_insertion_depth g),
      cg_order g, cg_item_index g, cg_item_id g, cc_sub_index c, cc_id c)"

definition ordered_candidates :: "candidate_group list \<Rightarrow> nat \<Rightarrow> context_candidate list" where
  "ordered_candidates groups history_len =
     map snd (sort_key fst
       (concat (map (\<lambda>g. map (\<lambda>c. (order_key history_len g c, c)) (filter cc_included (cg_candidates g))) groups)))"

fun instruction_role_of :: "context_role \<Rightarrow> instruction_role option" where
  "instruction_role_of AsPolicy = Some PolicyInstruction"
| "instruction_role_of AsSystem = Some SystemInstruction"
| "instruction_role_of AsDeveloper = Some DeveloperInstruction"
| "instruction_role_of AsContext = Some ContextInstruction"
| "instruction_role_of _ = None"

definition instruction_of :: "context_candidate \<Rightarrow> instruction_role \<Rightarrow> instruction_ir" where
  "instruction_of c r =
     \<lparr>ins_id = cc_id c, ins_role = r, ins_content = cc_content c, ins_provenance = cc_provenance c\<rparr>"

definition message_of :: "context_candidate \<Rightarrow> assembled_message" where
  "message_of c =
     \<lparr>am_id = cc_id c, am_role = (if cc_role c = AsUser then FromUser else FromAssistant),
      am_content = cc_content c, am_provenance_id = cp_id (cc_provenance c), am_placeholder = False\<rparr>"

fun compile_candidates :: "context_candidate list \<Rightarrow> instruction_ir list \<times> messages" where
  "compile_candidates [] = ([], [], [])"
| "compile_candidates (c # cs) =
     (case compile_candidates cs of (is, ms, ps) \<Rightarrow>
        (case instruction_role_of (cc_role c) of
           Some r \<Rightarrow> (instruction_of c r # is, ms, cc_provenance c # ps)
         | None \<Rightarrow> (is, message_of c # ms, cc_provenance c # ps)))"

definition validate_output_ids ::
  "instruction_ir list \<Rightarrow> assembled_message list \<Rightarrow> context_provenance_ir list \<Rightarrow> string + unit" where
  "validate_output_ids is ms ps =
     (let ids = map ins_id is @ map am_id ms; pids = map cp_id ps
      in bindR (ensureR (list_all (\<lambda>i. i \<noteq> []) ids \<and> distinct ids) ''context_output_id_duplicate'') (\<lambda>_.
         ensureR (distinct pids
           \<and> list_all (\<lambda>i. cp_id (ins_provenance i) \<in> set pids) is
           \<and> list_all (\<lambda>m. am_provenance_id m \<in> set pids) ms
           \<and> \<not> list_ex (\<lambda>p. (cp_final_role p = UserRole \<or> cp_final_role p = AssistantRole) \<and> cp_id p = []) ps)
           ''context_provenance_invalid''))"

section \<open>The assembly\<close>

definition assembly_document ::
  "assembly_env \<Rightarrow> assembly_input \<Rightarrow> snapshot_config \<Rightarrow> string \<Rightarrow> instruction_ir list \<Rightarrow> messages \<Rightarrow> budget_report \<Rightarrow> json" where
  "assembly_document env inp snapshot bindings_digest is s rep =
     JObject (om_of_list
       [(''config'', ay_encode_config env snapshot),
        (''readSetRef'', JString (ai_read_set_ref inp)),
        (''readSetDigest'', JString (ai_read_set_digest inp)),
        (''resolvedBindingsDigest'', JString bindings_digest),
        (''instructions'', ay_encode_instructions env is),
        (''messages'', ay_encode_messages env (fst s)),
        (''provenance'', ay_encode_provenance env (snd s)),
        (''budgetReport'', ay_encode_report env rep)])"

text \<open>The groups that enter the budget, with the length of the history.\<close>

definition prepare_groups ::
  "assembly_env \<Rightarrow> assembly_input \<Rightarrow> context_spec \<Rightarrow> string + candidate_group list \<times> nat" where
  "prepare_groups env inp spec =
     bindR (resolve_items (ay_resolve env) inp (sp_items spec)) (\<lambda>groups.
     bindR (apply_prompt_text_transforms (ay_resolve env) groups spec) (\<lambda>groups.
     bindR (validate_candidates inp groups) (\<lambda>_.
     bindR (history_length groups) (\<lambda>history_len.
     bindR (validate_insertion_depth groups history_len) (\<lambda>_.
     Inr (groups, history_len))))))"

definition post_process_messages :: "context_spec \<Rightarrow> messages \<Rightarrow> string + messages" where
  "post_process_messages spec s =
     bindR (apply_post_process (sp_post_process spec) s) (\<lambda>s.
     if sp_mode spec = ModeCompletion then single_prompt s else Inr s)"

definition assemble_context :: "assembly_env \<Rightarrow> assembly_input \<Rightarrow> token_counter \<Rightarrow> string + assembly_output" where
  "assemble_context env inp counter =
     bindR (validate_read_set inp) (\<lambda>_.
     bindR (validate_config env (ai_config inp)) (\<lambda>(spec, snapshot).
     bindR (validate_bindings inp) (\<lambda>_.
     bindR (hash_json env (ay_encode_bindings env (ai_bindings inp))) (\<lambda>bindings_digest.
     bindR (prepare_groups env inp spec) (\<lambda>(groups, history_len).
     bindR (of_optionR ''context_snapshot_not_normalized'' (sp_budget spec)) (\<lambda>policy.
     bindR (apply_budget groups (ai_budget inp) policy counter) (\<lambda>(final, rep).
     case compile_candidates (ordered_candidates final history_len) of (is, s) \<Rightarrow>
       bindR (post_process_messages spec s) (\<lambda>s.
       bindR (validate_output_ids is (fst s) (snd s)) (\<lambda>_.
       bindR (hash_json env (assembly_document env inp snapshot bindings_digest is s rep)) (\<lambda>digest.
       Inr \<lparr>ao_instructions = is, ao_messages = fst s, ao_provenance = snd s, ao_report = rep,
            ao_snapshot =
              \<lparr>as_config = snapshot, as_read_set_ref = ai_read_set_ref inp,
               as_read_set_digest = ai_read_set_digest inp, as_bindings_digest = bindings_digest,
               as_assembly_digest = digest\<rparr>\<rparr>))))))))))"

end
