(* ===== verification/Request_Builder.thy ===== *)
theory Request_Builder
  imports Tool_Registry Context_Engine
begin

text \<open>
  The requests of language-model nodes: \<open>crates/core/src/llm/request_builder.rs\<close>,
  \<open>request_builder_tools.rs\<close>, \<open>request_builder_memory.rs\<close> and
  \<open>request_builder_hosted.rs\<close>.  A request is built from the execution snapshot of a node, an
  assembled context and the items that the tool loop added.
\<close>

section \<open>Data\<close>

record 'k build_env =
  be_keys :: "'k key_lib"
  be_tools :: tool_env
  be_parse :: "string \<Rightarrow> json option"
  be_encode_channel :: "'k channel_spec \<Rightarrow> json"
  be_encode_request :: "('k, generation_options) llm_request \<Rightarrow> json"
  be_encode_response :: "'k llm_response \<Rightarrow> json"
  be_encode_items :: "'k turn_item list \<Rightarrow> json"
    \<comment> \<open>the serialisations that \<open>serde\<close> derives\<close>

text \<open>The checks of requests, with the schema compiler and the keys of this program.\<close>

definition request_ir_env :: "'k build_env \<Rightarrow> ('k, generation_options) ir_env" where
  "request_ir_env env =
     \<lparr>ie_serde = se_serde (tv_schema (be_tools env)), ie_parse = be_parse env,
      ie_consistent = kl_consistent (be_keys env), ie_generation = is_supported_generation_key (be_keys env),
      ie_compiles = (\<lambda>spec. case compile_schema (tv_schema (be_tools env)) spec of Inl _ \<Rightarrow> False | Inr _ \<Rightarrow> True),
      ie_encode_request = be_encode_request env, ie_encode_response = be_encode_response env,
      ie_encode_items = be_encode_items env\<rparr>"

definition hash_or :: "'k build_env \<Rightarrow> string \<Rightarrow> json \<Rightarrow> string + string" where
  "hash_or env code v =
     map_errR (\<lambda>_. code) (canonical_hash (se_serde (tv_schema (be_tools env))) (se_sha (tv_schema (be_tools env))) v)"

record request_tool =
  qt_binding_id :: string
  qt_exposed_name :: string
  qt_grant :: tool_grant
  qt_descriptor :: resolved_tool
  qt_requires_approval :: bool

record memory_tool =
  mt_exposed_name :: string
  mt_grant :: memory_grant

record 'k hosted_tool =
  ht_binding :: "'k hosted_binding"
  ht_provider_item_kind :: string

record 'k build_output =
  bo_request :: "('k, generation_options) llm_request"
  bo_request_digest :: string
  bo_tools :: "request_tool list"
  bo_memory_tools :: "memory_tool list"
  bo_hosted_tools :: "'k hosted_tool list"

record 'k build_input =
  bi_execution :: "'k execution_snapshot"
  bi_context :: assembly_output
  bi_registry :: registry_snapshot
  bi_descriptors :: "resolved_tool list"
  bi_tail :: "'k turn_item list"
  bi_continuation :: "'k continuation_ref option"
  bi_approved :: "string list"
  bi_model_call_no :: nat

section \<open>The execution snapshot\<close>

definition model_is_pinned :: "'k execution_snapshot \<Rightarrow> bool" where
  "model_is_pinned x =
     (case find_catalog (cr_spec (ex_channel x)) (pin_operation_key (ex_operation x)) of
        None \<Rightarrow> False
      | Some catalog \<Rightarrow> list_ex (\<lambda>m. cm_id m = pin_model_id (ex_operation x)) (mc_models catalog))"

definition context_snapshot_matches :: "config_snapshot \<Rightarrow> snapshot_config \<Rightarrow> bool" where
  "context_snapshot_matches expected actual =
     (case (expected, actual) of
        (PresetSnapshot pid vid version hash _ _, SnapshotPreset pid' vid' version' hash') \<Rightarrow>
          pid = pid' \<and> vid = vid' \<and> version = version' \<and> hash = hash'
      | (InlineSnapshot rid nid hash _ _, SnapshotInline rid' nid' hash') \<Rightarrow> rid = rid' \<and> nid = nid' \<and> hash = hash'
      | _ \<Rightarrow> False)"

definition preferred_output :: "'k execution_snapshot \<Rightarrow> nat option" where
  "preferred_output x =
     Option.bind (ex_request x) (\<lambda>r. Option.bind (ro_generation r) go_max_output_tokens)"

definition validate_execution :: "'k build_env \<Rightarrow> 'k execution_snapshot \<Rightarrow> assembly_output \<Rightarrow> nat \<Rightarrow> string + unit" where
  "validate_execution env x ctx call_no =
     bindR (hash_or env ''llm_execution_snapshot_invalid'' (be_encode_channel env (cr_spec (ex_channel x)))) (\<lambda>hash.
     bindR (ensureR (call_no \<noteq> 0 \<and> ex_schema_version x = 1 \<and> ex_graph_revision_id x \<noteq> [] \<and> ex_node_id x \<noteq> []
         \<and> pin_model_id (ex_operation x) \<noteq> []
         \<and> pin_channel_revision_id (ex_operation x) = cr_id (ex_channel x)
         \<and> pin_taxonomy_version (ex_operation x) = ch_taxonomy_version (cr_spec (ex_channel x))
         \<and> pin_decoder_version (ex_operation x) = ch_decoder_version (cr_spec (ex_channel x))
         \<and> pin_operation_key (ex_operation x) \<in> set (ch_operation_keys (cr_spec (ex_channel x)))
         \<and> hash = cr_content_hash (ex_channel x) \<and> model_is_pinned x) ''llm_execution_snapshot_invalid'') (\<lambda>_.
     bindR (of_optionR ''llm_output_limit_missing'' (nl_max_output_tokens (ex_limits x))) (\<lambda>hard.
     bindR (ensureR (hard \<noteq> 0 \<and> (case preferred_output x of None \<Rightarrow> True | Some v \<Rightarrow> v \<noteq> 0 \<and> v \<le> hard))
       ''generation_output_limit_exceeded'') (\<lambda>_.
     ensureR (context_snapshot_matches (ex_context x) (as_config (ao_snapshot ctx)))
       ''context_execution_snapshot_mismatch''))))"

section \<open>Registered tools\<close>

definition find_pin :: "registry_entry list \<Rightarrow> tool_grant \<Rightarrow> registry_entry option" where
  "find_pin entries g = find (\<lambda>e. entry_key e = (tg_tool_id g, tg_version g)) entries"

definition descriptor_key :: "resolved_tool \<Rightarrow> string \<times> string" where
  "descriptor_key r = (tool_id (rt_descriptor r), tool_version (rt_descriptor r))"

definition find_descriptor :: "resolved_tool list \<Rightarrow> tool_grant \<Rightarrow> resolved_tool option" where
  "find_descriptor rs g = find (\<lambda>r. descriptor_key r = (tg_tool_id g, tg_version g)) rs"

definition validate_descriptor :: "tool_env \<Rightarrow> tool_grant \<Rightarrow> resolved_tool \<Rightarrow> registry_entry \<Rightarrow> string + unit" where
  "validate_descriptor env g r pin =
     (let d = rt_descriptor r
      in bindR (ensureR (tool_id d = tg_tool_id g \<and> tool_version d = tg_version g
             \<and> valid_name (tool_id d) \<and> valid_name (tool_version d) \<and> valid_name (tool_name d)
             \<and> (case tool_description d of None \<Rightarrow> True | Some t \<Rightarrow> length t \<le> 4096)
             \<and> re_descriptor_digest pin = rt_descriptor_digest r \<and> re_schema_digests pin = rt_schema_digests r
             \<and> re_implementation_digest pin = rt_implementation_digest r
             \<and> trim (rt_implementation_digest r) \<noteq> [] \<and> trim (rt_executor_key r) \<noteq> []) ''tool_descriptor_pin_mismatch'') (\<lambda>_.
         validate_tool_grant env g r))"

definition exposed_name :: "tool_grant \<Rightarrow> resolved_tool \<Rightarrow> string" where
  "exposed_name g r = (case tg_exposed_name g of Some n \<Rightarrow> n | None \<Rightarrow> tool_name (rt_descriptor r))"

definition descriptor_ir :: "tool_grant \<Rightarrow> resolved_tool \<Rightarrow> tool_descriptor_ir" where
  "descriptor_ir g r =
     \<lparr>td_name = exposed_name g r, td_description = tool_description (rt_descriptor r),
      td_input_schema = tool_input_schema (rt_descriptor r)\<rparr>"

definition request_tool_of :: "tool_grant \<Rightarrow> resolved_tool \<Rightarrow> request_tool" where
  "request_tool_of g r =
     \<lparr>qt_binding_id = tg_binding_id g, qt_exposed_name = exposed_name g r, qt_grant = g, qt_descriptor = r,
      qt_requires_approval =
        (te_requires_approval (tool_effect_spec (rt_descriptor r)) \<or> tg_approval g = Some AlwaysApprove)\<rparr>"

fun resolve_grants ::
  "tool_env \<Rightarrow> registry_entry list \<Rightarrow> resolved_tool list \<Rightarrow> tool_grant list \<Rightarrow> string set
     \<Rightarrow> string + tool_descriptor_ir list \<times> request_tool list" where
  "resolve_grants env pins rs [] names = Inr ([], [])"
| "resolve_grants env pins rs (g # gs) names =
     bindR (of_optionR ''tool_descriptor_missing'' (find_descriptor rs g)) (\<lambda>r.
     bindR (of_optionR ''tool_registry_pin_missing'' (find_pin pins g)) (\<lambda>pin.
     bindR (validate_descriptor env g r pin) (\<lambda>_.
     bindR (ensureR (valid_name (exposed_name g r) \<and> exposed_name g r \<notin> names) ''tool_exposed_name_invalid'') (\<lambda>_.
     bindR (resolve_grants env pins rs gs (insert (exposed_name g r) names)) (\<lambda>(ds, qs).
     Inr (descriptor_ir g r # ds, request_tool_of g r # qs))))))"

definition resolve_tools ::
  "tool_env \<Rightarrow> 'k execution_snapshot \<Rightarrow> registry_snapshot \<Rightarrow> resolved_tool list
     \<Rightarrow> string + tool_descriptor_ir list \<times> request_tool list" where
  "resolve_tools env x snapshot rs =
     bindR (ensureR (trim (rg_revision snapshot) \<noteq> []) ''tool_registry_snapshot_invalid'') (\<lambda>_.
     bindR (ensureR (distinct (map entry_key (rg_entries snapshot))) ''tool_registry_snapshot_invalid'') (\<lambda>_.
     bindR (ensureR (distinct (map descriptor_key rs)) ''tool_descriptor_duplicate'') (\<lambda>_.
     resolve_grants env (rg_entries snapshot) rs (ex_tools x) {})))"

section \<open>Memory tools\<close>

definition MEMORY_SEARCH_TOOL_NAME :: string where "MEMORY_SEARCH_TOOL_NAME = ''search_memory''"
definition MEMORY_PROPOSAL_TOOL_NAME :: string where "MEMORY_PROPOSAL_TOOL_NAME = ''propose_memory_change''"

definition tool_schema :: "json \<Rightarrow> json_schema_spec" where
  "tool_schema schema_document =
     \<lparr>schema_version = 1, dialect = DIALECT_2020_12, validation_profile_version = 1, format_policy_version = 1,
      document = schema_document, schema_limits = default_schema_limits\<rparr>"

definition obj :: "(string \<times> json) list \<Rightarrow> json" where
  "obj kvs = JObject (om_of_list kvs)"

definition strings :: "string list \<Rightarrow> json" where
  "strings xs = JArray (map JString xs)"

definition bounded_text :: "json \<Rightarrow> string \<Rightarrow> json" where
  "bounded_text ty n = obj [(''type'', ty), (''minLength'', JNumber ''1''), (''maxLength'', JNumber n)]"

definition text_type :: json where "text_type = JString ''string''"
definition nullable_type :: json where "nullable_type = strings [''string'', ''null'']"

definition bounded_list :: "string \<Rightarrow> json" where
  "bounded_list n =
     obj [(''type'', JString ''array''), (''items'', bounded_text text_type n), (''maxItems'', JNumber ''64'')]"

definition closed_object :: "(string \<times> json) list \<Rightarrow> (string \<times> json) list" where
  "closed_object properties =
     [(''type'', JString ''object''), (''properties'', obj properties), (''required'', strings (map fst properties)),
      (''additionalProperties'', JBool False)]"

definition search_schema :: json where
  "search_schema =
     obj (closed_object
       [(''scopeId'', bounded_text text_type ''256''), (''text'', bounded_text nullable_type ''4096''),
        (''tags'', bounded_list ''256''),
        (''status'', obj [(''type'', nullable_type), (''enum'', JArray [JString ''active'', JString ''obsolete'', JNull])]),
        (''limit'', obj [(''type'', JString ''integer''), (''minimum'', JNumber ''1''), (''maximum'', JNumber ''100'')])])"

definition change_case :: "string \<Rightarrow> (string \<times> json) list \<Rightarrow> json" where
  "change_case name extra = obj (closed_object ((''type'', obj [(''const'', JString name)]) # extra))"

definition proposal_schema :: json where
  "proposal_schema =
     (let content = (''content'', obj [(''$ref'', JString ''#/$defs/content'')])
      in obj ((''$defs'', obj
          [(''content'', obj (closed_object
             [(''schemaVersion'', obj [(''const'', JNumber ''1'')]), (''text'', bounded_text text_type ''65536''),
              (''tags'', bounded_list ''256''), (''attributes'', obj [(''type'', JString ''object'')])])),
           (''change'', obj [(''oneOf'', JArray
             [change_case ''create'' [content], change_case ''replace_content'' [content],
              change_case ''mark_obsolete'' [], change_case ''delete_tombstone'' []])])])
        # closed_object
          [(''scopeId'', bounded_text text_type ''256''), (''memoryId'', bounded_text nullable_type ''256''),
           (''expectedHeadCommitId'', bounded_text nullable_type ''256''),
           (''change'', obj [(''$ref'', JString ''#/$defs/change'')]), (''reason'', bounded_text text_type ''4096''),
           (''evidenceRefs'', bounded_list ''1024'')]))"

definition memory_descriptor :: "memory_capability \<Rightarrow> tool_descriptor_ir" where
  "memory_descriptor c =
     (case c of
        SearchMemory \<Rightarrow>
          \<lparr>td_name = MEMORY_SEARCH_TOOL_NAME,
           td_description = Some ''Search an explicitly granted long-term-memory scope.'',
           td_input_schema = tool_schema search_schema\<rparr>
      | ProposeMemoryChange \<Rightarrow>
          \<lparr>td_name = MEMORY_PROPOSAL_TOOL_NAME,
           td_description = Some ''Propose a reviewed change to an explicitly granted long-term-memory scope.'',
           td_input_schema = tool_schema proposal_schema\<rparr>)"

fun resolve_memory_grants ::
  "memory_grant list \<Rightarrow> string set \<Rightarrow> string + tool_descriptor_ir list \<times> memory_tool list" where
  "resolve_memory_grants [] names = Inr ([], [])"
| "resolve_memory_grants (g # gs) names =
     (let d = memory_descriptor (mg_capability g)
      in bindR (ensureR (td_name d \<notin> names) ''memory_tool_name_conflict'') (\<lambda>_.
         bindR (resolve_memory_grants gs (insert (td_name d) names)) (\<lambda>(ds, ms).
         Inr (d # ds, \<lparr>mt_exposed_name = td_name d, mt_grant = g\<rparr> # ms))))"

definition memory_grants :: "'k execution_snapshot \<Rightarrow> memory_grant list" where
  "memory_grants x = (case ex_memory x of None \<Rightarrow> [] | Some m \<Rightarrow> lm_tools m)"

section \<open>Hosted tools\<close>

definition hosted_sensitive_name :: "string \<Rightarrow> bool" where
  "hosted_sensitive_name name =
     (let n = map to_ascii_lower name
      in n \<in> set [''authorization'', ''proxy-authorization'', ''cookie'', ''set-cookie'', ''x-api-key'', ''api-key'',
              ''host'', ''path'', ''url'']
         \<or> list_ex (\<lambda>needle. contains_str needle n) [''token'', ''secret'', ''credential'', ''signature'', ''header''])"

definition config_entry :: "string \<times> json \<Rightarrow> string + string \<times> metadata_value" where
  "config_entry kv =
     bindR (ensureR (\<not> hosted_sensitive_name (fst kv)) ''hosted_tool_config_unsafe'') (\<lambda>_.
     bindR (ensureR (fst kv = ''search_context_size'') ''unsupported_hosted_tool_config'') (\<lambda>_.
     case snd kv of
       JString v \<Rightarrow>
         bindR (ensureR (v \<in> set [''low'', ''medium'', ''high'']) ''hosted_tool_config_invalid'') (\<lambda>_.
         Inr (fst kv, MetaString v))
     | _ \<Rightarrow> Inl ''hosted_tool_config_invalid''))"

definition validate_hosted_config :: "'k hosted_binding \<Rightarrow> string + (string, metadata_value) omap" where
  "validate_hosted_config b = mapR config_entry (hb_config b)"

definition validate_hosted_binding ::
  "'k key_lib \<Rightarrow> 'k execution_snapshot \<Rightarrow> 'k hosted_binding \<Rightarrow> string list \<Rightarrow> string set \<Rightarrow> string + unit" where
  "validate_hosted_binding lib x b approved kinds =
     bindR (ensureR (hb_operation_key b = pin_operation_key (ex_operation x)) ''hosted_tool_operation_mismatch'') (\<lambda>_.
     bindR (ensureR (\<not> (te_requires_approval (hb_effect b) \<and> hb_binding_id b \<notin> set approved))
       ''hosted_tool_approval_required'') (\<lambda>_.
     bindR (ensureR (kl_kind lib (hb_operation_key b) = ContentGeneration OpenAiResponses \<and> hb_hosted_kind b = ''web_search'')
       ''unsupported_hosted_tool'') (\<lambda>_.
     bindR (ensureR (ex_tools x = [] \<and> (case ex_output x of Some (TextOutput _ _) \<Rightarrow> True | _ \<Rightarrow> False))
       ''unsupported_hosted_tool_loop'') (\<lambda>_.
     bindR (ensureR (hb_hosted_kind b \<notin> kinds) ''ambiguous_hosted_tool_binding'') (\<lambda>_.
     ensureR (0 < hb_max_uses b \<and> hb_max_uses b \<le> 64 \<and> trim (te_operation_key (hb_effect b)) \<noteq> []
       \<and> length (te_operation_key (hb_effect b)) \<le> 128 \<and> hb_resource_scopes b = [''internet:public''])
       ''invalid_hosted_tool_policy'')))))"

fun resolve_hosted ::
  "'k key_lib \<Rightarrow> 'k execution_snapshot \<Rightarrow> string list \<Rightarrow> 'k hosted_binding list \<Rightarrow> string set
     \<Rightarrow> string + hosted_tool_descriptor_ir list \<times> 'k hosted_tool list" where
  "resolve_hosted lib x approved [] kinds = Inr ([], [])"
| "resolve_hosted lib x approved (b # bs) kinds =
     bindR (validate_hosted_binding lib x b approved kinds) (\<lambda>_.
     bindR (validate_hosted_config b) (\<lambda>config.
     bindR (resolve_hosted lib x approved bs (insert (hb_hosted_kind b) kinds)) (\<lambda>(ds, hs).
     Inr (\<lparr>hd_binding_id = hb_binding_id b, hd_hosted_kind = hb_hosted_kind b, hd_config = config\<rparr> # ds,
          \<lparr>ht_binding = b, ht_provider_item_kind = ''web_search_call''\<rparr> # hs))))"

section \<open>The request\<close>

definition build_transcript :: "assembly_output \<Rightarrow> 'k turn_item list \<Rightarrow> string + 'k turn_item list" where
  "build_transcript ctx tail =
     bindR (ensureR (distinct (map cp_id (ao_provenance ctx))) ''context_provenance_duplicate'') (\<lambda>_.
     bindR (mapR (\<lambda>m.
         bindR (of_optionR ''context_provenance_missing'' (find_provenance (ao_provenance ctx) (am_provenance_id m))) (\<lambda>p.
         Inr (Message (am_id m) (am_role m) (am_content m) (Some p) (am_placeholder m)))) (ao_messages ctx)) (\<lambda>items.
     Inr (items @ tail)))"

definition request_metadata :: "'k build_input \<Rightarrow> (string, metadata_value) omap" where
  "request_metadata inp =
     om_of_list
       [(''graphRevisionId'', MetaString (ex_graph_revision_id (bi_execution inp))),
        (''nodeId'', MetaString (ex_node_id (bi_execution inp))),
        (''contextAssemblyDigest'', MetaString (as_assembly_digest (ao_snapshot (bi_context inp)))),
        (''modelCallNo'', MetaNumber (show_nat (bi_model_call_no inp)))]"

definition response_format_of :: "output_spec option \<Rightarrow> response_format_ir" where
  "response_format_of out =
     (case out of Some (JsonOutput schema strict) \<Rightarrow> JsonFormat (Some schema) strict | _ \<Rightarrow> TextFormat)"

definition request_options_of :: "'k execution_snapshot \<Rightarrow> request_options" where
  "request_options_of x = (case ex_request x of None \<Rightarrow> default_request_options | Some r \<Rightarrow> r)"

definition build_llm_request :: "'k build_env \<Rightarrow> 'k build_input \<Rightarrow> string + 'k build_output" where
  "build_llm_request env inp =
     (let x = bi_execution inp in
      bindR (validate_execution env x (bi_context inp) (bi_model_call_no inp)) (\<lambda>_.
      bindR (resolve_tools (be_tools env) x (bi_registry inp) (bi_descriptors inp)) (\<lambda>(tools, resolved).
      bindR (resolve_memory_grants (memory_grants x) (set (map td_name tools))) (\<lambda>(memory_tools, resolved_memory).
      bindR (resolve_hosted (be_keys env) x (bi_approved inp) (ex_hosted_tools x) {}) (\<lambda>(hosted, resolved_hosted).
      bindR (build_transcript (bi_context inp) (bi_tail inp)) (\<lambda>transcript.
      let options = request_options_of x;
          request =
            \<lparr>rq_model = pin_model_id (ex_operation x), rq_instructions = ao_instructions (bi_context inp),
             rq_transcript = transcript, rq_tools = tools @ memory_tools, rq_hosted_tools = hosted,
             rq_tool_choice = ro_tool_choice options, rq_response_format = Some (response_format_of (ex_output x)),
             rq_generation = ro_generation options, rq_extensions = ro_extensions options,
             rq_metadata = request_metadata inp, rq_continuation = bi_continuation inp\<rparr>
      in bindR (validate_request_ir (request_ir_env env) request) (\<lambda>_.
         bindR (ensureR (\<not> (rq_tool_choice request = Some RequiredChoice
             \<and> rq_tools request = [] \<and> rq_hosted_tools request = [])) ''required_tool_unavailable'') (\<lambda>_.
         bindR (hash_or env ''llm_request_digest_failed'' (be_encode_request env request)) (\<lambda>digest.
         Inr \<lparr>bo_request = request, bo_request_digest = digest, bo_tools = resolved,
              bo_memory_tools = resolved_memory, bo_hosted_tools = resolved_hosted\<rparr>)))))))))"

end
