(* ===== verification/Tool_Batch.thy ===== *)
theory Tool_Batch
  imports Llm_Ledger Request_Builder
begin

text \<open>
  The plan of a batch of tool calls, \<open>crates/core/src/llm/tool_batch.rs\<close>: what a model response
  asks for is resolved to the tools of the request, checked against the limits of the node, and
  becomes either a batch that can be executed or a batch that waits for an approval.
\<close>

section \<open>Data\<close>

record 'k executable_batch =
  xb_model_call_id :: string
  xb_calls :: "tool_plan_call list"
  xb_checkpoint :: "'k loop_checkpoint"

datatype 'k batch_plan = NoCalls | ApprovalPlan "'k approval_batch" | ExecutablePlan "'k executable_batch"

record 'k batch_input =
  bt_execution :: "'k execution_snapshot"
  bt_tools :: "request_tool list"
  bt_items :: "'k turn_item list"
  bt_model_call_id :: string
  bt_node_instance_id :: string
  bt_attempt_id :: string
  bt_checkpoint :: "'k loop_checkpoint"
  bt_now_ms :: int

section \<open>One call\<close>

fun requested_call :: "'k turn_item \<Rightarrow> tool_call_ir option" where
  "requested_call (AssistantToolCall _ call) = Some call"
| "requested_call _ = None"

definition requested_calls :: "'k turn_item list \<Rightarrow> tool_call_ir list" where
  "requested_calls items = List.map_filter requested_call items"

definition calls_used :: "'k loop_checkpoint \<Rightarrow> nat \<Rightarrow> nat \<Rightarrow> nat option" where
  "calls_used c n max_calls =
     Option.bind (checked_add_u64 (lk_tool_calls_used c) n) (\<lambda>used. if used \<le> max_calls then Some used else None)"

definition retry_policy_of :: "request_tool \<Rightarrow> string + effect_retry_policy" where
  "retry_policy_of t =
     (case tg_failure_policy (qt_grant t) of
        None \<Rightarrow> Inr \<lparr>rp_max_attempts = 1, rp_backoff_ms = []\<rparr>
      | Some policy \<Rightarrow>
          bindR (ensureR (fp_max_attempts policy < 2 ^ 32) ''tool_retry_policy_invalid'') (\<lambda>_.
          bindR (ensureR (fp_max_attempts policy \<noteq> 0 \<and> fp_max_attempts policy \<le> 32
                \<and> length (fp_retry_backoff_ms policy) \<le> 31) ''tool_retry_policy_invalid'') (\<lambda>_.
          Inr \<lparr>rp_max_attempts = fp_max_attempts policy, rp_backoff_ms = fp_retry_backoff_ms policy\<rparr>)))"

definition fails_on_approval :: "request_tool \<Rightarrow> bool" where
  "fails_on_approval t \<longleftrightarrow>
     qt_requires_approval t
     \<and> (case tg_failure_policy (qt_grant t) of
          None \<Rightarrow> False | Some policy \<Rightarrow> fp_approval_required policy = FailOnApproval)"

definition material_of :: "request_tool \<Rightarrow> tool_call_ir \<Rightarrow> call_material" where
  "material_of t call =
     \<lparr>dm_binding_id = qt_binding_id t, dm_tool_id = tool_id (rt_descriptor (qt_descriptor t)),
      dm_tool_version = tool_version (rt_descriptor (qt_descriptor t)), dm_arguments = tc_arguments call,
      dm_grant = qt_grant t, dm_descriptor_digest = rt_descriptor_digest (qt_descriptor t),
      dm_schema_digests = rt_schema_digests (qt_descriptor t),
      dm_implementation_digest = rt_implementation_digest (qt_descriptor t),
      dm_policy_version = TOOL_CALL_POLICY_VERSION\<rparr>"

definition numbered :: "string \<Rightarrow> string \<Rightarrow> nat \<Rightarrow> string" where
  "numbered prefix model_call_id index = prefix @ ''_'' @ model_call_id @ ''_'' @ show_nat index"

definition saturating_add_i64 :: "int \<Rightarrow> int \<Rightarrow> int" where
  "saturating_add_i64 a b = min i64_max (max i64_min (a + b))"

definition planned_call ::
    "'k batch_input \<Rightarrow> request_tool \<Rightarrow> tool_call_ir \<Rightarrow> nat \<Rightarrow> string \<Rightarrow> string \<Rightarrow> effect_retry_policy \<Rightarrow> tool_plan_call" where
  "planned_call input t call index arguments digest policy =
     (let descriptor = qt_descriptor t; effect = tool_effect_spec (rt_descriptor descriptor);
          call_id = numbered ''toolcall'' (bt_model_call_id input) index in
      \<lparr>pc_tool_call_id = call_id,
       pc_effect_id = numbered ''tooleffect'' (bt_model_call_id input) index,
       pc_effect_attempt_id = numbered ''tooleffectattempt'' (bt_model_call_id input) index,
       pc_provider_call_id = tc_provider_call_id call, pc_call_index = index, pc_binding_id = qt_binding_id t,
       pc_tool_id = tool_id (rt_descriptor descriptor), pc_tool_version = tool_version (rt_descriptor descriptor),
       pc_call_digest = digest, pc_arguments_bytes = arguments,
       pc_descriptor_digest = rt_descriptor_digest descriptor, pc_schema_digests = rt_schema_digests descriptor,
       pc_implementation_digest = rt_implementation_digest descriptor,
       pc_effect_classification = te_classification effect, pc_effect_operation_key = te_operation_key effect,
       pc_requires_approval = te_requires_approval effect,
       pc_idempotency_key = ''tool:'' @ call_id @ '':effect'', pc_retry_policy = policy,
       pc_risk_summary = (if qt_requires_approval t then ''Tool '' @ CHR 0x27 # qt_exposed_name t @ CHR 0x27 # '' requests approval'' else []),
       pc_approval_expires_at = saturating_add_i64 (bt_now_ms input) (15 * 60 * 1000)\<rparr>)"

definition call_checkpoint_of :: "request_tool \<Rightarrow> string \<Rightarrow> string \<Rightarrow> nat \<Rightarrow> string \<Rightarrow> call_checkpoint" where
  "call_checkpoint_of t wait_id call_id index digest =
     \<lparr>cc_tool_call_id = call_id, cc_call_index = index, cc_call_digest = digest,
      cc_status = (if qt_requires_approval t then ToolAwaitingApproval else ToolValidated),
      cc_effect_id = None, cc_output_ref = None, cc_wait_id = Some wait_id\<rparr>"

definition find_exposed :: "request_tool list \<Rightarrow> string \<Rightarrow> request_tool option" where
  "find_exposed tools name = find (\<lambda>t. qt_exposed_name t = name) tools"

definition plan_call ::
    "'k ledger_env \<Rightarrow> 'k batch_input \<Rightarrow> string \<Rightarrow> tool_call_ir \<Rightarrow> nat
       \<Rightarrow> string + tool_plan_call \<times> call_checkpoint \<times> bool" where
  "plan_call env input wait_id call index =
     bindR (of_optionR ''tool_binding_unknown'' (find_exposed (bt_tools input) (tc_name call))) (\<lambda>t.
     bindR (ensureR (\<not> fails_on_approval t) ''tool_approval_policy_failed'') (\<lambda>_.
     bindR (map_errR (\<lambda>_. ''tool_arguments_invalid'') (to_vec (lg_serde env) (tc_arguments call))) (\<lambda>arguments.
     bindR (map_errR (\<lambda>_. ''tool_call_digest_failed'') (call_material_digest env (material_of t call))) (\<lambda>digest.
     bindR (retry_policy_of t) (\<lambda>policy.
     let planned = planned_call input t call index arguments digest policy in
     Inr (planned, call_checkpoint_of t wait_id (pc_tool_call_id planned) index digest, qt_requires_approval t))))))"

section \<open>The batch\<close>

fun plan_calls ::
    "'k ledger_env \<Rightarrow> 'k batch_input \<Rightarrow> string \<Rightarrow> tool_call_ir list \<Rightarrow> nat
       \<Rightarrow> string + tool_plan_call list \<times> call_checkpoint list \<times> bool" where
  "plan_calls env input wait_id [] index = Inr ([], [], False)"
| "plan_calls env input wait_id (call # calls) index =
     bindR (plan_call env input wait_id call index) (\<lambda>(planned, checkpoint, approval).
     bindR (plan_calls env input wait_id calls (index + 1)) (\<lambda>(plans, checkpoints, more_approval).
     Inr (planned # plans, checkpoint # checkpoints, approval \<or> more_approval)))"

definition seal_batch :: "'k ledger_env \<Rightarrow> 'k loop_checkpoint \<Rightarrow> string + 'k loop_checkpoint" where
  "seal_batch env c = map_errR (\<lambda>_. ''tool_checkpoint_invalid'') (seal env c)"

definition batch_wait_id :: "'k batch_input \<Rightarrow> string" where
  "batch_wait_id input = ''wait_tool_approval_'' @ bt_model_call_id input"

definition plan_initial_tool_batch :: "'k ledger_env \<Rightarrow> 'k batch_input \<Rightarrow> string + 'k batch_plan" where
  "plan_initial_tool_batch env input =
     (let calls = requested_calls (bt_items input); wait_id = batch_wait_id input in
      if calls = [] then Inr NoCalls
      else
        bindR (of_optionR ''tool_call_limit_missing'' (nl_max_tool_calls (ex_limits (bt_execution input)))) (\<lambda>max_calls.
        bindR (of_optionR ''tool_call_limit_exceeded'' (calls_used (bt_checkpoint input) (length calls) max_calls)) (\<lambda>used.
        bindR (plan_calls env input wait_id calls 0) (\<lambda>(plans, checkpoints, has_approval).
        let c = (bt_checkpoint input)\<lparr>lk_last_updated_by := bt_attempt_id input\<rparr> in
        if \<not> has_approval
        then
          bindR (seal_batch env (c\<lparr>lk_current_batch :=
              map (\<lambda>k. k\<lparr>cc_status := ToolRequested, cc_wait_id := None\<rparr>) checkpoints\<rparr>)) (\<lambda>sealed.
          Inr (ExecutablePlan \<lparr>xb_model_call_id = bt_model_call_id input, xb_calls = plans, xb_checkpoint = sealed\<rparr>))
        else
          bindR (seal_batch env (c\<lparr>lk_current_batch := checkpoints, lk_tool_calls_used := used,
              lk_effect_watermark := wait_id, lk_wait_ids := lk_wait_ids c @ [wait_id]\<rparr>)) (\<lambda>sealed.
          Inr (ApprovalPlan \<lparr>ab_wait_id = wait_id, ab_node_instance_id = bt_node_instance_id input,
            ab_originating_attempt_id = bt_attempt_id input, ab_model_call_id = bt_model_call_id input,
            ab_calls = plans, ab_checkpoint = sealed\<rparr>))))))"

end
