(* ===== verification/Memory_Batch.thy ===== *)
theory Memory_Batch
  imports Tool_Batch
begin

text \<open>
  Long-term memory for language-model nodes: the content and proposals of
  \<open>crates/core/src/memory/\<close>, the calls of \<open>llm/memory_tool_ledger.rs\<close>, and the plan of a
  batch of memory calls of \<open>llm/memory_tool_batch.rs\<close> and \<open>memory_tool_batch_validation.rs\<close>.
\<close>

section \<open>Memory records\<close>

record memory_content =
  mc_schema_version :: nat
  mc_text :: string
  mc_tags :: "string list"
  mc_attributes :: "(string, json) omap"

datatype memory_change = CreateMemory memory_content | ReplaceMemory memory_content | MarkObsolete | DeleteTombstone

datatype memory_status = MemoryReserved | MemoryActive | MemoryObsolete | MemoryDeleted | MemoryDiscarded

definition invalid_memory :: string where "invalid_memory = ''invalid_memory_proposal''"

definition normalize_content :: "serde \<Rightarrow> memory_content \<Rightarrow> string + memory_content" where
  "normalize_content sd c =
     bindR (ensureR (mc_schema_version c = 1) invalid_memory) (\<lambda>_.
     bindR (ensureR (mc_text c \<noteq> [] \<and> length (mc_text c) \<le> 64 * 1024) invalid_memory) (\<lambda>_.
     bindR (ensureR (length (mc_tags c) \<le> 64 \<and> list_all (\<lambda>t. t \<noteq> [] \<and> length t \<le> 256) (mc_tags c)) invalid_memory) (\<lambda>_.
     bindR (map_errR (\<lambda>_. invalid_memory) (to_vec sd (JObject (mc_attributes c)))) (\<lambda>attributes.
     bindR (ensureR (length attributes \<le> 256 * 1024) invalid_memory) (\<lambda>_.
     Inr (c\<lparr>mc_tags := remdups_adj (sort (mc_tags c))\<rparr>))))))"

definition validate_proposal_material :: "string \<Rightarrow> string \<Rightarrow> string list \<Rightarrow> nat \<Rightarrow> nat \<Rightarrow> string + unit" where
  "validate_proposal_material scope_id reason evidence schema_v policy_v =
     bindR (ensureR (scope_id \<noteq> [] \<and> length scope_id \<le> 512) invalid_memory) (\<lambda>_.
     bindR (ensureR (reason \<noteq> [] \<and> length reason \<le> 4096) invalid_memory) (\<lambda>_.
     bindR (ensureR (length evidence \<le> 64 \<and> list_all (\<lambda>e. e \<noteq> [] \<and> length e \<le> 1024) evidence \<and> distinct evidence)
       invalid_memory) (\<lambda>_.
     ensureR (schema_v = 1 \<and> policy_v \<noteq> 0) invalid_memory)))"

section \<open>Calls\<close>

record memory_search_query =
  mq_scope_id :: string
  mq_text :: "string option"
  mq_tags :: "string list"
  mq_status :: "memory_status option"
  mq_limit :: nat

record memory_proposal =
  mp_scope_id :: string
  mp_memory_id :: "string option"
  mp_expected_head :: "string option"
  mp_change :: memory_change
  mp_reason :: string
  mp_evidence_refs :: "string list"

record 'a memory_call =
  my_tool_call_id :: string
  my_provider_call_id :: "string option"
  my_call_index :: nat
  my_call_digest :: string
  my_payload :: 'a

record ('k, 'a) memory_batch =
  mb_node_instance_id :: string
  mb_originating_attempt_id :: string
  mb_model_call_id :: string
  mb_calls :: "'a memory_call list"
  mb_checkpoint :: "'k loop_checkpoint"

datatype 'k memory_plan =
    SearchPlan "('k, memory_search_query) memory_batch"
  | ProposalPlan string "('k, memory_proposal) memory_batch"

record 'k memory_input =
  mi_tools :: "memory_tool list"
  mi_items :: "'k turn_item list"
  mi_model_call_id :: string
  mi_node_instance_id :: string
  mi_attempt_id :: string
  mi_checkpoint :: "'k loop_checkpoint"
  mi_max_tool_calls :: nat

record 'k memory_env =
  my_ledger :: "'k ledger_env"
  my_decode_search :: "json \<Rightarrow> memory_search_query option"
  my_decode_proposal :: "json \<Rightarrow> memory_proposal option"
  my_encode_query :: "memory_search_query \<Rightarrow> json"
  my_encode_proposal :: "memory_proposal \<Rightarrow> json"
    \<comment> \<open>the (de)serialisations that \<open>serde\<close> derives\<close>

definition memory_digest :: "'k memory_env \<Rightarrow> string \<Rightarrow> json \<Rightarrow> memory_grant \<Rightarrow> string + string" where
  "memory_digest env key payload grant =
     map_errR (\<lambda>_. ''memory_tool_digest_failed'')
       (canonical_hash (lg_serde (my_ledger env)) (lg_sha (my_ledger env))
         (json_object [(key, payload), (''grant'', lg_encode_memory_grant (my_ledger env) grant),
            (''policyVersion'', json_nat TOOL_CALL_POLICY_VERSION)]))"

section \<open>Arguments\<close>

definition parse_search_arguments :: "'k memory_env \<Rightarrow> json \<Rightarrow> memory_grant \<Rightarrow> string + memory_search_query" where
  "parse_search_arguments env v grant =
     bindR (of_optionR ''memory_search_arguments_invalid'' (my_decode_search env v)) (\<lambda>decoded.
     let query = decoded\<lparr>mq_tags := remdups_adj (sort (mq_tags decoded))\<rparr> in
     bindR (ensureR (mq_scope_id query \<in> set (mg_scopes grant) \<and> mq_limit query \<noteq> 0
          \<and> mq_limit query \<le> (case mg_max_results grant of None \<Rightarrow> 20 | Some n \<Rightarrow> n) \<and> mq_limit query \<le> 100
          \<and> (case mq_text query of None \<Rightarrow> True | Some t \<Rightarrow> trim t \<noteq> [] \<and> length t \<le> 4096)
          \<and> mq_status query \<in> {None, Some MemoryActive, Some MemoryObsolete}) ''memory_search_grant_denied'') (\<lambda>_.
     Inr query))"

fun normalize_change :: "serde \<Rightarrow> memory_change \<Rightarrow> string + memory_change" where
  "normalize_change sd (CreateMemory c) = bindR (normalize_content sd c) (\<lambda>c'. Inr (CreateMemory c'))"
| "normalize_change sd (ReplaceMemory c) = bindR (normalize_content sd c) (\<lambda>c'. Inr (ReplaceMemory c'))"
| "normalize_change sd change = Inr change"

fun is_create :: "memory_change \<Rightarrow> bool" where
  "is_create (CreateMemory _) = True"
| "is_create _ = False"

definition normalize_proposal :: "'k memory_env \<Rightarrow> memory_proposal \<Rightarrow> memory_grant \<Rightarrow> string + memory_proposal" where
  "normalize_proposal env p grant =
     bindR (ensureR (mp_scope_id p \<in> set (mg_scopes grant)) ''memory_proposal_grant_denied'') (\<lambda>_.
     bindR (validate_proposal_material (mp_scope_id p) (mp_reason p) (mp_evidence_refs p) 1 TOOL_CALL_POLICY_VERSION) (\<lambda>_.
     bindR (normalize_change (lg_serde (my_ledger env)) (mp_change p)) (\<lambda>change.
     let p' = p\<lparr>mp_change := change\<rparr> in
     bindR (map_errR (\<lambda>_. ''memory_proposal_arguments_invalid'')
         (to_vec (lg_serde (my_ledger env)) (my_encode_proposal env p'))) (\<lambda>bytes.
     bindR (ensureR (is_create change = (mp_memory_id p' = None) \<and> is_create change = (mp_expected_head p' = None)
          \<and> length bytes \<le> (case mg_max_proposal_bytes grant of None \<Rightarrow> 0 | Some n \<Rightarrow> n))
         ''memory_proposal_arguments_invalid'') (\<lambda>_.
     Inr p')))))"

section \<open>The batch\<close>

definition memory_checkpoint :: "tool_call_status \<Rightarrow> string option \<Rightarrow> 'a memory_call \<Rightarrow> call_checkpoint" where
  "memory_checkpoint status wait_id call =
     \<lparr>cc_tool_call_id = my_tool_call_id call, cc_call_index = my_call_index call,
      cc_call_digest = my_call_digest call, cc_status = status, cc_effect_id = None, cc_output_ref = None,
      cc_wait_id = wait_id\<rparr>"

fun plan_memory_calls ::
  "(json \<Rightarrow> memory_grant \<Rightarrow> string + 'a) \<Rightarrow> ('a \<Rightarrow> memory_grant \<Rightarrow> string + string) \<Rightarrow> string \<Rightarrow> string
     \<Rightarrow> (tool_call_ir \<times> memory_tool) list \<Rightarrow> nat \<Rightarrow> string + 'a memory_call list" where
  "plan_memory_calls parse digest prefix model_call_id [] index = Inr []"
| "plan_memory_calls parse digest prefix model_call_id ((call, t) # calls) index =
     bindR (parse (tc_arguments call) (mt_grant t)) (\<lambda>payload.
     bindR (digest payload (mt_grant t)) (\<lambda>d.
     bindR (plan_memory_calls parse digest prefix model_call_id calls (index + 1)) (\<lambda>rest.
     Inr (\<lparr>my_tool_call_id = numbered prefix model_call_id index, my_provider_call_id = tc_provider_call_id call,
           my_call_index = index, my_call_digest = d, my_payload = payload\<rparr> # rest))))"

definition seal_memory :: "'k memory_env \<Rightarrow> 'k loop_checkpoint \<Rightarrow> string + 'k loop_checkpoint" where
  "seal_memory env c = map_errR (\<lambda>_. ''memory_tool_checkpoint_invalid'') (seal (my_ledger env) c)"

definition memory_batch_of :: "'k memory_input \<Rightarrow> 'a memory_call list \<Rightarrow> 'k loop_checkpoint \<Rightarrow> ('k, 'a) memory_batch" where
  "memory_batch_of input calls c =
     \<lparr>mb_node_instance_id = mi_node_instance_id input, mb_originating_attempt_id = mi_attempt_id input,
      mb_model_call_id = mi_model_call_id input, mb_calls = calls, mb_checkpoint = c\<rparr>"

definition terminal_checkpoint ::
    "'k memory_env \<Rightarrow> 'k memory_input \<Rightarrow> 'a memory_call list \<Rightarrow> nat \<Rightarrow> string + 'k loop_checkpoint" where
  "terminal_checkpoint env input calls used =
     seal_memory env ((mi_checkpoint input)\<lparr>lk_current_batch := map (memory_checkpoint ToolCompleted None) calls,
       lk_tool_calls_used := used,
       lk_effect_watermark := (if calls = [] then [] else my_tool_call_id (last calls))\<rparr>)"

definition plan_search ::
    "'k memory_env \<Rightarrow> 'k memory_input \<Rightarrow> (tool_call_ir \<times> memory_tool) list \<Rightarrow> nat \<Rightarrow> string + 'k memory_plan" where
  "plan_search env input calls used =
     bindR (plan_memory_calls (parse_search_arguments env) (\<lambda>q. memory_digest env ''query'' (my_encode_query env q))
       ''memorysearch'' (mi_model_call_id input) calls 0) (\<lambda>planned.
     bindR (terminal_checkpoint env input planned used) (\<lambda>c.
     Inr (SearchPlan (memory_batch_of input planned c))))"

definition parse_proposal :: "'k memory_env \<Rightarrow> json \<Rightarrow> memory_grant \<Rightarrow> string + memory_proposal" where
  "parse_proposal env v grant =
     bindR (of_optionR ''memory_proposal_arguments_invalid'' (my_decode_proposal env v)) (\<lambda>p.
     normalize_proposal env p grant)"

definition plan_proposals ::
    "'k memory_env \<Rightarrow> 'k memory_input \<Rightarrow> (tool_call_ir \<times> memory_tool) list \<Rightarrow> nat \<Rightarrow> string + 'k memory_plan" where
  "plan_proposals env input calls used =
     (let wait_id = ''wait_memory_review_'' @ mi_model_call_id input in
      bindR (plan_memory_calls (parse_proposal env) (\<lambda>p. memory_digest env ''input'' (my_encode_proposal env p))
        ''memoryproposal'' (mi_model_call_id input) calls 0) (\<lambda>planned.
      let c = mi_checkpoint input in
      bindR (seal_memory env (c\<lparr>lk_current_batch := map (memory_checkpoint ToolAwaitingApproval (Some wait_id)) planned,
          lk_tool_calls_used := used, lk_effect_watermark := wait_id, lk_wait_ids := lk_wait_ids c @ [wait_id]\<rparr>)) (\<lambda>sealed.
      Inr (ProposalPlan wait_id (memory_batch_of input planned sealed)))))"

definition find_memory_tool :: "memory_tool list \<Rightarrow> tool_call_ir \<Rightarrow> memory_tool option" where
  "find_memory_tool tools call = find (\<lambda>t. mt_exposed_name t = tc_name call) tools"

definition plan_memory_tool_batch :: "'k memory_env \<Rightarrow> 'k memory_input \<Rightarrow> string + 'k memory_plan option" where
  "plan_memory_tool_batch env input =
     (let calls = requested_calls (mi_items input); found = map (find_memory_tool (mi_tools input)) calls in
      if list_all (\<lambda>t. t = None) found then Inr None
      else if None \<in> set found then Inl ''mixed_memory_tool_batch''
      else
        let tools = map the found; capability = mg_capability (mt_grant (hd tools)) in
        if list_ex (\<lambda>t. mg_capability (mt_grant t) \<noteq> capability) tools then Inl ''mixed_memory_capability_batch''
        else
          bindR (of_optionR ''tool_call_limit_exceeded''
            (calls_used (mi_checkpoint input) (length calls) (mi_max_tool_calls input))) (\<lambda>used.
          bindR (if capability = SearchMemory then plan_search env input (zip calls tools) used
                 else plan_proposals env input (zip calls tools) used) (\<lambda>plan. Inr (Some plan))))"

end
