(* ===== verification/Llm_Output.thy ===== *)
theory Llm_Output
  imports Schema Llm_Config
begin

text \<open>
  The output of a language-model node, \<open>crates/core/src/llm/output.rs\<close>: the text of the
  assistant messages, or the JSON value that they spell, validated by the output schema; and the
  material of a repair turn.
\<close>

section \<open>Extraction\<close>

fun assistant_parts :: "'k turn_item \<Rightarrow> content_part list" where
  "assistant_parts (Message _ FromAssistant content _ _) = content"
| "assistant_parts _ = []"

fun text_of_part :: "content_part \<Rightarrow> string option" where
  "text_of_part (TextPart t) = Some t"
| "text_of_part _ = None"

text \<open>The nested loops that append the text parts of the assistant messages.\<close>

definition assistant_text :: "'k turn_item list \<Rightarrow> string" where
  "assistant_text items = concat (List.map_filter text_of_part (concat (map assistant_parts items)))"

definition text_output :: "'k turn_item list \<Rightarrow> bool \<Rightarrow> string + json" where
  "text_output items allow_empty =
     (let output = assistant_text items in
      if output = [] \<and> \<not> allow_empty then Inl ''llm_empty_output'' else Inr (JString output))"

text \<open>The loop of \<open>extract_json_bytes\<close> over all parts, which stops at the first part without text.\<close>

fun extract_parts :: "content_part list \<Rightarrow> nat \<Rightarrow> string \<Rightarrow> string + nat \<times> string" where
  "extract_parts [] n output = Inr (n, output)"
| "extract_parts (p # ps) n output =
     (case text_of_part p of
        None \<Rightarrow> Inl ''llm_json_output_non_text''
      | Some t \<Rightarrow> extract_parts ps (n + 1) (output @ t))"

definition extract_json_bytes :: "'k turn_item list \<Rightarrow> string + string" where
  "extract_json_bytes items =
     bindR (extract_parts (concat (map assistant_parts items)) 0 []) (\<lambda>(n, output).
     if n = 0 then Inl ''llm_json_output_missing'' else Inr output)"

section \<open>Finalisation\<close>

record output_env =
  oe_schema :: schema_env
  oe_no_duplicates :: "string \<Rightarrow> bool"
  oe_parse :: "string \<Rightarrow> json option"
  oe_duplicate_message :: "string \<Rightarrow> bool"
    \<comment> \<open>whether the error of the parser for this text reports a duplicate object key\<close>

definition parse_exact_json :: "output_env \<Rightarrow> string \<Rightarrow> string + json" where
  "parse_exact_json env input =
     map_errR (\<lambda>_. if oe_duplicate_message env input then ''llm_json_duplicate_key'' else ''llm_json_parse_failed'')
       (canonical_parse (oe_no_duplicates env) (oe_parse env) input)"

definition finalize_llm_output ::
    "output_env \<Rightarrow> output_spec option \<Rightarrow> 'k turn_item list \<Rightarrow> 'k turn_item list \<Rightarrow> string + json" where
  "finalize_llm_output env output last_items all_items =
     (case output of
        Some (JsonOutput spec _) \<Rightarrow>
          bindR (extract_json_bytes last_items) (\<lambda>bytes.
          bindR (parse_exact_json env bytes) (\<lambda>v.
          bindR (map_errR (\<lambda>_. ''llm_output_schema_invalid'') (validate_schema (oe_schema env) spec v)) (\<lambda>_.
          Inr v)))
      | Some (TextOutput final_text allow_empty) \<Rightarrow>
          text_output (if final_text = Some AllAssistantText then all_items else last_items) allow_empty
      | None \<Rightarrow> text_output last_items False)"

section \<open>Repair\<close>

record repair_material =
  rm_extracted_digest :: string
  rm_error_code :: string
  rm_instruction :: string

definition repair_instruction :: "string \<Rightarrow> string" where
  "repair_instruction code =
     ''The previous assistant response failed the required JSON output contract ('' @ code
     @ ''). Return exactly one JSON value matching the configured schema. Do not use Markdown fences, ''
     @ ''commentary, or any text outside the JSON value.''"

definition build_repair_material :: "output_env \<Rightarrow> string \<Rightarrow> 'k turn_item list \<Rightarrow> repair_material" where
  "build_repair_material env code last_items =
     \<lparr>rm_extracted_digest = hash_bytes (se_sha (oe_schema env)) (assistant_text last_items),
      rm_error_code = code, rm_instruction = repair_instruction code\<rparr>"

end
