(* ===== verification/Service_Operations.thy ===== *)
theory Service_Operations
  imports Channel
begin

text \<open>
  The service operations of \<open>crates/core/src/llm/service_operations.rs\<close> and
  \<open>service_validation.rs\<close>: plans for images, embeddings and compaction, and the pins that
  execute them.
\<close>

section \<open>The code\<close>

record 'k image_plan =
  ip_model :: "'k model_ref"
  ip_prompt_ref :: string
  ip_options :: "(string, metadata_value) omap"
  ip_max_images :: nat
  ip_max_total_bytes :: nat

record embedding_input =
  ei_source_ref :: string
  ei_content_hash :: string

record 'k embedding_plan =
  ep_model :: "'k model_ref"
  ep_inputs :: "embedding_input list"
  ep_dimensions :: "nat option"

datatype compact_purpose = CompactContext | CompactHistory | CompactTrace | CompactMemoryProposal

record 'k compact_plan =
  cp_model :: "'k model_ref"
  cp_input_refs :: "string list"
  cp_target_tokens :: nat
  cp_purpose :: compact_purpose

text \<open>A prepared_operation operation: the pin and the plan.\<close>

type_synonym ('k, 'p) prepared_operation = "'k operation_pin \<times> 'p"

definition valid_ref :: "string \<Rightarrow> bool" where
  "valid_ref v \<longleftrightarrow> trim v \<noteq> [] \<and> length v \<le> 512"

definition lower_hex :: "char \<Rightarrow> bool" where
  "lower_hex c \<longleftrightarrow> is_digit c \<or> 97 \<le> byte c \<and> byte c \<le> 102"

definition valid_hash :: "string \<Rightarrow> bool" where
  "valid_hash v \<longleftrightarrow> length v = 71 \<and> take 7 v = ''sha256:'' \<and> list_all lower_hex (drop 7 v)"

definition valid_option_key :: "string \<Rightarrow> bool" where
  "valid_option_key v \<longleftrightarrow>
     v \<noteq> [] \<and> length v \<le> 64 \<and> list_all (\<lambda>c. is_alpha c \<or> is_digit c \<or> c \<in> set ''_-'') v
     \<and> \<not> list_ex (\<lambda>needle. contains_str needle (map to_ascii_lower v))
           [''key'', ''token'', ''secret'', ''credential'', ''signature'']"

definition option_too_long :: "serde \<Rightarrow> metadata_value \<Rightarrow> bool" where
  "option_too_long sd v = (case to_vec sd (metadata_json v) of Inl _ \<Rightarrow> False | Inr bytes \<Rightarrow> length bytes > 4096)"

definition validate_image_plan :: "'k channel_lib \<Rightarrow> 'k image_plan \<Rightarrow> string + unit" where
  "validate_image_plan lib p =
     ensureR (is_supported_image_key (cl_keys lib) (mr_operation_key (ip_model p)) \<and> valid_ref (ip_prompt_ref p)
       \<and> 0 < ip_max_images p \<and> ip_max_images p \<le> 16
       \<and> 0 < ip_max_total_bytes p \<and> ip_max_total_bytes p \<le> 256 * 1024 * 1024 \<and> length (ip_options p) \<le> 32
       \<and> \<not> list_ex (\<lambda>(key, v). \<not> valid_option_key key \<or> option_too_long (cl_serde lib) v) (ip_options p))
       ''invalid_image_plan''"

definition validate_embedding_plan :: "'k channel_lib \<Rightarrow> 'k embedding_plan \<Rightarrow> string + unit" where
  "validate_embedding_plan lib p =
     ensureR (is_supported_embedding_key (cl_keys lib) (mr_operation_key (ep_model p))
       \<and> ep_inputs p \<noteq> [] \<and> length (ep_inputs p) \<le> 2048
       \<and> (case ep_dimensions p of None \<Rightarrow> True | Some n \<Rightarrow> 0 < n \<and> n \<le> 65536)
       \<and> list_all (\<lambda>i. valid_ref (ei_source_ref i) \<and> valid_hash (ei_content_hash i)) (ep_inputs p)
       \<and> distinct (map ei_source_ref (ep_inputs p))) ''invalid_embedding_plan''"

definition validate_compact_plan :: "'k channel_lib \<Rightarrow> 'k compact_plan \<Rightarrow> string + unit" where
  "validate_compact_plan lib p =
     ensureR (is_supported_compact_key (cl_keys lib) (mr_operation_key (cp_model p))
       \<and> cp_input_refs p \<noteq> [] \<and> length (cp_input_refs p) \<le> 1024
       \<and> list_all valid_ref (cp_input_refs p) \<and> distinct (cp_input_refs p)
       \<and> 0 < cp_target_tokens p \<and> cp_target_tokens p \<le> 1000000) ''invalid_compact_plan''"

definition supported_for_group :: "'k key_lib \<Rightarrow> 'k \<Rightarrow> operation_group \<Rightarrow> bool" where
  "supported_for_group lib k g =
     (case g of
        ImagesGroup \<Rightarrow> is_supported_image_key lib k
      | EmbeddingsGroup \<Rightarrow> is_supported_embedding_key lib k
      | CompactGroup \<Rightarrow> is_supported_compact_key lib k
      | OtherGroup \<Rightarrow> False)"

definition resolve_service_operation ::
  "'k key_lib \<Rightarrow> 'k channel_revision \<Rightarrow> 'k model_ref \<Rightarrow> operation_group \<Rightarrow> string + 'k operation_pin" where
  "resolve_service_operation lib revision model g =
     bindR (ensureR (mr_channel_id model = cr_channel_id revision \<and> trim (mr_model_id model) \<noteq> []
         \<and> kl_group lib (mr_operation_key model) = g \<and> supported_for_group lib (mr_operation_key model) g
         \<and> mr_operation_key model \<in> set (ch_operation_keys (cr_spec revision))) ''service_operation_not_allowed'') (\<lambda>_.
     bindR (of_optionR ''model_catalog_missing'' (find_catalog (cr_spec revision) (mr_operation_key model))) (\<lambda>catalog.
     bindR (ensureR (\<not> (mc_policy catalog = Allowlist \<and> find_model catalog (mr_model_id model) = None))
       ''model_not_allowed'') (\<lambda>_.
     Inr \<lparr>pin_channel_revision_id = cr_id revision, pin_model_id = mr_model_id model,
          pin_operation_key = mr_operation_key model, pin_taxonomy_version = ch_taxonomy_version (cr_spec revision),
          pin_decoder_version = ch_decoder_version (cr_spec revision)\<rparr>)))"

definition prepare_image_operation ::
  "'k channel_lib \<Rightarrow> 'k channel_revision \<Rightarrow> 'k image_plan \<Rightarrow> string + ('k, 'k image_plan) prepared_operation" where
  "prepare_image_operation lib revision p =
     bindR (validate_image_plan lib p) (\<lambda>_.
     bindR (resolve_service_operation (cl_keys lib) revision (ip_model p) ImagesGroup) (\<lambda>pin. Inr (pin, p)))"

definition prepare_embedding_operation ::
  "'k channel_lib \<Rightarrow> 'k channel_revision \<Rightarrow> 'k embedding_plan \<Rightarrow> string + ('k, 'k embedding_plan) prepared_operation" where
  "prepare_embedding_operation lib revision p =
     bindR (validate_embedding_plan lib p) (\<lambda>_.
     bindR (resolve_service_operation (cl_keys lib) revision (ep_model p) EmbeddingsGroup) (\<lambda>pin. Inr (pin, p)))"

definition prepare_compact_operation ::
  "'k channel_lib \<Rightarrow> 'k channel_revision \<Rightarrow> 'k compact_plan \<Rightarrow> string + ('k, 'k compact_plan) prepared_operation" where
  "prepare_compact_operation lib revision p =
     bindR (validate_compact_plan lib p) (\<lambda>_.
     bindR (resolve_service_operation (cl_keys lib) revision (cp_model p) CompactGroup) (\<lambda>pin. Inr (pin, p)))"

section \<open>What a pin promises\<close>

text \<open>A pin executes a model that the channel declares for the operation, and allows.\<close>

definition pin_allowed :: "'k channel_revision \<Rightarrow> 'k operation_pin \<Rightarrow> bool" where
  "pin_allowed revision pin \<longleftrightarrow>
     pin_channel_revision_id pin = cr_id revision \<and> pin_operation_key pin \<in> set (ch_operation_keys (cr_spec revision))
     \<and> pin_taxonomy_version pin = ch_taxonomy_version (cr_spec revision)
     \<and> pin_decoder_version pin = ch_decoder_version (cr_spec revision)
     \<and> (\<exists>catalog \<in> set (ch_model_catalogs (cr_spec revision)).
          mc_operation_key catalog = pin_operation_key pin
          \<and> (mc_policy catalog = Allowlist \<longrightarrow> pin_model_id pin \<in> cm_id ` set (mc_models catalog)))"

lemma find_catalog_Some:
  "find_catalog spec k = Some c \<Longrightarrow> c \<in> set (ch_model_catalogs spec) \<and> mc_operation_key c = k"
  by (auto simp: find_catalog_def find_Some_iff)

lemma find_model_None: "find_model c i = None \<longleftrightarrow> i \<notin> cm_id ` set (mc_models c)"
  by (auto simp: find_model_def find_None_iff)

lemma resolve_service_operation_allowed:
  "resolve_service_operation lib revision model g = Inr pin \<Longrightarrow>
     pin_allowed revision pin \<and> pin_model_id pin = mr_model_id model \<and> supported_for_group lib (pin_operation_key pin) g"
  by (auto simp: resolve_service_operation_def bindR_eq_Inr pin_allowed_def find_model_None
      dest!: find_catalog_Some)

end
