(* ===== verification/Llm_Transcript.thy ===== *)
theory Llm_Transcript
  imports Llm_Ir_Validate
begin

text \<open>
  The transcripts that the validation accepts: unique item ids, tool calls with unique ids, and
  tool results that each answer an earlier call of the same name, at most once.
\<close>

section \<open>Local checks\<close>

lemma eachR_Inr [simp]: "eachR f xs = Inr () \<longleftrightarrow> (\<forall>x \<in> set xs. f x = Inr ())"
  by (induction xs) (auto simp: bindR_eq_Inr)

definition id_ok :: "nat \<Rightarrow> string \<Rightarrow> bool" where
  "id_ok n s \<longleftrightarrow> s \<noteq> [] \<and> length s \<le> n \<and> \<not> has_control s"

lemma bounded_id_Inr [simp]: "bounded_id s n code = Inr () \<longleftrightarrow> id_ok n s"
  by (simp add: bounded_id_def id_ok_def)

fun part_ok :: "content_part \<Rightarrow> bool" where
  "part_ok (TextPart text) = (text \<noteq> [] \<and> length text \<le> MAX_TEXT_BYTES)"
| "part_ok (ImagePart r) = (artifact_valid r \<and> starts_with ''image/'' (ar_media_type r))"
| "part_ok (FilePart r) = artifact_valid r"

lemma validate_part_Inr [simp]: "validate_part p = Inr () \<longleftrightarrow> part_ok p"
  by (cases p) (auto simp: bindR_eq_Inr validate_artifact_def)

definition content_ok :: "bool \<Rightarrow> content_part list \<Rightarrow> bool" where
  "content_ok required content \<longleftrightarrow>
     length content \<le> 256 \<and> (required \<longrightarrow> content \<noteq> []) \<and> list_all part_ok content"

lemma validate_content_parts_Inr [simp]:
  "validate_content_parts content required = Inr () \<longleftrightarrow> content_ok required content"
  by (auto simp: validate_content_parts_def content_ok_def bindR_eq_Inr list_all_iff)

definition continuation_ok ::
  "('k, 'g) ir_env \<Rightarrow> 'k continuation_ref \<Rightarrow> bool" where
  "continuation_ok env r \<longleftrightarrow>
     ie_generation env (cr_operation_key r)
     \<and> cr_operation_taxonomy_version r = 1 \<and> cr_adapter_decoder_version r = 1
     \<and> list_all (id_ok 128) [cr_adapter_key r, cr_model_call_id r, se_object_id (cr_entry_ref r),
         se_entry_key (cr_entry_ref r)]
     \<and> is_digest (cr_digest r)"

lemma validate_continuation_Inr [simp]:
  "validate_continuation env r expected = Inr () \<longleftrightarrow>
     continuation_ok env r \<and> (\<forall>call. expected = Some call \<longrightarrow> cr_model_call_id r = call)"
  by (cases expected)
    (auto simp: validate_continuation_def continuation_ok_def supports_operation_versions_def bindR_eq_Inr)

lemma validate_opaque_Inr [simp]:
  "validate_opaque env r = Inr () \<longleftrightarrow> (\<forall>c. r = Some c \<longrightarrow> continuation_ok env c)"
  by (cases r) (simp_all add: validate_opaque_def)

definition tool_name_ok :: "string \<Rightarrow> bool" where
  "tool_name_ok s \<longleftrightarrow> s \<noteq> [] \<and> length s \<le> 128
     \<and> list_all (\<lambda>c. is_alpha c \<or> is_digit c \<or> c \<in> {CHR ''_'', CHR ''-'', CHR ''.''}) s"

lemma validate_tool_name_Inr [simp]: "validate_tool_name s = Inr () \<longleftrightarrow> tool_name_ok s"
  unfolding validate_tool_name_def tool_name_ok_def ensureR_eq_Inr ..

text \<open>What is checked of an item on its own.\<close>

fun item_ok :: "('k, 'g) ir_env \<Rightarrow> 'k turn_item \<Rightarrow> bool" where
  "item_ok env (Message _ _ content _ placeholder) =
     (if placeholder then content = [] else content_ok True content)"
| "item_ok env (AssistantToolCall _ call) =
     (id_ok 128 (tc_id call) \<and> tool_name_ok (tc_name call)
      \<and> (\<exists>bytes. to_vec (ie_serde env) (tc_arguments call) = Inr bytes \<and> length bytes \<le> 256 * 1024))"
| "item_ok env (ToolResult _ _ _ _ content) = content_ok True content"
| "item_ok env (HostedTool _ binding kd _ display opaque) =
     (id_ok 128 binding \<and> id_ok 128 kd \<and> content_ok False display
      \<and> (\<forall>c. opaque = Some c \<longrightarrow> continuation_ok env c))"
| "item_ok env (Reasoning _ summary opaque) =
     ((\<forall>s. summary = Some s \<longrightarrow> length s \<le> 16 * 1024) \<and> (\<forall>c. opaque = Some c \<longrightarrow> continuation_ok env c))"

section \<open>Calls and results\<close>

fun item_call :: "'k turn_item \<Rightarrow> (string \<times> string) option" where
  "item_call (AssistantToolCall _ call) = Some (tc_id call, tc_name call)"
| "item_call _ = None"

fun item_result :: "'k turn_item \<Rightarrow> (string \<times> string) option" where
  "item_result (ToolResult _ call name _ _) = Some (call, name)"
| "item_result _ = None"

definition calls_of :: "'k turn_item list \<Rightarrow> (string \<times> string) list" where
  "calls_of items = List.map_filter item_call items"

definition results_of :: "'k turn_item list \<Rightarrow> (string \<times> string) list" where
  "results_of items = List.map_filter item_result items"

lemma calls_of_simps [simp]:
  "calls_of [] = []" "calls_of (it # items) = (case item_call it of None \<Rightarrow> [] | Some c \<Rightarrow> [c]) @ calls_of items"
  by (simp_all add: calls_of_def map_filter_simps split: option.split)

lemma results_of_simps [simp]:
  "results_of [] = []"
  "results_of (it # items) = (case item_result it of None \<Rightarrow> [] | Some c \<Rightarrow> [c]) @ results_of items"
  by (simp_all add: results_of_def map_filter_simps split: option.split)

definition well_formed_transcript :: "('k, 'g) ir_env \<Rightarrow> string set \<Rightarrow> 'k turn_item list \<Rightarrow> bool" where
  "well_formed_transcript env ids items \<longleftrightarrow>
     list_all (\<lambda>it. id_ok 128 (item_id it) \<and> item_ok env it) items
     \<and> distinct (map item_id items) \<and> set (map item_id items) \<inter> ids = {}
     \<and> distinct (map fst (calls_of items)) \<and> distinct (map fst (results_of items))
     \<and> (\<forall>i < length items. \<forall>c n. item_result (items ! i) = Some (c, n) \<longrightarrow> (c, n) \<in> set (calls_of (take i items)))"

text \<open>The same relative to what has been seen before.\<close>

definition continues :: "('k, 'g) ir_env \<Rightarrow> transcript_state \<Rightarrow> 'k turn_item list \<Rightarrow> bool" where
  "continues env st items \<longleftrightarrow>
     list_all (\<lambda>it. id_ok 128 (item_id it) \<and> item_ok env it) items
     \<and> distinct (map item_id items) \<and> set (map item_id items) \<inter> ts_ids st = {}
     \<and> distinct (map fst (calls_of items)) \<and> fst ` set (calls_of items) \<inter> dom (ts_calls st) = {}
     \<and> distinct (map fst (results_of items)) \<and> fst ` set (results_of items) \<inter> ts_results st = {}
     \<and> (\<forall>i < length items. \<forall>c n. item_result (items ! i) = Some (c, n) \<longrightarrow>
          ts_calls st c = Some n \<or> (c, n) \<in> set (calls_of (take i items)))"

definition after_item :: "'k turn_item \<Rightarrow> transcript_state \<Rightarrow> transcript_state" where
  "after_item it st =
     \<lparr>ts_ids = insert (item_id it) (ts_ids st),
      ts_calls = (case item_call it of None \<Rightarrow> ts_calls st | Some (c, n) \<Rightarrow> (ts_calls st)(c \<mapsto> n)),
      ts_results = (case item_result it of None \<Rightarrow> ts_results st | Some (c, n) \<Rightarrow> insert c (ts_results st))\<rparr>"

lemma validate_item_Inr:
  "validate_item env it (st\<lparr>ts_ids := insert (item_id it) (ts_ids st)\<rparr>) = Inr st' \<longleftrightarrow>
     st' = after_item it st \<and> item_ok env it
     \<and> (\<forall>c n. item_call it = Some (c, n) \<longrightarrow> ts_calls st c = None)
     \<and> (\<forall>c n. item_result it = Some (c, n) \<longrightarrow> ts_calls st c = Some n \<and> c \<notin> ts_results st)"
  by (cases it)
    (auto simp: validate_item_def after_item_def bindR_eq_Inr content_ok_def split: option.splits)

lemma all_less_Suc_shift: "(\<forall>i < Suc n. P i) \<longleftrightarrow> P 0 \<and> (\<forall>i < n. P (Suc i))"
  by (metis less_Suc_eq_0_disj)

lemma answered_Cons:
  assumes "\<forall>c n. item_call it = Some (c, n) \<longrightarrow> ts_calls st c = None"
  shows "ts_calls st c = Some n \<or> (c, n) \<in> set (calls_of (take (Suc i) (it # items)))
    \<longleftrightarrow> ts_calls (after_item it st) c = Some n \<or> (c, n) \<in> set (calls_of (take i items))"
  using assms by (cases it) (auto simp: after_item_def)

lemma continues_Cons:
  "continues env st (it # items) \<longleftrightarrow>
     id_ok 128 (item_id it) \<and> item_id it \<notin> ts_ids st \<and> item_ok env it
     \<and> (\<forall>c n. item_call it = Some (c, n) \<longrightarrow> ts_calls st c = None)
     \<and> (\<forall>c n. item_result it = Some (c, n) \<longrightarrow> ts_calls st c = Some n \<and> c \<notin> ts_results st)
     \<and> continues env (after_item it st) items"
proof (cases "\<forall>c n. item_call it = Some (c, n) \<longrightarrow> ts_calls st c = None")
  case True
  have "(\<forall>i < length (it # items). \<forall>c n. item_result ((it # items) ! i) = Some (c, n) \<longrightarrow>
        ts_calls st c = Some n \<or> (c, n) \<in> set (calls_of (take i (it # items))))
    \<longleftrightarrow> (\<forall>c n. item_result it = Some (c, n) \<longrightarrow> ts_calls st c = Some n)
      \<and> (\<forall>i < length items. \<forall>c n. item_result (items ! i) = Some (c, n) \<longrightarrow>
          ts_calls (after_item it st) c = Some n \<or> (c, n) \<in> set (calls_of (take i items)))"
    unfolding length_Cons all_less_Suc_shift answered_Cons [OF True] by simp
  then show ?thesis
    unfolding continues_def using True by (cases it) (auto simp: after_item_def)
next
  case False
  then show ?thesis unfolding continues_def by (cases it) auto
qed

lemma validate_items_Inr: "(\<exists>st'. validate_items env items st = Inr st') \<longleftrightarrow> continues env st items"
proof (induction items arbitrary: st)
  case Nil
  show ?case by (simp add: continues_def)
next
  case (Cons it items)
  have "(\<exists>st'. validate_items env (it # items) st = Inr st') \<longleftrightarrow>
    id_ok 128 (item_id it) \<and> item_id it \<notin> ts_ids st
    \<and> (\<exists>st1. validate_item env it (st\<lparr>ts_ids := insert (item_id it) (ts_ids st)\<rparr>) = Inr st1
        \<and> (\<exists>st'. validate_items env items st1 = Inr st'))"
    by (auto simp: bindR_eq_Inr)
  then show ?case
    unfolding Cons.IH validate_item_Inr continues_Cons by blast
qed

lemma validate_transcript_Inr:
  "validate_transcript env items ids = Inr () \<longleftrightarrow> well_formed_transcript env ids items"
proof -
  have "validate_transcript env items ids = Inr () \<longleftrightarrow>
      continues env \<lparr>ts_ids = ids, ts_calls = Map.empty, ts_results = {}\<rparr> items"
    unfolding validate_items_Inr [symmetric] validate_transcript_def by (auto simp: bindR_eq_Inr)
  then show ?thesis by (simp add: continues_def well_formed_transcript_def)
qed

text \<open>
  C23: the validation accepts exactly the transcripts whose items pass their own checks, whose item
  ids are new and distinct, whose tool calls have distinct ids, and whose tool results each name
  the id and the name of a call that stands before them, no call having two results.
\<close>
theorem validate_transcript_exact:
  "validate_transcript env items ids = Inr () \<longleftrightarrow> well_formed_transcript env ids items"
  by (rule validate_transcript_Inr)

text \<open>What a valid response is.\<close>

lemma validate_response_Inr:
  assumes "validate_response_ir env r = Inr ()"
  shows "id_ok 128 (rs_model_call_id r)" "length (rs_items r) \<le> 4096" "well_formed_transcript env {} (rs_items r)"
    "\<forall>c. rs_continuation r = Some c \<longrightarrow> continuation_ok env c \<and> cr_model_call_id c = rs_model_call_id r"
  using assms
  by (auto simp: validate_response_ir_def bindR_eq_Inr validate_transcript_Inr split: option.splits)

lemma well_formed_item:
  assumes "well_formed_transcript env ids items" "it \<in> set items"
  shows "id_ok 128 (item_id it)" "item_ok env it"
  using assms by (auto simp: well_formed_transcript_def list_all_iff)

section \<open>Instructions\<close>

text \<open>
  An instruction of a valid request never has more authority than its provenance: a policy comes
  from the runtime, a system or developer instruction from the runtime or trusted configuration.
\<close>

lemma validate_instructions_Inr:
  "validate_instructions is ids = Inr ids' \<Longrightarrow>
     list_all authority_valid is \<and> distinct (map ins_id is) \<and> set (map ins_id is) \<inter> ids = {}
     \<and> ids' = ids \<union> set (map ins_id is)"
proof (induction "is" arbitrary: ids)
  case (Cons i "is")
  then show ?case by (fastforce simp: bindR_eq_Inr validate_instruction_def)
qed simp

text \<open>
  In a request that passes the validation no untrusted text stands in an instruction with
  authority: instructions whose provenance is user input or external text have the context role,
  and only the runtime states policies; the ids of instructions and transcript items are distinct.
\<close>
theorem request_authority:
  assumes "validate_request_ir env r = Inr ()" "i \<in> set (rq_instructions r)"
  shows "(cp_trust (ins_provenance i) \<in> {UserInput, ExternalUntrusted} \<longrightarrow> ins_role i = ContextInstruction)
    \<and> (ins_role i = PolicyInstruction \<longrightarrow> cp_trust (ins_provenance i) = RuntimePolicy)
    \<and> distinct (map ins_id (rq_instructions r) @ map item_id (rq_transcript r))"
proof -
  obtain ids where ids: "validate_instructions (rq_instructions r) {} = Inr ids"
    "validate_transcript env (rq_transcript r) ids = Inr ()"
    using assms(1) unfolding validate_request_ir_def by (elim bindR_InrE) auto
  note v = validate_instructions_Inr [OF ids(1)]
  have "authority_valid i" using v assms(2) by (simp add: list_all_iff)
  then have "(cp_trust (ins_provenance i) \<in> {UserInput, ExternalUntrusted} \<longrightarrow> ins_role i = ContextInstruction)
      \<and> (ins_role i = PolicyInstruction \<longrightarrow> cp_trust (ins_provenance i) = RuntimePolicy)"
    by (auto simp: authority_valid_def Let_def split: instruction_role.splits)
  moreover have "distinct (map ins_id (rq_instructions r) @ map item_id (rq_transcript r))"
    using v ids(2) by (auto simp: validate_transcript_Inr well_formed_transcript_def)
  ultimately show ?thesis by blast
qed

end
