(* ===== verification/Context_Post_Properties.thy ===== *)
theory Context_Post_Properties
  imports Context_Post_Process "HOL-Library.Code_Target_Numeral"
begin

text \<open>
  What the rules on messages keep: the contents in their order, the trust and the sensitivity they
  came with, and the alternation of the roles.
\<close>

section \<open>Labels\<close>

text \<open>The contents of the messages with the trust and the sensitivity of their provenance.\<close>

definition label_of :: "context_provenance_ir list \<Rightarrow> assembled_message \<Rightarrow> (content_part \<times> context_trust \<times> context_sensitivity) list" where
  "label_of ps m =
     (case find_provenance ps (am_provenance_id m) of
        None \<Rightarrow> []
      | Some p \<Rightarrow> map (\<lambda>x. (x, cp_trust p, cp_sensitivity p)) (filter (\<lambda>x. x \<noteq> TextPart []) (am_content m)))"

definition labelled :: "messages \<Rightarrow> (content_part \<times> context_trust \<times> context_sensitivity) list" where
  "labelled s = concat (map (label_of (snd s)) (fst s))"

text \<open>Nothing is lost, added or reordered, and nothing becomes more trusted or less sensitive.\<close>

definition no_laundering ::
  "(content_part \<times> context_trust \<times> context_sensitivity) list
     \<Rightarrow> (content_part \<times> context_trust \<times> context_sensitivity) list \<Rightarrow> bool" where
  "no_laundering = list_all2 (\<lambda>(p, t, s) (q, u, v).
     p = q \<and> trust_rank t \<le> trust_rank u \<and> sensitivity_rank s \<le> sensitivity_rank v)"

definition resolved :: "messages \<Rightarrow> bool" where
  "resolved s \<longleftrightarrow> (\<forall>m \<in> set (fst s). find_provenance (snd s) (am_provenance_id m) \<noteq> None)"

definition fresh_prompt :: "messages \<Rightarrow> bool" where
  "fresh_prompt s \<longleftrightarrow> ''ctxprov:single-prompt'' \<notin> set (map cp_id (snd s))"

definition settled_prompt :: "messages \<Rightarrow> bool" where
  "settled_prompt s \<longleftrightarrow> length (fst s) \<le> 1 \<and> list_all (\<lambda>m. am_role m = FromUser) (fst s)"

lemma no_laundering_refl [simp]: "no_laundering xs xs"
  unfolding no_laundering_def by (rule list_all2_refl) auto

lemma no_laundering_trans: "no_laundering xs ys \<Longrightarrow> no_laundering ys zs \<Longrightarrow> no_laundering xs zs"
  unfolding no_laundering_def by (rule list_all2_trans) auto

lemma labelled_append: "labelled (xs @ ys, ps) = labelled (xs, ps) @ labelled (ys, ps)"
  by (simp add: labelled_def)

lemma labelled_Cons: "labelled (m # ms, ps) = label_of ps m @ labelled (ms, ps)"
  by (simp add: labelled_def)

lemma labelled_Nil [simp]: "labelled ([], ps) = []"
  by (simp add: labelled_def)

lemma find_append: "find P (xs @ ys) = (case find P xs of None \<Rightarrow> find P ys | Some x \<Rightarrow> Some x)"
  by (induction xs) auto

lemma find_provenance_append:
  "find_provenance ps i \<noteq> None \<Longrightarrow> find_provenance (ps @ qs) i = find_provenance ps i"
  by (auto simp: find_provenance_def find_append)

lemma labelled_weaken: "resolved (ms, ps) \<Longrightarrow> labelled (ms, ps @ qs) = labelled (ms, ps)"
  by (auto simp: labelled_def resolved_def label_of_def find_provenance_append intro!: arg_cong [where f = concat])

lemma label_empty: "content_is_empty (am_content m) \<Longrightarrow> label_of ps m = []"
  by (auto simp: label_of_def content_is_empty_def list_all_iff filter_empty_conv split: option.splits)

lemma labelled_filter:
  "(\<And>m. m \<in> set ms \<Longrightarrow> \<not> P m \<Longrightarrow> content_is_empty (am_content m)) \<Longrightarrow> labelled (filter P ms, ps) = labelled (ms, ps)"
  by (induction ms) (auto simp: labelled_Cons label_empty)

section \<open>The rules\<close>

lemma find_provenance_ids: "i \<in> set (map cp_id ps) \<longleftrightarrow> find_provenance ps i \<noteq> None"
  by (induction ps) (auto simp: find_provenance_def)

lemma resolved_ids: "resolved (ms, ps) \<longleftrightarrow> (\<forall>m \<in> set ms. am_provenance_id m \<in> set (map cp_id ps))"
  by (simp only: resolved_def fst_conv snd_conv find_provenance_ids)

lemma find_mark_merged:
  "find_provenance (update_first P (mark_merged n) ps) i = find_provenance ps i
   \<or> find_provenance (update_first P (mark_merged n) ps) i = map_option (mark_merged n) (find_provenance ps i)"
  by (induction ps) (auto simp: find_provenance_def mark_merged_def)

lemma label_mark_merged [simp]: "label_of (update_first P (mark_merged n) ps) m = label_of ps m"
  using find_mark_merged [of P n ps "am_provenance_id m"]
  by (auto simp: label_of_def mark_merged_def split: option.splits)

lemma ids_mark_merged [simp]: "map cp_id (update_first P (mark_merged n) ps) = map cp_id ps"
  by (induction ps) (auto simp: mark_merged_def)

lemma resolved_mark_merged [simp]: "resolved (ms, update_first P (mark_merged n) ps) = resolved (ms, ps)"
  by (simp only: resolved_ids ids_mark_merged)

lemma labelled_mark_merged [simp]: "labelled (ms, update_first P (mark_merged n) ps) = labelled (ms, ps)"
proof -
  have "label_of (update_first P (mark_merged n) ps) = label_of ps" by (rule ext) (rule label_mark_merged)
  then show ?thesis by (simp add: labelled_def)
qed

lemma merge_loop_keeps:
  "merge_loop out ps ms = Inr (ms', ps') \<Longrightarrow> resolved (rev out @ ms, ps) \<Longrightarrow>
     labelled (ms', ps') = labelled (rev out @ ms, ps) \<and> resolved (ms', ps') \<and> map cp_id ps' = map cp_id ps"
proof (induction out ps ms rule: merge_loop.induct)
  case (3 prev out ps m ms)
  obtain l r where lr: "find_provenance ps (am_provenance_id prev) = Some l"
    "find_provenance ps (am_provenance_id m) = Some r"
    using "3.prems"(1) by (auto simp: bindR_eq_Inr provenance_by_id_def)
  show ?case
  proof (cases "am_role prev = am_role m \<and> cp_trust l = cp_trust r \<and> cp_sensitivity l = cp_sensitivity r")
    case True
    let ?prev = "prev\<lparr>am_content := am_content prev @ am_content m\<rparr>"
    let ?ps = "update_first (\<lambda>p. cp_id p = am_provenance_id prev) (mark_merged ''merge_adjacent_messages'') ps"
    have run: "merge_loop (?prev # out) ?ps ms = Inr (ms', ps')"
      using "3.prems"(1) True lr by (simp add: provenance_by_id_def)
    have res: "resolved (rev (?prev # out) @ ms, ?ps)"
      unfolding resolved_mark_merged using "3.prems"(2) by (auto simp: resolved_def)
    have "label_of ps ?prev = label_of ps prev @ label_of ps m" using True lr by (simp add: label_of_def)
    then show ?thesis
      using "3.IH"(1) [of l r] lr True run res
      by (simp add: provenance_by_id_def labelled_append labelled_Cons)
  next
    case False
    then have "merge_loop (m # prev # out) ps ms = Inr (ms', ps')"
      using "3.prems"(1) lr by (simp only: merge_loop.simps provenance_by_id_def of_optionR_simps bindR_simps if_False)
    then show ?thesis using "3.IH"(2) [of l r] lr False "3.prems"(2) by (simp add: provenance_by_id_def)
  qed
qed auto

lemma alternation_loop_labels:
  assumes "resolved (ms, ps)"
  shows "labelled (fst (alternation_loop r n ms), ps @ qs) = labelled (ms, ps)
    \<and> (\<forall>m \<in> set (fst (alternation_loop r n ms)).
         m \<in> set ms \<or> am_provenance_id m \<in> set (map cp_id (snd (alternation_loop r n ms))))
    \<and> (\<forall>p \<in> set (snd (alternation_loop r n ms)). \<exists>k. cp_id p = ''ctxprov:alternation:'' @ show_nat k)"
  using assms
proof (induction r n ms rule: alternation_loop.induct)
  case (2 expected n m ms)
  have m: "label_of (ps @ qs) m = label_of ps m" and res: "resolved (ms, ps)"
    using "2.prems" by (auto simp: label_of_def resolved_def find_provenance_append)
  have new: "label_of (ps @ qs) (placeholder_message (n + 1) expected) = []"
    by (rule label_empty) (simp add: placeholder_message_def content_is_empty_def)
  show ?case
  proof (cases "am_role m = expected")
    case True
    then show ?thesis using "2.IH"(1) res m by (auto simp: labelled_Cons split: prod.splits)
  next
    case False
    then show ?thesis
      using "2.IH"(2) res m new
      by (auto simp: labelled_Cons placeholder_message_def alternation_provenance_def split: prod.splits)
  qed
qed simp

lemma strict_alternation_keeps:
  assumes "resolved s"
  shows "labelled (strict_alternation s) = labelled s" "resolved (strict_alternation s)"
    "fresh_prompt s \<Longrightarrow> fresh_prompt (strict_alternation s)"
proof -
  obtain ms ps where s: "s = (ms, ps)" by (cases s)
  let ?r = "alternation_loop FromUser 0 ms"
  have r: "strict_alternation s = (fst ?r, ps @ snd ?r)"
    by (simp add: strict_alternation_def s split: prod.splits)
  note k = alternation_loop_labels [OF assms [unfolded s], of FromUser 0 "snd ?r"]
  show "labelled (strict_alternation s) = labelled s" unfolding r using k unfolding s by blast
  show "resolved (strict_alternation s)"
    unfolding r resolved_def fst_conv snd_conv
  proof
    fix m
    assume "m \<in> set (fst ?r)"
    then have "am_provenance_id m \<in> set (map cp_id (ps @ snd ?r))"
      using k assms [unfolded s resolved_ids] by fastforce
    then show "find_provenance (ps @ snd ?r) (am_provenance_id m) \<noteq> None" by (simp only: find_provenance_ids simp_thms)
  qed
  have "cp_id p \<noteq> ''ctxprov:single-prompt''" if p: "p \<in> set (snd ?r)" for p
  proof -
    obtain j where "cp_id p = ''ctxprov:alternation:'' @ show_nat j" using k p by blast
    then show ?thesis by simp
  qed
  then have "''ctxprov:single-prompt'' \<notin> set (map cp_id (snd ?r))" by force
  then show "fresh_prompt (strict_alternation s)" if "fresh_prompt s"
    using that unfolding r fresh_prompt_def snd_conv unfolding s by simp
qed

lemma max_by_ge: "key best \<le> key (max_by key best xs)" "x \<in> set xs \<Longrightarrow> key x \<le> key (max_by key best xs)"
proof (induction xs arbitrary: best)
  case (Cons y ys)
  {
    case 1
    show ?case using Cons.IH(1) [of best] Cons.IH(1) [of y] by auto
  next
    case 2
    then show ?case using Cons.IH(2) [of best] Cons.IH(2) [of y] Cons.IH(1) [of best] Cons.IH(1) [of y] by auto
  }
qed simp_all

text \<open>The messages joined into one, under the greatest of their labels.\<close>

lemma labels_joined:
  assumes "list_all2 (\<lambda>m p. find_provenance ps (am_provenance_id m) = Some p) ms refs"
    "\<And>p. p \<in> set refs \<Longrightarrow> trust_rank (cp_trust p) \<le> trust_rank t \<and> sensitivity_rank (cp_sensitivity p) \<le> sensitivity_rank v"
  shows "no_laundering (labelled (ms, ps))
    (map (\<lambda>x. (x, t, v)) (filter (\<lambda>x. x \<noteq> TextPart []) (concat (map am_content ms))))"
  using assms
proof (induction ms refs rule: list_all2_induct)
  case (Cons m ms p refs)
  then have "no_laundering (label_of ps m) (map (\<lambda>x. (x, t, v)) (filter (\<lambda>x. x \<noteq> TextPart []) (am_content m)))"
    by (auto simp: label_of_def no_laundering_def list_all2_map1 list_all2_map2 intro!: list_all2_refl)
  with Cons show ?case by (simp add: labelled_Cons no_laundering_def list_all2_appendI)
qed simp

lemma single_prompt_keeps:
  assumes run: "single_prompt s = Inr s'" and res: "resolved s" and ok: "fresh_prompt s \<or> settled_prompt s"
  shows "no_laundering (labelled s) (labelled s')" "resolved s'" "settled_prompt s'"
proof -
  obtain ms0 ps where s: "s = (ms0, ps)" by (cases s)
  define ms where "ms = filter (\<lambda>m. \<not> is_placeholder ps m) ms0"
  have same: "labelled (ms, ps) = labelled s"
    unfolding ms_def s by (rule labelled_filter) (simp add: is_placeholder_def)
  have res': "resolved (ms, ps)" using res by (auto simp: ms_def s resolved_def)
  have "no_laundering (labelled s) (labelled s') \<and> resolved s' \<and> settled_prompt s'"
  proof (cases "ms = [] \<or> (length ms = 1 \<and> am_role (hd ms) = FromUser)")
    case True
    then have "s' = (ms, ps)"
      using run by (auto simp: single_prompt_def s ms_def [symmetric] Let_def)
    then show ?thesis using True same res' by (cases ms) (auto simp: settled_prompt_def)
  next
    case False
    obtain refs where refs: "mapR (\<lambda>m. provenance_by_id ps (am_provenance_id m)) ms = Inr refs"
      and step: "(case (ms, refs) of
             (m # _, p # others) \<Rightarrow>
               bindR (ensureR (\<not> (list_ex (\<lambda>p. cp_sensitivity p = PublicData) refs
                   \<and> list_ex (\<lambda>p. cp_sensitivity p = SensitiveData) refs))
                 ''context_post_process_sensitivity_boundary'') (\<lambda>_.
               Inr ([\<lparr>am_id = am_id m, am_role = FromUser, am_content = concat (map am_content ms),
                      am_provenance_id = ''ctxprov:single-prompt'', am_placeholder = False\<rparr>],
                    ps @ [single_prompt_provenance p others]))
           | _ \<Rightarrow> Inr ([], ps)) = Inr s'"
      using run False unfolding single_prompt_def s fst_conv snd_conv ms_def [symmetric] Let_def
      by (auto simp: bindR_eq_Inr)
    have l: "list_all2 (\<lambda>m p. find_provenance ps (am_provenance_id m) = Some p) ms refs"
      using refs by (simp add: mapR_eq_Inr provenance_by_id_def)
    obtain m mr p others where c: "ms = m # mr" "refs = p # others"
      using False l by (cases ms; cases refs) auto
    let ?q = "single_prompt_provenance p others"
    have s': "s' = ([\<lparr>am_id = am_id m, am_role = FromUser, am_content = concat (map am_content ms),
                      am_provenance_id = ''ctxprov:single-prompt'', am_placeholder = False\<rparr>], ps @ [?q])"
      using step unfolding c by (auto simp: bindR_eq_Inr)
    have "\<not> settled_prompt s"
    proof
      assume "settled_prompt s"
      then have "length ms0 \<le> 1" "\<forall>m \<in> set ms. am_role m = FromUser"
        by (auto simp: settled_prompt_def s ms_def list_all_iff)
      moreover have "length ms \<le> length ms0" by (simp add: ms_def)
      ultimately show False using False c by (cases mr) auto
    qed
    then have "find_provenance ps ''ctxprov:single-prompt'' = None"
      using ok find_provenance_ids [of "''ctxprov:single-prompt''" ps] by (auto simp: fresh_prompt_def s)
    then have f: "find_provenance (ps @ [?q]) ''ctxprov:single-prompt'' = Some ?q"
      by (auto simp: find_provenance_def find_append single_prompt_provenance_def)
    have "trust_rank (cp_trust r) \<le> trust_rank (cp_trust ?q) \<and> sensitivity_rank (cp_sensitivity r) \<le> sensitivity_rank (cp_sensitivity ?q)"
      if "r \<in> set refs" for r
      using that unfolding c by (auto simp: single_prompt_provenance_def intro: max_by_ge)
    from labels_joined [OF l this] have "no_laundering (labelled s) (labelled s')"
      by (simp add: s' labelled_Cons same [symmetric] label_of_def f)
    moreover have "resolved s' \<and> settled_prompt s'" by (simp add: s' resolved_def f settled_prompt_def)
    ultimately show ?thesis by blast
  qed
  then show "no_laundering (labelled s) (labelled s')" "resolved s'" "settled_prompt s'" by auto
qed

section \<open>All rules\<close>

definition post_invariant :: "messages \<Rightarrow> bool" where
  "post_invariant s \<longleftrightarrow> resolved s \<and> (fresh_prompt s \<or> settled_prompt s)"

lemma settled_merge: "length ms \<le> 1 \<Longrightarrow> merge_loop [] ps ms = Inr (ms, ps)"
  by (cases ms) auto

lemma settled_alternation: "settled_prompt (ms, ps) \<Longrightarrow> strict_alternation (ms, ps) = (ms, ps)"
  by (cases ms) (auto simp: settled_prompt_def strict_alternation_def)

lemma rule_keeps:
  assumes "apply_rule_post rule s = Inr s'" "post_invariant s"
  shows "no_laundering (labelled s) (labelled s') \<and> post_invariant s'"
proof -
  obtain ms ps where s: "s = (ms, ps)" by (cases s)
  have res: "resolved s" and ok: "fresh_prompt s \<or> settled_prompt s" using assms(2) by (auto simp: post_invariant_def)
  show ?thesis
  proof (cases rule)
    case StripEmptyMessages
    then have s': "s' = (strip_empty ms, ps)" using assms(1) by (simp add: apply_rule_post_def s)
    have "labelled s' = labelled s" unfolding s' s strip_empty_def by (rule labelled_filter) simp
    moreover have "length (strip_empty ms) \<le> length ms" by (simp add: strip_empty_def)
    then have "length ms \<le> 1 \<Longrightarrow> length (strip_empty ms) \<le> 1" by linarith
    then have "post_invariant s'"
      using res ok unfolding strip_empty_def
      by (auto simp: post_invariant_def s' s strip_empty_def resolved_def fresh_prompt_def settled_prompt_def list_all_iff)
    ultimately show ?thesis by simp
  next
    case MergeAdjacentMessages
    then have run: "merge_loop [] ps ms = Inr (fst s', snd s')" using assms(1) by (simp add: apply_rule_post_def merge_adjacent_def s)
    from merge_loop_keeps [OF run] res have k: "labelled s' = labelled s" "resolved s'" "map cp_id (snd s') = map cp_id ps"
      by (auto simp: s)
    then have "fresh_prompt s' \<or> settled_prompt s'"
      using ok run settled_merge [of ms ps] by (auto simp: fresh_prompt_def settled_prompt_def s)
    with k show ?thesis by (simp add: post_invariant_def)
  next
    case StrictAlternation
    then have s': "s' = strict_alternation s" using assms(1) by (simp add: apply_rule_post_def)
    then show ?thesis
      using strict_alternation_keeps [OF res] ok settled_alternation [of ms ps] s
      by (auto simp: post_invariant_def)
  next
    case SinglePrompt
    then show ?thesis
      using assms(1) single_prompt_keeps [OF _ res ok, of s'] by (simp add: apply_rule_post_def post_invariant_def)
  qed
qed

lemma post_process_keeps:
  "apply_post_process rs s = Inr s' \<Longrightarrow> post_invariant s \<Longrightarrow>
     no_laundering (labelled s) (labelled s') \<and> post_invariant s'"
proof (induction rs arbitrary: s)
  case (Cons rule rs)
  then obtain t where t: "apply_rule_post rule s = Inr t" "apply_post_process rs t = Inr s'"
    by (auto simp: bindR_eq_Inr)
  from rule_keeps [OF t(1) Cons.prems(2)] Cons.IH [OF t(2)] no_laundering_trans show ?case by blast
qed simp

text \<open>Two answers of the assistant, one of them private, joined into one prompt.\<close>

definition mixed_provenance :: "string \<Rightarrow> context_trust \<Rightarrow> context_sensitivity \<Rightarrow> context_provenance_ir" where
  "mixed_provenance i trust sens =
     \<lparr>cp_id = i, cp_item_id = ''log'', cp_source_type = ''history'', cp_source_id = i, cp_trust = trust,
      cp_sensitivity = sens, cp_final_role = AssistantRole, cp_transformations = []\<rparr>"

definition mixed_message :: "string \<Rightarrow> string \<Rightarrow> assembled_message" where
  "mixed_message i t =
     \<lparr>am_id = i, am_role = FromAssistant, am_content = [TextPart t], am_provenance_id = i, am_placeholder = False\<rparr>"

definition mixed_messages :: messages where
  "mixed_messages =
     ([mixed_message ''a'' ''A'', mixed_message ''b'' ''B'', mixed_message ''c'' ''C''],
      [mixed_provenance ''a'' UserInput PrivateData, mixed_provenance ''b'' UserInput PrivateData,
       mixed_provenance ''c'' ExternalUntrusted PublicData])"

definition mixed_rules :: "post_process_rule list" where
  "mixed_rules = [MergeAdjacentMessages, StrictAlternation, SinglePrompt]"

definition mixed_result :: messages where
  "mixed_result = projr (apply_post_process mixed_rules mixed_messages)"

lemma mixed_runs: "apply_post_process mixed_rules mixed_messages = Inr mixed_result"
proof -
  have "\<not> isl (apply_post_process mixed_rules mixed_messages)" by code_simp
  then show ?thesis unfolding mixed_result_def by (cases "apply_post_process mixed_rules mixed_messages") auto
qed

lemma mixed_input: "resolved mixed_messages" "fresh_prompt mixed_messages"
  by (simp_all add: mixed_messages_def mixed_message_def mixed_provenance_def resolved_def fresh_prompt_def
      find_provenance_def)

lemma mixed_labels:
  "labelled mixed_result = [(TextPart ''A'', ExternalUntrusted, PrivateData), (TextPart ''B'', ExternalUntrusted, PrivateData),
     (TextPart ''C'', ExternalUntrusted, PrivateData)]"
  by code_simp

text \<open>
  C25: whatever the post-processing rules do (stripping, merging, padding to alternation, joining
  into one prompt), the non-empty contents of the messages stay the same in the same order, and each
  of them ends under a provenance that is at most as trusted and at least as sensitive as before;
  every message still refers to a provenance.
\<close>
theorem post_process_no_laundering:
  assumes "apply_post_process rs s = Inr s'" "resolved s" "fresh_prompt s"
  shows "no_laundering (labelled s) (labelled s') \<and> resolved s'"
  using post_process_keeps [OF assms(1)] assms(2,3) by (simp add: post_invariant_def)

theorem post_process_no_laundering_witness:
  "no_laundering (labelled mixed_messages) (labelled mixed_result) \<and> resolved mixed_result"
  by (rule post_process_no_laundering [OF mixed_runs mixed_input])

lemma alternating_merge:
  "alternating r (rev out @ ms) \<Longrightarrow> resolved (rev out @ ms, ps) \<Longrightarrow> merge_loop out ps ms = Inr (rev out @ ms, ps)"
proof (induction out ps ms rule: merge_loop.induct)
  case (3 prev out ps m ms)
  have "am_role prev \<noteq> am_role m"
  proof -
    have "alternating r (xs @ [x, y] @ zs) \<Longrightarrow> am_role y = opposite (am_role x)" for r xs x y zs
      by (induction xs arbitrary: r) auto
    from this [of r "rev out" prev m ms] "3.prems"(1) show ?thesis by (cases "am_role prev") auto
  qed
  moreover obtain a b where "find_provenance ps (am_provenance_id prev) = Some a" "find_provenance ps (am_provenance_id m) = Some b"
    using "3.prems"(2) by (auto simp: resolved_def)
  ultimately show ?case using "3.IH"(2) [of a b] "3.prems" by (simp add: provenance_by_id_def)
qed auto

lemma rule_alternates:
  assumes "apply_rule_post rule s = Inr s'" "post_invariant s" "alternating FromUser (fst s)" "rule \<noteq> StripEmptyMessages"
  shows "alternating FromUser (fst s')"
proof (cases rule)
  case MergeAdjacentMessages
  then show ?thesis
    using assms alternating_merge [of FromUser "[]" "fst s" "snd s"]
    by (cases s) (auto simp: apply_rule_post_def merge_adjacent_def post_invariant_def)
next
  case StrictAlternation
  then show ?thesis
    using assms(1) alternation_loop_alternating [of FromUser 0 "fst s"]
    by (auto simp: apply_rule_post_def strict_alternation_def split: prod.splits)
next
  case SinglePrompt
  then have "settled_prompt s'"
    using assms(1,2) single_prompt_keeps(3) by (auto simp: apply_rule_post_def post_invariant_def)
  then show ?thesis by (cases "fst s'") (auto simp: settled_prompt_def)
qed (use assms(4) in simp)

lemma rules_alternate:
  "apply_post_process rs s = Inr s' \<Longrightarrow> post_invariant s \<Longrightarrow> alternating FromUser (fst s) \<Longrightarrow>
     StripEmptyMessages \<notin> set rs \<Longrightarrow> alternating FromUser (fst s')"
proof (induction rs arbitrary: s)
  case (Cons rule rs)
  then obtain t where t: "apply_rule_post rule s = Inr t" "apply_post_process rs t = Inr s'"
    by (auto simp: bindR_eq_Inr)
  show ?case
    using Cons.IH [OF t(2)] rule_keeps [OF t(1)] rule_alternates [OF t(1)] Cons.prems by auto
qed simp

lemma post_process_append:
  "apply_post_process (rs @ rs') s = bindR (apply_post_process rs s) (apply_post_process rs')"
  by (induction rs arbitrary: s) (auto simp: bindR_def split: sum.splits)

text \<open>
  After the rule of strict alternation, and whatever rules but the stripping of empty messages
  follow it, the roles of the messages alternate and the first message is the user's.
\<close>
theorem strict_alternation_alternates:
  assumes "apply_post_process (before @ StrictAlternation # after) s = Inr s'" "resolved s" "fresh_prompt s"
    "StripEmptyMessages \<notin> set after"
  shows "alternating FromUser (fst s')"
proof -
  obtain t where t: "apply_post_process before s = Inr t"
    "apply_post_process after (strict_alternation t) = Inr s'"
    using assms(1) by (auto simp: post_process_append bindR_eq_Inr apply_rule_post_def)
  have inv: "post_invariant t" using post_process_keeps [OF t(1)] assms(2,3) by (simp add: post_invariant_def)
  then have "post_invariant (strict_alternation t)"
    using rule_keeps [of StrictAlternation t] by (simp add: apply_rule_post_def)
  moreover have "alternating FromUser (fst (strict_alternation t))"
    using rule_alternates [OF _ inv, of StrictAlternation "strict_alternation t"]
      alternation_loop_alternating [of FromUser 0 "fst t"]
    by (auto simp: strict_alternation_def split: prod.splits)
  ultimately show ?thesis using rules_alternate [OF t(2)] assms(4) by blast
qed

theorem strict_alternation_alternates_witness:
  "alternating FromUser (fst mixed_result)"
  by (rule strict_alternation_alternates [of "[MergeAdjacentMessages]" "[SinglePrompt]" mixed_messages])
    (use mixed_runs mixed_input in \<open>simp_all add: mixed_rules_def\<close>)

end
