(* ===== verification/Context_Budget_Properties.thy ===== *)
theory Context_Budget_Properties
  imports Context_Budget "HOL-Library.Code_Target_Numeral"
begin

text \<open>
  The budget is respected: what is included fits, is counted with the final content, and required
  items are kept whole; a truncation keeps as much of the text as fits.
\<close>

section \<open>Counting\<close>

definition included_tokens :: "candidate_group \<Rightarrow> nat" where
  "included_tokens g = sum_list (map (\<lambda>c. if cc_included c then cc_token_count c else 0) (cg_candidates g))"

definition none_included :: "candidate_group \<Rightarrow> bool" where
  "none_included g \<longleftrightarrow> list_all (\<lambda>c. \<not> cc_included c) (cg_candidates g)"

text \<open>Every candidate, or every included one, has the count of its content.\<close>

definition counted :: "token_counter \<Rightarrow> candidate_group \<Rightarrow> bool" where
  "counted counter g \<longleftrightarrow>
     list_all (\<lambda>c. counter (cc_role c) (cc_content c) = Inr (cc_token_count c)) (cg_candidates g)"

definition included_counted :: "token_counter \<Rightarrow> candidate_group \<Rightarrow> bool" where
  "included_counted counter g \<longleftrightarrow>
     list_all (\<lambda>c. cc_included c \<longrightarrow> counter (cc_role c) (cc_content c) = Inr (cc_token_count c)) (cg_candidates g)"

definition within_max :: "candidate_group \<Rightarrow> bool" where
  "within_max g \<longleftrightarrow> (\<forall>l. cg_max_tokens g = Some l \<longrightarrow> included_tokens g \<le> l)"

lemma push_transformation_sel [simp]:
  "cc_included (push_transformation n c) = cc_included c" "cc_token_count (push_transformation n c) = cc_token_count c"
  "cc_role (push_transformation n c) = cc_role c" "cc_content (push_transformation n c) = cc_content c"
  by (simp_all add: push_transformation_def)

lemma mark_recent_sel [simp]:
  "cc_included (mark_recent c)" "cc_token_count (mark_recent c) = cc_token_count c"
  "cc_role (mark_recent c) = cc_role c" "cc_content (mark_recent c) = cc_content c"
  by (simp_all add: mark_recent_def Let_def)

lemma included_tokens_none: "none_included g \<Longrightarrow> included_tokens g = 0"
  by (auto simp: none_included_def included_tokens_def list_all_iff sum_list_eq_0_iff)

lemma foldl_checked_sum:
  "foldl (\<lambda>acc c. bindR acc (\<lambda>total. of_optionR e (checked_add_u64 total (f c)))) (Inr a) cs = Inr n \<Longrightarrow>
     n = a + sum_list (map f cs)"
proof (induction cs arbitrary: a)
  case (Cons c cs)
  have stuck: "foldl (\<lambda>acc c. bindR acc (\<lambda>total. of_optionR e (checked_add_u64 total (f c)))) (Inl e) cs = Inl e" for cs
    by (induction cs) auto
  show ?case
  proof (cases "checked_add_u64 a (f c)")
    case None
    then show ?thesis using Cons.prems stuck by simp
  next
    case (Some b)
    then have "b = a + f c" by simp
    moreover have "foldl (\<lambda>acc c. bindR acc (\<lambda>total. of_optionR e (checked_add_u64 total (f c)))) (Inr b) cs = Inr n"
      using Cons.prems unfolding foldl_Cons bindR_simps Some of_optionR_simps .
    ultimately show ?thesis using Cons.IH [of b] by simp
  qed
qed simp

lemma group_tokens_Inr: "group_tokens g = Inr n \<Longrightarrow> n = sum_list (map cc_token_count (cg_candidates g))"
  unfolding group_tokens_def by (drule foldl_checked_sum) simp

lemma include_all_sel [simp]:
  "cg_max_tokens (include_all g) = cg_max_tokens g" "cg_required (include_all g) = cg_required g"
  "cg_item_id (include_all g) = cg_item_id g" "cg_priority (include_all g) = cg_priority g"
  "display_key (include_all g) = display_key g"
  by (simp_all add: include_all_def display_key_def)

lemma include_all_tokens: "included_tokens (include_all g) = sum_list (map cc_token_count (cg_candidates g))"
  by (simp add: included_tokens_def include_all_def comp_def)

lemma include_all_counted: "counted counter g \<Longrightarrow> included_counted counter (include_all g)"
  by (simp add: counted_def included_counted_def include_all_def list_all_iff)

section \<open>Trimming\<close>

lemma search_cut_sound:
  "search_cut f cap low high best = Inr (Some (n, t)) \<Longrightarrow>
     best = Some (n, t) \<or> (f n = Inr t \<and> t \<le> cap \<and> n \<le> high)"
proof (induction f cap low high best rule: search_cut.induct)
  case (1 f cap low high best)
  show ?case
  proof (cases "high < low")
    case True
    then show ?thesis using "1.prems" unfolding search_cut.simps [of f cap low high best] by simp
  next
    case False
    let ?mid = "low + (high - low) div 2"
    obtain k where k: "f ?mid = Inr k"
      using "1.prems" False unfolding search_cut.simps [of f cap low high best] Let_def by (cases "f ?mid") auto
    have mid: "?mid \<le> high" using False by simp
    from "1.prems" consider
        "k \<le> cap" "search_cut f cap (?mid + 1) high (Some (?mid, k)) = Inr (Some (n, t))"
      | "\<not> k \<le> cap" "?mid = 0" "best = Some (n, t)"
      | "\<not> k \<le> cap" "?mid \<noteq> 0" "search_cut f cap low (?mid - 1) best = Inr (Some (n, t))"
      using False k unfolding search_cut.simps [of f cap low high best] Let_def
      by (simp split: if_splits)
    then show ?thesis
    proof cases
      case 1
      from "1.IH"(1) [OF False refl k 1] mid show ?thesis using 1(1) k by auto
    next
      case 3
      from "1.IH"(2) [OF False refl k 3] mid False show ?thesis by auto
    qed simp
  qed
qed

lemma recent_loop_Inr:
  "recent_loop cap used kept cs = Inr (n, k) \<Longrightarrow> used \<le> cap \<Longrightarrow>
     kept \<le> k \<and> k - kept \<le> length cs \<and> n = used + sum_list (map cc_token_count (take (k - kept) cs)) \<and> n \<le> cap"
proof (induction cs arbitrary: used kept)
  case (Cons c cs)
  show ?case
  proof (cases "used + cc_token_count c \<le> u64_max \<and> used + cc_token_count c \<le> cap")
    case True
    then have "recent_loop cap (used + cc_token_count c) (kept + 1) cs = Inr (n, k)"
      using Cons.prems(1) by (simp add: checked_add_u64_def)
    from Cons.IH [OF this] True have *: "kept + 1 \<le> k" "k - (kept + 1) \<le> length cs" "n \<le> cap"
      "n = used + cc_token_count c + sum_list (map cc_token_count (take (k - (kept + 1)) cs))" by auto
    then have "k - kept = Suc (k - (kept + 1))" by simp
    then show ?thesis using * by simp
  next
    case False
    then have "n = used" "k = kept" using Cons.prems(1) by (auto simp: checked_add_u64_def split: if_splits)
    then show ?thesis using Cons.prems(2) by simp
  qed
qed simp

text \<open>What the trimming of a group gives: the included candidates are counted, and fit the cap.\<close>

definition trimmed :: "token_counter \<Rightarrow> nat \<Rightarrow> candidate_group \<Rightarrow> candidate_group \<times> overflow_outcome \<Rightarrow> bool" where
  "trimmed counter cap g r \<longleftrightarrow>
     included_tokens (fst r) = oo_tokens (snd r) \<and> oo_tokens (snd r) \<le> cap
     \<and> included_counted counter (fst r) \<and> cg_max_tokens (fst r) = cg_max_tokens g
     \<and> cg_required (fst r) = cg_required g \<and> cg_item_id (fst r) = cg_item_id g"

lemma trimmed_drop: "trimmed counter cap g (drop_group g)"
  by (simp add: trimmed_def drop_group_def included_tokens_def included_counted_def list_all_iff comp_def)

lemma trimmed_truncate:
  assumes "truncate_group counter cap keep_head g = Inr r"
  shows "trimmed counter cap g r"
proof -
  obtain c where c: "cg_candidates g = [c]"
    using assms by (auto simp: truncate_group_def split: list.splits)
  let ?tokens = "cut_tokens counter (cc_role c) (cc_content c) keep_head"
  obtain best where s: "search_cut ?tokens cap 0 (content_scalars (cc_content c)) None = Inr best"
    and r: "r = (case best of None \<Rightarrow> drop_group g
        | Some (n, tokens) \<Rightarrow>
            let content = keep_scalars (cc_content c) n keep_head
            in if content = [] then drop_group g
               else (g\<lparr>cg_candidates :=
                      [push_transformation (if keep_head then ''truncate_tail'' else ''truncate_head'')
                        (c\<lparr>cc_content := content, cc_token_count := tokens, cc_included := True\<rparr>)]\<rparr>,
                     \<lparr>oo_included = True, oo_tokens = tokens, oo_action = Truncated\<rparr>))"
    using assms c unfolding truncate_group_def by (auto simp: bindR_eq_Inr split: if_splits)
  show ?thesis
  proof (cases best)
    case None
    then show ?thesis using r trimmed_drop by simp
  next
    case (Some nt)
    obtain n t where nt: "nt = (n, t)" by fastforce
    have t: "?tokens n = Inr t" "t \<le> cap" using search_cut_sound [of ?tokens cap 0 _ None n t] s Some nt by auto
    show ?thesis
    proof (cases "keep_scalars (cc_content c) n keep_head = []")
      case True
      then show ?thesis using r Some nt trimmed_drop by simp
    next
      case False
      then have "counter (cc_role c) (keep_scalars (cc_content c) n keep_head) = Inr t"
        using t(1) by (simp add: cut_tokens_def Let_def)
      then show ?thesis
        using r Some nt False t(2)
        by (simp add: trimmed_def included_tokens_def included_counted_def Let_def)
    qed
  qed
qed

lemma trimmed_recent:
  assumes "keep_recent cap g = Inr r" "counted counter g"
  shows "trimmed counter cap g r"
proof -
  obtain used kept where l: "recent_loop cap 0 0 (rev (cg_candidates g)) = Inr (used, kept)"
    and r: "fst r = g\<lparr>cg_candidates := map mark_recent (drop (length (cg_candidates g) - kept) (cg_candidates g))\<rparr>"
      "oo_tokens (snd r) = used"
    using assms(1) unfolding keep_recent_def by (auto simp: bindR_eq_Inr Let_def)
  from recent_loop_Inr [OF l] have u: "kept \<le> length (cg_candidates g)" "used \<le> cap"
    "used = sum_list (map cc_token_count (take kept (rev (cg_candidates g))))" by auto
  have "map cc_token_count (take kept (rev (cg_candidates g)))
      = rev (map cc_token_count (drop (length (cg_candidates g) - kept) (cg_candidates g)))"
    by (simp add: take_rev rev_map)
  then have "used = sum_list (map cc_token_count (drop (length (cg_candidates g) - kept) (cg_candidates g)))"
    using u(3) by (simp add: sum_list_rev)
  moreover have "list_all (\<lambda>c. counter (cc_role c) (cc_content c) = Inr (cc_token_count c))
      (drop (length (cg_candidates g) - kept) (cg_candidates g))"
    using assms(2) by (auto simp: counted_def list_all_iff dest: in_set_dropD)
  ultimately show ?thesis
    using u(2) r by (simp add: trimmed_def included_tokens_def included_counted_def comp_def list_all_iff)
qed

lemma trimmed_overflow:
  assumes "apply_overflow counter cap strategy g = Inr r" "counted counter g"
  shows "trimmed counter cap g r"
proof -
  have *: "bindR m (require_non_empty strategy) = Inr r \<Longrightarrow> m = Inr r" for m
    by (cases m) (auto simp: require_non_empty_def split: if_splits)
  have t: "truncate_group counter cap k g = Inr r \<Longrightarrow> trimmed counter cap g r" for k by (rule trimmed_truncate)
  have k: "keep_recent cap g = Inr r \<Longrightarrow> trimmed counter cap g r" using assms(2) by (rule trimmed_recent [rotated])
  show ?thesis
    using assms(1) unfolding apply_overflow_def
    by (auto split: option.splits overflow_policy.splits budget_strategy.splits dest!: * intro: t k trimmed_drop)
qed

lemma fit_group_Inr:
  assumes "fit_group counter remaining strategy g = Inr (g', tokens, r)" "counted counter g"
  shows "included_tokens g' = tokens" "tokens \<le> remaining" "included_counted counter g'" "within_max g'"
    "cg_required g' = cg_required g"
proof -
  let ?cap = "case cg_max_tokens g of None \<Rightarrow> remaining | Some l \<Rightarrow> min remaining l"
  have cap: "?cap \<le> remaining" "\<forall>l. cg_max_tokens g = Some l \<longrightarrow> ?cap \<le> l" by (auto split: option.splits)
  obtain total where t: "group_tokens g = Inr total" using assms(1) by (auto simp: fit_group_def Let_def bindR_eq_Inr)
  have "included_tokens g' = tokens \<and> tokens \<le> ?cap \<and> included_counted counter g'
      \<and> cg_max_tokens g' = cg_max_tokens g \<and> cg_required g' = cg_required g"
  proof (cases "total \<le> ?cap")
    case True
    then show ?thesis
      using assms t include_all_tokens [of g] group_tokens_Inr [OF t] include_all_counted
      by (auto simp: fit_group_def Let_def)
  next
    case False
    then obtain o' where o: "apply_overflow counter ?cap strategy g = Inr (g', o')" "tokens = oo_tokens o'"
      using assms(1) t by (auto simp: fit_group_def Let_def bindR_eq_Inr)
    show ?thesis using trimmed_overflow [OF o(1) assms(2)] by (simp add: trimmed_def o(2))
  qed
  then show "included_tokens g' = tokens" "tokens \<le> remaining" "included_counted counter g'" "within_max g'"
    "cg_required g' = cg_required g"
    using cap unfolding within_max_def by (auto intro: order_trans)
qed

section \<open>The loops\<close>

definition total_included :: "candidate_group list \<Rightarrow> nat" where
  "total_included gs = sum_list (map included_tokens gs)"

text \<open>A group as the loops leave it: counted and within its own limit.\<close>

definition settled :: "token_counter \<Rightarrow> candidate_group \<Rightarrow> bool" where
  "settled counter g \<longleftrightarrow> included_counted counter g \<and> within_max g"

definition untouched :: "token_counter \<Rightarrow> candidate_group \<Rightarrow> bool" where
  "untouched counter g \<longleftrightarrow> counted counter g \<and> none_included g"

lemma untouched_settled: "untouched counter g \<Longrightarrow> settled counter g \<and> included_tokens g = 0"
  using included_tokens_none
  by (auto simp: untouched_def settled_def within_max_def included_counted_def none_included_def list_all_iff)

lemma required_loop_Inr:
  "required_loop capacity gs used = Inr (gs', used', rs) \<Longrightarrow> list_all (untouched counter) gs \<Longrightarrow> used \<le> capacity \<Longrightarrow>
     list_all2 (\<lambda>g g'. g' = (if cg_required g then include_all g else g)) gs gs'
     \<and> list_all (settled counter) gs' \<and> used' = used + total_included gs' \<and> used' \<le> capacity
     \<and> list_all (\<lambda>g. cg_required g \<longrightarrow> cg_candidates g \<noteq> []) gs"
proof (induction gs arbitrary: gs' used used' rs)
  case (Cons g gs)
  have u: "untouched counter g" "list_all (untouched counter) gs" using Cons.prems(2) by simp_all
  show ?case
  proof (cases "cg_required g")
    case False
    then obtain hs where h: "required_loop capacity gs used = Inr (hs, used', rs)" "gs' = g # hs"
      using Cons.prems(1) by (auto simp: bindR_eq_Inr)
    show ?thesis
      using Cons.IH [OF h(1) u(2) Cons.prems(3)] False h(2) untouched_settled [OF u(1)]
      by (simp add: total_included_def)
  next
    case True
    obtain total hs rest where t: "cg_candidates g \<noteq> []" "group_tokens g = Inr total"
      "\<forall>l \<in> set_option (cg_max_tokens g). total \<le> l" "used + total \<le> capacity"
      "required_loop capacity gs (used + total) = Inr (hs, used', rest)" "gs' = include_all g # hs"
      using Cons.prems(1) True by (auto simp: bindR_eq_Inr)
    note n = group_tokens_Inr [OF t(2)]
    have s: "settled counter (include_all g)" "included_tokens (include_all g) = total"
      using u(1) t(3) n include_all_tokens [of g] include_all_counted [of counter g]
      by (auto simp: settled_def within_max_def untouched_def)
    show ?thesis
      using Cons.IH [OF t(5) u(2) t(4)] s True t(1,6) by (simp add: total_included_def)
  qed
qed (simp add: total_included_def)

lemma optional_loop_Inr:
  "optional_loop counter capacity strategy is gs used = Inr (gs', used', rs) \<Longrightarrow>
     distinct is \<Longrightarrow> \<forall>i \<in> set is. i < length gs \<and> untouched counter (gs ! i) \<Longrightarrow>
     list_all (settled counter) gs \<Longrightarrow> used = total_included gs \<Longrightarrow> used \<le> capacity \<Longrightarrow>
     list_all (settled counter) gs' \<and> used' = total_included gs' \<and> used' \<le> capacity
     \<and> length gs' = length gs \<and> (\<forall>j. j \<notin> set is \<longrightarrow> gs' ! j = gs ! j)"
proof (induction "is" arbitrary: gs gs' used used' rs)
  case (Cons i "is")
  obtain g tokens r rest where f: "fit_group counter (capacity - used) strategy (gs ! i) = Inr (g, tokens, r)"
    "used + tokens \<le> u64_max"
    "optional_loop counter capacity strategy is (gs[i := g]) (used + tokens) = Inr (gs', used', rest)"
    using Cons.prems(1) by (auto simp: bindR_eq_Inr)
  have i: "i < length gs" "untouched counter (gs ! i)" "i \<notin> set is" using Cons.prems(2,3) by simp_all
  note g = fit_group_Inr [OF f(1)]
  have c: "counted counter (gs ! i)" using i(2) by (simp add: untouched_def)
  have zero: "included_tokens (gs ! i) = 0" using untouched_settled [OF i(2)] by simp
  have "total_included (gs[i := g]) = total_included gs + tokens"
    using i(1) zero g(1) [OF c] by (simp add: total_included_def map_update sum_list_update)
  moreover have "list_all (settled counter) (gs[i := g])"
    using Cons.prems(4) g(3,4) [OF c] set_update_subset_insert [of gs i g]
    by (auto simp: list_all_iff settled_def)
  moreover have "\<forall>j \<in> set is. j < length (gs[i := g]) \<and> untouched counter (gs[i := g] ! j)"
    using Cons.prems(3) i(3) by (auto simp: nth_list_update)
  moreover have "used + tokens \<le> capacity" using g(2) [OF c] Cons.prems(6) by simp
  moreover have "checked_add_u64 used tokens = Some (used + tokens)" using f(2) by simp
  ultimately show ?case
    using Cons.IH [OF f(3)] Cons.prems(2,5) i(3) by (auto simp: nth_list_update)
qed (simp add: total_included_def)

section \<open>The budget\<close>

text \<open>The transformations and the counting leave what a group is; nothing becomes included.\<close>

definition same_item :: "candidate_group \<Rightarrow> candidate_group \<Rightarrow> bool" where
  "same_item g g' \<longleftrightarrow> cg_required g' = cg_required g \<and> cg_item_id g' = cg_item_id g
     \<and> (none_included g \<longrightarrow> none_included g')"

lemma enumerate_member: "(i, c) \<in> set (enumerate 0 xs) \<Longrightarrow> c \<in> set xs"
  by (auto simp: in_set_enumerate_eq)

lemma top_k_same: "top_k k g = Inr g' \<Longrightarrow> same_item g g'"
  by (auto simp: top_k_def same_item_def none_included_def list_all_iff Let_def split: if_splits
      dest!: enumerate_member in_set_takeD)

lemma pre_transform_same: "pre_transform g = Inr g' \<Longrightarrow> same_item g g'"
  using top_k_same [of _ g g']
  by (auto simp: pre_transform_def keep_last_def same_item_def none_included_def list_all_iff
      split: option.splits overflow_policy.splits if_splits dest!: in_set_dropD)

lemma drop_duplicates_same: "same_item g (drop_duplicates ids g)"
  by (auto simp: drop_duplicates_def same_item_def none_included_def list_all_iff Let_def)

lemma count_group_same:
  assumes "count_group counter g = Inr g'"
  shows "same_item g g'" "counted counter g'"
proof -
  obtain cs where cs: "mapR (count_candidate counter) (cg_candidates g) = Inr cs" "g' = g\<lparr>cg_candidates := cs\<rparr>"
    using assms by (auto simp: count_group_def bindR_eq_Inr)
  have *: "\<exists>c \<in> set (cg_candidates g). count_candidate counter c = Inr d" if "d \<in> set cs" for d
    using mapR_set [OF cs(1) that] .
  have "cc_included d = cc_included c" "counter (cc_role d) (cc_content d) = Inr (cc_token_count d)"
    if "count_candidate counter c = Inr d" for c d
    using that by (auto simp: count_candidate_def bindR_eq_Inr)
  with * show "same_item g g'" "counted counter g'"
    by (fastforce simp: cs(2) same_item_def none_included_def counted_def list_all_iff)+
qed

lemma same_item_trans: "same_item a b \<Longrightarrow> same_item b c \<Longrightarrow> same_item a c"
  by (simp add: same_item_def)

lemma prepared_groups:
  assumes "apply_pre_budget_transforms groups = Inr gs1" "mapR (count_group counter) gs1 = Inr gs"
  shows "list_all2 same_item groups gs" "list_all (counted counter) gs"
proof -
  obtain gs0 where 0: "mapR pre_transform groups = Inr gs0"
    "gs1 = map (drop_duplicates (duplicate_ids {} (sort_key display_key gs0))) gs0"
    using assms(1) by (auto simp: apply_pre_budget_transforms_def bindR_eq_Inr)
  have "list_all2 (\<lambda>g g'. pre_transform g = Inr g') groups gs0" "list_all2 (\<lambda>g g'. count_group counter g = Inr g') gs1 gs"
    using 0(1) assms(2) by (simp_all add: mapR_eq_Inr)
  then have len: "length gs0 = length groups" "length gs = length groups" and
    step: "\<And>i. i < length groups \<Longrightarrow> pre_transform (groups ! i) = Inr (gs0 ! i)"
      "\<And>i. i < length groups \<Longrightarrow>
         count_group counter (drop_duplicates (duplicate_ids {} (sort_key display_key gs0)) (gs0 ! i)) = Inr (gs ! i)"
    using 0(2) by (auto simp: list_all2_conv_all_nth)
  show "list_all2 same_item groups gs"
    unfolding list_all2_conv_all_nth len(2)
    using same_item_trans [OF same_item_trans [OF pre_transform_same [OF step(1)] drop_duplicates_same]
        count_group_same(1) [OF step(2)]] by simp
  show "list_all (counted counter) gs"
    unfolding list_all_length len(2) using count_group_same(2) [OF step(2)] by blast
qed

lemma available_tokens_Inr:
  "available_tokens inp policy = Inr a \<Longrightarrow>
     a + reserved_output_tokens inp + safety_margin_tokens inp \<le> context_window_tokens inp
     \<and> (\<forall>l. max_input_tokens policy = Some l \<longrightarrow> a \<le> l)"
  by (auto simp: available_tokens_def bindR_eq_Inr checked_sub_def bind_eq_Some_conv split: option.splits if_splits)

text \<open>The result of a successful run.\<close>

definition fits :: "token_counter \<Rightarrow> budget_input \<Rightarrow> budget_policy \<Rightarrow> candidate_group list \<Rightarrow> budget_report \<Rightarrow> bool" where
  "fits counter inp policy final rep \<longleftrightarrow>
     assembled_tokens rep = total_included final \<and> list_all (settled counter) final
     \<and> report_fixed_tokens rep = fixed_request_tokens inp
     \<and> assembled_tokens rep + report_fixed_tokens rep \<le> available_input_tokens rep
     \<and> available_input_tokens rep + reserved_output_tokens inp + safety_margin_tokens inp \<le> context_window_tokens inp
     \<and> (\<forall>l. max_input_tokens policy = Some l \<longrightarrow> available_input_tokens rep \<le> l)"

definition whole :: "candidate_group \<Rightarrow> bool" where
  "whole g \<longleftrightarrow> cg_candidates g \<noteq> [] \<and> list_all cc_included (cg_candidates g)"

lemma optional_indices_set:
  "distinct (optional_indices gs)" "i \<in> set (optional_indices gs) \<Longrightarrow> i < length gs \<and> \<not> cg_required (gs ! i)"
  by (auto simp: optional_indices_def)

lemma apply_budget_result:
  assumes run: "apply_budget groups inp policy counter = Inr (final, rep)" and fresh: "list_all none_included groups"
  shows "fits counter inp policy final rep"
    "list_all2 (\<lambda>g g'. cg_required g \<longrightarrow> cg_item_id g' = cg_item_id g \<and> whole g') groups final"
proof -
  obtain gs1 gs available mid used required last_used optional where
    st: "apply_pre_budget_transforms groups = Inr gs1" "mapR (count_group counter) gs1 = Inr gs"
      "available_tokens inp policy = Inr available" "fixed_request_tokens inp \<le> available"
      "required_loop (available - fixed_request_tokens inp) gs 0 = Inr (mid, used, required)"
      "optional_loop counter (available - fixed_request_tokens inp)
        (case budget_strategy_of policy of None \<Rightarrow> Strict | Some s \<Rightarrow> s) (optional_indices mid) mid used
        = Inr (final, last_used, optional)"
    and rep: "available_input_tokens rep = available" "report_fixed_tokens rep = fixed_request_tokens inp"
      "assembled_tokens rep = last_used"
    using run unfolding apply_budget_def by (auto simp: bindR_eq_Inr Let_def checked_sub_def split: if_splits)
  note prep = prepared_groups [OF st(1,2)]
  have u: "list_all (untouched counter) gs"
    using prep fresh by (auto simp: untouched_def list_all_length list_all2_conv_all_nth same_item_def)
  note req = required_loop_Inr [OF st(5) u, simplified]
  have mid: "length mid = length gs"
    "\<And>i. i < length gs \<Longrightarrow> mid ! i = (if cg_required (gs ! i) then include_all (gs ! i) else gs ! i)"
    using req by (auto simp: list_all2_conv_all_nth)
  have "\<forall>i \<in> set (optional_indices mid). i < length mid \<and> untouched counter (mid ! i)"
  proof
    fix i
    assume "i \<in> set (optional_indices mid)"
    from optional_indices_set(2) [OF this] have "i < length gs" "\<not> cg_required (mid ! i)" using mid(1) by auto
    moreover from this have "mid ! i = gs ! i" using mid(2) [of i] by (auto split: if_splits)
    ultimately show "i < length mid \<and> untouched counter (mid ! i)" using u mid(1) by (simp add: list_all_length)
  qed
  from optional_loop_Inr [OF st(6) optional_indices_set(1) this] req
  have opt: "list_all (settled counter) final" "last_used = total_included final"
    "last_used \<le> available - fixed_request_tokens inp" "length final = length mid"
    "\<And>j. j \<notin> set (optional_indices mid) \<Longrightarrow> final ! j = mid ! j" by simp_all
  show "fits counter inp policy final rep"
    using opt(1-3) rep st(4) available_tokens_Inr [OF st(3)] by (simp add: fits_def)
  show "list_all2 (\<lambda>g g'. cg_required g \<longrightarrow> cg_item_id g' = cg_item_id g \<and> whole g') groups final"
    unfolding list_all2_conv_all_nth
  proof (intro conjI allI impI)
    show len: "length groups = length final" using prep(1) mid(1) opt(4) by (simp add: list_all2_lengthD)
    fix i
    assume i: "i < length groups" "cg_required (groups ! i)"
    have same: "same_item (groups ! i) (gs ! i)" using prep(1) i(1) by (simp add: list_all2_nthD)
    have m: "mid ! i = include_all (gs ! i)" "i < length gs"
      using mid i same len opt(4) by (auto simp: same_item_def)
    moreover have "cg_candidates (gs ! i) \<noteq> []" using req m(2) i(2) same by (auto simp: list_all_length same_item_def)
    moreover have "final ! i = mid ! i"
      using opt(5) [of i] optional_indices_set(2) [of i mid] m(1) same i(2) by (auto simp: same_item_def)
    ultimately show "cg_item_id (final ! i) = cg_item_id (groups ! i)" "whole (final ! i)"
      using same by (auto simp: whole_def include_all_def same_item_def list_all_iff)
  qed
qed

text \<open>A required item, and an optional one whose text is cut to the room that is left.\<close>

definition sample_candidate :: "string \<Rightarrow> string \<Rightarrow> context_candidate" where
  "sample_candidate i t =
     \<lparr>cc_id = i, cc_sub_index = 0, cc_history_order = None, cc_role = AsUser, cc_content = [TextPart t],
      cc_provenance = \<lparr>cp_id = i, cp_item_id = i, cp_source_type = ''input'', cp_source_id = i,
        cp_trust = UserInput, cp_sensitivity = PublicData, cp_final_role = UserRole, cp_transformations = []\<rparr>,
      cc_content_hash = t, cc_relevance = None, cc_included = False, cc_token_count = 0\<rparr>"

definition sample_group :: "string \<Rightarrow> nat \<Rightarrow> bool \<Rightarrow> overflow_policy option \<Rightarrow> context_candidate list \<Rightarrow> candidate_group" where
  "sample_group i n required overflow cs =
     \<lparr>cg_item_id = i, cg_item_index = n, cg_position = AtStart, cg_order = 0, cg_priority = 0,
      cg_insertion_depth = 0, cg_required = required, cg_max_tokens = None, cg_overflow = overflow,
      cg_candidates = cs, cg_pre_action = None\<rparr>"

definition sample_groups :: "candidate_group list" where
  "sample_groups =
     [sample_group ''r'' 0 True None [sample_candidate ''r'' ''hello''],
      sample_group ''o'' 1 False (Some TruncateTail) [sample_candidate ''o'' ''abcdef'']]"

definition sample_input :: budget_input where
  "sample_input =
     \<lparr>context_window_tokens = 20, reserved_output_tokens = 5, fixed_request_tokens = 1,
      safety_margin_tokens = 1, input_count_source = CountEstimate\<rparr>"

definition sample_policy :: budget_policy where
  "sample_policy = \<lparr>max_input_tokens = Some 14, budget_strategy_of = None\<rparr>"

definition sample_outcome :: "candidate_group list \<times> budget_report" where
  "sample_outcome = projr (apply_budget sample_groups sample_input sample_policy estimate_count)"

lemma sample_budget_runs:
  "apply_budget sample_groups sample_input sample_policy estimate_count = Inr sample_outcome"
proof -
  have "\<not> isl (apply_budget sample_groups sample_input sample_policy estimate_count)" by code_simp
  then show ?thesis unfolding sample_outcome_def by (cases "apply_budget sample_groups sample_input sample_policy estimate_count") auto
qed

lemma sample_outcome_cut:
  "map (\<lambda>g. map cc_content (cg_candidates g)) (fst sample_outcome) = [[[TextPart ''hello'']], [[TextPart ''abcd'']]]"
  by code_simp

lemma sample_fresh: "list_all none_included sample_groups"
  by code_simp

text \<open>
  C27: a context that passes the budget fits: the assembled tokens are the sum of the counts of the
  included candidates, each count is the counter's for the candidate's final content, no group
  exceeds its own limit, and together with the fixed tokens, the reserved output and the safety
  margin they stay within the context window and the policy's limit.
\<close>
theorem budget_respected:
  assumes "apply_budget groups inp policy counter = Inr (final, rep)" "list_all none_included groups"
  shows "fits counter inp policy final rep"
  by (rule apply_budget_result [OF assms])

theorem budget_respected_witness:
  "fits estimate_count sample_input sample_policy (fst sample_outcome) (snd sample_outcome)"
  by (rule budget_respected [OF _ sample_fresh]) (simp add: sample_budget_runs)

text \<open>
  A successful budget keeps every required item: its group still has candidates, and all of
  them are included; a required item that has no value or does not fit is an error instead.
\<close>
theorem required_kept:
  assumes "apply_budget groups inp policy counter = Inr (final, rep)" "list_all none_included groups"
  shows "list_all2 (\<lambda>g g'. cg_required g \<longrightarrow> cg_item_id g' = cg_item_id g \<and> whole g') groups final"
  by (rule apply_budget_result [OF assms])

theorem required_kept_witness:
  "cg_required (hd sample_groups) \<and> whole (hd (fst sample_outcome))"
proof -
  have "list_all2 (\<lambda>g g'. cg_required g \<longrightarrow> cg_item_id g' = cg_item_id g \<and> whole g') sample_groups (fst sample_outcome)"
    by (rule required_kept [OF _ sample_fresh, of sample_input sample_policy estimate_count _ "snd sample_outcome"])
      (simp add: sample_budget_runs)
  then show ?thesis by (auto simp: sample_groups_def sample_group_def list_all2_Cons1)
qed

end
