(* ===== verification/Context_Authority.thy ===== *)
theory Context_Authority
  imports Context_Engine Context_Post_Properties Context_Budget_Properties Llm_Transcript
begin

text \<open>
  Where the candidates of a context come from: the roles that the resolution gives them fit the
  trust of their provenance, and nothing after it changes the two.  So the instructions of an
  assembled context pass the authority check of a request, and sensitive data enter only when they
  are allowed.
\<close>

section \<open>Stamps\<close>

text \<open>What no later step may change.\<close>

definition stamp :: "context_candidate \<Rightarrow> context_role \<times> context_trust \<times> context_sensitivity \<times> string" where
  "stamp c = (cc_role c, cp_trust (cc_provenance c), cp_sensitivity (cc_provenance c), cp_id (cc_provenance c))"

definition stamps :: "candidate_group \<Rightarrow> (context_role \<times> context_trust \<times> context_sensitivity \<times> string) set" where
  "stamps g = stamp ` set (cg_candidates g)"

definition all_stamps :: "candidate_group list \<Rightarrow> (context_role \<times> context_trust \<times> context_sensitivity \<times> string) set" where
  "all_stamps gs = \<Union> (stamps ` set gs)"

lemma stamp_updates [simp]:
  "stamp (c\<lparr>cc_sub_index := i\<rparr>) = stamp c" "stamp (c\<lparr>cc_included := b\<rparr>) = stamp c"
  "stamp (c\<lparr>cc_token_count := n\<rparr>) = stamp c" "stamp (c\<lparr>cc_content := x\<rparr>) = stamp c"
  "stamp (push_transformation name c) = stamp c"
  by (simp_all add: stamp_def push_transformation_def)

lemma stamps_subset:
  "(\<And>c'. c' \<in> set (cg_candidates g') \<Longrightarrow> \<exists>c \<in> set (cg_candidates g). stamp c' = stamp c) \<Longrightarrow> stamps g' \<subseteq> stamps g"
  by (fastforce simp: stamps_def)

lemma top_k_stamps:
  assumes "top_k k g = Inr g'"
  shows "stamps g' \<subseteq> stamps g"
proof (rule stamps_subset)
  fix c'
  assume "c' \<in> set (cg_candidates g')"
  then obtain i c where c: "(i, c) \<in> set (enumerate 0 (take k (sort_key relevance_key (cg_candidates g))))"
    "stamp c' = stamp c"
    using assms by (auto simp: top_k_def Let_def split: if_splits)
  have "c \<in> set (cg_candidates g)" using enumerate_member [OF c(1)] by (auto dest: in_set_takeD)
  then show "\<exists>c \<in> set (cg_candidates g). stamp c' = stamp c" using c(2) by blast
qed

lemma keep_last_stamps: "stamps (keep_last k g) \<subseteq> stamps g"
  by (rule stamps_subset) (fastforce simp: keep_last_def split: if_splits dest: in_set_dropD)

lemma pre_transform_stamps: "pre_transform g = Inr g' \<Longrightarrow> stamps g' \<subseteq> stamps g"
  using top_k_stamps [of _ g g'] keep_last_stamps [of _ g]
  by (cases "cg_overflow g") (auto simp: pre_transform_def split: option.splits overflow_policy.splits)

lemma drop_duplicates_stamps: "stamps (drop_duplicates ids g) \<subseteq> stamps g"
  by (rule stamps_subset) (auto simp: drop_duplicates_def Let_def split: if_splits)

lemma count_group_stamps:
  assumes "count_group counter g = Inr g'"
  shows "stamps g' \<subseteq> stamps g"
proof -
  obtain cs where cs: "mapR (count_candidate counter) (cg_candidates g) = Inr cs" "g' = g\<lparr>cg_candidates := cs\<rparr>"
    using assms by (auto simp: count_group_def bindR_eq_Inr)
  show ?thesis
    using mapR_set [OF cs(1)] by (intro stamps_subset) (fastforce simp: cs(2) count_candidate_def bindR_eq_Inr)
qed

lemma include_all_stamps: "stamps (include_all g) = stamps g"
  by (simp add: stamps_def include_all_def image_image)

lemma drop_group_stamps: "stamps (fst (drop_group g)) = stamps g"
  by (simp add: stamps_def drop_group_def image_image)

lemma truncate_group_stamps:
  assumes "truncate_group counter cap h g = Inr (g', outcome)"
  shows "stamps g' \<subseteq> stamps g"
proof -
  obtain c where c: "cg_candidates g = [c]" using assms by (auto simp: truncate_group_def split: list.splits)
  obtain best where b: "search_cut (cut_tokens counter (cc_role c) (cc_content c) h) cap 0 (content_scalars (cc_content c)) None
      = Inr best" using assms c by (auto simp: truncate_group_def bindR_eq_Inr split: if_splits)
  show ?thesis
  proof (cases "best = None \<or> keep_scalars (cc_content c) (fst (the best)) h = []")
    case True
    then have "g' = fst (drop_group g)"
      using assms c b by (cases best) (auto simp: truncate_group_def Let_def split: if_splits)
    then show ?thesis by (simp add: drop_group_stamps)
  next
    case False
    then obtain n t where "best = Some (n, t)" "keep_scalars (cc_content c) n h \<noteq> []" by auto
    then show ?thesis
      using assms c b by (auto simp: truncate_group_def Let_def stamps_def split: if_splits)
  qed
qed

lemma stamp_mark_recent [simp]: "stamp (mark_recent c) = stamp c"
  by (simp add: mark_recent_def Let_def)

lemma keep_recent_stamps: "keep_recent cap g = Inr (g', outcome) \<Longrightarrow> stamps g' \<subseteq> stamps g"
  by (rule stamps_subset) (fastforce simp: keep_recent_def bindR_eq_Inr Let_def dest: in_set_dropD)

lemma require_non_empty_Inr: "require_non_empty strategy r = Inr r' \<Longrightarrow> r' = r"
  by (auto simp: require_non_empty_def split: if_splits)

lemma apply_overflow_stamps:
  assumes "apply_overflow counter cap strategy g = Inr (g', outcome)"
  shows "stamps g' \<subseteq> stamps g"
  using assms drop_group_stamps [of g]
  by (auto simp: apply_overflow_def bindR_eq_Inr split: option.splits overflow_policy.splits budget_strategy.splits
      dest!: require_non_empty_Inr dest: truncate_group_stamps keep_recent_stamps)

lemma fit_group_stamps: "fit_group counter n strategy g = Inr (g', tokens, r) \<Longrightarrow> stamps g' \<subseteq> stamps g"
  using apply_overflow_stamps
  by (fastforce simp: fit_group_def Let_def bindR_eq_Inr include_all_stamps split: if_splits)

lemma all_stamps_simps [simp]: "all_stamps [] = {}" "all_stamps (g # gs) = stamps g \<union> all_stamps gs"
  by (simp_all add: all_stamps_def)

lemma mapR_stamps:
  "mapR f gs = Inr gs' \<Longrightarrow> (\<And>g g'. f g = Inr g' \<Longrightarrow> stamps g' \<subseteq> stamps g) \<Longrightarrow> all_stamps gs' \<subseteq> all_stamps gs"
  by (induction gs arbitrary: gs') (fastforce simp: bindR_eq_Inr)+

lemma required_loop_stamps:
  "required_loop capacity gs used = Inr (gs', used', rs) \<Longrightarrow> all_stamps gs' \<subseteq> all_stamps gs"
proof (induction gs arbitrary: used gs' used' rs)
  case (Cons g gs)
  then show ?case by (fastforce simp: bindR_eq_Inr include_all_stamps split: if_splits)
qed simp

lemma all_stamps_update: "stamps x \<subseteq> stamps (gs ! i) \<Longrightarrow> i < length gs \<Longrightarrow> all_stamps (gs[i := x]) \<subseteq> all_stamps gs"
proof (induction gs arbitrary: i)
  case (Cons g gs)
  then show ?case by (cases i) auto
qed simp

lemma optional_loop_stamps:
  "optional_loop counter capacity strategy is gs used = Inr (gs', used', rs) \<Longrightarrow> \<forall>i \<in> set is. i < length gs \<Longrightarrow>
     all_stamps gs' \<subseteq> all_stamps gs"
proof (induction "is" arbitrary: gs used gs' used' rs)
  case (Cons i "is")
  obtain x n r u rest where st: "fit_group counter (capacity - used) strategy (gs ! i) = Inr (x, n, r)"
    "optional_loop counter capacity strategy is (gs[i := x]) u = Inr (gs', used', rest)"
    using Cons.prems(1) by (auto simp: bindR_eq_Inr)
  have "all_stamps gs' \<subseteq> all_stamps (gs[i := x])" using Cons.IH [OF st(2)] Cons.prems(2) by simp
  also have "\<dots> \<subseteq> all_stamps gs" using all_stamps_update [OF fit_group_stamps [OF st(1)]] Cons.prems(2) by simp
  finally show ?case .
qed simp

lemma apply_budget_stamps:
  assumes "apply_budget groups inp policy counter = Inr (final, rep)"
  shows "all_stamps final \<subseteq> all_stamps groups"
proof -
  obtain gs0 gs1 gs capacity mid used required strategy last_used optional where
    st: "mapR pre_transform groups = Inr gs0"
      "gs1 = map (drop_duplicates (duplicate_ids {} (sort_key display_key gs0))) gs0"
      "mapR (count_group counter) gs1 = Inr gs"
      "required_loop capacity gs 0 = Inr (mid, used, required)"
      "optional_loop counter capacity strategy (optional_indices mid) mid used = Inr (final, last_used, optional)"
    using assms unfolding apply_budget_def apply_pre_budget_transforms_def by (auto simp: bindR_eq_Inr Let_def)
  have "all_stamps final \<subseteq> all_stamps mid" using optional_loop_stamps [OF st(5)] optional_indices_set(2) by blast
  also have "\<dots> \<subseteq> all_stamps gs" by (rule required_loop_stamps [OF st(4)])
  also have "\<dots> \<subseteq> all_stamps gs1" by (rule mapR_stamps [OF st(3) count_group_stamps])
  also have "\<dots> \<subseteq> all_stamps gs0"
    using drop_duplicates_stamps by (fastforce simp: st(2) all_stamps_def)
  also have "\<dots> \<subseteq> all_stamps groups" by (rule mapR_stamps [OF st(1) pre_transform_stamps])
  finally show ?thesis .
qed

section \<open>Resolved candidates\<close>

definition stamp_ok :: "context_role \<times> context_trust \<times> context_sensitivity \<times> string \<Rightarrow> bool" where
  "stamp_ok st \<longleftrightarrow>
     (case st of (role, trust, _, i) \<Rightarrow>
        (role = AsPolicy \<longrightarrow> trust = RuntimePolicy)
        \<and> (role = AsSystem \<or> role = AsDeveloper \<longrightarrow> trust = RuntimePolicy \<or> trust = TrustedConfig)
        \<and> (\<exists>index sub. i = provenance_id index sub))"

definition resolved_ok :: "context_candidate \<Rightarrow> bool" where
  "resolved_ok c \<longleftrightarrow> stamp_ok (stamp c) \<and> \<not> cc_included c"

definition role_fits :: "context_role \<Rightarrow> context_trust \<Rightarrow> bool" where
  "role_fits role trust \<longleftrightarrow>
     (role = AsPolicy \<longrightarrow> trust = RuntimePolicy)
     \<and> (role = AsSystem \<or> role = AsDeveloper \<longrightarrow> trust = RuntimePolicy \<or> trust = TrustedConfig)"

lemma build_candidate_ok:
  "build_candidate env item index sub history role content prov ts hash relevance = Inr c \<Longrightarrow>
     role_fits role (pr_trust prov) \<Longrightarrow> resolved_ok c"
  unfolding build_candidate_def resolved_ok_def stamp_ok_def stamp_def role_fits_def
  by (auto simp: bindR_eq_Inr split: option.splits) blast+

lemma trusted_config_role_fits: "trusted_config_role item = (role, ts) \<Longrightarrow> role_fits role TrustedConfig"
  by (auto simp: trusted_config_role_def role_fits_def split: context_role.splits if_splits)

lemma template_role_fits: "template_role item trust = (role, ts) \<Longrightarrow> role_fits role trust"
  using trusted_config_role_fits
  by (auto simp: template_role_def role_fits_def split: context_trust.splits if_splits)

lemma authorized_data_role_fits:
  "authorized_data_role requested trust allowed = Inr (role, ts) \<Longrightarrow> role_fits role trust"
  by (cases trust; cases requested)
    (auto simp: authorized_data_role_def Let_def role_fits_def split: if_splits)

lemma data_loop_ok:
  "data_loop env item index src vs out = Inr out' \<Longrightarrow> list_all resolved_ok out \<Longrightarrow> list_all resolved_ok out'"
proof (induction vs arbitrary: out)
  case (Cons v vs)
  have ok: "resolved_ok c" if "data_candidate env item index n d = Inr c" for n d c
    using that build_candidate_ok authorized_data_role_fits by (fastforce simp: data_candidate_def bindR_eq_Inr)
  show ?case
    using Cons.prems Cons.IH ok
    by (auto simp: bindR_eq_Inr split: resolved_value.splits if_splits)
qed simp

lemma mapR_all: "mapR f xs = Inr ys \<Longrightarrow> (\<And>x y. f x = Inr y \<Longrightarrow> P y) \<Longrightarrow> list_all P ys"
  using mapR_set by (fastforce simp: list_all_iff)

lemma history_ok: "history_candidates env inp item index b strategy = Inr cs \<Longrightarrow> list_all resolved_ok cs"
proof -
  have "resolved_ok c" if run: "history_candidate env item index sub h = Inr c" for sub h c
  proof -
    obtain d where d: "build_candidate env item index sub (Some (hv_stable_order h)) (message_context_role (hv_role h))
        (hv_content h) (hv_provenance h) [] (Some (hv_content_hash h)) None = Inr d" "c = d\<lparr>cc_id := hv_message_id h\<rparr>"
      using run by (auto simp: history_candidate_def bindR_eq_Inr)
    have "role_fits (message_context_role (hv_role h)) (pr_trust (hv_provenance h))"
      by (cases "hv_role h") (simp_all add: role_fits_def)
    from build_candidate_ok [OF d(1) this] show ?thesis by (simp add: d(2) resolved_ok_def stamp_def)
  qed
  then show "history_candidates env inp item index b strategy = Inr cs \<Longrightarrow> list_all resolved_ok cs"
    by (auto simp: history_candidates_def bindR_eq_Inr Let_def elim!: mapR_all)
qed

lemma literal_ok: "literal_candidate env item index t = Inr c \<Longrightarrow> resolved_ok c"
  using trusted_config_role_fits [of item]
  by (auto simp: literal_candidate_def config_provenance_def split: prod.splits elim!: build_candidate_ok)

lemma input_ok: "input_candidate env inp item index path = Inr c \<Longrightarrow> resolved_ok c"
  by (auto simp: input_candidate_def input_provenance_def role_fits_def bindR_eq_Inr Let_def
      split: if_splits elim!: build_candidate_ok)

lemma template_ok:
  assumes "template_candidate env inp item index vs missing program = Inr c"
  shows "resolved_ok c"
proof -
  obtain st :: template_state and t where st: "(case template_role item (tm_trust st) of (role, ts) \<Rightarrow>
       build_candidate env item index 0 None role [TextPart t]
          \<lparr>pr_source_type = ''template'', pr_source_id = ci_id item, pr_trust = tm_trust st,
           pr_sensitivity = tm_sensitivity st\<rparr> (tm_transformations st @ ts) None None) = Inr c"
    using assms by (auto simp: template_candidate_def bindR_eq_Inr)
  obtain role ts where role: "template_role item (tm_trust st) = (role, ts)"
    by (cases "template_role item (tm_trust st)")
  have "build_candidate env item index 0 None role [TextPart t]
          \<lparr>pr_source_type = ''template'', pr_source_id = ci_id item, pr_trust = tm_trust st,
           pr_sensitivity = tm_sensitivity st\<rparr>
          (tm_transformations st @ ts) None None = Inr c"
    using st by (simp add: role)
  then show ?thesis
    by (rule build_candidate_ok) (simp add: template_role_fits [OF role])
qed

lemma data_ok: "data_candidates env inp item index src = Inr cs \<Longrightarrow> list_all resolved_ok cs"
  by (auto simp: data_candidates_def bindR_eq_Inr split: if_splits elim!: data_loop_ok)

lemma source_candidates_ok:
  "source_candidates env inp item index = Inr cs \<Longrightarrow> list_all resolved_ok cs"
  by (cases "ci_source item")
    (auto simp: source_candidates_def bindR_eq_Inr literal_ok input_ok template_ok data_ok history_ok)

definition group_ok :: "candidate_group \<Rightarrow> bool" where
  "group_ok g \<longleftrightarrow> list_all resolved_ok (cg_candidates g)"

lemma resolve_items_ok: "resolve_items env inp items = Inr groups \<Longrightarrow> list_all group_ok groups"
  unfolding resolve_items_def
  using source_candidates_ok by (fastforce simp: resolve_item_def group_ok_def bindR_eq_Inr elim!: mapR_all)

lemma transform_candidate_ok: "transform_candidate env spec depths src c = Inr c' \<Longrightarrow> resolved_ok c' = resolved_ok c"
  by (auto simp: transform_candidate_def bindR_eq_Inr resolved_ok_def stamp_def split: option.splits)

lemma transforms_ok:
  assumes "apply_prompt_text_transforms env groups spec = Inr groups'" "list_all group_ok groups"
  shows "list_all group_ok groups'"
proof (cases "sp_text_transforms spec = []")
  case False
  then have m: "mapR (transform_group env spec (history_depths groups)) groups = Inr groups'"
    using assms(1) by (simp add: apply_prompt_text_transforms_def)
  have "group_ok g'" if mem: "g' \<in> set groups'" for g'
  proof -
    obtain g where g: "g \<in> set groups" "transform_group env spec (history_depths groups) g = Inr g'"
      using mapR_set [OF m mem] by blast
    obtain cs where cs: "mapR (transform_candidate env spec (history_depths groups) (ci_source (sp_items spec ! cg_item_index g)))
        (cg_candidates g) = Inr cs" "g' = g\<lparr>cg_candidates := cs\<rparr>"
      using g(2) by (auto simp: transform_group_def bindR_eq_Inr)
    have "resolved_ok c'" if "c' \<in> set cs" for c'
      using mapR_set [OF cs(1) that] transform_candidate_ok g(1) assms(2)
      by (fastforce simp: group_ok_def list_all_iff)
    then show ?thesis by (simp add: cs(2) group_ok_def list_all_iff)
  qed
  then show ?thesis by (simp add: list_all_iff)
qed (use assms in \<open>simp add: apply_prompt_text_transforms_def\<close>)

lemma prepare_groups_ok:
  assumes "prepare_groups env inp spec = Inr (groups, n)"
  shows "list_all none_included groups" "\<And>st. st \<in> all_stamps groups \<Longrightarrow> stamp_ok st"
    "\<And>st. st \<in> all_stamps groups \<Longrightarrow> ai_allow_sensitive inp \<or> fst (snd (snd st)) \<noteq> SensitiveData"
proof -
  obtain gs where gs: "resolve_items (ay_resolve env) inp (sp_items spec) = Inr gs"
      "apply_prompt_text_transforms (ay_resolve env) gs spec = Inr groups" "validate_candidates inp groups = Inr ()"
    using assms by (auto simp: prepare_groups_def bindR_eq_Inr)
  have ok: "list_all group_ok groups" by (rule transforms_ok [OF gs(2) resolve_items_ok [OF gs(1)]])
  then show "list_all none_included groups"
    by (auto simp: list_all_iff group_ok_def resolved_ok_def none_included_def)
  have sens: "ai_allow_sensitive inp \<or> cp_sensitivity (cc_provenance c) \<noteq> SensitiveData"
    if "g \<in> set groups" "c \<in> set (cg_candidates g)" for g c
  proof -
    have "\<exists>u. mapR (validate_candidate inp g) (cg_candidates g) = Inr u"
      using gs(3) that(1) by (auto simp: validate_candidates_def bindR_eq_Inr mapR_total)
    then have "validate_candidate inp g c = Inr ()" using that(2) by (auto simp: mapR_total)
    then show ?thesis by (auto simp: validate_candidate_def bindR_eq_Inr)
  qed
  fix st
  assume "st \<in> all_stamps groups"
  then obtain g c where c: "g \<in> set groups" "c \<in> set (cg_candidates g)" "st = stamp c"
    by (auto simp: all_stamps_def stamps_def)
  show "stamp_ok st" using ok c by (auto simp: list_all_iff group_ok_def resolved_ok_def)
  show "ai_allow_sensitive inp \<or> fst (snd (snd st)) \<noteq> SensitiveData" using sens [OF c(1,2)] by (simp add: c(3) stamp_def)
qed

end
