(* ===== verification/Context_Normal_Form.thy ===== *)
theory Context_Normal_Form
  imports Context_Spec "HOL-Library.Code_Target_Numeral"
begin

text \<open>
  Normalised presets stay as they are: the assembly refuses a preset that its own normalisation
  would change, so this is what makes a published preset usable.
\<close>

section \<open>The parts\<close>

text \<open>What the normalisation needs to know about \<open>str::to_lowercase\<close>.\<close>

definition lower_laws :: "(string \<Rightarrow> string) \<Rightarrow> bool" where
  "lower_laws lower \<longleftrightarrow> (\<forall>t. lower (lower t) = lower t \<and> trim (lower (trim t)) = lower (trim t))"

lemma label_again:
  "normalize_optional_label n v = Inr w \<Longrightarrow> normalize_optional_label n w = Inr w"
  by (cases v) (auto simp: normalize_optional_label_def Let_def split: if_splits)

lemma tag_again:
  "lower_laws (ce_lower env) \<Longrightarrow> normalize_tag env t = Inr u \<Longrightarrow> normalize_tag env u = Inr u"
  unfolding normalize_tag_def Let_def lower_laws_def by (metis Inl_Inr_False Inr_inject)

lemma mapR_fixed: "(\<And>x. x \<in> set xs \<Longrightarrow> f x = Inr x) \<Longrightarrow> mapR f xs = Inr xs"
  by (induction xs) simp_all

lemma tags_again:
  assumes "lower_laws (ce_lower env)" "mapR (normalize_tag env) tags = Inr ts"
  shows "mapR (normalize_tag env) (remdups_adj (sort ts)) = Inr (remdups_adj (sort ts))"
    "length (remdups_adj (sort ts)) \<le> length tags" "tags \<noteq> [] \<Longrightarrow> remdups_adj (sort ts) \<noteq> []"
proof -
  have "normalize_tag env u = Inr u" if u: "u \<in> set ts" for u
    using mapR_set [OF assms(2) u] tag_again [OF assms(1)] by blast
  then show "mapR (normalize_tag env) (remdups_adj (sort ts)) = Inr (remdups_adj (sort ts))"
    by (intro mapR_fixed) simp
  have l: "length ts = length tags" using assms(2) by (rule mapR_length)
  then show "length (remdups_adj (sort ts)) \<le> length tags"
    using remdups_adj_length [of "sort ts"] by simp
  show "remdups_adj (sort ts) \<noteq> []" if "tags \<noteq> []"
    using l that by (cases ts) (auto simp: remdups_adj_Nil_iff)
qed

lemma sort_again: "remdups_adj (sort (remdups_adj (sort xs))) = remdups_adj (sort xs)"
  using sorted_again [of "\<lambda>x. x"] .

lemma world_info_again:
  assumes "lower_laws (ce_lower env)" "normalize_world_info env sel = Inr sel'"
  shows "normalize_world_info env sel' = Inr sel'"
proof (cases sel)
  case (WorldTags tags m)
  then obtain ts where ts: "tags \<noteq> []" "length tags \<le> 128" "mapR (normalize_tag env) tags = Inr ts"
    "sel' = WorldTags (remdups_adj (sort ts)) m"
    using assms(2) by (auto simp: normalize_world_info_def bindR_eq_Inr split: if_splits)
  then show ?thesis using tags_again [OF assms(1) ts(3)] by (simp add: normalize_world_info_def sort_again)
qed (use assms in \<open>simp add: normalize_world_info_def\<close>)

lemma event_selector_again:
  assumes "normalize_event_selector policy sel = Inr sel'"
  shows "normalize_event_selector policy sel' = Inr sel'"
proof -
  obtain ts after where ts: "\<not> (es_limit sel = 0 \<or> es_limit sel > MAX_SELECTOR_LIMIT)"
      "\<not> (remdups_adj (sort ts) = [] \<or> list_ex (\<lambda>e. e \<notin> set (np_event_types policy)) (remdups_adj (sort ts)))"
    and sel': "sel' = sel\<lparr>es_event_types := Some (remdups_adj (sort ts)), es_after_durable_seq := Some after\<rparr>"
    using assms unfolding normalize_event_selector_def Let_def by (metis Inl_Inr_False Inr_inject)
  show ?thesis using ts unfolding normalize_event_selector_def Let_def sel' by (simp add: sort_again)
qed

lemma source_again:
  assumes "lower_laws (ce_lower env)" "normalize_source env policy src = Inr src'"
  shows "normalize_source env policy src' = Inr src' \<and> is_history src' = is_history src"
proof (cases src)
  case (SrcWorldInfo b sel)
  then show ?thesis
    using assms world_info_again [OF assms(1)] by (auto simp: normalize_source_def bindR_eq_Inr)
next
  case (SrcEventTrace b sel)
  then show ?thesis
    using assms event_selector_again by (fastforce simp: normalize_source_def bindR_eq_Inr)
next
  case (SrcHistory b strategy)
  then show ?thesis using assms by (cases strategy) (auto simp: normalize_source_def bindR_eq_Inr split: if_splits)
next
  case (SrcArtifact b sel)
  then show ?thesis
    using assms by (auto simp: normalize_source_def bindR_eq_Inr Let_def split: if_splits)
qed (use assms in \<open>auto simp: normalize_source_def bindR_eq_Inr unwrap_path_def split: if_splits\<close>)

lemma item_again:
  assumes "lower_laws (ce_lower env)" "normalize_item env policy item = Inr item'"
  shows "normalize_item env policy item' = Inr item'" "ci_id item' = trim (ci_id item)"
proof -
  obtain name src where st: "trim (ci_id item) \<noteq> []" "length (trim (ci_id item)) \<le> 128"
      "normalize_optional_label 200 (ci_name item) = Inr name"
      "tb_max_tokens (ci_budget item) \<noteq> Some 0" "\<not> (tb_required (ci_budget item) \<and> ci_overflow item \<noteq> None)"
      "normalize_source env policy (ci_source item) = Inr src"
      "validate_source_position item' = Inr ()" "validate_overflow item' = Inr ()"
    and item': "item' = default_overflow (item\<lparr>ci_id := trim (ci_id item), ci_name := name, ci_source := src\<rparr>)"
    using assms(2) unfolding normalize_item_def Let_def by (auto simp: bindR_eq_Inr)
  have sel: "ci_id item' = trim (ci_id item)" "ci_name item' = name" "ci_source item' = src"
    "ci_budget item' = ci_budget item" "tb_required (ci_budget item) \<Longrightarrow> ci_overflow item' = ci_overflow item"
    by (simp_all add: item' default_overflow_def)
  have same: "item'\<lparr>ci_id := trim (ci_id item)\<rparr> = item'" "item'\<lparr>ci_name := name\<rparr> = item'"
    "item'\<lparr>ci_source := src\<rparr> = item'"
    unfolding sel(1-3) [symmetric] by simp_all
  have kept: "default_overflow item' = item'" by (simp add: item' default_overflow_def)
  show "normalize_item env policy item' = Inr item'"
    unfolding normalize_item_def Let_def
    using st sel source_again [OF assms(1) st(6)] label_again [OF st(3)] by (simp add: same kept)
  show "ci_id item' = trim (ci_id item)" by (rule sel(1))
qed

lemma items_again:
  "normalize_items env policy seen items = Inr items' \<Longrightarrow> lower_laws (ce_lower env) \<Longrightarrow>
     normalize_items env policy seen items' = Inr items' \<and> length items' = length items"
proof (induction items arbitrary: seen items')
  case (Cons item items)
  then obtain a r where a: "normalize_item env policy item = Inr a" "ci_id a \<notin> seen"
    "normalize_items env policy (insert (ci_id a) seen) items = Inr r" "items' = a # r"
    by (auto simp: bindR_eq_Inr)
  have "normalize_item env policy a = Inr a" using item_again(1) [OF Cons.prems(2) a(1)] .
  with a Cons.IH [OF a(3) Cons.prems(2)] show ?case by simp
qed simp

lemma default_budget_again: "default_budget (Some (default_budget b)) = default_budget b"
  by (auto simp: default_budget_def Let_def split: option.splits)

lemma normalized_again:
  assumes "lower_laws (ce_lower env)" "normalize_context_spec env policy spec = Inr spec'"
  shows "normalize_context_spec env policy spec' = Inr spec'"
proof -
  obtain sid name items transforms where st:
    "np_version policy = CONTEXT_SEMANTIC_POLICY_VERSION"
    "normalize_optional_label 128 (sp_id spec) = Inr sid" "normalize_optional_label 200 (sp_name spec) = Inr name"
    "length (sp_items spec) \<le> MAX_CONTEXT_ITEMS" "normalize_items env policy {} (sp_items spec) = Inr items"
    "max_input_tokens (default_budget (sp_budget spec)) \<noteq> Some 0" "distinct (sp_post_process spec)"
    "normalize_text_transforms (ce_regex env) (sp_text_transforms spec) = Inr transforms"
    "normalize_text_transform_macros (sp_macros spec) = Inr ()"
    and spec': "spec' = spec\<lparr>sp_id := sid, sp_name := name, sp_items := items,
        sp_budget := Some (default_budget (sp_budget spec)), sp_text_transforms := transforms,
        sp_preview := Some (case sp_preview spec of
            None \<Rightarrow> \<lparr>pv_content = MetadataOnly, pv_count = LocalCount\<rparr> | Some p \<Rightarrow> p)\<rparr>"
    using assms(2) unfolding normalize_context_spec_def Let_def by (auto simp: bindR_eq_Inr)
  show ?thesis
    using st label_again [OF st(2)] label_again [OF st(3)] items_again [OF st(5) assms(1)]
      normalize_text_transforms_again [OF st(8)]
    unfolding normalize_context_spec_def Let_def spec' by (simp add: default_budget_again)
qed

section \<open>A preset\<close>

definition ascii_lower :: "char \<Rightarrow> char" where
  "ascii_lower c = (if is_upper c then char_of (byte c + 32) else c)"

lemma byte_ascii_lower: "byte (ascii_lower c) = (if is_upper c then byte c + 32 else byte c)"
  by (auto simp: ascii_lower_def byte_def is_upper_def)

lemma scalars_map:
  "(\<And>c. is_continuation (f c) = is_continuation c) \<Longrightarrow> scalars (map f s) = map (map f) (scalars s)"
proof (induction s rule: scalars.induct)
  case (2 c s)
  then show ?case by (simp add: takeWhile_map dropWhile_map comp_def)
qed simp

lemma ascii_lower_white: "is_white (map ascii_lower x) = is_white x"
proof -
  consider "x = []" | a where "x = [a]" | a b where "x = [a, b]" | a b c where "x = [a, b, c]"
    | a b c d y where "x = a # b # c # d # y" by (metis neq_Nil_conv)
  then show ?thesis by cases (simp_all add: is_white_def byte_ascii_lower is_upper_def)
qed

lemma ascii_lower_laws: "lower_laws (map ascii_lower)"
proof -
  have twice: "ascii_lower (ascii_lower c) = ascii_lower c" for c
    by (rule byte_inject [THEN iffD1]) (auto simp: byte_ascii_lower is_upper_def)
  have "is_continuation (ascii_lower c) = is_continuation c" for c
    by (auto simp: is_continuation_def byte_ascii_lower is_upper_def)
  then have s: "scalars (map ascii_lower t) = map (map ascii_lower) (scalars t)" for t by (rule scalars_map)
  have "trim_scalars (map (map ascii_lower) xs) = map (map ascii_lower) (trim_scalars xs)" for xs
    by (simp add: trim_scalars_def dropWhile_map rev_map comp_def ascii_lower_white)
  then have "trim (map ascii_lower (trim t)) = map ascii_lower (trim t)" for t
    by (simp add: trim_def [of "map ascii_lower (trim t)"] s) (simp add: trim_def map_concat)
  then show ?thesis using twice by (simp add: lower_laws_def)
qed

definition lore_env :: ctx_env where
  "lore_env =
     \<lparr>ce_serde = simple_serde, ce_sha = (\<lambda>s. s), ce_selectors = \<lparr>sl_pointer = (\<lambda>_ _. None), sl_path = (\<lambda>_. None)\<rparr>,
      ce_regex = \<lparr>rx_build = (\<lambda>_ _. Some (\<lambda>_. [])), rx_escape = (\<lambda>s. s)\<rparr>, ce_lower = map ascii_lower\<rparr>"

definition lore_item :: "string \<Rightarrow> context_source \<Rightarrow> context_item" where
  "lore_item i src =
     \<lparr>ci_id = i, ci_name = None, ci_enabled = True, ci_requested_role = AsSystem, ci_source = src,
      ci_position = AtStart, ci_order = 0, ci_priority = 0, ci_insertion_depth = 0,
      ci_budget = \<lparr>tb_max_tokens = None, tb_required = False\<rparr>, ci_overflow = None\<rparr>"

definition lore_rule :: text_rule where
  "lore_rule =
     \<lparr>tr_id = '' r '', tr_name = [], tr_priority = 0, tr_order = 7, tr_find_regex = ''/a/g'', tr_replace_string = ''b'',
      tr_trim_strings = [], tr_targets = [TargetWorldInfo, TargetUserInput, TargetWorldInfo],
      tr_surfaces = [SurfacePrompt], tr_disabled = False, tr_run_on_edit = False, tr_macro_mode = MacroNone,
      tr_min_depth = Some (- 1), tr_max_depth = None\<rparr>"

definition lore_spec :: context_spec where
  "lore_spec =
     \<lparr>sp_id = None, sp_name = Some '' Lore '', sp_mode = ModeChat,
      sp_items =
        [lore_item '' hero '' (SrcTemplate ZhuangshengTemplateV1 ''Hero: {{name}}''
           [(''name'', VarLiteral (JString ''Ann''))] MissingError None),
         lore_item ''lore'' (SrcWorldInfo ''b'' (WorldTags ['' Sea'', ''sea '', ''AIR''] MatchAny))],
      sp_budget = None, sp_post_process = [StrictAlternation], sp_text_transforms = [lore_rule],
      sp_macros = [], sp_preview = None\<rparr>"

definition lore_normal :: context_spec where
  "lore_normal = projr (normalize_context_spec lore_env default_policy lore_spec)"

lemma lore_normalizes: "normalize_context_spec lore_env default_policy lore_spec = Inr lore_normal"
proof -
  have "\<not> isl (normalize_context_spec lore_env default_policy lore_spec)" by code_simp
  then show ?thesis
    unfolding lore_normal_def by (cases "normalize_context_spec lore_env default_policy lore_spec") auto
qed

lemma lore_normal_tags: "map ci_source (tl (sp_items lore_normal)) = [SrcWorldInfo ''b'' (WorldTags [''air'', ''sea''] MatchAny)]"
  by code_simp

text \<open>
  The check of overflow policies lets a history be truncated or dropped, although its message says
  that a history supports keep-recent only.
\<close>

lemma history_overflow_accepted:
  "ci_overflow item \<in> {Some DropOverflow, Some TruncateHead, Some TruncateTail, Some Dedupe} \<Longrightarrow>
     validate_overflow item = Inr ()"
  by (auto simp: validate_overflow_def)

section \<open>The normal form\<close>

text \<open>
  C26: normalising a context preset is idempotent: what the normalisation returns is left unchanged
  by a second normalisation, so the assembly, which demands a preset equal to its normal form,
  accepts the normal form of every preset that can be normalised.
\<close>
theorem normalize_context_spec_idempotent:
  assumes "lower_laws (ce_lower env)" "normalize_context_spec env policy spec = Inr spec'"
  shows "normalize_context_spec env policy spec' = Inr spec'"
  by (rule normalized_again [OF assms])

theorem normalize_context_spec_idempotent_witness:
  "normalize_context_spec lore_env default_policy lore_normal = Inr lore_normal"
proof (rule normalize_context_spec_idempotent)
  show "lower_laws (ce_lower lore_env)" using ascii_lower_laws by (simp add: lore_env_def)
qed (rule lore_normalizes)

end
