(* ===== verification/Router_Value.thy ===== *)
theory Router_Value
  imports Canonical
begin

text \<open>
  \<open>crates/core/src/router/value.rs\<close> and \<open>router/error.rs\<close>: the exact numbers and the
  value domain of the router expression language.  \<open>num_bigint::BigInt\<close> is \<open>int\<close>.  An
  error is its code; the message texts repeat it in words and are not modelled.
\<close>

section \<open>The code\<close>

datatype router_code =
    MissingValue | TypeError | ComplexityExceeded | ValueTooLarge | NumericOutOfRange
  | IndexOutOfRange | InvalidExpression

fun router_code_text :: "router_code \<Rightarrow> string" where
  "router_code_text MissingValue = ''router_missing_value''"
| "router_code_text TypeError = ''router_type_error''"
| "router_code_text ComplexityExceeded = ''router_complexity_exceeded''"
| "router_code_text ValueTooLarge = ''router_value_too_large''"
| "router_code_text NumericOutOfRange = ''router_numeric_out_of_range''"
| "router_code_text IndexOutOfRange = ''router_index_out_of_range''"
| "router_code_text InvalidExpression = ''router_invalid_expression''"

definition ROUTER_MAX_STRING_BYTES :: nat where
  "ROUTER_MAX_STRING_BYTES = 64 * 1024"

datatype ordering = Less | Equal | Greater

definition cmp :: "'a::linorder \<Rightarrow> 'a \<Rightarrow> ordering" where
  "cmp a b = (if a < b then Less else if a = b then Equal else Greater)"

record exact_decimal =
  coefficient :: int
  scale :: int

datatype router_number = NInt int | NDecimal exact_decimal

datatype router_value =
    VMissing | VNull | VBool bool | VNumber router_number | VString string
  | VList "router_value list" | VObject "(string \<times> router_value) list"

definition scaled :: "int \<Rightarrow> int \<Rightarrow> int" where
  "scaled v places = v * 10 ^ nat places"

definition decimal_compare :: "exact_decimal \<Rightarrow> exact_decimal \<Rightarrow> ordering" where
  "decimal_compare a b =
     (let common_scale = max (scale a) (scale b)
      in cmp (scaled (coefficient a) (common_scale - scale a))
             (scaled (coefficient b) (common_scale - scale b)))"

fun as_decimal :: "router_number \<Rightarrow> exact_decimal" where
  "as_decimal (NInt i) = \<lparr>coefficient = i, scale = 0\<rparr>"
| "as_decimal (NDecimal d) = d"

fun number_compare :: "router_number \<Rightarrow> router_number \<Rightarrow> ordering" where
  "number_compare (NInt a) (NInt b) = cmp a b"
| "number_compare a b = decimal_compare (as_decimal a) (as_decimal b)"

text \<open>
  The loop \<open>while digits.ends_with('0')\<close>, on the reversed digits: each dropped zero
  lowers the scale by one, with \<open>i32\<close> underflow an error.
\<close>

fun drop_trailing_zeros :: "string \<Rightarrow> int \<Rightarrow> (string \<times> int) option" where
  "drop_trailing_zeros [] sc = Some ([], sc)"
| "drop_trailing_zeros (c # rds) sc =
     (if c = CHR ''0''
      then (case checked_i32 (sc - 1) of None \<Rightarrow> None | Some sc' \<Rightarrow> drop_trailing_zeros rds sc')
      else Some (rev (c # rds), sc))"

definition parse_decimal :: "string \<Rightarrow> router_code + exact_decimal" where
  "parse_decimal source =
     (let (negative, unsigned) = strip_minus source;
          (mantissa, exponent) =
            (case split_once is_exp unsigned of None \<Rightarrow> (unsigned, Some 0)
             | Some (l, r) \<Rightarrow> (l, parse_i32 r))
      in bindR (of_optionR NumericOutOfRange exponent) (\<lambda>ex.
         let (whole, fraction) =
               (case split_once (\<lambda>c. c = CHR ''.'') mantissa of None \<Rightarrow> (mantissa, [])
                | Some p \<Rightarrow> p)
         in bindR (of_optionR NumericOutOfRange
              (Option.bind (checked_i32 (int (length fraction))) (\<lambda>n. checked_i32 (n - ex)))) (\<lambda>sc0.
         bindR (of_optionR NumericOutOfRange
              (drop_trailing_zeros (rev (whole @ fraction)) sc0)) (\<lambda>(digits, sc).
         let significant = trim_start (CHR ''0'') digits
         in if significant = [] then Inr \<lparr>coefficient = 0, scale = 0\<rparr>
         else if length significant > 38 \<or> \<bar>sc\<bar> > 18 then Inl NumericOutOfRange
         else if \<not> list_all is_digit digits then Inl NumericOutOfRange
         else Inr \<lparr>coefficient = (if negative then - int (digits_val digits)
                                   else int (digits_val digits)),
                   scale = sc\<rparr>))))"

definition parse_number :: "string \<Rightarrow> router_code + router_number" where
  "parse_number source =
     (if list_all (\<lambda>c. c \<noteq> CHR ''.'' \<and> \<not> is_exp c) source
      then bindR (of_optionR NumericOutOfRange (parse_i64 source)) (\<lambda>i. Inr (NInt i))
      else bindR (parse_decimal source) (\<lambda>d. Inr (NDecimal d)))"

definition check_string :: "string \<Rightarrow> router_code + unit" where
  "check_string s = ensureR (length s \<le> ROUTER_MAX_STRING_BYTES) ValueTooLarge"

fun from_json :: "json \<Rightarrow> router_code + router_value" where
  "from_json JNull = Inr VNull"
| "from_json (JBool b) = Inr (VBool b)"
| "from_json (JNumber n) = bindR (parse_number n) (\<lambda>x. Inr (VNumber x))"
| "from_json (JString s) = bindR (check_string s) (\<lambda>_. Inr (VString s))"
| "from_json (JArray vs) = bindR (mapR (\<lambda>v. from_json v) vs) (\<lambda>ws. Inr (VList ws))"
| "from_json (JObject m) =
     bindR (mapR (\<lambda>(k, v). bindR (check_string k) (\<lambda>_. bindR (from_json v) (\<lambda>w. Inr (k, w)))) m)
       (\<lambda>kvs. Inr (VObject (om_of_list kvs)))"

fun deep_cost :: "router_value \<Rightarrow> nat option"
  and list_cost :: "nat \<Rightarrow> router_value list \<Rightarrow> nat option"
  and entries_cost :: "nat \<Rightarrow> (string \<times> router_value) list \<Rightarrow> nat option" where
  "deep_cost VMissing = None"
| "deep_cost VNull = Some 1"
| "deep_cost (VBool _) = Some 1"
| "deep_cost (VNumber _) = Some 1"
| "deep_cost (VString s) = checked_add_u64 1 (length s)"
| "deep_cost (VList vs) = list_cost 1 vs"
| "deep_cost (VObject m) = entries_cost 1 m"
| "list_cost acc [] = Some acc"
| "list_cost acc (v # vs) =
     Option.bind (deep_cost v) (\<lambda>c. Option.bind (checked_add_u64 acc c) (\<lambda>s. list_cost s vs))"
| "entries_cost acc [] = Some acc"
| "entries_cost acc ((k, v) # m) =
     Option.bind (checked_add_u64 acc (length k)) (\<lambda>a.
     Option.bind (deep_cost v) (\<lambda>c.
     Option.bind (checked_add_u64 a c) (\<lambda>s. entries_cost s m)))"

section \<open>Exactness\<close>

fun number_rat :: "router_number \<Rightarrow> rat" where
  "number_rat (NInt i) = of_int i"
| "number_rat (NDecimal d) = of_int (coefficient d) * 10 powi (- scale d)"

lemma as_decimal_rat: "of_int (coefficient (as_decimal n)) * 10 powi (- scale (as_decimal n)) = number_rat n"
  by (cases n) simp_all

lemma scaled_rat:
  assumes "0 \<le> c - s"
  shows "of_int (scaled v (c - s)) = of_int v * (10::rat) powi (- s) * 10 powi c"
proof -
  obtain n where n: "c = s + int n" using assms zle_iff_zadd [of s c] by auto
  have "(10::rat) powi (- s) * 10 powi c = 10 powi (int n)"
    by (simp add: n flip: power_int_add)
  then show ?thesis by (simp add: scaled_def n mult.assoc)
qed

lemma decimal_compare_rat:
  "decimal_compare a b =
     cmp (of_int (coefficient a) * (10::rat) powi (- scale a)) (of_int (coefficient b) * 10 powi (- scale b))"
proof -
  define c where "c = max (scale a) (scale b)"
  have p: "(0::rat) < 10 powi c" by simp
  have a: "of_int (scaled (coefficient a) (c - scale a)) = of_int (coefficient a) * (10::rat) powi (- scale a) * 10 powi c"
    by (rule scaled_rat) (simp add: c_def)
  have b: "of_int (scaled (coefficient b) (c - scale b)) = of_int (coefficient b) * (10::rat) powi (- scale b) * 10 powi c"
    by (rule scaled_rat) (simp add: c_def)
  have "cmp x y = cmp (of_int x :: rat) (of_int y)" for x y :: int by (simp add: cmp_def)
  then show ?thesis
    using p by (simp add: decimal_compare_def Let_def flip: c_def) (simp add: a b cmp_def)
qed

lemma number_compare_rat: "number_compare m n = cmp (number_rat m) (number_rat n)"
proof (cases "\<exists>i j. m = NInt i \<and> n = NInt j")
  case True
  then show ?thesis by (auto simp: cmp_def)
next
  case False
  then have "number_compare m n = decimal_compare (as_decimal m) (as_decimal n)"
    by (cases m; cases n) auto
  then show ?thesis by (simp add: decimal_compare_rat as_decimal_rat)
qed

lemma drop_trailing_zeros_spec:
  "drop_trailing_zeros rds sc = Some (ds, sc') \<Longrightarrow>
     \<exists>n. rds = replicate n (CHR ''0'') @ rev ds \<and> sc' = sc - int n
       \<and> (ds \<noteq> [] \<longrightarrow> last ds \<noteq> CHR ''0'')"
proof (induction rds sc rule: drop_trailing_zeros.induct)
  case (2 c rds sc)
  show ?case
  proof (cases "c = CHR ''0''")
    case True
    then obtain n where "rds = replicate n (CHR ''0'') @ rev ds" "sc' = sc - 1 - int n"
      "ds \<noteq> [] \<longrightarrow> last ds \<noteq> CHR ''0''"
      using 2 by (auto split: option.splits)
    with True show ?thesis by (intro exI [of _ "Suc n"]) auto
  next
    case False
    then show ?thesis using 2 by (intro exI [of _ 0]) auto
  qed
qed simp

lemma parse_int_text:
  assumes "wf_number_text t" "nt_fraction t = None" "nt_exponent t = None"
    "parse_i64 (number_string t) = Some i"
  shows "of_int i = number_value t"
proof -
  obtain c cs where c: "nt_integer t = c # cs" "is_digit c"
    using assms(1) by (cases "nt_integer t") (auto simp: wf_number_text_def)
  have "i = (if nt_negative t then - int (digits_val (nt_integer t)) else int (digits_val (nt_integer t)))"
    using assms(2-4) c digit_not_special [of c]
    by (auto simp: number_string_def coefficient_text_def exponent_text_def parse_i64_def
        parse_signed_def Let_def split: if_splits)
  then show ?thesis
    using assms(2,3) by (simp add: number_value_def decimal_value_def sign_factor_def
        fraction_digits_def exponent_value_def)
qed

lemma parse_exponent_i32:
  assumes "ds \<noteq> []" "list_all is_digit ds" "parse_i32 (exp_sign_text sg @ ds) = Some v"
  shows "v = (if sg = EMinus then - int (digits_val ds) else int (digits_val ds))"
proof -
  obtain c cs where ds: "ds = c # cs" using assms(1) by (cases ds) auto
  then show ?thesis
    using assms digit_not_special [of c]
    by (cases sg) (auto simp: parse_i32_def parse_signed_def Let_def split: if_splits)
qed

lemma split_mantissa_number_text:
  assumes wf: "wf_number_text t"
    and sp: "(case split_once is_exp (coefficient_text t @ exponent_text t) of
        None \<Rightarrow> (coefficient_text t @ exponent_text t, Some 0)
      | Some (l, r) \<Rightarrow> (l, parse_i32 r)) = (c, Some ex)"
  shows "c = coefficient_text t \<and> ex = exponent_value t"
proof (cases "nt_exponent t")
  case None
  then show ?thesis
    using sp split_once_None [OF coefficient_no_exp [OF wf]]
    by (simp add: exponent_text_def exponent_value_def)
next
  case (Some p)
  then obtain e sg ds where p: "nt_exponent t = Some (e, sg, ds)" by (cases p) auto
  with wf have e: "is_exp e" "ds \<noteq> []" "list_all is_digit ds"
    by (simp_all add: wf_number_text_def)
  have "split_once is_exp (coefficient_text t @ exponent_text t)
      = Some (coefficient_text t, exp_sign_text sg @ ds)"
    using split_once_Some [OF coefficient_no_exp [OF wf] e(1)] by (simp add: p exponent_text_def)
  then show ?thesis
    using sp parse_exponent_i32 [OF e(2,3), of sg ex]
    by (auto simp: p exponent_value_def)
qed

lemma parse_decimal_text:
  assumes wf: "wf_number_text t" and pd: "parse_decimal (number_string t) = Inr d"
  shows "of_int (coefficient d) * (10::rat) powi (- scale d) = number_value t
    \<and> \<bar>scale d\<bar> \<le> 18"
proof -
  define raw where "raw = nt_integer t @ fraction_digits t"
  have raw: "list_all is_digit raw" using fraction_digits_wf [OF wf] by (simp add: raw_def)
  obtain c eo where sp0: "(case split_once is_exp (coefficient_text t @ exponent_text t) of
        None \<Rightarrow> (coefficient_text t @ exponent_text t, Some 0)
      | Some (l, r) \<Rightarrow> (l, parse_i32 r)) = (c, eo)"
    by (rule prod.exhaust)
  have "eo \<noteq> None"
    using pd unfolding parse_decimal_def strip_minus_number_string [OF wf] Let_def prod.case sp0
    by (cases eo) simp_all
  then obtain ex where sp: "(case split_once is_exp (coefficient_text t @ exponent_text t) of
        None \<Rightarrow> (coefficient_text t @ exponent_text t, Some 0)
      | Some (l, r) \<Rightarrow> (l, parse_i32 r)) = (c, Some ex)"
    using sp0 by auto
  then have c: "c = coefficient_text t" "ex = exponent_value t"
    using split_mantissa_number_text [OF wf] by blast+
  note pd' = pd [unfolded parse_decimal_def strip_minus_number_string [OF wf] Let_def prod.case sp
      of_optionR_simps bindR_simps c split_fraction_number_text [OF wf] raw_def [symmetric]]
  obtain ds sc where ds: "drop_trailing_zeros (rev raw) (int (length (fraction_digits t)) - exponent_value t) = Some (ds, sc)"
    using pd' by (auto simp: bindR_eq_Inr bind_eq_Some_conv)
  obtain n where n: "rev raw = replicate n (CHR ''0'') @ rev ds"
    "sc = int (length (fraction_digits t)) - exponent_value t - int n"
    using drop_trailing_zeros_spec [OF ds] by blast
  then have r: "raw = ds @ replicate n (CHR ''0'')"
    by (metis rev_append rev_replicate rev_rev_ident)
  then have val: "digits_val raw = digits_val ds * 10 ^ n" by (simp add: digits_val_zeros_right)
  have dz: "list_all is_digit ds" using raw r by simp
  have nv: "number_value t = decimal_value (nt_negative t) ds (- sc)"
    unfolding number_value_def raw_def [symmetric]
    by (rule decimal_value_shift [OF val]) (simp add: n)
  show ?thesis
  proof (cases "trim_start (CHR ''0'') ds = []")
    case True
    then have "digits_val ds = 0"
      using trim_start_decomp [of ds "CHR ''0''"] digits_val_zeros_left [of _ "[]"]
      by (metis append_Nil2 digits_val_Nil)
    then show ?thesis
      using pd' True ds nv by (auto simp: bindR_eq_Inr bind_eq_Some_conv decimal_value_def)
  next
    case False
    then have "d = \<lparr>coefficient = (if nt_negative t then - int (digits_val ds) else int (digits_val ds)),
        scale = sc\<rparr> \<and> \<bar>sc\<bar> \<le> 18"
      using pd' ds dz by (auto simp: bindR_eq_Inr bind_eq_Some_conv split: if_splits)
    then show ?thesis by (simp add: nv decimal_value_def sign_factor_def)
  qed
qed

lemma number_string_integer:
  assumes wf: "wf_number_text t" and no: "list_all (\<lambda>c. c \<noteq> CHR ''.'' \<and> \<not> is_exp c) (number_string t)"
  shows "nt_fraction t = None \<and> nt_exponent t = None"
  using assms
  by (auto simp: number_string_def coefficient_text_def exponent_text_def wf_number_text_def
      split: option.splits)

text \<open>
  A number text that the router accepts is read exactly: the parsed number has the
  rational value the text denotes, never a rounded one.
\<close>
theorem parse_number_exact:
  assumes "wf_number_text t" "parse_number (number_string t) = Inr n"
  shows "number_rat n = number_value t"
proof (cases "list_all (\<lambda>c. c \<noteq> CHR ''.'' \<and> \<not> is_exp c) (number_string t)")
  case True
  then show ?thesis
    using assms number_string_integer [OF assms(1)] parse_int_text [OF assms(1)]
    by (auto simp: parse_number_def bindR_eq_Inr)
next
  case False
  then show ?thesis
    using assms parse_decimal_text [OF assms(1)] by (auto simp: parse_number_def bindR_eq_Inr)
qed

lemma parse_number_exact_witness:
  "\<exists>n. parse_number (number_string text_12_50e1) = Inr n \<and> number_rat n = number_value text_12_50e1"
proof -
  have h: "wf_number_text text_12_50e1"
    "parse_number (number_string text_12_50e1) = Inr (NDecimal \<lparr>coefficient = 125, scale = 0\<rparr>)"
    by code_simp+
  show ?thesis using h parse_number_exact [OF h] by blast
qed

text \<open>
  Comparing two numbers, integers or decimals in any mixture, is comparing their exact
  rational values.
\<close>
theorem number_compare_exact: "number_compare m n = cmp (number_rat m) (number_rat n)"
  by (rule number_compare_rat)

end
