(* ===== verification/Router_Lexer.thy ===== *)
theory Router_Lexer
  imports Router_Value
begin

text \<open>
  \<open>crates/core/src/router/lexer.rs\<close>: the tokens of the router expression language.  The
  scanner's index into the source is the pair of a position and the suffix of the source
  that starts there.  An error value names the place in the code that raises it; the caller
  turns each of them into \<open>router_invalid_expression\<close>.
\<close>

datatype token =
    TLeftParen | TRightParen | TLeftBracket | TRightBracket | TComma | TDot | TBang | TAnd | TOr
  | TEqual | TNotEqual | TLess | TLessEqual | TGreater | TGreaterEqual | TIn
  | TIdentifier string | TString string | TNumber string | TNull | TBool bool | TEnd

datatype lex_error =
    UnexpectedToken nat | InvalidStringLiteral | ControlCharacter | UnterminatedString
  | InvalidNumber nat | FractionDigits | ExponentDigits

definition is_whitespace :: "char \<Rightarrow> bool" where
  "is_whitespace c \<longleftrightarrow> c = CHR '' '' \<or> byte c = 9 \<or> byte c = 10 \<or> byte c = 12 \<or> byte c = 13"

definition is_ident_char :: "char \<Rightarrow> bool" where
  "is_ident_char c \<longleftrightarrow> is_alpha c \<or> is_digit c \<or> c = CHR ''_''"

fun string_end :: "bool \<Rightarrow> string \<Rightarrow> lex_error + string" where
  "string_end escaped [] = Inl UnterminatedString"
| "string_end escaped (b # r) =
     (if escaped then string_end False r
      else if b = CHR 0x5C then string_end True r
      else if b = CHR 0x22 then Inr r
      else if byte b < 32 then Inl ControlCharacter
      else string_end False r)"

text \<open>A scanner returns the text it consumed and the rest of the source.\<close>

definition consumed :: "string \<Rightarrow> string \<Rightarrow> string" where
  "consumed s rest = take (length s - length rest) s"

definition scan_string :: "serde \<Rightarrow> string \<Rightarrow> lex_error + string \<times> string" where
  "scan_string sd s =
     bindR (string_end False (tl s)) (\<lambda>rest.
     bindR (of_optionR InvalidStringLiteral (decode_string sd (consumed s rest))) (\<lambda>text.
       Inr (text, rest)))"

definition scan_digits1 :: "lex_error \<Rightarrow> string \<Rightarrow> lex_error + string" where
  "scan_digits1 e s = (if takeWhile is_digit s = [] then Inl e else Inr (dropWhile is_digit s))"

definition scan_integer :: "nat \<Rightarrow> string \<Rightarrow> lex_error + string" where
  "scan_integer start s =
     (case s of [] \<Rightarrow> Inl (InvalidNumber start)
      | c # r \<Rightarrow> if c = CHR ''0'' then Inr r else scan_digits1 (InvalidNumber start) s)"

definition scan_fraction :: "string \<Rightarrow> lex_error + string" where
  "scan_fraction s = (case s of [] \<Rightarrow> Inr []
     | c # r \<Rightarrow> if c = CHR ''.'' then scan_digits1 FractionDigits r else Inr s)"

definition scan_exponent :: "string \<Rightarrow> lex_error + string" where
  "scan_exponent s = (case s of [] \<Rightarrow> Inr []
     | c # r \<Rightarrow>
         if is_exp c
         then scan_digits1 ExponentDigits
                (case r of [] \<Rightarrow> [] | d # q \<Rightarrow> if d = CHR ''+'' \<or> d = CHR ''-'' then q else r)
         else Inr s)"

definition scan_number :: "nat \<Rightarrow> string \<Rightarrow> lex_error + string \<times> string" where
  "scan_number start s =
     bindR (scan_integer start (snd (strip_minus s))) (\<lambda>r1.
     bindR (scan_fraction r1) (\<lambda>r2.
     bindR (scan_exponent r2) (\<lambda>rest. Inr (consumed s rest, rest))))"

definition scan_identifier :: "string \<Rightarrow> string \<times> string" where
  "scan_identifier s = (takeWhile is_ident_char s, dropWhile is_ident_char s)"

definition identifier_token :: "string \<Rightarrow> token" where
  "identifier_token i =
     (if i = ''true'' then TBool True else if i = ''false'' then TBool False
      else if i = ''null'' then TNull else if i = ''in'' then TIn else TIdentifier i)"

definition one_byte :: "char \<Rightarrow> token option" where
  "one_byte c =
     (if c = CHR ''('' then Some TLeftParen else if c = CHR '')'' then Some TRightParen
      else if c = CHR ''['' then Some TLeftBracket else if c = CHR '']'' then Some TRightBracket
      else if c = CHR '','' then Some TComma else if c = CHR ''.'' then Some TDot else None)"

text \<open>
  The operators, in the order of the arms of the source: the two-byte forms before the
  one-byte ones.
\<close>

definition operator :: "char \<Rightarrow> string \<Rightarrow> (token \<times> string) option" where
  "operator c r =
     (let next = (case r of [] \<Rightarrow> None | d # q \<Rightarrow> Some (d, q))
      in if c = CHR ''!'' then
           (case next of Some (d, q) \<Rightarrow> if d = CHR ''='' then Some (TNotEqual, q) else Some (TBang, r)
            | None \<Rightarrow> Some (TBang, r))
         else if c = CHR ''&'' then
           (case next of Some (d, q) \<Rightarrow> if d = CHR ''&'' then Some (TAnd, q) else None | None \<Rightarrow> None)
         else if c = CHR ''|'' then
           (case next of Some (d, q) \<Rightarrow> if d = CHR ''|'' then Some (TOr, q) else None | None \<Rightarrow> None)
         else if c = CHR ''='' then
           (case next of Some (d, q) \<Rightarrow> if d = CHR ''='' then Some (TEqual, q) else None | None \<Rightarrow> None)
         else if c = CHR ''<'' then
           (case next of Some (d, q) \<Rightarrow> if d = CHR ''='' then Some (TLessEqual, q) else Some (TLess, r)
            | None \<Rightarrow> Some (TLess, r))
         else if c = CHR ''>'' then
           (case next of Some (d, q) \<Rightarrow> if d = CHR ''='' then Some (TGreaterEqual, q) else Some (TGreater, r)
            | None \<Rightarrow> Some (TGreater, r))
         else None)"

text \<open>
  One round of the loop of \<open>lex\<close> at a non-empty suffix: the token produced, if any, and
  the rest.
\<close>

definition lex_step :: "serde \<Rightarrow> nat \<Rightarrow> string \<Rightarrow> lex_error + token option \<times> string" where
  "lex_step sd i s =
     (case s of [] \<Rightarrow> Inl (UnexpectedToken i)
      | c # r \<Rightarrow>
          if is_whitespace c then Inr (None, r)
          else case one_byte c of Some t \<Rightarrow> Inr (Some t, r)
          | None \<Rightarrow>
          (case operator c r of Some (t, q) \<Rightarrow> Inr (Some t, q)
          | None \<Rightarrow>
            if c = CHR 0x22
            then bindR (scan_string sd s) (\<lambda>(text, rest). Inr (Some (TString text), rest))
            else if c = CHR ''-'' \<or> is_digit c
            then bindR (scan_number i s) (\<lambda>(text, rest). Inr (Some (TNumber text), rest))
            else if is_alpha c \<or> c = CHR ''_''
            then (let (name, rest) = scan_identifier s in Inr (Some (identifier_token name), rest))
            else Inl (UnexpectedToken i)))"

section \<open>Every round consumes input\<close>

lemma string_end_length: "string_end e s = Inr r \<Longrightarrow> length r < length s"
  by (induction e s rule: string_end.induct) (auto split: if_splits)

lemma scan_digits1_length: "scan_digits1 e s = Inr r \<Longrightarrow> length r < length s"
  using length_dropWhile_le [of is_digit "tl s"]
  by (cases s) (auto simp: scan_digits1_def split: if_splits)

lemma scan_integer_length: "scan_integer i s = Inr r \<Longrightarrow> length r < length s"
  using scan_digits1_length [of _ s r]
  by (auto simp: scan_integer_def split: list.splits if_splits)

lemma scan_fraction_length: "scan_fraction s = Inr r \<Longrightarrow> length r \<le> length s"
  by (fastforce simp: scan_fraction_def dest!: scan_digits1_length split: list.splits if_splits)

lemma scan_exponent_length: "scan_exponent s = Inr r \<Longrightarrow> length r \<le> length s"
  using scan_digits1_length [of _ _ r]
  by (fastforce simp: scan_exponent_def split: list.splits if_splits)

lemma scan_number_length: "scan_number i s = Inr (t, r) \<Longrightarrow> length r < length s"
proof -
  assume "scan_number i s = Inr (t, r)"
  then obtain r1 r2 where r: "scan_integer i (snd (strip_minus s)) = Inr r1" "scan_fraction r1 = Inr r2"
    "scan_exponent r2 = Inr r"
    by (auto simp: scan_number_def bindR_eq_Inr)
  have "length (snd (strip_minus s)) \<le> length s"
    by (auto simp: strip_minus_def split: list.splits)
  then show ?thesis
    using scan_integer_length [OF r(1)] scan_fraction_length [OF r(2)] scan_exponent_length [OF r(3)]
    by linarith
qed

lemma operator_length: "operator c r = Some (t, q) \<Longrightarrow> length q \<le> length r"
  by (auto simp: operator_def Let_def split: list.splits if_splits)

lemma lex_step_length: "lex_step sd i s = Inr (t, r) \<Longrightarrow> length r < length s"
proof (cases s)
  case (Cons c q)
  assume a: "lex_step sd i s = Inr (t, r)"
  have "length (dropWhile is_ident_char q) < length s"
    using length_dropWhile_le [of is_ident_char q] by (simp add: Cons less_Suc_eq_le)
  then show ?thesis
    using a string_end_length [of False q r] scan_number_length [of i s _ r] operator_length [of c q _ r]
    by (auto simp: lex_step_def Cons scan_string_def scan_identifier_def is_ident_char_def
        bindR_eq_Inr less_Suc_eq_le split: if_splits option.splits)
qed (simp add: lex_step_def)

function lex_loop :: "serde \<Rightarrow> nat \<Rightarrow> string \<Rightarrow> token list \<Rightarrow> lex_error + token list" where
  "lex_loop sd i s tokens =
     (if s = [] then Inr (tokens @ [TEnd])
      else bindR (lex_step sd i s) (\<lambda>(t, rest).
        lex_loop sd (i + (length s - length rest)) rest
          (case t of None \<Rightarrow> tokens | Some t \<Rightarrow> tokens @ [t])))"
  by pat_completeness auto
termination
  by (relation "measure (\<lambda>(sd, i, s, tokens). length s)") (auto dest: lex_step_length)

declare lex_loop.simps [simp del]

definition lex :: "serde \<Rightarrow> string \<Rightarrow> lex_error + token list" where
  "lex sd source = lex_loop sd 0 source []"

end
