(* ===== verification/Router_Ast.thy ===== *)
theory Router_Ast
  imports Router_Value
begin

text \<open>
  \<open>crates/core/src/router/ast.rs\<close> and the functions on syntax trees at the end of
  \<open>router/parser.rs\<close>: the expressions, their depth, which of them are literals, and the
  static type that lets graph validation reject a rule that can never be a boolean.
\<close>

section \<open>The code\<close>

datatype literal = LNull | LBool bool | LString string | LNumber string

datatype root = Inputs | Memory | Control

datatype access_key = KField string | KIndex int

datatype binary_op =
    OpOr | OpAnd | OpEqual | OpNotEqual | OpLess | OpLessEqual | OpGreater | OpGreaterEqual | OpIn

datatype func = Has | Size | Contains | StartsWith | EndsWith | LowerAscii | UpperAscii

datatype expr =
    ELiteral literal
  | ERoot root
  | EList "expr list"
  | EField expr string
  | EIndex expr access_key
  | ENot expr
  | EBinary binary_op expr expr
  | ECall func "expr list"

definition function_parse :: "string \<Rightarrow> func option" where
  "function_parse v =
     (if v = ''has'' then Some Has
      else if v = ''size'' then Some Size
      else if v = ''contains'' then Some Contains
      else if v = ''starts_with'' then Some StartsWith
      else if v = ''ends_with'' then Some EndsWith
      else if v = ''lower_ascii'' then Some LowerAscii
      else if v = ''upper_ascii'' then Some UpperAscii
      else None)"

fun arity :: "func \<Rightarrow> nat" where
  "arity Has = 2"
| "arity Contains = 2"
| "arity StartsWith = 2"
| "arity EndsWith = 2"
| "arity Size = 1"
| "arity LowerAscii = 1"
| "arity UpperAscii = 1"

fun is_literal :: "expr \<Rightarrow> bool" where
  "is_literal (ELiteral _) = True"
| "is_literal (EList values) = list_all is_literal values"
| "is_literal _ = False"

text \<open>\<open>iter().max().unwrap_or(0)\<close>\<close>

definition max_or_0 :: "nat list \<Rightarrow> nat" where
  "max_or_0 ns = foldr max ns 0"

fun depth :: "expr \<Rightarrow> nat" where
  "depth (ELiteral _) = 0 + 1"
| "depth (ERoot _) = 0 + 1"
| "depth (EList values) = max_or_0 (map depth values) + 1"
| "depth (ECall _ values) = max_or_0 (map depth values) + 1"
| "depth (EField v _) = depth v + 1"
| "depth (EIndex v _) = depth v + 1"
| "depth (ENot v) = depth v + 1"
| "depth (EBinary _ l r) = max (depth l) (depth r) + 1"

datatype static_kind = Boolean | NonBoolean | Unknown

fun function_static_type :: "func \<Rightarrow> static_kind" where
  "function_static_type Has = Boolean"
| "function_static_type Contains = Boolean"
| "function_static_type StartsWith = Boolean"
| "function_static_type EndsWith = Boolean"
| "function_static_type Size = NonBoolean"
| "function_static_type LowerAscii = NonBoolean"
| "function_static_type UpperAscii = NonBoolean"

fun static_type :: "expr \<Rightarrow> static_kind" where
  "static_type (ELiteral (LBool _)) = Boolean"
| "static_type (ELiteral _) = NonBoolean"
| "static_type (EList _) = NonBoolean"
| "static_type (ERoot _) = Unknown"
| "static_type (EField _ _) = Unknown"
| "static_type (EIndex _ _) = Unknown"
| "static_type (ENot _) = Boolean"
| "static_type (EBinary _ _ _) = Boolean"
| "static_type (ECall f _) = function_static_type f"

section \<open>Measures and well-formed trees\<close>

fun node_count :: "expr \<Rightarrow> nat" where
  "node_count (EList es) = Suc (sum_list (map node_count es))"
| "node_count (ECall _ es) = Suc (sum_list (map node_count es))"
| "node_count (EField e _) = Suc (node_count e)"
| "node_count (EIndex e _) = Suc (node_count e)"
| "node_count (ENot e) = Suc (node_count e)"
| "node_count (EBinary _ l r) = Suc (node_count l + node_count r)"
| "node_count _ = 1"

text \<open>What every tree that the parser builds satisfies.\<close>

fun key_ok :: "access_key \<Rightarrow> bool" where
  "key_ok (KField _) = True"
| "key_ok (KIndex i) = (i64_min \<le> i \<and> i \<le> i64_max)"

fun wf_expr :: "expr \<Rightarrow> bool" where
  "wf_expr (ELiteral (LNumber s)) = (\<exists>n. parse_number s = Inr n)"
| "wf_expr (ELiteral _) = True"
| "wf_expr (ERoot _) = True"
| "wf_expr (EList es) = (length es \<le> 128 \<and> list_all is_literal es \<and> list_all wf_expr es)"
| "wf_expr (ECall f es) = (length es = arity f \<and> list_all wf_expr es)"
| "wf_expr (EField e _) = wf_expr e"
| "wf_expr (EIndex e k) = (key_ok k \<and> wf_expr e)"
| "wf_expr (ENot e) = wf_expr e"
| "wf_expr (EBinary _ l r) = (wf_expr l \<and> wf_expr r)"

lemma node_count_pos: "0 < node_count e"
  by (induction e) auto

lemma sum_list_le_member: "x \<in> set xs \<Longrightarrow> (f x :: nat) \<le> sum_list (map f xs)"
  by (rule member_le_sum_list) auto

lemma max_or_0_le: "list_all (\<lambda>n. n \<le> b) ns \<Longrightarrow> max_or_0 ns \<le> b"
  by (induction ns) (auto simp: max_or_0_def)

lemma max_or_0_ge: "n \<in> set ns \<Longrightarrow> n \<le> max_or_0 ns"
  by (induction ns) (auto simp: max_or_0_def)

end
