(* ===== verification/Router_Parser.thy ===== *)
theory Router_Parser
  imports Router_Lexer Router_Ast
begin

text \<open>
  \<open>crates/core/src/router/parser.rs\<close>: the recursive-descent parser.  Its recursion goes
  through \<open>parse_nested_or\<close> only, so each level is a definition over the parser for the
  nested expressions, and \<open>parse_or\<close> ties the knot with a fuel.  The nesting counter
  stops the recursion after \<open>MAX_AST_DEPTH\<close> levels, hence \<open>PARSE_LEVELS\<close> is enough
  fuel; each round of a loop consumes a token, hence the number of tokens is enough fuel for
  a loop.  A token access beyond the end is \<open>Panic\<close>.  After an error the parser is
  dropped, so an error carries no state.
\<close>

section \<open>The code\<close>

definition MAX_SOURCE_BYTES :: nat where "MAX_SOURCE_BYTES = 4 * 1024"
definition MAX_AST_NODES :: nat where "MAX_AST_NODES = 256"
definition MAX_AST_DEPTH :: nat where "MAX_AST_DEPTH = 32"
definition MAX_LITERAL_LIST :: nat where "MAX_LITERAL_LIST = 128"

datatype parse_stop = Fail router_code | Panic | OutOfFuel

abbreviation syntax_error :: "parse_stop + 'a" where
  "syntax_error \<equiv> Inl (Fail InvalidExpression)"

abbreviation complexity_error :: "parse_stop + 'a" where
  "complexity_error \<equiv> Inl (Fail ComplexityExceeded)"

record parser =
  tokens :: "token list"
  position :: nat
  nodes :: nat
  nesting :: nat

type_synonym 'a parse = "parser \<Rightarrow> parse_stop + 'a \<times> parser"

definition current :: "parser \<Rightarrow> parse_stop + token" where
  "current p = (if position p < length (tokens p) then Inr (tokens p ! position p) else Inl Panic)"

definition advance :: "token parse" where
  "advance p = bindR (current p) (\<lambda>t. Inr (t, p\<lparr>position := position p + 1\<rparr>))"

definition take_token :: "token \<Rightarrow> bool parse" where
  "take_token expected p = bindR (current p) (\<lambda>t.
     if t = expected then Inr (True, p\<lparr>position := position p + 1\<rparr>) else Inr (False, p))"

definition expect :: "token \<Rightarrow> unit parse" where
  "expect expected p = bindR (take_token expected p) (\<lambda>(b, p).
     if b then Inr ((), p) else bindR (current p) (\<lambda>_. syntax_error))"

definition node :: "expr \<Rightarrow> expr parse" where
  "node e p =
     (let p = p\<lparr>nodes := nodes p + 1\<rparr>
      in if nodes p > MAX_AST_NODES then complexity_error else Inr (e, p))"

definition root_of_name :: "string \<Rightarrow> root option" where
  "root_of_name name =
     (if name = ''inputs'' then Some Inputs else if name = ''memory'' then Some Memory
      else if name = ''control'' then Some Control else None)"

definition comparison_op :: "token \<Rightarrow> binary_op option" where
  "comparison_op t =
     (case t of TEqual \<Rightarrow> Some OpEqual | TNotEqual \<Rightarrow> Some OpNotEqual | TLess \<Rightarrow> Some OpLess
      | TLessEqual \<Rightarrow> Some OpLessEqual | TGreater \<Rightarrow> Some OpGreater
      | TGreaterEqual \<Rightarrow> Some OpGreaterEqual | TIn \<Rightarrow> Some OpIn | _ \<Rightarrow> None)"

definition index_key :: "token \<Rightarrow> access_key option" where
  "index_key t =
     (case t of TString v \<Rightarrow> Some (KField v)
      | TNumber v \<Rightarrow>
          if list_all (\<lambda>c. c \<noteq> CHR ''.'' \<and> \<not> is_exp c) v then map_option KIndex (parse_i64 v) else None
      | _ \<Rightarrow> None)"

definition parse_nested_or :: "expr parse \<Rightarrow> expr parse" where
  "parse_nested_or parse_or p =
     (let p = p\<lparr>nesting := nesting p + 1\<rparr>
      in if nesting p > MAX_AST_DEPTH then complexity_error
         else bindR (parse_or p) (\<lambda>(e, p). Inr (e, p\<lparr>nesting := nesting p - 1\<rparr>)))"

fun args_loop :: "expr parse \<Rightarrow> nat \<Rightarrow> expr list \<Rightarrow> expr list parse" where
  "args_loop nested 0 arguments p = Inl OutOfFuel"
| "args_loop nested (Suc n) arguments p =
     bindR (nested p) (\<lambda>(e, p).
     let arguments = arguments @ [e]
     in bindR (take_token TRightParen p) (\<lambda>(b, p).
        if b then Inr (arguments, p)
        else bindR (expect TComma p) (\<lambda>(_, p). args_loop nested n arguments p)))"

definition parse_arguments :: "expr parse \<Rightarrow> expr list parse" where
  "parse_arguments nested p =
     bindR (take_token TRightParen p) (\<lambda>(b, p).
     if b then Inr ([], p) else args_loop nested (length (tokens p)) [] p)"

definition parse_identifier :: "expr parse \<Rightarrow> string \<Rightarrow> expr parse" where
  "parse_identifier nested name p =
     (case root_of_name name of Some r \<Rightarrow> node (ERoot r) p
      | None \<Rightarrow>
          (case function_parse name of None \<Rightarrow> syntax_error
           | Some f \<Rightarrow>
               bindR (expect TLeftParen p) (\<lambda>(_, p).
               bindR (parse_arguments nested p) (\<lambda>(arguments, p).
               if length arguments \<noteq> arity f then syntax_error
               else node (ECall f arguments) p))))"

fun list_loop :: "expr parse \<Rightarrow> nat \<Rightarrow> expr list \<Rightarrow> expr list parse" where
  "list_loop nested 0 values p = Inl OutOfFuel"
| "list_loop nested (Suc n) values p =
     bindR (nested p) (\<lambda>(v, p).
     if \<not> is_literal v then syntax_error
     else let values = values @ [v]
     in if length values > MAX_LITERAL_LIST then complexity_error
     else bindR (take_token TRightBracket p) (\<lambda>(b, p).
        if b then Inr (values, p)
        else bindR (expect TComma p) (\<lambda>(_, p). list_loop nested n values p)))"

definition parse_list_values :: "expr parse \<Rightarrow> expr list parse" where
  "parse_list_values nested p =
     bindR (take_token TRightBracket p) (\<lambda>(b, p).
     if b then Inr ([], p) else list_loop nested (length (tokens p)) [] p)"

definition parse_list :: "expr parse \<Rightarrow> expr parse" where
  "parse_list nested p =
     bindR (parse_list_values nested p) (\<lambda>(values, p). node (EList values) p)"

definition parse_primary :: "expr parse \<Rightarrow> expr parse" where
  "parse_primary nested p =
     bindR (advance p) (\<lambda>(t, p).
     case t of
       TNull \<Rightarrow> node (ELiteral LNull) p
     | TBool v \<Rightarrow> node (ELiteral (LBool v)) p
     | TString v \<Rightarrow> node (ELiteral (LString v)) p
     | TNumber v \<Rightarrow> bindR (map_errR Fail (parse_number v)) (\<lambda>_. node (ELiteral (LNumber v)) p)
     | TIdentifier v \<Rightarrow> parse_identifier nested v p
     | TLeftParen \<Rightarrow>
         bindR (nested p) (\<lambda>(e, p). bindR (expect TRightParen p) (\<lambda>(_, p). Inr (e, p)))
     | TLeftBracket \<Rightarrow> parse_list nested p
     | _ \<Rightarrow> syntax_error)"

fun postfix_loop :: "nat \<Rightarrow> expr \<Rightarrow> expr parse" where
  "postfix_loop 0 e p = Inl OutOfFuel"
| "postfix_loop (Suc n) e p =
     bindR (take_token TDot p) (\<lambda>(dot, p).
     if dot then
       bindR (advance p) (\<lambda>(t, p).
       case t of TIdentifier field \<Rightarrow> bindR (node (EField e field) p) (\<lambda>(e, p). postfix_loop n e p)
       | _ \<Rightarrow> syntax_error)
     else
       bindR (take_token TLeftBracket p) (\<lambda>(bracket, p).
       if bracket then
         bindR (advance p) (\<lambda>(t, p).
         case index_key t of None \<Rightarrow> syntax_error
         | Some key \<Rightarrow>
             bindR (expect TRightBracket p) (\<lambda>(_, p).
             bindR (node (EIndex e key) p) (\<lambda>(e, p). postfix_loop n e p)))
       else Inr (e, p)))"

definition parse_postfix :: "expr parse \<Rightarrow> expr parse" where
  "parse_postfix nested p =
     bindR (parse_primary nested p) (\<lambda>(e, p). postfix_loop (length (tokens p)) e p)"

function bang_loop :: "nat \<Rightarrow> nat parse" where
  "bang_loop count p =
     bindR (take_token TBang p) (\<lambda>(b, p).
     if b then
       (if count + 1 > MAX_AST_DEPTH then complexity_error else bang_loop (count + 1) p)
     else Inr (count, p))"
  by pat_completeness auto
termination
  by (relation "measure (\<lambda>(count, _). MAX_AST_DEPTH - count)") auto

declare bang_loop.simps [simp del]

fun wrap_not :: "nat \<Rightarrow> expr \<Rightarrow> expr parse" where
  "wrap_not 0 e p = Inr (e, p)"
| "wrap_not (Suc n) e p = bindR (node (ENot e) p) (\<lambda>(e, p). wrap_not n e p)"

definition parse_not :: "expr parse \<Rightarrow> expr parse" where
  "parse_not nested p =
     bindR (bang_loop 0 p) (\<lambda>(count, p).
     bindR (parse_postfix nested p) (\<lambda>(e, p). wrap_not count e p))"

definition parse_comparison :: "expr parse \<Rightarrow> expr parse" where
  "parse_comparison nested p =
     bindR (parse_not nested p) (\<lambda>(left, p).
     bindR (current p) (\<lambda>t.
     case comparison_op t of None \<Rightarrow> Inr (left, p)
     | Some opr \<Rightarrow>
         bindR (parse_not nested (p\<lparr>position := position p + 1\<rparr>)) (\<lambda>(right, p).
         node (EBinary opr left right) p)))"

text \<open>The shared shape of the loops of \<open>parse_and\<close> and \<open>parse_or\<close>.\<close>

fun binary_loop :: "token \<Rightarrow> binary_op \<Rightarrow> expr parse \<Rightarrow> nat \<Rightarrow> expr \<Rightarrow> expr parse" where
  "binary_loop t opr operand 0 e p = Inl OutOfFuel"
| "binary_loop t opr operand (Suc n) e p =
     bindR (take_token t p) (\<lambda>(b, p).
     if b then
       bindR (operand p) (\<lambda>(right, p).
       bindR (node (EBinary opr e right) p) (\<lambda>(e, p). binary_loop t opr operand n e p))
     else Inr (e, p))"

definition parse_and :: "expr parse \<Rightarrow> expr parse" where
  "parse_and nested p =
     bindR (parse_comparison nested p) (\<lambda>(e, p).
     binary_loop TAnd OpAnd (parse_comparison nested) (length (tokens p)) e p)"

definition parse_or_level :: "expr parse \<Rightarrow> expr parse" where
  "parse_or_level nested p =
     bindR (parse_and nested p) (\<lambda>(e, p).
     binary_loop TOr OpOr (parse_and nested) (length (tokens p)) e p)"

fun parse_or :: "nat \<Rightarrow> expr parse" where
  "parse_or 0 p = Inl OutOfFuel"
| "parse_or (Suc n) p = parse_or_level (parse_nested_or (parse_or n)) p"

definition PARSE_LEVELS :: nat where
  "PARSE_LEVELS = MAX_AST_DEPTH + 1"

record compiled_expression =
  source :: string
  ast :: expr

definition is_statically_non_boolean :: "compiled_expression \<Rightarrow> bool" where
  "is_statically_non_boolean c \<longleftrightarrow> static_type (ast c) = NonBoolean"

definition compile_expression :: "serde \<Rightarrow> string \<Rightarrow> parse_stop + compiled_expression" where
  "compile_expression sd src =
     (if length src > MAX_SOURCE_BYTES then complexity_error
      else
        bindR (map_errR (\<lambda>_. Fail InvalidExpression) (lex sd src)) (\<lambda>toks.
        let p = \<lparr>tokens = toks, position = 0, nodes = 0, nesting = 0\<rparr>
        in bindR (parse_or PARSE_LEVELS p) (\<lambda>(e, p).
           bindR (expect TEnd p) (\<lambda>_.
           if depth e > MAX_AST_DEPTH then complexity_error
           else Inr \<lparr>source = src, ast = e\<rparr>))))"

end
