(* ===== verification/Router_Grammar.thy ===== *)
theory Router_Grammar
  imports Router_Parser
begin

text \<open>
  The grammar of the router expression language and the proof that the parser implements it.
  Each level of the parser is shown to consume a non-empty piece of the tokens that derives
  the expression it returns, to count exactly the nodes of that expression, to keep the
  nesting counter, and to stop with an error code otherwise: never with a token access out
  of range and never for lack of fuel.
\<close>

section \<open>The grammar\<close>

datatype level = LvOr | LvAnd | LvComparison | LvNot | LvPostfix | LvPrimary

inductive gram :: "level \<Rightarrow> token list \<Rightarrow> expr \<Rightarrow> bool"
  and gram_list :: "token list \<Rightarrow> expr list \<Rightarrow> bool" where
  or_and: "gram LvAnd ts e \<Longrightarrow> gram LvOr ts e"
| or_or: "gram LvOr ls l \<Longrightarrow> gram LvAnd rs r \<Longrightarrow> gram LvOr (ls @ TOr # rs) (EBinary OpOr l r)"
| and_comparison: "gram LvComparison ts e \<Longrightarrow> gram LvAnd ts e"
| and_and: "gram LvAnd ls l \<Longrightarrow> gram LvComparison rs r \<Longrightarrow>
    gram LvAnd (ls @ TAnd # rs) (EBinary OpAnd l r)"
| comparison_not: "gram LvNot ts e \<Longrightarrow> gram LvComparison ts e"
| comparison_op: "gram LvNot ls l \<Longrightarrow> comparison_op t = Some opr \<Longrightarrow> gram LvNot rs r \<Longrightarrow>
    gram LvComparison (ls @ t # rs) (EBinary opr l r)"
| not_postfix: "gram LvPostfix ts e \<Longrightarrow> gram LvNot ts e"
| not_bang: "gram LvNot ts e \<Longrightarrow> gram LvNot (TBang # ts) (ENot e)"
| postfix_primary: "gram LvPrimary ts e \<Longrightarrow> gram LvPostfix ts e"
| postfix_field: "gram LvPostfix ts e \<Longrightarrow> gram LvPostfix (ts @ [TDot, TIdentifier f]) (EField e f)"
| postfix_index: "gram LvPostfix ts e \<Longrightarrow> index_key t = Some k \<Longrightarrow>
    gram LvPostfix (ts @ [TLeftBracket, t, TRightBracket]) (EIndex e k)"
| primary_null: "gram LvPrimary [TNull] (ELiteral LNull)"
| primary_bool: "gram LvPrimary [TBool b] (ELiteral (LBool b))"
| primary_string: "gram LvPrimary [TString s] (ELiteral (LString s))"
| primary_number: "gram LvPrimary [TNumber s] (ELiteral (LNumber s))"
| primary_root: "root_of_name name = Some r \<Longrightarrow> gram LvPrimary [TIdentifier name] (ERoot r)"
| primary_paren: "gram LvOr ts e \<Longrightarrow> gram LvPrimary (TLeftParen # ts @ [TRightParen]) e"
| primary_list: "gram_list ts es \<Longrightarrow> gram LvPrimary (TLeftBracket # ts @ [TRightBracket]) (EList es)"
| primary_call: "root_of_name name = None \<Longrightarrow> function_parse name = Some f \<Longrightarrow> gram_list ts es \<Longrightarrow>
    gram LvPrimary (TIdentifier name # TLeftParen # ts @ [TRightParen]) (ECall f es)"
| list_empty: "gram_list [] []"
| list_one: "gram LvOr ts e \<Longrightarrow> gram_list ts [e]"
| list_more: "gram_list ts es \<Longrightarrow> es \<noteq> [] \<Longrightarrow> gram LvOr us e \<Longrightarrow> gram_list (ts @ TComma # us) (es @ [e])"

section \<open>Weakest preconditions of a parser step\<close>

text \<open>A result is an error code or satisfies the postcondition.\<close>

definition wp :: "parse_stop + 'a \<Rightarrow> ('a \<Rightarrow> bool) \<Rightarrow> bool" where
  "wp m Q = (case m of Inl s \<Rightarrow> \<exists>c. s = Fail c | Inr a \<Rightarrow> Q a)"

lemma wp_simps [simp]: "wp (Inr a) Q = Q a" "wp (Inl s) Q = (\<exists>c. s = Fail c)"
  "wp (bindR m f) Q = wp m (\<lambda>a. wp (f a) Q)"
  by (cases m; simp add: wp_def)+

lemma wp_mono: "wp m P \<Longrightarrow> (\<And>a. P a \<Longrightarrow> Q a) \<Longrightarrow> wp m Q"
  by (auto simp: wp_def split: sum.splits)

definition rest :: "parser \<Rightarrow> token list" where
  "rest p = drop (position p) (tokens p)"

definition end_last :: "token list \<Rightarrow> bool" where
  "end_last ts \<longleftrightarrow> (\<exists>us. ts = us @ [TEnd] \<and> TEnd \<notin> set us)"

definition ok :: "parser \<Rightarrow> bool" where
  "ok p \<longleftrightarrow> position p < length (tokens p) \<and> end_last (tokens p) \<and> nodes p \<le> MAX_AST_NODES"

definition moves :: "parser \<Rightarrow> token list \<Rightarrow> nat \<Rightarrow> parser \<Rightarrow> bool" where
  "moves p us k p' \<longleftrightarrow>
     tokens p' = tokens p \<and> nesting p' = nesting p \<and> position p' = position p + length us
   \<and> rest p = us @ rest p' \<and> nodes p' = nodes p + k \<and> ok p'"

lemma moves_refl: "ok p \<Longrightarrow> moves p [] 0 p"
  by (simp add: moves_def)

lemma moves_trans: "moves p us k q \<Longrightarrow> moves q vs l r \<Longrightarrow> moves p (us @ vs) (k + l) r"
  by (auto simp: moves_def)

lemma moves_ok: "moves p us k q \<Longrightarrow> ok q \<and> nesting q = nesting p \<and> tokens q = tokens p"
  by (simp add: moves_def)

lemma moves_rest: "moves p us k q \<Longrightarrow> rest p = us @ rest q"
  by (simp add: moves_def)

lemma rest_nonempty: "ok p \<Longrightarrow> rest p \<noteq> []"
  by (simp add: ok_def rest_def)

lemma length_rest: "length (rest p) \<le> length (tokens p)"
  by (simp add: rest_def)

lemma rest_Cons: "ok p \<Longrightarrow> rest p = tokens p ! position p # drop (Suc (position p)) (tokens p)"
  by (simp add: ok_def rest_def Cons_nth_drop_Suc)

lemma step_one:
  assumes "ok p" "t = tokens p ! position p" "t \<noteq> TEnd"
  shows "moves p [t] 0 (p\<lparr>position := position p + 1\<rparr>)"
proof -
  from assms obtain us where us: "tokens p = us @ [TEnd]" "position p < length (tokens p)"
    by (auto simp: ok_def end_last_def)
  have "position p < length us"
    using us assms(2,3) by (auto simp: nth_append less_Suc_eq split: if_splits)
  then show ?thesis
    using assms us rest_Cons [OF assms(1)] by (auto simp: moves_def ok_def rest_def)
qed

lemma wp_current: "ok p \<Longrightarrow> Q (tokens p ! position p) \<Longrightarrow> wp (current p) Q"
  by (simp add: current_def ok_def)

lemma wp_take:
  assumes "ok p" "t \<noteq> TEnd" "\<And>q. moves p [t] 0 q \<Longrightarrow> Q (True, q)" "Q (False, p)"
  shows "wp (take_token t p) Q"
  using assms step_one [of p t] by (auto simp: take_token_def intro: wp_current)

lemma wp_expect:
  assumes "ok p" "t \<noteq> TEnd" "\<And>q. moves p [t] 0 q \<Longrightarrow> Q ((), q)"
  shows "wp (expect t p) Q"
  unfolding expect_def using assms by (auto intro!: wp_take wp_current)

lemma wp_advance:
  assumes "ok p" "\<And>t q. moves p [t] 0 q \<Longrightarrow> t \<noteq> TEnd \<Longrightarrow> Q (t, q)" "\<And>q. Q (TEnd, q)"
  shows "wp (advance p) Q"
  using assms step_one [of p "tokens p ! position p"]
  by (cases "tokens p ! position p = TEnd") (auto simp: advance_def intro!: wp_current)

lemma wp_node:
  assumes "ok p" "\<And>q. moves p [] 1 q \<Longrightarrow> Q (e, q)"
  shows "wp (node e p) Q"
  using assms by (auto simp: node_def Let_def moves_def ok_def rest_def)

definition yields :: "level \<Rightarrow> parser \<Rightarrow> expr \<times> parser \<Rightarrow> bool" where
  "yields lv p = (\<lambda>(e, q). \<exists>us. us \<noteq> [] \<and> moves p us (node_count e) q \<and> gram lv us e \<and> wf_expr e)"

definition parses :: "nat \<Rightarrow> level \<Rightarrow> expr parse \<Rightarrow> bool" where
  "parses d lv f \<longleftrightarrow> (\<forall>p. ok p \<longrightarrow> nesting p = d \<longrightarrow> wp (f p) (yields lv p))"

lemma parsesI: "(\<And>p. ok p \<Longrightarrow> nesting p = d \<Longrightarrow> wp (f p) (yields lv p)) \<Longrightarrow> parses d lv f"
  by (simp add: parses_def)

lemma wp_parses:
  assumes "parses d lv f" "ok p" "nesting p = d"
    "\<And>e q us. us \<noteq> [] \<Longrightarrow> moves p us (node_count e) q \<Longrightarrow> gram lv us e \<Longrightarrow> wf_expr e \<Longrightarrow>
      ok q \<Longrightarrow> nesting q = d \<Longrightarrow> Q (e, q)"
  shows "wp (f p) Q"
proof (rule wp_mono)
  show "wp (f p) (yields lv p)" using assms(1-3) by (simp add: parses_def)
  show "yields lv p a \<Longrightarrow> Q a" for a
    using assms(3,4) moves_ok by (cases a) (auto simp: yields_def)
qed

lemma yieldsI: "moves p us k q \<Longrightarrow> k = node_count e \<Longrightarrow> us \<noteq> [] \<Longrightarrow> gram lv us e \<Longrightarrow> wf_expr e \<Longrightarrow> yields lv p (e, q)"
  by (auto simp: yields_def)

section \<open>The levels\<close>

lemma wp_binary_loop:
  assumes operand: "parses d lo operand" and "t \<noteq> TEnd"
    and gram: "\<And>ls l rs r. gram lv ls l \<Longrightarrow> gram lo rs r \<Longrightarrow> gram lv (ls @ t # rs) (EBinary opr l r)"
  shows "ok p \<Longrightarrow> nesting p = d \<Longrightarrow> length (rest p) \<le> n \<Longrightarrow>
    moves p0 us (node_count e) p \<Longrightarrow> us \<noteq> [] \<Longrightarrow> gram lv us e \<Longrightarrow> wf_expr e \<Longrightarrow>
    wp (binary_loop t opr operand n e p) (yields lv p0)"
proof (induction n arbitrary: e p us)
  case 0
  then show ?case using rest_nonempty by fastforce
next
  case (Suc n)
  show ?case
    unfolding binary_loop.simps wp_simps
  proof (rule wp_take [OF Suc.prems(1) assms(2)], goal_cases)
    case (1 q)
    have q: "ok q" "nesting q = d" using 1 Suc.prems moves_ok by auto
    show ?case
      unfolding prod.case if_True wp_simps
    proof (rule wp_parses [OF operand q], goal_cases)
      case (1 r q1 vs)
      show ?case
        unfolding prod.case wp_simps
      proof (rule wp_node [OF 1(5)], goal_cases)
        case (1 q2)
        have m: "moves p0 (us @ ([t] @ vs @ [])) (node_count e + (0 + (node_count r + 1))) q2"
          by (intro moves_trans) fact+
        have "length (rest q2) \<le> n"
          using Suc.prems(3) moves_rest [OF \<open>moves p [t] 0 q\<close>] moves_rest [OF \<open>moves q vs (node_count r) q1\<close>]
            moves_rest [OF 1] by simp
        then show ?case
          unfolding prod.case
          using 1 \<open>ok q1\<close> \<open>nesting q1 = d\<close> m gram [OF Suc.prems(6)] \<open>gram lo vs r\<close> Suc.prems(7) \<open>wf_expr r\<close>
          by (intro Suc.IH [where us = "us @ t # vs"]) (auto dest: moves_ok)
      qed
    qed
  next
    case 2
    then show ?case using Suc.prems(4-7) by (auto intro: yieldsI)
  qed
qed

lemma parses_binary:
  assumes "parses d lo operand" "t \<noteq> TEnd"
    and "\<And>ls l rs r. gram lv ls l \<Longrightarrow> gram lo rs r \<Longrightarrow> gram lv (ls @ t # rs) (EBinary opr l r)"
    and "\<And>ts e. gram lo ts e \<Longrightarrow> gram lv ts e"
  shows "parses d lv (\<lambda>p. bindR (operand p) (\<lambda>(e, p). binary_loop t opr operand (length (tokens p)) e p))"
  by (rule parsesI)
     (auto intro!: wp_parses [OF assms(1)] wp_binary_loop [OF assms(1-3)] length_rest assms(4))

lemma wp_wrap_not:
  "ok p \<Longrightarrow> wp (wrap_not n e p) (\<lambda>(e', q). e' = (ENot ^^ n) e \<and> moves p [] n q)"
proof (induction n arbitrary: e p)
  case 0
  then show ?case by (simp add: moves_refl)
next
  case (Suc n)
  show ?case
    unfolding wrap_not.simps wp_simps
  proof (rule wp_node [OF Suc.prems], goal_cases)
    case (1 q)
    have "wp (wrap_not n (ENot e) q) (\<lambda>(e', r). e' = (ENot ^^ n) (ENot e) \<and> moves q [] n r)"
      using 1 moves_ok Suc.IH by blast
    then show ?case
      unfolding prod.case
      by (rule wp_mono) (use moves_trans [OF 1] in \<open>fastforce simp: funpow_swap1\<close>)
  qed
qed

lemma wp_bang_loop:
  "ok p \<Longrightarrow> wp (bang_loop count p) (\<lambda>(c, q). \<exists>k. c = count + k \<and> moves p (replicate k TBang) 0 q)"
proof (induction "MAX_AST_DEPTH - count" arbitrary: count p rule: less_induct)
  case less
  show ?case
    unfolding bang_loop.simps [of count p] wp_simps
  proof (rule wp_take [OF less.prems], simp, goal_cases)
    case (1 q)
    show ?case
    proof (cases "count + 1 > MAX_AST_DEPTH")
      case False
      then have "wp (bang_loop (count + 1) q)
          (\<lambda>(c, r). \<exists>k. c = count + 1 + k \<and> moves q (replicate k TBang) 0 r)"
        using less.hyps [of "count + 1" q] moves_ok [OF 1] by simp
      then have "wp (bang_loop (count + 1) q)
          (\<lambda>(c, r). \<exists>k. c = count + k \<and> moves p (replicate k TBang) 0 r)"
        by (rule wp_mono) (use moves_trans [OF 1] in \<open>fastforce intro: exI [of _ "Suc _"]\<close>)
      with False show ?thesis by simp
    qed simp
  next
    case 2
    then show ?case using less.prems by (auto intro!: exI [of _ 0] simp: moves_refl)
  qed
qed

lemma funpow_ENot: "node_count ((ENot ^^ n) e) = node_count e + n" "wf_expr ((ENot ^^ n) e) = wf_expr e"
  "gram LvNot us e \<Longrightarrow> gram LvNot (replicate n TBang @ us) ((ENot ^^ n) e)"
  by (induction n) (auto intro: not_bang)

lemma parses_not:
  assumes "parses d LvPostfix (parse_postfix nested)"
  shows "parses d LvNot (parse_not nested)"
proof (rule parsesI)
  fix p assume p: "ok p" "nesting p = d"
  show "wp (parse_not nested p) (yields LvNot p)"
    unfolding parse_not_def wp_simps
  proof (rule wp_mono [OF wp_bang_loop [OF p(1), of 0]], clarsimp, goal_cases)
    case (1 n q)
    have q: "ok q" "nesting q = d" using moves_ok [OF 1] p by simp_all
    show ?case
    proof (rule wp_parses [OF assms q], goal_cases)
      case (1 e r us)
      show ?case
        unfolding prod.case
      proof (rule wp_mono [OF wp_wrap_not [OF 1(5), of n e]], clarsimp, goal_cases)
        case (1 r')
        have "moves p (replicate n TBang @ us @ []) (0 + (node_count e + n)) r'"
          by (intro moves_trans) fact+
        then show ?case
          using \<open>us \<noteq> []\<close> funpow_ENot(3) [OF not_postfix [OF \<open>gram LvPostfix us e\<close>]] \<open>wf_expr e\<close>
          by (intro yieldsI [of _ "replicate n TBang @ us"]) (auto simp: funpow_ENot)
      qed
    qed
  qed
qed

lemma parses_comparison:
  assumes "parses d LvNot (parse_not nested)"
  shows "parses d LvComparison (parse_comparison nested)"
proof (rule parsesI)
  fix p assume p: "ok p" "nesting p = d"
  show "wp (parse_comparison nested p) (yields LvComparison p)"
    unfolding parse_comparison_def wp_simps
  proof (rule wp_parses [OF assms p], goal_cases)
    case (1 l q ls)
    show ?case
      unfolding prod.case wp_simps
    proof (rule wp_current [OF 1(5)])
      let ?t = "tokens q ! position q" and ?q = "q\<lparr>position := position q + 1\<rparr>"
      show "wp (case comparison_op ?t of None \<Rightarrow> Inr (l, q)
          | Some opr \<Rightarrow> bindR (parse_not nested ?q) (\<lambda>(right, p). node (EBinary opr l right) p)) (yields LvComparison p)"
      proof (cases "comparison_op ?t")
        case None
        then show ?thesis using 1 by (auto intro: yieldsI comparison_not)
      next
        case (Some opr)
        then have t: "moves q [?t] 0 ?q" using 1(5) by (intro step_one) (auto simp: comparison_op_def)
        have q: "ok ?q" "nesting ?q = d" using moves_ok [OF t] 1 by simp_all
        show ?thesis
          unfolding Some option.case wp_simps
        proof (rule wp_parses [OF assms q], goal_cases)
          case (1 r q1 rs)
          show ?case
            unfolding prod.case
          proof (rule wp_node [OF 1(5)], goal_cases)
            case (1 q2)
            have "moves p (ls @ [?t] @ rs @ []) (node_count l + (0 + (node_count r + 1))) q2"
              by (intro moves_trans) fact+
            then show ?case
              using comparison_op [OF \<open>gram LvNot ls l\<close> Some \<open>gram LvNot rs r\<close>] \<open>wf_expr l\<close> \<open>wf_expr r\<close>
              by (intro yieldsI) auto
          qed
        qed
      qed
    qed
  qed
qed

lemma wf_index_key: "index_key t = Some k \<Longrightarrow> key_ok k \<and> t \<noteq> TEnd"
  using parse_i64_bounds by (auto simp: index_key_def split: token.splits if_splits)

lemma wp_postfix_loop:
  "ok p \<Longrightarrow> length (rest p) \<le> n \<Longrightarrow>
    moves p0 us (node_count e) p \<Longrightarrow> us \<noteq> [] \<Longrightarrow> gram LvPostfix us e \<Longrightarrow> wf_expr e \<Longrightarrow>
    wp (postfix_loop n e p) (yields LvPostfix p0)"
proof (induction n arbitrary: e p us)
  case 0
  then show ?case using rest_nonempty by fastforce
next
  case (Suc n)
  have next_round: "wp (postfix_loop n e' q) (yields LvPostfix p0)"
    if m: "moves p ws 1 q" and ws: "ws \<noteq> []" "gram LvPostfix (us @ ws) e'" "wf_expr e'"
      "node_count e' = node_count e + 1" for ws e' q
    by (rule Suc.IH [where us = "us @ ws"])
       (use moves_ok [OF m] moves_rest [OF m] moves_trans [OF Suc.prems(3) m] Suc.prems ws in
         \<open>auto simp: Suc_le_eq neq_Nil_conv\<close>)
  show ?case
    unfolding postfix_loop.simps wp_simps
  proof (rule wp_take [OF Suc.prems(1)], simp, goal_cases)
    case (1 q)
    then have "ok q" using moves_ok by blast
    show ?case
      unfolding prod.case if_True wp_simps
    proof (rule wp_advance [OF \<open>ok q\<close>], goal_cases)
      case (1 t q1)
      then have "ok q1" using moves_ok by blast
      show ?case
      proof (cases t)
        case (TIdentifier f)
        then have t: "moves q [TIdentifier f] 0 q1" using \<open>moves q [t] 0 q1\<close> by simp
        show ?thesis
          unfolding prod.case TIdentifier token.case wp_simps
        proof (rule wp_node [OF \<open>ok q1\<close>], goal_cases)
          case (1 q2)
          have "moves p ([TDot] @ [TIdentifier f] @ []) (0 + (0 + 1)) q2"
            by (intro moves_trans) fact+
          then show ?case
            using postfix_field [OF Suc.prems(5)] Suc.prems(6) by (auto intro: next_round)
        qed
      qed simp_all
    qed simp
  next
    case 2
    show ?case
      unfolding prod.case if_False wp_simps
    proof (rule wp_take [OF Suc.prems(1)], simp, goal_cases)
      case (1 q)
      then have "ok q" using moves_ok by blast
      show ?case
        unfolding prod.case if_True wp_simps
      proof (rule wp_advance [OF \<open>ok q\<close>], goal_cases)
        case (1 t q1)
        then have "ok q1" using moves_ok by blast
        show ?case
        proof (cases "index_key t")
          case (Some k)
          show ?thesis
            unfolding prod.case Some option.case wp_simps
          proof (rule wp_expect [OF \<open>ok q1\<close>], simp, goal_cases)
            case (1 q2)
            then have "ok q2" using moves_ok by blast
            show ?case
              unfolding prod.case wp_simps
            proof (rule wp_node [OF \<open>ok q2\<close>], goal_cases)
              case (1 q3)
              have "moves p ([TLeftBracket] @ [t] @ [TRightBracket] @ []) (0 + (0 + (0 + 1))) q3"
                by (intro moves_trans) fact+
              then show ?case
                using postfix_index [OF Suc.prems(5) Some] Suc.prems(6) wf_index_key [OF Some]
                by (auto intro: next_round)
            qed
          qed
        qed simp
      qed (simp add: index_key_def)
    next
      case 2
      then show ?case using Suc.prems by (auto intro: yieldsI)
    qed
  qed
qed

lemma parses_postfix:
  assumes "parses d LvPrimary (parse_primary nested)"
  shows "parses d LvPostfix (parse_postfix nested)"
  unfolding parse_postfix_def
  by (rule parsesI)
     (auto intro!: wp_parses [OF assms] wp_postfix_loop length_rest postfix_primary)

text \<open>The state of the argument and list loops: what was read since the opening bracket.\<close>

definition gathered :: "parser \<Rightarrow> token list \<Rightarrow> expr list \<Rightarrow> parser \<Rightarrow> bool" where
  "gathered p0 us es p \<longleftrightarrow>
     moves p0 us (sum_list (map node_count es)) p \<and> list_all wf_expr es
   \<and> (if es = [] then us = [] else \<exists>vs. us = vs @ [TComma] \<and> gram_list vs es)"

lemma gathered_add:
  assumes "gathered p0 us es p" "moves p vs (node_count e) q" "gram LvOr vs e" "wf_expr e"
  shows "moves p0 (us @ vs) (sum_list (map node_count (es @ [e]))) q" "gram_list (us @ vs) (es @ [e])"
    "list_all wf_expr (es @ [e])"
  using assms moves_trans [of p0 us _ p vs _ q]
  by (auto simp: gathered_def intro: list_one dest: list_more split: if_splits)

lemma gathered_comma:
  assumes "moves p0 ws (sum_list (map node_count es)) q" "gram_list ws es" "list_all wf_expr es" "es \<noteq> []"
    "moves q [TComma] 0 r"
  shows "gathered p0 (ws @ [TComma]) es r"
  using assms moves_trans [OF assms(1,5)] by (auto simp: gathered_def)

definition gathers :: "token \<Rightarrow> parser \<Rightarrow> expr list \<times> parser \<Rightarrow> bool" where
  "gathers close p0 = (\<lambda>(es, q). \<exists>us. moves p0 (us @ [close]) (sum_list (map node_count es)) q
     \<and> gram_list us es \<and> list_all wf_expr es)"

lemma wp_args_loop:
  assumes nested: "parses d LvOr nested"
  shows "ok p \<Longrightarrow> nesting p = d \<Longrightarrow> length (rest p) \<le> n \<Longrightarrow> gathered p0 us es p \<Longrightarrow>
    wp (args_loop nested n es p) (gathers TRightParen p0)"
proof (induction n arbitrary: es p us)
  case 0
  then show ?case using rest_nonempty by fastforce
next
  case (Suc n)
  show ?case
    unfolding args_loop.simps wp_simps
  proof (rule wp_parses [OF nested Suc.prems(1,2)], goal_cases)
    case (1 e q vs)
    note g = gathered_add [OF Suc.prems(4) 1(2-4)]
    show ?case
      unfolding prod.case Let_def wp_simps
    proof (rule wp_take [OF 1(5)], simp, goal_cases)
      case (1 r)
      then show ?case
        using moves_trans [OF g(1) 1] g by (auto simp: gathers_def intro!: exI [of _ "us @ vs"])
    next
      case 2
      show ?case
        unfolding prod.case if_False wp_simps
      proof (rule wp_expect [OF 1(5)], simp, goal_cases)
        case (1 r)
        have "gathered p0 ((us @ vs) @ [TComma]) (es @ [e]) r"
          using g 1 by (intro gathered_comma) auto
        then show ?case
          using moves_ok [OF 1] moves_rest [OF 1] moves_rest [OF \<open>moves p vs (node_count e) q\<close>]
            Suc.prems \<open>nesting q = d\<close> Suc.IH by simp
      qed
    qed
  qed
qed

lemma wp_list_loop:
  assumes nested: "parses d LvOr nested"
  shows "ok p \<Longrightarrow> nesting p = d \<Longrightarrow> length (rest p) \<le> n \<Longrightarrow> gathered p0 us es p \<Longrightarrow>
    list_all is_literal es \<Longrightarrow>
    wp (list_loop nested n es p) (\<lambda>(es', q). gathers TRightBracket p0 (es', q)
      \<and> list_all is_literal es' \<and> length es' \<le> MAX_LITERAL_LIST)"
proof (induction n arbitrary: es p us)
  case 0
  then show ?case using rest_nonempty by fastforce
next
  case (Suc n)
  show ?case
    unfolding list_loop.simps wp_simps
  proof (rule wp_parses [OF nested Suc.prems(1,2)], goal_cases)
    case (1 e q vs)
    note g = gathered_add [OF Suc.prems(4) 1(2-4)]
    have close: "wp (bindR (take_token TRightBracket q) (\<lambda>(b, p). if b then Inr (es @ [e], p)
        else bindR (expect TComma p) (\<lambda>(_, p). list_loop nested n (es @ [e]) p)))
        (\<lambda>(es', q). gathers TRightBracket p0 (es', q)
          \<and> list_all is_literal es' \<and> length es' \<le> MAX_LITERAL_LIST)"
      if lit: "is_literal e" and len: "length (es @ [e]) \<le> MAX_LITERAL_LIST"
      unfolding wp_simps
    proof (rule wp_take [OF 1(5)], simp, goal_cases)
      case (1 r)
      then show ?case
        using moves_trans [OF g(1) 1] g lit len Suc.prems(5)
        by (auto simp: gathers_def intro!: exI [of _ "us @ vs"])
    next
      case 2
      show ?case
        unfolding prod.case if_False wp_simps
      proof (rule wp_expect [OF 1(5)], simp, goal_cases)
        case (1 r)
        have "gathered p0 ((us @ vs) @ [TComma]) (es @ [e]) r"
          using g 1 by (intro gathered_comma) auto
        then show ?case
          using moves_ok [OF 1] moves_rest [OF 1] moves_rest [OF \<open>moves p vs (node_count e) q\<close>]
            Suc.prems \<open>nesting q = d\<close> Suc.IH lit by simp
      qed
    qed
    then show ?case by (auto simp: Let_def)
  qed
qed

lemma gathered_start: "ok p \<Longrightarrow> gathered p [] [] p"
  by (simp add: gathered_def moves_refl)

lemma wp_arguments:
  assumes "parses d LvOr nested" "ok p" "nesting p = d"
  shows "wp (parse_arguments nested p) (gathers TRightParen p)"
  unfolding parse_arguments_def wp_simps
proof (rule wp_take [OF assms(2)], simp, goal_cases)
  case (1 q)
  then show ?case by (auto simp: gathers_def intro!: exI [of _ "[]"] list_empty)
next
  case 2
  then show ?case using wp_args_loop [OF assms length_rest gathered_start [OF assms(2)]] by simp
qed

lemma wp_list_values:
  assumes "parses d LvOr nested" "ok p" "nesting p = d"
  shows "wp (parse_list_values nested p)
    (\<lambda>(es, q). gathers TRightBracket p (es, q) \<and> list_all is_literal es \<and> length es \<le> MAX_LITERAL_LIST)"
  unfolding parse_list_values_def wp_simps
proof (rule wp_take [OF assms(2)], simp, goal_cases)
  case (1 q)
  then show ?case by (auto simp: gathers_def intro!: exI [of _ "[]"] list_empty)
next
  case 2
  then show ?case using wp_list_loop [OF assms length_rest gathered_start [OF assms(2)]] by simp
qed

lemma wp_node_primary:
  assumes "moves p us (node_count e - 1) q" "us \<noteq> []" "gram LvPrimary us e" "wf_expr e"
  shows "wp (node e q) (yields LvPrimary p)"
proof (rule wp_node)
  show "ok q" using moves_ok [OF assms(1)] by blast
next
  fix r assume r: "moves q [] 1 r"
  show "yields LvPrimary p (e, r)"
    using moves_trans [OF assms(1) r] node_count_pos [of e] assms(2-4)
    by (intro yieldsI [of _ us]) auto
qed

lemma wp_identifier:
  assumes nested: "parses d LvOr nested" and m: "moves p [TIdentifier name] 0 q" and d: "nesting p = d"
  shows "wp (parse_identifier nested name q) (yields LvPrimary p)"
proof (cases "root_of_name name")
  case (Some r)
  then show ?thesis
    using m by (auto simp: parse_identifier_def intro!: wp_node_primary primary_root)
next
  case None
  show ?thesis
  proof (cases "function_parse name")
    case (Some f)
    have q: "ok q" "nesting q = d" using moves_ok [OF m] d by simp_all
    show ?thesis
      unfolding parse_identifier_def None Some option.case wp_simps
    proof (rule wp_expect [OF q(1)], simp, goal_cases)
      case (1 r)
      then have r: "ok r" "nesting r = d" using moves_ok [OF 1] q by simp_all
      have args: "wp (node (ECall f es) r1) (yields LvPrimary p)"
        if g: "gathers TRightParen r (es, r1)" "length es = arity f" for es r1
      proof -
        from g(1) obtain us where us: "moves r (us @ [TRightParen]) (sum_list (map node_count es)) r1"
          "gram_list us es" "list_all wf_expr es" by (auto simp: gathers_def)
        have "moves p ([TIdentifier name] @ [TLeftParen] @ us @ [TRightParen]) (0 + (0 + sum_list (map node_count es))) r1"
          by (intro moves_trans) fact+
        then show ?thesis
          using primary_call [OF None Some us(2)] us(3) g(2) by (auto intro: wp_node_primary)
      qed
      show ?case
        unfolding prod.case wp_simps
        by (rule wp_mono [OF wp_arguments [OF nested r]]) (use args in \<open>auto split: prod.splits\<close>)
    qed
  qed (simp add: parse_identifier_def None)
qed

lemma wp_list:
  assumes nested: "parses d LvOr nested" and m: "moves p [TLeftBracket] 0 q" and d: "nesting p = d"
  shows "wp (parse_list nested q) (yields LvPrimary p)"
proof -
  have q: "ok q" "nesting q = d" using moves_ok [OF m] d by simp_all
  have "wp (node (EList es) r) (yields LvPrimary p)"
    if g: "gathers TRightBracket q (es, r)" "list_all is_literal es" "length es \<le> MAX_LITERAL_LIST" for es r
  proof -
    from g(1) obtain us where us: "moves q (us @ [TRightBracket]) (sum_list (map node_count es)) r"
      "gram_list us es" "list_all wf_expr es" by (auto simp: gathers_def)
    have "moves p ([TLeftBracket] @ us @ [TRightBracket]) (0 + sum_list (map node_count es)) r"
      by (intro moves_trans) fact+
    then show ?thesis
      using primary_list [OF us(2)] us(3) g(2,3)
      by (auto intro: wp_node_primary simp: MAX_LITERAL_LIST_def)
  qed
  then show ?thesis
    unfolding parse_list_def wp_simps
    by (intro wp_mono [OF wp_list_values [OF nested q]]) (auto split: prod.splits)
qed

lemma parses_primary:
  assumes nested: "parses d LvOr nested"
  shows "parses d LvPrimary (parse_primary nested)"
proof (rule parsesI)
  fix p assume p: "ok p" "nesting p = d"
  show "wp (parse_primary nested p) (yields LvPrimary p)"
    unfolding parse_primary_def wp_simps
  proof (rule wp_advance [OF p(1)], goal_cases)
    case (1 t q)
    then have q: "ok q" "nesting q = d" using moves_ok [OF 1(1)] p by simp_all
    show ?case
    proof (cases t)
      case TLeftParen
      show ?thesis
        unfolding TLeftParen prod.case token.case wp_simps
      proof (rule wp_parses [OF nested q], goal_cases)
        case (1 e r us)
        show ?case
          unfolding prod.case wp_simps
        proof (rule wp_expect [OF 1(5)], simp, goal_cases)
          case (1 r')
          have l: "moves p [TLeftParen] 0 q" using \<open>moves p [t] 0 q\<close> TLeftParen by simp
          have "moves p ([TLeftParen] @ us @ [TRightParen]) (0 + (node_count e + 0)) r'"
            by (intro moves_trans) fact+
          then show ?case
            using primary_paren [OF \<open>gram LvOr us e\<close>] \<open>wf_expr e\<close> by (auto intro: yieldsI)
        qed
      qed
    next
      case (TNumber v)
      then show ?thesis
        using 1 by (cases "parse_number v") (auto intro: wp_node_primary primary_number)
    qed (use 1 p wp_identifier [OF nested] wp_list [OF nested] in
        \<open>auto intro!: wp_node_primary intro: gram_gram_list.intros\<close>)
  qed simp
qed

lemma parses_nested:
  assumes "d < MAX_AST_DEPTH \<Longrightarrow> parses (d + 1) LvOr f"
  shows "parses d LvOr (parse_nested_or f)"
proof (rule parsesI)
  fix p assume p: "ok p" "nesting p = d"
  show "wp (parse_nested_or f p) (yields LvOr p)"
  proof (cases "d < MAX_AST_DEPTH")
    case True
    let ?p = "p\<lparr>nesting := nesting p + 1\<rparr>"
    have "ok ?p" "nesting ?p = d + 1" using p by (simp_all add: ok_def)
    then have "wp (f ?p) (yields LvOr ?p)" using assms True by (simp add: parses_def)
    then have "wp (f ?p) (\<lambda>(e, q). yields LvOr p (e, q\<lparr>nesting := nesting q - 1\<rparr>))"
      by (rule wp_mono) (fastforce simp: yields_def moves_def rest_def ok_def)
    then show ?thesis
      using True p by (auto simp: parse_nested_or_def Let_def elim!: wp_mono)
  qed (use p in \<open>simp add: parse_nested_or_def Let_def\<close>)
qed

lemma parses_or_level:
  assumes "parses d LvOr nested"
  shows "parses d LvOr (parse_or_level nested)"
proof -
  note comparison = parses_comparison [OF parses_not [OF parses_postfix [OF parses_primary [OF assms]]]]
  have conj: "parses d LvAnd (parse_and nested)"
    unfolding parse_and_def
    by (rule parses_binary [OF comparison]) (auto intro: and_and and_comparison)
  show ?thesis
    unfolding parse_or_level_def
    by (rule parses_binary [OF conj]) (auto intro: or_or or_and)
qed

text \<open>The recursion is as deep as the nesting counter allows.\<close>

lemma parses_or: "MAX_AST_DEPTH < n + d \<Longrightarrow> 0 < n \<Longrightarrow> parses d LvOr (parse_or n)"
proof (induction n arbitrary: d)
  case (Suc n)
  have "parses d LvOr (parse_nested_or (parse_or n))"
    by (rule parses_nested) (use Suc in auto)
  then have "parses d LvOr (parse_or_level (parse_nested_or (parse_or n)))"
    by (rule parses_or_level)
  then show ?case by (simp add: parses_def)
qed simp

section \<open>Compilation\<close>

lemma operator_not_end: "operator c r = Some (t, q) \<Longrightarrow> t \<noteq> TEnd"
  by (auto simp: operator_def Let_def split: list.splits if_splits)

lemma one_byte_not_end: "one_byte c = Some t \<Longrightarrow> t \<noteq> TEnd"
  by (auto simp: one_byte_def split: if_splits)

lemma identifier_not_end: "identifier_token v \<noteq> TEnd"
  by (simp add: identifier_token_def)

lemma lex_step_not_end: "lex_step sd i s \<noteq> Inr (Some TEnd, q)"
proof (cases s)
  case (Cons c r)
  show ?thesis
  proof (cases "one_byte c")
    case None
    show ?thesis
      using operator_not_end [of c r] None identifier_not_end
      by (cases "operator c r") (auto simp: lex_step_def Cons bindR_eq_Inr scan_identifier_def)
  qed (use one_byte_not_end in \<open>auto simp: lex_step_def Cons\<close>)
qed (simp add: lex_step_def)

lemma lex_loop_end:
  "TEnd \<notin> set ts \<Longrightarrow> lex_loop sd i s ts = Inr us \<Longrightarrow> end_last us"
proof (induction sd i s ts rule: lex_loop.induct)
  case (1 sd i s ts)
  show ?case
  proof (cases "s = []")
    case True
    then show ?thesis using 1(2,3) by (auto simp: lex_loop.simps [of sd i "[]"] end_last_def)
  next
    case False
    then obtain t r where t: "lex_step sd i s = Inr (t, r)" using 1(3)
      by (auto simp: lex_loop.simps [of sd i s] bindR_eq_Inr)
    then show ?thesis
      using 1(1) [OF False t refl] 1(2,3) False lex_step_not_end
      by (auto simp: lex_loop.simps [of sd i s] split: option.splits)
  qed
qed

lemma lex_end: "lex sd s = Inr us \<Longrightarrow> end_last us"
  unfolding lex_def by (rule lex_loop_end) auto

definition start_parser :: "token list \<Rightarrow> parser" where
  "start_parser ts = \<lparr>tokens = ts, position = 0, nodes = 0, nesting = 0\<rparr>"

lemma start_parser_ok: "end_last ts \<Longrightarrow> ok (start_parser ts)" "rest (start_parser ts) = ts"
  "nodes (start_parser ts) = 0" "nesting (start_parser ts) = 0" "tokens (start_parser ts) = ts"
  by (auto simp: start_parser_def ok_def end_last_def rest_def)

text \<open>Only the last token is \<open>TEnd\<close>, so expecting it is expecting the end.\<close>

lemma end_last_hd: "end_last (us @ TEnd # vs) \<Longrightarrow> vs = []"
  by (cases vs rule: rev_cases) (auto simp: end_last_def)

lemma wp_expect_end:
  assumes "ok q" "rest p = us @ rest q" "rest p = tokens p" "tokens q = tokens p"
  shows "wp (expect TEnd q) (\<lambda>_. tokens p = us @ [TEnd])"
proof -
  obtain vs where r: "tokens p = us @ tokens q ! position q # vs"
    using rest_Cons [OF assms(1)] assms(2,3) by metis
  have e: "end_last (tokens p)" "position q < length (tokens q)"
    using assms(1,4) by (simp_all add: ok_def)
  have "tokens q ! position q = TEnd \<Longrightarrow> tokens p = us @ [TEnd]"
    using end_last_hd [of us vs] e(1) unfolding r by simp
  then show ?thesis
    using e(2) by (simp add: expect_def take_token_def current_def)
qed

definition compiled_ok :: "serde \<Rightarrow> string \<Rightarrow> compiled_expression \<Rightarrow> bool" where
  "compiled_ok sd src c \<longleftrightarrow> source c = src \<and> length src \<le> MAX_SOURCE_BYTES
   \<and> (\<exists>ts. lex sd src = Inr (ts @ [TEnd]) \<and> gram LvOr ts (ast c))
   \<and> wf_expr (ast c) \<and> node_count (ast c) \<le> MAX_AST_NODES \<and> depth (ast c) \<le> MAX_AST_DEPTH"

lemma wp_compile: "wp (compile_expression sd src) (compiled_ok sd src)"
proof (cases "length src > MAX_SOURCE_BYTES \<or> (\<exists>e. lex sd src = Inl e)")
  case True
  then show ?thesis by (auto simp: compile_expression_def)
next
  case False
  then obtain ts where ts: "lex sd src = Inr ts" "length src \<le> MAX_SOURCE_BYTES" by (cases "lex sd src") auto
  note p = start_parser_ok(1) [OF lex_end [OF ts(1)]] start_parser_ok(2-5) [of ts]
  have "wp (bindR (parse_or PARSE_LEVELS (start_parser ts)) (\<lambda>(e, p). bindR (expect TEnd p) (\<lambda>_.
      if depth e > MAX_AST_DEPTH then complexity_error else Inr \<lparr>source = src, ast = e\<rparr>))) (compiled_ok sd src)"
    unfolding wp_simps
  proof (rule wp_parses [OF parses_or p(1,4)], goal_cases)
    case (3 e q us)
    have m: "nodes q = node_count e" "nodes q \<le> MAX_AST_NODES" "rest (start_parser ts) = us @ rest q"
      "tokens q = tokens (start_parser ts)"
      using 3(2) p(3) by (auto simp: moves_def ok_def)
    show ?case
      unfolding prod.case wp_simps
    proof (rule wp_mono [OF wp_expect_end [OF 3(5) m(3) _ m(4)]], goal_cases)
      case (2 a)
      then show ?case using 3(3,4) ts m p(5) by (auto simp: compiled_ok_def)
    qed (simp add: p)
  qed (simp_all add: PARSE_LEVELS_def)
  then show ?thesis
    using ts by (simp add: compile_expression_def start_parser_def Let_def)
qed

text \<open>
  C29: whatever the source, compilation returns an expression or one of the error codes: no
  token access is out of range and no loop or recursion runs out of the fuel of the model.
\<close>
theorem compile_never_panics: "compile_expression sd src \<noteq> Inl Panic \<and> compile_expression sd src \<noteq> Inl OutOfFuel"
  using wp_compile [of sd src] by (auto simp: wp_def)

text \<open>
  C30: a compiled expression is a tree that the grammar derives from the tokens of its source,
  with the precedence and associativity of the levels; it has at most 256 nodes, depth at
  most 32, list literals of at most 128 literals, calls with the arity of the function,
  numbers that parse and 64-bit indices.
\<close>
theorem compile_grammatical:
  assumes "compile_expression sd src = Inr c"
  shows "(\<exists>ts. lex sd src = Inr (ts @ [TEnd]) \<and> gram LvOr ts (ast c)) \<and> wf_expr (ast c)
    \<and> node_count (ast c) \<le> 256 \<and> depth (ast c) \<le> 32 \<and> length src \<le> 4096 \<and> source c = src"
  using wp_compile [of sd src] assms
  by (auto simp: compiled_ok_def MAX_AST_NODES_def MAX_AST_DEPTH_def MAX_SOURCE_BYTES_def)

text \<open>A \<open>serde\<close> for concrete inputs: string literals without escapes, and byte counts.\<close>

definition plain_serde :: serde where
  "plain_serde = \<lparr>decode_string = \<lambda>s. Some (butlast (tl s)),
     quote_string = \<lambda>s. Some (CHR 0x22 # s @ [CHR 0x22]), encoded_len = \<lambda>v. Some 0\<rparr>"

definition sample_source :: string where
  "sample_source = ''!has(memory, inputs.k) || size(inputs.xs) >= 2 && inputs.xs[0] in [1, 2.5]''"

definition sample_ast :: expr where
  "sample_ast =
     EBinary OpOr
       (ENot (ECall Has [ERoot Memory, EField (ERoot Inputs) ''k'']))
       (EBinary OpAnd
         (EBinary OpGreaterEqual (ECall Size [EField (ERoot Inputs) ''xs'']) (ELiteral (LNumber ''2'')))
         (EBinary OpIn (EIndex (EField (ERoot Inputs) ''xs'') (KIndex 0))
           (EList [ELiteral (LNumber ''1''), ELiteral (LNumber ''2.5'')])))"

lemma compile_sample:
  "compile_expression plain_serde sample_source = Inr \<lparr>source = sample_source, ast = sample_ast\<rparr>"
  by code_simp

lemma compile_grammatical_witness:
  "\<exists>ts. lex plain_serde sample_source = Inr (ts @ [TEnd]) \<and> gram LvOr ts sample_ast"
  using compile_grammatical [OF compile_sample] by simp

end
