(* ===== verification/Graph_Validation.thy ===== *)
theory Graph_Validation
  imports Selector Router_Grammar
begin

text \<open>
  The checks of an applied graph, node by node: \<open>graph/router_validation.rs\<close>,
  \<open>graph/coordination_validation.rs\<close>, \<open>normalize_limits\<close> of \<open>graph/normalize.rs\<close> and
  \<open>validate_execution_policy\<close>, \<open>validate_selectors\<close> and \<open>unique_ports\<close> of
  \<open>graph/apply.rs\<close>.  The source pushes issues on a vector; each definition gives the issues
  it pushes, in order.
\<close>

section \<open>Issues\<close>

text \<open>\<open>code.replace('_', " ")\<close> and the formatted paths.\<close>

definition spaced :: "string \<Rightarrow> string" where
  "spaced code = map (\<lambda>c. if c = CHR ''_'' then CHR '' '' else c) code"

definition graph_issue :: "string \<Rightarrow> string \<Rightarrow> validation_issue" where
  "graph_issue code path = issue_error code path (spaced code)"

definition node_path :: "string \<Rightarrow> string" where
  "node_path nid = ''/nodes/'' @ nid"

definition field_path :: "string \<Rightarrow> string \<Rightarrow> string" where
  "field_path nid field = node_path nid @ ''/'' @ field"

definition push_if :: "bool \<Rightarrow> validation_issue \<Rightarrow> validation_issue list" where
  "push_if b i = (if b then [i] else [])"

lemma push_if_Nil [simp]: "push_if b i = [] \<longleftrightarrow> \<not> b"
  by (simp add: push_if_def)

text \<open>\<open>any(|x| bad(x) || !seen.insert(x))\<close>.\<close>

fun any_bad :: "('a \<Rightarrow> bool) \<Rightarrow> 'a set \<Rightarrow> 'a list \<Rightarrow> bool" where
  "any_bad bad seen [] = False"
| "any_bad bad seen (x # xs) = (bad x \<or> x \<in> seen \<or> any_bad bad (insert x seen) xs)"

lemma any_bad_iff:
  "any_bad bad seen xs \<longleftrightarrow> (\<exists>x \<in> set xs. bad x) \<or> \<not> distinct xs \<or> set xs \<inter> seen \<noteq> {}"
  by (induction xs arbitrary: seen) auto

text \<open>The loops that report each element that is bad or was seen, and remember the others.\<close>

fun repeated :: "('a \<Rightarrow> bool) \<Rightarrow> validation_issue \<Rightarrow> 'a set \<Rightarrow> 'a list \<Rightarrow> validation_issue list" where
  "repeated bad i seen [] = []"
| "repeated bad i seen (x # xs) =
     push_if (bad x \<or> x \<in> seen) i @ repeated bad i (if bad x then seen else insert x seen) xs"

lemma repeated_Nil:
  "repeated bad i seen xs = [] \<longleftrightarrow> (\<forall>x \<in> set xs. \<not> bad x) \<and> distinct xs \<and> set xs \<inter> seen = {}"
  by (induction xs arbitrary: seen) auto

section \<open>Routers\<close>

definition MAX_ROUTER_RULES :: nat where "MAX_ROUTER_RULES = 128"
definition DEFAULT_MAX_READ_RECONCILES :: nat where "DEFAULT_MAX_READ_RECONCILES = 2"

definition default_router_limits :: router_limits where
  "default_router_limits = \<lparr>max_visits_per_run = None, timeout_ms_per_run = None,
     max_read_reconciles = None, on_limit_outputs = None\<rparr>"

definition get_or_insert :: "'a \<Rightarrow> 'a option \<Rightarrow> 'a option" where
  "get_or_insert d x = (case x of None \<Rightarrow> Some d | Some a \<Rightarrow> Some a)"

definition normalize_read :: "router_read \<Rightarrow> router_read" where
  "normalize_read r =
     (case read_source r of
        LongTermMemory scope query \<Rightarrow>
          r\<lparr>read_limit := get_or_insert 20 (read_limit r),
            read_source := LongTermMemory scope
              (map_option (\<lambda>q. q\<lparr>query_tags := remdups_adj (sort (query_tags q))\<rparr>) query)\<rparr>
      | WorkingContext _ _ \<Rightarrow> r)"

definition normalize_router :: "'llm node_kind \<Rightarrow> 'llm node_kind" where
  "normalize_router k =
     (case k of
        NRouter cfg \<Rightarrow>
          (let limits = (case router_limits_of cfg of None \<Rightarrow> default_router_limits | Some l \<Rightarrow> l);
               limits = limits\<lparr>max_read_reconciles :=
                 get_or_insert DEFAULT_MAX_READ_RECONCILES (max_read_reconciles limits)\<rparr>
           in NRouter (cfg\<lparr>router_limits_of := Some limits,
                router_memory := map_option (map normalize_read) (router_memory cfg)\<rparr>))
      | _ \<Rightarrow> k)"

definition validate_route :: "string list \<Rightarrow> string set \<Rightarrow> string \<Rightarrow> validation_issue list" where
  "validate_route values declared path =
     push_if (values = [] \<or> any_bad (\<lambda>v. v \<notin> declared) {} values)
       (issue_error ''router_output_invalid'' path
         ''Router route must contain unique declared output ports'')"

text \<open>The code of an expression that does not compile; the message is that of the compiler and is
  left empty here.\<close>

definition compile_issues :: "serde \<Rightarrow> string \<Rightarrow> string \<Rightarrow> validation_issue list" where
  "compile_issues sd source_text path =
     (case compile_expression sd source_text of
        Inr expression \<Rightarrow> push_if (is_statically_non_boolean expression)
          (issue_error ''router_when_not_boolean'' path ''Router rule expression is statically non-boolean'')
      | Inl (Fail c) \<Rightarrow> [issue_error (router_code_text c) path []]
      | Inl _ \<Rightarrow> [issue_error [] path []])"

fun rule_issues ::
  "serde \<Rightarrow> string \<Rightarrow> string set \<Rightarrow> nat \<Rightarrow> string set \<Rightarrow> router_rule list \<Rightarrow> validation_issue list" where
  "rule_issues sd nid declared index ids [] = []"
| "rule_issues sd nid declared index ids (rule # rs) =
     push_if (rule_id rule = [] \<or> rule_id rule \<in> ids)
       (graph_issue ''duplicate_router_rule'' (field_path nid ''rules''))
     @ validate_route (rule_outputs rule) declared
         (node_path nid @ ''/rules/'' @ show_nat index @ ''/outputs'')
     @ compile_issues sd (rule_when rule) (node_path nid @ ''/rules/'' @ show_nat index @ ''/when'')
     @ rule_issues sd nid declared (index + 1)
         (if rule_id rule = [] then ids else insert (rule_id rule) ids) rs"

definition invalid_source :: "router_read \<Rightarrow> bool" where
  "invalid_source r =
     (case read_source r of
        WorkingContext scope path \<Rightarrow>
          scope = [] \<or> read_limit r \<noteq> None \<or> validate_pointer path \<noteq> Inr ()
      | LongTermMemory scope query \<Rightarrow>
          scope = []
          \<or> (case read_limit r of None \<Rightarrow> True | Some l \<Rightarrow> l = 0 \<or> l > 100)
          \<or> (case query of None \<Rightarrow> False
             | Some q \<Rightarrow> length (query_text q) > 4096 \<or> length (query_tags q) > 64
                 \<or> list_ex (\<lambda>t. t = []) (query_tags q)))"

text \<open>The sets are extended as the short-circuit of the source's disjunction does.\<close>

fun read_issues ::
  "string \<Rightarrow> nat \<Rightarrow> string set \<Rightarrow> string set \<Rightarrow> router_read list \<Rightarrow> validation_issue list" where
  "read_issues nid index ids aliases [] = []"
| "read_issues nid index ids aliases (r # rs) =
     (let empty = (read_id r = [] \<or> read_alias r = []);
          invalid_identity = (empty \<or> read_id r \<in> ids \<or> read_alias r \<in> aliases);
          aliases = (if empty \<or> read_id r \<in> ids then aliases else insert (read_alias r) aliases);
          ids = (if empty then ids else insert (read_id r) ids)
      in push_if (invalid_identity \<or> invalid_source r \<or> read_max_bytes r = 0 \<or> read_max_bytes r > 1024 * 1024)
           (issue_error ''invalid_router_memory_read'' (node_path nid @ ''/memory/reads/'' @ show_nat index)
             ''Router memory read is invalid'')
         @ read_issues nid (index + 1) ids aliases rs)"

definition validate_memory :: "string \<Rightarrow> router_read list \<Rightarrow> validation_issue list" where
  "validate_memory nid reads =
     push_if (length reads > 128) (graph_issue ''invalid_router_memory_read'' (field_path nid ''memory/reads''))
     @ read_issues nid 0 {} {} reads"

definition validate_router_limits ::
  "string \<Rightarrow> router_limits \<Rightarrow> run_limits \<Rightarrow> string set \<Rightarrow> validation_issue list" where
  "validate_router_limits nid limits run declared =
     push_if (max_visits_per_run limits = Some 0 \<or> timeout_ms_per_run limits = Some 0
         \<or> (case max_read_reconciles limits of None \<Rightarrow> True
            | Some v \<Rightarrow> v = 0 \<or> v \<ge> max_attempts_per_activation run))
       (graph_issue ''invalid_router_limits'' (field_path nid ''limits''))
     @ (case on_limit_outputs limits of None \<Rightarrow> []
        | Some vs \<Rightarrow> validate_route vs declared (node_path nid @ ''/limits/onLimitOutputs''))"

definition validate_router :: "serde \<Rightarrow> 'llm graph_node \<Rightarrow> run_limits \<Rightarrow> validation_issue list" where
  "validate_router sd nd run =
     (case kind nd of
        NRouter cfg \<Rightarrow>
          (let nid = node_id nd; declared = set (map out_name (outputs nd)) in
           push_if (dsl_version cfg \<noteq> ''router-dsl-v1'')
             (graph_issue ''unsupported_router_dsl'' (field_path nid ''dslVersion''))
           @ push_if (length (rules cfg) > MAX_ROUTER_RULES)
             (graph_issue ''router_too_many_rules'' (field_path nid ''rules''))
           @ rule_issues sd nid declared 0 {} (rules cfg)
           @ (case default_outputs cfg of None \<Rightarrow> []
              | Some vs \<Rightarrow> validate_route vs declared (node_path nid @ ''/defaultOutputs''))
           @ (case payload_port cfg of None \<Rightarrow> []
              | Some p \<Rightarrow> push_if (p \<notin> set (map in_name (inputs nd)))
                  (graph_issue ''router_payload_port_missing'' (field_path nid ''payloadPort'')))
           @ (case router_limits_of cfg of None \<Rightarrow> []
              | Some l \<Rightarrow> validate_router_limits nid l run declared)
           @ (case router_memory cfg of None \<Rightarrow> [] | Some reads \<Rightarrow> validate_memory nid reads))
      | _ \<Rightarrow> [])"

section \<open>Coordination nodes\<close>

definition option_greater :: "nat option \<Rightarrow> nat \<Rightarrow> bool" where
  "option_greater x b = (case x of None \<Rightarrow> False | Some a \<Rightarrow> a > b)"

definition validate_coordination :: "'llm graph_node \<Rightarrow> run_limits \<Rightarrow> validation_issue list" where
  "validate_coordination nd limits =
     (let report = (\<lambda>code. graph_issue code (node_path (node_id nd))) in
      case kind nd of
        NMerge _ \<Rightarrow>
          push_if (length (inputs nd) < 2 \<or> length (outputs nd) \<noteq> 1) (report ''invalid_merge_shape'')
      | NJoinByKey selectors max_open_keys max_buffered \<Rightarrow>
          push_if (length (inputs nd) < 2 \<or> length (outputs nd) \<noteq> 1) (report ''invalid_join_by_key_shape'')
          @ push_if (set (map in_name (inputs nd)) \<noteq> set (om_keys selectors))
              (graph_issue ''join_key_selectors_mismatch'' (field_path (node_id nd) ''keySelectors''))
          @ concat (map (\<lambda>(port, pointer). push_if (validate_pointer pointer \<noteq> Inr ())
              (graph_issue ''invalid_join_key_selector''
                (field_path (node_id nd) (''keySelectors/'' @ port)))) selectors)
          @ push_if (max_open_keys = 0 \<or> max_buffered = 0
                \<or> max_open_keys > max_coordinator_buffered_values limits
                \<or> max_buffered > max_coordinator_buffered_values limits)
              (report ''invalid_join_by_key_limits'')
      | NAggregator count \<Rightarrow>
          push_if (length (inputs nd) \<noteq> 1 \<or> length (outputs nd) \<noteq> 1) (report ''invalid_aggregator_shape'')
          @ push_if (count = 0 \<or> count > max_coordinator_buffered_values limits
                \<or> timeout_ms nd = None \<or> option_greater (timeout_ms nd) (max_run_wall_clock_ms limits)
                \<or> count > 1 \<and> max_attempts_per_activation limits < 2)
              (report ''invalid_aggregator_limits'')
      | NExpand max_items \<Rightarrow>
          push_if (length (inputs nd) \<noteq> 1 \<or> length (outputs nd) \<noteq> 1) (report ''invalid_expand_shape'')
          @ push_if (max_items = 0 \<or> max_items > max_pending_queue_values limits)
              (report ''invalid_expand_limit'')
      | _ \<Rightarrow> [])"

end
