(* ===== verification/Graph_Structure.thy ===== *)
theory Graph_Structure
  imports Graph_Validation Canonical
begin

text \<open>
  The shape of an applied graph: the normalisation of nodes, edges and limits and the checks
  of ports, policies, selectors, edges and outputs of \<open>graph/apply.rs\<close> and
  \<open>graph/normalize.rs\<close>.
\<close>

section \<open>Nodes and limits\<close>

definition normalize_limits :: "draft_run_limits option \<Rightarrow> run_limits \<times> validation_issue list" where
  "normalize_limits draft =
     (let d = (case draft of
            Some d \<Rightarrow> d
          | None \<Rightarrow> \<lparr>d_max_node_activations = None, d_max_attempts_per_activation = None,
              d_max_total_queue_values = None, d_max_pending_queue_values = None, d_max_open_waits = None,
              d_max_coordinator_buffered_values = None, d_max_run_wall_clock_ms = None,
              d_max_value_bytes = None\<rparr>);
          unwrap_or = (\<lambda>x (v :: nat). case x of None \<Rightarrow> v | Some a \<Rightarrow> a);
          defaults = default_run_limits;
          l = \<lparr>max_node_activations = unwrap_or (d_max_node_activations d) (max_node_activations defaults),
               max_attempts_per_activation =
                 unwrap_or (d_max_attempts_per_activation d) (max_attempts_per_activation defaults),
               max_total_queue_values = unwrap_or (d_max_total_queue_values d) (max_total_queue_values defaults),
               max_pending_queue_values =
                 unwrap_or (d_max_pending_queue_values d) (max_pending_queue_values defaults),
               max_open_waits = unwrap_or (d_max_open_waits d) (max_open_waits defaults),
               max_coordinator_buffered_values =
                 unwrap_or (d_max_coordinator_buffered_values d) (max_coordinator_buffered_values defaults),
               max_run_wall_clock_ms = unwrap_or (d_max_run_wall_clock_ms d) (max_run_wall_clock_ms defaults),
               max_value_bytes = unwrap_or (d_max_value_bytes d) (max_value_bytes defaults)\<rparr>
      in (l, push_if (max_node_activations l = 0 \<or> max_attempts_per_activation l = 0
               \<or> max_total_queue_values l = 0 \<or> max_pending_queue_values l = 0 \<or> max_open_waits l = 0
               \<or> max_coordinator_buffered_values l = 0 \<or> max_run_wall_clock_ms l = 0
               \<or> max_value_bytes l = 0)
             (issue_error ''run_limit_not_positive'' ''/limits'' ''run limit not positive'')))"

definition default_input :: input_port where
  "default_input = \<lparr>in_name = ''default'', in_schema = None, in_selector = WholeValue\<rparr>"

definition default_output :: output_port where
  "default_output = \<lparr>out_name = ''default'', out_schema = None\<rparr>"

fun is_input_kind :: "'llm node_kind \<Rightarrow> bool" where
  "is_input_kind (NInput _) = True"
| "is_input_kind _ = False"

fun is_output_kind :: "'llm node_kind \<Rightarrow> bool" where
  "is_output_kind (NOutput _) = True"
| "is_output_kind _ = False"

fun is_router_kind :: "'llm node_kind \<Rightarrow> bool" where
  "is_router_kind (NRouter _) = True"
| "is_router_kind _ = False"

definition normalize_node :: "'llm draft_node \<Rightarrow> 'llm graph_node \<times> validation_issue list" where
  "normalize_node nd =
     (let nid = d_id nd; is_input = is_input_kind (d_kind nd); is_output = is_output_kind (d_kind nd);
          ins = d_inputs nd; outs = d_outputs nd;
          (ins', outs', shape) =
            (if is_input then
               ([], if outs = [] then [default_output] else outs,
                push_if (ins \<noteq> []) (graph_issue ''input_node_has_inputs'' (field_path nid ''inputs'')))
             else if is_output then
               (if ins = [] then [default_input] else ins, [],
                push_if (outs \<noteq> []) (graph_issue ''output_node_has_outputs'' (field_path nid ''outputs'')))
             else
               (if ins = [] then [default_input] else ins,
                if outs = [] \<and> \<not> is_router_kind (d_kind nd) then [default_output] else outs,
                push_if (outs = [] \<and> is_router_kind (d_kind nd))
                  (graph_issue ''router_outputs_required'' (field_path nid ''outputs''))))
      in (\<lparr>node_id = nid, node_name = d_name nd, is_entry = is_input, inputs = ins', outputs = outs',
           timeout_ms = d_timeout_ms nd, node_retry_policy = d_retry_policy nd,
           kind = normalize_router (d_kind nd)\<rparr>,
          shape
          @ push_if (d_is_entry nd \<noteq> None \<and> d_is_entry nd \<noteq> Some is_input)
              (graph_issue ''node_entry_kind_mismatch'' (field_path nid ''isEntry''))
          @ push_if (is_input \<and> length outs' \<noteq> 1)
              (graph_issue ''input_node_output_count'' (field_path nid ''outputs''))
          @ push_if (is_output \<and> length ins' \<noteq> 1)
              (graph_issue ''output_node_input_count'' (field_path nid ''inputs''))))"

definition validate_execution_policy :: "'llm graph_node \<Rightarrow> validation_issue list" where
  "validate_execution_policy nd =
     push_if (timeout_ms nd = Some 0)
       (graph_issue ''node_timeout_not_positive'' (field_path (node_id nd) ''timeoutMs''))
     @ (case node_retry_policy nd of
          None \<Rightarrow> []
        | Some p \<Rightarrow>
            push_if (max_retries p = 0 \<or> retry_on p = [] \<or> any_bad (\<lambda>c. c = []) {} (retry_on p)
                \<or> multiplier_micros p < 1000000 \<or> jitter_ratio_micros p > 1000000 \<or> max_backoff_ms p = 0)
              (graph_issue ''invalid_retry_policy'' (field_path (node_id nd) ''retryPolicy'')))"

definition unique_ports :: "'llm graph_node \<Rightarrow> validation_issue list" where
  "unique_ports nd =
     concat (map (\<lambda>names. push_if (any_bad (\<lambda>n. n = []) {} names)
         (graph_issue ''duplicate_or_empty_port'' (field_path (node_id nd) ''ports'')))
       [map in_name (inputs nd), map out_name (outputs nd)])"

fun node_issues ::
  "serde \<Rightarrow> run_limits \<Rightarrow> string set \<Rightarrow> 'llm graph_node list \<Rightarrow> validation_issue list" where
  "node_issues sd limits ids [] = []"
| "node_issues sd limits ids (nd # nds) =
     push_if (node_id nd = [] \<or> node_id nd \<in> ids) (graph_issue ''duplicate_or_empty_node_id'' ''/nodes'')
     @ validate_execution_policy nd @ unique_ports nd @ validate_router sd nd limits
     @ validate_coordination nd limits
     @ node_issues sd limits (if node_id nd = [] then ids else insert (node_id nd) ids) nds"

definition validate_nodes :: "serde \<Rightarrow> 'llm graph_node list \<Rightarrow> run_limits \<Rightarrow> validation_issue list" where
  "validate_nodes sd ns limits =
     node_issues sd limits {} ns
     @ push_if (length (filter is_entry ns) = 0) (graph_issue ''graph_has_no_input_node'' ''/nodes'')"

definition validate_selectors :: "selector_lib \<Rightarrow> 'llm graph_node list \<Rightarrow> validation_issue list" where
  "validate_selectors lib ns =
     concat (map (\<lambda>nd.
       (case kind nd of
          NInput sel \<Rightarrow> push_if (validate_selector lib sel \<noteq> Inr ())
            (graph_issue ''invalid_input_selector'' (field_path (node_id nd) ''runInputSelector''))
        | _ \<Rightarrow> [])
       @ concat (map (\<lambda>p. push_if (validate_selector lib (in_selector p) \<noteq> Inr ())
           (graph_issue ''invalid_input_selector''
             (field_path (node_id nd) (''inputs/'' @ in_name p @ ''/binding/selector'')))) (inputs nd)))
       ns)"

section \<open>Edges and outputs\<close>

text \<open>The tuple of the two ends as \<open>serde\<close> writes it, for the derived edge id.\<close>

definition edge_json :: "draft_edge \<Rightarrow> json" where
  "edge_json e = JArray
     [JObject [(''nodeId'', JString (from_node (de_from e))), (''output'', JString (from_output (de_from e)))],
      JObject [(''input'', JString (to_input (de_to e))), (''nodeId'', JString (to_node (de_to e)))]]"

fun edges_loop ::
  "serde \<Rightarrow> (string \<Rightarrow> string) \<Rightarrow> string set \<Rightarrow> draft_edge list \<Rightarrow>
     domain_error + graph_edge list \<times> validation_issue list" where
  "edges_loop sd sha ids [] = Inr ([], [])"
| "edges_loop sd sha ids (e # es) =
     bindR (canonical_hash sd sha (edge_json e)) (\<lambda>h.
       let eid = (case de_id e of Some i \<Rightarrow> i | None \<Rightarrow> ''edge_'' @ take 24 (drop 7 h));
           ids' = (if eid = [] then ids else insert eid ids)
       in bindR (edges_loop sd sha ids' es) (\<lambda>(r, is).
            Inr (\<lparr>edge_id = eid, edge_from = de_from e, edge_to = de_to e\<rparr> # r,
                 push_if (eid = [] \<or> eid \<in> ids) (graph_issue ''duplicate_or_empty_edge_id'' ''/edges'') @ is)))"

definition normalize_edges ::
  "serde \<Rightarrow> (string \<Rightarrow> string) \<Rightarrow> draft_edge list \<Rightarrow> domain_error + graph_edge list \<times> validation_issue list" where
  "normalize_edges sd sha edges =
     bindR (edges_loop sd sha {} edges) (\<lambda>(r, is). Inr (sort_key edge_id r, is))"

text \<open>Collecting into a map keeps the last node of an id.\<close>

definition node_by_id :: "'llm graph_node list \<Rightarrow> string \<Rightarrow> 'llm graph_node option" where
  "node_by_id ns i = map_of (rev (map (\<lambda>nd. (node_id nd, nd)) ns)) i"

definition edge_path :: "graph_edge \<Rightarrow> string" where
  "edge_path e = ''/edges/'' @ edge_id e"

fun edge_issues ::
  "'llm graph_node list \<Rightarrow> (string \<times> string) set \<Rightarrow> graph_edge list \<Rightarrow> validation_issue list" where
  "edge_issues ns incoming [] = []"
| "edge_issues ns incoming (e # es) =
     (let origin = node_by_id ns (from_node (edge_from e));
          destination = node_by_id ns (to_node (edge_to e));
          here = (to_node (edge_to e), to_input (edge_to e))
      in push_if (\<not> (case origin of None \<Rightarrow> False
             | Some nd \<Rightarrow> list_ex (\<lambda>p. out_name p = from_output (edge_from e)) (outputs nd)))
           (graph_issue ''edge_source_missing'' (edge_path e))
         @ push_if (\<not> (case destination of None \<Rightarrow> False
             | Some nd \<Rightarrow> list_ex (\<lambda>p. in_name p = to_input (edge_to e)) (inputs nd)))
           (graph_issue ''edge_target_missing'' (edge_path e))
         @ push_if (here \<in> incoming) (graph_issue ''input_has_multiple_edges'' (edge_path e))
         @ edge_issues ns (insert here incoming) es)"

definition edge_targets :: "graph_edge list \<Rightarrow> (string \<times> string) set" where
  "edge_targets edges = set (map (\<lambda>e. (to_node (edge_to e), to_input (edge_to e))) edges)"

definition validate_edges :: "'llm graph_node list \<Rightarrow> graph_edge list \<Rightarrow> validation_issue list" where
  "validate_edges ns edges =
     edge_issues ns {} edges
     @ concat (map (\<lambda>nd. concat (map (\<lambda>p. push_if ((node_id nd, in_name p) \<notin> edge_targets edges)
           (graph_issue ''required_input_unconnected'' (field_path (node_id nd) (''inputs/'' @ in_name p))))
         (inputs nd))) (filter (\<lambda>nd. \<not> is_entry nd) ns))"

definition is_sink :: "string \<Rightarrow> 'llm graph_node \<Rightarrow> bool" where
  "is_sink key nd = (case kind nd of NOutput k \<Rightarrow> k = key | _ \<Rightarrow> False)"

definition validate_outputs ::
  "'llm graph_node list \<Rightarrow> output_contract_entry list \<Rightarrow> validation_issue list" where
  "validate_outputs ns contracts =
     repeated (\<lambda>k. k = []) (graph_issue ''duplicate_or_empty_output_key'' ''/outputContract'') {}
       (map contract_key contracts)
     @ concat (map (\<lambda>nd. case kind nd of
           NOutput key \<Rightarrow> push_if (\<not> list_ex (\<lambda>c. contract_key c = key) contracts)
             (graph_issue ''output_node_contract_missing'' (field_path (node_id nd) ''outputKey''))
         | _ \<Rightarrow> []) ns)
     @ concat (map (\<lambda>c. push_if (length (filter (is_sink (contract_key c)) ns) \<noteq> 1)
         (graph_issue ''output_contract_sink_count'' (''/outputContract/'' @ contract_key c))) contracts)"

section \<open>Unreachable nodes\<close>

text \<open>
  The breadth-first search from the entry nodes.  The queue's initial order is that of a hash
  set in the source; the result does not depend on it.  Each target is queued at most once, so
  the search ends; \<open>fuel\<close> counts its rounds and \<open>None\<close> says that it was not enough.
\<close>

fun enqueue_targets ::
  "string \<Rightarrow> graph_edge list \<Rightarrow> string set \<Rightarrow> string list \<Rightarrow> string set \<times> string list" where
  "enqueue_targets x [] reached queue = (reached, queue)"
| "enqueue_targets x (e # es) reached queue =
     (let t = to_node (edge_to e) in
      if from_node (edge_from e) = x \<and> t \<notin> reached
      then enqueue_targets x es (insert t reached) (queue @ [t])
      else enqueue_targets x es reached queue)"

fun bfs :: "graph_edge list \<Rightarrow> nat \<Rightarrow> string set \<Rightarrow> string list \<Rightarrow> string set option" where
  "bfs edges fuel reached [] = Some reached"
| "bfs edges 0 reached (x # queue) = None"
| "bfs edges (Suc fuel) reached (x # queue) =
     (case enqueue_targets x edges reached queue of (reached, queue) \<Rightarrow> bfs edges fuel reached queue)"

definition unreachable_warnings ::
  "'llm graph_node list \<Rightarrow> graph_edge list \<Rightarrow> validation_issue list option" where
  "unreachable_warnings ns edges =
     (let starts = remdups (map node_id (filter is_entry ns)) in
      map_option (\<lambda>reached.
        map (\<lambda>nd. issue_error ''node_unreachable'' (node_path (node_id nd))
              ''node is not reachable from an input node'')
          (filter (\<lambda>nd. node_id nd \<notin> reached) ns))
        (bfs edges (length starts + length edges) (set starts) starts))"

definition edge_rel :: "graph_edge list \<Rightarrow> (string \<times> string) set" where
  "edge_rel edges = (\<lambda>e. (from_node (edge_from e), to_node (edge_to e))) ` set edges"

definition entry_ids :: "'llm graph_node list \<Rightarrow> string set" where
  "entry_ids ns = node_id ` {nd \<in> set ns. is_entry nd}"

definition all_targets :: "graph_edge list \<Rightarrow> string set" where
  "all_targets edges = (\<lambda>e. to_node (edge_to e)) ` set edges"

lemma enqueue_targets_spec:
  "enqueue_targets x es reached queue = (reached', queue') \<Longrightarrow>
    \<exists>new. queue' = queue @ new \<and> distinct new \<and> set new \<inter> reached = {} \<and> reached' = reached \<union> set new
      \<and> set new \<subseteq> {y. (x, y) \<in> edge_rel es} \<and> {y. (x, y) \<in> edge_rel es} \<subseteq> reached'"
proof (induction es arbitrary: reached queue)
  case (Cons e es)
  let ?t = "to_node (edge_to e)"
  show ?case
  proof (cases "from_node (edge_from e) = x \<and> ?t \<notin> reached")
    case True
    then have st: "enqueue_targets x es (insert ?t reached) (queue @ [?t]) = (reached', queue')"
      using Cons.prems by (simp add: Let_def)
    from Cons.IH [OF st] obtain new where "queue' = (queue @ [?t]) @ new" "distinct new"
      "set new \<inter> insert ?t reached = {}" "reached' = insert ?t reached \<union> set new"
      "set new \<subseteq> {y. (x, y) \<in> edge_rel es}" "{y. (x, y) \<in> edge_rel es} \<subseteq> reached'" by blast
    then show ?thesis using True by (intro exI [of _ "?t # new"]) (auto simp: edge_rel_def)
  next
    case False
    then have "enqueue_targets x es reached queue = (reached', queue')"
      using Cons.prems by (auto simp: Let_def)
    from Cons.IH [OF this] show ?thesis using False by (elim exE conjE, intro exI) (auto simp: edge_rel_def)
  qed
qed (simp add: edge_rel_def)

lemma bfs_reaches:
  assumes "set queue \<subseteq> reached" "reached \<subseteq> (edge_rel edges)\<^sup>* `` starts" "starts \<subseteq> reached"
    "edge_rel edges `` (reached - set queue) \<subseteq> reached"
    "length queue + card (all_targets edges - reached) \<le> fuel"
  shows "bfs edges fuel reached queue = Some ((edge_rel edges)\<^sup>* `` starts)"
  using assms
proof (induction edges fuel reached queue rule: bfs.induct)
  case (1 edges fuel reached)
  then have "(edge_rel edges)\<^sup>* `` reached = reached" by (intro Image_closed_trancl) simp
  then show ?case using 1 by auto
next
  case (3 edges fuel reached x queue)
  obtain reached' queue' where e: "enqueue_targets x edges reached queue = (reached', queue')" by fastforce
  obtain new where n: "queue' = queue @ new" "distinct new" "set new \<inter> reached = {}"
    "reached' = reached \<union> set new" "set new \<subseteq> {y. (x, y) \<in> edge_rel edges}"
    "{y. (x, y) \<in> edge_rel edges} \<subseteq> reached'"
    using enqueue_targets_spec [OF e] by blast
  have targets: "set new \<subseteq> all_targets edges" using n(5) by (auto simp: all_targets_def edge_rel_def)
  have fin: "finite (all_targets edges - reached)" by (simp add: all_targets_def)
  have sub: "set new \<subseteq> all_targets edges - reached" using targets n(3) by blast
  have "all_targets edges - reached' = (all_targets edges - reached) - set new" using n(4) by blast
  then have "card (all_targets edges - reached') = card (all_targets edges - reached) - length new"
    using card_Diff_subset [OF _ sub] n(2) by (simp add: distinct_card)
  moreover have "length new \<le> card (all_targets edges - reached)"
    using card_mono [OF fin sub] n(2) by (simp add: distinct_card)
  ultimately have "length queue' + card (all_targets edges - reached') \<le> fuel"
    using 3(6) n(1) by simp
  moreover have "reached' \<subseteq> (edge_rel edges)\<^sup>* `` starts"
  proof -
    have "x \<in> (edge_rel edges)\<^sup>* `` starts" using 3(2,3) by auto
    then have "set new \<subseteq> (edge_rel edges)\<^sup>* `` starts"
      using n(5) by (auto intro: rtrancl.rtrancl_into_rtrancl)
    then show ?thesis using 3(3) n(4) by blast
  qed
  moreover have "edge_rel edges `` (reached' - set queue') \<subseteq> reached'"
  proof
    fix b
    assume "b \<in> edge_rel edges `` (reached' - set queue')"
    then obtain a where a: "(a, b) \<in> edge_rel edges" "a \<in> reached' - set queue'" by blast
    show "b \<in> reached'"
    proof (cases "a = x")
      case False
      then have "a \<in> reached - set (x # queue)" using a(2) n(1,4) by auto
      then show ?thesis using a(1) 3(5) n(4) by blast
    qed (use a(1) n(6) in blast)
  qed
  moreover have "set queue' \<subseteq> reached'" "starts \<subseteq> reached'" using 3(2,4) n by auto
  ultimately show ?case using 3(1) [OF e [symmetric]] e by simp
qed simp_all

lemma unreachable_result:
  "unreachable_warnings ns edges = Some (map (\<lambda>nd. issue_error ''node_unreachable'' (node_path (node_id nd))
       ''node is not reachable from an input node'')
     (filter (\<lambda>nd. node_id nd \<notin> (edge_rel edges)\<^sup>* `` entry_ids ns) ns))"
proof -
  let ?starts = "remdups (map node_id (filter is_entry ns))"
  have starts: "set ?starts = entry_ids ns" by (auto simp: entry_ids_def)
  have "card (all_targets edges - set ?starts) \<le> length edges"
    unfolding all_targets_def
    by (meson Diff_subset List.finite_set card_image_le card_length card_mono finite_imageI le_trans)
  then have "bfs edges (length ?starts + length edges) (set ?starts) ?starts
      = Some ((edge_rel edges)\<^sup>* `` set ?starts)"
    by (intro bfs_reaches) auto
  then show ?thesis unfolding unreachable_warnings_def Let_def starts by simp
qed

lemma unreachable_total: "\<exists>ws. unreachable_warnings ns edges = Some ws"
  using unreachable_result by blast

text \<open>
  The search that warns of unreachable nodes ends and is exact: the nodes it reports are, in
  order, those that no path of edges leads to from an input node.
\<close>
theorem unreachable_warnings_exact:
  "unreachable_warnings ns edges = Some (map (\<lambda>nd. issue_error ''node_unreachable'' (node_path (node_id nd))
       ''node is not reachable from an input node'')
     (filter (\<lambda>nd. node_id nd \<notin> (edge_rel edges)\<^sup>* `` entry_ids ns) ns))"
  by (rule unreachable_result)

end
