(* ===== verification/Graph_Cycle.thy ===== *)
theory Graph_Cycle
  imports Graph_Structure
begin

text \<open>
  \<open>crates/core/src/graph/cycle.rs\<close>: every cycle of an applied graph must pass a router with a
  visit or time limit.  Hash maps are functions to \<open>option\<close>; the vector used as a stack has its
  top first.  The recursive searches take fuel: \<open>None\<close> stands for a recursion deeper than the
  fuel or for an absent map key, and the lemmas below show that neither happens.
\<close>

section \<open>The code\<close>

type_synonym adj_map = "string \<Rightarrow> string list option"

definition no_targets :: "'llm graph_node \<Rightarrow> adj_map \<Rightarrow> adj_map" where
  "no_targets nd g = g(node_id nd := Some [])"

definition add_target :: "graph_edge \<Rightarrow> adj_map \<Rightarrow> adj_map" where
  "add_target e g = g(from_node (edge_from e) :=
     Some ((case g (from_node (edge_from e)) of None \<Rightarrow> [] | Some ts \<Rightarrow> ts) @ [to_node (edge_to e)]))"

definition adjacency :: "'llm graph_node list \<Rightarrow> graph_edge list \<Rightarrow> adj_map" where
  "adjacency ns edges = fold add_target edges (fold no_targets ns (\<lambda>_. None))"

definition targets :: "adj_map \<Rightarrow> string \<Rightarrow> string list" where
  "targets g x = (case g x of None \<Rightarrow> [] | Some ts \<Rightarrow> ts)"

record tarjan =
  tj_next :: nat
  tj_stack :: "string list"
  tj_on_stack :: "string set"
  tj_index :: "string \<Rightarrow> nat option"
  tj_low :: "string \<Rightarrow> nat option"
  tj_output :: "string list list"

text \<open>Pops the component of the root \<open>x\<close>: everything above it and \<open>x\<close> itself.\<close>

fun pop_until :: "string \<Rightarrow> string list \<Rightarrow> string list \<times> string list" where
  "pop_until x [] = ([], [])"
| "pop_until x (y # ys) =
     (if y = x then ([y], ys) else (case pop_until x ys of (c, r) \<Rightarrow> (y # c, r)))"

definition set_low :: "string \<Rightarrow> nat \<Rightarrow> tarjan \<Rightarrow> tarjan" where
  "set_low x l st = st\<lparr>tj_low := (tj_low st)(x := Some l)\<rparr>"

definition enter :: "string \<Rightarrow> tarjan \<Rightarrow> tarjan" where
  "enter x st = \<lparr>tj_next = tj_next st + 1, tj_stack = x # tj_stack st,
     tj_on_stack = insert x (tj_on_stack st), tj_index = (tj_index st)(x := Some (tj_next st)),
     tj_low = (tj_low st)(x := Some (tj_next st)), tj_output = tj_output st\<rparr>"

definition close_root :: "string \<Rightarrow> tarjan \<Rightarrow> tarjan option" where
  "close_root x st =
     Option.bind (tj_low st x) (\<lambda>l. Option.bind (tj_index st x) (\<lambda>i.
       Some (if l = i then
           (case pop_until x (tj_stack st) of (component, r) \<Rightarrow>
              st\<lparr>tj_stack := r, tj_on_stack := tj_on_stack st - set component,
                 tj_output := tj_output st @ [sort component]\<rparr>)
         else st)))"

function (sequential) visit :: "nat \<Rightarrow> adj_map \<Rightarrow> string \<Rightarrow> tarjan \<Rightarrow> tarjan option"
  and visit_targets :: "nat \<Rightarrow> adj_map \<Rightarrow> string \<Rightarrow> string list \<Rightarrow> tarjan \<Rightarrow> tarjan option" where
  "visit 0 g x st = None"
| "visit (Suc n) g x st = Option.bind (visit_targets n g x (targets g x) (enter x st)) (close_root x)"
| "visit_targets n g x [] st = Some st"
| "visit_targets n g x (t # ts) st =
     (case tj_index st t of
        None \<Rightarrow>
          Option.bind (visit n g t st) (\<lambda>st.
          Option.bind (tj_low st x) (\<lambda>l. Option.bind (tj_low st t) (\<lambda>m.
            visit_targets n g x ts (set_low x (min l m) st))))
      | Some i \<Rightarrow>
          if t \<in> tj_on_stack st then
            Option.bind (tj_low st x) (\<lambda>l. visit_targets n g x ts (set_low x (min l i) st))
          else visit_targets n g x ts st)"
  by pat_completeness auto
termination
  by (relation "measures [\<lambda>p. case p of Inl (n, _) \<Rightarrow> n | Inr (n, _) \<Rightarrow> n,
      \<lambda>p. case p of Inl _ \<Rightarrow> 0 | Inr (_, _, _, ts, _) \<Rightarrow> Suc (length ts)]") auto

fun visit_all :: "nat \<Rightarrow> adj_map \<Rightarrow> string list \<Rightarrow> tarjan \<Rightarrow> tarjan option" where
  "visit_all n g [] st = Some st"
| "visit_all n g (x # xs) st =
     (if tj_index st x = None then Option.bind (visit n g x st) (visit_all n g xs)
      else visit_all n g xs st)"

definition start_tarjan :: tarjan where
  "start_tarjan = \<lparr>tj_next = 0, tj_stack = [], tj_on_stack = {}, tj_index = (\<lambda>_. None),
     tj_low = (\<lambda>_. None), tj_output = []\<rparr>"

definition strongly_connected :: "nat \<Rightarrow> 'llm graph_node list \<Rightarrow> adj_map \<Rightarrow> string list list option" where
  "strongly_connected n ns g = map_option tj_output (visit_all n g (map node_id ns) start_tarjan)"

text \<open>The search for a cycle inside a set of nodes.\<close>

function (sequential) cycle_visit ::
    "nat \<Rightarrow> string set \<Rightarrow> adj_map \<Rightarrow> string \<Rightarrow> string set \<Rightarrow> string set \<Rightarrow> (bool \<times> string set) option"
  and cycle_targets ::
    "nat \<Rightarrow> string set \<Rightarrow> adj_map \<Rightarrow> string list \<Rightarrow> string set \<Rightarrow> string set \<Rightarrow> (bool \<times> string set) option" where
  "cycle_visit n inside g x visiting finished =
     (if x \<in> visiting then Some (True, finished)
      else if x \<in> finished then Some (False, finished)
      else case n of 0 \<Rightarrow> None
      | Suc n \<Rightarrow>
          (case cycle_targets n inside g (filter (\<lambda>t. t \<in> inside) (targets g x)) (insert x visiting) finished of
             None \<Rightarrow> None
           | Some (True, finished) \<Rightarrow> Some (True, finished)
           | Some (False, finished) \<Rightarrow> Some (False, insert x finished)))"
| "cycle_targets n inside g [] visiting finished = Some (False, finished)"
| "cycle_targets n inside g (t # ts) visiting finished =
     (case cycle_visit n inside g t visiting finished of
        None \<Rightarrow> None
      | Some (True, finished) \<Rightarrow> Some (True, finished)
      | Some (False, finished) \<Rightarrow> cycle_targets n inside g ts visiting finished)"
  by pat_completeness auto
termination
  by (relation "measures [\<lambda>p. case p of Inl (n, _) \<Rightarrow> n | Inr (n, _) \<Rightarrow> n,
      \<lambda>p. case p of Inl _ \<Rightarrow> 0 | Inr (_, _, _, ts, _) \<Rightarrow> Suc (length ts)]") auto

definition contains_cycle :: "string list \<Rightarrow> adj_map \<Rightarrow> bool option" where
  "contains_cycle xs g = map_option fst (cycle_targets (length xs) (set xs) g xs {} {})"

definition find_node :: "'llm graph_node list \<Rightarrow> string \<Rightarrow> 'llm graph_node option" where
  "find_node ns i = find (\<lambda>nd. node_id nd = i) ns"

definition is_guarded_router :: "'llm graph_node \<Rightarrow> bool" where
  "is_guarded_router nd =
     (case kind nd of
        NRouter cfg \<Rightarrow>
          (case router_limits_of cfg of None \<Rightarrow> False
           | Some l \<Rightarrow> max_visits_per_run l \<noteq> None \<or> timeout_ms_per_run l \<noteq> None)
      | _ \<Rightarrow> False)"

definition limit_outputs :: "'llm graph_node \<Rightarrow> string list" where
  "limit_outputs nd =
     (case kind nd of
        NRouter cfg \<Rightarrow>
          (case router_limits_of cfg of None \<Rightarrow> []
           | Some l \<Rightarrow> (case on_limit_outputs l of None \<Rightarrow> [] | Some vs \<Rightarrow> vs))
      | _ \<Rightarrow> [])"

definition component_issue :: "string \<Rightarrow> string list \<Rightarrow> validation_issue" where
  "component_issue code component =
     issue_error code ''/edges'' (spaced code @ '': '' @ join '', '' component)"

text \<open>The guards of a component are taken in its order; in the source it is that of a hash set.\<close>

definition guard_issues ::
  "'llm graph_node list \<Rightarrow> graph_edge list \<Rightarrow> string list \<Rightarrow> string \<Rightarrow> validation_issue list" where
  "guard_issues ns edges component guard =
     (case find_node ns guard of None \<Rightarrow> []
      | Some nd \<Rightarrow> concat (map (\<lambda>output.
          push_if (\<not> list_all (\<lambda>e. to_node (edge_to e) \<notin> set component)
              (filter (\<lambda>e. from_node (edge_from e) = guard \<and> from_output (edge_from e) = output) edges))
            (issue_error ''router_limit_route_reenters_cycle'' (field_path guard ''limits/onLimitOutputs'')
              ''router limit output must leave its cyclic component''))
          (limit_outputs nd)))"

definition component_issues ::
  "'llm graph_node list \<Rightarrow> graph_edge list \<Rightarrow> adj_map \<Rightarrow> string list \<Rightarrow> validation_issue list option" where
  "component_issues ns edges g component =
     (let cyclic = (length component > 1 \<or>
            (case g (hd component) of None \<Rightarrow> False | Some ts \<Rightarrow> hd component \<in> set ts));
          guarded = filter (\<lambda>i. case find_node ns i of None \<Rightarrow> False | Some nd \<Rightarrow> is_guarded_router nd) component;
          remaining = filter (\<lambda>i. i \<notin> set guarded) component
      in if \<not> cyclic then Some []
         else if guarded = [] then Some [component_issue ''cycle_without_router_guard'' component]
         else map_option (\<lambda>c.
             push_if c (component_issue ''cycle_bypasses_router_guard'' component)
             @ concat (map (guard_issues ns edges component) guarded))
           (contains_cycle remaining g))"

fun components_issues ::
  "'llm graph_node list \<Rightarrow> graph_edge list \<Rightarrow> adj_map \<Rightarrow> string list list \<Rightarrow> validation_issue list option" where
  "components_issues ns edges g [] = Some []"
| "components_issues ns edges g (c # cs) =
     Option.bind (component_issues ns edges g c) (\<lambda>is.
     Option.bind (components_issues ns edges g cs) (\<lambda>js. Some (is @ js)))"

text \<open>Each visit marks a new node, so the depth is at most the number of nodes and edge ends.\<close>

definition validate_cycles :: "'llm graph_node list \<Rightarrow> graph_edge list \<Rightarrow> validation_issue list option" where
  "validate_cycles ns edges =
     (let g = adjacency ns edges in
      Option.bind (strongly_connected (length ns + length edges) ns g) (components_issues ns edges g))"

section \<open>The graph of the adjacency map\<close>

definition arcs :: "adj_map \<Rightarrow> (string \<times> string) set" where
  "arcs g = {(x, y). y \<in> set (targets g x)}"

lemma fold_add_targets:
  "targets (fold add_target edges g) x = targets g x
     @ map (\<lambda>e. to_node (edge_to e)) (filter (\<lambda>e. from_node (edge_from e) = x) edges)"
  by (induction edges arbitrary: g) (auto simp: add_target_def targets_def split: option.splits)

lemma fold_no_targets: "targets g x = [] \<Longrightarrow> targets (fold no_targets ns g) x = []"
  by (induction ns arbitrary: g) (auto simp: no_targets_def targets_def)

lemma targets_adjacency:
  "targets (adjacency ns edges) x
     = map (\<lambda>e. to_node (edge_to e)) (filter (\<lambda>e. from_node (edge_from e) = x) edges)"
  using fold_no_targets [of "\<lambda>_. None" x ns] by (simp add: adjacency_def fold_add_targets) (simp add: targets_def)

lemma arcs_adjacency: "arcs (adjacency ns edges) = edge_rel edges"
  by (auto simp: arcs_def targets_adjacency edge_rel_def)

section \<open>The cycle search\<close>

text \<open>
  A closed set of finished nodes without a cycle through them.  The nodes on the current path
  all lead to the node visited next.
\<close>

definition settled :: "(string \<times> string) set \<Rightarrow> string set \<Rightarrow> string set \<Rightarrow> bool" where
  "settled R visiting fin \<longleftrightarrow> fin \<inter> visiting = {} \<and> R `` fin \<subseteq> fin \<and> (\<forall>y \<in> fin. (y, y) \<notin> R\<^sup>+)"

lemma closed_trancl: "R `` A \<subseteq> A \<Longrightarrow> (x, y) \<in> R\<^sup>+ \<Longrightarrow> x \<in> A \<Longrightarrow> y \<in> A"
  by (erule trancl_induct) auto

lemma settled_insert:
  assumes "settled R (insert x visiting) fin" "R `` {x} \<subseteq> fin" "x \<notin> visiting"
  shows "settled R visiting (insert x fin)"
proof -
  have c: "R `` fin \<subseteq> fin" "x \<notin> fin" using assms(1) by (auto simp: settled_def)
  have "(x, x) \<notin> R\<^sup>+"
  proof
    assume "(x, x) \<in> R\<^sup>+"
    then obtain y where "(x, y) \<in> R" "y = x \<or> (y, x) \<in> R\<^sup>+" by (metis tranclD rtranclD)
    then show False using assms(2) c closed_trancl [OF c(1)] by blast
  qed
  then show ?thesis using assms by (auto simp: settled_def)
qed

lemma cycle_search:
  fixes g inside
  defines "R \<equiv> arcs g \<inter> inside \<times> inside"
  shows "x \<in> inside \<Longrightarrow> finite inside \<Longrightarrow> settled R visiting fin \<Longrightarrow> (\<forall>v \<in> visiting. (v, x) \<in> R\<^sup>+) \<Longrightarrow>
      card (inside - visiting) \<le> n \<Longrightarrow>
      \<exists>b d. cycle_visit n inside g x visiting fin = Some (b, d) \<and> (b \<longrightarrow> (\<exists>y. (y, y) \<in> R\<^sup>+))
        \<and> (\<not> b \<longrightarrow> insert x fin \<subseteq> d \<and> settled R visiting d)"
    and "set ts \<subseteq> inside \<Longrightarrow> finite inside \<Longrightarrow> settled R visiting fin \<Longrightarrow>
      (\<forall>v \<in> visiting. \<forall>t \<in> set ts. (v, t) \<in> R\<^sup>+) \<Longrightarrow> card (inside - visiting) \<le> n \<Longrightarrow>
      \<exists>b d. cycle_targets n inside g ts visiting fin = Some (b, d) \<and> (b \<longrightarrow> (\<exists>y. (y, y) \<in> R\<^sup>+))
        \<and> (\<not> b \<longrightarrow> set ts \<union> fin \<subseteq> d \<and> settled R visiting d)"
  unfolding R_def
proof (induction n inside g x visiting fin and n inside g ts visiting fin
    rule: cycle_visit_cycle_targets.induct)
  case (1 n inside g x visiting fin)
  let ?R = "arcs g \<inter> inside \<times> inside"
  let ?ts = "filter (\<lambda>t. t \<in> inside) (targets g x)"
  show ?case
  proof (cases "x \<in> visiting \<or> x \<in> fin")
    case True
    then show ?thesis using "1.prems" by auto
  next
    case False
    have "card (inside - visiting) \<noteq> 0" using False "1.prems"(1,2) by auto
    then obtain m where n: "n = Suc m" using "1.prems"(5) by (cases n) auto
    have "inside - insert x visiting = (inside - visiting) - {x}" by blast
    then have card: "card (inside - insert x visiting) \<le> m"
      using "1.prems"(1,2,5) False n by (simp add: card_Diff_singleton)
    have succ: "?R `` {x} = set ?ts" using "1.prems"(1) by (auto simp: arcs_def)
    have path: "\<forall>v \<in> insert x visiting. \<forall>t \<in> set ?ts. (v, t) \<in> ?R\<^sup>+"
      using "1.prems"(4) succ by (blast intro: trancl.trancl_into_trancl)
    have sub: "set ?ts \<subseteq> inside" by auto
    have "settled ?R (insert x visiting) fin" using "1.prems"(3) False by (auto simp: settled_def)
    from "1.IH" [OF _ _ n sub "1.prems"(2) this path card] False
    obtain b d where bd: "cycle_targets m inside g ?ts (insert x visiting) fin = Some (b, d)"
      "b \<longrightarrow> (\<exists>y. (y, y) \<in> ?R\<^sup>+)" "\<not> b \<longrightarrow> set ?ts \<union> fin \<subseteq> d \<and> settled ?R (insert x visiting) d"
      by blast
    show ?thesis
    proof (cases b)
      case True
      then show ?thesis using bd False n by (intro exI [of _ True] exI [of _ d]) simp
    next
      case b: False
      have "settled ?R visiting (insert x d)"
        using bd(3) b succ False by (intro settled_insert) auto
      then show ?thesis using bd b False n by (intro exI [of _ False] exI [of _ "insert x d"]) auto
    qed
  qed
next
  case (3 n inside g t ts visiting fin)
  let ?R = "arcs g \<inter> inside \<times> inside"
  obtain b d where bd: "cycle_visit n inside g t visiting fin = Some (b, d)"
    "b \<longrightarrow> (\<exists>y. (y, y) \<in> ?R\<^sup>+)" "\<not> b \<longrightarrow> insert t fin \<subseteq> d \<and> settled ?R visiting d"
    using "3.IH"(1) "3.prems" by auto
  show ?case
  proof (cases b)
    case True
    then show ?thesis using bd by (intro exI [of _ True] exI [of _ d]) simp
  next
    case False
    obtain b' d' where bd': "cycle_targets n inside g ts visiting d = Some (b', d')"
      "b' \<longrightarrow> (\<exists>y. (y, y) \<in> ?R\<^sup>+)" "\<not> b' \<longrightarrow> set ts \<union> d \<subseteq> d' \<and> settled ?R visiting d'"
      using "3.IH"(2) [OF bd(1) refl] bd(3) False "3.prems" by auto
    then show ?thesis using bd False by (intro exI [of _ b'] exI [of _ d']) auto
  qed
qed auto

lemma contains_cycle_iff:
  "contains_cycle xs g = Some (\<exists>y. (y, y) \<in> (arcs g \<inter> set xs \<times> set xs)\<^sup>+)"
proof -
  let ?R = "arcs g \<inter> set xs \<times> set xs"
  have "card (set xs - {}) \<le> length xs" by (simp add: card_length)
  then obtain b d where bd: "cycle_targets (length xs) (set xs) g xs {} {} = Some (b, d)"
    "b \<longrightarrow> (\<exists>y. (y, y) \<in> ?R\<^sup>+)" "\<not> b \<longrightarrow> set xs \<union> {} \<subseteq> d \<and> settled ?R {} d"
    using cycle_search(2) [of xs "set xs" g "{}" "{}" "length xs"] by (auto simp: settled_def)
  have "b" if "(y, y) \<in> ?R\<^sup>+" for y
  proof -
    have "y \<in> set xs" using that by (metis IntD2 SigmaD1 tranclD)
    then show ?thesis using that bd(3) by (auto simp: settled_def)
  qed
  then show ?thesis using bd(1,2) by (auto simp: contains_cycle_def)
qed

end
