(* ===== verification/Graph_Tarjan.thy ===== *)
theory Graph_Tarjan
  imports Graph_Cycle
begin

text \<open>
  \<open>strongly_connected\<close> of \<open>graph/cycle.rs\<close> is Tarjan's algorithm.  The invariant says of a
  state, given the nodes whose visits are not finished (\<open>grey\<close>): what is on the stack is in
  the order of the indices; the components given out are strongly connected components and are
  closed; an unfinished node leads to everything above it; and a finished node on the stack
  leads to a node below it.
\<close>

section \<open>The invariant\<close>

abbreviation idx :: "tarjan \<Rightarrow> string \<Rightarrow> nat" where
  "idx st x \<equiv> the (tj_index st x)"

abbreviation seen :: "tarjan \<Rightarrow> string set" where
  "seen st \<equiv> dom (tj_index st)"

definition given :: "tarjan \<Rightarrow> string set" where
  "given st = set (concat (tj_output st))"

definition is_scc :: "(string \<times> string) set \<Rightarrow> string set \<Rightarrow> bool" where
  "is_scc E C \<longleftrightarrow> (\<exists>x \<in> C. C = {y. (x, y) \<in> E\<^sup>* \<and> (y, x) \<in> E\<^sup>*})"

definition stack_ok :: "tarjan \<Rightarrow> bool" where
  "stack_ok st \<longleftrightarrow> tj_on_stack st = set (tj_stack st)
     \<and> sorted_wrt (\<lambda>a b. idx st b < idx st a) (tj_stack st)
     \<and> seen st = set (tj_stack st) \<union> given st \<and> set (tj_stack st) \<inter> given st = {}
     \<and> (\<forall>x \<in> seen st. idx st x < tj_next st)"

definition output_ok :: "(string \<times> string) set \<Rightarrow> tarjan \<Rightarrow> bool" where
  "output_ok E st \<longleftrightarrow> distinct (concat (tj_output st)) \<and> (\<forall>c \<in> set (tj_output st). is_scc E (set c))
     \<and> E `` given st \<subseteq> given st"

definition grey_ok :: "(string \<times> string) set \<Rightarrow> string set \<Rightarrow> tarjan \<Rightarrow> bool" where
  "grey_ok E grey st \<longleftrightarrow> grey \<subseteq> set (tj_stack st)
     \<and> (\<forall>x \<in> grey. \<forall>y \<in> set (tj_stack st). idx st x \<le> idx st y \<longrightarrow> (x, y) \<in> E\<^sup>*)"

definition black_ok :: "(string \<times> string) set \<Rightarrow> string set \<Rightarrow> tarjan \<Rightarrow> bool" where
  "black_ok E grey st \<longleftrightarrow> (\<forall>y \<in> set (tj_stack st) - grey. E `` {y} \<subseteq> seen st
     \<and> (\<exists>z \<in> set (tj_stack st). idx st z < idx st y \<and> (y, z) \<in> E\<^sup>*))"

definition tarjan_inv :: "(string \<times> string) set \<Rightarrow> string set \<Rightarrow> tarjan \<Rightarrow> bool" where
  "tarjan_inv E grey st \<longleftrightarrow> stack_ok st \<and> output_ok E st \<and> grey_ok E grey st \<and> black_ok E grey st"

text \<open>What a visit leaves alone.\<close>

definition extends :: "string set \<Rightarrow> tarjan \<Rightarrow> tarjan \<Rightarrow> bool" where
  "extends changed st st' \<longleftrightarrow> tj_next st \<le> tj_next st' \<and> seen st \<subseteq> seen st'
     \<and> (\<forall>y \<in> seen st. tj_index st' y = tj_index st y \<and> (y \<notin> changed \<longrightarrow> tj_low st' y = tj_low st y))
     \<and> (\<forall>y \<in> seen st' - seen st. tj_next st \<le> idx st' y)"

lemma extends_refl: "extends c st st"
  by (simp add: extends_def)

lemma extends_trans:
  assumes "extends c st st'" "extends d st' st''" "c \<subseteq> e" "d \<inter> seen st \<subseteq> e"
  shows "extends e st st''"
proof -
  have a: "tj_next st \<le> tj_next st'" "seen st \<subseteq> seen st'"
    "\<And>y. y \<in> seen st \<Longrightarrow> tj_index st' y = tj_index st y"
    "\<And>y. y \<in> seen st \<Longrightarrow> y \<notin> c \<Longrightarrow> tj_low st' y = tj_low st y"
    "\<And>y. y \<in> seen st' \<Longrightarrow> y \<notin> seen st \<Longrightarrow> tj_next st \<le> idx st' y"
    using assms(1) by (simp_all add: extends_def)
  have b: "tj_next st' \<le> tj_next st''" "seen st' \<subseteq> seen st''"
    "\<And>y. y \<in> seen st' \<Longrightarrow> tj_index st'' y = tj_index st' y"
    "\<And>y. y \<in> seen st' \<Longrightarrow> y \<notin> d \<Longrightarrow> tj_low st'' y = tj_low st' y"
    "\<And>y. y \<in> seen st'' \<Longrightarrow> y \<notin> seen st' \<Longrightarrow> tj_next st' \<le> idx st'' y"
    using assms(2) by (simp_all add: extends_def)
  have "tj_index st'' y = tj_index st y" if "y \<in> seen st" for y
    using that a(2,3) b(3) by (metis subsetD)
  moreover have "tj_low st'' y = tj_low st y" if y: "y \<in> seen st" "y \<notin> e" for y
  proof -
    have "y \<notin> c" "y \<notin> d" "y \<in> seen st'" using y assms(3,4) a(2) by auto
    then show ?thesis using y a(4) b(4) by simp
  qed
  moreover have "tj_next st \<le> idx st'' y" if y: "y \<in> seen st''" "y \<notin> seen st" for y
  proof (cases "y \<in> seen st'")
    case True
    then show ?thesis using y a(5) b(3) by metis
  next
    case False
    then show ?thesis using y b(5) a(1) le_trans by blast
  qed
  ultimately show ?thesis
    using a(1,2) b(1,2) unfolding extends_def by (metis Diff_iff le_trans subset_trans)
qed

lemma extends_idx: "extends c st st' \<Longrightarrow> y \<in> seen st \<Longrightarrow> idx st' y = idx st y"
  by (simp add: extends_def)

lemma set_low_simps [simp]:
  "tj_index (set_low x l st) = tj_index st" "tj_stack (set_low x l st) = tj_stack st"
  "tj_next (set_low x l st) = tj_next st" "tj_on_stack (set_low x l st) = tj_on_stack st"
  "tj_output (set_low x l st) = tj_output st" "tj_low (set_low x l st) = (tj_low st)(x := Some l)"
  by (simp_all add: set_low_def)

lemma given_set_low [simp]: "given (set_low x l st) = given st"
  by (simp add: given_def)

lemma tarjan_inv_set_low [simp]: "tarjan_inv E grey (set_low x l st) = tarjan_inv E grey st"
  by (simp add: tarjan_inv_def stack_ok_def output_ok_def grey_ok_def black_ok_def)

lemma extends_set_low: "extends {x} st (set_low x l st)"
  by (simp add: extends_def)

section \<open>Entering a node\<close>

lemma enter_simps [simp]:
  "tj_next (enter x st) = tj_next st + 1" "tj_stack (enter x st) = x # tj_stack st"
  "tj_on_stack (enter x st) = insert x (tj_on_stack st)"
  "tj_index (enter x st) = (tj_index st)(x := Some (tj_next st))"
  "tj_low (enter x st) = (tj_low st)(x := Some (tj_next st))" "tj_output (enter x st) = tj_output st"
  "given (enter x st) = given st"
  by (simp_all add: enter_def given_def)

lemma extends_enter: "x \<notin> seen st \<Longrightarrow> extends {} st (enter x st)"
  by (auto simp: extends_def)

lemma enter_inv:
  assumes inv: "tarjan_inv E grey st" and x: "x \<notin> seen st" and grey: "\<forall>v \<in> grey. (v, x) \<in> E\<^sup>*"
  shows "tarjan_inv E (insert x grey) (enter x st)"
proof -
  have s: "set (tj_stack st) \<subseteq> seen st" "given st \<subseteq> seen st" "\<forall>y \<in> seen st. idx st y < tj_next st"
    using inv by (auto simp: tarjan_inv_def stack_ok_def)
  have old: "idx (enter x st) y = idx st y" if "y \<in> seen st" for y using x that by auto
  have new: "idx (enter x st) x = tj_next st" "seen (enter x st) = insert x (seen st)" by auto
  have st: "tj_on_stack st = set (tj_stack st)" "sorted_wrt (\<lambda>a b. idx st b < idx st a) (tj_stack st)"
    "seen st = set (tj_stack st) \<union> given st" "set (tj_stack st) \<inter> given st = {}"
    using inv by (simp_all add: tarjan_inv_def stack_ok_def)
  have "sorted_wrt (\<lambda>a b. idx (enter x st) b < idx (enter x st) a) (tj_stack st)"
    using st(2) by (rule sorted_wrt_mono_rel [rotated]) (metis s(1) old subsetD)
  moreover have "\<forall>y \<in> set (tj_stack st). idx (enter x st) y < tj_next st"
    using s(1,3) old by (metis subsetD)
  moreover have "\<forall>y \<in> seen (enter x st). idx (enter x st) y < tj_next (enter x st)"
    unfolding new(2) using s(3) old new(1) by (metis enter_simps(1) insertE less_SucI lessI Suc_eq_plus1)
  ultimately have "stack_ok (enter x st)"
    using st x s(2) new unfolding stack_ok_def by auto
  moreover have "output_ok E (enter x st)" using inv by (simp add: tarjan_inv_def output_ok_def)
  moreover have "grey_ok E (insert x grey) (enter x st)"
    unfolding grey_ok_def
  proof (intro conjI ballI impI)
    show "insert x grey \<subseteq> set (tj_stack (enter x st))"
      using inv by (auto simp: tarjan_inv_def grey_ok_def)
    fix u y
    assume u: "u \<in> insert x grey" "y \<in> set (tj_stack (enter x st))" "idx (enter x st) u \<le> idx (enter x st) y"
    show "(u, y) \<in> E\<^sup>*"
    proof (cases "y = x")
      case True
      then show ?thesis using u(1) grey by auto
    next
      case False
      then have y: "y \<in> set (tj_stack st)" "y \<in> seen st" using u(2) s(1) by auto
      then have "u \<noteq> x" using u(3) new(1) old s(3) by (metis not_le)
      moreover have "u \<in> seen st" if "u \<in> grey"
        using that inv s(1) by (auto simp: tarjan_inv_def grey_ok_def)
      ultimately show ?thesis using u y old inv unfolding tarjan_inv_def grey_ok_def by (metis insertE)
    qed
  qed
  moreover have "black_ok E (insert x grey) (enter x st)"
    unfolding black_ok_def
  proof
    fix y
    assume "y \<in> set (tj_stack (enter x st)) - insert x grey"
    then have y: "y \<in> set (tj_stack st) - grey" by auto
    then obtain z where z: "E `` {y} \<subseteq> seen st" "z \<in> set (tj_stack st)" "idx st z < idx st y" "(y, z) \<in> E\<^sup>*"
      using inv unfolding tarjan_inv_def black_ok_def by blast
    moreover have "y \<in> seen st" "z \<in> seen st" using y z(2) s(1) by auto
    ultimately show "E `` {y} \<subseteq> seen (enter x st)
        \<and> (\<exists>z \<in> set (tj_stack (enter x st)). idx (enter x st) z < idx (enter x st) y \<and> (y, z) \<in> E\<^sup>*)"
      unfolding new(2) by (intro conjI bexI [of _ z]) (use old in auto)
  qed
  ultimately show ?thesis by (simp add: tarjan_inv_def)
qed

section \<open>Finishing a node\<close>

lemma pop_until_append: "x \<notin> set seg \<Longrightarrow> pop_until x (seg @ x # below) = (seg @ [x], below)"
  by (induction seg) auto

lemma closed_rtrancl: "E `` A \<subseteq> A \<Longrightarrow> (x, y) \<in> E\<^sup>* \<Longrightarrow> x \<in> A \<Longrightarrow> y \<in> A"
  by (erule rtrancl_induct) auto

text \<open>The facts about a stack that has \<open>x\<close> at some depth.\<close>

lemma stack_split:
  assumes "stack_ok st" "tj_stack st = seg @ x # below"
  shows "distinct (seg @ x # below)" "\<forall>y \<in> set seg. idx st x < idx st y" "\<forall>y \<in> set below. idx st y < idx st x"
    "set seg \<union> {x} \<union> set below \<subseteq> seen st"
proof -
  have sorted: "sorted_wrt (\<lambda>a b. idx st b < idx st a) (seg @ x # below)"
    using assms by (simp add: stack_ok_def)
  then show "\<forall>y \<in> set seg. idx st x < idx st y" "\<forall>y \<in> set below. idx st y < idx st x"
    by (auto simp: sorted_wrt_append)
  have "distinct xs" if "sorted_wrt (\<lambda>a b. idx st b < idx st a) xs" for xs
    using that by (induction xs) auto
  then show "distinct (seg @ x # below)" using sorted by blast
  have "set (tj_stack st) \<subseteq> seen st" using assms(1) by (auto simp: stack_ok_def)
  then show "set seg \<union> {x} \<union> set below \<subseteq> seen st" using assms(2) by simp
qed

text \<open>When no edge leaves the segment above a root, the segment is a component.\<close>

lemma root_component:
  assumes inv: "tarjan_inv E (insert x grey) st" and stack: "tj_stack st = seg @ x # below"
    and grey: "grey \<subseteq> set below" and succ: "E `` {x} \<subseteq> seen st"
    and leave: "\<forall>z \<in> insert x (set seg). \<forall>y \<in> set below. (z, y) \<notin> E"
  shows "is_scc E (insert x (set seg))" "E `` (insert x (set seg) \<union> given st) \<subseteq> insert x (set seg) \<union> given st"
proof -
  let ?C = "insert x (set seg)"
  have st: "stack_ok st" "E `` given st \<subseteq> given st"
    using inv by (simp_all add: tarjan_inv_def output_ok_def)
  note sp = stack_split [OF st(1) stack]
  have seen: "seen st = ?C \<union> set below \<union> given st" "x \<notin> given st" "set seg \<inter> given st = {}"
    using st(1) stack by (auto simp: stack_ok_def)
  have black: "E `` {y} \<subseteq> seen st" "\<exists>z \<in> ?C \<union> set below. idx st z < idx st y \<and> (y, z) \<in> E\<^sup>*"
    if "y \<in> set seg" for y
  proof -
    have "y \<in> set (tj_stack st) - insert x grey" using that sp(1) grey by (auto simp: stack)
    then show "E `` {y} \<subseteq> seen st" "\<exists>z \<in> ?C \<union> set below. idx st z < idx st y \<and> (y, z) \<in> E\<^sup>*"
      using inv unfolding tarjan_inv_def black_ok_def by (simp_all add: stack)
  qed
  show closed: "E `` (?C \<union> given st) \<subseteq> ?C \<union> given st"
    using st(2) succ black(1) seen(1) leave by blast
  have up: "(x, y) \<in> E\<^sup>*" if "y \<in> ?C" for y
  proof (cases "y = x")
    case False
    then have "y \<in> set (tj_stack st)" "idx st x \<le> idx st y" using that sp(2) by (auto simp: stack)
    then show ?thesis using inv unfolding tarjan_inv_def grey_ok_def by blast
  qed simp
  have down: "(y, x) \<in> E\<^sup>*" if "y \<in> ?C" for y
    using that
  proof (induction "idx st y" arbitrary: y rule: less_induct)
    case less
    show ?case
    proof (cases "y = x")
      case False
      then obtain z where z: "z \<in> ?C \<union> set below" "idx st z < idx st y" "(y, z) \<in> E\<^sup>*"
        using less(2) black(2) by blast
      have "z \<in> ?C \<union> given st" using closed_rtrancl [OF closed z(3)] less(2) by blast
      moreover have "z \<notin> given st" using z(1) st(1) stack by (auto simp: stack_ok_def)
      ultimately have "(z, x) \<in> E\<^sup>*" using less(1) z(2) by blast
      then show ?thesis using z(3) by (rule rtrancl_trans [rotated])
    qed simp
  qed
  have "y \<in> ?C" if "(x, y) \<in> E\<^sup>*" "(y, x) \<in> E\<^sup>*" for y
  proof -
    have "y \<in> ?C \<union> given st" using closed_rtrancl [OF closed that(1)] by blast
    moreover have "y \<notin> given st" using closed_rtrancl [OF st(2) that(2)] seen(2) by blast
    ultimately show ?thesis by blast
  qed
  then have "?C = {y. (x, y) \<in> E\<^sup>* \<and> (y, x) \<in> E\<^sup>*}" using up down by blast
  then show "is_scc E ?C" unfolding is_scc_def by blast
qed

text \<open>
  \<open>bounded st l seg below\<close>: no edge from the segment to the stack below it ends before
  index \<open>l\<close>; \<open>rooted\<close>: \<open>l\<close> is the index of the node itself or of a node below that it leads to.
\<close>

definition bounded :: "(string \<times> string) set \<Rightarrow> tarjan \<Rightarrow> nat \<Rightarrow> string set \<Rightarrow> string list \<Rightarrow> bool" where
  "bounded E st l seg below \<longleftrightarrow> (\<forall>z \<in> seg. \<forall>y \<in> set below. (z, y) \<in> E \<longrightarrow> l \<le> idx st y)"

definition rooted :: "(string \<times> string) set \<Rightarrow> tarjan \<Rightarrow> string \<Rightarrow> nat \<Rightarrow> string list \<Rightarrow> bool" where
  "rooted E st x l below \<longleftrightarrow> l = idx st x \<or> (\<exists>y \<in> set below. idx st y = l \<and> (x, y) \<in> E\<^sup>*)"

lemma finish_grey:
  assumes "tarjan_inv E (insert x grey) st" "tj_stack st = seg @ x # below" "grey \<subseteq> set below"
    "E `` {x} \<subseteq> seen st" "rooted E st x l below" "l \<noteq> idx st x"
  shows "tarjan_inv E grey st"
proof -
  have st: "stack_ok st" using assms(1) by (simp add: tarjan_inv_def)
  note sp = stack_split [OF st assms(2)]
  obtain y where y: "y \<in> set below" "(x, y) \<in> E\<^sup>*" using assms(5,6) by (auto simp: rooted_def)
  have "black_ok E grey st"
    unfolding black_ok_def
  proof
    fix u
    assume u: "u \<in> set (tj_stack st) - grey"
    show "E `` {u} \<subseteq> seen st \<and> (\<exists>z \<in> set (tj_stack st). idx st z < idx st u \<and> (u, z) \<in> E\<^sup>*)"
    proof (cases "u = x")
      case True
      then show ?thesis using y sp(3) assms(2,4) by auto
    next
      case False
      then have "u \<in> set (tj_stack st) - insert x grey" using u by blast
      then show ?thesis using assms(1) unfolding tarjan_inv_def black_ok_def by blast
    qed
  qed
  moreover have "grey_ok E grey st" using assms(1) by (auto simp: tarjan_inv_def grey_ok_def)
  ultimately show ?thesis using assms(1) by (simp add: tarjan_inv_def)
qed

definition popped :: "tarjan \<Rightarrow> string list \<Rightarrow> string list \<Rightarrow> tarjan" where
  "popped st component below = st\<lparr>tj_stack := below, tj_on_stack := tj_on_stack st - set component,
     tj_output := tj_output st @ [sort component]\<rparr>"

lemma popped_simps [simp]:
  "tj_next (popped st c r) = tj_next st" "tj_stack (popped st c r) = r"
  "tj_index (popped st c r) = tj_index st" "tj_low (popped st c r) = tj_low st"
  "tj_on_stack (popped st c r) = tj_on_stack st - set c" "given (popped st c r) = given st \<union> set c"
  "tj_output (popped st c r) = tj_output st @ [sort c]"
  by (simp_all add: popped_def given_def)

lemma finish_root:
  assumes inv: "tarjan_inv E (insert x grey) st" and stack: "tj_stack st = seg @ x # below"
    and grey: "grey \<subseteq> set below" and succ: "E `` {x} \<subseteq> seen st"
    and leave: "\<forall>z \<in> insert x (set seg). \<forall>y \<in> set below. (z, y) \<notin> E"
  shows "tarjan_inv E grey (popped st (seg @ [x]) below)"
proof -
  let ?st = "popped st (seg @ [x]) below"
  have st: "stack_ok st" "output_ok E st" using inv by (simp_all add: tarjan_inv_def)
  note sp = stack_split [OF st(1) stack]
  note rc = root_component [OF assms]
  have C: "set (seg @ [x]) = insert x (set seg)" by simp
  have "stack_ok ?st"
    using st(1) sp(1) by (auto simp: stack_ok_def stack sorted_wrt_append)
  moreover have "output_ok E ?st"
  proof -
    have "set (concat (tj_output st)) \<inter> set (seg @ [x]) = {}"
      using st(1) by (auto simp: stack_ok_def stack given_def)
    then have "distinct (concat (tj_output ?st))"
      using st(2) sp(1) by (auto simp: output_ok_def)
    moreover have "\<forall>c \<in> set (tj_output ?st). is_scc E (set c)"
      using st(2) rc(1) by (auto simp: output_ok_def)
    moreover have "given ?st = insert x (set seg) \<union> given st" by auto
    ultimately show ?thesis using rc(2) unfolding output_ok_def by metis
  qed
  moreover have "grey_ok E grey ?st"
    using inv grey by (auto simp: tarjan_inv_def grey_ok_def stack)
  moreover have "black_ok E grey ?st"
    unfolding black_ok_def
  proof
    fix u
    assume u: "u \<in> set (tj_stack ?st) - grey"
    then have u': "u \<in> set (tj_stack st) - insert x grey" "idx st u < idx st x"
      using sp(1,3) by (auto simp: stack)
    then obtain z where z: "E `` {u} \<subseteq> seen st" "z \<in> set (tj_stack st)" "idx st z < idx st u" "(u, z) \<in> E\<^sup>*"
      using inv unfolding tarjan_inv_def black_ok_def by blast
    then have "z \<in> set below" using u'(2) sp(2) by (fastforce simp: stack)
    then show "E `` {u} \<subseteq> seen ?st \<and> (\<exists>z \<in> set (tj_stack ?st). idx ?st z < idx ?st u \<and> (u, z) \<in> E\<^sup>*)"
      using z by auto
  qed
  ultimately show ?thesis by (simp add: tarjan_inv_def)
qed

lemma close_root_spec:
  assumes inv: "tarjan_inv E (insert x grey) st" and stack: "tj_stack st = seg @ x # below"
    and grey: "grey \<subseteq> set below" and succ: "E `` {x} \<subseteq> seen st" and low: "tj_low st x = Some l"
    and bound: "bounded E st l (insert x (set seg)) below" and root: "rooted E st x l below"
  shows "\<exists>st' seg'. close_root x st = Some st' \<and> tarjan_inv E grey st' \<and> tj_stack st' = seg' @ below
    \<and> tj_index st' = tj_index st \<and> tj_low st' = tj_low st \<and> tj_next st' = tj_next st
    \<and> bounded E st l (set seg') below"
proof -
  have st: "stack_ok st" using inv by (simp add: tarjan_inv_def)
  note sp = stack_split [OF st stack]
  obtain i where i: "tj_index st x = Some i" using sp(4) by auto
  show ?thesis
  proof (cases "l = i")
    case True
    have "\<forall>z \<in> insert x (set seg). \<forall>y \<in> set below. (z, y) \<notin> E"
      using bound sp(3) i True unfolding bounded_def by (metis not_le option.sel)
    note fr = finish_root [OF inv stack grey succ this]
    have "close_root x st = Some (popped st (seg @ [x]) below)"
      using sp(1) low i True by (simp add: close_root_def stack pop_until_append popped_def)
    then show ?thesis using fr by (intro exI [of _ "popped st (seg @ [x]) below"] exI [of _ "[]"])
      (simp add: bounded_def)
  next
    case False
    then have "tarjan_inv E grey st" using finish_grey [OF inv stack grey succ root] i by simp
    moreover have "close_root x st = Some st" using low i False by (simp add: close_root_def)
    ultimately show ?thesis using stack bound
      by (intro exI [of _ st] exI [of _ "seg @ [x]"]) (simp add: bounded_def)
  qed
qed

section \<open>The visits\<close>

definition visit_post ::
  "(string \<times> string) set \<Rightarrow> string set \<Rightarrow> string set \<Rightarrow> string \<Rightarrow> tarjan \<Rightarrow> tarjan \<Rightarrow> bool" where
  "visit_post E U grey x st st' \<longleftrightarrow> tarjan_inv E grey st' \<and> extends {} st st' \<and> x \<in> seen st' \<and> seen st' \<subseteq> U
     \<and> (\<exists>seg l. tj_stack st' = seg @ tj_stack st \<and> tj_low st' x = Some l \<and> bounded E st l (set seg) (tj_stack st)
          \<and> (tj_next st \<le> l \<or> (\<exists>y \<in> set (tj_stack st). idx st y = l \<and> (x, y) \<in> E\<^sup>*)))"

definition loop_state ::
  "(string \<times> string) set \<Rightarrow> string set \<Rightarrow> string set \<Rightarrow> string \<Rightarrow> string list \<Rightarrow> nat \<Rightarrow> tarjan \<Rightarrow> bool" where
  "loop_state E U grey x below l st \<longleftrightarrow> tarjan_inv E grey st \<and> x \<in> grey \<and> seen st \<subseteq> U \<and> tj_low st x = Some l
     \<and> rooted E st x l below
     \<and> (\<exists>seg. tj_stack st = seg @ x # below \<and> bounded E st l (set seg) below)"

definition loop_post ::
  "(string \<times> string) set \<Rightarrow> string set \<Rightarrow> string set \<Rightarrow> string \<Rightarrow> string list \<Rightarrow> string list \<Rightarrow> nat \<Rightarrow> tarjan \<Rightarrow> tarjan \<Rightarrow> bool"
  where
  "loop_post E U grey x below ts l st st' \<longleftrightarrow> extends {x} st st' \<and> set ts \<subseteq> seen st'
     \<and> (\<exists>l'. loop_state E U grey x below l' st' \<and> l' \<le> l \<and> (\<forall>t \<in> set ts \<inter> set below. l' \<le> idx st' t))"

lemma loop_stateD:
  assumes "loop_state E U grey x below l st"
  shows "set (x # below) \<subseteq> set (tj_stack st)" "set (tj_stack st) \<subseteq> seen st"
    "\<forall>y \<in> set below. idx st y < idx st x" "l \<le> idx st x"
    "y \<in> set (tj_stack st) \<Longrightarrow> idx st y < idx st x \<Longrightarrow> y \<in> set below"
    "idx st x < tj_next st"
proof -
  obtain seg where seg: "tj_stack st = seg @ x # below" and ok: "stack_ok st"
    using assms by (auto simp: loop_state_def tarjan_inv_def)
  note sp = stack_split [OF ok seg]
  show "set (x # below) \<subseteq> set (tj_stack st)" "set (tj_stack st) \<subseteq> seen st"
    using sp(4) by (auto simp: seg)
  show "\<forall>y \<in> set below. idx st y < idx st x" by (fact sp(3))
  then show "l \<le> idx st x" using assms by (auto simp: loop_state_def rooted_def intro: less_imp_le)
  show "y \<in> set (tj_stack st) \<Longrightarrow> idx st y < idx st x \<Longrightarrow> y \<in> set below"
    using sp(2) by (fastforce simp: seg)
  show "idx st x < tj_next st" using ok sp(4) by (auto simp: stack_ok_def)
qed

lemma low_invariant_set_low [simp]:
  "rooted E (set_low y k st) x l below = rooted E st x l below"
  "bounded E (set_low y k st) l seg below = bounded E st l seg below"
  by (simp_all add: rooted_def bounded_def)

lemma bounded_min: "bounded E st l seg below \<Longrightarrow> bounded E st (min l m) seg below"
  by (auto simp: bounded_def min_le_iff_disj)

text \<open>Lowering the low link of \<open>x\<close> to an index that some successor justifies.\<close>

lemma loop_state_lower:
  assumes "loop_state E U grey x below l st" "m < l \<longrightarrow> (\<exists>y \<in> set (tj_stack st). idx st y = m \<and> (x, y) \<in> E\<^sup>*)"
  shows "loop_state E U grey x below (min l m) (set_low x (min l m) st)"
proof -
  have "rooted E st x (min l m) below"
  proof (cases "m < l")
    case True
    then obtain y where y: "y \<in> set (tj_stack st)" "idx st y = m" "(x, y) \<in> E\<^sup>*" using assms(2) by blast
    then have "y \<in> set below" using loop_stateD(4,5) [OF assms(1)] True by auto
    then show ?thesis using y True by (auto simp: rooted_def min_def)
  qed (use assms(1) in \<open>auto simp: loop_state_def min_def\<close>)
  then show ?thesis
    using assms(1) by (auto simp: loop_state_def intro: bounded_min)
qed

lemma loop_post_Cons:
  assumes "loop_state E U grey x below l st" "extends {x} st st1" "t \<in> seen st1" "l1 \<le> l"
    "t \<in> set below \<longrightarrow> l1 \<le> idx st t" "loop_post E U grey x below ts l1 st1 st'"
  shows "loop_post E U grey x below (t # ts) l st st'"
proof -
  obtain l' where p: "extends {x} st1 st'" "set ts \<subseteq> seen st'" "loop_state E U grey x below l' st'" "l' \<le> l1"
    "\<forall>t \<in> set ts \<inter> set below. l' \<le> idx st' t"
    using assms(6) by (auto simp: loop_post_def)
  have e: "extends {x} st st'" using extends_trans [OF assms(2) p(1)] by blast
  have "t \<in> set below \<longrightarrow> l' \<le> idx st' t"
    using assms(5) p(4) extends_idx [OF e] loop_stateD(1,2) [OF assms(1)] by fastforce
  moreover have "t \<in> seen st'" using assms(3) p(1) by (auto simp: extends_def)
  ultimately show ?thesis using p e assms(4) unfolding loop_post_def by (intro conjI exI [of _ l']) auto
qed

text \<open>A visit below \<open>x\<close> keeps the loop's state.\<close>

lemma loop_state_visit:
  assumes "loop_state E U grey x below l st" "visit_post E U grey t st st1" "(x, t) \<in> E" "tj_low st1 t = Some m"
  shows "loop_state E U grey x below (min l m) (set_low x (min l m) st1)" "tj_low st1 x = Some l"
proof -
  have v: "tarjan_inv E grey st1" "extends {} st st1" "seen st1 \<subseteq> U" using assms(2) by (auto simp: visit_post_def)
  obtain seg1 where seg1: "tj_stack st1 = seg1 @ tj_stack st" "bounded E st m (set seg1) (tj_stack st)"
    "tj_next st \<le> m \<or> (\<exists>y \<in> set (tj_stack st). idx st y = m \<and> (t, y) \<in> E\<^sup>*)"
    using assms(2,4) by (auto simp: visit_post_def)
  note d = loop_stateD [OF assms(1)]
  obtain seg where seg: "tj_stack st = seg @ x # below" "bounded E st l (set seg) below"
    using assms(1) by (auto simp: loop_state_def)
  have same: "idx st1 y = idx st y" if "y \<in> set (tj_stack st)" for y
    using that extends_idx [OF v(2)] d(2) by blast
  have x: "x \<in> set (tj_stack st)" and below: "set below \<subseteq> set (tj_stack st)" using d(1) by auto
  show low: "tj_low st1 x = Some l"
    using v(2) x d(2) assms(1) by (auto simp: extends_def loop_state_def)
  have rooted: "rooted E st1 x (min l m) below"
  proof (cases "m < l")
    case True
    then obtain y where y: "y \<in> set (tj_stack st)" "idx st y = m" "(t, y) \<in> E\<^sup>*"
      using seg1(3) d(4,6) by auto
    then have "y \<in> set below" "(x, y) \<in> E\<^sup>*"
      using d(4,5) True assms(3) by (auto intro: converse_rtrancl_into_rtrancl)
    then show ?thesis using y True same by (auto simp: rooted_def min_def)
  next
    case False
    then have "min l m = l" by simp
    moreover have "rooted E st x l below" using assms(1) by (simp add: loop_state_def)
    ultimately show ?thesis using same x below unfolding rooted_def by (metis subsetD)
  qed
  have "bounded E st1 (min l m) (set (seg1 @ seg)) below"
    using seg1(2) seg(2) same below unfolding bounded_def seg(1) by (auto simp: min_le_iff_disj)
  then show "loop_state E U grey x below (min l m) (set_low x (min l m) st1)"
    using v assms(1) seg1(1) seg(1) rooted
    by (auto simp: loop_state_def intro!: exI [of _ "seg1 @ seg"])
qed

lemma card_seen_insert: "x \<in> U - S \<Longrightarrow> finite U \<Longrightarrow> card (U - S) \<le> Suc n \<Longrightarrow> card (U - insert x S) \<le> n"
  by (metis Diff_insert card_Diff_singleton diff_le_mono diff_Suc_1 One_nat_def)

lemma enter_loop_state:
  assumes "tarjan_inv E grey st" "x \<in> U - seen st" "seen st \<subseteq> U" "\<forall>v \<in> grey. (v, x) \<in> E\<^sup>*"
  shows "loop_state E U (insert x grey) x (tj_stack st) (tj_next st) (enter x st)"
  using enter_inv [OF assms(1) _ assms(4)] assms(2,3)
  by (auto simp: loop_state_def rooted_def bounded_def intro!: exI [of _ "[]"])

lemma visit_correct:
  fixes g
  defines "E \<equiv> arcs g"
  assumes U: "finite U" "E `` U \<subseteq> U"
  shows "tarjan_inv E grey st \<Longrightarrow> x \<in> U - seen st \<Longrightarrow> seen st \<subseteq> U \<Longrightarrow> (\<forall>v \<in> grey. (v, x) \<in> E\<^sup>*) \<Longrightarrow>
      card (U - seen st) \<le> n \<Longrightarrow> \<exists>st'. visit n g x st = Some st' \<and> visit_post E U grey x st st'"
    and "loop_state E U grey x below l st \<Longrightarrow> (\<forall>v \<in> grey. (v, x) \<in> E\<^sup>*) \<Longrightarrow> set ts \<subseteq> E `` {x} \<inter> U \<Longrightarrow>
      card (U - seen st) \<le> n \<Longrightarrow>
      \<exists>st'. visit_targets n g x ts st = Some st' \<and> loop_post E U grey x below ts l st st'"
  using U unfolding E_def
proof (induction n g x st and n g x ts st arbitrary: grey and grey below l rule: visit_visit_targets.induct)
  case (1 g x st)
  then show ?case by (metis card_0_eq Diff_empty emptyE finite_Diff le_zero_eq)
next
  case (2 n g x st)
  let ?E = "arcs g"
  let ?st1 = "enter x st"
  have x: "x \<in> U" "x \<notin> seen st" using "2.prems"(2) by auto
  have loop: "loop_state ?E U (insert x grey) x (tj_stack st) (tj_next st) ?st1"
    using enter_loop_state "2.prems"(1-4) by blast
  have ts: "set (targets g x) = ?E `` {x}" by (auto simp: arcs_def)
  have card: "card (U - seen ?st1) \<le> n"
    using card_seen_insert [OF "2.prems"(2,6,5)] by simp
  have path: "\<forall>v \<in> insert x grey. (v, x) \<in> ?E\<^sup>*" using "2.prems"(4) by simp
  have sub: "set (targets g x) \<subseteq> ?E `` {x} \<inter> U" using "2.prems"(7) ts x(1) by blast
  then obtain st2 where st2: "visit_targets n g x (targets g x) ?st1 = Some st2"
    "loop_post ?E U (insert x grey) x (tj_stack st) (targets g x) (tj_next st) ?st1 st2"
    using "2.IH" [OF loop path sub card "2.prems"(6,7)] by blast
  obtain l where l: "extends {x} ?st1 st2" "?E `` {x} \<subseteq> seen st2"
    "loop_state ?E U (insert x grey) x (tj_stack st) l st2" "\<forall>t \<in> ?E `` {x} \<inter> set (tj_stack st). l \<le> idx st2 t"
    using st2(2) unfolding loop_post_def ts by blast
  obtain seg where seg: "tj_stack st2 = seg @ x # tj_stack st" "bounded ?E st2 l (set seg) (tj_stack st)"
    "tarjan_inv ?E (insert x grey) st2" "tj_low st2 x = Some l" "rooted ?E st2 x l (tj_stack st)" "seen st2 \<subseteq> U"
    using l(3) by (auto simp: loop_state_def)
  have "grey \<subseteq> set (tj_stack st)" using "2.prems"(1) by (simp add: tarjan_inv_def grey_ok_def)
  moreover have "bounded ?E st2 l (insert x (set seg)) (tj_stack st)"
    using seg(2) l(4) by (auto simp: bounded_def)
  ultimately obtain st3 seg3 where st3: "close_root x st2 = Some st3" "tarjan_inv ?E grey st3"
    "tj_stack st3 = seg3 @ tj_stack st" "tj_index st3 = tj_index st2" "tj_low st3 = tj_low st2"
    "tj_next st3 = tj_next st2" "bounded ?E st2 l (set seg3) (tj_stack st)"
    using close_root_spec [OF seg(3,1) _ l(2) seg(4) _ seg(5)] by blast
  have e2: "extends {} st st2"
    by (rule extends_trans [OF extends_enter [OF x(2)] l(1)]) (use x(2) in auto)
  have e: "extends {} st st3" using e2 st3(4-6) by (simp add: extends_def)
  have same: "idx st2 y = idx st y" if "y \<in> set (tj_stack st)" for y
    using that extends_idx [OF e2] "2.prems"(1) by (auto simp: tarjan_inv_def stack_ok_def)
  have "idx st2 x = tj_next st" using extends_idx [OF l(1), of x] by simp
  then have "tj_next st \<le> l \<or> (\<exists>y \<in> set (tj_stack st). idx st y = l \<and> (x, y) \<in> ?E\<^sup>*)"
    using seg(5) same by (auto simp: rooted_def)
  moreover have "bounded ?E st l (set seg3) (tj_stack st)" using st3(7) same by (auto simp: bounded_def)
  moreover have "x \<in> seen st3" using seg(4) loop_stateD(1,2) [OF l(3)] st3(4) by auto
  ultimately have "visit_post ?E U grey x st st3"
    using st3 e seg(4,6) by (auto simp: visit_post_def)
  then show ?case using st2(1) st3(1) by simp
next
  case (3 n g x st)
  then show ?case by (auto simp: loop_post_def extends_refl)
next
  case (4 n g x t ts st)
  let ?E = "arcs g"
  have t: "(x, t) \<in> ?E" "t \<in> U" "set ts \<subseteq> ?E `` {x} \<inter> U" using "4.prems"(3) by auto
  have inv: "tarjan_inv ?E grey st" "x \<in> grey" "seen st \<subseteq> U" and low: "tj_low st x = Some l"
    using "4.prems"(1) by (auto simp: loop_state_def)
  note d = loop_stateD [OF "4.prems"(1)]
  have path: "(v, t) \<in> ?E\<^sup>*" if "v \<in> grey" for v
    using that "4.prems"(2) t(1) by (meson rtrancl.rtrancl_into_rtrancl)
  show ?case
  proof (cases "tj_index st t")
    case None
    then have "t \<in> U - seen st" using t(2) by auto
    then obtain st1 where st1: "visit n g t st = Some st1" "visit_post ?E U grey t st st1"
      using "4.IH"(1) [OF None inv(1) _ inv(3) _ "4.prems"(4-6)] path by blast
    then obtain m where m: "tj_low st1 t = Some m" by (auto simp: visit_post_def)
    note v = loop_state_visit [OF "4.prems"(1) st1(2) t(1) m]
    let ?st2 = "set_low x (min l m) st1"
    have e: "extends {x} st st1" "t \<in> seen st1" using st1(2) by (auto simp: visit_post_def extends_def)
    have e2: "extends {x} st ?st2" by (rule extends_trans [OF e(1) extends_set_low]) auto
    have "card (U - seen ?st2) \<le> n"
      using "4.prems"(4,5) e(1) by (auto simp: extends_def intro: order_trans [OF card_mono])
    then obtain st' where st': "visit_targets n g x ts ?st2 = Some st'"
      "loop_post ?E U grey x below ts (min l m) ?st2 st'"
      using "4.IH"(2) [OF None st1(1) v(2) m v(1) "4.prems"(2) t(3) _ "4.prems"(5,6)] by blast
    have "t \<notin> set below" using None d(1,2) by auto
    then have "loop_post ?E U grey x below (t # ts) l st st'"
      using e(2) by (intro loop_post_Cons [OF "4.prems"(1) e2 _ _ _ st'(2)]) auto
    then show ?thesis using None st1(1) v(2) m st'(1) by simp
  next
    case (Some i)
    show ?thesis
    proof (cases "t \<in> tj_on_stack st")
      case True
      let ?st2 = "set_low x (min l i) st"
      have "t \<in> set (tj_stack st)" using True inv(1) by (simp add: tarjan_inv_def stack_ok_def)
      then have ls: "loop_state ?E U grey x below (min l i) ?st2"
        using Some t(1) by (intro loop_state_lower [OF "4.prems"(1)] impI bexI [of _ t]) auto
      obtain st' where st': "visit_targets n g x ts ?st2 = Some st'"
        "loop_post ?E U grey x below ts (min l i) ?st2 st'"
        using "4.IH"(3) [OF Some True low ls "4.prems"(2) t(3) _ "4.prems"(5,6)] "4.prems"(4) by auto
      have "loop_post ?E U grey x below (t # ts) l st st'"
        using Some by (intro loop_post_Cons [OF "4.prems"(1) extends_set_low _ _ _ st'(2)]) auto
      then show ?thesis using Some True low st'(1) by simp
    next
      case False
      obtain st' where st': "visit_targets n g x ts st = Some st'" "loop_post ?E U grey x below ts l st st'"
        using "4.IH"(4) [OF Some False "4.prems"(1,2) t(3) "4.prems"(4-6)] by blast
      have "t \<notin> set below" using False d(1) inv(1) by (auto simp: tarjan_inv_def stack_ok_def)
      then have "loop_post ?E U grey x below (t # ts) l st st'"
        using Some by (intro loop_post_Cons [OF "4.prems"(1) extends_refl _ _ _ st'(2)]) auto
      then show ?thesis using Some False st'(1) by simp
    qed
  qed
qed

section \<open>Strongly connected components\<close>

lemma no_grey_stack:
  assumes "tarjan_inv E {} st"
  shows "tj_stack st = []"
proof (rule ccontr)
  assume "tj_stack st \<noteq> []"
  then have "Min (idx st ` set (tj_stack st)) \<in> idx st ` set (tj_stack st)" by (intro Min_in) simp_all
  then obtain y where y: "Min (idx st ` set (tj_stack st)) = idx st y" "y \<in> set (tj_stack st)" by (rule imageE)
  have least: "idx st y \<le> idx st z" if "z \<in> set (tj_stack st)" for z
    unfolding y(1) [symmetric] using that by (intro Min_le) simp_all
  obtain z where "z \<in> set (tj_stack st)" "idx st z < idx st y"
    using assms y(2) unfolding tarjan_inv_def black_ok_def by blast
  then show False using least [of z] by simp
qed

lemma visit_all_correct:
  assumes U: "finite U" "arcs g `` U \<subseteq> U" "card U \<le> n"
  shows "tarjan_inv (arcs g) {} st \<Longrightarrow> seen st \<subseteq> U \<Longrightarrow> set xs \<subseteq> U \<Longrightarrow>
    \<exists>st'. visit_all n g xs st = Some st' \<and> tarjan_inv (arcs g) {} st' \<and> set xs \<union> seen st \<subseteq> seen st' \<and> seen st' \<subseteq> U"
proof (induction xs arbitrary: st)
  case (Cons x xs)
  show ?case
  proof (cases "tj_index st x")
    case None
    then have "x \<in> U - seen st" using Cons.prems(3) by auto
    moreover have "card (U - seen st) \<le> n" using U(1,3) by (meson Diff_subset card_mono le_trans)
    ultimately obtain st1 where st1: "visit n g x st = Some st1" "visit_post (arcs g) U {} x st st1"
      using visit_correct(1) [OF U(1,2) Cons.prems(1) _ Cons.prems(2)] by blast
    then have "tarjan_inv (arcs g) {} st1" "seen st1 \<subseteq> U" "insert x (seen st) \<subseteq> seen st1"
      by (auto simp: visit_post_def extends_def)
    note st1 = st1(1) this
    obtain st' where st': "visit_all n g xs st1 = Some st'" "tarjan_inv (arcs g) {} st'"
      "set xs \<union> seen st1 \<subseteq> seen st'" "seen st' \<subseteq> U"
      using Cons.IH [OF st1(2,3)] Cons.prems(3) by auto
    have "set (x # xs) \<union> seen st \<subseteq> seen st'" unfolding list.set using st1(4) st'(3) by blast
    then show ?thesis using st1(1) st'(1,2,4) None by simp
  next
    case (Some i)
    then have x: "x \<in> seen st" by auto
    obtain st' where st': "visit_all n g xs st = Some st'" "tarjan_inv (arcs g) {} st'"
      "set xs \<union> seen st \<subseteq> seen st'" "seen st' \<subseteq> U"
      using Cons.IH [OF Cons.prems(1,2)] Cons.prems(3) by auto
    have "set (x # xs) \<union> seen st \<subseteq> seen st'" unfolding list.set using x st'(3) by blast
    then show ?thesis using st'(1,2,4) Some by simp
  qed
qed simp

lemma start_inv: "tarjan_inv E {} start_tarjan"
  by (simp add: start_tarjan_def tarjan_inv_def stack_ok_def output_ok_def grey_ok_def black_ok_def given_def)

definition node_ids :: "'llm graph_node list \<Rightarrow> string set" where
  "node_ids ns = node_id ` set ns"

lemma reachable_closed: "E `` (E\<^sup>* `` A) \<subseteq> E\<^sup>* `` A"
  by (auto intro: rtrancl.rtrancl_into_rtrancl)

lemma reachable_card:
  "finite ((edge_rel edges)\<^sup>* `` node_ids ns)"
  "card ((edge_rel edges)\<^sup>* `` node_ids ns) \<le> length ns + length edges"
proof -
  let ?T = "node_id ` set ns \<union> all_targets edges"
  have "y \<in> ?T" if "(x, y) \<in> (edge_rel edges)\<^sup>*" "x \<in> node_ids ns" for x y
    using that by (induction rule: rtrancl_induct) (auto simp: node_ids_def all_targets_def edge_rel_def)
  then have sub: "(edge_rel edges)\<^sup>* `` node_ids ns \<subseteq> ?T" by blast
  have fin: "finite ?T" by (simp add: all_targets_def)
  show "finite ((edge_rel edges)\<^sup>* `` node_ids ns)" using sub fin by (rule finite_subset)
  have "card ?T \<le> card (node_id ` set ns) + card (all_targets edges)" by (rule card_Un_le)
  also have "\<dots> \<le> length ns + length edges"
    unfolding all_targets_def by (intro add_mono) (meson List.finite_set card_image_le card_length le_trans)+
  finally show "card ((edge_rel edges)\<^sup>* `` node_ids ns) \<le> length ns + length edges"
    using card_mono [OF fin sub] by linarith
qed

lemma strongly_connected_result:
  "\<exists>cs. strongly_connected (length ns + length edges) ns (adjacency ns edges) = Some cs
    \<and> distinct (concat cs) \<and> (\<forall>c \<in> set cs. is_scc (edge_rel edges) (set c))
    \<and> set (concat cs) = (edge_rel edges)\<^sup>* `` node_ids ns"
proof -
  let ?g = "adjacency ns edges"
  let ?E = "edge_rel edges"
  let ?U = "?E\<^sup>* `` node_ids ns"
  let ?n = "length ns + length edges"
  have "\<exists>st. visit_all ?n ?g (map node_id ns) start_tarjan = Some st \<and> tarjan_inv (arcs ?g) {} st
      \<and> set (map node_id ns) \<union> seen start_tarjan \<subseteq> seen st \<and> seen st \<subseteq> ?U"
  proof (rule visit_all_correct)
    show "finite ?U" "card ?U \<le> ?n" by (rule reachable_card)+
    show "arcs ?g `` ?U \<subseteq> ?U" unfolding arcs_adjacency by (rule reachable_closed)
    show "tarjan_inv (arcs ?g) {} start_tarjan" by (rule start_inv)
  qed (auto simp: start_tarjan_def node_ids_def)
  then obtain st where st: "visit_all ?n ?g (map node_id ns) start_tarjan = Some st" "tarjan_inv ?E {} st"
    "node_ids ns \<subseteq> seen st" "seen st \<subseteq> ?U"
    by (auto simp: arcs_adjacency node_ids_def)
  have seen: "seen st = given st"
    using no_grey_stack [OF st(2)] st(2) by (simp add: tarjan_inv_def stack_ok_def)
  have "?U \<subseteq> given st"
    using st(2,3) seen closed_rtrancl [of ?E "given st"] by (auto simp: tarjan_inv_def output_ok_def)
  then show ?thesis
    using st seen by (auto simp: strongly_connected_def tarjan_inv_def output_ok_def given_def)
qed

lemma is_scc_member:
  assumes "is_scc E C" "x \<in> C"
  shows "C = {y. (x, y) \<in> E\<^sup>* \<and> (y, x) \<in> E\<^sup>*}"
proof -
  obtain r where r: "C = {y. (r, y) \<in> E\<^sup>* \<and> (y, r) \<in> E\<^sup>*}" using assms(1) by (auto simp: is_scc_def)
  then have x: "(r, x) \<in> E\<^sup>*" "(x, r) \<in> E\<^sup>*" using assms(2) by auto
  show ?thesis unfolding r using x by (auto intro: rtrancl_trans)
qed

text \<open>
  C3: the search for strongly connected components (Tarjan's algorithm with indices, low links
  and a stack) ends and is correct on every graph: it gives each strongly connected component of
  the nodes that can be reached from the graph's nodes, and no node twice.
\<close>
theorem strongly_connected_components:
  "\<exists>cs. strongly_connected (length ns + length edges) ns (adjacency ns edges) = Some cs
    \<and> distinct (concat cs) \<and> set (concat cs) = (edge_rel edges)\<^sup>* `` node_ids ns
    \<and> set ` set cs = {{y. (x, y) \<in> (edge_rel edges)\<^sup>* \<and> (y, x) \<in> (edge_rel edges)\<^sup>*} | x. x \<in> set (concat cs)}"
proof -
  let ?E = "edge_rel edges"
  obtain cs where cs: "strongly_connected (length ns + length edges) ns (adjacency ns edges) = Some cs"
    "distinct (concat cs)" "\<forall>c \<in> set cs. is_scc ?E (set c)" "set (concat cs) = ?E\<^sup>* `` node_ids ns"
    using strongly_connected_result by blast
  have scc: "set c = {y. (x, y) \<in> ?E\<^sup>* \<and> (y, x) \<in> ?E\<^sup>*}" if "c \<in> set cs" "x \<in> set c" for c x
    using that cs(3) is_scc_member by blast
  have ne: "\<exists>x. x \<in> set c" if "c \<in> set cs" for c
    using that cs(3) unfolding is_scc_def by blast
  have "set ` set cs = {{y. (x, y) \<in> ?E\<^sup>* \<and> (y, x) \<in> ?E\<^sup>*} | x. x \<in> set (concat cs)}" (is "?L = ?R")
  proof
    show "?L \<subseteq> ?R" using scc ne by fastforce
    show "?R \<subseteq> ?L" using scc by (auto simp: image_iff)
  qed
  then show ?thesis using cs by blast
qed

end
