(* ===== verification/Graph_Guards.thy ===== *)
theory Graph_Guards
  imports Graph_Tarjan
begin

text \<open>
  What \<open>validate_cycles\<close> decides: that the routers with a visit or time limit cut every cycle,
  and that the limit routes of these routers leave their cycles.
\<close>

definition guard_ids :: "'llm graph_node list \<Rightarrow> string set" where
  "guard_ids ns = {i. \<exists>nd. find_node ns i = Some nd \<and> is_guarded_router nd}"

definition limit_edges :: "'llm graph_node list \<Rightarrow> graph_edge list \<Rightarrow> graph_edge set" where
  "limit_edges ns edges = {e \<in> set edges. \<exists>nd. find_node ns (from_node (edge_from e)) = Some nd
     \<and> is_guarded_router nd \<and> from_output (edge_from e) \<in> set (limit_outputs nd)}"

section \<open>Cycles and components\<close>

lemma trancl_in_scc:
  assumes "(x, y) \<in> R\<^sup>+" "(y, x) \<in> E\<^sup>*" "R \<subseteq> E" "is_scc E C" "x \<in> C"
  shows "(x, y) \<in> (R \<inter> C \<times> C)\<^sup>+"
proof -
  have C: "C = {y. (x, y) \<in> E\<^sup>* \<and> (y, x) \<in> E\<^sup>*}" using is_scc_member assms(4,5) by blast
  have step: "(a, b) \<in> R \<Longrightarrow> (a, b) \<in> E\<^sup>*" for a b using assms(3) by blast
  show ?thesis using assms(1,2)
  proof (induction rule: trancl_induct)
    case (base y)
    then have "y \<in> C" unfolding C using step by blast
    then show ?case using base assms(5) by blast
  next
    case (step y z)
    have "(y, x) \<in> E\<^sup>*" using step.hyps(2) step.prems assms(3) by (meson converse_rtrancl_into_rtrancl subsetD)
    then have xy: "(x, y) \<in> (R \<inter> C \<times> C)\<^sup>+" by (rule step.IH)
    then have "y \<in> C" by (metis IntD2 SigmaD2 tranclD2)
    then have xy': "(x, y) \<in> E\<^sup>*" unfolding C by simp
    have "(x, z) \<in> E\<^sup>*" using xy' step.hyps(2) assms(3) by (meson rtrancl.rtrancl_into_rtrancl subsetD)
    then have "z \<in> C" unfolding C using step.prems by simp
    then show ?case using xy \<open>y \<in> C\<close> step.hyps(2) by (meson IntI SigmaI trancl.trancl_into_trancl)
  qed
qed

lemma cyclic_component:
  assumes "is_scc E (set c)" "distinct c" "E = arcs g"
  shows "length c > 1 \<or> (case g (hd c) of None \<Rightarrow> False | Some ts \<Rightarrow> hd c \<in> set ts)
    \<longleftrightarrow> (\<exists>x \<in> set c. (x, x) \<in> E\<^sup>+)"
proof -
  obtain x xs where c: "c = x # xs" using assms(1) by (cases c) (auto simp: is_scc_def)
  have C: "set c = {y. (x, y) \<in> E\<^sup>* \<and> (y, x) \<in> E\<^sup>*}"
    using is_scc_member [OF assms(1), of x] c by simp
  have loop: "(case g (hd c) of None \<Rightarrow> False | Some ts \<Rightarrow> hd c \<in> set ts) \<longleftrightarrow> (x, x) \<in> E"
    by (auto simp: c assms(3) arcs_def targets_def split: option.splits)
  show ?thesis
  proof (cases xs)
    case Nil
    have "(x, x) \<in> E" if x: "(x, x) \<in> E\<^sup>+"
    proof -
      obtain y where y: "(x, y) \<in> E" "(y, x) \<in> E\<^sup>*" using tranclD [OF x] by blast
      then have "y \<in> set c" unfolding C by auto
      then show ?thesis using y c Nil by simp
    qed
    then show ?thesis unfolding loop by (auto simp: c Nil)
  next
    case (Cons y ys)
    then have "y \<in> set c" "y \<noteq> x" using assms(2) c by auto
    then have "(x, y) \<in> E\<^sup>+" "(y, x) \<in> E\<^sup>+" unfolding C by (auto simp: rtrancl_eq_or_trancl)
    then have "(x, x) \<in> E\<^sup>+" by (rule trancl_trans)
    then show ?thesis by (auto simp: c Cons)
  qed
qed

section \<open>One component\<close>

lemma guarded_filter:
  "set (filter (\<lambda>i. case find_node ns i of None \<Rightarrow> False | Some nd \<Rightarrow> is_guarded_router nd) c) = set c \<inter> guard_ids ns"
  by (auto simp: guard_ids_def split: option.splits)

lemma guard_issues_Nil:
  assumes "guard \<in> guard_ids ns"
  shows "guard_issues ns edges c guard = []
    \<longleftrightarrow> (\<forall>e \<in> limit_edges ns edges. from_node (edge_from e) = guard \<longrightarrow> to_node (edge_to e) \<notin> set c)"
proof -
  obtain nd where nd: "find_node ns guard = Some nd" "is_guarded_router nd"
    using assms by (auto simp: guard_ids_def)
  have "e \<in> limit_edges ns edges \<and> from_node (edge_from e) = guard
      \<longleftrightarrow> e \<in> set edges \<and> from_node (edge_from e) = guard \<and> from_output (edge_from e) \<in> set (limit_outputs nd)" for e
    using nd by (auto simp: limit_edges_def)
  moreover have "guard_issues ns edges c guard = [] \<longleftrightarrow> (\<forall>e. e \<in> set edges \<and> from_node (edge_from e) = guard
      \<and> from_output (edge_from e) \<in> set (limit_outputs nd) \<longrightarrow> to_node (edge_to e) \<notin> set c)"
    unfolding guard_issues_def nd(1) option.case concat_eq_Nil_conv set_map ball_simps push_if_Nil
      not_not list_all_iff set_filter by blast
  ultimately show ?thesis by metis
qed

lemma component_issues_Nil:
  assumes "is_scc E (set c)" "distinct c" "E = arcs g"
  shows "\<exists>is. component_issues ns edges g c = Some is
    \<and> (is = [] \<longleftrightarrow> \<not> (\<exists>y. (y, y) \<in> (E \<inter> (set c - guard_ids ns) \<times> (set c - guard_ids ns))\<^sup>+)
        \<and> ((\<exists>x \<in> set c. (x, x) \<in> E\<^sup>+) \<longrightarrow>
             (\<forall>e \<in> limit_edges ns edges. from_node (edge_from e) \<in> set c \<longrightarrow> to_node (edge_to e) \<notin> set c)))"
proof -
  let ?G = "guard_ids ns"
  let ?guarded = "filter (\<lambda>i. case find_node ns i of None \<Rightarrow> False | Some nd \<Rightarrow> is_guarded_router nd) c"
  let ?remaining = "filter (\<lambda>i. i \<notin> set ?guarded) c"
  let ?cyclic = "\<exists>x \<in> set c. (x, x) \<in> E\<^sup>+"
  let ?free = "\<not> (\<exists>y. (y, y) \<in> (E \<inter> (set c - ?G) \<times> (set c - ?G))\<^sup>+)"
  have rem: "set ?remaining = set c - ?G" by (subst set_filter, subst guarded_filter) blast
  have acyclic: ?free if "\<not> ?cyclic"
  proof
    assume "\<exists>y. (y, y) \<in> (E \<inter> (set c - ?G) \<times> (set c - ?G))\<^sup>+"
    then obtain y where y: "(y, y) \<in> (E \<inter> (set c - ?G) \<times> (set c - ?G))\<^sup>+" ..
    then have "(y, y) \<in> E\<^sup>+" by (rule trancl_mono) blast
    moreover have "y \<in> set c" using y by (metis DiffD1 IntD2 SigmaD1 tranclD)
    ultimately show False using that by blast
  qed
  have leave: "(\<forall>g \<in> set ?guarded. guard_issues ns edges c g = [])
      \<longleftrightarrow> (\<forall>e \<in> limit_edges ns edges. from_node (edge_from e) \<in> set c \<longrightarrow> to_node (edge_to e) \<notin> set c)"
  proof -
    have "from_node (edge_from e) \<in> ?G" if "e \<in> limit_edges ns edges" for e
      using that by (auto simp: limit_edges_def guard_ids_def)
    then show ?thesis unfolding guarded_filter by (metis IntD1 IntD2 IntI guard_issues_Nil)
  qed
  note cyc = cyclic_component [OF assms]
  consider "\<not> ?cyclic" | "?cyclic" "?guarded = []" | "?cyclic" "?guarded \<noteq> []" by blast
  then show ?thesis
  proof cases
    case 1
    then have "component_issues ns edges g c = Some []"
      using cyc by (auto simp: component_issues_def Let_def)
    then show ?thesis using 1 acyclic by simp
  next
    case 2
    then have issues: "component_issues ns edges g c = Some [component_issue ''cycle_without_router_guard'' c]"
      using cyc by (auto simp: component_issues_def Let_def)
    obtain x where x: "x \<in> set c" "(x, x) \<in> E\<^sup>+" using 2 by blast
    have "set c \<inter> ?G = {}" using 2(2) guarded_filter [of ns c] by simp
    then have "set c - ?G = set c" by blast
    moreover have "(x, x) \<in> (E \<inter> set c \<times> set c)\<^sup>+"
      using x by (intro trancl_in_scc [OF _ _ subset_refl assms(1)]) auto
    ultimately show ?thesis unfolding issues by auto
  next
    case 3
    have "contains_cycle ?remaining g = Some (\<not> ?free)"
      unfolding contains_cycle_iff rem assms(3) by simp
    then have issues: "component_issues ns edges g c = Some (push_if (\<not> ?free) (component_issue ''cycle_bypasses_router_guard'' c)
        @ concat (map (guard_issues ns edges c) ?guarded))"
      using 3 cyc by (auto simp: component_issues_def Let_def)
    show ?thesis unfolding issues using 3(1) leave by (intro exI conjI) (rule refl, auto)
  qed
qed

section \<open>The whole check\<close>

lemma components_issues_Nil:
  assumes "\<forall>c \<in> set cs. \<exists>is. component_issues ns edges g c = Some is \<and> (is = [] \<longleftrightarrow> P c)"
  shows "\<exists>is. components_issues ns edges g cs = Some is \<and> (is = [] \<longleftrightarrow> (\<forall>c \<in> set cs. P c))"
  using assms by (induction cs) auto

lemma validate_cycles_result:
  "\<exists>is cs. validate_cycles ns edges = Some is \<and> set (concat cs) = (edge_rel edges)\<^sup>* `` node_ids ns
    \<and> (\<forall>c \<in> set cs. is_scc (edge_rel edges) (set c))
    \<and> (is = [] \<longleftrightarrow> (\<forall>c \<in> set cs.
         \<not> (\<exists>y. (y, y) \<in> (edge_rel edges \<inter> (set c - guard_ids ns) \<times> (set c - guard_ids ns))\<^sup>+)
         \<and> ((\<exists>x \<in> set c. (x, x) \<in> (edge_rel edges)\<^sup>+) \<longrightarrow>
             (\<forall>e \<in> limit_edges ns edges. from_node (edge_from e) \<in> set c \<longrightarrow> to_node (edge_to e) \<notin> set c))))"
proof -
  let ?E = "edge_rel edges"
  obtain cs where cs: "strongly_connected (length ns + length edges) ns (adjacency ns edges) = Some cs"
    "distinct (concat cs)" "\<forall>c \<in> set cs. is_scc ?E (set c)" "set (concat cs) = ?E\<^sup>* `` node_ids ns"
    using strongly_connected_result by blast
  have "distinct c" if "c \<in> set cs" for c using cs(2) that by (simp add: distinct_concat_iff)
  then have "\<forall>c \<in> set cs. \<exists>is. component_issues ns edges (adjacency ns edges) c = Some is \<and> (is = [] \<longleftrightarrow>
      \<not> (\<exists>y. (y, y) \<in> (?E \<inter> (set c - guard_ids ns) \<times> (set c - guard_ids ns))\<^sup>+)
      \<and> ((\<exists>x \<in> set c. (x, x) \<in> ?E\<^sup>+) \<longrightarrow>
          (\<forall>e \<in> limit_edges ns edges. from_node (edge_from e) \<in> set c \<longrightarrow> to_node (edge_to e) \<notin> set c)))"
    using cs(3) by (intro ballI component_issues_Nil) (auto simp: arcs_adjacency)
  from components_issues_Nil [OF this] obtain issues where
    i: "components_issues ns edges (adjacency ns edges) cs = Some issues" and
    nil: "issues = [] \<longleftrightarrow> (\<forall>c \<in> set cs.
      \<not> (\<exists>y. (y, y) \<in> (?E \<inter> (set c - guard_ids ns) \<times> (set c - guard_ids ns))\<^sup>+)
      \<and> ((\<exists>x \<in> set c. (x, x) \<in> ?E\<^sup>+) \<longrightarrow>
          (\<forall>e \<in> limit_edges ns edges. from_node (edge_from e) \<in> set c \<longrightarrow> to_node (edge_to e) \<notin> set c)))"
    by blast
  have "validate_cycles ns edges = Some issues" using cs(1) i by (simp add: validate_cycles_def Let_def)
  then show ?thesis
    by (intro exI [of _ issues] exI [of _ cs] conjI cs(3,4) nil)
qed

text \<open>The conditions on the components are conditions on the whole graph.\<close>

lemma free_components:
  assumes scc: "\<forall>c \<in> set cs. is_scc E (set c)" and comp: "\<And>x y. (x, y) \<in> E \<Longrightarrow> \<exists>c \<in> set cs. x \<in> set c"
  shows "(\<forall>c \<in> set cs. \<not> (\<exists>y. (y, y) \<in> (E \<inter> (set c - G) \<times> (set c - G))\<^sup>+))
    \<longleftrightarrow> (\<forall>y. (y, y) \<notin> (E \<inter> (- G) \<times> (- G))\<^sup>+)"
proof (intro iffI allI notI ballI)
  fix y
  assume a: "\<forall>c \<in> set cs. \<not> (\<exists>y. (y, y) \<in> (E \<inter> (set c - G) \<times> (set c - G))\<^sup>+)"
    and y: "(y, y) \<in> (E \<inter> (- G) \<times> (- G))\<^sup>+"
  then obtain c where c: "c \<in> set cs" "y \<in> set c" using comp by (metis IntD1 tranclD)
  have "E \<inter> (- G) \<times> (- G) \<subseteq> E" by blast
  from trancl_in_scc [OF y rtrancl_refl this scc [rule_format, OF c(1)] c(2)]
  have "(y, y) \<in> (E \<inter> (set c - G) \<times> (set c - G))\<^sup>+" by (rule trancl_mono) blast
  then show False using a c(1) by blast
next
  fix c
  assume a: "\<forall>y. (y, y) \<notin> (E \<inter> (- G) \<times> (- G))\<^sup>+"
    and "\<exists>y. (y, y) \<in> (E \<inter> (set c - G) \<times> (set c - G))\<^sup>+"
  then obtain y where "(y, y) \<in> (E \<inter> (set c - G) \<times> (set c - G))\<^sup>+" by blast
  then have "(y, y) \<in> (E \<inter> (- G) \<times> (- G))\<^sup>+" by (rule trancl_mono) blast
  then show False using a by blast
qed

lemma leave_components:
  assumes scc: "\<forall>c \<in> set cs. is_scc E (set c)" and comp: "\<And>x y. (x, y) \<in> E \<Longrightarrow> \<exists>c \<in> set cs. x \<in> set c"
    and arcs: "\<And>e. e \<in> L \<Longrightarrow> (q e, t e) \<in> E"
  shows "(\<forall>c \<in> set cs. (\<exists>x \<in> set c. (x, x) \<in> E\<^sup>+) \<longrightarrow> (\<forall>e \<in> L. q e \<in> set c \<longrightarrow> t e \<notin> set c))
    \<longleftrightarrow> (\<forall>e \<in> L. (t e, q e) \<notin> E\<^sup>*)"
proof (intro iffI ballI impI notI)
  fix e
  assume a: "\<forall>c \<in> set cs. (\<exists>x \<in> set c. (x, x) \<in> E\<^sup>+) \<longrightarrow> (\<forall>e \<in> L. q e \<in> set c \<longrightarrow> t e \<notin> set c)"
    and e: "e \<in> L" "(t e, q e) \<in> E\<^sup>*"
  obtain c where c: "c \<in> set cs" "q e \<in> set c" using comp arcs e(1) by blast
  have "t e \<in> set c" using is_scc_member [of E "set c" "q e"] c scc arcs [OF e(1)] e(2) by blast
  moreover have "(q e, q e) \<in> E\<^sup>+" using arcs [OF e(1)] e(2) by (meson rtrancl_into_trancl2)
  ultimately show False using a c e(1) by blast
next
  fix c e
  assume "\<forall>e \<in> L. (t e, q e) \<notin> E\<^sup>*" "c \<in> set cs" "e \<in> L" "q e \<in> set c" "t e \<in> set c"
  then show False using scc is_scc_member [of E "set c" "t e"] by blast
qed

text \<open>
  The cycle check ends on every graph and every set of edges, with a list of issues: neither
  the search for components nor the search for a cycle inside one runs out of nodes to mark or
  reads an absent index.
\<close>
theorem validate_cycles_terminates: "\<exists>is. validate_cycles ns edges = Some is"
  using validate_cycles_result [of ns edges] by blast

lemma cycle_check:
  assumes "\<forall>e \<in> set edges. from_node (edge_from e) \<in> node_ids ns"
  shows "validate_cycles ns edges = Some [] \<longleftrightarrow>
    (\<forall>y. (y, y) \<notin> (edge_rel edges \<inter> (- guard_ids ns) \<times> (- guard_ids ns))\<^sup>+)
    \<and> (\<forall>e \<in> limit_edges ns edges. (to_node (edge_to e), from_node (edge_from e)) \<notin> (edge_rel edges)\<^sup>*)"
proof -
  let ?E = "edge_rel edges" and ?G = "guard_ids ns"
  obtain "is" cs where v: "validate_cycles ns edges = Some is" "set (concat cs) = ?E\<^sup>* `` node_ids ns"
    "\<forall>c \<in> set cs. is_scc ?E (set c)"
    "is = [] \<longleftrightarrow> (\<forall>c \<in> set cs. \<not> (\<exists>y. (y, y) \<in> (?E \<inter> (set c - ?G) \<times> (set c - ?G))\<^sup>+)
         \<and> ((\<exists>x \<in> set c. (x, x) \<in> ?E\<^sup>+) \<longrightarrow>
             (\<forall>e \<in> limit_edges ns edges. from_node (edge_from e) \<in> set c \<longrightarrow> to_node (edge_to e) \<notin> set c)))"
    using validate_cycles_result [of ns edges] by blast
  have comp: "\<exists>c \<in> set cs. x \<in> set c" if "(x, y) \<in> ?E" for x y
  proof -
    have "x \<in> node_ids ns" using that assms by (auto simp: edge_rel_def)
    then have "x \<in> set (concat cs)" unfolding v(2) by blast
    then show ?thesis by auto
  qed
  have arcs: "(from_node (edge_from e), to_node (edge_to e)) \<in> ?E" if "e \<in> limit_edges ns edges" for e
    using that by (auto simp: limit_edges_def edge_rel_def)
  have "is = [] \<longleftrightarrow> (\<forall>y. (y, y) \<notin> (?E \<inter> (- ?G) \<times> (- ?G))\<^sup>+)
      \<and> (\<forall>e \<in> limit_edges ns edges. (to_node (edge_to e), from_node (edge_from e)) \<notin> ?E\<^sup>*)"
    unfolding v(4) ball_conj_distrib
    by (intro arg_cong2 [where f = conj] free_components leave_components v(3) comp arcs)
  then show ?thesis unfolding v(1) option.inject .
qed

text \<open>
  C2: on a graph whose edges start at its nodes, the cycle check reports nothing exactly when
  every cycle of edges passes a router with a visit or time limit and every edge taken on such a
  limit leads to a node from which the router cannot be reached again.
\<close>
theorem cycles_guarded:
  assumes "\<forall>e \<in> set edges. from_node (edge_from e) \<in> node_ids ns"
  shows "validate_cycles ns edges = Some [] \<longleftrightarrow>
    (\<forall>y. (y, y) \<notin> (edge_rel edges \<inter> (- guard_ids ns) \<times> (- guard_ids ns))\<^sup>+)
    \<and> (\<forall>e \<in> limit_edges ns edges. (to_node (edge_to e), from_node (edge_from e)) \<notin> (edge_rel edges)\<^sup>*)"
  using assms by (rule cycle_check)

section \<open>A concrete loop\<close>

text \<open>An agent loop: a router with a visit limit sends a value back to a node, or out on the limit.\<close>

definition sample_edge :: "string \<Rightarrow> string \<Rightarrow> string \<Rightarrow> graph_edge" where
  "sample_edge a port b = \<lparr>edge_id = a @ b, edge_from = \<lparr>from_node = a, from_output = port\<rparr>,
     edge_to = \<lparr>to_node = b, to_input = ''in''\<rparr>\<rparr>"

definition sample_node :: "string \<Rightarrow> unit node_kind \<Rightarrow> unit graph_node" where
  "sample_node i k = \<lparr>node_id = i, node_name = None, is_entry = False, inputs = [], outputs = [],
     timeout_ms = None, node_retry_policy = None, kind = k\<rparr>"

definition loop_router :: "nat option \<Rightarrow> router_config" where
  "loop_router visits = \<lparr>dsl_version = ''router-dsl-v1'', rules = [], router_match_mode = First,
     default_outputs = Some [''again''], payload_port = None, router_memory = None,
     router_limits_of = Some (default_router_limits\<lparr>max_visits_per_run := visits,
       on_limit_outputs := Some [''done'']\<rparr>)\<rparr>"

definition loop_nodes :: "nat option \<Rightarrow> unit graph_node list" where
  "loop_nodes visits = [sample_node ''a'' (NMerge Any), sample_node ''o'' (NOutput ''k''),
     sample_node ''r'' (NRouter (loop_router visits))]"

definition loop_edges :: "graph_edge list" where
  "loop_edges = [sample_edge ''a'' ''default'' ''r'', sample_edge ''r'' ''again'' ''a'',
     sample_edge ''r'' ''done'' ''o'']"

lemma loop_checks: "validate_cycles (loop_nodes (Some 3)) loop_edges = Some []"
  "map_option (map issue_code) (validate_cycles (loop_nodes None) loop_edges) = Some [''cycle_without_router_guard'']"
  by code_simp+

lemma cycles_guarded_witness:
  "\<not> (\<exists>e \<in> limit_edges (loop_nodes (Some 3)) loop_edges.
       (to_node (edge_to e), from_node (edge_from e)) \<in> (edge_rel loop_edges)\<^sup>*)"
proof -
  have "\<forall>e \<in> set loop_edges. from_node (edge_from e) \<in> node_ids (loop_nodes (Some 3))"
    by (simp add: loop_edges_def loop_nodes_def sample_edge_def sample_node_def node_ids_def)
  from cycles_guarded [OF this] loop_checks(1) show ?thesis by blast
qed

end
