(* ===== verification/Graph_Apply.thy ===== *)
theory Graph_Apply
  imports Graph_Guards
begin

text \<open>
  \<open>apply_graph_with_dependencies\<close> of \<open>graph/apply.rs\<close>: the normalisation and validation of a
  draft, and the graph it applies.  The LLM configuration is the type parameter \<open>'llm\<close>; what
  is done with it, the schema compiler and the serialisation derived for the definition are
  fields of the record \<open>apply_env\<close>.
\<close>

section \<open>The code\<close>

definition OPERATION_TAXONOMY_VERSION :: nat where "OPERATION_TAXONOMY_VERSION = 1"
definition ADAPTER_DECODER_VERSION :: nat where "ADAPTER_DECODER_VERSION = 1"

record 'llm apply_env =
  ae_serde :: serde
  ae_sha :: "string \<Rightarrow> string"
  ae_selectors :: selector_lib
  ae_compile :: "json_schema_spec \<Rightarrow> domain_error + schema_compilation"
    \<comment> \<open>\<open>schema::compile\<close>\<close>
  ae_llm :: "nat \<Rightarrow> nat \<Rightarrow> 'llm graph_node \<Rightarrow> 'llm graph_node \<times> validation_issue list"
    \<comment> \<open>\<open>normalize_llm_node\<close> with its dependencies\<close>
  ae_llm_schema :: "'llm \<Rightarrow> json_schema_spec option"
    \<comment> \<open>the schema of a JSON output\<close>
  ae_encode :: "'llm applied_definition \<Rightarrow> json"

definition option_list :: "'a option \<Rightarrow> 'a list" where
  "option_list x = (case x of None \<Rightarrow> [] | Some a \<Rightarrow> [a])"

definition node_schemas :: "('llm \<Rightarrow> json_schema_spec option) \<Rightarrow> 'llm graph_node \<Rightarrow> json_schema_spec list" where
  "node_schemas llm_schema nd =
     concat (map (option_list \<circ> in_schema) (inputs nd))
     @ concat (map (option_list \<circ> out_schema) (outputs nd))
     @ (case kind nd of NLlm config \<Rightarrow> option_list (llm_schema config) | _ \<Rightarrow> [])"

fun compile_loop ::
  "(json_schema_spec \<Rightarrow> domain_error + schema_compilation) \<Rightarrow> string set \<Rightarrow> json_schema_spec list \<Rightarrow>
     schema_compilation list \<times> validation_issue list" where
  "compile_loop compile known [] = ([], [])"
| "compile_loop compile known (spec # specs) =
     (case compile spec of
        Inr c \<Rightarrow>
          if schema_hash c \<in> known then compile_loop compile known specs
          else (case compile_loop compile (insert (schema_hash c) known) specs of (cs, is) \<Rightarrow> (c # cs, is))
      | Inl (SchemaValidation found) \<Rightarrow>
          (case compile_loop compile known specs of (cs, is) \<Rightarrow> (cs, found @ is))
      | Inl _ \<Rightarrow>
          (case compile_loop compile known specs of (cs, is) \<Rightarrow>
             (cs, issue_error ''schema_compile_failed'' ''/'' [] # is)))"

definition compile_schemas ::
  "'llm apply_env \<Rightarrow> 'llm graph_node list \<Rightarrow> json_schema_spec option \<Rightarrow> output_contract_entry list \<Rightarrow>
     schema_compilation list \<times> validation_issue list" where
  "compile_schemas env ns run_input contracts =
     compile_loop (ae_compile env) {}
       (option_list run_input @ concat (map (node_schemas (ae_llm_schema env)) ns)
        @ concat (map (option_list \<circ> contract_schema) contracts))"

definition semantic_digest :: "schema_compilation \<Rightarrow> schema_semantic_digest" where
  "semantic_digest c =
     \<lparr>sd_canonical_document_hash = canonical_document_hash c, sd_schema_hash = schema_hash c,
      sd_compiler_id = compiler_id c, sd_compiler_version = compiler_version c,
      sd_payload_format_version = payload_format_version c,
      sd_compiled_payload_hash = compiled_payload_hash c\<rparr>"

text \<open>The issues and the results of the steps up to the schemas.\<close>

record 'llm checked =
  ck_limits :: run_limits
  ck_nodes :: "'llm graph_node list"
  ck_edges :: "graph_edge list"
  ck_warnings :: "validation_issue list"
  ck_schemas :: "schema_compilation list"
  ck_issues :: "validation_issue list"

definition check_draft ::
  "'llm apply_env \<Rightarrow> 'llm graph_draft \<Rightarrow> nat \<Rightarrow> nat \<Rightarrow> (domain_error + 'llm checked) option" where
  "check_draft env draft taxonomy decoder =
     (let versions = push_if (taxonomy \<noteq> OPERATION_TAXONOMY_VERSION)
              (graph_issue ''unsupported_operation_taxonomy'' ''/operationTaxonomyVersion'')
            @ push_if (decoder \<noteq> ADAPTER_DECODER_VERSION)
              (graph_issue ''unsupported_adapter_decoder'' ''/adapterDecoderVersion'');
          (limits, limit_issues) = normalize_limits (dg_limits draft);
          normalized = map normalize_node (dg_nodes draft);
          llm = map (ae_llm env taxonomy decoder) (map fst normalized);
          ns = map fst llm
      in case normalize_edges (ae_serde env) (ae_sha env) (dg_edges draft) of
           Inl e \<Rightarrow> Some (Inl e)
         | Inr (edges, id_issues) \<Rightarrow>
             Option.bind (validate_cycles ns edges) (\<lambda>cycle_issues.
             Option.bind (unreachable_warnings ns edges) (\<lambda>warnings.
             let (schemas, schema_issues) =
                   compile_schemas env ns (dg_run_input_schema draft) (dg_output_contract draft)
             in Some (Inr \<lparr>ck_limits = limits, ck_nodes = ns, ck_edges = edges, ck_warnings = warnings,
                  ck_schemas = schemas,
                  ck_issues = versions @ limit_issues @ concat (map snd normalized) @ concat (map snd llm)
                    @ validate_nodes (ae_serde env) ns limits @ validate_selectors (ae_selectors env) ns
                    @ id_issues @ validate_edges ns edges
                    @ validate_outputs ns (dg_output_contract draft) @ cycle_issues @ schema_issues\<rparr>))))"

definition applied_of ::
  "'llm graph_draft \<Rightarrow> nat \<Rightarrow> nat \<Rightarrow> 'llm checked \<Rightarrow> 'llm applied_definition" where
  "applied_of draft taxonomy decoder ck =
     \<lparr>ad_schema_version = 1, ad_graph_id = dg_graph_id draft, ad_operation_taxonomy_version = taxonomy,
      ad_adapter_decoder_version = decoder, ad_nodes = ck_nodes ck, ad_edges = ck_edges ck,
      ad_run_input_schema = dg_run_input_schema draft, ad_output_contract = dg_output_contract draft,
      ad_limits = ck_limits ck,
      ad_schema_semantics = sort_key sd_schema_hash (map semantic_digest (ck_schemas ck))\<rparr>"

definition apply_graph ::
  "'llm apply_env \<Rightarrow> 'llm graph_draft \<Rightarrow> nat \<Rightarrow> nat \<Rightarrow> (domain_error + 'llm applied_graph) option" where
  "apply_graph env draft taxonomy decoder =
     map_option (\<lambda>r. bindR r (\<lambda>ck.
       if ck_issues ck \<noteq> [] then Inl (GraphValidation (ck_issues ck))
       else let d = applied_of draft taxonomy decoder ck in
         bindR (canonical_hash (ae_serde env) (ae_sha env) (ae_encode env d)) (\<lambda>h.
           Inr \<lparr>ag_definition = d, ag_content_hash = h, ag_schemas = ck_schemas ck,
                ag_warnings = sort_key issue_path (ck_warnings ck)\<rparr>)))
       (check_draft env draft taxonomy decoder)"

end
