(* ===== verification/Router_Eval.thy ===== *)
theory Router_Eval
  imports Router_Grammar "HOL-Library.Sublist"
begin

text \<open>
  \<open>crates/core/src/router/eval.rs\<close>: the evaluator of router expressions.  The fuel of the
  expression and of the activation is an explicit state that every operation threads; an error
  keeps the fuel left at that moment, as \<open>&mut ActivationFuel\<close> does.  The second half
  gives the language its meaning independently of fuel, as a relation between an expression,
  its value and its cost, and shows that the evaluator implements it exactly.
\<close>

section \<open>The code\<close>

definition EXPRESSION_FUEL :: nat where "EXPRESSION_FUEL = 10000"
definition ACTIVATION_FUEL :: nat where "ACTIVATION_FUEL = 50000"
definition MAX_RESOLVED_BYTES :: nat where "MAX_RESOLVED_BYTES = 1024 * 1024"

record environment =
  env_inputs :: router_value
  env_memory :: router_value
  env_control :: router_value

definition environment_from_json :: "serde \<Rightarrow> json \<Rightarrow> json \<Rightarrow> json \<Rightarrow> router_code + environment" where
  "environment_from_json sd inputs memory control =
     bindR (of_optionR ValueTooLarge
       (Option.bind (encoded_len sd inputs) (\<lambda>l. Option.bind (encoded_len sd memory) (\<lambda>r. checked_add_u64 l r))))
       (\<lambda>resolved_bytes.
     if resolved_bytes > MAX_RESOLVED_BYTES then Inl ValueTooLarge
     else bindR (from_json inputs) (\<lambda>i. bindR (from_json memory) (\<lambda>m. bindR (from_json control) (\<lambda>c.
       Inr \<lparr>env_inputs = i, env_memory = m, env_control = c\<rparr>))))"

record fuel =
  expression_fuel :: nat
  activation_fuel :: nat

definition activation_fuel_new :: "nat \<Rightarrow> nat" where
  "activation_fuel_new limit = min limit ACTIVATION_FUEL"

type_synonym 'a ev = "fuel \<Rightarrow> (router_code + 'a) \<times> fuel"

definition liftE :: "router_code + 'a \<Rightarrow> 'a ev" where
  "liftE r s = (r, s)"

definition bindE :: "'a ev \<Rightarrow> ('a \<Rightarrow> 'b ev) \<Rightarrow> 'b ev" where
  "bindE m f s = (case m s of (Inl e, s) \<Rightarrow> (Inl e, s) | (Inr a, s) \<Rightarrow> f a s)"

abbreviation okE :: "'a \<Rightarrow> 'a ev" where "okE a \<equiv> liftE (Inr a)"
abbreviation failE :: "router_code \<Rightarrow> 'a ev" where "failE e \<equiv> liftE (Inl e)"

lemma bindE_cong [fundef_cong]:
  "m s = n s \<Longrightarrow> s = t \<Longrightarrow> (\<And>a u. n t = (Inr a, u) \<Longrightarrow> f a u = g a u) \<Longrightarrow> bindE m f s = bindE n g t"
  by (auto simp: bindE_def split: prod.splits sum.splits)

fun mapE :: "('a \<Rightarrow> 'b ev) \<Rightarrow> 'a list \<Rightarrow> 'b list ev" where
  "mapE f [] s = okE [] s"
| "mapE f (x # xs) s = bindE (f x) (\<lambda>y. bindE (mapE f xs) (\<lambda>ys. okE (y # ys))) s"

lemma mapE_cong [fundef_cong]:
  "xs = ys \<Longrightarrow> s = t \<Longrightarrow> (\<And>x u. x \<in> set ys \<Longrightarrow> f x u = g x u) \<Longrightarrow> mapE f xs s = mapE g ys t"
proof (induction xs arbitrary: ys s t)
  case (Cons x xs)
  from Cons.prems(1)[symmetric] show ?case
    using Cons.prems(2,3) Cons.IH [of xs] by (auto intro!: bindE_cong)
qed simp

definition charge :: "nat \<Rightarrow> unit ev" where
  "charge cost s =
     (if expression_fuel s < cost \<or> activation_fuel s < cost then (Inl ComplexityExceeded, s)
      else (Inr (), s\<lparr>expression_fuel := expression_fuel s - cost,
                      activation_fuel := activation_fuel s - cost\<rparr>))"

fun eval_literal :: "literal \<Rightarrow> router_code + router_value" where
  "eval_literal LNull = Inr VNull"
| "eval_literal (LBool b) = Inr (VBool b)"
| "eval_literal (LString s) =
     (if length s \<le> ROUTER_MAX_STRING_BYTES then Inr (VString s) else Inl ValueTooLarge)"
| "eval_literal (LNumber n) = bindR (parse_number n) (\<lambda>x. Inr (VNumber x))"

fun access :: "router_value \<Rightarrow> access_key \<Rightarrow> router_code + router_value" where
  "access (VObject m) (KField f) = Inr (case om_get m f of None \<Rightarrow> VMissing | Some v \<Rightarrow> v)"
| "access (VList vs) (KIndex i) =
     (if 0 \<le> i \<and> nat i < length vs then Inr (vs ! nat i) else Inl IndexOutOfRange)"
| "access VMissing _ = Inl MissingValue"
| "access VNull _ = Inl TypeError"
| "access _ (KField _) = Inl TypeError"
| "access _ (KIndex _) = Inl TypeError"

definition sum_lengths :: "string \<Rightarrow> string \<Rightarrow> router_code + nat" where
  "sum_lengths l r = of_optionR ComplexityExceeded (checked_add_u64 (length l) (length r))"

function structural_equal :: "router_value \<Rightarrow> router_value \<Rightarrow> bool" where
  "structural_equal l r =
     (case (l, r) of
        (VNumber a, VNumber b) \<Rightarrow> number_compare a b = Equal
      | (VList a, VList b) \<Rightarrow>
          length a = length b \<and> list_all (\<lambda>(x, y). structural_equal x y) (zip a b)
      | (VObject a, VObject b) \<Rightarrow>
          length a = length b
          \<and> list_all (\<lambda>(k, x). case om_get b k of None \<Rightarrow> False | Some y \<Rightarrow> structural_equal x y) a
      | _ \<Rightarrow> l = r)"
  by pat_completeness auto
termination
proof (relation "measure (\<lambda>(l, _). size l)", goal_cases)
  case (2 l r _ _ a b z x y)
  then have "x \<in> set a" by (auto dest: set_zip_leftD)
  then have "size x \<le> size_list size a"
    by (simp add: size_list_estimation')
  with 2 show ?case by auto
next
  case (3 l r _ _ a b z k x y)
  then have "(k, x) \<in> set a" by simp
  then have "size x \<le> size_list (size_prod (\<lambda>_. 0) size) a"
    by (rule size_list_estimation') simp
  with 3 show ?case by auto
qed simp

declare structural_equal.simps [simp del]

text \<open>Lists and objects: the deep cost of both sides is paid before the comparison.\<close>

definition deep_equal :: "router_value \<Rightarrow> router_value \<Rightarrow> bool ev" where
  "deep_equal l r =
     bindE (liftE (of_optionR ComplexityExceeded
       (Option.bind (deep_cost l) (\<lambda>c. Option.bind (deep_cost r) (\<lambda>d. checked_add_u64 c d)))))
       (\<lambda>cost. bindE (charge cost) (\<lambda>_. okE (structural_equal l r)))"

definition eval_equal :: "router_value \<Rightarrow> router_value \<Rightarrow> bool ev" where
  "eval_equal l r =
     (if l = VMissing \<or> r = VMissing then failE MissingValue
      else case (l, r) of
        (VString a, VString b) \<Rightarrow>
          bindE (liftE (sum_lengths a b)) (\<lambda>c. bindE (charge c) (\<lambda>_. okE (a = b)))
      | (VList _, VList _) \<Rightarrow> deep_equal l r
      | (VObject _, VObject _) \<Rightarrow> deep_equal l r
      | (VNumber a, VNumber b) \<Rightarrow> okE (number_compare a b = Equal)
      | _ \<Rightarrow> okE (l = r))"

definition eval_order :: "router_value \<Rightarrow> router_value \<Rightarrow> ordering ev" where
  "eval_order l r =
     (if l = VMissing \<or> r = VMissing then failE MissingValue
      else case (l, r) of
        (VNumber a, VNumber b) \<Rightarrow> okE (number_compare a b)
      | (VString a, VString b) \<Rightarrow>
          bindE (liftE (sum_lengths a b)) (\<lambda>c. bindE (charge c) (\<lambda>_. okE (cmp a b)))
      | _ \<Rightarrow> failE TypeError)"

fun contains_loop :: "router_value \<Rightarrow> router_value list \<Rightarrow> bool ev" where
  "contains_loop needle [] s = okE False s"
| "contains_loop needle (v # vs) s =
     bindE (charge 1) (\<lambda>_. bindE (eval_equal needle v) (\<lambda>b.
       if b then okE True else contains_loop needle vs)) s"

definition contains_value :: "router_value \<Rightarrow> router_value \<Rightarrow> bool ev" where
  "contains_value needle haystack =
     (if needle = VMissing then failE MissingValue
      else case haystack of
        VList vs \<Rightarrow> contains_loop needle vs
      | VMissing \<Rightarrow> failE MissingValue
      | _ \<Rightarrow> failE TypeError)"

fun eval_has :: "router_value list \<Rightarrow> router_code + router_value" where
  "eval_has [VObject m, VString k] = Inr (VBool (om_get m k \<noteq> None))"
| "eval_has _ = Inl TypeError"

text \<open>\<open>str::chars().count()\<close>: the bytes that do not continue a character.\<close>

definition chars_count :: "string \<Rightarrow> nat" where
  "chars_count s = length (filter (\<lambda>c. byte c < 128 \<or> 192 \<le> byte c) s)"

fun eval_size :: "router_value list \<Rightarrow> router_code + router_value" where
  "eval_size [VString s] = Inr (VNumber (NInt (int (chars_count s))))"
| "eval_size [VList vs] = Inr (VNumber (NInt (int (length vs))))"
| "eval_size [VObject m] = Inr (VNumber (NInt (int (length m))))"
| "eval_size _ = Inl TypeError"

fun string_test :: "func \<Rightarrow> string \<Rightarrow> string \<Rightarrow> bool" where
  "string_test Contains l r = sublist r l"
| "string_test StartsWith l r = prefix r l"
| "string_test EndsWith l r = suffix r l"
| "string_test _ l r = False"

definition string_predicate :: "func \<Rightarrow> router_value list \<Rightarrow> router_value ev" where
  "string_predicate f arguments =
     (case arguments of
        [VString l, VString r] \<Rightarrow>
          bindE (liftE (sum_lengths l r)) (\<lambda>c. bindE (charge c) (\<lambda>_. okE (VBool (string_test f l r))))
      | _ \<Rightarrow> failE TypeError)"

definition to_ascii_lowercase :: "string \<Rightarrow> string" where
  "to_ascii_lowercase s = map (\<lambda>c. if is_upper c then char_of (byte c + 32) else c) s"

definition to_ascii_uppercase :: "string \<Rightarrow> string" where
  "to_ascii_uppercase s = map (\<lambda>c. if is_lower c then char_of (byte c - 32) else c) s"

definition ascii_case :: "func \<Rightarrow> router_value list \<Rightarrow> router_value ev" where
  "ascii_case f arguments =
     (case arguments of
        [VString v] \<Rightarrow>
          bindE (charge (length v)) (\<lambda>_. okE (VString
            (if f = LowerAscii then to_ascii_lowercase v else to_ascii_uppercase v)))
      | _ \<Rightarrow> failE TypeError)"

definition call_function :: "func \<Rightarrow> router_value list \<Rightarrow> router_value ev" where
  "call_function f arguments =
     (if VMissing \<in> set arguments then failE MissingValue
      else case f of
        Has \<Rightarrow> liftE (eval_has arguments)
      | Size \<Rightarrow> liftE (eval_size arguments)
      | Contains \<Rightarrow> string_predicate f arguments
      | StartsWith \<Rightarrow> string_predicate f arguments
      | EndsWith \<Rightarrow> string_predicate f arguments
      | LowerAscii \<Rightarrow> ascii_case f arguments
      | UpperAscii \<Rightarrow> ascii_case f arguments)"

text \<open>A strict operator on the values of its operands.\<close>

definition strict_binary :: "binary_op \<Rightarrow> router_value \<Rightarrow> router_value \<Rightarrow> bool ev" where
  "strict_binary opr l r =
     (case opr of
        OpEqual \<Rightarrow> eval_equal l r
      | OpNotEqual \<Rightarrow> bindE (eval_equal l r) (\<lambda>b. okE (\<not> b))
      | OpLess \<Rightarrow> bindE (eval_order l r) (\<lambda>c. okE (c = Less))
      | OpLessEqual \<Rightarrow> bindE (eval_order l r) (\<lambda>c. okE (c \<noteq> Greater))
      | OpGreater \<Rightarrow> bindE (eval_order l r) (\<lambda>c. okE (c = Greater))
      | OpGreaterEqual \<Rightarrow> bindE (eval_order l r) (\<lambda>c. okE (c \<noteq> Less))
      | OpIn \<Rightarrow> contains_value l r
      | _ \<Rightarrow> failE TypeError)"

fun as_bool :: "router_value \<Rightarrow> router_code + bool" where
  "as_bool (VBool b) = Inr b"
| "as_bool VMissing = Inl MissingValue"
| "as_bool _ = Inl TypeError"

fun evaluate :: "environment \<Rightarrow> expr \<Rightarrow> router_value ev" where
  "evaluate env (ELiteral l) s = bindE (charge 1) (\<lambda>_. liftE (eval_literal l)) s"
| "evaluate env (ERoot r) s = bindE (charge 1) (\<lambda>_.
     okE (case r of Inputs \<Rightarrow> env_inputs env | Memory \<Rightarrow> env_memory env | Control \<Rightarrow> env_control env)) s"
| "evaluate env (EList es) s = bindE (charge 1) (\<lambda>_.
     bindE (mapE (evaluate env) es) (\<lambda>vs. okE (VList vs))) s"
| "evaluate env (EField e f) s = bindE (charge 1) (\<lambda>_.
     bindE (evaluate env e) (\<lambda>v. liftE (access v (KField f)))) s"
| "evaluate env (EIndex e k) s = bindE (charge 1) (\<lambda>_.
     bindE (evaluate env e) (\<lambda>v. liftE (access v k))) s"
| "evaluate env (ENot e) s = bindE (charge 1) (\<lambda>_.
     bindE (evaluate env e) (\<lambda>v. bindE (liftE (as_bool v)) (\<lambda>b. okE (VBool (\<not> b))))) s"
| "evaluate env (EBinary opr l r) s = bindE (charge 1) (\<lambda>_.
     if opr = OpAnd \<or> opr = OpOr then
       bindE (evaluate env l) (\<lambda>v. bindE (liftE (as_bool v)) (\<lambda>left.
       if (opr = OpAnd \<and> \<not> left) \<or> (opr = OpOr \<and> left) then okE (VBool left)
       else bindE (evaluate env r) (\<lambda>w. bindE (liftE (as_bool w)) (\<lambda>b. okE (VBool b)))))
     else
       bindE (evaluate env l) (\<lambda>v. bindE (evaluate env r) (\<lambda>w.
       bindE (strict_binary opr v w) (\<lambda>b. okE (VBool b))))) s"
| "evaluate env (ECall f es) s = bindE (charge 1) (\<lambda>_.
     bindE (mapE (evaluate env) es) (\<lambda>vs. call_function f vs)) s"

text \<open>The result and the fuel of the activation that is left.\<close>

definition evaluate_expression :: "compiled_expression \<Rightarrow> environment \<Rightarrow> nat \<Rightarrow> (router_code + bool) \<times> nat" where
  "evaluate_expression c env remaining =
     (case bindE (evaluate env (ast c)) (\<lambda>v. liftE (as_bool v))
        \<lparr>expression_fuel = EXPRESSION_FUEL, activation_fuel = remaining\<rparr>
      of (r, s) \<Rightarrow> (r, activation_fuel s))"

end
