(* ===== verification/Router_Semantics.thy ===== *)
theory Router_Semantics
  imports Router_Eval
begin

text \<open>
  The meaning of router expressions, stated without fuel: what a value denotes, the price of
  every operation (the cost schedule of \<open>designs/14-router-node.md\<close>) and the relation
  \<open>means env e v c\<close> of an expression, its value and its cost.  The evaluator returns a
  value exactly when the relation gives it at a cost that both fuels can pay.
\<close>

section \<open>What a value denotes\<close>

datatype svalue =
    SMissing | SNull | SBool bool | SNumber rat | SString string
  | SList "svalue list" | SObject "(string \<times> svalue) list"

fun sem :: "router_value \<Rightarrow> svalue" where
  "sem VMissing = SMissing"
| "sem VNull = SNull"
| "sem (VBool b) = SBool b"
| "sem (VNumber n) = SNumber (number_rat n)"
| "sem (VString s) = SString s"
| "sem (VList vs) = SList (map sem vs)"
| "sem (VObject m) = SObject (map (\<lambda>(k, v). (k, sem v)) m)"

text \<open>A value without \<open>missing\<close> inside, whose objects are maps.\<close>

fun proper :: "router_value \<Rightarrow> bool" where
  "proper VMissing = False"
| "proper (VList vs) = list_all proper vs"
| "proper (VObject m) = (om_wf m \<and> list_all (\<lambda>(_, v). proper v) m)"
| "proper _ = True"

lemma cmp_Equal: "cmp a b = Equal \<longleftrightarrow> a = b"
  by (auto simp: cmp_def)

lemma number_compare_Equal: "number_compare a b = Equal \<longleftrightarrow> number_rat a = number_rat b"
  by (simp add: number_compare_rat cmp_Equal)

lemma objects_same:
  assumes wf: "om_wf a" "om_wf b" and len: "length a = length b"
    and sub: "\<And>k x. (k, x) \<in> set a \<Longrightarrow> \<exists>y. om_get b k = Some y \<and> f x = f y"
  shows "map (\<lambda>(k, v). (k, f v)) a = map (\<lambda>(k, v). (k, f v)) b"
proof -
  let ?g = "map (\<lambda>(k, v). (k, f v))"
  have keys: "map fst (?g m) = map fst m" for m :: "('a \<times> 'b) list"
    by (induction m) auto
  have card: "card (set (map fst m)) = length m" if "om_wf m" for m :: "('a \<times> 'b) list"
    using om_wf_distinct [OF that] distinct_card by fastforce
  have "set (map fst a) \<subseteq> set (map fst b)"
    using sub by (force dest: om_get_in_set)
  then have "set (map fst a) = set (map fst b)"
    using card [OF wf(1)] card [OF wf(2)] len by (intro card_subset_eq) auto
  then have fst: "map fst a = map fst b"
    using wf by (simp add: om_wf_def strict_sorted_equal)
  have "om_get (?g a) k = om_get (?g b) k" for k
  proof (cases "om_get a k")
    case None
    then have "om_get b k = None"
      using fst by (metis om_get_def map_of_eq_None_iff set_map)
    with None show ?thesis by (simp add: om_get_def map_of_map)
  next
    case (Some x)
    then obtain y where "om_get b k = Some y" "f x = f y" using sub om_get_in_set by metis
    with Some show ?thesis by (simp add: om_get_def map_of_map)
  qed
  then show ?thesis
    using wf by (intro om_ext) (auto simp: om_wf_def keys simp del: map_map)
qed

lemma objects_same_conv:
  assumes wf: "om_wf a" "om_wf b"
  shows "map (\<lambda>(k, v). (k, f v)) a = map (\<lambda>(k, v). (k, f v)) b \<longleftrightarrow>
    length a = length b \<and> (\<forall>(k, x) \<in> set a. \<exists>y. om_get b k = Some y \<and> f x = f y)"
proof
  assume eq: "map (\<lambda>(k, v). (k, f v)) a = map (\<lambda>(k, v). (k, f v)) b"
  have "\<exists>y. om_get b k = Some y \<and> f x = f y" if "(k, x) \<in> set a" for k x
  proof -
    have "(k, f x) \<in> set (map (\<lambda>(k, v). (k, f v)) b)"
      using that by (force simp flip: eq)
    then show ?thesis using om_get_set [OF wf(2)] by auto
  qed
  then show "length a = length b \<and> (\<forall>(k, x) \<in> set a. \<exists>y. om_get b k = Some y \<and> f x = f y)"
    using arg_cong [OF eq, of length] by auto
next
  assume r: "length a = length b \<and> (\<forall>(k, x) \<in> set a. \<exists>y. om_get b k = Some y \<and> f x = f y)"
  then show "map (\<lambda>(k, v). (k, f v)) a = map (\<lambda>(k, v). (k, f v)) b"
    by (intro objects_same [OF wf]) auto
qed

lemma structural_equal_sem:
  "proper l \<Longrightarrow> proper r \<Longrightarrow> structural_equal l r \<longleftrightarrow> sem l = sem r"
proof (induction l r rule: structural_equal.induct)
  case (1 l r)
  note IH = 1(1,2) and proper = 1(3,4)
  show ?case
  proof (cases "(\<exists>a b. l = VList a \<and> r = VList b) \<or> (\<exists>a b. l = VObject a \<and> r = VObject b)")
    case False
    then show ?thesis
      using proper by (subst structural_equal.simps; cases l; cases r) (auto simp: number_compare_Equal)
  next
    case True
    then consider a b where "l = VList a" "r = VList b" | a b where "l = VObject a" "r = VObject b"
      by blast
    then show ?thesis
    proof cases
      case (1 a b)
      have "structural_equal x y \<longleftrightarrow> sem x = sem y" if "(x, y) \<in> set (zip a b)" for x y
        using that 1 IH(1) proper set_zip_leftD [OF that] set_zip_rightD [OF that]
        by (auto simp: list_all_iff)
      then have "list_all (\<lambda>(x, y). structural_equal x y) (zip a b) \<longleftrightarrow> list_all (\<lambda>(x, y). sem x = sem y) (zip a b)"
        by (auto simp: list_all_iff)
      then show ?thesis
        using 1 by (subst structural_equal.simps)
          (auto simp: list_all_length list_eq_iff_nth_eq)
    next
      case (2 a b)
      have "(case om_get b k of None \<Rightarrow> False | Some y \<Rightarrow> structural_equal x y) \<longleftrightarrow>
          (\<exists>y. om_get b k = Some y \<and> sem x = sem y)" if x: "(k, x) \<in> set a" for k x
      proof (cases "om_get b k")
        case (Some y)
        then show ?thesis
          using 2 x IH(2) [OF _ refl] proper om_get_in_set [OF Some] by (fastforce simp: list_all_iff)
      qed simp
      then have "structural_equal l r \<longleftrightarrow>
          length a = length b \<and> (\<forall>(k, x) \<in> set a. \<exists>y. om_get b k = Some y \<and> sem x = sem y)"
        using 2 by (subst structural_equal.simps) (auto simp: list_all_iff)
      then show ?thesis
        using 2 proper objects_same_conv [of a b sem] by simp
    qed
  qed
qed

section \<open>What an operation costs\<close>

fun deep_size :: "router_value \<Rightarrow> nat" where
  "deep_size (VString s) = 1 + length s"
| "deep_size (VList vs) = 1 + sum_list (map deep_size vs)"
| "deep_size (VObject m) = 1 + sum_list (map (\<lambda>(k, v). length k + deep_size v) m)"
| "deep_size _ = 1"

lemma deep_cost_size:
  "proper v \<Longrightarrow> deep_cost v = (if deep_size v \<le> u64_max then Some (deep_size v) else None)"
  "acc \<le> u64_max \<Longrightarrow> list_all proper vs \<Longrightarrow>
     list_cost acc vs = (let n = acc + sum_list (map deep_size vs) in if n \<le> u64_max then Some n else None)"
  "acc \<le> u64_max \<Longrightarrow> list_all (\<lambda>(_, v). proper v) m \<Longrightarrow>
     entries_cost acc m = (let n = acc + sum_list (map (\<lambda>(k, v). length k + deep_size v) m)
       in if n \<le> u64_max then Some n else None)"
proof (induction v and acc vs and acc m rule: deep_cost_list_cost_entries_cost.induct)
  case (9 acc v vs)
  then show ?case
    by (cases "deep_size v \<le> u64_max"; cases "acc + deep_size v \<le> u64_max")
      (auto simp: Let_def checked_add_u64_def add.assoc)
next
  case (11 acc k v m)
  then show ?case
    by (cases "acc + length k \<le> u64_max"; cases "deep_size v \<le> u64_max"; cases "acc + length k + deep_size v \<le> u64_max")
      (auto simp: Let_def checked_add_u64_def add.assoc)
qed (auto simp: checked_add_u64_def Let_def u64_max_def)

fun equality_surcharge :: "router_value \<Rightarrow> router_value \<Rightarrow> nat" where
  "equality_surcharge (VString a) (VString b) = length a + length b"
| "equality_surcharge (VList a) (VList b) = deep_size (VList a) + deep_size (VList b)"
| "equality_surcharge (VObject a) (VObject b) = deep_size (VObject a) + deep_size (VObject b)"
| "equality_surcharge _ _ = 0"

text \<open>Membership pays for the elements up to the first match.\<close>

definition checked_elements :: "router_value \<Rightarrow> router_value list \<Rightarrow> router_value list" where
  "checked_elements needle vs =
     (let before = takeWhile (\<lambda>v. sem v \<noteq> sem needle) vs in take (length before + 1) vs)"

definition membership_surcharge :: "router_value \<Rightarrow> router_value list \<Rightarrow> nat" where
  "membership_surcharge needle vs =
     sum_list (map (\<lambda>v. 1 + equality_surcharge needle v) (checked_elements needle vs))"

inductive order_means :: "router_value \<Rightarrow> router_value \<Rightarrow> ordering \<Rightarrow> nat \<Rightarrow> bool" where
  order_numbers: "order_means (VNumber a) (VNumber b) (cmp (number_rat a) (number_rat b)) 0"
| order_strings: "order_means (VString a) (VString b) (cmp a b) (length a + length b)"

inductive binary_means :: "binary_op \<Rightarrow> router_value \<Rightarrow> router_value \<Rightarrow> bool \<Rightarrow> nat \<Rightarrow> bool" where
  means_equal: "l \<noteq> VMissing \<Longrightarrow> r \<noteq> VMissing \<Longrightarrow>
    binary_means OpEqual l r (sem l = sem r) (equality_surcharge l r)"
| means_not_equal: "l \<noteq> VMissing \<Longrightarrow> r \<noteq> VMissing \<Longrightarrow>
    binary_means OpNotEqual l r (sem l \<noteq> sem r) (equality_surcharge l r)"
| means_less: "order_means l r c k \<Longrightarrow> binary_means OpLess l r (c = Less) k"
| means_less_equal: "order_means l r c k \<Longrightarrow> binary_means OpLessEqual l r (c \<noteq> Greater) k"
| means_greater: "order_means l r c k \<Longrightarrow> binary_means OpGreater l r (c = Greater) k"
| means_greater_equal: "order_means l r c k \<Longrightarrow> binary_means OpGreaterEqual l r (c \<noteq> Less) k"
| means_in: "l \<noteq> VMissing \<Longrightarrow>
    binary_means OpIn l (VList vs) (sem l \<in> sem ` set vs) (membership_surcharge l vs)"

inductive call_means :: "func \<Rightarrow> router_value list \<Rightarrow> router_value \<Rightarrow> nat \<Rightarrow> bool" where
  means_has: "call_means Has [VObject m, VString k] (VBool (k \<in> set (om_keys m))) 0"
| means_size_string: "call_means Size [VString s] (VNumber (NInt (int (chars_count s)))) 0"
| means_size_list: "call_means Size [VList vs] (VNumber (NInt (int (length vs)))) 0"
| means_size_object: "call_means Size [VObject m] (VNumber (NInt (int (length m)))) 0"
| means_contains: "call_means Contains [VString l, VString r] (VBool (\<exists>p q. l = p @ r @ q)) (length l + length r)"
| means_starts: "call_means StartsWith [VString l, VString r] (VBool (\<exists>q. l = r @ q)) (length l + length r)"
| means_ends: "call_means EndsWith [VString l, VString r] (VBool (\<exists>p. l = p @ r)) (length l + length r)"
| means_lower: "call_means LowerAscii [VString v] (VString (to_ascii_lowercase v)) (length v)"
| means_upper: "call_means UpperAscii [VString v] (VString (to_ascii_uppercase v)) (length v)"

section \<open>What an expression means\<close>

inductive means :: "environment \<Rightarrow> expr \<Rightarrow> router_value \<Rightarrow> nat \<Rightarrow> bool"
  and means_list :: "environment \<Rightarrow> expr list \<Rightarrow> router_value list \<Rightarrow> nat \<Rightarrow> bool"
  for env :: environment where
  m_literal: "eval_literal l = Inr v \<Longrightarrow> means env (ELiteral l) v 1"
| m_inputs: "means env (ERoot Inputs) (env_inputs env) 1"
| m_memory: "means env (ERoot Memory) (env_memory env) 1"
| m_control: "means env (ERoot Control) (env_control env) 1"
| m_list: "means_list env es vs c \<Longrightarrow> means env (EList es) (VList vs) (1 + c)"
| m_field: "means env e v c \<Longrightarrow> access v (KField f) = Inr w \<Longrightarrow> means env (EField e f) w (1 + c)"
| m_index: "means env e v c \<Longrightarrow> access v k = Inr w \<Longrightarrow> means env (EIndex e k) w (1 + c)"
| m_not: "means env e (VBool b) c \<Longrightarrow> means env (ENot e) (VBool (\<not> b)) (1 + c)"
| m_and_false: "means env l (VBool False) c \<Longrightarrow> means env (EBinary OpAnd l r) (VBool False) (1 + c)"
| m_and: "means env l (VBool True) c \<Longrightarrow> means env r (VBool b) d \<Longrightarrow>
    means env (EBinary OpAnd l r) (VBool b) (1 + c + d)"
| m_or_true: "means env l (VBool True) c \<Longrightarrow> means env (EBinary OpOr l r) (VBool True) (1 + c)"
| m_or: "means env l (VBool False) c \<Longrightarrow> means env r (VBool b) d \<Longrightarrow>
    means env (EBinary OpOr l r) (VBool b) (1 + c + d)"
| m_binary: "means env l v c \<Longrightarrow> means env r w d \<Longrightarrow> binary_means opr v w b k \<Longrightarrow>
    means env (EBinary opr l r) (VBool b) (1 + c + d + k)"
| m_call: "means_list env es vs c \<Longrightarrow> call_means f vs v k \<Longrightarrow> means env (ECall f es) v (1 + c + k)"
| m_Nil: "means_list env [] [] 0"
| m_Cons: "means env e v c \<Longrightarrow> means_list env es vs d \<Longrightarrow> means_list env (e # es) (v # vs) (c + d)"

inductive_simps means_simps:
  "means env (ELiteral l) v c" "means env (ERoot r) v c" "means env (EList es) v c"
  "means env (EField e f) v c" "means env (EIndex e k) v c" "means env (ENot e) v c"
  "means env (EBinary opr l r) v c" "means env (ECall f es) v c"
  "means_list env [] vs c" "means_list env (e # es) vs c"

inductive_simps binary_means_simps:
  "binary_means OpEqual l r b k" "binary_means OpNotEqual l r b k" "binary_means OpLess l r b k"
  "binary_means OpLessEqual l r b k" "binary_means OpGreater l r b k" "binary_means OpGreaterEqual l r b k"
  "binary_means OpIn l r b k" "binary_means OpAnd l r b k" "binary_means OpOr l r b k"

text \<open>An expression has at most one value and one cost in an environment.\<close>

lemma order_det: "order_means l r a k \<Longrightarrow> order_means l r b j \<Longrightarrow> a = b \<and> k = j"
  by (auto simp: order_means.simps)

lemma binary_det: "binary_means opr l r a k \<Longrightarrow> binary_means opr l r b j \<Longrightarrow> a = b \<and> k = j"
  by (cases opr) (auto simp: binary_means_simps dest: order_det)

lemma call_det: "call_means f vs v k \<Longrightarrow> call_means f vs w j \<Longrightarrow> v = w \<and> k = j"
  by (cases f) (auto simp: call_means.simps)

lemma means_deterministic:
  "means env e v c \<Longrightarrow> means env e w d \<Longrightarrow> v = w \<and> c = d"
  "means_list env es vs c \<Longrightarrow> means_list env es ws d \<Longrightarrow> vs = ws \<and> c = d"
proof (induction arbitrary: w d and ws d rule: means_means_list.inducts)
  case (m_binary l v c r v' d' opr b k)
  from m_binary.prems m_binary.hyps obtain v1 c1 v2 c2 b' k' where
    "w = VBool b'" "d = 1 + c1 + c2 + k'" "means env l v1 c1" "means env r v2 c2" "binary_means opr v1 v2 b' k'"
    by (auto simp: means_simps binary_means_simps)
  moreover from this have "v = v1 \<and> c = c1" "v' = v2 \<and> d' = c2" using m_binary.IH by blast+
  ultimately show ?case using m_binary.hyps binary_det by auto
next
  case (m_call es vs c f v k)
  from m_call.prems obtain vs' c' k' where "means_list env es vs' c'" "call_means f vs' w k'" "d = 1 + c' + k'"
    by (auto simp: means_simps)
  moreover from this have "vs = vs' \<and> c = c'" using m_call.IH by blast
  ultimately show ?case using m_call.hyps call_det by auto
next
  case (m_field e v c f w')
  from m_field.prems m_field.hyps show ?case by (auto simp: means_simps dest!: m_field.IH(2))
next
  case (m_index e v c k w')
  from m_index.prems m_index.hyps show ?case by (auto simp: means_simps dest!: m_index.IH(2))
next
  case (m_not e b c)
  from m_not.prems show ?case by (auto simp: means_simps dest!: m_not.IH(2))
next
  case (m_list es vs c)
  from m_list.prems show ?case by (auto simp: means_simps dest!: m_list.IH(2))
next
  case (m_and_false l c r)
  from m_and_false.prems show ?case by (auto simp: means_simps binary_means_simps dest!: m_and_false.IH(2))
next
  case (m_or_true l c r)
  from m_or_true.prems show ?case by (auto simp: means_simps binary_means_simps dest!: m_or_true.IH(2))
next
  case (m_and l c r b e)
  from m_and.prems show ?case by (auto simp: means_simps binary_means_simps dest!: m_and.IH(2,4))
next
  case (m_or l c r b e)
  from m_or.prems show ?case by (auto simp: means_simps binary_means_simps dest!: m_or.IH(2,4))
next
  case (m_Cons e v c es vs d')
  from m_Cons.prems show ?case by (auto simp: means_simps dest!: m_Cons.IH(2,4))
qed (simp_all add: means_simps)

end
