(* ===== verification/Router_Refinement.thy ===== *)
theory Router_Refinement
  imports Router_Semantics
begin

text \<open>
  The evaluator of \<open>Router_Eval\<close> implements the meaning of \<open>Router_Semantics\<close>: it
  returns a value exactly when the expression means that value at a cost both fuels can pay,
  and then it has paid exactly that cost.
\<close>

section \<open>Computations and their costs\<close>

definition fits :: "nat \<Rightarrow> fuel \<Rightarrow> bool" where
  "fits c s \<longleftrightarrow> c \<le> expression_fuel s \<and> c \<le> activation_fuel s"

definition spend :: "nat \<Rightarrow> fuel \<Rightarrow> fuel" where
  "spend c s = s\<lparr>expression_fuel := expression_fuel s - c, activation_fuel := activation_fuel s - c\<rparr>"

text \<open>A computation returns exactly the values of a relation, at their costs.\<close>

definition runs :: "'a ev \<Rightarrow> ('a \<Rightarrow> nat \<Rightarrow> bool) \<Rightarrow> bool" where
  "runs m R \<longleftrightarrow> (\<forall>s a s'. expression_fuel s \<le> u64_max \<longrightarrow>
     m s = (Inr a, s') \<longleftrightarrow> (\<exists>c. R a c \<and> fits c s \<and> s' = spend c s))"

lemma runsD: "runs m R \<Longrightarrow> expression_fuel s \<le> u64_max \<Longrightarrow>
    m s = (Inr a, s') \<longleftrightarrow> (\<exists>c. R a c \<and> fits c s \<and> s' = spend c s)"
  by (simp add: runs_def)

lemma runs_conv: "runs m R \<Longrightarrow> (\<And>a c. R a c \<longleftrightarrow> S a c) \<Longrightarrow> runs m S"
  by (simp add: runs_def)

lemma spend_0 [simp]: "spend 0 s = s" "fits 0 s"
  by (simp_all add: spend_def fits_def)

lemma spend_add: "fits c s \<Longrightarrow> fits d (spend c s) \<longleftrightarrow> fits (c + d) s"
  "spend d (spend c s) = spend (c + d) s"
  by (auto simp: spend_def fits_def)

lemma fits_split: "fits (c + d) s \<longleftrightarrow> fits c s \<and> fits d (spend c s)"
  by (auto simp: spend_def fits_def)

lemma spend_bound: "expression_fuel s \<le> u64_max \<Longrightarrow> expression_fuel (spend c s) \<le> u64_max"
  by (simp add: spend_def)

lemma runs_liftE: "runs (liftE r) (\<lambda>a c. r = Inr a \<and> c = 0)"
  by (auto simp: runs_def liftE_def)

lemma runs_charge: "runs (charge k) (\<lambda>_ c. c = k)"
  by (auto simp: runs_def charge_def fits_def spend_def)

lemma runs_bindE:
  assumes m: "runs m R" and f: "\<And>a c. R a c \<Longrightarrow> runs (f a) (S a)"
  shows "runs (bindE m f) (\<lambda>b c. \<exists>a c1 c2. R a c1 \<and> S a b c2 \<and> c = c1 + c2)"
  unfolding runs_def
proof (intro allI impI)
  fix s s' :: fuel and b
  assume s: "expression_fuel s \<le> u64_max"
  have "bindE m f s = (Inr b, s') \<longleftrightarrow> (\<exists>a t. m s = (Inr a, t) \<and> f a t = (Inr b, s'))"
    by (auto simp: bindE_def split: prod.splits sum.splits)
  also have "\<dots> \<longleftrightarrow> (\<exists>a c1. R a c1 \<and> fits c1 s \<and> f a (spend c1 s) = (Inr b, s'))"
    by (simp add: runsD [OF m s]) blast
  also have "\<dots> \<longleftrightarrow> (\<exists>a c1. R a c1 \<and> fits c1 s \<and>
      (\<exists>c2. S a b c2 \<and> fits c2 (spend c1 s) \<and> s' = spend c2 (spend c1 s)))"
    by (metis runsD [OF f spend_bound [OF s]])
  also have "\<dots> \<longleftrightarrow> (\<exists>a c1 c2. R a c1 \<and> S a b c2 \<and> fits (c1 + c2) s \<and> s' = spend (c1 + c2) s)"
    unfolding fits_split spend_add(2) by blast
  also have "\<dots> \<longleftrightarrow> (\<exists>c. (\<exists>a c1 c2. R a c1 \<and> S a b c2 \<and> c = c1 + c2) \<and> fits c s \<and> s' = spend c s)"
    by blast
  finally show "bindE m f s = (Inr b, s') \<longleftrightarrow>
      (\<exists>c. (\<exists>a c1 c2. R a c1 \<and> S a b c2 \<and> c = c1 + c2) \<and> fits c s \<and> s' = spend c s)" .
qed

lemma runs_bind_lift: "(\<And>a. r = Inr a \<Longrightarrow> runs (f a) (S a)) \<Longrightarrow>
    runs (bindE (liftE r) f) (\<lambda>b c. \<exists>a. r = Inr a \<and> S a b c)"
  by (rule runs_conv [OF runs_bindE [OF runs_liftE]]) auto

lemma runs_bind_charge: "runs f S \<Longrightarrow> runs (bindE (charge k) (\<lambda>_. f)) (\<lambda>b c. \<exists>d. S b d \<and> c = k + d)"
  by (rule runs_conv [OF runs_bindE [OF runs_charge]]) auto

lemma runs_fail: "runs (failE e) (\<lambda>_ _. False)"
  by (auto simp: runs_def liftE_def)

text \<open>Paying a checked sum: an overflow is a cost that no fuel can pay.\<close>

lemma runs_charge_checked:
  assumes "p = (if n \<le> u64_max then Some n else None)"
  shows "runs (bindE (liftE (of_optionR e p)) (\<lambda>k. bindE (charge k) (\<lambda>_. okE a)))
    (\<lambda>b c. b = a \<and> c = n)"
proof (cases "n \<le> u64_max")
  case True
  then show ?thesis
    using assms by (intro runs_conv [OF runs_bind_lift [OF runs_bind_charge [OF runs_liftE]]]) auto
next
  case False
  then show ?thesis
    using assms by (auto simp: runs_def bindE_def liftE_def fits_def)
qed

lemma runs_sum_lengths:
  "runs (bindE (liftE (sum_lengths l r)) (\<lambda>k. bindE (charge k) (\<lambda>_. okE a)))
    (\<lambda>b c. b = a \<and> c = length l + length r)"
  unfolding sum_lengths_def by (rule runs_charge_checked) (simp add: checked_add_u64_def)

lemma runs_map: "runs m R \<Longrightarrow> runs (bindE m (\<lambda>a. okE (g a))) (\<lambda>b c. \<exists>a. R a c \<and> b = g a)"
  by (rule runs_conv [OF runs_bindE [OF _ runs_liftE]]) auto

section \<open>Operations\<close>

lemma runs_equal:
  assumes "l = VMissing \<or> proper l" "r = VMissing \<or> proper r"
  shows "runs (eval_equal l r) (binary_means OpEqual l r)"
proof (cases "l = VMissing \<or> r = VMissing")
  case True
  then show ?thesis
    by (auto simp: eval_equal_def binary_means_simps intro: runs_conv [OF runs_fail])
next
  case False
  then have p: "proper l" "proper r" using assms by auto
  have deep: "runs (deep_equal l r) (\<lambda>b c. b = (sem l = sem r) \<and> c = deep_size l + deep_size r)"
    unfolding deep_equal_def structural_equal_sem [OF p]
    by (rule runs_charge_checked) (auto simp: deep_cost_size p checked_add_u64_def)
  show ?thesis
  proof (cases "(\<exists>a b. l = VString a \<and> r = VString b) \<or> (\<exists>a b. l = VList a \<and> r = VList b)
      \<or> (\<exists>a b. l = VObject a \<and> r = VObject b)")
    case True
    then consider a b where "l = VString a" "r = VString b"
      | "eval_equal l r = deep_equal l r" "equality_surcharge l r = deep_size l + deep_size r"
      by (auto simp: eval_equal_def)
    then show ?thesis
    proof cases
      case (1 a b)
      then show ?thesis
        by (auto simp: eval_equal_def binary_means_simps intro: runs_conv [OF runs_sum_lengths])
    next
      case 2
      then show ?thesis using False by (auto simp: binary_means_simps intro: runs_conv [OF deep])
    qed
  next
    case no_cost: False
    then have "eval_equal l r = okE (sem l = sem r)" "equality_surcharge l r = 0"
      using False by (cases l; cases r; simp add: eval_equal_def number_compare_Equal)+
    then show ?thesis
      using False by (auto simp: binary_means_simps intro: runs_conv [OF runs_liftE])
  qed
qed

lemma runs_order: "runs (eval_order l r) (order_means l r)"
proof (cases "\<exists>a b. l = VString a \<and> r = VString b")
  case True
  then show ?thesis
    by (auto simp: eval_order_def order_means.simps intro!: runs_conv [OF runs_sum_lengths])
next
  case False
  then show ?thesis
    by (cases l; cases r)
       (auto simp: eval_order_def order_means.simps number_compare_rat
         intro: runs_conv [OF runs_fail] runs_conv [OF runs_liftE])
qed

lemma checked_elements_Cons:
  "checked_elements n (v # vs) = v # (if sem v = sem n then [] else checked_elements n vs)"
  by (simp add: checked_elements_def)

lemma runs_contains_loop:
  assumes "proper n"
  shows "list_all proper vs \<Longrightarrow> runs (contains_loop n vs)
    (\<lambda>b c. b = (sem n \<in> sem ` set vs) \<and> c = membership_surcharge n vs)"
proof (induction vs)
  case Nil
  have "contains_loop n [] = okE False" by (rule ext) simp
  then show ?case
    by (auto simp: membership_surcharge_def checked_elements_def intro: runs_conv [OF runs_liftE])
next
  case (Cons v vs)
  have eq: "contains_loop n (v # vs) = bindE (charge 1) (\<lambda>_. bindE (eval_equal n v)
      (\<lambda>b. if b then okE True else contains_loop n vs))"
    by (rule ext) simp
  have v: "runs (eval_equal n v) (binary_means OpEqual n v)"
    using Cons.prems assms by (intro runs_equal) auto
  have rest: "runs (if b then okE True else contains_loop n vs)
      (\<lambda>a c. if b then a \<and> c = 0 else a = (sem n \<in> sem ` set vs) \<and> c = membership_surcharge n vs)" for b
    using Cons by (auto intro: runs_conv [OF runs_liftE])
  show ?case
    unfolding eq
    using Cons.prems assms
    by (intro runs_conv [OF runs_bind_charge [OF runs_bindE [OF v rest]]])
      (auto simp: binary_means_simps membership_surcharge_def checked_elements_Cons)
qed

lemma runs_contains_value:
  assumes "l = VMissing \<or> proper l" "r = VMissing \<or> proper r"
  shows "runs (contains_value l r) (binary_means OpIn l r)"
  using assms
  by (cases r) (auto simp: contains_value_def binary_means_simps
      intro: runs_conv [OF runs_fail] runs_conv [OF runs_contains_loop])

lemma runs_strict_binary:
  assumes "l = VMissing \<or> proper l" "r = VMissing \<or> proper r"
  shows "runs (strict_binary opr l r) (binary_means opr l r)"
proof (cases opr)
  case OpNotEqual
  then show ?thesis
    by (auto simp: strict_binary_def binary_means_simps intro: runs_conv [OF runs_map [OF runs_equal [OF assms]]])
next
  case OpLess
  then show ?thesis
    by (auto simp: strict_binary_def binary_means_simps intro!: runs_conv [OF runs_map [OF runs_order]])
next
  case OpLessEqual
  then show ?thesis
    by (auto simp: strict_binary_def binary_means_simps intro!: runs_conv [OF runs_map [OF runs_order]])
next
  case OpGreater
  then show ?thesis
    by (auto simp: strict_binary_def binary_means_simps intro!: runs_conv [OF runs_map [OF runs_order]])
next
  case OpGreaterEqual
  then show ?thesis
    by (auto simp: strict_binary_def binary_means_simps intro!: runs_conv [OF runs_map [OF runs_order]])
qed (use runs_equal [OF assms] runs_contains_value [OF assms] in
    \<open>auto simp: strict_binary_def binary_means_simps(8,9) intro: runs_conv [OF runs_fail]\<close>)

lemma runs_string_predicate:
  assumes "f = Contains \<or> f = StartsWith \<or> f = EndsWith"
  shows "runs (string_predicate f vs) (call_means f vs)"
proof (cases "\<exists>l r. vs = [VString l, VString r]")
  case True
  then show ?thesis
    using assms
    by (auto simp: string_predicate_def call_means.simps sublist_def prefix_def suffix_def
        intro!: runs_conv [OF runs_sum_lengths])
next
  case False
  then have "string_predicate f vs = failE TypeError"
    by (auto simp: string_predicate_def split: list.splits router_value.splits)
  then show ?thesis
    using False assms by (auto simp: call_means.simps intro!: runs_conv [OF runs_fail])
qed

lemma runs_ascii_case:
  assumes "f = LowerAscii \<or> f = UpperAscii"
  shows "runs (ascii_case f vs) (call_means f vs)"
proof (cases "\<exists>v. vs = [VString v]")
  case True
  then show ?thesis
    using assms
    by (auto simp: ascii_case_def call_means.simps intro!: runs_conv [OF runs_bind_charge [OF runs_liftE]])
next
  case False
  then have "ascii_case f vs = failE TypeError"
    by (auto simp: ascii_case_def split: list.splits router_value.splits)
  then show ?thesis
    using False assms by (auto simp: call_means.simps intro!: runs_conv [OF runs_fail])
qed

lemma eval_has_means: "call_means Has vs v k \<longleftrightarrow> eval_has vs = Inr v \<and> k = 0"
  by (cases vs rule: eval_has.cases) (auto simp: call_means.simps om.keys_get)

lemma eval_size_means: "call_means Size vs v k \<longleftrightarrow> eval_size vs = Inr v \<and> k = 0"
  by (cases vs rule: eval_size.cases) (auto simp: call_means.simps)

lemma call_means_not_missing: "call_means f vs v k \<Longrightarrow> VMissing \<notin> set vs"
  by (auto simp: call_means.simps)

lemma runs_call: "runs (call_function f vs) (call_means f vs)"
proof (cases "VMissing \<in> set vs")
  case True
  then show ?thesis
    using call_means_not_missing by (auto simp: call_function_def intro!: runs_conv [OF runs_fail])
next
  case False
  then show ?thesis
    using runs_string_predicate runs_ascii_case
    by (cases f) (auto simp: call_function_def eval_has_means eval_size_means intro: runs_conv [OF runs_liftE])
qed

section \<open>Proper values\<close>

definition proper_env :: "environment \<Rightarrow> bool" where
  "proper_env env \<longleftrightarrow> proper (env_inputs env) \<and> proper (env_memory env) \<and> proper (env_control env)"

lemma access_proper: "proper v \<Longrightarrow> access v k = Inr w \<Longrightarrow> w = VMissing \<or> proper w"
  by (cases "(v, k)" rule: access.cases)
     (auto simp: list_all_iff split: option.splits if_splits dest!: om_get_in_set)

lemma access_missing: "access VMissing k \<noteq> Inr w"
  by (cases k) auto

lemma literal_proper: "eval_literal l = Inr v \<Longrightarrow> proper v"
  by (cases l) (auto split: if_splits)

text \<open>Only an access yields \<open>missing\<close>; a list literal never contains one.\<close>

lemma means_proper:
  "means env e v c \<Longrightarrow> proper_env env \<Longrightarrow> wf_expr e \<Longrightarrow> (v = VMissing \<or> proper v) \<and> (is_literal e \<longrightarrow> proper v)"
  "means_list env es vs c \<Longrightarrow> proper_env env \<Longrightarrow> list_all wf_expr es \<Longrightarrow>
    list_all (\<lambda>v. v = VMissing \<or> proper v) vs \<and> (list_all is_literal es \<longrightarrow> list_all proper vs)"
proof (induction rule: means_means_list.inducts)
  case (m_literal l v)
  then show ?case by (simp add: literal_proper)
next
  case (m_field e v c f w)
  then show ?case using access_proper [of v "KField f" w] access_missing by auto
next
  case (m_index e v c k w)
  then show ?case using access_proper [of v k w] access_missing by auto
next
  case (m_call es vs c f v k)
  then show ?case by (auto simp: call_means.simps)
qed (auto simp: proper_env_def)

section \<open>The evaluator\<close>

lemma evaluate_eqs:
  "evaluate env (ELiteral l) = bindE (charge 1) (\<lambda>_. liftE (eval_literal l))"
  "evaluate env (ERoot r) = bindE (charge 1) (\<lambda>_.
     okE (case r of Inputs \<Rightarrow> env_inputs env | Memory \<Rightarrow> env_memory env | Control \<Rightarrow> env_control env))"
  "evaluate env (EList es) = bindE (charge 1) (\<lambda>_. bindE (mapE (evaluate env) es) (\<lambda>vs. okE (VList vs)))"
  "evaluate env (EField e f) = bindE (charge 1) (\<lambda>_. bindE (evaluate env e) (\<lambda>v. liftE (access v (KField f))))"
  "evaluate env (EIndex e k) = bindE (charge 1) (\<lambda>_. bindE (evaluate env e) (\<lambda>v. liftE (access v k)))"
  "evaluate env (ENot e) = bindE (charge 1) (\<lambda>_.
     bindE (evaluate env e) (\<lambda>v. bindE (liftE (as_bool v)) (\<lambda>b. okE (VBool (\<not> b)))))"
  "evaluate env (ECall g es) = bindE (charge 1) (\<lambda>_. bindE (mapE (evaluate env) es) (\<lambda>vs. call_function g vs))"
  by (rule ext, simp only: evaluate.simps)+

lemma evaluate_binary_eqs:
  "evaluate env (EBinary OpAnd l r) = bindE (charge 1) (\<lambda>_.
     bindE (evaluate env l) (\<lambda>v. bindE (liftE (as_bool v)) (\<lambda>b.
     if \<not> b then okE (VBool b)
     else bindE (evaluate env r) (\<lambda>w. bindE (liftE (as_bool w)) (\<lambda>b. okE (VBool b))))))"
  "evaluate env (EBinary OpOr l r) = bindE (charge 1) (\<lambda>_.
     bindE (evaluate env l) (\<lambda>v. bindE (liftE (as_bool v)) (\<lambda>b.
     if b then okE (VBool b)
     else bindE (evaluate env r) (\<lambda>w. bindE (liftE (as_bool w)) (\<lambda>b. okE (VBool b))))))"
  "opr \<noteq> OpAnd \<Longrightarrow> opr \<noteq> OpOr \<Longrightarrow> evaluate env (EBinary opr l r) = bindE (charge 1) (\<lambda>_.
     bindE (evaluate env l) (\<lambda>v. bindE (evaluate env r) (\<lambda>w.
     bindE (strict_binary opr v w) (\<lambda>b. okE (VBool b)))))"
  by (rule ext, simp)+

lemma as_bool_Inr: "as_bool v = Inr b \<longleftrightarrow> v = VBool b"
  by (cases v) auto

lemma runs_bool:
  assumes "runs m R"
  shows "runs (bindE m (\<lambda>v. bindE (liftE (as_bool v)) (\<lambda>b. okE (VBool (g b)))))
    (\<lambda>w c. \<exists>b. R (VBool b) c \<and> w = VBool (g b))"
proof -
  have "runs (bindE (liftE (as_bool v)) (\<lambda>b. okE (VBool (g b))))
      (\<lambda>w c. \<exists>b. v = VBool b \<and> w = VBool (g b) \<and> c = 0)" for v
    by (rule runs_conv [OF runs_bind_lift [OF runs_liftE]]) (auto simp: as_bool_Inr)
  then show ?thesis
    by (intro runs_conv [OF runs_bindE [OF assms]]) (assumption, fastforce)
qed

text \<open>A short-circuit operator: the left operand decides, or the right one is the result.\<close>

lemma runs_logical:
  assumes l: "runs ml L" and r: "runs mr R"
  shows "runs (bindE ml (\<lambda>v. bindE (liftE (as_bool v)) (\<lambda>b. if d b then okE (VBool b)
      else bindE mr (\<lambda>w. bindE (liftE (as_bool w)) (\<lambda>b. okE (VBool b))))))
    (\<lambda>w c. (\<exists>b. d b \<and> L (VBool b) c \<and> w = VBool b)
      \<or> (\<exists>b a c1 c2. \<not> d b \<and> L (VBool b) c1 \<and> R (VBool a) c2 \<and> w = VBool a \<and> c = c1 + c2))"
proof -
  have "runs (if d b then okE (VBool b) else bindE mr (\<lambda>w. bindE (liftE (as_bool w)) (\<lambda>b. okE (VBool b))))
      (\<lambda>w c. if d b then w = VBool b \<and> c = 0 else \<exists>a. R (VBool a) c \<and> w = VBool a)" for b
    using runs_bool [OF r, of "\<lambda>b. b"] by (auto intro: runs_conv [OF runs_liftE])
  then have "runs (bindE (liftE (as_bool v)) (\<lambda>b. if d b then okE (VBool b)
        else bindE mr (\<lambda>w. bindE (liftE (as_bool w)) (\<lambda>b. okE (VBool b)))))
      (\<lambda>w c. \<exists>b. v = VBool b \<and> (if d b then w = VBool b \<and> c = 0 else \<exists>a. R (VBool a) c \<and> w = VBool a))" for v
    by (intro runs_conv [OF runs_bind_lift]) (assumption, simp add: as_bool_Inr)
  then show ?thesis
    by (intro runs_conv [OF runs_bindE [OF l]]) (assumption, fastforce split: if_splits)
qed

lemma runs_mapE:
  assumes "\<And>e. e \<in> set es \<Longrightarrow> runs (evaluate env e) (means env e)"
  shows "runs (mapE (evaluate env) es) (means_list env es)"
  using assms
proof (induction es)
  case Nil
  have "mapE (evaluate env) [] = okE []" by (rule ext) simp
  then show ?case by (auto simp: means_simps intro: runs_conv [OF runs_liftE])
next
  case (Cons e es)
  have eq: "mapE (evaluate env) (e # es) =
      bindE (evaluate env e) (\<lambda>v. bindE (mapE (evaluate env) es) (\<lambda>vs. okE (v # vs)))"
    by (rule ext) simp
  show ?case
    unfolding eq
    by (rule runs_conv [OF runs_bindE [OF _ runs_map [OF Cons.IH]]]) (auto simp: means_simps Cons.prems)
qed

lemma runs_evaluate:
  assumes env: "proper_env env"
  shows "wf_expr e \<Longrightarrow> runs (evaluate env e) (means env e)"
proof (induction e)
  case (ELiteral l)
  show ?case
    unfolding evaluate_eqs
    by (rule runs_conv [OF runs_bind_charge [OF runs_liftE]]) (auto simp: means_simps)
next
  case (ERoot r)
  show ?case
    unfolding evaluate_eqs
    by (cases r; rule runs_conv [OF runs_bind_charge [OF runs_liftE]]) (auto simp: means_simps)
next
  case (EList es)
  have "runs (mapE (evaluate env) es) (means_list env es)"
    using EList by (intro runs_mapE) (auto simp: list_all_iff)
  then show ?case
    unfolding evaluate_eqs
    by (rule runs_conv [OF runs_bind_charge [OF runs_map]]) (auto simp: means_simps)
next
  case (EField e f)
  then show ?case
    unfolding evaluate_eqs
    by (intro runs_conv [OF runs_bind_charge [OF runs_bindE [OF _ runs_liftE]]]) (auto simp: means_simps)
next
  case (EIndex e k)
  then show ?case
    unfolding evaluate_eqs
    by (intro runs_conv [OF runs_bind_charge [OF runs_bindE [OF _ runs_liftE]]]) (auto simp: means_simps)
next
  case (ENot e)
  then show ?case
    unfolding evaluate_eqs
    by (intro runs_conv [OF runs_bind_charge [OF runs_bool]]) (auto simp: means_simps)
next
  case (ECall f es)
  have "runs (mapE (evaluate env) es) (means_list env es)"
    using ECall by (intro runs_mapE) (auto simp: list_all_iff)
  then show ?case
    unfolding evaluate_eqs
    by (intro runs_conv [OF runs_bind_charge [OF runs_bindE [OF _ runs_call]]]) (auto simp: means_simps)
next
  case (EBinary opr l r)
  then have l: "runs (evaluate env l) (means env l)" and r: "runs (evaluate env r) (means env r)"
    by simp_all
  consider "opr = OpAnd" | "opr = OpOr" | "opr \<noteq> OpAnd \<and> opr \<noteq> OpOr" by blast
  then show ?case
  proof cases
    case 1
    show ?thesis
      using runs_bind_charge [OF runs_logical [OF l r, of Not], of 1] unfolding 1 evaluate_binary_eqs
      by (rule runs_conv) (auto simp: means_simps binary_means_simps ex_bool_eq; blast)
  next
    case 2
    show ?thesis
      using runs_bind_charge [OF runs_logical [OF l r, of "\<lambda>b. b"], of 1] unfolding 2 evaluate_binary_eqs
      by (rule runs_conv) (auto simp: means_simps binary_means_simps ex_bool_eq; blast)
  next
    case 3
    have op: "runs (strict_binary opr v w) (binary_means opr v w)"
      if "means env l v c" "means env r w d" for v w c d
      using that EBinary.prems means_proper(1) [OF _ env] by (intro runs_strict_binary) auto
    have rest: "runs (bindE (evaluate env r) (\<lambda>w. bindE (strict_binary opr v w) (\<lambda>b. okE (VBool b))))
        (\<lambda>u c. \<exists>w d k b. means env r w d \<and> binary_means opr v w b k \<and> u = VBool b \<and> c = d + k)"
      if "means env l v c" for v c
      by (rule runs_conv [OF runs_bindE [OF r runs_map [OF op [OF that]]]]) auto
    show ?thesis
      unfolding evaluate_binary_eqs(3) [OF 3 [THEN conjunct1] 3 [THEN conjunct2]]
      by (rule runs_conv [OF runs_bind_charge [OF runs_bindE [OF l rest]]], assumption)
        (use 3 in \<open>auto simp: means_simps; metis add.assoc\<close>)
  qed
qed

section \<open>Static types\<close>

fun has_static_type :: "static_kind \<Rightarrow> router_value \<Rightarrow> bool" where
  "has_static_type Boolean v = (\<exists>b. v = VBool b)"
| "has_static_type NonBoolean v = (\<nexists>b. v = VBool b)"
| "has_static_type Unknown v = True"

lemma call_static_type: "call_means f vs v k \<Longrightarrow> has_static_type (function_static_type f) v"
  by (auto simp: call_means.simps)

lemma literal_static_type: "eval_literal l = Inr v \<Longrightarrow> has_static_type (static_type (ELiteral l)) v"
  by (cases l) (auto split: if_splits)

lemma means_static_type: "means env e v c \<Longrightarrow> has_static_type (static_type e) v"
  by (cases rule: means.cases) (auto simp: call_static_type dest: literal_static_type)

section \<open>Properties\<close>

text \<open>
  C31: on a well-formed tree and proper inputs, the evaluator returns a value exactly when the
  expression means that value at a cost within the fuel of the expression and of the
  activation, and both fuels have then fallen by exactly that cost.
\<close>
theorem evaluate_refines:
  assumes "proper_env env" "wf_expr e" "expression_fuel s \<le> u64_max"
  shows "evaluate env e s = (Inr v, s') \<longleftrightarrow> (\<exists>c. means env e v c \<and> fits c s \<and> s' = spend c s)"
  using runsD [OF runs_evaluate [OF assms(1,2)] assms(3)] .

definition sample_env :: environment where
  "sample_env = \<lparr>env_inputs = VObject [(''k'', VString ''a''), (''xs'', VList [VNumber (NInt 1), VNumber (NInt 4)])],
     env_memory = VObject [(''a'', VNull)], env_control = VNull\<rparr>"


lemmas evaluate_compute = bindE_def liftE_def charge_def strict_binary_def call_function_def
  eval_equal_def eval_order_def contains_value_def om_get_def number_compare_rat cmp_def

lemma sample_numbers:
  "parse_number ''1'' = Inr (NInt 1)" "parse_number ''2'' = Inr (NInt 2)"
  "parse_number ''2.5'' = Inr (NDecimal \<lparr>coefficient = 25, scale = 1\<rparr>)"
  by code_simp+

lemma sample_result:
  "evaluate sample_env sample_ast \<lparr>expression_fuel = 10000, activation_fuel = 50000\<rparr>
      = (Inr (VBool True), \<lparr>expression_fuel = 9980, activation_fuel = 49980\<rparr>)"
  by (simp add: sample_env_def sample_ast_def evaluate_compute sample_numbers)

lemma evaluate_refines_witness: "means sample_env sample_ast (VBool True) 20"
proof -
  let ?s = "\<lparr>expression_fuel = 10000, activation_fuel = 50000\<rparr>"
  have h: "proper_env sample_env" "expression_fuel ?s \<le> u64_max"
    by (simp_all add: proper_env_def sample_env_def om_wf_def u64_max_def)
  have "wf_expr sample_ast"
    using compile_sample wp_compile [of plain_serde sample_source] by (simp add: compiled_ok_def)
  from evaluate_refines [OF h(1) this h(2), THEN iffD1, OF sample_result]
  obtain c where c: "means sample_env sample_ast (VBool True) c" "c \<le> 10000" "10000 - c = 9980"
    by (auto simp: spend_def fits_def)
  then have "c = 20" by linarith
  with c show ?thesis by simp
qed

text \<open>Every computation spends both fuels alike, also when it fails.\<close>

definition pays :: "'a ev \<Rightarrow> bool" where
  "pays m \<longleftrightarrow> (\<forall>s. \<exists>c. fits c s \<and> snd (m s) = spend c s)"

lemma pays_liftE [intro!]: "pays (liftE r)"
  by (auto simp: pays_def liftE_def intro!: exI [of _ 0])

lemma pays_charge [intro!]: "pays (charge k)"
  unfolding pays_def
proof
  fix s
  show "\<exists>c. fits c s \<and> snd (charge k s) = spend c s"
    by (cases "fits k s")
       (auto simp: charge_def fits_def spend_def intro: exI [of _ k] exI [of _ 0])
qed

lemma pays_bindE [intro!]:
  assumes "pays m" "\<And>a. pays (f a)"
  shows "pays (bindE m f)"
  unfolding pays_def
proof
  fix s
  obtain r t where m: "m s = (r, t)" by (cases "m s")
  then obtain c where c: "fits c s" "t = spend c s" using assms(1) by (metis pays_def snd_conv)
  show "\<exists>c. fits c s \<and> snd (bindE m f s) = spend c s"
  proof (cases r)
    case (Inl e)
    then show ?thesis using m c by (auto simp: bindE_def)
  next
    case (Inr a)
    obtain d where "fits d t" "snd (f a t) = spend d t" using assms(2) [of a] by (auto simp: pays_def)
    then show ?thesis
      using m c Inr by (auto simp: bindE_def fits_split spend_add(2) intro!: exI [of _ "c + d"])
  qed
qed

lemma pays_if [intro!]: "pays m \<Longrightarrow> pays n \<Longrightarrow> pays (if b then m else n)"
  by simp

lemma pays_equal [intro]: "pays (eval_equal l r)"
  by (auto simp: eval_equal_def deep_equal_def split: router_value.splits)

lemma pays_order [intro]: "pays (eval_order l r)"
  by (auto simp: eval_order_def split: router_value.splits)

lemma pays_contains_loop [intro]: "pays (contains_loop n vs)"
proof (induction vs)
  case Nil
  have "contains_loop n [] = okE False" by (rule ext) simp
  then show ?case by auto
next
  case (Cons v vs)
  have eq: "contains_loop n (v # vs) = bindE (charge 1) (\<lambda>_. bindE (eval_equal n v)
      (\<lambda>b. if b then okE True else contains_loop n vs))"
    by (rule ext) simp
  show ?case unfolding eq using Cons by auto
qed

lemma pays_strict_binary [intro]: "pays (strict_binary opr l r)"
  by (auto simp: strict_binary_def contains_value_def split: binary_op.splits router_value.splits)

lemma pays_call [intro]: "pays (call_function f vs)"
  by (auto simp: call_function_def string_predicate_def ascii_case_def
      split: func.splits list.splits router_value.splits)

lemma pays_mapE:
  assumes "\<And>e. e \<in> set es \<Longrightarrow> pays (f e)"
  shows "pays (mapE f es)"
  using assms
proof (induction es)
  case Nil
  have "mapE f [] = okE []" by (rule ext) simp
  then show ?case by auto
next
  case (Cons e es)
  have eq: "mapE f (e # es) = bindE (f e) (\<lambda>v. bindE (mapE f es) (\<lambda>vs. okE (v # vs)))"
    by (rule ext) simp
  show ?case unfolding eq using Cons by auto
qed

lemma pays_evaluate: "pays (evaluate env e)"
proof (induction e)
  case (EBinary opr l r)
  then show ?case
    by (cases opr) (auto simp: evaluate_binary_eqs)
qed (auto simp: evaluate_eqs intro!: pays_bindE pays_mapE)

text \<open>
  An expression costs its activation at most 10,000 fuel and never gives fuel back,
  whatever its result.
\<close>
theorem evaluate_expression_fuel:
  "snd (evaluate_expression c env n) \<le> n \<and> n - snd (evaluate_expression c env n) \<le> 10000"
proof -
  have "pays (bindE (evaluate env (ast c)) (\<lambda>v. liftE (as_bool v)))"
    using pays_evaluate by auto
  then show ?thesis
    by (auto simp: pays_def evaluate_expression_def fits_def spend_def EXPRESSION_FUEL_def
        split: prod.splits dest!: spec [of _ "\<lparr>expression_fuel = EXPRESSION_FUEL, activation_fuel = n\<rparr>"])
qed

lemma evaluate_expression_means:
  assumes "proper_env env" "wf_expr (ast c)" "evaluate_expression c env n = (Inr b, m)"
  shows "\<exists>k. means env (ast c) (VBool b) k \<and> k \<le> 10000 \<and> k \<le> n \<and> m = n - k"
proof -
  let ?s = "\<lparr>expression_fuel = EXPRESSION_FUEL, activation_fuel = n\<rparr>"
  have s: "expression_fuel ?s \<le> u64_max" by (simp add: EXPRESSION_FUEL_def u64_max_def)
  obtain s' where "evaluate env (ast c) ?s = (Inr (VBool b), s')" "m = activation_fuel s'"
    using assms(3) by (auto simp: evaluate_expression_def bindE_def liftE_def as_bool_Inr
        split: prod.splits sum.splits)
  then show ?thesis
    using runsD [OF runs_evaluate [OF assms(1,2)] s, THEN iffD1]
    by (fastforce simp: fits_def spend_def EXPRESSION_FUEL_def)
qed

text \<open>
  C32: graph validation rejects only hopeless rules: a rule that is statically non-boolean never
  evaluates to a boolean, on any inputs and any fuel.
\<close>
theorem statically_non_boolean_sound:
  assumes "compile_expression sd src = Inr c" "is_statically_non_boolean c" "proper_env env"
  shows "fst (evaluate_expression c env n) \<noteq> Inr b"
proof
  assume "fst (evaluate_expression c env n) = Inr b"
  then obtain m where "evaluate_expression c env n = (Inr b, m)"
    by (cases "evaluate_expression c env n") auto
  moreover have "wf_expr (ast c)"
    using wp_compile [of sd src] assms(1) by (simp add: compiled_ok_def)
  ultimately obtain k where "means env (ast c) (VBool b) k"
    using evaluate_expression_means assms(3) by blast
  then show False
    using means_static_type assms(2) by (fastforce simp: is_statically_non_boolean_def)
qed

lemma statically_non_boolean_sound_witness:
  "\<exists>c. compile_expression plain_serde ''size(inputs.xs)'' = Inr c
    \<and> fst (evaluate_expression c sample_env 50000) \<noteq> Inr True"
proof -
  have c: "compile_expression plain_serde ''size(inputs.xs)''
      = Inr \<lparr>source = ''size(inputs.xs)'', ast = ECall Size [EField (ERoot Inputs) ''xs'']\<rparr>"
    by code_simp
  show ?thesis
    using statically_non_boolean_sound [OF c, of sample_env 50000 True]
    by (auto simp: c is_statically_non_boolean_def proper_env_def sample_env_def om_wf_def)
qed

text \<open>
  The evaluator's structural equality of lists and objects is equality of what the values
  denote: numbers by exact value, whatever their notation, objects as maps.
\<close>
theorem structural_equal_exact:
  assumes "proper l" "proper r"
  shows "structural_equal l r \<longleftrightarrow> sem l = sem r"
  using assms by (rule structural_equal_sem)

lemma structural_equal_exact_witness:
  "structural_equal (VList [VNumber (NInt 2)]) (VList [VNumber (NDecimal \<lparr>coefficient = 20, scale = 1\<rparr>)])"
  by (subst structural_equal_exact) simp_all

section \<open>Inputs\<close>

lemma from_json_proper: "wf_json v \<Longrightarrow> from_json v = Inr w \<Longrightarrow> proper w"
proof (induction v arbitrary: w)
  case (JArray vs)
  then obtain ws where ws: "mapR from_json vs = Inr ws" "w = VList ws" by (auto simp: bindR_eq_Inr)
  have "proper y" if "y \<in> set ws" for y
    using mapR_set [OF ws(1) that] JArray by (auto simp: list_all_iff)
  then show ?case by (simp add: ws list_all_iff)
next
  case (JObject m)
  then obtain kvs where kvs: "mapR (\<lambda>(k, v). bindR (check_string k) (\<lambda>_. bindR (from_json v) (\<lambda>w. Inr (k, w)))) m = Inr kvs"
    "w = VObject (om_of_list kvs)" by (auto simp: bindR_eq_Inr)
  have "proper y" if "(k, y) \<in> set kvs" for k y
    using mapR_set [OF kvs(1) that] JObject by (fastforce simp: list_all_iff bindR_eq_Inr)
  moreover have "(k, y) \<in> set kvs" if "(k, y) \<in> set (om_of_list kvs)" for k y
    using that om_get_set [OF om_wf_of_list, of kvs k y] om_get_of_list [of kvs k]
    by (auto dest: map_of_SomeD)
  ultimately show ?case by (auto simp: kvs list_all_iff)
qed (auto simp: bindR_eq_Inr)

lemma environment_from_json_proper:
  "wf_json i \<Longrightarrow> wf_json m \<Longrightarrow> wf_json c \<Longrightarrow> environment_from_json sd i m c = Inr env \<Longrightarrow> proper_env env"
  by (auto simp: environment_from_json_def bindR_eq_Inr proper_env_def from_json_proper split: if_splits)

end
