(* ===== verification/Router_Decision.thy ===== *)
theory Router_Decision
  imports Router_Refinement Graph_Types
begin

text \<open>
  \<open>crates/core/src/router/decision.rs\<close>: one activation of a router node, from its resolved
  inputs to the ports it selects or the error it fails with.
\<close>

section \<open>The code\<close>

datatype limit_reason = MaxVisits | Timeout

fun limit_reason_text :: "limit_reason \<Rightarrow> string" where
  "limit_reason_text MaxVisits = ''max_visits''"
| "limit_reason_text Timeout = ''timeout''"

record control_snapshot =
  visits :: nat
  first_visited_at :: int
  decision_at :: int
  elapsed_ms :: nat
  limit_reasons :: "limit_reason list"

datatype decision_reason = RuleMatch | Default | Limit

record router_decision =
  dec_dsl_version :: string
  matched_rule_ids :: "string list"
  evaluated_rule_ids :: "string list"
  selected_ports :: "string list"
  reason :: decision_reason
  control :: control_snapshot
  payload :: json

text \<open>The codes of a failed decision: those of the expressions and the decision's own.\<close>

datatype decision_code =
    NodeKindRequired | ControlLimitExceeded | InputMissing | NoMatch | ControlSnapshotMissing
  | Expression router_code
  | HostFault

record decision_error =
  err_code :: decision_code
  err_rule_id :: "string option"
  err_evaluated :: "string list"

definition decision_error :: "decision_code \<Rightarrow> string option \<Rightarrow> string list \<Rightarrow> decision_error" where
  "decision_error code rule evaluated =
     \<lparr>err_code = code, err_rule_id = rule, err_evaluated = evaluated\<rparr>"

fun inputs_loop :: "input_port list \<Rightarrow> (string, json) omap \<Rightarrow> (string \<times> json) list \<Rightarrow> decision_error + json" where
  "inputs_loop [] resolved object = Inr (JObject object)"
| "inputs_loop (port # ports) resolved object =
     (case om_get resolved (in_name port) of
        None \<Rightarrow> Inl (decision_error InputMissing None [])
      | Some v \<Rightarrow> inputs_loop ports resolved (om_insert (in_name port) v object))"

definition inputs_object :: "'llm graph_node \<Rightarrow> (string, json) omap \<Rightarrow> decision_error + json" where
  "inputs_object nd resolved = inputs_loop (inputs nd) resolved []"

definition select_payload :: "'llm graph_node \<Rightarrow> (string, json) omap \<Rightarrow> string option \<Rightarrow> decision_error + json" where
  "select_payload nd resolved port =
     (case port of
        Some p \<Rightarrow> of_optionR (decision_error InputMissing None []) (om_get resolved p)
      | None \<Rightarrow> inputs_object nd resolved)"

text \<open>The set of seen ports is the set of the ports in the target.\<close>

fun append_unique :: "string list \<Rightarrow> string set \<Rightarrow> string list \<Rightarrow> string list \<times> string set" where
  "append_unique target seen [] = (target, seen)"
| "append_unique target seen (v # vs) =
     (if v \<in> seen then append_unique target seen vs
      else append_unique (target @ [v]) (insert v seen) vs)"

record rules_state =
  rs_evaluated :: "string list"
  rs_matched :: "string list"
  rs_selected :: "string list"
  rs_seen :: "string set"

fun stop_code :: "parse_stop \<Rightarrow> decision_code" where
  "stop_code (Fail c) = Expression c"
| "stop_code Panic = HostFault"
| "stop_code OutOfFuel = HostFault"

fun rules_loop ::
  "serde \<Rightarrow> environment \<Rightarrow> match_mode \<Rightarrow> router_rule list \<Rightarrow> nat \<Rightarrow> rules_state \<Rightarrow> decision_error + rules_state" where
  "rules_loop sd env mode [] n st = Inr st"
| "rules_loop sd env mode (rule # rs) n st =
     (let evaluated = rs_evaluated st @ [rule_id rule]
      in case compile_expression sd (rule_when rule) of
        Inl stop \<Rightarrow> Inl (decision_error (stop_code stop) (Some (rule_id rule)) evaluated)
      | Inr expression \<Rightarrow>
          (case evaluate_expression expression env n of
             (Inl c, _) \<Rightarrow> Inl (decision_error (Expression c) (Some (rule_id rule)) evaluated)
           | (Inr matches, n) \<Rightarrow>
               (let st = st\<lparr>rs_evaluated := evaluated\<rparr>
                in if matches then
                  (let (selected, seen) = append_unique (rs_selected st) (rs_seen st) (rule_outputs rule);
                       st = st\<lparr>rs_matched := rs_matched st @ [rule_id rule],
                               rs_selected := selected, rs_seen := seen\<rparr>
                   in if mode = First then Inr st else rules_loop sd env mode rs n st)
                else rules_loop sd env mode rs n st)))"

definition control_json :: "control_snapshot \<Rightarrow> json" where
  "control_json c = JObject (om_of_list
     [(''visits'', json_nat (visits c)), (''elapsedMs'', json_nat (elapsed_ms c)),
      (''limitReasons'', JArray (map (JString \<circ> limit_reason_text) (limit_reasons c)))])"

definition decide_by_rules ::
  "serde \<Rightarrow> 'llm graph_node \<Rightarrow> router_config \<Rightarrow> (string, json) omap \<Rightarrow> json \<Rightarrow> control_snapshot \<Rightarrow> json
     \<Rightarrow> decision_error + router_decision" where
  "decide_by_rules sd nd cfg resolved memory ctl pl =
     bindR (inputs_object nd resolved) (\<lambda>inputs_value.
     bindR (map_errR (\<lambda>c. decision_error (Expression c) None [])
         (environment_from_json sd inputs_value memory (control_json ctl))) (\<lambda>env.
     bindR (rules_loop sd env (router_match_mode cfg) (rules cfg) ACTIVATION_FUEL
         \<lparr>rs_evaluated = [], rs_matched = [], rs_selected = [], rs_seen = {}\<rparr>) (\<lambda>st.
     bindR (if rs_matched st = [] then
         (case default_outputs cfg of
            None \<Rightarrow> Inl (decision_error NoMatch None (rs_evaluated st))
          | Some ports \<Rightarrow> Inr (ports, Default))
       else Inr (rs_selected st, RuleMatch)) (\<lambda>(selected, why).
     Inr \<lparr>dec_dsl_version = dsl_version cfg, matched_rule_ids = rs_matched st,
          evaluated_rule_ids = rs_evaluated st, selected_ports = selected, reason = why,
          control = ctl, payload = pl\<rparr>))))"

definition evaluate_router ::
  "serde \<Rightarrow> 'llm graph_node \<Rightarrow> (string, json) omap \<Rightarrow> json \<Rightarrow> control_snapshot \<Rightarrow> decision_error + router_decision" where
  "evaluate_router sd nd resolved memory ctl =
     (case kind nd of
        NRouter cfg \<Rightarrow>
          bindR (select_payload nd resolved (payload_port cfg)) (\<lambda>pl.
          if limit_reasons ctl \<noteq> [] then
            (let selected = (case router_limits_of cfg of None \<Rightarrow> []
                             | Some l \<Rightarrow> (case on_limit_outputs l of None \<Rightarrow> [] | Some ports \<Rightarrow> ports))
             in if selected = [] then Inl (decision_error ControlLimitExceeded None [])
                else Inr \<lparr>dec_dsl_version = dsl_version cfg, matched_rule_ids = [],
                          evaluated_rule_ids = [], selected_ports = selected, reason = Limit,
                          control = ctl, payload = pl\<rparr>)
          else decide_by_rules sd nd cfg resolved memory ctl pl)
      | _ \<Rightarrow> Inl (decision_error NodeKindRequired None []))"

section \<open>What a decision is\<close>

text \<open>The rule is compiled and its expression means the boolean \<open>b\<close>.\<close>

definition holds :: "serde \<Rightarrow> environment \<Rightarrow> router_rule \<Rightarrow> bool \<Rightarrow> bool" where
  "holds sd env r b \<longleftrightarrow>
     (\<exists>c k. compile_expression sd (rule_when r) = Inr c \<and> means env (ast c) (VBool b) k)"

lemma holds_unique: "holds sd env r b \<Longrightarrow> holds sd env r b' \<Longrightarrow> b = b'"
  by (auto simp: holds_def dest: means_deterministic(1))

fun first_occurrences :: "'a list \<Rightarrow> 'a list" where
  "first_occurrences [] = []"
| "first_occurrences (x # xs) = x # filter (\<lambda>y. y \<noteq> x) (first_occurrences xs)"

lemma first_occurrences_set [simp]: "set (first_occurrences xs) = set xs"
  by (induction xs) auto

lemma first_occurrences_distinct [simp]: "distinct (first_occurrences xs)"
  by (induction xs) auto

lemma first_occurrences_append:
  "first_occurrences (xs @ ys) = first_occurrences xs @ filter (\<lambda>y. y \<notin> set xs) (first_occurrences ys)"
  by (induction xs) (auto intro: filter_cong simp: conj_commute)

lemma append_unique_spec:
  "append_unique t (set t) vs = (first_occurrences (t @ vs), set t \<union> set vs)"
  if "distinct t" for t
proof -
  have d: "first_occurrences t = t" if "distinct t" for t :: "string list"
    using that by (induction t) (auto simp: filter_id_conv)
  show ?thesis
    using that
  proof (induction t "set t" vs rule: append_unique.induct)
    case (2 t v vs)
    then show ?case
    proof (cases "v \<in> set t")
      case True
      then have "first_occurrences (t @ v # vs) = first_occurrences (t @ vs)"
        by (simp add: first_occurrences_append) (rule filter_cong, auto)
      then show ?thesis using 2 True by auto
    next
      case False
      then show ?thesis using 2 by auto
    qed
  qed (simp add: d)
qed

lemma rule_step:
  assumes "proper_env env" "compile_expression sd (rule_when r) = Inr c"
    "evaluate_expression c env n = (Inr b, n')"
  shows "holds sd env r b"
proof -
  have "wf_expr (ast c)"
    using wp_compile [of sd "rule_when r"] assms(2) by (simp add: compiled_ok_def)
  then show ?thesis
    using evaluate_expression_means [OF assms(1) _ assms(3)] assms(2) unfolding holds_def by blast
qed

text \<open>What the loop has done to its state after the rules \<open>done\<close> with the truth values \<open>bs\<close>.\<close>

definition true_rules :: "router_rule list \<Rightarrow> bool list \<Rightarrow> router_rule list" where
  "true_rules rs bs = map fst (filter snd (zip rs bs))"

lemma true_rules_simps [simp]:
  "true_rules [] bs = []" "true_rules (r # rs) (b # bs) = (if b then [r] else []) @ true_rules rs bs"
  by (simp_all add: true_rules_def)

definition after_rules :: "rules_state \<Rightarrow> router_rule list \<Rightarrow> bool list \<Rightarrow> rules_state \<Rightarrow> bool" where
  "after_rules st rs bs st' \<longleftrightarrow>
     rs_evaluated st' = rs_evaluated st @ map rule_id rs
   \<and> rs_matched st' = rs_matched st @ map rule_id (true_rules rs bs)
   \<and> rs_selected st' = first_occurrences (rs_selected st @ concat (map rule_outputs (true_rules rs bs)))
   \<and> rs_seen st' = set (rs_selected st')"

definition state_ok :: "rules_state \<Rightarrow> bool" where
  "state_ok st \<longleftrightarrow> distinct (rs_selected st) \<and> rs_seen st = set (rs_selected st)"

definition ran :: "match_mode \<Rightarrow> nat \<Rightarrow> router_rule list \<Rightarrow> bool list \<Rightarrow> bool" where
  "ran mode k rs bs \<longleftrightarrow> k \<le> length rs \<and>
     (k = length rs \<and> (mode = First \<longrightarrow> True \<notin> set bs)
      \<or> mode = First \<and> (\<exists>j. k = j + 1 \<and> bs = replicate j False @ [True]))"

lemma ran_Cons_False: "ran mode k rs bs \<Longrightarrow> ran mode (Suc k) (r # rs) (False # bs)"
  by (auto simp: ran_def intro: exI [of _ "Suc _"])

lemma ran_Cons_All: "ran All k rs bs \<Longrightarrow> ran All (Suc k) (r # rs) (b # bs)"
  by (auto simp: ran_def)

lemma after_rules_Cons_False:
  "after_rules (st\<lparr>rs_evaluated := rs_evaluated st @ [rule_id r]\<rparr>) rs bs st' \<Longrightarrow> after_rules st (r # rs) (False # bs) st'"
  by (simp add: after_rules_def)

lemma first_occurrences_idem: "first_occurrences (first_occurrences xs @ ys) = first_occurrences (xs @ ys)"
proof -
  have "first_occurrences t = t" if "distinct t" for t :: "'a list"
    using that by (induction t) (auto simp: filter_id_conv)
  then show ?thesis by (simp add: first_occurrences_append)
qed

lemma after_rules_Cons_True:
  assumes "after_rules st1 rs bs st'" "rs_evaluated st1 = rs_evaluated st @ [rule_id r]"
    "rs_matched st1 = rs_matched st @ [rule_id r]"
    "rs_selected st1 = first_occurrences (rs_selected st @ rule_outputs r)"
  shows "after_rules st (r # rs) (True # bs) st'"
  using assms first_occurrences_idem [of "rs_selected st @ rule_outputs r"] by (simp add: after_rules_def)

lemma rules_loop_Inr:
  "rules_loop sd env mode rs n st = Inr st' \<Longrightarrow> state_ok st \<Longrightarrow> proper_env env \<Longrightarrow>
    \<exists>k bs. ran mode k rs bs \<and> list_all2 (holds sd env) (take k rs) bs \<and> after_rules st (take k rs) bs st'"
proof (induction rs arbitrary: n st)
  case Nil
  have "first_occurrences (rs_selected st) = rs_selected st"
    using Nil(2) append_unique_spec [of "rs_selected st" "[]"] by (simp add: state_ok_def)
  then show ?case
    using Nil by (intro exI [of _ 0] exI [of _ "[]"]) (auto simp: ran_def after_rules_def state_ok_def)
next
  case (Cons r rs)
  obtain c where c: "compile_expression sd (rule_when r) = Inr c"
    using Cons(2) by (auto simp: Let_def split: sum.splits)
  obtain b n' where e: "evaluate_expression c env n = (Inr b, n')"
    using Cons(2) c by (auto simp: Let_def split: sum.splits prod.splits)
  have holds: "holds sd env r b" by (rule rule_step [OF Cons(4) c e])
  let ?st = "st\<lparr>rs_evaluated := rs_evaluated st @ [rule_id r]\<rparr>"
  show ?case
  proof (cases b)
    case False
    then have "rules_loop sd env mode rs n' ?st = Inr st'"
      using Cons(2) c e by (simp add: Let_def)
    moreover have "state_ok ?st" using Cons(3) by (simp add: state_ok_def)
    ultimately obtain k bs where "ran mode k rs bs" "list_all2 (holds sd env) (take k rs) bs"
      "after_rules ?st (take k rs) bs st'"
      using Cons(1) Cons(4) by blast
    then show ?thesis
      using holds False after_rules_Cons_False ran_Cons_False
      by (intro exI [of _ "Suc k"] exI [of _ "False # bs"]) auto
  next
    case True
    define st1 where "st1 = ?st\<lparr>rs_matched := rs_matched st @ [rule_id r],
        rs_selected := first_occurrences (rs_selected st @ rule_outputs r),
        rs_seen := set (rs_selected st) \<union> set (rule_outputs r)\<rparr>"
    have u: "append_unique (rs_selected st) (rs_seen st) (rule_outputs r)
        = (first_occurrences (rs_selected st @ rule_outputs r), set (rs_selected st) \<union> set (rule_outputs r))"
      using Cons(3) append_unique_spec [of "rs_selected st"] by (simp add: state_ok_def)
    have st1: "state_ok st1" "rs_evaluated st1 = rs_evaluated st @ [rule_id r]"
      "rs_matched st1 = rs_matched st @ [rule_id r]"
      "rs_selected st1 = first_occurrences (rs_selected st @ rule_outputs r)"
      by (simp_all add: st1_def state_ok_def)
    have run: "(if mode = First then Inr st1 else rules_loop sd env mode rs n' st1) = Inr st'"
      using Cons(2) c e True u by (cases mode) (simp_all add: Let_def st1_def)
    show ?thesis
    proof (cases mode)
      case First
      then have "st' = st1" using run by simp
      then have "after_rules st [r] [True] st'"
        using st1 by (simp add: after_rules_def state_ok_def)
      then show ?thesis
        using holds True First
        by (intro exI [of _ 1] exI [of _ "[True]"]) (auto simp: ran_def intro!: exI [of _ 0])
    next
      case All
      then have "rules_loop sd env mode rs n' st1 = Inr st'" using run by simp
      then obtain k bs where "ran mode k rs bs" "list_all2 (holds sd env) (take k rs) bs"
        "after_rules st1 (take k rs) bs st'"
        using Cons(1) st1(1) Cons(4) All by blast
      then show ?thesis
        using holds True All after_rules_Cons_True [OF _ st1(2-4)] ran_Cons_All
        by (intro exI [of _ "Suc k"] exI [of _ "True # bs"]) auto
    qed
  qed
qed

text \<open>
  The error of a rule that is tried after \<open>j\<close> others, with \<open>n\<close> fuel at the start: it is the error of
  its compilation, or of its evaluation with the fuel that those others left, at most 10,000 less for each.
\<close>

definition rule_fails :: "serde \<Rightarrow> environment \<Rightarrow> nat \<Rightarrow> nat \<Rightarrow> router_rule \<Rightarrow> router_code \<Rightarrow> bool" where
  "rule_fails sd env n j r code \<longleftrightarrow>
     compile_expression sd (rule_when r) = Inl (Fail code)
     \<or> (\<exists>c m. compile_expression sd (rule_when r) = Inr c \<and> m \<le> n \<and> n - m \<le> 10000 * j
          \<and> fst (evaluate_expression c env m) = Inl code)"

lemma rule_fails_later:
  assumes "rule_fails sd env n' j r code" "n' \<le> n" "n - n' \<le> 10000"
  shows "rule_fails sd env n (Suc j) r code"
proof -
  have "n - m \<le> 10000 * Suc j" "m \<le> n" if "m \<le> n'" "n' - m \<le> 10000 * j" for m
    using that assms(2,3) by simp_all
  then show ?thesis using assms(1) unfolding rule_fails_def by blast
qed

lemma rules_loop_Inl:
  "rules_loop sd env mode rs n st = Inl e \<Longrightarrow> proper_env env \<Longrightarrow>
    \<exists>j < length rs. err_rule_id e = Some (rule_id (rs ! j))
      \<and> err_evaluated e = rs_evaluated st @ map rule_id (take (Suc j) rs)
      \<and> (\<exists>c. err_code e = Expression c \<and> rule_fails sd env n j (rs ! j) c) \<and> (\<forall>i < j. \<exists>b. holds sd env (rs ! i) b)"
proof (induction rs arbitrary: n st)
  case (Cons r rs)
  show ?case
  proof (cases "\<exists>c b n'. compile_expression sd (rule_when r) = Inr c \<and> evaluate_expression c env n = (Inr b, n')")
    case False
    have "\<exists>code. e = decision_error (Expression code) (Some (rule_id r)) (rs_evaluated st @ [rule_id r])
        \<and> rule_fails sd env n 0 r code"
    proof (cases "compile_expression sd (rule_when r)")
      case (Inl s)
      then obtain code where "s = Fail code" using wp_compile [of sd "rule_when r"] by (cases s) (auto simp: wp_def)
      then show ?thesis using Cons(2) Inl by (simp add: rule_fails_def Let_def)
    next
      case (Inr c)
      with False obtain code n' where "evaluate_expression c env n = (Inl code, n')"
        by (cases "evaluate_expression c env n"; cases "fst (evaluate_expression c env n)") auto
      then show ?thesis using Cons(2) Inr by (auto simp: rule_fails_def Let_def intro!: exI [of _ n])
    qed
    then show ?thesis by (intro exI [of _ 0]) (auto simp: decision_error_def)
  next
    case True
    then obtain c b n' where c: "compile_expression sd (rule_when r) = Inr c"
      and e: "evaluate_expression c env n = (Inr b, n')" by blast
    have holds: "holds sd env r b" by (rule rule_step [OF Cons(3) c e])
    have n': "n' \<le> n" "n - n' \<le> 10000" using evaluate_expression_fuel [of c env n] by (simp_all add: e)
    obtain st1 where st1: "rules_loop sd env mode rs n' st1 = Inl e" "rs_evaluated st1 = rs_evaluated st @ [rule_id r]"
      using Cons(2) c e by (auto simp: Let_def split: prod.splits if_splits)
    then obtain j code where j: "j < length rs" "err_rule_id e = Some (rule_id (rs ! j))"
      "err_evaluated e = rs_evaluated st1 @ map rule_id (take (Suc j) rs)" "err_code e = Expression code"
      "rule_fails sd env n' j (rs ! j) code" "\<forall>i < j. \<exists>b. holds sd env (rs ! i) b"
      using Cons(1) Cons(3) by blast
    from rule_fails_later [OF j(5) n'] show ?thesis
      using j(1-4,6) st1(2) holds by (intro exI [of _ "Suc j"]) (auto simp: less_Suc_eq_0_disj)
  qed
qed simp

section \<open>Properties\<close>

text \<open>The environment a router node evaluates its rules in.\<close>

definition router_environment ::
  "serde \<Rightarrow> 'llm graph_node \<Rightarrow> (string, json) omap \<Rightarrow> json \<Rightarrow> control_snapshot \<Rightarrow> environment \<Rightarrow> bool" where
  "router_environment sd nd resolved memory ctl env \<longleftrightarrow>
     (\<exists>v. inputs_object nd resolved = Inr v \<and> environment_from_json sd v memory (control_json ctl) = Inr env)"

definition resolved_ok :: "(string, json) omap \<Rightarrow> bool" where
  "resolved_ok m \<longleftrightarrow> list_all (\<lambda>(_, v). wf_json v) m"

lemma inputs_loop_wf:
  "inputs_loop ports m obj = Inr v \<Longrightarrow> resolved_ok m \<Longrightarrow> wf_json (JObject obj) \<Longrightarrow> wf_json v"
proof (induction ports arbitrary: obj)
  case (Cons port ports)
  then obtain w where w: "om_get m (in_name port) = Some w"
    "inputs_loop ports m (om_insert (in_name port) w obj) = Inr v"
    by (auto split: option.splits)
  have "wf_json w"
    using om_get_in_set [OF w(1)] Cons(3) by (auto simp: resolved_ok_def list_all_iff)
  then show ?case using Cons(1) [OF w(2) Cons(3)] wf_json_object_insert [OF Cons(4)] by simp
qed simp

lemma inputs_loop_Inl: "inputs_loop ports m obj = Inl e \<Longrightarrow> e = decision_error InputMissing None []"
  by (induction ports arbitrary: obj) (auto split: option.splits)

lemma inputs_loop_missing: "inputs_loop ports m obj = Inl e \<Longrightarrow> \<exists>p \<in> set ports. om_get m (in_name p) = None"
  by (induction ports arbitrary: obj) (auto split: option.splits)

lemma control_json_wf: "wf_json (control_json ctl)"
proof -
  have "wf_json v" if "(k, v) \<in> set (om_of_list [(''visits'', json_nat (visits ctl)),
      (''elapsedMs'', json_nat (elapsed_ms ctl)),
      (''limitReasons'', JArray (map (JString \<circ> limit_reason_text) (limit_reasons ctl)))])" for k v
    using om_get_set [OF om_wf_of_list, THEN iffD2, OF that] unfolding om_get_of_list
    by (auto simp: json_nat_def list_all_iff split: if_splits)
  then show ?thesis by (auto simp: control_json_def list_all_iff)
qed

lemma router_environment_proper:
  assumes "router_environment sd nd resolved memory ctl env" "resolved_ok resolved" "wf_json memory"
  shows "proper_env env"
  using assms environment_from_json_proper [OF _ assms(3) control_json_wf] inputs_loop_wf
  by (force simp: router_environment_def inputs_object_def om_wf_def)

lemma decide_by_rules_Inr:
  assumes ok: "decide_by_rules sd nd cfg resolved memory ctl pl = Inr d"
    and wf: "resolved_ok resolved" "wf_json memory"
  shows "\<exists>env k bs. router_environment sd nd resolved memory ctl env \<and> ran (router_match_mode cfg) k (rules cfg) bs
    \<and> list_all2 (holds sd env) (take k (rules cfg)) bs
    \<and> evaluated_rule_ids d = map rule_id (take k (rules cfg))
    \<and> matched_rule_ids d = map rule_id (true_rules (take k (rules cfg)) bs)
    \<and> (if true_rules (take k (rules cfg)) bs = []
       then reason d = Default \<and> default_outputs cfg = Some (selected_ports d)
       else reason d = RuleMatch \<and>
         selected_ports d = first_occurrences (concat (map rule_outputs (true_rules (take k (rules cfg)) bs))))
    \<and> payload d = pl \<and> control d = ctl"
proof -
  let ?st0 = "\<lparr>rs_evaluated = [], rs_matched = [], rs_selected = [], rs_seen = {}\<rparr>"
  from ok obtain v env st where h: "inputs_object nd resolved = Inr v"
    "environment_from_json sd v memory (control_json ctl) = Inr env"
    "rules_loop sd env (router_match_mode cfg) (rules cfg) ACTIVATION_FUEL ?st0 = Inr st"
    by (auto simp: decide_by_rules_def bindR_eq_Inr)
  have env: "router_environment sd nd resolved memory ctl env"
    using h by (auto simp: router_environment_def)
  obtain k bs where k: "ran (router_match_mode cfg) k (rules cfg) bs"
    "list_all2 (holds sd env) (take k (rules cfg)) bs" "after_rules ?st0 (take k (rules cfg)) bs st"
    using rules_loop_Inr [OF h(3)] router_environment_proper [OF env wf] by (auto simp: state_ok_def)
  show ?thesis
    using ok h env k
    by (intro exI [of _ env] exI [of _ k] exI [of _ bs])
      (auto simp: decide_by_rules_def after_rules_def split: if_splits option.splits)
qed

lemma evaluate_router_rules:
  "kind nd = NRouter cfg \<Longrightarrow> limit_reasons ctl = [] \<Longrightarrow> evaluate_router sd nd resolved memory ctl = Inr d \<Longrightarrow>
    \<exists>pl. decide_by_rules sd nd cfg resolved memory ctl pl = Inr d"
  by (auto simp: evaluate_router_def bindR_eq_Inr)

lemma list_all2_nth_holds:
  "list_all2 (holds sd env) (take k rs) bs \<Longrightarrow> k \<le> length rs \<Longrightarrow> i < k \<Longrightarrow> holds sd env (rs ! i) (bs ! i)"
  by (auto simp: list_all2_conv_all_nth)

lemma true_rules_none: "length rs = length bs \<Longrightarrow> true_rules rs bs = [] \<longleftrightarrow> True \<notin> set bs"
  by (induction rs bs rule: list_induct2) auto

lemma true_rules_append:
  "length rs = length bs \<Longrightarrow> true_rules (rs @ rs') (bs @ bs') = true_rules rs bs @ true_rules rs' bs'"
  by (simp add: true_rules_def)

lemma all_rules_false: "list_all2 (holds sd env) rs bs \<Longrightarrow> True \<notin> set bs \<Longrightarrow> x \<in> set rs \<Longrightarrow> holds sd env x False"
  by (induction rs bs rule: list_all2_induct) auto

lemma true_rules_holds:
  "list_all2 (holds sd env) rs bs \<Longrightarrow> true_rules rs bs = filter (\<lambda>r. holds sd env r True) rs"
  by (induction rs bs rule: list_all2_induct) (auto dest: holds_unique)


text \<open>
  In mode \<open>all\<close>, every rule is evaluated, and the selected ports are the outputs of the
  true rules in rule order, each port once at its first occurrence; with no true rule the
  default route is taken.
\<close>
theorem all_mode_decision:
  assumes "kind nd = NRouter cfg" "router_match_mode cfg = All" "limit_reasons ctl = []"
    "resolved_ok resolved" "wf_json memory" "evaluate_router sd nd resolved memory ctl = Inr d"
  shows "\<exists>env. router_environment sd nd resolved memory ctl env
    \<and> (\<forall>r \<in> set (rules cfg). holds sd env r True \<or> holds sd env r False)
    \<and> evaluated_rule_ids d = map rule_id (rules cfg)
    \<and> (let ts = filter (\<lambda>r. holds sd env r True) (rules cfg)
       in matched_rule_ids d = map rule_id ts
        \<and> (if ts = [] then reason d = Default \<and> default_outputs cfg = Some (selected_ports d)
           else reason d = RuleMatch \<and> selected_ports d = first_occurrences (concat (map rule_outputs ts))))"
proof -
  obtain pl where "decide_by_rules sd nd cfg resolved memory ctl pl = Inr d"
    using evaluate_router_rules [OF assms(1,3,6)] by blast
  from decide_by_rules_Inr [OF this assms(4,5)] obtain env k bs where
    env: "router_environment sd nd resolved memory ctl env" and r: "ran All k (rules cfg) bs"
    and bs: "list_all2 (holds sd env) (take k (rules cfg)) bs"
    and d: "evaluated_rule_ids d = map rule_id (take k (rules cfg))"
      "matched_rule_ids d = map rule_id (true_rules (take k (rules cfg)) bs)"
      "if true_rules (take k (rules cfg)) bs = []
       then reason d = Default \<and> default_outputs cfg = Some (selected_ports d)
       else reason d = RuleMatch \<and>
         selected_ports d = first_occurrences (concat (map rule_outputs (true_rules (take k (rules cfg)) bs)))"
    using assms(2) by auto
  have k: "take k (rules cfg) = rules cfg" using r by (auto simp: ran_def)
  have "holds sd env x True \<or> holds sd env x False" if "x \<in> set (rules cfg)" for x
    using bs that unfolding k by (induction rule: list_all2_induct) (auto, metis (full_types))
  moreover have "true_rules (rules cfg) bs = filter (\<lambda>r. holds sd env r True) (rules cfg)"
    using bs true_rules_holds unfolding k by blast
  ultimately show ?thesis
    using env d unfolding k by (intro exI [of _ env]) (simp add: Let_def split: if_splits)
qed


text \<open>
  Once a control limit is reached no rule is evaluated: whatever the rules, the decision is
  the on-limit route, or \<open>router_control_limit_exceeded\<close> without one.
\<close>
theorem limit_bypasses_rules:
  assumes "kind nd = NRouter cfg" "limit_reasons ctl \<noteq> []" "select_payload nd resolved (payload_port cfg) = Inr pl"
    "router_limits_of cfg = Some l"
  shows "evaluate_router sd nd resolved memory ctl =
    (case on_limit_outputs l of
       Some (p # ps) \<Rightarrow> Inr \<lparr>dec_dsl_version = dsl_version cfg, matched_rule_ids = [], evaluated_rule_ids = [],
          selected_ports = p # ps, reason = Limit, control = ctl, payload = pl\<rparr>
     | _ \<Rightarrow> Inl \<lparr>err_code = ControlLimitExceeded, err_rule_id = None, err_evaluated = []\<rparr>)"
  using assms by (auto simp: evaluate_router_def decision_error_def split: option.splits list.splits)

section \<open>A concrete router\<close>

definition sample_rules :: "router_rule list" where
  "sample_rules =
     [\<lparr>rule_id = ''low'', rule_when = ''inputs.n < 3'', rule_outputs = [''a'']\<rparr>,
      \<lparr>rule_id = ''high'', rule_when = ''inputs.n >= 3'', rule_outputs = [''b'', ''c'', ''b'']\<rparr>,
      \<lparr>rule_id = ''any'', rule_when = ''true'', rule_outputs = [''c'', ''a'']\<rparr>]"

definition sample_config :: "match_mode \<Rightarrow> string list option \<Rightarrow> router_config" where
  "sample_config mode route =
     \<lparr>dsl_version = ''router-dsl-v1'', rules = sample_rules, router_match_mode = mode,
      default_outputs = route, payload_port = None, router_memory = None,
      router_limits_of = Some \<lparr>max_visits_per_run = Some 5, timeout_ms_per_run = None,
        max_read_reconciles = Some 2, on_limit_outputs = Some [''a'']\<rparr>\<rparr>"

definition sample_router :: "router_config \<Rightarrow> unit graph_node" where
  "sample_router cfg =
     \<lparr>node_id = ''r'', node_name = None, is_entry = False,
      inputs = [\<lparr>in_name = ''n'', in_schema = None, in_selector = WholeValue\<rparr>],
      outputs = map (\<lambda>p. \<lparr>out_name = p, out_schema = None\<rparr>) [''a'', ''b'', ''c''],
      timeout_ms = None, node_retry_policy = None, kind = NRouter cfg\<rparr>"

definition sample_control :: "limit_reason list \<Rightarrow> control_snapshot" where
  "sample_control why = \<lparr>visits = 1, first_visited_at = 0, decision_at = 0, elapsed_ms = 0, limit_reasons = why\<rparr>"

definition sample_inputs :: "(string, json) omap" where
  "sample_inputs = [(''n'', JNumber ''5'')]"

lemma sample_compiled:
  "compile_expression plain_serde ''inputs.n < 3'' = Inr \<lparr>source = ''inputs.n < 3'',
     ast = EBinary OpLess (EField (ERoot Inputs) ''n'') (ELiteral (LNumber ''3''))\<rparr>"
  "compile_expression plain_serde ''inputs.n >= 3'' = Inr \<lparr>source = ''inputs.n >= 3'',
     ast = EBinary OpGreaterEqual (EField (ERoot Inputs) ''n'') (ELiteral (LNumber ''3''))\<rparr>"
  "compile_expression plain_serde ''true'' = Inr \<lparr>source = ''true'', ast = ELiteral (LBool True)\<rparr>"
  by code_simp+

lemma sample_parsed:
  "parse_number ''3'' = Inr (NInt 3)" "parse_number ''5'' = Inr (NInt 5)"
  "parse_number ''1'' = Inr (NInt 1)" "parse_number ''0'' = Inr (NInt 0)"
  "show_nat 0 = ''0''" "show_nat (Suc 0) = ''1''"
  by code_simp+

definition sample_router_env :: environment where
  "sample_router_env = \<lparr>env_inputs = VObject [(''n'', VNumber (NInt 5))], env_memory = VNull,
     env_control = VObject [(''elapsedMs'', VNumber (NInt 0)), (''limitReasons'', VList []),
       (''visits'', VNumber (NInt 1))]\<rparr>"

lemma sample_environment:
  "environment_from_json plain_serde (JObject sample_inputs) JNull (control_json (sample_control []))
     = Inr sample_router_env"
  by (simp add: environment_from_json_def plain_serde_def checked_add_u64_def u64_max_def MAX_RESOLVED_BYTES_def
      sample_inputs_def control_json_def sample_control_def om_of_list_def json_nat_def sample_parsed
      check_string_def ROUTER_MAX_STRING_BYTES_def sample_router_env_def)

lemma sample_ok [simp]:
  "limit_reasons (sample_control why) = why" "resolved_ok sample_inputs" "kind (sample_router cfg) = NRouter cfg"
  by (simp_all add: sample_control_def resolved_ok_def sample_inputs_def sample_router_def)

lemma sample_config_simps [simp]:
  "rules (sample_config m r) = sample_rules" "router_match_mode (sample_config m r) = m"
  "default_outputs (sample_config m r) = r" "payload_port (sample_config m r) = None"
  "dsl_version (sample_config m r) = ''router-dsl-v1''"
  by (simp_all add: sample_config_def)

lemmas decision_compute = evaluate_router_def decide_by_rules_def select_payload_def inputs_object_def
  sample_router_def sample_rules_def sample_compiled sample_environment [unfolded sample_inputs_def]
  sample_inputs_def om_get_def evaluate_expression_def EXPRESSION_FUEL_def ACTIVATION_FUEL_def
  evaluate_compute sample_parsed sample_router_env_def

definition sample_decision :: "string list \<Rightarrow> string list \<Rightarrow> string list \<Rightarrow> router_decision" where
  "sample_decision matched evaluated selected =
     \<lparr>dec_dsl_version = ''router-dsl-v1'', matched_rule_ids = matched, evaluated_rule_ids = evaluated,
      selected_ports = selected, reason = RuleMatch, control = sample_control [],
      payload = JObject sample_inputs\<rparr>"

lemma sample_first:
  "evaluate_router plain_serde (sample_router (sample_config First None)) sample_inputs JNull (sample_control [])
     = Inr (sample_decision [''high''] [''low'', ''high''] [''b'', ''c''])"
  by (simp add: decision_compute sample_decision_def)

lemma sample_all:
  "evaluate_router plain_serde (sample_router (sample_config All None)) sample_inputs JNull (sample_control [])
     = Inr (sample_decision [''high'', ''any''] [''low'', ''high'', ''any''] [''b'', ''c'', ''a''])"
  by (simp add: decision_compute sample_decision_def)


lemma all_mode_decision_witness:
  "\<exists>env. map rule_id (filter (\<lambda>r. holds plain_serde env r True) sample_rules) = [''high'', ''any'']"
  using all_mode_decision [of "sample_router (sample_config All None)", OF _ _ _ _ _ sample_all]
  by (simp add: sample_decision_def Let_def) metis

lemma sample_bad:
  "evaluate_router plain_serde
     (sample_router ((sample_config First None)\<lparr>rules := [\<lparr>rule_id = ''bad'', rule_when = ''inputs.m < 3'', rule_outputs = [''a'']\<rparr>]\<rparr>))
     sample_inputs JNull (sample_control []) = Inl (decision_error (Expression MissingValue) (Some ''bad'') [''bad''])"
proof -
  have "compile_expression plain_serde ''inputs.m < 3'' = Inr \<lparr>source = ''inputs.m < 3'',
     ast = EBinary OpLess (EField (ERoot Inputs) ''m'') (ELiteral (LNumber ''3''))\<rparr>"
    by code_simp
  then show ?thesis
    by (simp add: decision_compute)
qed


lemma limit_bypasses_rules_witness:
  "\<exists>d. evaluate_router plain_serde (sample_router (sample_config First None)) sample_inputs JNull (sample_control [MaxVisits]) = Inr d
     \<and> selected_ports d = [''a''] \<and> evaluated_rule_ids d = []"
proof -
  let ?l = "\<lparr>max_visits_per_run = Some 5, timeout_ms_per_run = None, max_read_reconciles = Some 2, on_limit_outputs = Some [''a'']\<rparr>"
  have h: "select_payload (sample_router (sample_config First None)) sample_inputs (payload_port (sample_config First None))
      = Inr (JObject sample_inputs)" "router_limits_of (sample_config First None) = Some ?l"
    by (simp_all add: select_payload_def inputs_object_def sample_router_def sample_inputs_def om_get_def sample_config_def)
  show ?thesis
    by (subst limit_bypasses_rules [OF _ _ h]) simp_all
qed

end
