(* ===== verification/Graph_Wellformed.thy ===== *)
theory Graph_Wellformed
  imports Graph_Apply Router_Decision
begin

text \<open>
  What an applied graph promises: the checks of the validators, stated as properties of the
  graph, and the promises to the router's decisions.
\<close>

section \<open>Well-formed routers\<close>

definition valid_route :: "string set \<Rightarrow> string list \<Rightarrow> bool" where
  "valid_route declared vs \<longleftrightarrow> vs \<noteq> [] \<and> distinct vs \<and> set vs \<subseteq> declared"

definition valid_rule :: "serde \<Rightarrow> string set \<Rightarrow> router_rule \<Rightarrow> bool" where
  "valid_rule sd declared r \<longleftrightarrow> rule_id r \<noteq> [] \<and> valid_route declared (rule_outputs r)
     \<and> (\<exists>c. compile_expression sd (rule_when r) = Inr c \<and> \<not> is_statically_non_boolean c)"

definition valid_read :: "router_read \<Rightarrow> bool" where
  "valid_read r \<longleftrightarrow> read_id r \<noteq> [] \<and> read_alias r \<noteq> [] \<and> \<not> invalid_source r
     \<and> 0 < read_max_bytes r \<and> read_max_bytes r \<le> 1024 * 1024"

definition valid_limits :: "run_limits \<Rightarrow> string set \<Rightarrow> router_limits \<Rightarrow> bool" where
  "valid_limits run declared l \<longleftrightarrow> max_visits_per_run l \<noteq> Some 0 \<and> timeout_ms_per_run l \<noteq> Some 0
     \<and> (\<exists>v. max_read_reconciles l = Some v \<and> 0 < v \<and> v < max_attempts_per_activation run)
     \<and> (\<forall>vs. on_limit_outputs l = Some vs \<longrightarrow> valid_route declared vs)"

definition valid_router :: "serde \<Rightarrow> run_limits \<Rightarrow> 'llm graph_node \<Rightarrow> router_config \<Rightarrow> bool" where
  "valid_router sd run nd cfg \<longleftrightarrow>
     (let declared = set (map out_name (outputs nd)) in
      dsl_version cfg = ''router-dsl-v1'' \<and> length (rules cfg) \<le> MAX_ROUTER_RULES
      \<and> list_all (valid_rule sd declared) (rules cfg) \<and> distinct (map rule_id (rules cfg))
      \<and> (\<forall>vs. default_outputs cfg = Some vs \<longrightarrow> valid_route declared vs)
      \<and> (\<forall>p. payload_port cfg = Some p \<longrightarrow> p \<in> set (map in_name (inputs nd)))
      \<and> (\<forall>l. router_limits_of cfg = Some l \<longrightarrow> valid_limits run declared l)
      \<and> (\<forall>reads. router_memory cfg = Some reads \<longrightarrow> length reads \<le> 128 \<and> list_all valid_read reads
          \<and> distinct (map read_id reads) \<and> distinct (map read_alias reads)))"

lemma validate_route_Nil: "validate_route vs declared path = [] \<longleftrightarrow> valid_route declared vs"
  by (auto simp: validate_route_def valid_route_def any_bad_iff)

lemma compile_issues_Nil:
  "compile_issues sd src path = [] \<longleftrightarrow> (\<exists>c. compile_expression sd src = Inr c \<and> \<not> is_statically_non_boolean c)"
  by (auto simp: compile_issues_def split: sum.splits parse_stop.splits)

lemma rule_issues_Nil:
  "rule_issues sd nid declared i ids rs = [] \<longleftrightarrow>
    list_all (valid_rule sd declared) rs \<and> distinct (map rule_id rs) \<and> rule_id ` set rs \<inter> ids = {}"
  by (induction rs arbitrary: i ids) (auto simp: valid_rule_def validate_route_Nil compile_issues_Nil)

lemma read_issues_Nil:
  "read_issues nid i ids aliases rs = [] \<longleftrightarrow>
    list_all valid_read rs \<and> distinct (map read_id rs) \<and> distinct (map read_alias rs)
    \<and> read_id ` set rs \<inter> ids = {} \<and> read_alias ` set rs \<inter> aliases = {}"
  by (induction rs arbitrary: i ids aliases) (auto simp: valid_read_def Let_def)

lemma validate_router_limits_Nil:
  "validate_router_limits nid l run declared = [] \<longleftrightarrow> valid_limits run declared l"
  by (auto simp: validate_router_limits_def valid_limits_def validate_route_Nil not_le split: option.splits)

lemma validate_router_Nil:
  "validate_router sd nd run = [] \<longleftrightarrow> (\<forall>cfg. kind nd = NRouter cfg \<longrightarrow> valid_router sd run nd cfg)"
proof (cases "kind nd")
  case (NRouter cfg)
  show ?thesis
    by (auto simp: NRouter validate_router_def valid_router_def Let_def rule_issues_Nil validate_route_Nil
        validate_router_limits_Nil validate_memory_def read_issues_Nil not_le split: option.splits)
qed (simp_all add: validate_router_def)

text \<open>
  The validation of a router node reports nothing exactly on the routers that can be run:
  the rule names and the routes are distinct and declared, every condition compiles and is not
  known to be no boolean, the limits and the memory reads are within their bounds.
\<close>
theorem validate_router_exact:
  "validate_router sd nd run = [] \<longleftrightarrow> (\<forall>cfg. kind nd = NRouter cfg \<longrightarrow> valid_router sd run nd cfg)"
  by (rule validate_router_Nil)

section \<open>Well-formed nodes\<close>

definition valid_policy :: "retry_policy \<Rightarrow> bool" where
  "valid_policy p \<longleftrightarrow> 0 < max_retries p \<and> retry_on p \<noteq> [] \<and> [] \<notin> set (retry_on p) \<and> distinct (retry_on p)
     \<and> 1000000 \<le> multiplier_micros p \<and> jitter_ratio_micros p \<le> 1000000 \<and> 0 < max_backoff_ms p"

definition valid_coordination :: "run_limits \<Rightarrow> 'llm graph_node \<Rightarrow> bool" where
  "valid_coordination limits nd \<longleftrightarrow>
     (case kind nd of
        NMerge _ \<Rightarrow> 2 \<le> length (inputs nd) \<and> length (outputs nd) = 1
      | NJoinByKey selectors max_open_keys max_buffered \<Rightarrow>
          2 \<le> length (inputs nd) \<and> length (outputs nd) = 1
          \<and> set (map in_name (inputs nd)) = set (om_keys selectors)
          \<and> list_all (\<lambda>(_, pointer). validate_pointer pointer = Inr ()) selectors
          \<and> 0 < max_open_keys \<and> max_open_keys \<le> max_coordinator_buffered_values limits
          \<and> 0 < max_buffered \<and> max_buffered \<le> max_coordinator_buffered_values limits
      | NAggregator count \<Rightarrow>
          length (inputs nd) = 1 \<and> length (outputs nd) = 1
          \<and> 0 < count \<and> count \<le> max_coordinator_buffered_values limits
          \<and> (\<exists>t. timeout_ms nd = Some t \<and> t \<le> max_run_wall_clock_ms limits)
          \<and> (1 < count \<longrightarrow> 2 \<le> max_attempts_per_activation limits)
      | NExpand max_items \<Rightarrow>
          length (inputs nd) = 1 \<and> length (outputs nd) = 1
          \<and> 0 < max_items \<and> max_items \<le> max_pending_queue_values limits
      | _ \<Rightarrow> True)"

definition valid_node :: "serde \<Rightarrow> run_limits \<Rightarrow> 'llm graph_node \<Rightarrow> bool" where
  "valid_node sd limits nd \<longleftrightarrow> node_id nd \<noteq> [] \<and> timeout_ms nd \<noteq> Some 0
     \<and> (\<forall>p. node_retry_policy nd = Some p \<longrightarrow> valid_policy p)
     \<and> distinct (map in_name (inputs nd)) \<and> [] \<notin> set (map in_name (inputs nd))
     \<and> distinct (map out_name (outputs nd)) \<and> [] \<notin> set (map out_name (outputs nd))
     \<and> (\<forall>cfg. kind nd = NRouter cfg \<longrightarrow> valid_router sd limits nd cfg) \<and> valid_coordination limits nd"

lemma validate_coordination_Nil: "validate_coordination nd limits = [] \<longleftrightarrow> valid_coordination limits nd"
  by (auto simp: validate_coordination_def valid_coordination_def Let_def option_greater_def list_all_iff not_le
      split: node_kind.splits option.splits)

lemma validate_execution_policy_Nil:
  "validate_execution_policy nd = [] \<longleftrightarrow>
    timeout_ms nd \<noteq> Some 0 \<and> (\<forall>p. node_retry_policy nd = Some p \<longrightarrow> valid_policy p)"
  by (auto simp: validate_execution_policy_def valid_policy_def any_bad_iff not_less split: option.splits)

lemma unique_ports_Nil:
  "unique_ports nd = [] \<longleftrightarrow>
    distinct (map in_name (inputs nd)) \<and> [] \<notin> set (map in_name (inputs nd))
    \<and> distinct (map out_name (outputs nd)) \<and> [] \<notin> set (map out_name (outputs nd))"
  by (auto simp: unique_ports_def any_bad_iff)

lemma node_issues_Nil:
  "node_issues sd limits ids nds = [] \<longleftrightarrow>
    list_all (valid_node sd limits) nds \<and> distinct (map node_id nds) \<and> node_id ` set nds \<inter> ids = {}"
proof (induction nds arbitrary: ids)
  case (Cons nd nds)
  show ?case
    unfolding node_issues.simps append_is_Nil_conv Cons.IH push_if_Nil validate_execution_policy_Nil
      unique_ports_Nil validate_router_Nil validate_coordination_Nil
    by (auto simp: valid_node_def [of sd limits nd])
qed simp

lemma validate_nodes_Nil:
  "validate_nodes sd nds limits = [] \<longleftrightarrow>
    list_all (valid_node sd limits) nds \<and> distinct (map node_id nds) \<and> (\<exists>nd \<in> set nds. is_entry nd)"
  by (auto simp: validate_nodes_def node_issues_Nil filter_empty_conv)

section \<open>Well-formed edges and outputs\<close>

definition has_output :: "'llm graph_node list \<Rightarrow> output_ref \<Rightarrow> bool" where
  "has_output nds r \<longleftrightarrow> (\<exists>nd \<in> set nds. node_id nd = from_node r
     \<and> (\<exists>p \<in> set (outputs nd). out_name p = from_output r))"

definition has_input :: "'llm graph_node list \<Rightarrow> input_ref \<Rightarrow> bool" where
  "has_input nds r \<longleftrightarrow> (\<exists>nd \<in> set nds. node_id nd = to_node r
     \<and> (\<exists>p \<in> set (inputs nd). in_name p = to_input r))"

text \<open>Every edge joins ports that exist, no input has two edges and no input but an entry's has none.\<close>

definition valid_edges :: "'llm graph_node list \<Rightarrow> graph_edge list \<Rightarrow> bool" where
  "valid_edges nds edges \<longleftrightarrow>
     list_all (\<lambda>e. has_output nds (edge_from e) \<and> has_input nds (edge_to e)) edges
     \<and> distinct (map (\<lambda>e. (to_node (edge_to e), to_input (edge_to e))) edges)
     \<and> (\<forall>nd \<in> set nds. \<not> is_entry nd \<longrightarrow>
          (\<forall>p \<in> set (inputs nd). \<exists>e \<in> set edges. to_node (edge_to e) = node_id nd \<and> to_input (edge_to e) = in_name p))"

definition valid_outputs :: "'llm graph_node list \<Rightarrow> output_contract_entry list \<Rightarrow> bool" where
  "valid_outputs nds contracts \<longleftrightarrow>
     distinct (map contract_key contracts) \<and> (\<forall>c \<in> set contracts. contract_key c \<noteq> [])
     \<and> (\<forall>nd \<in> set nds. \<forall>key. kind nd = NOutput key \<longrightarrow> (\<exists>c \<in> set contracts. contract_key c = key))
     \<and> (\<forall>c \<in> set contracts. length (filter (is_sink (contract_key c)) nds) = 1)"

lemma node_by_id_Some:
  assumes "distinct (map node_id nds)"
  shows "node_by_id nds i = Some nd \<longleftrightarrow> nd \<in> set nds \<and> node_id nd = i"
proof -
  let ?m = "rev (map (\<lambda>nd. (node_id nd, nd)) nds)"
  have "map fst ?m = rev (map node_id nds)" by (simp add: rev_map comp_def)
  then have "distinct (map fst ?m)" using assms by (simp only: distinct_rev)
  then have "node_by_id nds i = Some nd \<longleftrightarrow> (i, nd) \<in> set ?m"
    unfolding node_by_id_def by (rule map_of_eq_Some_iff)
  then show ?thesis by auto
qed

lemma node_lookup:
  assumes "distinct (map node_id nds)"
  shows "(case node_by_id nds i of None \<Rightarrow> False | Some nd \<Rightarrow> P nd) \<longleftrightarrow> (\<exists>nd \<in> set nds. node_id nd = i \<and> P nd)"
proof (cases "node_by_id nds i")
  case None
  then show ?thesis using node_by_id_Some [OF assms, of i] by auto
next
  case (Some nd)
  then have nd: "nd \<in> set nds" "node_id nd = i" using node_by_id_Some [OF assms, of i] by auto
  have "nd' = nd" if "nd' \<in> set nds" "node_id nd' = i" for nd'
  proof -
    have "node_by_id nds i = Some nd'" using that node_by_id_Some [OF assms] by blast
    then show ?thesis using Some by simp
  qed
  then have "(\<exists>nd \<in> set nds. node_id nd = i \<and> P nd) \<longleftrightarrow> P nd" using nd by blast
  then show ?thesis using Some by simp
qed

lemma edge_targets_iff:
  "(a, b) \<in> edge_targets edges \<longleftrightarrow> (\<exists>e \<in> set edges. to_node (edge_to e) = a \<and> to_input (edge_to e) = b)"
  by (auto simp: edge_targets_def)

lemma edge_issues_Nil:
  assumes "distinct (map node_id nds)"
  shows "edge_issues nds incoming edges = [] \<longleftrightarrow>
    list_all (\<lambda>e. has_output nds (edge_from e) \<and> has_input nds (edge_to e)) edges
    \<and> distinct (map (\<lambda>e. (to_node (edge_to e), to_input (edge_to e))) edges)
    \<and> edge_targets edges \<inter> incoming = {}"
proof (induction edges arbitrary: incoming)
  case (Cons e edges)
  have o: "(case node_by_id nds (from_node (edge_from e)) of None \<Rightarrow> False
      | Some nd \<Rightarrow> list_ex (\<lambda>p. out_name p = from_output (edge_from e)) (outputs nd)) = has_output nds (edge_from e)"
    unfolding node_lookup [OF assms] has_output_def list_ex_iff ..
  have i: "(case node_by_id nds (to_node (edge_to e)) of None \<Rightarrow> False
      | Some nd \<Rightarrow> list_ex (\<lambda>p. in_name p = to_input (edge_to e)) (inputs nd)) = has_input nds (edge_to e)"
    unfolding node_lookup [OF assms] has_input_def list_ex_iff ..
  show ?case
    unfolding edge_issues.simps Let_def o i append_is_Nil_conv Cons.IH push_if_Nil
    by (auto simp: edge_targets_def)
qed (simp add: edge_targets_def)

lemma validate_edges_Nil:
  assumes "distinct (map node_id nds)"
  shows "validate_edges nds edges = [] \<longleftrightarrow> valid_edges nds edges"
  by (auto simp: validate_edges_def edge_issues_Nil [OF assms] valid_edges_def edge_targets_iff)

lemma validate_outputs_Nil: "validate_outputs nds contracts = [] \<longleftrightarrow> valid_outputs nds contracts"
  by (auto simp: validate_outputs_def valid_outputs_def repeated_Nil list_ex_iff split: node_kind.splits)

lemma edges_loop_ids:
  "edges_loop sd sha ids es = Inr (r, is) \<Longrightarrow>
    is = [] \<longleftrightarrow> distinct (map edge_id r) \<and> (\<forall>e \<in> set r. edge_id e \<noteq> []) \<and> edge_id ` set r \<inter> ids = {}"
proof (induction es arbitrary: ids r "is")
  case (Cons e es)
  then show ?case by (fastforce simp: Let_def bindR_eq_Inr split: if_splits)
qed simp

lemma normalize_edges_Inr:
  assumes "normalize_edges sd sha es = Inr (edges, is)"
  shows "sorted (map edge_id edges)"
    "is = [] \<longleftrightarrow> distinct (map edge_id edges) \<and> (\<forall>e \<in> set edges. edge_id e \<noteq> [])"
proof -
  obtain r where r: "edges_loop sd sha {} es = Inr (r, is)" "edges = sort_key edge_id r"
    using assms by (auto simp: normalize_edges_def)
  show "sorted (map edge_id edges)" by (simp add: r(2))
  have "distinct (map edge_id edges) \<longleftrightarrow> distinct (map edge_id r)"
    by (simp add: r(2) distinct_map)
  then show "is = [] \<longleftrightarrow> distinct (map edge_id edges) \<and> (\<forall>e \<in> set edges. edge_id e \<noteq> [])"
    using edges_loop_ids [OF r(1)] by (simp add: r(2))
qed

section \<open>Well-formed graphs\<close>

definition positive_limits :: "run_limits \<Rightarrow> bool" where
  "positive_limits l \<longleftrightarrow> 0 < max_node_activations l \<and> 0 < max_attempts_per_activation l
     \<and> 0 < max_total_queue_values l \<and> 0 < max_pending_queue_values l \<and> 0 < max_open_waits l
     \<and> 0 < max_coordinator_buffered_values l \<and> 0 < max_run_wall_clock_ms l \<and> 0 < max_value_bytes l"

definition valid_selectors :: "selector_lib \<Rightarrow> 'llm graph_node list \<Rightarrow> bool" where
  "valid_selectors lib nds \<longleftrightarrow> (\<forall>nd \<in> set nds.
     (\<forall>sel. kind nd = NInput sel \<longrightarrow> validate_selector lib sel = Inr ())
     \<and> (\<forall>p \<in> set (inputs nd). validate_selector lib (in_selector p) = Inr ()))"

text \<open>Every cycle passes a limited router, and a reached limit leads out of the cycle for good.\<close>

definition cycles_limited :: "'llm graph_node list \<Rightarrow> graph_edge list \<Rightarrow> bool" where
  "cycles_limited nds edges \<longleftrightarrow>
     (\<forall>y. (y, y) \<notin> (edge_rel edges \<inter> (- guard_ids nds) \<times> (- guard_ids nds))\<^sup>+)
     \<and> (\<forall>e \<in> limit_edges nds edges. (to_node (edge_to e), from_node (edge_from e)) \<notin> (edge_rel edges)\<^sup>*)"

definition well_formed ::
  "serde \<Rightarrow> selector_lib \<Rightarrow> run_limits \<Rightarrow> 'llm graph_node list \<Rightarrow> graph_edge list \<Rightarrow> output_contract_entry list \<Rightarrow> bool"
  where
  "well_formed sd lib limits nds edges contracts \<longleftrightarrow> positive_limits limits
     \<and> list_all (valid_node sd limits) nds \<and> distinct (map node_id nds) \<and> (\<exists>nd \<in> set nds. is_entry nd)
     \<and> valid_selectors lib nds \<and> distinct (map edge_id edges) \<and> (\<forall>e \<in> set edges. edge_id e \<noteq> [])
     \<and> valid_edges nds edges \<and> valid_outputs nds contracts \<and> cycles_limited nds edges"

lemma normalize_limits_Nil: "snd (normalize_limits draft) = [] \<longleftrightarrow> positive_limits (fst (normalize_limits draft))"
  by (simp add: normalize_limits_def Let_def positive_limits_def)

lemma validate_selectors_Nil: "validate_selectors lib nds = [] \<longleftrightarrow> valid_selectors lib nds"
proof -
  have "(case kind nd of NInput sel \<Rightarrow> push_if (validate_selector lib sel \<noteq> Inr ()) (i sel) | _ \<Rightarrow> []) = []
      \<longleftrightarrow> (\<forall>sel. kind nd = NInput sel \<longrightarrow> validate_selector lib sel = Inr ())"
    for nd :: "'a graph_node" and i
    by (cases "kind nd") simp_all
  then show ?thesis by (auto simp: validate_selectors_def valid_selectors_def)
qed

lemma valid_edges_sources: "valid_edges nds edges \<Longrightarrow> \<forall>e \<in> set edges. from_node (edge_from e) \<in> node_ids nds"
  unfolding valid_edges_def list_all_iff has_output_def node_ids_def by (metis imageI)

lemma validate_cycles_Nil:
  assumes "valid_edges nds edges" "validate_cycles nds edges = Some is"
  shows "is = [] \<longleftrightarrow> cycles_limited nds edges"
  using cycle_check [OF valid_edges_sources [OF assms(1)]] assms(2)
  by (auto simp: cycles_limited_def)

text \<open>The steps of the check, and what each must say for a draft to be accepted.\<close>

lemma check_draft_cases:
  obtains (refused) e where "normalize_edges (ae_serde env) (ae_sha env) (dg_edges draft) = Inl e"
      "check_draft env draft taxonomy decoder = Some (Inl e)"
  | (checked) ck where "check_draft env draft taxonomy decoder = Some (Inr ck)"
      "ck_limits ck = fst (normalize_limits (dg_limits draft))"
      "ck_nodes ck = map fst (map (ae_llm env taxonomy decoder) (map (fst \<circ> normalize_node) (dg_nodes draft)))"
      "ck_issues ck = [] \<longleftrightarrow> taxonomy = OPERATION_TAXONOMY_VERSION \<and> decoder = ADAPTER_DECODER_VERSION
        \<and> list_all (\<lambda>nd. snd (normalize_node nd) = []) (dg_nodes draft)
        \<and> list_all (\<lambda>nd. snd (ae_llm env taxonomy decoder (fst (normalize_node nd))) = []) (dg_nodes draft)
        \<and> snd (compile_schemas env (ck_nodes ck) (dg_run_input_schema draft) (dg_output_contract draft)) = []
        \<and> well_formed (ae_serde env) (ae_selectors env) (ck_limits ck) (ck_nodes ck) (ck_edges ck)
            (dg_output_contract draft)"
      "sorted (map edge_id (ck_edges ck))"
proof (cases "normalize_edges (ae_serde env) (ae_sha env) (dg_edges draft)")
  case (Inl e)
  then show ?thesis by (intro refused [of e]) (simp_all add: check_draft_def Let_def split_def)
next
  case (Inr p)
  obtain edges ids where p: "p = (edges, ids)" by fastforce
  let ?ns = "map fst (map (ae_llm env taxonomy decoder) (map (fst \<circ> normalize_node) (dg_nodes draft)))"
  obtain cyc where cyc: "validate_cycles ?ns edges = Some cyc" using validate_cycles_result by blast
  obtain warn where warn: "unreachable_warnings ?ns edges = Some warn" using unreachable_total by blast
  note e = normalize_edges_Inr [OF Inr [unfolded p]]
  let ?ck = "the (Option.bind (check_draft env draft taxonomy decoder) (\<lambda>r. case r of Inl _ \<Rightarrow> None | Inr c \<Rightarrow> Some c))"
  have ck: "check_draft env draft taxonomy decoder = Some (Inr ?ck)"
    "ck_limits ?ck = fst (normalize_limits (dg_limits draft))" "ck_nodes ?ck = ?ns" "ck_edges ?ck = edges"
    "ck_issues ?ck = push_if (taxonomy \<noteq> OPERATION_TAXONOMY_VERSION)
          (graph_issue ''unsupported_operation_taxonomy'' ''/operationTaxonomyVersion'')
        @ push_if (decoder \<noteq> ADAPTER_DECODER_VERSION)
          (graph_issue ''unsupported_adapter_decoder'' ''/adapterDecoderVersion'')
        @ snd (normalize_limits (dg_limits draft)) @ concat (map (snd \<circ> normalize_node) (dg_nodes draft))
        @ concat (map snd (map (ae_llm env taxonomy decoder) (map (fst \<circ> normalize_node) (dg_nodes draft))))
        @ validate_nodes (ae_serde env) ?ns (fst (normalize_limits (dg_limits draft)))
        @ validate_selectors (ae_selectors env) ?ns @ ids @ validate_edges ?ns edges
        @ validate_outputs ?ns (dg_output_contract draft) @ cyc
        @ snd (compile_schemas env ?ns (dg_run_input_schema draft) (dg_output_contract draft))"
    using Inr cyc warn by (simp_all add: check_draft_def p Let_def split_def comp_def)
  show ?thesis
  proof (rule checked [OF ck(1-3)])
    show "sorted (map edge_id (ck_edges ?ck))" unfolding ck(4) by (rule e(1))
    show "ck_issues ?ck = [] \<longleftrightarrow> taxonomy = OPERATION_TAXONOMY_VERSION \<and> decoder = ADAPTER_DECODER_VERSION
        \<and> list_all (\<lambda>nd. snd (normalize_node nd) = []) (dg_nodes draft)
        \<and> list_all (\<lambda>nd. snd (ae_llm env taxonomy decoder (fst (normalize_node nd))) = []) (dg_nodes draft)
        \<and> snd (compile_schemas env (ck_nodes ?ck) (dg_run_input_schema draft) (dg_output_contract draft)) = []
        \<and> well_formed (ae_serde env) (ae_selectors env) (ck_limits ?ck) (ck_nodes ?ck) (ck_edges ?ck)
            (dg_output_contract draft)"
      unfolding ck(2-5) append_is_Nil_conv push_if_Nil normalize_limits_Nil validate_nodes_Nil
        validate_selectors_Nil e(2) validate_outputs_Nil well_formed_def not_not list_all_iff
      using validate_cycles_Nil [OF _ cyc] validate_edges_Nil [of ?ns edges] by auto
  qed
qed

text \<open>
  Applying a draft always ends, whatever its nodes, edges and dependencies: with an applied
  graph, with the issues found, or with the error of a document that has no canonical form.
\<close>
theorem apply_graph_terminates: "\<exists>r. apply_graph env draft taxonomy decoder = Some r"
  by (rule check_draft_cases [of env draft taxonomy decoder]) (auto simp: apply_graph_def)

lemma apply_graph_Inr:
  assumes "apply_graph env draft taxonomy decoder = Some (Inr g)"
  obtains ck where "check_draft env draft taxonomy decoder = Some (Inr ck)" "ck_issues ck = []"
    "ag_definition g = applied_of draft taxonomy decoder ck"
    "canonical_hash (ae_serde env) (ae_sha env) (ae_encode env (ag_definition g)) = Inr (ag_content_hash g)"
  using assms by (auto simp: apply_graph_def bindR_eq_Inr Let_def split: if_splits)

lemma applied_well_formed:
  assumes "apply_graph env draft taxonomy decoder = Some (Inr g)"
  shows "well_formed (ae_serde env) (ae_selectors env) (ad_limits (ag_definition g)) (ad_nodes (ag_definition g))
      (ad_edges (ag_definition g)) (ad_output_contract (ag_definition g))"
    "sorted (map edge_id (ad_edges (ag_definition g)))"
    "ad_operation_taxonomy_version (ag_definition g) = OPERATION_TAXONOMY_VERSION"
    "ad_adapter_decoder_version (ag_definition g) = ADAPTER_DECODER_VERSION"
proof (atomize (full), rule apply_graph_Inr [OF assms], rule check_draft_cases [of env draft taxonomy decoder],
    goal_cases)
  case (2 ck ck')
  then have ck: "ck' = ck" by simp
  have d: "ad_limits (ag_definition g) = ck_limits ck" "ad_nodes (ag_definition g) = ck_nodes ck"
    "ad_edges (ag_definition g) = ck_edges ck" "ad_output_contract (ag_definition g) = dg_output_contract draft"
    "ad_operation_taxonomy_version (ag_definition g) = taxonomy"
    "ad_adapter_decoder_version (ag_definition g) = decoder"
    unfolding 2(3) by (simp_all add: applied_of_def)
  show ?case unfolding d using 2(2,8,9) unfolding ck by blast
qed simp

text \<open>
  C1: a graph that was applied is well formed: node and edge ids are distinct, an input node
  exists, every edge joins declared ports, every input but an entry's has exactly one edge,
  every output key has exactly one sink, the policies, routers, coordination nodes and selectors
  are valid, and every cycle passes a router with a visit or time limit whose limit route leaves
  the cycle.
\<close>
theorem apply_graph_well_formed:
  assumes "apply_graph env draft taxonomy decoder = Some (Inr g)"
  shows "well_formed (ae_serde env) (ae_selectors env) (ad_limits (ag_definition g)) (ad_nodes (ag_definition g))
      (ad_edges (ag_definition g)) (ad_output_contract (ag_definition g))
    \<and> sorted (map edge_id (ad_edges (ag_definition g)))
    \<and> taxonomy = OPERATION_TAXONOMY_VERSION \<and> decoder = ADAPTER_DECODER_VERSION"
  using applied_well_formed [OF assms] apply_graph_Inr [OF assms]
  by (metis applied_of_def applied_definition.select_convs(3,4))

text \<open>What makes a draft acceptable, besides the well-formedness of the graph it becomes.\<close>

definition acceptable :: "'llm apply_env \<Rightarrow> 'llm graph_draft \<Rightarrow> nat \<Rightarrow> nat \<Rightarrow> 'llm checked \<Rightarrow> bool" where
  "acceptable env draft taxonomy decoder ck \<longleftrightarrow>
     taxonomy = OPERATION_TAXONOMY_VERSION \<and> decoder = ADAPTER_DECODER_VERSION
     \<and> list_all (\<lambda>nd. snd (normalize_node nd) = []) (dg_nodes draft)
     \<and> list_all (\<lambda>nd. snd (ae_llm env taxonomy decoder (fst (normalize_node nd))) = []) (dg_nodes draft)
     \<and> snd (compile_schemas env (ck_nodes ck) (dg_run_input_schema draft) (dg_output_contract draft)) = []
     \<and> well_formed (ae_serde env) (ae_selectors env) (ck_limits ck) (ck_nodes ck) (ck_edges ck)
         (dg_output_contract draft)"

lemma acceptable_issues:
  assumes "check_draft env draft taxonomy decoder = Some (Inr ck)"
  shows "ck_issues ck = [] \<longleftrightarrow> acceptable env draft taxonomy decoder ck"
  using assms by (cases rule: check_draft_cases [of env draft taxonomy decoder])
    (simp_all add: acceptable_def)

text \<open>
  A draft is refused with a list of issues exactly when the versions differ, a node has the wrong
  shape, the LLM checks or the schema compiler report something, or the normalised graph is not well
  formed; the list is never empty.  This is what the code refuses, and less than designs/11 asks for:
  a required output that no entry reaches, an edge between incompatible schemas and limits above the
  policy of a workspace are no reason to refuse a draft.
\<close>
theorem apply_graph_refuses_exactly:
  assumes "check_draft env draft taxonomy decoder = Some (Inr ck)"
  shows "((\<exists>is. apply_graph env draft taxonomy decoder = Some (Inl (GraphValidation is)))
      \<longleftrightarrow> \<not> acceptable env draft taxonomy decoder ck)
    \<and> apply_graph env draft taxonomy decoder \<noteq> Some (Inl (GraphValidation []))"
proof -
  have "canonical_hash sd sha v \<noteq> Inl (GraphValidation is)" for sd sha v "is"
    using canonical_hash_error [of sd sha v] by (auto simp: form_errors_def)
  then show ?thesis
    unfolding acceptable_issues [OF assms, symmetric] apply_graph_def assms
    by (auto simp: Let_def bindR_eq_Inl)
qed

section \<open>Decisions of applied routers\<close>

lemma valid_router_routes:
  assumes "valid_router sd run nd cfg"
  shows "r \<in> set (rules cfg) \<Longrightarrow> valid_route (set (map out_name (outputs nd))) (rule_outputs r)"
    "default_outputs cfg = Some vs \<Longrightarrow> valid_route (set (map out_name (outputs nd))) vs"
    "router_limits_of cfg = Some l \<Longrightarrow> on_limit_outputs l = Some vs \<Longrightarrow> valid_route (set (map out_name (outputs nd))) vs"
  using assms by (auto simp: valid_router_def Let_def list_all_iff valid_rule_def valid_limits_def)

lemma joined_routes:
  assumes "rs \<noteq> []" "\<And>r. r \<in> set rs \<Longrightarrow> valid_route D (rule_outputs r)"
  shows "valid_route D (first_occurrences (concat (map rule_outputs rs)))"
proof -
  have "concat (map rule_outputs rs) \<noteq> []" using assms by (cases rs) (auto simp: valid_route_def)
  then have "first_occurrences (concat (map rule_outputs rs)) \<noteq> []" by (metis first_occurrences_set set_empty)
  then show ?thesis using assms(2) by (auto simp: valid_route_def)
qed

lemma true_rules_subset: "set (true_rules rs bs) \<subseteq> set rs"
  by (auto simp: true_rules_def dest: set_zip_leftD)

lemma decision_route:
  assumes v: "valid_router sd run nd cfg" and k: "kind nd = NRouter cfg"
    and d: "evaluate_router sd' nd resolved memory ctl = Inr d" and ok: "resolved_ok resolved" "wf_json memory"
  shows "valid_route (set (map out_name (outputs nd))) (selected_ports d)"
proof (cases "limit_reasons ctl = []")
  case True
  obtain pl where "decide_by_rules sd' nd cfg resolved memory ctl pl = Inr d"
    using evaluate_router_rules [OF k True d] by blast
  from decide_by_rules_Inr [OF this ok] obtain m bs where
    p: "if true_rules (take m (rules cfg)) bs = []
      then reason d = Default \<and> default_outputs cfg = Some (selected_ports d)
      else reason d = RuleMatch \<and>
        selected_ports d = first_occurrences (concat (map rule_outputs (true_rules (take m (rules cfg)) bs)))"
    by blast
  have "set (true_rules (take m (rules cfg)) bs) \<subseteq> set (rules cfg)"
    using true_rules_subset [of "take m (rules cfg)" bs] set_take_subset [of m "rules cfg"] by blast
  then show ?thesis
    using p valid_router_routes(1,2) [OF v] joined_routes [of "true_rules (take m (rules cfg)) bs"]
    by (metis subsetD)
next
  case False
  then obtain l where "router_limits_of cfg = Some l" "on_limit_outputs l = Some (selected_ports d)"
    using d k by (auto simp: evaluate_router_def bindR_eq_Inr split: option.splits if_splits)
  then show ?thesis using valid_router_routes(3) [OF v] by blast
qed

text \<open>
  C4: in an applied graph, whatever a router's inputs, memory and control snapshot, a decision
  selects at least one port, no port twice, and only output ports that the router declares, in
  all three ways of deciding: by rules, by default and on a limit.
\<close>
theorem applied_router_ports:
  assumes "apply_graph env draft taxonomy decoder = Some (Inr g)" "nd \<in> set (ad_nodes (ag_definition g))"
    and "evaluate_router sd nd resolved memory ctl = Inr d" "resolved_ok resolved" "wf_json memory"
  shows "selected_ports d \<noteq> [] \<and> distinct (selected_ports d)
    \<and> set (selected_ports d) \<subseteq> set (map out_name (outputs nd))"
proof -
  obtain cfg where k: "kind nd = NRouter cfg"
    using assms(3) by (cases "kind nd") (simp_all add: evaluate_router_def)
  have "valid_router (ae_serde env) (ad_limits (ag_definition g)) nd cfg"
    using applied_well_formed(1) [OF assms(1)] assms(2) k
    by (auto simp: well_formed_def list_all_iff valid_node_def)
  from decision_route [OF this k assms(3-5)] show ?thesis by (simp add: valid_route_def)
qed

text \<open>
  An applied router never fails at run time because a rule does not compile: the expressions
  are compiled again at each activation, and those the graph was accepted with compile.
\<close>
theorem applied_rules_compile:
  assumes "apply_graph env draft taxonomy decoder = Some (Inr g)" "nd \<in> set (ad_nodes (ag_definition g))"
    and "kind nd = NRouter cfg" "r \<in> set (rules cfg)"
  shows "\<exists>c. compile_expression (ae_serde env) (rule_when r) = Inr c \<and> wf_expr (ast c)
    \<and> \<not> is_statically_non_boolean c"
proof -
  have "valid_router (ae_serde env) (ad_limits (ag_definition g)) nd cfg"
    using applied_well_formed(1) [OF assms(1)] assms(2,3)
    by (auto simp: well_formed_def list_all_iff valid_node_def)
  then obtain c where c: "compile_expression (ae_serde env) (rule_when r) = Inr c" "\<not> is_statically_non_boolean c"
    using assms(4) by (auto simp: valid_router_def Let_def list_all_iff valid_rule_def)
  then have "wf_expr (ast c)" using wp_compile [of "ae_serde env" "rule_when r"] by (simp add: compiled_ok_def)
  then show ?thesis using c by blast
qed

section \<open>A concrete graph\<close>

definition flow_env :: "unit apply_env" where
  "flow_env = \<lparr>ae_serde = plain_serde, ae_sha = (\<lambda>_. replicate 64 CHR ''0''),
     ae_selectors = \<lparr>sl_pointer = \<lambda>_ _. None, sl_path = \<lambda>_. None\<rparr>, ae_compile = (\<lambda>_. Inl InvalidJson),
     ae_llm = (\<lambda>_ _ nd. (nd, [])), ae_llm_schema = (\<lambda>_. None), ae_encode = (\<lambda>_. JNull)\<rparr>"

definition flow_node :: "string \<Rightarrow> output_port list \<Rightarrow> unit node_kind \<Rightarrow> unit draft_node" where
  "flow_node i outs k = \<lparr>d_id = i, d_name = None, d_is_entry = None, d_inputs = [], d_outputs = outs,
     d_timeout_ms = None, d_retry_policy = None, d_kind = k\<rparr>"

definition flow_config :: router_config where
  "flow_config = \<lparr>dsl_version = ''router-dsl-v1'',
     rules = [\<lparr>rule_id = ''any'', rule_when = ''true'', rule_outputs = [''a'']\<rparr>], router_match_mode = First,
     default_outputs = None, payload_port = None, router_memory = None,
     router_limits_of = Some (default_router_limits\<lparr>max_visits_per_run := Some 3, on_limit_outputs := Some [''a'']\<rparr>)\<rparr>"

definition flow_edge :: "string \<Rightarrow> string \<Rightarrow> string \<Rightarrow> string \<Rightarrow> draft_edge" where
  "flow_edge i a port b = \<lparr>de_id = Some i, de_from = \<lparr>from_node = a, from_output = port\<rparr>,
     de_to = \<lparr>to_node = b, to_input = ''default''\<rparr>\<rparr>"

definition flow_draft :: "unit graph_draft" where
  "flow_draft = \<lparr>dg_graph_id = ''g'', dg_name = None,
     dg_nodes = [flow_node ''i'' [] (NInput WholeValue),
       flow_node ''r'' [\<lparr>out_name = ''a'', out_schema = None\<rparr>] (NRouter flow_config),
       flow_node ''o'' [] (NOutput ''k'')],
     dg_edges = [flow_edge ''e2'' ''r'' ''a'' ''o'', flow_edge ''e1'' ''i'' ''default'' ''r''],
     dg_run_input_schema = None,
     dg_output_contract = [\<lparr>contract_key = ''k'', contract_schema = None, contract_collection = Single,
       contract_required = True\<rparr>], dg_limits = None\<rparr>"

definition flow_router :: "unit graph_node" where
  "flow_router = fst (normalize_node (flow_node ''r'' [\<lparr>out_name = ''a'', out_schema = None\<rparr>] (NRouter flow_config)))"

definition flow_nodes :: "unit graph_node list" where
  "flow_nodes = [fst (normalize_node (flow_node ''i'' [] (NInput WholeValue))), flow_router,
     fst (normalize_node (flow_node ''o'' [] (NOutput ''k'')))]"

definition flow_edges :: "graph_edge list" where
  "flow_edges = map (\<lambda>d. \<lparr>edge_id = the (de_id d), edge_from = de_from d, edge_to = de_to d\<rparr>)
     [flow_edge ''e1'' ''i'' ''default'' ''r'', flow_edge ''e2'' ''r'' ''a'' ''o'']"

lemma flow_search: "validate_cycles flow_nodes flow_edges = Some []" "unreachable_warnings flow_nodes flow_edges = Some []"
  by code_simp+

lemma flow_hash: "canonical_hash plain_serde (\<lambda>_. replicate 64 CHR ''0'') JNull = Inr (''sha256:'' @ replicate 64 CHR ''0'')"
  "\<exists>h. canonical_hash plain_serde sha (edge_json (flow_edge ''e1'' ''i'' ''default'' ''r'')) = Inr h"
  "\<exists>h. canonical_hash plain_serde sha (edge_json (flow_edge ''e2'' ''r'' ''a'' ''o'')) = Inr h"
  by (simp_all add: canonical_hash_def to_vec_def hash_bytes_def validate_limits.simps MAX_JSON_DEPTH_def
      MAX_JSON_BYTES_def MAX_STRING_BYTES_def MAX_COLLECTION_ITEMS_def edge_json_def flow_edge_def quoted_def join_def
      plain_serde_def)

lemma flow_normalized:
  "normalize_edges plain_serde sha (dg_edges flow_draft) = Inr (flow_edges, [])"
  "map (fst \<circ> normalize_node) (dg_nodes flow_draft) = flow_nodes"
  "map (snd \<circ> normalize_node) (dg_nodes flow_draft) = [[], [], []]"
proof -
  show "normalize_edges plain_serde sha (dg_edges flow_draft) = Inr (flow_edges, [])"
    using flow_hash(2,3) [of sha]
    by (auto simp: normalize_edges_def flow_draft_def flow_edges_def flow_edge_def push_if_def)
qed (simp_all add: flow_draft_def flow_nodes_def flow_router_def flow_node_def normalize_node_def Let_def
      push_if_def flow_config_def)

lemma flow_limits: "normalize_limits None = (default_run_limits, [])"
  by (simp add: normalize_limits_def default_run_limits_def push_if_def)

lemma flow_shape [simp]:
  "node_id flow_router = ''r''" "inputs flow_router = [default_input]"
  "outputs flow_router = [\<lparr>out_name = ''a'', out_schema = None\<rparr>]" "timeout_ms flow_router = None"
  "node_retry_policy flow_router = None" "is_entry flow_router = False"
  "kind flow_router = normalize_router (NRouter flow_config)"
  by (simp_all add: flow_router_def flow_node_def normalize_node_def Let_def)

lemma flow_router_valid: "validate_router plain_serde flow_router default_run_limits = []"
  unfolding validate_router_Nil
  by (simp add: normalize_router_def flow_config_def default_router_limits_def valid_router_def valid_rule_def
      valid_route_def valid_limits_def sample_compiled is_statically_non_boolean_def get_or_insert_def
      DEFAULT_MAX_READ_RECONCILES_def default_run_limits_def MAX_ROUTER_RULES_def)

lemma flow_checks:
  "validate_nodes plain_serde flow_nodes default_run_limits = []"
  "validate_selectors (ae_selectors flow_env) flow_nodes = []"
  "validate_edges flow_nodes flow_edges = []"
  "validate_outputs flow_nodes (dg_output_contract flow_draft) = []"
  "compile_schemas flow_env flow_nodes None (dg_output_contract flow_draft) = ([], [])"
  using flow_router_valid
  by (simp_all add: validate_nodes_def flow_nodes_def flow_node_def normalize_node_def Let_def
      validate_execution_policy_def unique_ports_def push_if_def validate_router_def validate_coordination_def
      normalize_router_def flow_config_def default_input_def default_output_def flow_draft_def
      validate_selectors_def validate_edges_def edge_targets_def flow_edges_def flow_edge_def node_by_id_def
      validate_outputs_def is_sink_def compile_schemas_def node_schemas_def option_list_def flow_env_def)

lemma flow_applied:
  "\<exists>g. apply_graph flow_env flow_draft 1 1 = Some (Inr g) \<and> ad_nodes (ag_definition g) = flow_nodes"
proof -
  have env: "ae_serde flow_env = plain_serde" "ae_llm flow_env = (\<lambda>_ _ nd. (nd, []))"
    "ae_sha flow_env = (\<lambda>_. replicate 64 CHR ''0'')" "ae_encode flow_env = (\<lambda>_. JNull)"
    "dg_limits flow_draft = None" "dg_run_input_schema flow_draft = None"
    by (simp_all add: flow_env_def flow_draft_def)
  have "\<exists>ck. check_draft flow_env flow_draft 1 1 = Some (Inr ck) \<and> ck_issues ck = [] \<and> ck_nodes ck = flow_nodes"
    using flow_normalized(2,3)
    by (simp add: check_draft_def env flow_limits flow_normalized(1) Let_def split_def comp_def flow_search
        flow_checks OPERATION_TAXONOMY_VERSION_def ADAPTER_DECODER_VERSION_def push_if_def)
  then show ?thesis
    by (auto simp: apply_graph_def Let_def env flow_hash(1) applied_of_def)
qed

lemma apply_graph_well_formed_witness:
  "well_formed plain_serde (ae_selectors flow_env) default_run_limits flow_nodes flow_edges
     (dg_output_contract flow_draft)"
proof -
  obtain g where g: "apply_graph flow_env flow_draft 1 1 = Some (Inr g)" using flow_applied by blast
  obtain ck where ck: "check_draft flow_env flow_draft 1 1 = Some (Inr ck)"
    "ag_definition g = applied_of flow_draft 1 1 ck"
    using apply_graph_Inr [OF g] by blast
  have env: "ae_serde flow_env = plain_serde" "ae_llm flow_env = (\<lambda>_ _ nd. (nd, []))"
    "ae_sha flow_env = (\<lambda>_. replicate 64 CHR ''0'')" "dg_limits flow_draft = None" "dg_run_input_schema flow_draft = None"
    by (simp_all add: flow_env_def flow_draft_def)
  have "ck_nodes ck = flow_nodes" "ck_edges ck = flow_edges" "ck_limits ck = default_run_limits"
    using ck(1) flow_normalized(2)
    by (auto simp: check_draft_def env flow_limits flow_normalized(1) Let_def split_def comp_def flow_search flow_checks)
  then show ?thesis
    using apply_graph_well_formed [OF g] by (simp add: ck(2) applied_of_def env)
qed

lemma apply_graph_refuses_exactly_witness:
  "\<exists>ck. check_draft flow_env flow_draft 1 1 = Some (Inr ck) \<and> acceptable flow_env flow_draft 1 1 ck"
proof -
  obtain g where g: "apply_graph flow_env flow_draft 1 1 = Some (Inr g)" using flow_applied by blast
  obtain ck where "check_draft flow_env flow_draft 1 1 = Some (Inr ck)" using apply_graph_Inr [OF g] by blast
  with apply_graph_refuses_exactly [OF this] g show ?thesis by auto
qed

lemma applied_rules_compile_witness:
  "\<exists>c. compile_expression plain_serde ''true'' = Inr c \<and> \<not> is_statically_non_boolean c"
proof -
  obtain g where g: "apply_graph flow_env flow_draft 1 1 = Some (Inr g)" "ad_nodes (ag_definition g) = flow_nodes"
    using flow_applied by blast
  have n: "flow_router \<in> set (ad_nodes (ag_definition g))" by (simp add: g(2) flow_nodes_def)
  have r: "\<lparr>rule_id = ''any'', rule_when = ''true'', rule_outputs = [''a'']\<rparr> \<in> set (rules flow_config)"
    by (simp add: flow_config_def)
  obtain cfg where k: "kind flow_router = NRouter cfg" "rules cfg = rules flow_config"
    by (simp add: normalize_router_def Let_def)
  from applied_rules_compile [OF g(1) n k(1), unfolded k(2), OF r] show ?thesis
    by (auto simp: flow_env_def)
qed

lemma applied_router_ports_witness:
  "\<exists>d. evaluate_router plain_serde flow_router [(''default'', JNull)] JNull (sample_control [MaxVisits]) = Inr d
     \<and> set (selected_ports d) \<subseteq> {''a''}"
proof -
  obtain g where g: "apply_graph flow_env flow_draft 1 1 = Some (Inr g)" "ad_nodes (ag_definition g) = flow_nodes"
    using flow_applied by blast
  have n: "flow_router \<in> set (ad_nodes (ag_definition g))" by (simp add: g(2) flow_nodes_def)
  obtain d where d: "evaluate_router plain_serde flow_router [(''default'', JNull)] JNull (sample_control [MaxVisits]) = Inr d"
    by (simp add: evaluate_router_def normalize_router_def flow_config_def default_router_limits_def select_payload_def
        inputs_object_def default_input_def om_get_def)
  have "resolved_ok [(''default'', JNull)]" by (simp add: resolved_ok_def)
  from applied_router_ports [OF g(1) n d this] show ?thesis using d by auto
qed

end
