(* ===== verification/Llm_Node.thy ===== *)
theory Llm_Node
  imports Tool_Registry Service_Operations Context_Normal_Form Graph_Wellformed
begin

text \<open>
  The nodes of language models, \<open>graph/llm_validation.rs\<close> and
  \<open>graph/llm_memory_validation.rs\<close> of \<open>crates/core\<close>: how applying a graph completes the
  configuration of such a node and checks it against the published channels, presets and tools.
\<close>

section \<open>Dependencies\<close>

record 'k apply_dependencies =
  channel_heads :: "string \<Rightarrow> 'k channel_revision option"
  preset_heads :: "string \<Rightarrow> preset_version option"
  tool_descriptors :: "string \<times> string \<Rightarrow> resolved_tool option"

record 'k llm_env =
  le_keys :: "'k key_lib"
  le_ctx :: ctx_env
  le_tools :: tool_env
  le_deps :: "'k apply_dependencies"

definition llm_issue :: "string \<Rightarrow> string \<Rightarrow> validation_issue" where
  "llm_issue code nid = graph_issue code (''/nodes/'' @ nid)"

section \<open>Static memory\<close>

definition memory_issue :: "string \<Rightarrow> string \<Rightarrow> validation_issue" where
  "memory_issue code nid = graph_issue code (''/nodes/'' @ nid @ ''/memory'')"

definition valid_memory_name :: "string \<Rightarrow> bool" where
  "valid_memory_name v \<longleftrightarrow> trim v \<noteq> [] \<and> length v \<le> 128"

definition valid_pointer :: "selector_lib \<Rightarrow> string \<Rightarrow> bool" where
  "valid_pointer lib p \<longleftrightarrow> validate_selector lib (JsonPointer p) = Inr ()"

definition valid_read_source :: "selector_lib \<Rightarrow> string set \<Rightarrow> static_read \<Rightarrow> bool" where
  "valid_read_source lib ins r =
     (case sr_source r of
        WorkingContextRead scope path \<Rightarrow> trim scope \<noteq> [] \<and> valid_pointer lib path
      | HistoryRead scope \<Rightarrow>
          scope = ''run-context'' \<and> sr_limit r = None \<and> sr_required r \<and> sr_consistency r = Snapshot
      | LongTermRead scope query \<Rightarrow>
          trim scope \<noteq> []
          \<and> (case query of None \<Rightarrow> True
             | Some q \<Rightarrow> length (query_text q) \<le> 16 * 1024 \<and> length (query_tags q) \<le> 128
                 \<and> list_all (\<lambda>t. trim t \<noteq> [] \<and> length t \<le> 64) (query_tags q))
      | ArtifactRead scope from \<Rightarrow>
          scope = ''run-context'' \<and> sr_limit r = None \<and> pe_source from = PreInput
          \<and> pe_source_name from \<in> ins \<and> validate_selector lib (pe_selector from) = Inr ())"

text \<open>The names enter the sets only when the conditions before them in the disjunction hold.\<close>

fun memory_read_issues ::
  "selector_lib \<Rightarrow> string set \<Rightarrow> string \<Rightarrow> static_read list \<Rightarrow> string set \<Rightarrow> string set \<Rightarrow> validation_issue list" where
  "memory_read_issues lib ins nid [] ids aliases = []"
| "memory_read_issues lib ins nid (r # rs) ids aliases =
     (let named = valid_memory_name (sr_id r) \<and> valid_memory_name (sr_alias r);
          fresh_id = named \<and> sr_id r \<notin> ids;
          common = fresh_id \<and> sr_alias r \<notin> aliases \<and> 0 < sr_max_bytes r \<and> sr_max_bytes r \<le> 16 * 1024 * 1024
            \<and> (case sr_limit r of None \<Rightarrow> True | Some n \<Rightarrow> 0 < n \<and> n \<le> 10000)
      in push_if (\<not> (common \<and> valid_read_source lib ins r)) (memory_issue ''invalid_llm_memory_read'' nid)
         @ memory_read_issues lib ins nid rs (if named then insert (sr_id r) ids else ids)
             (if fresh_id then insert (sr_alias r) aliases else aliases))"

definition valid_write_value :: "selector_lib \<Rightarrow> string set \<Rightarrow> string set \<Rightarrow> string set \<Rightarrow> static_write \<Rightarrow> bool" where
  "valid_write_value lib ins outs aliases w =
     (case sw_value_from w of
        None \<Rightarrow> sw_op w = WriteRemove
      | Some v \<Rightarrow>
          sw_op w \<noteq> WriteRemove \<and> valid_memory_name (fs_source_name v) \<and> validate_selector lib (fs_selector v) = Inr ()
          \<and> (case fs_source v of
               FromInput \<Rightarrow> fs_source_name v \<in> ins
             | FromOutput \<Rightarrow> fs_source_name v \<in> outs
             | FromBinding \<Rightarrow> fs_source_name v \<in> aliases))"

fun memory_write_issues ::
  "selector_lib \<Rightarrow> string set \<Rightarrow> string set \<Rightarrow> string set \<Rightarrow> string \<Rightarrow> static_write list \<Rightarrow> string set
     \<Rightarrow> validation_issue list" where
  "memory_write_issues lib ins outs aliases nid [] ids = []"
| "memory_write_issues lib ins outs aliases nid (w # ws) ids =
     push_if (\<not> (valid_memory_name (sw_id w) \<and> sw_id w \<notin> ids \<and> sw_target_scope w = ''run-context''
         \<and> valid_pointer lib (sw_path w) \<and> valid_write_value lib ins outs aliases w))
       (memory_issue ''invalid_llm_memory_write'' nid)
     @ memory_write_issues lib ins outs aliases nid ws (if valid_memory_name (sw_id w) then insert (sw_id w) ids else ids)"

definition valid_memory_grant :: "memory_grant \<Rightarrow> bool" where
  "valid_memory_grant g \<longleftrightarrow>
     mg_scopes g \<noteq> [] \<and> list_all (\<lambda>s. trim s \<noteq> [] \<and> length s \<le> 256) (mg_scopes g)
     \<and> (case mg_capability g of
          SearchMemory \<Rightarrow>
            (case mg_max_results g of None \<Rightarrow> False | Some n \<Rightarrow> 0 < n \<and> n \<le> 1000) \<and> mg_max_proposal_bytes g = None
        | ProposeMemoryChange \<Rightarrow>
            (case mg_max_proposal_bytes g of None \<Rightarrow> False | Some n \<Rightarrow> 0 < n \<and> n \<le> 16 * 1024 * 1024)
            \<and> mg_max_results g = None)"

fun memory_grant_issues :: "string \<Rightarrow> memory_grant list \<Rightarrow> memory_capability set \<Rightarrow> validation_issue list" where
  "memory_grant_issues nid [] known = []"
| "memory_grant_issues nid (g # gs) known =
     push_if (\<not> (mg_capability g \<notin> known \<and> valid_memory_grant g)) (memory_issue ''invalid_llm_memory_tool_grant'' nid)
     @ memory_grant_issues nid gs (insert (mg_capability g) known)"

definition validate_llm_memory ::
  "selector_lib \<Rightarrow> 'k llm_config \<Rightarrow> string \<Rightarrow> string set \<Rightarrow> string set \<Rightarrow> validation_issue list" where
  "validate_llm_memory lib config nid ins outs =
     (case lc_memory config of
        None \<Rightarrow> []
      | Some m \<Rightarrow>
          if length (nm_reads (lm_node m)) > 128 \<or> length (nm_writes (lm_node m)) > 128
          then [memory_issue ''llm_memory_binding_limit'' nid]
          else memory_read_issues lib ins nid (nm_reads (lm_node m)) {} {}
            @ memory_write_issues lib ins outs (set (map sr_alias (nm_reads (lm_node m)))) nid (nm_writes (lm_node m)) {}
            @ memory_grant_issues nid (lm_tools m) {})"

section \<open>Completion\<close>

definition llm_model_requirements :: "'k llm_config \<Rightarrow> capability_requirements" where
  "llm_model_requirements config =
     \<lparr>need_streaming = (case lc_streaming config of None \<Rightarrow> False | Some s \<Rightarrow> ns_enabled s),
      need_tool_calling = (lc_tools config \<noteq> [] \<or> lc_hosted_tools config \<noteq> []
        \<or> (case lc_memory config of None \<Rightarrow> False | Some m \<Rightarrow> lm_tools m \<noteq> [])),
      need_structured_output = (case lc_output config of Some (JsonOutput _ _) \<Rightarrow> True | _ \<Rightarrow> False),
      need_vision_input = False\<rparr>"

definition normalize_model_ref :: "'k model_ref \<Rightarrow> 'k model_ref" where
  "normalize_model_ref r =
     r\<lparr>mr_model_id := trim (mr_model_id r),
       mr_model_name := (case mr_model_name r of None \<Rightarrow> None | Some n \<Rightarrow> if trim n = [] then None else Some (trim n))\<rparr>"

definition normalize_context_config ::
  "'k llm_env \<Rightarrow> string \<Rightarrow> context_config \<Rightarrow> context_config \<times> validation_issue list" where
  "normalize_context_config env nid c =
     (case c of
        PresetConfig p \<Rightarrow>
          (PresetConfig (trim p),
           push_if (preset_heads (le_deps env) (trim p) = None) (llm_issue ''context_preset_not_published'' nid))
      | InlineConfig spec \<Rightarrow>
          (case normalize_context_spec (le_ctx env) default_policy spec of
             Inr normalized \<Rightarrow> (InlineConfig normalized, [])
           | Inl code \<Rightarrow> (InlineConfig spec, [llm_issue code nid])))"

definition normalize_output :: "output_spec option \<Rightarrow> output_spec" where
  "normalize_output out =
     (case out of
        None \<Rightarrow> TextOutput (Some LastAssistantTurn) False
      | Some (TextOutput None allow) \<Rightarrow> TextOutput (Some LastAssistantTurn) allow
      | Some spec \<Rightarrow> spec)"

definition normalize_streaming :: "node_streaming option \<Rightarrow> node_streaming" where
  "normalize_streaming s =
     (case s of
        None \<Rightarrow> \<lparr>ns_enabled = False, ns_audience = AudienceInternal, ns_persist_chunks = False\<rparr>
      | Some v \<Rightarrow> v)"

definition model_of :: "'k channel_revision \<Rightarrow> 'k model_ref \<Rightarrow> channel_model option" where
  "model_of channel r =
     Option.bind (find_catalog (cr_spec channel) (mr_operation_key r)) (\<lambda>catalog. find_model catalog (mr_model_id r))"

definition get_or :: "'a option \<Rightarrow> 'a \<Rightarrow> 'a option" where
  "get_or x d = (case x of None \<Rightarrow> Some d | Some a \<Rightarrow> Some a)"

definition or_default :: "'a option \<Rightarrow> 'a \<Rightarrow> 'a" where
  "or_default x d = (case x of None \<Rightarrow> d | Some a \<Rightarrow> a)"

definition complete_limits :: "channel_model option \<Rightarrow> node_limits option \<Rightarrow> node_limits" where
  "complete_limits model wanted =
     (let l = or_default wanted default_node_limits
      in \<lparr>nl_max_model_calls = get_or (nl_max_model_calls l) 8,
          nl_max_count_calls = get_or (nl_max_count_calls l) 2,
          nl_max_tool_calls = get_or (nl_max_tool_calls l) 32,
          nl_max_output_repairs = get_or (nl_max_output_repairs l) 1,
          nl_max_concurrent_tools = get_or (nl_max_concurrent_tools l) 4,
          nl_max_input_tokens =
            get_or (nl_max_input_tokens l) (or_default (Option.bind model cm_context_window) 32768),
          nl_max_output_tokens =
            get_or (nl_max_output_tokens l) (or_default (Option.bind model cm_max_output_tokens) 4096)\<rparr>)"

definition out_of_bounds :: "nat option \<times> nat \<Rightarrow> bool" where
  "out_of_bounds b = (case fst b of None \<Rightarrow> True | Some n \<Rightarrow> n = 0 \<or> n > snd b)"

text \<open>The order of \<open>Option\<close>, where \<open>None\<close> is the least value.\<close>

definition option_above :: "nat option \<Rightarrow> nat option \<Rightarrow> bool" where
  "option_above a b = (case a of None \<Rightarrow> False | Some x \<Rightarrow> (case b of None \<Rightarrow> True | Some y \<Rightarrow> x > y))"

text \<open>\<open>a.zip(b).is_some_and(|(a, b)| b > a)\<close>.\<close>

definition exceeds :: "nat option \<Rightarrow> nat option \<Rightarrow> bool" where
  "exceeds a b = (case a of None \<Rightarrow> False | Some x \<Rightarrow> (case b of None \<Rightarrow> False | Some y \<Rightarrow> y > x))"

definition normalize_llm_limits ::
  "'k channel_revision \<Rightarrow> 'k model_ref \<Rightarrow> string \<Rightarrow> node_limits option \<Rightarrow> node_limits \<times> validation_issue list" where
  "normalize_llm_limits channel r nid wanted =
     (let model = model_of channel r; l = complete_limits model wanted
      in (l,
          push_if (list_ex out_of_bounds
              [(nl_max_model_calls l, 64), (nl_max_count_calls l, 16), (nl_max_tool_calls l, 256),
               (nl_max_output_repairs l, 8), (nl_max_concurrent_tools l, 16),
               (nl_max_input_tokens l, 2000000), (nl_max_output_tokens l, 256000)]
              \<or> option_above (nl_max_concurrent_tools l) (nl_max_tool_calls l))
            (llm_issue ''invalid_llm_limits'' nid)
          @ push_if (case model of None \<Rightarrow> False
                     | Some m \<Rightarrow> exceeds (cm_context_window m) (nl_max_input_tokens l)
                         \<or> exceeds (cm_max_output_tokens m) (nl_max_output_tokens l))
              (llm_issue ''llm_limits_exceed_model'' nid)))"

section \<open>Requests\<close>

definition in_range :: "real \<Rightarrow> f64 option \<Rightarrow> bool" where
  "in_range hi v = (case v of None \<Rightarrow> True | Some NonFinite \<Rightarrow> False | Some (Finite r) \<Rightarrow> 0 \<le> r \<and> r \<le> hi)"

definition sensitive_header :: "string \<Rightarrow> bool" where
  "sensitive_header name =
     (let n = map to_ascii_lower name
      in n \<in> set [''authorization'', ''proxy-authorization'', ''cookie'', ''set-cookie'', ''x-api-key'',
              ''x-goog-api-key'', ''host'', ''content-length'', ''transfer-encoding'']
         \<or> list_ex (\<lambda>needle. contains_str needle n) [''token'', ''secret'', ''credential'', ''signature''])"

text \<open>The serialisation that \<open>serde\<close> derives for \<open>ProviderExtraIr\<close>.\<close>

definition extra_json :: "provider_extra_ir \<Rightarrow> json" where
  "extra_json p =
     JObject (om_of_list [(''options'', JObject (px_options p)), (''extraBody'', JObject (px_extra_body p)),
       (''extraHeaders'', JObject (map (\<lambda>(k, v). (k, JString v)) (px_extra_headers p)))])"

definition valid_extension :: "serde \<Rightarrow> provider \<Rightarrow> provider \<times> provider_extra_ir \<Rightarrow> bool" where
  "valid_extension sd family e \<longleftrightarrow>
     fst e = family \<and> \<not> list_ex (\<lambda>(name, _). sensitive_header name) (px_extra_headers (snd e))
     \<and> (case to_vec sd (extra_json (snd e)) of Inl _ \<Rightarrow> False | Inr bytes \<Rightarrow> length bytes \<le> 64 * 1024)"

definition extension_entries :: "provider_extensions_ir \<Rightarrow> (provider \<times> provider_extra_ir) list" where
  "extension_entries e =
     map (Pair OpenAiProvider) (option_list (ext_openai e)) @ map (Pair ClaudeProvider) (option_list (ext_claude e))
     @ map (Pair GeminiProvider) (option_list (ext_gemini e))"

definition extension_issues :: "serde \<Rightarrow> provider \<Rightarrow> string \<Rightarrow> provider_extensions_ir \<Rightarrow> validation_issue list" where
  "extension_issues sd family nid e =
     concat (map (\<lambda>x. push_if (\<not> valid_extension sd family x) (llm_issue ''invalid_provider_extension'' nid))
       (extension_entries e))"

definition valid_generation :: "generation_options \<Rightarrow> bool" where
  "valid_generation g \<longleftrightarrow>
     in_range 2 (go_temperature g) \<and> in_range 1 (go_top_p g) \<and> length (go_stop g) \<le> 16
     \<and> list_all (\<lambda>s. s \<noteq> [] \<and> length s \<le> 1024) (go_stop g)"

definition over_hard_limit :: "nat option \<Rightarrow> node_limits option \<Rightarrow> bool" where
  "over_hard_limit preference limits =
     (case preference of None \<Rightarrow> False
      | Some p \<Rightarrow> (case Option.bind limits nl_max_output_tokens of None \<Rightarrow> False | Some hard \<Rightarrow> p = 0 \<or> p > hard))"

definition request_issues :: "'k llm_env \<Rightarrow> 'k llm_config \<Rightarrow> string \<Rightarrow> validation_issue list" where
  "request_issues env config nid =
     (case lc_request config of
        None \<Rightarrow> []
      | Some r \<Rightarrow>
          (case ro_generation r of
             None \<Rightarrow> []
           | Some g \<Rightarrow>
               push_if (\<not> valid_generation g) (llm_issue ''invalid_generation_options'' nid)
               @ push_if (over_hard_limit (go_max_output_tokens g) (lc_limits config))
                   (llm_issue ''generation_output_limit_exceeded'' nid))
          @ (case ro_extensions r of
               None \<Rightarrow> []
             | Some e \<Rightarrow> extension_issues (se_serde (tv_schema (le_tools env)))
                 (kl_family (le_keys env) (mr_operation_key (lc_model config))) nid e))"

section \<open>Tools\<close>

definition memory_tool_name :: "memory_capability \<Rightarrow> string" where
  "memory_tool_name c =
     (case c of SearchMemory \<Rightarrow> ''search_memory'' | ProposeMemoryChange \<Rightarrow> ''propose_memory_change'')"

definition memory_tool_names :: "'k llm_config \<Rightarrow> string list" where
  "memory_tool_names config =
     (case lc_memory config of None \<Rightarrow> [] | Some m \<Rightarrow> map (memory_tool_name \<circ> mg_capability) (lm_tools m))"

definition resolved_grant :: "'k llm_env \<Rightarrow> tool_grant \<Rightarrow> resolved_tool option" where
  "resolved_grant env g = tool_descriptors (le_deps env) (tg_tool_id g, tg_version g)"

definition grant_name :: "'k llm_env \<Rightarrow> tool_grant \<Rightarrow> string" where
  "grant_name env g =
     (case tg_exposed_name g of
        Some n \<Rightarrow> n
      | None \<Rightarrow> (case resolved_grant env g of None \<Rightarrow> tg_tool_id g | Some t \<Rightarrow> tool_name (rt_descriptor t)))"

definition grant_named :: "'k llm_env \<Rightarrow> tool_grant \<Rightarrow> bool" where
  "grant_named env g \<longleftrightarrow>
     valid_name (tg_binding_id g) \<and> valid_name (tg_tool_id g) \<and> valid_name (tg_version g) \<and> valid_name (grant_name env g)"

definition valid_failure_policy :: "failure_policy \<Rightarrow> bool" where
  "valid_failure_policy p \<longleftrightarrow>
     0 < fp_max_attempts p \<and> fp_max_attempts p \<le> 32 \<and> length (fp_retry_backoff_ms p) \<le> fp_max_attempts p - 1
     \<and> list_all (\<lambda>d. d \<le> 86400000) (fp_retry_backoff_ms p)"

definition valid_grant_limits :: "tool_grant \<Rightarrow> bool" where
  "valid_grant_limits g \<longleftrightarrow>
     ag_max_objects (tg_artifact g) \<noteq> 0 \<and> ag_max_bytes (tg_artifact g) \<noteq> 0
     \<and> (case tg_failure_policy g of None \<Rightarrow> True | Some p \<Rightarrow> valid_failure_policy p)"

fun tool_issues ::
  "'k llm_env \<Rightarrow> string \<Rightarrow> tool_grant list \<Rightarrow> string set \<Rightarrow> string set \<Rightarrow> validation_issue list \<times> string set" where
  "tool_issues env nid [] bindings names = ([], bindings)"
| "tool_issues env nid (g # gs) bindings names =
     (let fresh_binding = grant_named env g \<and> tg_binding_id g \<notin> bindings;
          (rest, all_bindings) = tool_issues env nid gs
            (if grant_named env g then insert (tg_binding_id g) bindings else bindings)
            (if fresh_binding then insert (grant_name env g) names else names)
      in (push_if (resolved_grant env g = None) (llm_issue ''tool_descriptor_not_registered'' nid)
          @ push_if (\<not> (fresh_binding \<and> grant_name env g \<notin> names \<and> valid_grant_limits g))
              (llm_issue ''invalid_tool_grant'' nid)
          @ (case resolved_grant env g of
               None \<Rightarrow> []
             | Some t \<Rightarrow> (case validate_tool_grant (le_tools env) g t of Inl code \<Rightarrow> [llm_issue code nid] | Inr _ \<Rightarrow> []))
          @ rest, all_bindings))"

definition hosted_supported :: "'k channel_revision \<Rightarrow> 'k hosted_binding \<Rightarrow> bool" where
  "hosted_supported channel h \<longleftrightarrow>
     HostedToolCapability (hb_operation_key h) (hb_hosted_kind h) \<in> set (ch_capabilities (cr_spec channel))"

fun hosted_issues :: "'k channel_revision \<Rightarrow> string \<Rightarrow> 'k hosted_binding list \<Rightarrow> string set \<Rightarrow> validation_issue list" where
  "hosted_issues channel nid [] bindings = []"
| "hosted_issues channel nid (h # hs) bindings =
     (let named = valid_name (hb_binding_id h) \<and> valid_name (hb_hosted_kind h)
      in push_if (\<not> (named \<and> hb_binding_id h \<notin> bindings \<and> hb_max_uses h \<noteq> 0 \<and> hosted_supported channel h))
           (llm_issue ''invalid_hosted_tool_binding'' nid)
         @ hosted_issues channel nid hs (if named then insert (hb_binding_id h) bindings else bindings))"

definition all_tool_issues :: "'k llm_env \<Rightarrow> 'k channel_revision \<Rightarrow> 'k llm_config \<Rightarrow> string \<Rightarrow> validation_issue list" where
  "all_tool_issues env channel config nid =
     (let (found, bindings) = tool_issues env nid (lc_tools config) {} (set (memory_tool_names config))
      in found @ hosted_issues channel nid (lc_hosted_tools config) bindings)"

section \<open>The node\<close>

definition port_issues :: "'k llm_config graph_node \<Rightarrow> validation_issue list" where
  "port_issues nd =
     push_if (map out_name (outputs nd) \<noteq> [''default'']) (llm_issue ''llm_output_port_contract'' (node_id nd))"

definition normalize_llm_node ::
  "'k llm_env \<Rightarrow> nat \<Rightarrow> nat \<Rightarrow> 'k llm_config graph_node \<Rightarrow> 'k llm_config graph_node \<times> validation_issue list" where
  "normalize_llm_node env taxonomy decoder nd =
     (case kind nd of
        NLlm config \<Rightarrow>
          (let nid = node_id nd; config = config\<lparr>lc_model := normalize_model_ref (lc_model config)\<rparr>
           in case channel_heads (le_deps env) (mr_channel_id (lc_model config)) of
                None \<Rightarrow> (nd\<lparr>kind := NLlm config\<rparr>, [llm_issue ''llm_channel_not_published'' nid])
              | Some channel \<Rightarrow>
                  (let (context, context_issues) = normalize_context_config env nid (lc_context config);
                       (limits, limit_issues) = normalize_llm_limits channel (lc_model config) nid (lc_limits config);
                       config = config\<lparr>lc_context := context,
                         lc_request := Some (or_default (lc_request config) default_request_options),
                         lc_output := Some (normalize_output (lc_output config)),
                         lc_streaming := Some (normalize_streaming (lc_streaming config)),
                         lc_limits := Some limits\<rparr>
                   in (nd\<lparr>kind := NLlm config\<rparr>,
                       push_if (ch_taxonomy_version (cr_spec channel) \<noteq> taxonomy
                           \<or> ch_decoder_version (cr_spec channel) \<noteq> decoder)
                         (llm_issue ''operation_version_mismatch'' nid)
                       @ context_issues @ limit_issues
                       @ validate_llm_memory (ce_selectors (le_ctx env)) config nid
                           (set (map in_name (inputs nd))) (set (map out_name (outputs nd)))
                       @ request_issues env config nid
                       @ all_tool_issues env channel config nid
                       @ (case validate_generation_model (le_keys env) (cr_spec channel) (lc_model config)
                                (llm_model_requirements config) (lc_overrides config) of
                            Inl code \<Rightarrow> [llm_issue code nid] | Inr _ \<Rightarrow> [])
                       @ port_issues nd)))
      | _ \<Rightarrow> (nd, []))"

definition llm_output_schema :: "'k llm_config \<Rightarrow> json_schema_spec option" where
  "llm_output_schema config = (case lc_output config of Some (JsonOutput spec _) \<Rightarrow> Some spec | _ \<Rightarrow> None)"

text \<open>Applying a graph with this normalisation and the schema compiler.\<close>

definition llm_apply_env ::
  "'k llm_env \<Rightarrow> ('k llm_config applied_definition \<Rightarrow> json) \<Rightarrow> 'k llm_config apply_env" where
  "llm_apply_env env encode =
     (let schemas = tv_schema (le_tools env)
      in \<lparr>ae_serde = se_serde schemas, ae_sha = se_sha schemas, ae_selectors = ce_selectors (le_ctx env),
          ae_compile = compile_schema schemas, ae_llm = normalize_llm_node env,
          ae_llm_schema = llm_output_schema, ae_encode = encode\<rparr>)"

end
