(* ===== verification/Llm_Node_Properties.thy ===== *)
theory Llm_Node_Properties
  imports Llm_Node
begin

text \<open>
  What the checks of a language-model node decide: the nodes that pass are the ready ones, and
  these are the fixed points of the normalisation; every node of an applied graph is ready.
\<close>

section \<open>Ready memory\<close>

definition valid_static_read :: "selector_lib \<Rightarrow> string set \<Rightarrow> static_read \<Rightarrow> bool" where
  "valid_static_read lib ins r \<longleftrightarrow>
     valid_memory_name (sr_id r) \<and> valid_memory_name (sr_alias r)
     \<and> 0 < sr_max_bytes r \<and> sr_max_bytes r \<le> 16 * 1024 * 1024
     \<and> (\<forall>n. sr_limit r = Some n \<longrightarrow> 0 < n \<and> n \<le> 10000) \<and> valid_read_source lib ins r"

definition valid_write :: "selector_lib \<Rightarrow> string set \<Rightarrow> string set \<Rightarrow> string set \<Rightarrow> static_write \<Rightarrow> bool" where
  "valid_write lib ins outs aliases w \<longleftrightarrow>
     valid_memory_name (sw_id w) \<and> sw_target_scope w = ''run-context'' \<and> valid_pointer lib (sw_path w)
     \<and> valid_write_value lib ins outs aliases w"

definition memory_ready :: "selector_lib \<Rightarrow> string set \<Rightarrow> string set \<Rightarrow> llm_memory \<Rightarrow> bool" where
  "memory_ready lib ins outs m \<longleftrightarrow>
     (let reads = nm_reads (lm_node m); writes = nm_writes (lm_node m)
      in length reads \<le> 128 \<and> length writes \<le> 128
         \<and> distinct (map sr_id reads) \<and> distinct (map sr_alias reads) \<and> (\<forall>r \<in> set reads. valid_static_read lib ins r)
         \<and> distinct (map sw_id writes)
         \<and> (\<forall>w \<in> set writes. valid_write lib ins outs (sr_alias ` set reads) w)
         \<and> distinct (map mg_capability (lm_tools m)) \<and> (\<forall>g \<in> set (lm_tools m). valid_memory_grant g))"

lemma memory_read_issues_Nil:
  "memory_read_issues lib ins nid rs ids aliases = [] \<longleftrightarrow>
     (\<forall>r \<in> set rs. valid_static_read lib ins r) \<and> distinct (map sr_id rs) \<and> sr_id ` set rs \<inter> ids = {}
     \<and> distinct (map sr_alias rs) \<and> sr_alias ` set rs \<inter> aliases = {}"
  by (induction rs arbitrary: ids aliases) (auto simp: Let_def valid_static_read_def split: option.splits)

lemma memory_write_issues_Nil:
  "memory_write_issues lib ins outs aliases nid ws ids = [] \<longleftrightarrow>
     (\<forall>w \<in> set ws. valid_write lib ins outs aliases w) \<and> distinct (map sw_id ws) \<and> sw_id ` set ws \<inter> ids = {}"
  by (induction ws arbitrary: ids) (auto simp: valid_write_def)

lemma memory_grant_issues_Nil:
  "memory_grant_issues nid gs known = [] \<longleftrightarrow>
     (\<forall>g \<in> set gs. valid_memory_grant g) \<and> distinct (map mg_capability gs) \<and> mg_capability ` set gs \<inter> known = {}"
  by (induction gs arbitrary: known) auto

lemma validate_llm_memory_Nil:
  "validate_llm_memory lib config nid ins outs = [] \<longleftrightarrow> (\<forall>m. lc_memory config = Some m \<longrightarrow> memory_ready lib ins outs m)"
  by (cases "lc_memory config")
    (auto simp: validate_llm_memory_def memory_ready_def Let_def memory_read_issues_Nil memory_write_issues_Nil memory_grant_issues_Nil)

section \<open>Ready limits\<close>

definition capped :: "nat option \<Rightarrow> nat \<Rightarrow> bool" where
  "capped x hi \<longleftrightarrow> (\<exists>n. x = Some n \<and> 0 < n \<and> n \<le> hi)"

definition limits_ready :: "channel_model option \<Rightarrow> node_limits \<Rightarrow> bool" where
  "limits_ready model l \<longleftrightarrow>
     capped (nl_max_model_calls l) 64 \<and> capped (nl_max_count_calls l) 16 \<and> capped (nl_max_tool_calls l) 256
     \<and> capped (nl_max_output_repairs l) 8 \<and> capped (nl_max_concurrent_tools l) (the (nl_max_tool_calls l))
     \<and> capped (nl_max_concurrent_tools l) 16
     \<and> capped (nl_max_input_tokens l) 2000000 \<and> capped (nl_max_output_tokens l) 256000
     \<and> (\<forall>m w. model = Some m \<and> cm_context_window m = Some w \<longrightarrow> capped (nl_max_input_tokens l) w)
     \<and> (\<forall>m w. model = Some m \<and> cm_max_output_tokens m = Some w \<longrightarrow> capped (nl_max_output_tokens l) w)"

lemma capped_bounds: "out_of_bounds (x, hi) \<longleftrightarrow> \<not> capped x hi"
  by (auto simp: out_of_bounds_def capped_def split: option.splits)

lemma capped_greater: "capped t b \<Longrightarrow> capped c b' \<Longrightarrow> option_above c t \<longleftrightarrow> \<not> capped c (the t)"
  by (auto simp: capped_def option_above_def)

lemma capped_exceeds: "capped x b \<Longrightarrow> exceeds w x \<longleftrightarrow> \<not> (\<forall>v. w = Some v \<longrightarrow> capped x v)"
  by (auto simp: capped_def exceeds_def split: option.splits)

lemma limit_issues_Nil:
  "snd (normalize_llm_limits channel r nid wanted) = [] \<longleftrightarrow>
     limits_ready (model_of channel r) (fst (normalize_llm_limits channel r nid wanted))"
proof -
  define l where "l = complete_limits (model_of channel r) wanted"
  let ?b = "capped (nl_max_model_calls l) 64 \<and> capped (nl_max_count_calls l) 16 \<and> capped (nl_max_tool_calls l) 256
     \<and> capped (nl_max_output_repairs l) 8 \<and> capped (nl_max_concurrent_tools l) 16
     \<and> capped (nl_max_input_tokens l) 2000000 \<and> capped (nl_max_output_tokens l) 256000"
  have "snd (normalize_llm_limits channel r nid wanted) = [] \<longleftrightarrow>
      ?b \<and> \<not> option_above (nl_max_concurrent_tools l) (nl_max_tool_calls l)
      \<and> (\<forall>m. model_of channel r = Some m \<longrightarrow> \<not> exceeds (cm_context_window m) (nl_max_input_tokens l)
           \<and> \<not> exceeds (cm_max_output_tokens m) (nl_max_output_tokens l))"
    by (simp add: normalize_llm_limits_def Let_def l_def capped_bounds split: option.split) blast
  also have "\<dots> \<longleftrightarrow> limits_ready (model_of channel r) l"
  proof (cases ?b)
    case True
    then show ?thesis
      using capped_greater [of "nl_max_tool_calls l" 256 "nl_max_concurrent_tools l" 16]
        capped_exceeds [of "nl_max_input_tokens l" 2000000] capped_exceeds [of "nl_max_output_tokens l" 256000]
      unfolding limits_ready_def by simp blast
  qed (auto simp: limits_ready_def)
  finally show ?thesis by (simp add: normalize_llm_limits_def Let_def l_def)
qed

lemma limits_fixed:
  assumes "limits_ready (model_of channel r) l"
  shows "normalize_llm_limits channel r nid (Some l) = (l, [])"
proof -
  obtain a b c d e i out where "nl_max_model_calls l = Some a" "nl_max_count_calls l = Some b" "nl_max_tool_calls l = Some c"
    "nl_max_output_repairs l = Some d" "nl_max_concurrent_tools l = Some e" "nl_max_input_tokens l = Some i"
    "nl_max_output_tokens l = Some out"
    using assms unfolding limits_ready_def capped_def by blast
  then have l: "fst (normalize_llm_limits channel r nid (Some l)) = l"
    by (simp add: normalize_llm_limits_def Let_def complete_limits_def or_default_def get_or_def)
  then have "snd (normalize_llm_limits channel r nid (Some l)) = []"
    using assms by (simp add: limit_issues_Nil)
  then show ?thesis using l by (metis prod.collapse)
qed

section \<open>Ready tools\<close>

definition grant_ready :: "'k llm_env \<Rightarrow> tool_grant \<Rightarrow> bool" where
  "grant_ready env g \<longleftrightarrow>
     grant_named env g \<and> valid_grant_limits g
     \<and> (\<exists>t. resolved_grant env g = Some t \<and> validate_tool_grant (le_tools env) g t = Inr ())"

definition hosted_ready :: "'k channel_revision \<Rightarrow> 'k hosted_binding \<Rightarrow> bool" where
  "hosted_ready channel h \<longleftrightarrow>
     valid_name (hb_binding_id h) \<and> valid_name (hb_hosted_kind h) \<and> 0 < hb_max_uses h \<and> hosted_supported channel h"

definition tools_ready :: "'k llm_env \<Rightarrow> 'k channel_revision \<Rightarrow> 'k llm_config \<Rightarrow> bool" where
  "tools_ready env channel config \<longleftrightarrow>
     (\<forall>g \<in> set (lc_tools config). grant_ready env g) \<and> (\<forall>h \<in> set (lc_hosted_tools config). hosted_ready channel h)
     \<and> distinct (map tg_binding_id (lc_tools config) @ map hb_binding_id (lc_hosted_tools config))
     \<and> distinct (map (grant_name env) (lc_tools config))
     \<and> grant_name env ` set (lc_tools config) \<inter> set (memory_tool_names config) = {}"

lemma tool_issues_Cons:
  "tool_issues env nid (g # gs) bindings names = ([], b) \<longleftrightarrow>
     grant_ready env g \<and> tg_binding_id g \<notin> bindings \<and> grant_name env g \<notin> names
     \<and> tool_issues env nid gs (insert (tg_binding_id g) bindings) (insert (grant_name env g) names) = ([], b)"
  by (auto simp: Let_def grant_ready_def split: prod.split option.split sum.split)

lemma tool_issues_Nil:
  "tool_issues env nid gs bindings names = ([], b) \<longleftrightarrow>
     (\<forall>g \<in> set gs. grant_ready env g) \<and> distinct (map tg_binding_id gs) \<and> tg_binding_id ` set gs \<inter> bindings = {}
     \<and> distinct (map (grant_name env) gs) \<and> grant_name env ` set gs \<inter> names = {}
     \<and> b = tg_binding_id ` set gs \<union> bindings"
proof (induction gs arbitrary: bindings names)
  case (Cons g gs)
  show ?case unfolding tool_issues_Cons Cons.IH by auto
qed auto

lemma hosted_issues_Nil:
  "hosted_issues channel nid hs bindings = [] \<longleftrightarrow>
     (\<forall>h \<in> set hs. hosted_ready channel h) \<and> distinct (map hb_binding_id hs) \<and> hb_binding_id ` set hs \<inter> bindings = {}"
  by (induction hs arbitrary: bindings) (auto simp: Let_def hosted_ready_def)

lemma all_tool_issues_Nil: "all_tool_issues env channel config nid = [] \<longleftrightarrow> tools_ready env channel config"
proof -
  let ?t = "tool_issues env nid (lc_tools config) {} (set (memory_tool_names config))"
  let ?b = "tg_binding_id ` set (lc_tools config)"
  have "all_tool_issues env channel config nid = [] \<longleftrightarrow>
      (\<exists>b. ?t = ([], b) \<and> hosted_issues channel nid (lc_hosted_tools config) b = [])"
    by (cases ?t) (simp add: all_tool_issues_def)
  also have "\<dots> \<longleftrightarrow> tools_ready env channel config"
    unfolding tool_issues_Nil hosted_issues_Nil tools_ready_def by auto
  finally show ?thesis .
qed

section \<open>Ready requests and models\<close>

definition request_ready :: "'k llm_env \<Rightarrow> 'k llm_config \<Rightarrow> bool" where
  "request_ready env config \<longleftrightarrow>
     (\<forall>r g. lc_request config = Some r \<and> ro_generation r = Some g \<longrightarrow>
        valid_generation g \<and> \<not> over_hard_limit (go_max_output_tokens g) (lc_limits config))
     \<and> (\<forall>r e x. lc_request config = Some r \<and> ro_extensions r = Some e \<and> x \<in> set (extension_entries e) \<longrightarrow>
          valid_extension (se_serde (tv_schema (le_tools env)))
            (kl_family (le_keys env) (mr_operation_key (lc_model config))) x)"

lemma request_issues_Nil: "request_issues env config nid = [] \<longleftrightarrow> request_ready env config"
  by (auto simp: request_issues_def request_ready_def extension_issues_def split: option.splits)

definition feature_ready :: "channel_model option \<Rightarrow> capability_override list \<Rightarrow> capability_name \<Rightarrow> bool" where
  "feature_ready model overrides f \<longleftrightarrow>
     (case Option.bind model (\<lambda>m. capability_get (cm_capabilities m) f) of
        Some reported \<Rightarrow> reported | None \<Rightarrow> f \<in> co_feature ` set overrides)"

definition valid_override :: "capability_override \<Rightarrow> bool" where
  "valid_override c \<longleftrightarrow> co_policy_version c = MODEL_CAPABILITY_POLICY_VERSION
     \<and> trim (co_reason c) \<noteq> [] \<and> trim (co_acknowledgement_ref c) \<noteq> []"

definition model_ready ::
  "'k key_lib \<Rightarrow> 'k channel_spec \<Rightarrow> 'k model_ref \<Rightarrow> capability_requirements \<Rightarrow> capability_override list \<Rightarrow> bool" where
  "model_ready lib spec r requirements overrides \<longleftrightarrow>
     mr_channel_id r \<noteq> [] \<and> trim (mr_model_id r) \<noteq> [] \<and> is_supported_generation_key lib (mr_operation_key r)
     \<and> mr_operation_key r \<in> set (ch_operation_keys spec)
     \<and> (\<exists>catalog. find_catalog spec (mr_operation_key r) = Some catalog
          \<and> (mc_policy catalog = Allowlist \<longrightarrow> mr_model_id r \<in> cm_id ` set (mc_models catalog))
          \<and> (\<forall>f \<in> set (required_features requirements). feature_ready (find_model catalog (mr_model_id r)) overrides f))
     \<and> distinct (map co_feature overrides) \<and> (\<forall>c \<in> set overrides. valid_override c)"

lemma check_feature_ready: "check_feature model overrides f = Inr () \<longleftrightarrow> feature_ready model overrides f"
  by (auto simp: check_feature_def feature_ready_def list_ex_iff split: option.splits bool.splits)

lemma validate_overrides_Inr:
  "validate_overrides cs known = Inr () \<longleftrightarrow>
     distinct (map co_feature cs) \<and> co_feature ` set cs \<inter> known = {} \<and> (\<forall>c \<in> set cs. valid_override c)"
  by (induction cs arbitrary: known) (auto simp: bindR_eq_Inr valid_override_def)

lemma find_model_member: "i \<in> cm_id ` set (mc_models c) \<longleftrightarrow> find_model c i \<noteq> None"
  by (simp add: find_model_None)

lemma validate_generation_model_Inr:
  "validate_generation_model lib spec r requirements overrides = Inr () \<longleftrightarrow> model_ready lib spec r requirements overrides"
  by (auto simp: validate_generation_model_def model_ready_def bindR_eq_Inr Let_def find_model_member
      validate_overrides_Inr mapR_unit list_all_iff check_feature_ready)

section \<open>Ready nodes\<close>

definition context_ready :: "'k llm_env \<Rightarrow> context_config \<Rightarrow> bool" where
  "context_ready env c \<longleftrightarrow>
     (case c of
        PresetConfig p \<Rightarrow> trim p = p \<and> preset_heads (le_deps env) p \<noteq> None
      | InlineConfig spec \<Rightarrow> normalize_context_spec (le_ctx env) default_policy spec = Inr spec)"

definition complete_config :: "'k llm_config \<Rightarrow> bool" where
  "complete_config config \<longleftrightarrow>
     normalize_model_ref (lc_model config) = lc_model config
     \<and> lc_request config \<noteq> None \<and> lc_streaming config \<noteq> None
     \<and> (\<exists>out. lc_output config = Some out \<and> normalize_output (Some out) = out)"

text \<open>
  A ready node: its channel is published with the versions of the graph, its configuration is
  complete and in normal form, its limits are within the bounds of the service and of the model,
  its memory bindings, its request options and its tools are valid, and the channel offers the
  model with every capability that the node needs.
\<close>

definition config_ready ::
  "'k llm_env \<Rightarrow> nat \<Rightarrow> nat \<Rightarrow> 'k llm_config graph_node \<Rightarrow> 'k llm_config \<Rightarrow> 'k channel_revision \<Rightarrow> bool" where
  "config_ready env taxonomy decoder nd config channel \<longleftrightarrow>
     channel_heads (le_deps env) (mr_channel_id (lc_model config)) = Some channel
     \<and> ch_taxonomy_version (cr_spec channel) = taxonomy \<and> ch_decoder_version (cr_spec channel) = decoder
     \<and> complete_config config \<and> context_ready env (lc_context config)
     \<and> (\<exists>l. lc_limits config = Some l \<and> limits_ready (model_of channel (lc_model config)) l)
     \<and> (\<forall>m. lc_memory config = Some m \<longrightarrow>
          memory_ready (ce_selectors (le_ctx env)) (set (map in_name (inputs nd))) (set (map out_name (outputs nd))) m)
     \<and> request_ready env config \<and> tools_ready env channel config
     \<and> model_ready (le_keys env) (cr_spec channel) (lc_model config) (llm_model_requirements config) (lc_overrides config)
     \<and> map out_name (outputs nd) = [''default'']"

definition llm_ready :: "'k llm_env \<Rightarrow> nat \<Rightarrow> nat \<Rightarrow> 'k llm_config graph_node \<Rightarrow> bool" where
  "llm_ready env taxonomy decoder nd \<longleftrightarrow>
     (\<exists>config channel. kind nd = NLlm config \<and> config_ready env taxonomy decoder nd config channel)"

lemma context_fixed: "context_ready env c \<Longrightarrow> normalize_context_config env nid c = (c, [])"
  by (auto simp: context_ready_def normalize_context_config_def split: context_config.splits)

lemma context_becomes_ready:
  assumes "lower_laws (ce_lower (le_ctx env))"
  shows "snd (normalize_context_config env nid c) = [] \<longleftrightarrow> context_ready env (fst (normalize_context_config env nid c))"
  using normalized_again [OF assms]
  by (auto simp: context_ready_def normalize_context_config_def split: context_config.splits sum.splits)

lemma model_ref_again: "normalize_model_ref (normalize_model_ref r) = normalize_model_ref r"
  by (simp add: normalize_model_ref_def split: option.split)

lemma model_ref_channel [simp]: "mr_channel_id (normalize_model_ref r) = mr_channel_id r"
  by (simp add: normalize_model_ref_def)

lemma output_again: "normalize_output (Some (normalize_output out)) = normalize_output out"
  by (auto simp: normalize_output_def split: option.split output_spec.split)

lemma generation_issue_Nil:
  "(case validate_generation_model lib spec r requirements overrides of Inl code \<Rightarrow> [llm_issue code nid] | Inr _ \<Rightarrow> []) = []
     \<longleftrightarrow> model_ready lib spec r requirements overrides"
  unfolding validate_generation_model_Inr [symmetric] by (auto split: sum.splits)

text \<open>The completed configuration, and the checks that come after it.\<close>

definition completed :: "'k llm_env \<Rightarrow> string \<Rightarrow> 'k channel_revision \<Rightarrow> 'k llm_config \<Rightarrow> 'k llm_config" where
  "completed env nid channel config =
     config\<lparr>lc_model := normalize_model_ref (lc_model config),
       lc_context := fst (normalize_context_config env nid (lc_context config)),
       lc_request := Some (or_default (lc_request config) default_request_options),
       lc_output := Some (normalize_output (lc_output config)),
       lc_streaming := Some (normalize_streaming (lc_streaming config)),
       lc_limits := Some (fst (normalize_llm_limits channel (normalize_model_ref (lc_model config)) nid (lc_limits config)))\<rparr>"

lemma normalize_llm_node_result:
  assumes "kind nd = NLlm config" "channel_heads (le_deps env) (mr_channel_id (lc_model config)) = Some channel"
    and "lower_laws (ce_lower (le_ctx env))"
  shows "fst (normalize_llm_node env taxonomy decoder nd) = nd\<lparr>kind := NLlm (completed env (node_id nd) channel config)\<rparr>
    \<and> (snd (normalize_llm_node env taxonomy decoder nd) = [] \<longleftrightarrow>
        config_ready env taxonomy decoder nd (completed env (node_id nd) channel config) channel)"
proof -
  let ?c = "completed env (node_id nd) channel config"
  have complete: "complete_config ?c"
    by (simp add: completed_def complete_config_def model_ref_again output_again)
  obtain cx cxi where cx: "normalize_context_config env (node_id nd) (lc_context config) = (cx, cxi)"
    by fastforce
  obtain l li where l: "normalize_llm_limits channel (normalize_model_ref (lc_model config)) (node_id nd) (lc_limits config) = (l, li)"
    by fastforce
  have c: "?c = config\<lparr>lc_model := normalize_model_ref (lc_model config), lc_context := cx,
       lc_request := Some (or_default (lc_request config) default_request_options),
       lc_output := Some (normalize_output (lc_output config)),
       lc_streaming := Some (normalize_streaming (lc_streaming config)), lc_limits := Some l\<rparr>"
    by (simp add: completed_def cx l)
  have li: "li = [] \<longleftrightarrow> limits_ready (model_of channel (normalize_model_ref (lc_model config))) l"
    using limit_issues_Nil [of channel "normalize_model_ref (lc_model config)" "node_id nd" "lc_limits config"] l by simp
  have cxi: "cxi = [] \<longleftrightarrow> context_ready env cx"
    using context_becomes_ready [OF assms(3), of "node_id nd" "lc_context config"] cx by simp
  have node: "normalize_llm_node env taxonomy decoder nd = (nd\<lparr>kind := NLlm ?c\<rparr>,
       push_if (ch_taxonomy_version (cr_spec channel) \<noteq> taxonomy \<or> ch_decoder_version (cr_spec channel) \<noteq> decoder)
         (llm_issue ''operation_version_mismatch'' (node_id nd))
       @ cxi @ li
       @ validate_llm_memory (ce_selectors (le_ctx env)) ?c (node_id nd)
           (set (map in_name (inputs nd))) (set (map out_name (outputs nd)))
       @ request_issues env ?c (node_id nd) @ all_tool_issues env channel ?c (node_id nd)
       @ (case validate_generation_model (le_keys env) (cr_spec channel) (lc_model ?c)
                (llm_model_requirements ?c) (lc_overrides ?c) of
            Inl code \<Rightarrow> [llm_issue code (node_id nd)] | Inr _ \<Rightarrow> [])
       @ port_issues nd)"
    unfolding c by (simp add: normalize_llm_node_def assms(1,2) Let_def cx l)
  have "snd (normalize_llm_node env taxonomy decoder nd) = [] \<longleftrightarrow> config_ready env taxonomy decoder nd ?c channel"
    unfolding node snd_conv append_is_Nil_conv generation_issue_Nil validate_llm_memory_Nil request_issues_Nil
      all_tool_issues_Nil push_if_Nil port_issues_def config_ready_def li cxi
    using complete assms(2) by (simp add: c)
  then show ?thesis unfolding node by simp
qed

lemma completed_ready:
  assumes "config_ready env taxonomy decoder nd config channel"
  shows "completed env nid channel config = config"
proof -
  obtain l where "lc_limits config = Some l" "limits_ready (model_of channel (lc_model config)) l"
    using assms by (auto simp: config_ready_def)
  moreover have "normalize_context_config env nid (lc_context config) = (lc_context config, [])"
    using assms by (simp add: config_ready_def context_fixed)
  ultimately show ?thesis
    using assms by (cases config)
      (auto simp: config_ready_def complete_config_def completed_def or_default_def normalize_streaming_def limits_fixed)
qed

lemma llm_node_ready:
  assumes "lower_laws (ce_lower (le_ctx env))" "kind nd = NLlm config"
  shows "snd (normalize_llm_node env taxonomy decoder nd) = [] \<longleftrightarrow>
      llm_ready env taxonomy decoder (fst (normalize_llm_node env taxonomy decoder nd))"
    "llm_ready env taxonomy decoder nd \<longleftrightarrow> normalize_llm_node env taxonomy decoder nd = (nd, [])"
proof -
  let ?n = "normalize_llm_node env taxonomy decoder nd"
  have "(snd ?n = [] \<longleftrightarrow> llm_ready env taxonomy decoder (fst ?n)) \<and> (llm_ready env taxonomy decoder nd \<longleftrightarrow> ?n = (nd, []))"
  proof (cases "channel_heads (le_deps env) (mr_channel_id (lc_model config))")
    case None
    then show ?thesis
      by (simp add: normalize_llm_node_def assms(2) Let_def llm_ready_def config_ready_def)
  next
    case (Some channel)
    let ?c = "completed env (node_id nd) channel config"
    note r = normalize_llm_node_result [OF assms(2) Some assms(1), of taxonomy decoder]
    have "mr_channel_id (lc_model ?c) = mr_channel_id (lc_model config)" by (simp add: completed_def)
    then have out: "llm_ready env taxonomy decoder (fst ?n) \<longleftrightarrow> config_ready env taxonomy decoder nd ?c channel"
      using r Some by (auto simp: llm_ready_def config_ready_def)
    have self: "llm_ready env taxonomy decoder nd \<longleftrightarrow> config_ready env taxonomy decoder nd config channel"
      using Some assms(2) by (auto simp: llm_ready_def config_ready_def)
    have "config_ready env taxonomy decoder nd config channel \<longleftrightarrow> ?n = (nd, [])"
    proof
      assume "config_ready env taxonomy decoder nd config channel"
      then have "?c = config" by (rule completed_ready)
      with \<open>config_ready env taxonomy decoder nd config channel\<close> r show "?n = (nd, [])"
        by (simp add: assms(2) [symmetric] prod_eq_iff)
    next
      assume n: "?n = (nd, [])"
      then have "nd\<lparr>kind := NLlm ?c\<rparr> = nd" using r by simp
      then have "kind nd = NLlm ?c" by (metis graph_node.simps(8) graph_node.surjective graph_node.update_convs(8))
      then show "config_ready env taxonomy decoder nd config channel" using r n assms(2) by simp
    qed
    with r out self show ?thesis by simp
  qed
  then show "snd ?n = [] \<longleftrightarrow> llm_ready env taxonomy decoder (fst ?n)"
    "llm_ready env taxonomy decoder nd \<longleftrightarrow> ?n = (nd, [])" by simp_all
qed

section \<open>Applied graphs\<close>

text \<open>
  What the application of a graph relies on: a schema compiler that never refuses without an issue,
  and a normalisation of language-model nodes that makes a node ready when it reports no issue.
\<close>

locale schema_compiler =
  fixes compile :: "json_schema_spec \<Rightarrow> domain_error + schema_compilation"
  assumes refusal_explained: "compile spec \<noteq> Inl (SchemaValidation [])"
begin

lemma loop_compiles:
  "snd (compile_loop compile known specs) = [] \<Longrightarrow> spec \<in> set specs \<Longrightarrow>
     \<exists>c. compile spec = Inr c \<and> schema_hash c \<in> known \<union> schema_hash ` set (fst (compile_loop compile known specs))"
proof (induction specs arbitrary: known)
  case (Cons s specs)
  show ?case
  proof (cases "compile s")
    case (Inl e)
    with Cons show ?thesis using refusal_explained [of s] by (cases e) (auto split: prod.splits)
  next
    case (Inr c)
    define known' where "known' = (if schema_hash c \<in> known then known else insert (schema_hash c) known)"
    obtain cs iss where loop: "compile_loop compile known' specs = (cs, iss)" by fastforce
    have head: "compile_loop compile known (s # specs) = ((if schema_hash c \<in> known then cs else c # cs), iss)"
      using Inr loop by (cases "schema_hash c \<in> known") (simp_all add: known'_def)
    show ?thesis
    proof (cases "spec = s")
      case True
      with Inr head show ?thesis by auto
    next
      case False
      with Cons.prems have "spec \<in> set specs" by simp
      with Cons.IH [of known'] Cons.prems(1) head loop
      obtain c' where "compile spec = Inr c'" "schema_hash c' \<in> known' \<union> schema_hash ` set cs" by auto
      then show ?thesis using head by (auto simp: known'_def)
    qed
  qed
qed simp

end

lemma to_vec_error: "form_errors (to_vec sd v)"
  unfolding to_vec_def by (auto intro!: form_errors_bind form_errors_limits form_errors_write)

lemma compile_schema_issues: "compile_schema env spec \<noteq> Inl (SchemaValidation [])"
proof
  assume "compile_schema env spec = Inl (SchemaValidation [])"
  moreover have "canonical_hash sd sha v \<noteq> Inl (SchemaValidation is)" for sd sha v "is"
    using canonical_hash_error [of sd sha v] by (auto simp: form_errors_def)
  moreover have "to_vec sd v \<noteq> Inl (SchemaValidation is)" for sd v "is"
    using to_vec_error [of sd v] by (auto simp: form_errors_def)
  ultimately show False by (auto simp: compile_schema_def bindR_eq_Inl Let_def)
qed

interpretation compiler: schema_compiler "compile_schema env" for env
  by unfold_locales (rule compile_schema_issues)

lemma check_draft_schemas:
  "check_draft env draft taxonomy decoder = Some (Inr ck) \<Longrightarrow>
     ck_schemas ck = fst (compile_schemas env (ck_nodes ck) (dg_run_input_schema draft) (dg_output_contract draft))"
  by (auto simp: check_draft_def Let_def bind_eq_Some_conv split_def comp_def split: sum.splits)

lemma applied_steps:
  assumes "apply_graph env draft taxonomy decoder = Some (Inr g)"
  shows "ad_nodes (ag_definition g) = map (\<lambda>nd. fst (ae_llm env taxonomy decoder (fst (normalize_node nd)))) (dg_nodes draft)"
    "\<forall>nd \<in> set (dg_nodes draft). snd (ae_llm env taxonomy decoder (fst (normalize_node nd))) = []"
    "snd (compile_schemas env (ad_nodes (ag_definition g)) (dg_run_input_schema draft) (dg_output_contract draft)) = []"
    "sd_schema_hash ` set (ad_schema_semantics (ag_definition g))
       = schema_hash ` set (fst (compile_schemas env (ad_nodes (ag_definition g)) (dg_run_input_schema draft) (dg_output_contract draft)))"
proof (atomize (full), rule apply_graph_Inr [OF assms], rule check_draft_cases [of env draft taxonomy decoder],
    goal_cases)
  case (2 ck ck')
  then have ck: "ck' = ck" by simp
  have d: "ad_nodes (ag_definition g) = ck_nodes ck"
    "ad_schema_semantics (ag_definition g) = sort_key sd_schema_hash (map semantic_digest (ck_schemas ck))"
    unfolding 2(3) by (simp_all add: applied_of_def)
  have "ck_nodes ck = map (\<lambda>nd. fst (ae_llm env taxonomy decoder (fst (normalize_node nd)))) (dg_nodes draft)"
    using 2(7) unfolding ck by (simp add: comp_def)
  moreover have "list_all (\<lambda>nd. snd (ae_llm env taxonomy decoder (fst (normalize_node nd))) = []) (dg_nodes draft)
      \<and> snd (compile_schemas env (ck_nodes ck) (dg_run_input_schema draft) (dg_output_contract draft)) = []"
    using 2(2,8) unfolding ck by blast
  ultimately show ?case
    unfolding d check_draft_schemas [OF 2(1), symmetric] by (auto simp: list_all_iff semantic_digest_def image_iff)
qed simp

locale llm_stage =
  fixes llm :: "nat \<Rightarrow> nat \<Rightarrow> 'llm graph_node \<Rightarrow> 'llm graph_node \<times> validation_issue list"
    and ready :: "nat \<Rightarrow> nat \<Rightarrow> 'llm graph_node \<Rightarrow> bool"
  assumes accepted_ready: "snd (llm taxonomy decoder nd) = [] \<Longrightarrow> ready taxonomy decoder (fst (llm taxonomy decoder nd))"
begin

lemma applied_ready:
  assumes "apply_graph env draft taxonomy decoder = Some (Inr g)" "ae_llm env = llm"
    and "nd \<in> set (ad_nodes (ag_definition g))"
  shows "ready OPERATION_TAXONOMY_VERSION ADAPTER_DECODER_VERSION nd"
proof -
  have versions: "taxonomy = OPERATION_TAXONOMY_VERSION" "decoder = ADAPTER_DECODER_VERSION"
    using applied_well_formed(3,4) [OF assms(1)] apply_graph_Inr [OF assms(1)]
    by (metis applied_of_def applied_definition.select_convs(3,4))+
  obtain dn where "dn \<in> set (dg_nodes draft)" "nd = fst (llm taxonomy decoder (fst (normalize_node dn)))"
    using assms(3) unfolding applied_steps(1) [OF assms(1)] assms(2) by auto
  then show ?thesis
    using applied_steps(2) [OF assms(1)] accepted_ready [of taxonomy decoder "fst (normalize_node dn)"]
    by (simp add: assms(2) versions)
qed

end

text \<open>The nodes of language models are ready; the others are no concern of this stage.\<close>

definition stage_ready :: "'k llm_env \<Rightarrow> nat \<Rightarrow> nat \<Rightarrow> 'k llm_config graph_node \<Rightarrow> bool" where
  "stage_ready env taxonomy decoder nd \<longleftrightarrow>
     lower_laws (ce_lower (le_ctx env)) \<and> (\<exists>config. kind nd = NLlm config) \<longrightarrow> llm_ready env taxonomy decoder nd"

lemma other_node: "(\<And>config. kind nd \<noteq> NLlm config) \<Longrightarrow> normalize_llm_node env taxonomy decoder nd = (nd, [])"
  by (cases "kind nd") (auto simp: normalize_llm_node_def)

lemma stage_accepts:
  assumes "snd (normalize_llm_node env taxonomy decoder nd) = []"
  shows "stage_ready env taxonomy decoder (fst (normalize_llm_node env taxonomy decoder nd))"
proof (cases "\<exists>config. kind nd = NLlm config")
  case True
  then show ?thesis using llm_node_ready(1) [of env nd] assms by (auto simp: stage_ready_def)
next
  case False
  then show ?thesis using other_node [of nd env taxonomy decoder] by (auto simp: stage_ready_def)
qed

interpretation llm_nodes: llm_stage "normalize_llm_node env" "stage_ready env" for env
  by unfold_locales (rule stage_accepts)

end
