(* ===== verification/Llm_Node_Theorems.thy ===== *)
theory Llm_Node_Theorems
  imports Llm_Node_Properties "HOL-Library.Code_Target_Numeral"
begin

text \<open>
  The properties of language-model nodes and of the schemas of applied graphs, with a graph of one
  such node that has an inline context, a memory tool, a registered tool and a hosted tool.
\<close>

section \<open>A node\<close>

definition claude_keys :: "unit key_lib" where
  "claude_keys =
     \<lparr>kl_operation = (\<lambda>_. GenerateContent), kl_kind = (\<lambda>_. ContentGeneration ClaudeMessages),
      kl_group = (\<lambda>_. OtherGroup), kl_consistent = (\<lambda>_. True), kl_family = (\<lambda>_. ClaudeProvider), kl_json = (\<lambda>_. JNull)\<rparr>"

definition claude_channel :: "unit channel_revision" where
  "claude_channel =
     \<lparr>cr_id = ''rev1'', cr_channel_id = ''claude'', cr_revision_no = 1,
      cr_spec =
        \<lparr>ch_taxonomy_version = 1, ch_decoder_version = 1, ch_base_url = ''https://example.com'',
         ch_transport_policy = \<lparr>allow_loopback_http = False, allow_unauthenticated = False\<rparr>,
         ch_credential = SecretCredential \<lparr>secret_id = ''s''\<rparr>, ch_operation_keys = [()],
         ch_model_catalogs =
           [\<lparr>mc_operation_key = (), mc_policy = Allowlist,
             mc_models =
               [\<lparr>cm_id = ''m'', cm_name = None, cm_context_window = Some 1000, cm_max_output_tokens = Some 100,
                 cm_capabilities = \<lparr>cap_streaming = None, cap_tool_calling = Some True, cap_structured_output = None,
                   cap_vision_input = None\<rparr>\<rparr>]\<rparr>],
         ch_capabilities = [HostedToolCapability () ''web_search'']\<rparr>,
      cr_content_hash = ''h'', cr_created_at = 0\<rparr>"

definition array_tool :: tool_descriptor where
  "array_tool =
     \<lparr>tool_id = ''sum'', tool_version = ''1'', tool_name = ''sum'', tool_description = None,
      tool_input_schema = plain_schema closed_document, tool_binding_schema = None,
      tool_effect_spec = \<lparr>te_classification = PureEffect, te_operation_key = ''sum'', te_requires_approval = False\<rparr>,
      tool_supports_parallel = True, tool_required_scopes = [\<lparr>req_kind = ScopeNetwork, req_scope = ''lan''\<rparr>],
      tool_limits_of = \<lparr>tl_timeout_ms = 1, tl_max_input_bytes = 1, tl_max_llm_result_bytes = 1, tl_max_artifact_bytes = 1\<rparr>\<rparr>"

definition array_resolved :: resolved_tool where
  "array_resolved =
     \<lparr>rt_descriptor = array_tool, rt_descriptor_digest = ''sha256:00'', rt_schema_digests = [''sha256:00''],
      rt_implementation_digest = ''i'', rt_executor_key = ''builtin''\<rparr>"

definition array_tools :: tool_env where
  "array_tools = \<lparr>tv_schema = array_env, tv_encode_descriptor = (\<lambda>_. JNull), tv_encode_entries = (\<lambda>_. JNull)\<rparr>"

definition sum_grant :: tool_grant where
  "sum_grant =
     \<lparr>tg_binding_id = ''b1'', tg_tool_id = ''sum'', tg_version = ''1'', tg_exposed_name = None,
      tg_scopes = [\<lparr>sg_kind = ScopeNetwork, sg_scope = ''lan'', sg_paths = [], sg_origins = []\<rparr>],
      tg_artifact = \<lparr>ag_read_scopes = [], ag_write_scopes = [], ag_allowed_media_types = [], ag_max_objects = 1, ag_max_bytes = 1\<rparr>,
      tg_constraints = [], tg_approval = None, tg_failure_policy = None\<rparr>"

lemma compile_schema_payload:
  "compile_schema env spec = Inr c \<Longrightarrow> compiled_payload_hash c = hash_bytes (se_sha env) (compiled_payload c)"
  by (auto simp: compile_schema_def bindR_eq_Inr Let_def)

lemma array_tool_compiles:
  "\<exists>c. compile_tool_descriptor array_tools array_tool = Inr [c] \<and> compiled_payload_hash c = ''sha256:00''"
proof -
  obtain c where c: "compile_schema array_env (plain_schema closed_document) = Inr c" using array_compiles by blast
  have "compiled_payload_hash c = ''sha256:00''"
    using compile_schema_payload [OF c] by (simp add: array_env_def hash_bytes_def)
  moreover have "valid_name ''sum''" "valid_name ''1''" "trim ''sum'' \<noteq> []" "trim ''lan'' \<noteq> []" by code_simp+
  ultimately show ?thesis
    using c by (simp add: compile_tool_descriptor_def array_tool_def array_tools_def valid_tool_limits_def)
qed

lemma sum_grant_valid: "validate_tool_grant array_tools sum_grant array_resolved = Inr ()"
proof -
  have "descriptor_digest array_tools array_tool = Inr ''sha256:00''" "valid_name ''builtin''" by code_simp+
  then show ?thesis
    using array_tool_compiles
    by (auto simp: validate_tool_grant_def validate_resolved_tool_descriptor_def array_resolved_def sum_grant_def array_tool_def)
qed

text \<open>
  An accepted grant names the descriptor it is resolved to, whose pinned digests are the ones of
  its content, its configuration satisfies the binding schema, and it has every scope that the tool
  requires.
\<close>
theorem tool_grant_sound:
  assumes "validate_tool_grant env g r = Inr ()"
  shows "grant_sound env g r"
  by (rule validate_tool_grant_sound [OF assms])

theorem tool_grant_sound_witness: "grant_sound array_tools sum_grant array_resolved"
  by (rule tool_grant_sound [OF sum_grant_valid])

text \<open>A node whose configuration leaves out most of what it may leave out.\<close>

definition claude_env :: "unit llm_env" where
  "claude_env =
     \<lparr>le_keys = claude_keys, le_ctx = lore_env, le_tools = array_tools,
      le_deps =
        \<lparr>channel_heads = (\<lambda>i. if i = ''claude'' then Some claude_channel else None), preset_heads = (\<lambda>_. None),
         tool_descriptors = (\<lambda>i. if i = (''sum'', ''1'') then Some array_resolved else None)\<rparr>\<rparr>"

definition claude_config :: "unit llm_config" where
  "claude_config =
     \<lparr>lc_model = \<lparr>mr_channel_id = ''claude'', mr_model_id = '' m '', mr_model_name = Some '' '', mr_operation_key = ()\<rparr>,
      lc_overrides = [], lc_context = InlineConfig lore_spec,
      lc_memory = Some
        \<lparr>lm_node =
           \<lparr>nm_reads = [\<lparr>sr_id = ''r'', sr_alias = ''log'', sr_source = HistoryRead ''run-context'', sr_required = True,
              sr_consistency = Snapshot, sr_limit = None, sr_max_bytes = 100\<rparr>],
            nm_writes = [\<lparr>sw_id = ''w'', sw_timing = AfterNodeCompleted, sw_target_scope = ''run-context'', sw_path = ''/log'',
              sw_op = WriteAppend, sw_value_from = Some \<lparr>fs_source = FromBinding, fs_source_name = ''log'', fs_selector = WholeValue\<rparr>\<rparr>]\<rparr>,
         lm_tools = [\<lparr>mg_capability = SearchMemory, mg_scopes = [''facts''], mg_max_results = Some 5, mg_max_proposal_bytes = None\<rparr>]\<rparr>,
      lc_tools = [sum_grant],
      lc_hosted_tools = [\<lparr>hb_binding_id = ''b2'', hb_operation_key = (), hb_hosted_kind = ''web_search'', hb_config = [],
        hb_resource_scopes = [], hb_effect = tool_effect_spec array_tool, hb_max_uses = 1\<rparr>],
      lc_request = None, lc_output = None, lc_streaming = None, lc_limits = None\<rparr>"

definition claude_node :: "unit llm_config graph_node" where
  "claude_node =
     \<lparr>node_id = ''n'', node_name = None, is_entry = False, inputs = [default_input], outputs = [default_output],
      timeout_ms = None, node_retry_policy = None, kind = NLlm claude_config\<rparr>"

definition claude_limits :: node_limits where
  "claude_limits =
     \<lparr>nl_max_model_calls = Some 8, nl_max_count_calls = Some 2, nl_max_tool_calls = Some 32, nl_max_output_repairs = Some 1,
      nl_max_concurrent_tools = Some 4, nl_max_input_tokens = Some 1000, nl_max_output_tokens = Some 100\<rparr>"

definition claude_model :: "unit model_ref" where
  "claude_model = \<lparr>mr_channel_id = ''claude'', mr_model_id = ''m'', mr_model_name = None, mr_operation_key = ()\<rparr>"

definition claude_done :: "unit llm_config" where
  "claude_done =
     claude_config\<lparr>lc_model := claude_model, lc_context := InlineConfig lore_normal,
       lc_request := Some default_request_options, lc_output := Some (TextOutput (Some LastAssistantTurn) False),
       lc_streaming := Some \<lparr>ns_enabled = False, ns_audience = AudienceInternal, ns_persist_chunks = False\<rparr>,
       lc_limits := Some claude_limits\<rparr>"

lemma claude_model_normal: "normalize_model_ref (lc_model claude_config) = claude_model"
  by code_simp

lemma claude_limits_normal: "fst (normalize_llm_limits claude_channel claude_model nid None) = claude_limits"
  "snd (normalize_llm_limits claude_channel claude_model nid None) = []"
  by code_simp+

lemma claude_completed: "completed claude_env nid claude_channel claude_config = claude_done"
proof -
  have "fst (normalize_context_config claude_env nid (InlineConfig lore_spec)) = InlineConfig lore_normal"
    by (simp add: normalize_context_config_def claude_env_def lore_normalizes)
  moreover have "lc_context claude_config = InlineConfig lore_spec" "lc_limits claude_config = None"
    by (simp_all add: claude_config_def)
  ultimately show ?thesis
    unfolding completed_def claude_model_normal
    by (simp add: claude_limits_normal(1) claude_done_def) (simp add: claude_config_def or_default_def normalize_output_def
        normalize_streaming_def)
qed

lemma claude_memory:
  "memory_ready (ce_selectors (le_ctx claude_env)) {''default''} {''default''} (the (lc_memory claude_config))"
proof -
  have "validate_llm_memory (ce_selectors (le_ctx claude_env)) claude_config [] {''default''} {''default''} = []"
    by code_simp
  moreover have "lc_memory claude_config = Some (the (lc_memory claude_config))" by (simp add: claude_config_def)
  ultimately show ?thesis unfolding validate_llm_memory_Nil by blast
qed

lemma claude_tools: "tools_ready claude_env claude_channel claude_done"
proof -
  have "grant_named claude_env sum_grant" "valid_grant_limits sum_grant" "grant_name claude_env sum_grant = ''sum''"
    "\<forall>h \<in> set (lc_hosted_tools claude_done). hosted_ready claude_channel h"
    "memory_tool_names claude_done = [''search_memory'']" by code_simp+
  moreover have "resolved_grant claude_env sum_grant = Some array_resolved" "le_tools claude_env = array_tools"
    by (simp_all add: resolved_grant_def claude_env_def sum_grant_def)
  moreover have "lc_tools claude_done = [sum_grant]" "map hb_binding_id (lc_hosted_tools claude_done) = [''b2'']"
    by (simp_all add: claude_done_def claude_config_def)
  moreover have "tg_binding_id sum_grant = ''b1''" by (simp add: sum_grant_def)
  ultimately show ?thesis
    using sum_grant_valid by (auto simp: tools_ready_def grant_ready_def)
qed

lemma claude_offered:
  "model_ready (le_keys claude_env) (cr_spec claude_channel) claude_model (llm_model_requirements claude_done) []"
  unfolding validate_generation_model_Inr [symmetric] by code_simp

lemma claude_config_ready: "config_ready claude_env 1 1 claude_node claude_done claude_channel"
  unfolding config_ready_def
proof (intro conjI allI impI)
  show "context_ready claude_env (lc_context claude_done)"
    using normalized_again [OF _ lore_normalizes] ascii_lower_laws
    by (simp add: context_ready_def claude_done_def claude_env_def lore_env_def)
  show "\<exists>l. lc_limits claude_done = Some l \<and> limits_ready (model_of claude_channel (lc_model claude_done)) l"
    using limit_issues_Nil [of claude_channel claude_model "[]" None]
    by (simp add: claude_done_def claude_limits_normal)
  show "complete_config claude_done"
    using model_ref_again [of "lc_model claude_config"] by (simp add: complete_config_def claude_done_def claude_model_normal normalize_output_def)
  show "request_ready claude_env claude_done"
    by (simp add: request_ready_def claude_done_def default_request_options_def)
  show "model_ready (le_keys claude_env) (cr_spec claude_channel) (lc_model claude_done)
      (llm_model_requirements claude_done) (lc_overrides claude_done)"
    using claude_offered by (simp add: claude_done_def claude_config_def)
  show "tools_ready claude_env claude_channel claude_done" by (rule claude_tools)
  fix m assume "lc_memory claude_done = Some m"
  then have "m = the (lc_memory claude_config)" by (simp add: claude_done_def)
  then show "memory_ready (ce_selectors (le_ctx claude_env)) (set (map in_name (inputs claude_node)))
      (set (map out_name (outputs claude_node))) m"
    using claude_memory by (simp add: claude_node_def default_input_def default_output_def)
qed (simp_all add: claude_env_def claude_channel_def claude_node_def claude_done_def claude_model_def default_output_def)

lemma claude_laws: "lower_laws (ce_lower (le_ctx claude_env))"
  using ascii_lower_laws by (simp add: claude_env_def lore_env_def)

lemma claude_node_normal: "normalize_llm_node claude_env 1 1 claude_node = (claude_node\<lparr>kind := NLlm claude_done\<rparr>, [])"
proof -
  have k: "kind claude_node = NLlm claude_config" "node_id claude_node = ''n''" by (simp_all add: claude_node_def)
  have "channel_heads (le_deps claude_env) (mr_channel_id (lc_model claude_config)) = Some claude_channel"
    by (simp add: claude_env_def claude_config_def)
  from normalize_llm_node_result [OF k(1) this claude_laws, of 1 1] claude_config_ready show ?thesis
    by (simp add: claude_completed prod_eq_iff)
qed

section \<open>A graph\<close>

definition ask_env :: "unit llm_config apply_env" where
  "ask_env = llm_apply_env claude_env (\<lambda>_. JNull)"

definition ask_node :: "string \<Rightarrow> unit llm_config node_kind \<Rightarrow> unit llm_config draft_node" where
  "ask_node i k = \<lparr>d_id = i, d_name = None, d_is_entry = None, d_inputs = [], d_outputs = [], d_timeout_ms = None,
     d_retry_policy = None, d_kind = k\<rparr>"

definition ask_draft :: "unit llm_config graph_draft" where
  "ask_draft =
     \<lparr>dg_graph_id = ''g'', dg_name = None,
      dg_nodes = [ask_node ''i'' (NInput WholeValue), ask_node ''n'' (NLlm claude_config), ask_node ''o'' (NOutput ''k'')],
      dg_edges = [flow_edge ''e1'' ''i'' ''default'' ''n'', flow_edge ''e2'' ''n'' ''default'' ''o''],
      dg_run_input_schema = Some (plain_schema closed_document),
      dg_output_contract = [\<lparr>contract_key = ''k'', contract_schema = None, contract_collection = Single, contract_required = True\<rparr>],
      dg_limits = None\<rparr>"

definition ask_nodes :: "unit llm_config graph_node list" where
  "ask_nodes = [fst (normalize_node (ask_node ''i'' (NInput WholeValue))), claude_node\<lparr>kind := NLlm claude_done\<rparr>,
     fst (normalize_node (ask_node ''o'' (NOutput ''k'')))]"

definition ask_edges :: "graph_edge list" where
  "ask_edges = map (\<lambda>d. \<lparr>edge_id = the (de_id d), edge_from = de_from d, edge_to = de_to d\<rparr>) (dg_edges ask_draft)"

lemma ask_fields:
  "ae_serde ask_env = simple_serde" "ae_sha ask_env = (\<lambda>_. ''00'')" "ae_llm ask_env = normalize_llm_node claude_env"
  "ae_compile ask_env = compile_schema array_env" "ae_encode ask_env = (\<lambda>_. JNull)" "ae_llm_schema ask_env = llm_output_schema"
  "dg_limits ask_draft = None" "dg_run_input_schema ask_draft = Some (plain_schema closed_document)"
  by (simp_all add: ask_env_def llm_apply_env_def claude_env_def array_tools_def array_env_def ask_draft_def Let_def)

lemma ask_hash:
  "canonical_hash simple_serde (\<lambda>_. ''00'') JNull = Inr ''sha256:00''"
  "canonical_hash simple_serde (\<lambda>_. ''00'') (edge_json (flow_edge ''e1'' ''i'' ''default'' ''n'')) = Inr ''sha256:00''"
  "canonical_hash simple_serde (\<lambda>_. ''00'') (edge_json (flow_edge ''e2'' ''n'' ''default'' ''o'')) = Inr ''sha256:00''"
  by code_simp+

lemma ask_edges_normal: "normalize_edges simple_serde (\<lambda>_. ''00'') (dg_edges ask_draft) = Inr (ask_edges, [])"
  using ask_hash(2,3)
  by (simp add: normalize_edges_def ask_draft_def ask_edges_def flow_edge_def push_if_def)

lemma ask_nodes_normal:
  "map (fst \<circ> normalize_node) (dg_nodes ask_draft)
     = [fst (normalize_node (ask_node ''i'' (NInput WholeValue))), claude_node, fst (normalize_node (ask_node ''o'' (NOutput ''k'')))]"
  "map (snd \<circ> normalize_node) (dg_nodes ask_draft) = [[], [], []]"
  by (simp_all add: ask_draft_def ask_node_def normalize_node_def Let_def push_if_def claude_node_def normalize_router_def)

lemma ask_llm:
  "map (normalize_llm_node claude_env 1 1) (map (fst \<circ> normalize_node) (dg_nodes ask_draft)) = map (\<lambda>nd. (nd, [])) ask_nodes"
  unfolding ask_nodes_normal
  using claude_node_normal
  by (simp add: ask_nodes_def other_node ask_node_def normalize_node_def normalize_router_def Let_def)

lemma ask_search: "validate_cycles ask_nodes ask_edges = Some []" "unreachable_warnings ask_nodes ask_edges = Some []"
  by code_simp+

lemma ask_compiled: "\<exists>c. compile_schemas ask_env ask_nodes (Some (plain_schema closed_document)) (dg_output_contract ask_draft) = ([c], [])"
  using array_compiles
  by (auto simp: compile_schemas_def node_schemas_def option_list_def ask_nodes_def ask_node_def normalize_node_def Let_def
      normalize_router_def default_input_def default_output_def ask_fields ask_draft_def claude_node_def claude_done_def
      llm_output_schema_def)

lemma ask_checks:
  "validate_nodes simple_serde ask_nodes default_run_limits = []"
  "validate_selectors (ae_selectors ask_env) ask_nodes = []"
  "validate_edges ask_nodes ask_edges = []"
  "validate_outputs ask_nodes (dg_output_contract ask_draft) = []"
  by (simp_all add: validate_nodes_def ask_nodes_def ask_node_def normalize_node_def Let_def
      validate_execution_policy_def unique_ports_def push_if_def validate_router_def validate_coordination_def
      normalize_router_def default_input_def default_output_def ask_draft_def claude_node_def
      validate_selectors_def validate_edges_def edge_targets_def ask_edges_def flow_edge_def node_by_id_def
      validate_outputs_def is_sink_def)

lemma ask_applied:
  "\<exists>g. apply_graph ask_env ask_draft 1 1 = Some (Inr g) \<and> ad_nodes (ag_definition g) = ask_nodes
     \<and> length (ad_schema_semantics (ag_definition g)) = 1"
proof -
  obtain c where c: "compile_schemas ask_env ask_nodes (Some (plain_schema closed_document)) (dg_output_contract ask_draft) = ([c], [])"
    using ask_compiled by blast
  have n: "map (\<lambda>x. fst (normalize_llm_node claude_env 1 1 (fst (normalize_node x)))) (dg_nodes ask_draft) = ask_nodes"
    "map (\<lambda>x. snd (normalize_llm_node claude_env 1 1 (fst (normalize_node x)))) (dg_nodes ask_draft) = [[], [], []]"
    using arg_cong [OF ask_llm, of "map fst"] arg_cong [OF ask_llm, of "map snd"]
    by (simp_all add: comp_def) (simp add: ask_nodes_def)
  have "\<exists>ck. check_draft ask_env ask_draft 1 1 = Some (Inr ck) \<and> ck_issues ck = [] \<and> ck_nodes ck = ask_nodes \<and> ck_schemas ck = [c]"
    using ask_nodes_normal(2)
    by (simp add: check_draft_def ask_fields flow_limits ask_edges_normal Let_def split_def comp_def ask_search n [unfolded One_nat_def]
        ask_checks c OPERATION_TAXONOMY_VERSION_def ADAPTER_DECODER_VERSION_def push_if_def)
  then show ?thesis
    by (auto simp: apply_graph_def Let_def ask_fields ask_hash(1) applied_of_def)
qed

section \<open>Properties\<close>

text \<open>
  C12: Normalising a language-model node reports no issue exactly when the node it gives is ready,
  and the ready nodes are exactly the nodes that normalisation leaves alone without an issue.
\<close>
theorem normalize_llm_node_exact:
  assumes "lower_laws (ce_lower (le_ctx env))" "kind nd = NLlm config"
  shows "(snd (normalize_llm_node env taxonomy decoder nd) = []
        \<longleftrightarrow> llm_ready env taxonomy decoder (fst (normalize_llm_node env taxonomy decoder nd)))
    \<and> (llm_ready env taxonomy decoder nd \<longleftrightarrow> normalize_llm_node env taxonomy decoder nd = (nd, []))"
  using llm_node_ready [OF assms] by blast

theorem normalize_llm_node_exact_witness:
  "llm_ready claude_env 1 1 (claude_node\<lparr>kind := NLlm claude_done\<rparr>)"
proof -
  have "kind claude_node = NLlm claude_config" by (simp add: claude_node_def)
  from normalize_llm_node_exact [OF claude_laws this, of 1 1] show ?thesis by (simp add: claude_node_normal del: One_nat_def)
qed

text \<open>
  C5: Every language-model node of an applied graph is ready, for the channels, presets and tools
  that were published when the graph was applied.
\<close>
theorem applied_llm_ready:
  assumes "apply_graph (llm_apply_env env encode) draft taxonomy decoder = Some (Inr g)"
    and "lower_laws (ce_lower (le_ctx env))"
    and "nd \<in> set (ad_nodes (ag_definition g))" "kind nd = NLlm config"
  shows "llm_ready env OPERATION_TAXONOMY_VERSION ADAPTER_DECODER_VERSION nd"
proof -
  have "ae_llm (llm_apply_env env encode) = normalize_llm_node env" by (simp add: llm_apply_env_def Let_def)
  from llm_nodes.applied_ready [OF assms(1) this assms(3)] show ?thesis using assms(2,4) by (simp add: stage_ready_def)
qed

theorem applied_llm_ready_witness:
  "\<exists>g nd. apply_graph ask_env ask_draft 1 1 = Some (Inr g) \<and> nd \<in> set (ad_nodes (ag_definition g))
     \<and> node_id nd = ''n'' \<and> llm_ready claude_env OPERATION_TAXONOMY_VERSION ADAPTER_DECODER_VERSION nd"
proof -
  obtain g where g: "apply_graph ask_env ask_draft 1 1 = Some (Inr g)" "ad_nodes (ag_definition g) = ask_nodes"
    using ask_applied by blast
  have nd: "claude_node\<lparr>kind := NLlm claude_done\<rparr> \<in> set (ad_nodes (ag_definition g))"
    "kind (claude_node\<lparr>kind := NLlm claude_done\<rparr>) = NLlm claude_done" "node_id (claude_node\<lparr>kind := NLlm claude_done\<rparr>) = ''n''"
    by (simp_all add: g(2) ask_nodes_def claude_node_def)
  from applied_llm_ready [OF g(1) [unfolded ask_env_def] claude_laws nd(1,2)] g(1) nd(1,3) show ?thesis by blast
qed



end
