(* ===== verification/Request_Properties.thy ===== *)
theory Request_Properties
  imports Request_Builder Service_Operations Llm_Transcript Context_Assembly Llm_Node_Theorems
begin

text \<open>
  What a built request promises: its model is pinned, its tools are granted and pinned in the
  registry, its hosted tool is approved, its transcript begins with the messages of the context with
  their provenance, and the checks of requests accept it.
\<close>

section \<open>Steps\<close>

lemma validate_execution_Inr:
  assumes "validate_execution env x ctx n = Inr ()"
  shows "n \<noteq> 0" "pin_allowed (ex_channel x) (ex_operation x)" "model_is_pinned x"
    "context_snapshot_matches (ex_context x) (as_config (ao_snapshot ctx))"
    "\<exists>hard. nl_max_output_tokens (ex_limits x) = Some hard \<and> hard \<noteq> 0
       \<and> (\<forall>v. preferred_output x = Some v \<longrightarrow> 0 < v \<and> v \<le> hard)"
proof -
  obtain h hard where v: "n \<noteq> 0" "pin_channel_revision_id (ex_operation x) = cr_id (ex_channel x)"
      "pin_taxonomy_version (ex_operation x) = ch_taxonomy_version (cr_spec (ex_channel x))"
      "pin_decoder_version (ex_operation x) = ch_decoder_version (cr_spec (ex_channel x))"
      "pin_operation_key (ex_operation x) \<in> set (ch_operation_keys (cr_spec (ex_channel x)))" "model_is_pinned x"
      "nl_max_output_tokens (ex_limits x) = Some hard" "hard \<noteq> 0"
      "case preferred_output x of None \<Rightarrow> True | Some v \<Rightarrow> v \<noteq> 0 \<and> v \<le> hard"
      "context_snapshot_matches (ex_context x) (as_config (ao_snapshot ctx))"
    using assms by (auto simp: validate_execution_def bindR_eq_Inr)
  then obtain c m where "find_catalog (cr_spec (ex_channel x)) (pin_operation_key (ex_operation x)) = Some c"
      "m \<in> set (mc_models c)" "cm_id m = pin_model_id (ex_operation x)"
    by (auto simp: model_is_pinned_def list_ex_iff split: option.splits)
  then obtain c where c: "find_catalog (cr_spec (ex_channel x)) (pin_operation_key (ex_operation x)) = Some c"
      "pin_model_id (ex_operation x) \<in> cm_id ` set (mc_models c)"
    by (metis imageI)
  show "pin_allowed (ex_channel x) (ex_operation x)"
    using v(2-5) c find_catalog_Some [OF c(1)] by (auto simp: pin_allowed_def)
  show "\<exists>hard. nl_max_output_tokens (ex_limits x) = Some hard \<and> hard \<noteq> 0
      \<and> (\<forall>v. preferred_output x = Some v \<longrightarrow> 0 < v \<and> v \<le> hard)"
    using v(7-9) by auto
qed (use assms in \<open>auto simp: validate_execution_def bindR_eq_Inr\<close>)

definition tool_sound :: "tool_env \<Rightarrow> registry_snapshot \<Rightarrow> request_tool \<Rightarrow> bool" where
  "tool_sound env registry q \<longleftrightarrow>
     grant_sound env (qt_grant q) (qt_descriptor q) \<and> entry_of (qt_descriptor q) \<in> set (rg_entries registry)
     \<and> qt_exposed_name q = exposed_name (qt_grant q) (qt_descriptor q) \<and> qt_binding_id q = tg_binding_id (qt_grant q)
     \<and> (qt_requires_approval q \<longleftrightarrow> te_requires_approval (tool_effect_spec (rt_descriptor (qt_descriptor q)))
          \<or> tg_approval (qt_grant q) = Some AlwaysApprove)"

lemma validate_descriptor_pin:
  assumes "validate_descriptor env g r pin = Inr ()" "find_pin pins g = Some pin"
  shows "grant_sound env g r" "entry_of r \<in> set pins"
proof -
  have v: "tool_id (rt_descriptor r) = tg_tool_id g" "tool_version (rt_descriptor r) = tg_version g"
      "re_descriptor_digest pin = rt_descriptor_digest r" "re_schema_digests pin = rt_schema_digests r"
      "re_implementation_digest pin = rt_implementation_digest r" "validate_tool_grant env g r = Inr ()"
    using assms(1) by (auto simp: validate_descriptor_def bindR_eq_Inr Let_def)
  show "grant_sound env g r" by (rule validate_tool_grant_sound [OF v(6)])
  have "pin \<in> set pins" "entry_key pin = (tg_tool_id g, tg_version g)"
    using assms(2) by (auto simp: find_pin_def find_Some_iff)
  moreover have "entry_of r = pin" using v(1-5) \<open>entry_key pin = _\<close> by (cases pin) (simp add: entry_of_def entry_key_def)
  ultimately show "entry_of r \<in> set pins" by simp
qed

lemma resolve_grants_Inr:
  assumes "resolve_grants env (rg_entries registry) rs gs names = Inr (ds, qs)"
  shows "map qt_grant qs = gs \<and> ds = map (\<lambda>q. descriptor_ir (qt_grant q) (qt_descriptor q)) qs
    \<and> list_all (tool_sound env registry) qs \<and> distinct (map td_name ds) \<and> td_name ` set ds \<inter> names = {}"
  using assms
proof (induction gs arbitrary: names ds qs)
  case (Cons g gs)
  obtain r pin ds' qs' where s: "find_pin (rg_entries registry) g = Some pin"
      "validate_descriptor env g r pin = Inr ()" "exposed_name g r \<notin> names"
      "resolve_grants env (rg_entries registry) rs gs (insert (exposed_name g r) names) = Inr (ds', qs')"
      "ds = descriptor_ir g r # ds'" "qs = request_tool_of g r # qs'"
    using Cons.prems by (auto simp: bindR_eq_Inr)
  have "tool_sound env registry (request_tool_of g r)"
    using validate_descriptor_pin [OF s(2,1)] by (simp add: tool_sound_def request_tool_of_def)
  moreover have "td_name (descriptor_ir g r) = exposed_name g r" by (simp add: descriptor_ir_def)
  moreover have "qt_grant (request_tool_of g r) = g" "qt_descriptor (request_tool_of g r) = r"
    by (simp_all add: request_tool_of_def)
  moreover note IH = Cons.IH [OF s(4)]
  ultimately have "map qt_grant qs = g # gs \<and> ds = map (\<lambda>q. descriptor_ir (qt_grant q) (qt_descriptor q)) qs
      \<and> list_all (tool_sound env registry) qs"
    unfolding s(5,6) by simp
  moreover have "exposed_name g r \<notin> td_name ` set ds'" "td_name ` set ds' \<inter> names = {}" "distinct (map td_name ds')"
    using IH by blast+
  then have "distinct (map td_name ds) \<and> td_name ` set ds \<inter> names = {}"
    using s(3) \<open>td_name (descriptor_ir g r) = _\<close> by (simp add: s(5))
  ultimately show ?case by blast
qed simp

lemma resolve_memory_Inr:
  assumes "resolve_memory_grants gs names = Inr (ds, ms)"
  shows "ds = map (memory_descriptor \<circ> mg_capability) gs \<and> map mt_grant ms = gs \<and> map mt_exposed_name ms = map td_name ds
    \<and> distinct (map td_name ds) \<and> td_name ` set ds \<inter> names = {}"
  using assms
proof (induction gs arbitrary: names ds ms)
  case (Cons g gs)
  obtain ds' ms' where s: "td_name (memory_descriptor (mg_capability g)) \<notin> names"
      "resolve_memory_grants gs (insert (td_name (memory_descriptor (mg_capability g))) names) = Inr (ds', ms')"
      "ds = memory_descriptor (mg_capability g) # ds'"
      "ms = \<lparr>mt_exposed_name = td_name (memory_descriptor (mg_capability g)), mt_grant = g\<rparr> # ms'"
    using Cons.prems by (auto simp: bindR_eq_Inr Let_def)
  note IH = Cons.IH [OF s(2)]
  have "td_name (memory_descriptor (mg_capability g)) \<notin> td_name ` set ds'" "td_name ` set ds' \<inter> names = {}"
    using IH by blast+
  moreover have "distinct (map td_name ds')" using IH by blast
  ultimately have names: "distinct (map td_name ds) \<and> td_name ` set ds \<inter> names = {}" using s(1) by (simp add: s(3))
  have "ds = map (memory_descriptor \<circ> mg_capability) (g # gs) \<and> map mt_grant ms = g # gs
      \<and> map mt_exposed_name ms = map td_name ds"
    unfolding s(3,4) using IH by simp
  with names show ?case by blast
qed simp

text \<open>The hosted bindings that a request may carry.\<close>

definition hosted_allowed :: "'k key_lib \<Rightarrow> 'k execution_snapshot \<Rightarrow> string list \<Rightarrow> 'k hosted_binding \<Rightarrow> bool" where
  "hosted_allowed lib x approved b \<longleftrightarrow>
     hb_operation_key b = pin_operation_key (ex_operation x)
     \<and> kl_kind lib (hb_operation_key b) = ContentGeneration OpenAiResponses \<and> hb_hosted_kind b = ''web_search''
     \<and> (te_requires_approval (hb_effect b) \<longrightarrow> hb_binding_id b \<in> set approved)
     \<and> 0 < hb_max_uses b \<and> hb_max_uses b \<le> 64 \<and> hb_resource_scopes b = [''internet:public'']
     \<and> (\<forall>kv \<in> set (hb_config b). fst kv = ''search_context_size'' \<and> snd kv \<in> JString ` {''low'', ''medium'', ''high''})"

text \<open>
  The descriptor under which a hosted binding is exposed: its own id and kind, and its configuration
  entry by entry.
\<close>

definition exposes_entry :: "string \<times> json \<Rightarrow> string \<times> metadata_value \<Rightarrow> bool" where
  "exposes_entry kv e \<longleftrightarrow> (\<exists>v. kv = (fst e, JString v) \<and> snd e = MetaString v)"

definition exposes_hosted :: "'k hosted_binding \<Rightarrow> hosted_tool_descriptor_ir \<Rightarrow> bool" where
  "exposes_hosted b d \<longleftrightarrow>
     hd_binding_id d = hb_binding_id b \<and> hd_hosted_kind d = hb_hosted_kind b
     \<and> list_all2 exposes_entry (hb_config b) (hd_config d)"

lemma config_entry_Inr:
  assumes "config_entry kv = Inr e"
  shows "fst kv = ''search_context_size''" "snd kv \<in> JString ` {''low'', ''medium'', ''high''}"
proof -
  have k: "fst kv = ''search_context_size''" "\<exists>v. snd kv = JString v \<and> v \<in> {''low'', ''medium'', ''high''}"
    using assms by (auto simp: config_entry_def bindR_eq_Inr split: json.splits)
  then show "fst kv = ''search_context_size''" "snd kv \<in> JString ` {''low'', ''medium'', ''high''}" by blast+
qed

lemma validate_hosted_config_Inr:
  assumes "validate_hosted_config b = Inr config"
  shows "\<forall>kv \<in> set (hb_config b). fst kv = ''search_context_size'' \<and> snd kv \<in> JString ` {''low'', ''medium'', ''high''}"
proof
  fix kv assume "kv \<in> set (hb_config b)"
  moreover have "\<forall>kv \<in> set (hb_config b). \<exists>e. config_entry kv = Inr e"
    using assms unfolding validate_hosted_config_def mapR_total [symmetric] by blast
  ultimately obtain e where "config_entry kv = Inr e" by blast
  then show "fst kv = ''search_context_size'' \<and> snd kv \<in> JString ` {''low'', ''medium'', ''high''}"
    using config_entry_Inr by blast
qed

lemma validate_hosted_config_exposes:
  assumes "validate_hosted_config b = Inr config"
  shows "list_all2 exposes_entry (hb_config b) config"
proof -
  have "list_all2 (\<lambda>kv e. config_entry kv = Inr e) (hb_config b) config"
    using assms by (simp add: validate_hosted_config_def mapR_eq_Inr)
  moreover have "exposes_entry kv e" if "config_entry kv = Inr e" for kv e
    using that by (cases kv) (auto simp: config_entry_def exposes_entry_def bindR_eq_Inr split: json.splits)
  ultimately show ?thesis by (rule list_all2_mono)
qed

lemma validate_hosted_binding_Inr:
  assumes "validate_hosted_binding lib x b approved kinds = Inr ()" "validate_hosted_config b = Inr config"
  shows "hosted_allowed lib x approved b" "ex_tools x = []" "''web_search'' \<notin> kinds" "hb_hosted_kind b = ''web_search''"
proof -
  show "hosted_allowed lib x approved b"
    using assms(1) validate_hosted_config_Inr [OF assms(2)]
    by (auto simp: validate_hosted_binding_def hosted_allowed_def bindR_eq_Inr)
qed (use assms(1) in \<open>auto simp: validate_hosted_binding_def bindR_eq_Inr\<close>)

lemma resolve_hosted_Inr:
  assumes "resolve_hosted lib x approved bs kinds = Inr (ds, hs)"
  shows "map ht_binding hs = bs \<and> list_all (hosted_allowed lib x approved) bs \<and> (bs \<noteq> [] \<longrightarrow> ex_tools x = [] \<and> ''web_search'' \<notin> kinds)
    \<and> length bs \<le> 1 \<and> list_all2 exposes_hosted bs ds"
  using assms
proof (induction bs arbitrary: kinds ds hs)
  case (Cons b bs)
  obtain config ds' hs' where s: "validate_hosted_binding lib x b approved kinds = Inr ()" "validate_hosted_config b = Inr config"
      "resolve_hosted lib x approved bs (insert (hb_hosted_kind b) kinds) = Inr (ds', hs')"
      "ds = \<lparr>hd_binding_id = hb_binding_id b, hd_hosted_kind = hb_hosted_kind b, hd_config = config\<rparr> # ds'" "hs = \<lparr>ht_binding = b, ht_provider_item_kind = ''web_search_call''\<rparr> # hs'"
    using Cons.prems by (auto simp: bindR_eq_Inr)
  note b = validate_hosted_binding_Inr [OF s(1,2)]
  note IH = Cons.IH [OF s(3)]
  have "bs = []" using IH by (cases "bs = []") (simp_all add: b(4))
  then show ?case using IH s(4,5) b(1-3) validate_hosted_config_exposes [OF s(2)] by (simp add: exposes_hosted_def)
qed simp

text \<open>A message of the context as an item of the transcript.\<close>

definition message_item :: "context_provenance_ir list \<Rightarrow> assembled_message \<Rightarrow> 'k turn_item" where
  "message_item ps m =
     Message (am_id m) (am_role m) (am_content m) (find_provenance ps (am_provenance_id m)) (am_placeholder m)"

lemma build_transcript_Inr:
  assumes "build_transcript ctx tail = Inr items"
  shows "items = map (message_item (ao_provenance ctx)) (ao_messages ctx) @ tail
    \<and> (\<forall>m \<in> set (ao_messages ctx). find_provenance (ao_provenance ctx) (am_provenance_id m) \<noteq> None)"
proof -
  let ?f = "\<lambda>m. bindR (of_optionR ''context_provenance_missing'' (find_provenance (ao_provenance ctx) (am_provenance_id m)))
      (\<lambda>p. Inr (Message (am_id m) (am_role m) (am_content m) (Some p) (am_placeholder m)))"
  obtain ms where ms: "mapR ?f (ao_messages ctx) = Inr ms" "items = ms @ tail"
    using assms unfolding build_transcript_def bindR_eq_Inr by auto
  have each: "?f m = Inr y \<longleftrightarrow>
      y = message_item (ao_provenance ctx) m \<and> find_provenance (ao_provenance ctx) (am_provenance_id m) \<noteq> None" for m y
    by (auto simp: bindR_eq_Inr message_item_def)
  have "mapR ?f ns = Inr ys \<Longrightarrow> ys = map (message_item (ao_provenance ctx)) ns
      \<and> (\<forall>m \<in> set ns. find_provenance (ao_provenance ctx) (am_provenance_id m) \<noteq> None)" for ns ys
    by (induction ns arbitrary: ys) (auto simp: bindR_eq_Inr message_item_def)
  from this [OF ms(1)] ms(2) show ?thesis by simp
qed

section \<open>The request\<close>

definition request_sound :: "'k build_env \<Rightarrow> 'k build_input \<Rightarrow> 'k build_output \<Rightarrow> bool" where
  "request_sound env inp out \<longleftrightarrow>
     (let x = bi_execution inp; ctx = bi_context inp; r = bo_request out
      in validate_request_ir (request_ir_env env) r = Inr ()
         \<and> pin_allowed (ex_channel x) (ex_operation x) \<and> rq_model r = pin_model_id (ex_operation x)
         \<and> context_snapshot_matches (ex_context x) (as_config (ao_snapshot ctx))
         \<and> rq_instructions r = ao_instructions ctx
         \<and> rq_transcript r = map (message_item (ao_provenance ctx)) (ao_messages ctx) @ bi_tail inp
         \<and> map qt_grant (bo_tools out) = ex_tools x \<and> list_all (tool_sound (be_tools env) (bi_registry inp)) (bo_tools out)
         \<and> rq_tools r = map (\<lambda>q. descriptor_ir (qt_grant q) (qt_descriptor q)) (bo_tools out)
             @ map (memory_descriptor \<circ> mg_capability) (memory_grants x)
         \<and> distinct (map td_name (rq_tools r))
         \<and> map mt_grant (bo_memory_tools out) = memory_grants x
         \<and> map mt_exposed_name (bo_memory_tools out) = map (td_name \<circ> memory_descriptor \<circ> mg_capability) (memory_grants x)
         \<and> map ht_binding (bo_hosted_tools out) = ex_hosted_tools x
         \<and> list_all (hosted_allowed (be_keys env) x (bi_approved inp)) (ex_hosted_tools x)
         \<and> list_all2 exposes_hosted (ex_hosted_tools x) (rq_hosted_tools r)
         \<and> length (rq_hosted_tools r) \<le> 1 \<and> (rq_hosted_tools r \<noteq> [] \<longrightarrow> ex_tools x = [])
         \<and> (rq_tool_choice r = Some RequiredChoice \<longrightarrow> rq_tools r \<noteq> [] \<or> rq_hosted_tools r \<noteq> [])
         \<and> (\<forall>g v. rq_generation r = Some g \<and> go_max_output_tokens g = Some v \<longrightarrow>
              (\<exists>hard. nl_max_output_tokens (ex_limits x) = Some hard \<and> 0 < v \<and> v \<le> hard)))"

lemma build_steps:
  assumes "build_llm_request env inp = Inr out"
  obtains tools memory_tools hosted transcript where
    "validate_execution env (bi_execution inp) (bi_context inp) (bi_model_call_no inp) = Inr ()"
    "resolve_tools (be_tools env) (bi_execution inp) (bi_registry inp) (bi_descriptors inp) = Inr (tools, bo_tools out)"
    "resolve_memory_grants (memory_grants (bi_execution inp)) (set (map td_name tools)) = Inr (memory_tools, bo_memory_tools out)"
    "resolve_hosted (be_keys env) (bi_execution inp) (bi_approved inp) (ex_hosted_tools (bi_execution inp)) {}
       = Inr (hosted, bo_hosted_tools out)"
    "build_transcript (bi_context inp) (bi_tail inp) = Inr transcript"
    "validate_request_ir (request_ir_env env) (bo_request out) = Inr ()"
    "rq_model (bo_request out) = pin_model_id (ex_operation (bi_execution inp))"
    "rq_instructions (bo_request out) = ao_instructions (bi_context inp)" "rq_transcript (bo_request out) = transcript"
    "rq_tools (bo_request out) = tools @ memory_tools" "rq_hosted_tools (bo_request out) = hosted"
    "rq_tool_choice (bo_request out) = Some RequiredChoice \<longrightarrow> tools @ memory_tools \<noteq> [] \<or> hosted \<noteq> []"
    "rq_generation (bo_request out) = Option.bind (ex_request (bi_execution inp)) ro_generation"
proof -
  obtain tools qs memory_tools ms hosted hs transcript r digest where s:
    "validate_execution env (bi_execution inp) (bi_context inp) (bi_model_call_no inp) = Inr ()"
    "resolve_tools (be_tools env) (bi_execution inp) (bi_registry inp) (bi_descriptors inp) = Inr (tools, qs)"
    "resolve_memory_grants (memory_grants (bi_execution inp)) (set (map td_name tools)) = Inr (memory_tools, ms)"
    "resolve_hosted (be_keys env) (bi_execution inp) (bi_approved inp) (ex_hosted_tools (bi_execution inp)) {} = Inr (hosted, hs)"
    "build_transcript (bi_context inp) (bi_tail inp) = Inr transcript"
    "r = \<lparr>rq_model = pin_model_id (ex_operation (bi_execution inp)), rq_instructions = ao_instructions (bi_context inp),
       rq_transcript = transcript, rq_tools = tools @ memory_tools, rq_hosted_tools = hosted,
       rq_tool_choice = ro_tool_choice (request_options_of (bi_execution inp)),
       rq_response_format = Some (response_format_of (ex_output (bi_execution inp))),
       rq_generation = ro_generation (request_options_of (bi_execution inp)),
       rq_extensions = ro_extensions (request_options_of (bi_execution inp)),
       rq_metadata = request_metadata inp, rq_continuation = bi_continuation inp\<rparr>"
    "validate_request_ir (request_ir_env env) r = Inr ()"
    "\<not> (rq_tool_choice r = Some RequiredChoice \<and> rq_tools r = [] \<and> rq_hosted_tools r = [])"
    "out = \<lparr>bo_request = r, bo_request_digest = digest, bo_tools = qs, bo_memory_tools = ms, bo_hosted_tools = hs\<rparr>"
    using assms unfolding build_llm_request_def Let_def bindR_eq_Inr request_options_of_def
    by (elim exE conjE) (clarsimp simp: bindR_eq_Inr simp del: set_map image_set list.set_map split: prod.splits)
  show thesis
  proof (rule that)
    show "rq_generation (bo_request out) = Option.bind (ex_request (bi_execution inp)) ro_generation"
      by (simp add: s(6,9) request_options_of_def default_request_options_def split: option.split)
    show "resolve_tools (be_tools env) (bi_execution inp) (bi_registry inp) (bi_descriptors inp) = Inr (tools, bo_tools out)"
      by (simp add: s(2,9))
    show "resolve_memory_grants (memory_grants (bi_execution inp)) (set (map td_name tools)) = Inr (memory_tools, bo_memory_tools out)"
      using s(3) by (simp add: s(9))
    show "rq_tool_choice (bo_request out) = Some RequiredChoice \<longrightarrow> tools @ memory_tools \<noteq> [] \<or> hosted \<noteq> []"
      using s(8) by (auto simp: s(6,9))
  qed (use s in simp_all)
qed

text \<open>
  C7: a request that was built uses the pinned model of a channel revision that offers it, has the
  instructions of the context and begins with its messages, each with the provenance that the
  context recorded.  The tools that it exposes are exactly those of the grants: one for every tool
  grant, sound for its descriptor, pinned in the registry snapshot and marked exactly when a call
  needs an approval, then one for every memory grant, all under distinct names; and for every hosted
  binding one descriptor with the id, the kind and the configuration of the binding, which is of the
  kind web_search, approved when its effect must be, alone, and never beside a registered tool.  The
  token preference is within the hard limit.
\<close>
theorem build_request_sound:
  assumes "build_llm_request env inp = Inr out"
  shows "request_sound env inp out"
proof -
  let ?x = "bi_execution inp"
  obtain tools memory_tools hosted transcript where s:
    "validate_execution env ?x (bi_context inp) (bi_model_call_no inp) = Inr ()"
    "resolve_tools (be_tools env) ?x (bi_registry inp) (bi_descriptors inp) = Inr (tools, bo_tools out)"
    "resolve_memory_grants (memory_grants ?x) (set (map td_name tools)) = Inr (memory_tools, bo_memory_tools out)"
    "resolve_hosted (be_keys env) ?x (bi_approved inp) (ex_hosted_tools ?x) {} = Inr (hosted, bo_hosted_tools out)"
    "build_transcript (bi_context inp) (bi_tail inp) = Inr transcript"
    and r: "validate_request_ir (request_ir_env env) (bo_request out) = Inr ()"
    "rq_model (bo_request out) = pin_model_id (ex_operation ?x)"
    "rq_instructions (bo_request out) = ao_instructions (bi_context inp)" "rq_transcript (bo_request out) = transcript"
    "rq_tools (bo_request out) = tools @ memory_tools" "rq_hosted_tools (bo_request out) = hosted"
    "rq_tool_choice (bo_request out) = Some RequiredChoice \<longrightarrow> tools @ memory_tools \<noteq> [] \<or> hosted \<noteq> []"
    "rq_generation (bo_request out) = Option.bind (ex_request ?x) ro_generation"
    by (rule build_steps [OF assms])
  note v = validate_execution_Inr [OF s(1)]
  have "resolve_grants (be_tools env) (rg_entries (bi_registry inp)) (bi_descriptors inp) (ex_tools ?x) {} = Inr (tools, bo_tools out)"
    using s(2) by (auto simp: resolve_tools_def bindR_eq_Inr)
  note t = resolve_grants_Inr [OF this]
  note m = resolve_memory_Inr [OF s(3)]
  note h = resolve_hosted_Inr [OF s(4)]
  note b = build_transcript_Inr [OF s(5)]
  have "distinct (map td_name (tools @ memory_tools))"
    using t [THEN conjunct2, THEN conjunct2, THEN conjunct2] m [THEN conjunct2, THEN conjunct2] by (simp add: Int_commute)
  moreover have "\<forall>g v. rq_generation (bo_request out) = Some g \<and> go_max_output_tokens g = Some v \<longrightarrow>
      (\<exists>hard. nl_max_output_tokens (ex_limits ?x) = Some hard \<and> 0 < v \<and> v \<le> hard)"
  proof (intro allI impI)
    fix g v assume "rq_generation (bo_request out) = Some g \<and> go_max_output_tokens g = Some v"
    then have "preferred_output ?x = Some v" using r(8) by (auto simp: preferred_output_def bind_eq_Some_conv)
    then show "\<exists>hard. nl_max_output_tokens (ex_limits ?x) = Some hard \<and> 0 < v \<and> v \<le> hard" using v(5) by auto
  qed
  moreover have "length hosted \<le> 1" "hosted \<noteq> [] \<longrightarrow> ex_tools ?x = []" using h by (auto dest: list_all2_lengthD)
  moreover have "tools = map (\<lambda>q. descriptor_ir (qt_grant q) (qt_descriptor q)) (bo_tools out)"
    "memory_tools = map (memory_descriptor \<circ> mg_capability) (memory_grants ?x)" using t m by blast+
  moreover have "map mt_grant (bo_memory_tools out) = memory_grants ?x"
    "map mt_exposed_name (bo_memory_tools out) = map (td_name \<circ> memory_descriptor \<circ> mg_capability) (memory_grants ?x)"
    using m by (simp_all add: comp_def)
  ultimately show ?thesis
    unfolding request_sound_def Let_def r(2-6) using r(1,7) v(2,4) t h b by (intro conjI) simp_all
qed

end
