(* ===== verification/Batch_Properties.thy ===== *)
theory Batch_Properties
  imports Memory_Batch Llm_Output Request_Properties
begin

text \<open>
  What a planned batch of tool calls promises: every call has a tool of the request, its own
  identity, the digest of what it will do and an approval where one is needed; the limit of calls is
  kept and the checkpoint carries a valid checksum.  And which answers become the output of a node.
\<close>

section \<open>Tool calls\<close>

lemma numbered_inj [simp]: "numbered p c m = numbered p c n \<longleftrightarrow> m = n"
  by (auto simp: numbered_def)

text \<open>What holds of the plan and the checkpoint of the call with an index.\<close>

definition call_planned ::
  "'k ledger_env \<Rightarrow> 'k batch_input \<Rightarrow> nat \<Rightarrow> tool_call_ir \<Rightarrow> request_tool \<Rightarrow> tool_plan_call \<Rightarrow> bool" where
  "call_planned env input i call t p \<longleftrightarrow>
     find_exposed (bt_tools input) (tc_name call) = Some t \<and> \<not> fails_on_approval t
     \<and> pc_call_index p = i \<and> pc_tool_call_id p = numbered ''toolcall'' (bt_model_call_id input) i
     \<and> pc_effect_id p = numbered ''tooleffect'' (bt_model_call_id input) i
     \<and> pc_provider_call_id p = tc_provider_call_id call \<and> pc_binding_id p = qt_binding_id t
     \<and> pc_tool_id p = tool_id (rt_descriptor (qt_descriptor t))
     \<and> pc_tool_version p = tool_version (rt_descriptor (qt_descriptor t))
     \<and> to_vec (lg_serde env) (tc_arguments call) = Inr (pc_arguments_bytes p)
     \<and> call_material_digest env (material_of t call) = Inr (pc_call_digest p)
     \<and> 1 \<le> rp_max_attempts (pc_retry_policy p) \<and> rp_max_attempts (pc_retry_policy p) \<le> 32
     \<and> length (rp_backoff_ms (pc_retry_policy p)) \<le> 31"

definition checkpoint_follows :: "tool_plan_call \<Rightarrow> call_checkpoint \<Rightarrow> bool" where
  "checkpoint_follows p k \<longleftrightarrow>
     cc_tool_call_id k = pc_tool_call_id p \<and> cc_call_index k = pc_call_index p \<and> cc_call_digest k = pc_call_digest p
     \<and> cc_effect_id k = None \<and> cc_output_ref k = None"

lemma retry_policy_bounds:
  "retry_policy_of t = Inr policy \<Longrightarrow>
     1 \<le> rp_max_attempts policy \<and> rp_max_attempts policy \<le> 32 \<and> length (rp_backoff_ms policy) \<le> 31"
  by (auto simp: retry_policy_of_def bindR_eq_Inr split: option.splits)

lemma plan_call_Inr:
  assumes "plan_call env input wait_id call i = Inr (p, k, approval)"
  shows "\<exists>t. call_planned env input i call t p \<and> checkpoint_follows p k \<and> approval = qt_requires_approval t
      \<and> cc_status k = (if qt_requires_approval t then ToolAwaitingApproval else ToolValidated) \<and> cc_wait_id k = Some wait_id"
proof -
  obtain t arguments digest policy where s: "find_exposed (bt_tools input) (tc_name call) = Some t" "\<not> fails_on_approval t"
      "to_vec (lg_serde env) (tc_arguments call) = Inr arguments"
      "call_material_digest env (material_of t call) = Inr digest" "retry_policy_of t = Inr policy"
      "p = planned_call input t call i arguments digest policy"
      "k = call_checkpoint_of t wait_id (pc_tool_call_id p) i digest" "approval = qt_requires_approval t"
    using assms
    unfolding plan_call_def Let_def bindR_eq_Inr ensureR_eq_Inr of_optionR_eq_Inr map_errR_eq_Inr sum.inject prod.inject
    by metis
  have "call_planned env input i call t p"
    using s(1-5) retry_policy_bounds [OF s(5)] by (simp add: s(6) call_planned_def planned_call_def Let_def)
  moreover have "checkpoint_follows p k"
    by (simp add: s(6,7) checkpoint_follows_def call_checkpoint_of_def planned_call_def Let_def)
  ultimately show ?thesis using s(8) by (auto simp: s(7) call_checkpoint_of_def)
qed

lemma plan_calls_Cons:
  assumes "plan_calls env input wait_id (call # calls) n = Inr r"
  shows "\<exists>p k a ps ks b. plan_call env input wait_id call n = Inr (p, k, a)
      \<and> plan_calls env input wait_id calls (n + 1) = Inr (ps, ks, b) \<and> r = (p # ps, k # ks, a \<or> b)"
  using assms by (cases "plan_call env input wait_id call n"; cases "plan_calls env input wait_id calls (n + 1)")
    (auto split: prod.splits)

text \<open>The plans and checkpoints of the calls from an index on, with the tools they were resolved to.\<close>

definition calls_planned ::
  "'k ledger_env \<Rightarrow> 'k batch_input \<Rightarrow> nat \<Rightarrow> tool_call_ir list \<Rightarrow> request_tool list \<Rightarrow> tool_plan_call list \<Rightarrow> bool" where
  "calls_planned env input start calls tools plans \<longleftrightarrow>
     length tools = length calls \<and> length plans = length calls
     \<and> (\<forall>i < length calls. call_planned env input (start + i) (calls ! i) (tools ! i) (plans ! i))"

lemma calls_planned_Nil [simp]: "calls_planned env input n [] tools plans \<longleftrightarrow> tools = [] \<and> plans = []"
  by (auto simp: calls_planned_def)

lemma calls_planned_Cons [simp]:
  "calls_planned env input n (c # cs) (t # ts) (p # ps)
     \<longleftrightarrow> call_planned env input n c t p \<and> calls_planned env input (n + 1) cs ts ps"
  by (auto simp: calls_planned_def All_less_Suc2)

definition awaits :: "string \<Rightarrow> request_tool \<Rightarrow> call_checkpoint \<Rightarrow> bool" where
  "awaits wait_id t k \<longleftrightarrow>
     cc_status k = (if qt_requires_approval t then ToolAwaitingApproval else ToolValidated) \<and> cc_wait_id k = Some wait_id"

lemma plan_calls_Inr:
  assumes "plan_calls env input wait_id calls n = Inr (plans, checkpoints, approval)"
  shows "\<exists>tools. calls_planned env input n calls tools plans \<and> list_all2 checkpoint_follows plans checkpoints
      \<and> list_all2 (awaits wait_id) tools checkpoints \<and> (approval \<longleftrightarrow> list_ex qt_requires_approval tools)"
  using assms
proof (induction calls arbitrary: n plans checkpoints approval)
  case (Cons call calls)
  obtain p k a ps ks b where s: "plan_call env input wait_id call n = Inr (p, k, a)"
      "plan_calls env input wait_id calls (n + 1) = Inr (ps, ks, b)"
      "plans = p # ps" "checkpoints = k # ks" "approval = (a \<or> b)"
    using plan_calls_Cons [OF Cons.prems] by (elim exE conjE) simp
  obtain t where t: "call_planned env input n call t p" "checkpoint_follows p k" "a = qt_requires_approval t" "awaits wait_id t k"
    using plan_call_Inr [OF s(1)] by (auto simp: awaits_def)
  obtain ts where "calls_planned env input (n + 1) calls ts ps" "list_all2 checkpoint_follows ps ks"
      "list_all2 (awaits wait_id) ts ks" "b \<longleftrightarrow> list_ex qt_requires_approval ts"
    using Cons.IH [OF s(2)] by blast
  with t show ?case by (intro exI [of _ "t # ts"]) (simp add: s(3-5))
qed simp

lemma planned_ids:
  assumes "calls_planned env input n calls tools plans"
  shows "map pc_tool_call_id plans = map (numbered ''toolcall'' (bt_model_call_id input)) [n..<n + length calls]"
    "distinct (map pc_tool_call_id plans)"
proof -
  show ids: "map pc_tool_call_id plans = map (numbered ''toolcall'' (bt_model_call_id input)) [n..<n + length calls]"
    using assms by (intro nth_equalityI) (simp_all add: calls_planned_def call_planned_def)
  show "distinct (map pc_tool_call_id plans)"
    unfolding ids distinct_map by (auto simp: inj_on_def)
qed

section \<open>Batches\<close>

definition within_limit :: "'k batch_input \<Rightarrow> tool_call_ir list \<Rightarrow> bool" where
  "within_limit input calls \<longleftrightarrow>
     (\<exists>n. nl_max_tool_calls (ex_limits (bt_execution input)) = Some n
        \<and> lk_tool_calls_used (bt_checkpoint input) + length calls \<le> n)"

fun batch_sound :: "'k ledger_env \<Rightarrow> 'k batch_input \<Rightarrow> 'k batch_plan \<Rightarrow> bool" where
  "batch_sound env input NoCalls \<longleftrightarrow> requested_calls (bt_items input) = []"
| "batch_sound env input (ExecutablePlan b) \<longleftrightarrow>
     (let calls = requested_calls (bt_items input); c = xb_checkpoint b; old = bt_checkpoint input in
      \<exists>tools. calls_planned env input 0 calls tools (xb_calls b) \<and> calls \<noteq> [] \<and> distinct (map pc_tool_call_id (xb_calls b))
        \<and> list_all (\<lambda>t. \<not> qt_requires_approval t) tools \<and> within_limit input calls
        \<and> list_all2 checkpoint_follows (xb_calls b) (lk_current_batch c)
        \<and> list_all (\<lambda>k. cc_status k = ToolRequested \<and> cc_wait_id k = None) (lk_current_batch c)
        \<and> lk_tool_calls_used c = lk_tool_calls_used old \<and> lk_wait_ids c = lk_wait_ids old
        \<and> checksum_is_valid env c)"
| "batch_sound env input (ApprovalPlan b) \<longleftrightarrow>
     (let calls = requested_calls (bt_items input); c = ab_checkpoint b; old = bt_checkpoint input in
      \<exists>tools. calls_planned env input 0 calls tools (ab_calls b) \<and> calls \<noteq> [] \<and> distinct (map pc_tool_call_id (ab_calls b))
        \<and> list_ex qt_requires_approval tools \<and> within_limit input calls
        \<and> list_all2 checkpoint_follows (ab_calls b) (lk_current_batch c)
        \<and> list_all2 (awaits (ab_wait_id b)) tools (lk_current_batch c)
        \<and> lk_tool_calls_used c = lk_tool_calls_used old + length calls
        \<and> lk_wait_ids c = lk_wait_ids old @ [ab_wait_id b] \<and> lk_effect_watermark c = ab_wait_id b
        \<and> checksum_is_valid env c)"

lemma checkpoint_follows_update [simp]:
  "checkpoint_follows p (k\<lparr>cc_status := s, cc_wait_id := w\<rparr>) \<longleftrightarrow> checkpoint_follows p k"
  by (simp add: checkpoint_follows_def)

lemma calls_used_Some: "calls_used c n m = Some u \<longleftrightarrow> lk_tool_calls_used c + n \<le> u64_max \<and> u = lk_tool_calls_used c + n \<and> u \<le> m"
  by (auto simp: calls_used_def bind_eq_Some_conv split: if_splits)

lemma plan_batch_sound:
  assumes "plan_initial_tool_batch env input = Inr plan"
  shows "batch_sound env input plan"
proof (cases "requested_calls (bt_items input) = []")
  case True
  with assms show ?thesis by (auto simp: plan_initial_tool_batch_def)
next
  case False
  let ?calls = "requested_calls (bt_items input)"
  obtain n used plans ks approval where s: "nl_max_tool_calls (ex_limits (bt_execution input)) = Some n"
      "calls_used (bt_checkpoint input) (length ?calls) n = Some used"
      "plan_calls env input (batch_wait_id input) ?calls 0 = Inr (plans, ks, approval)"
    using assms False by (auto simp: plan_initial_tool_batch_def Let_def bindR_eq_Inr)
  obtain tools where t: "calls_planned env input 0 ?calls tools plans" "list_all2 checkpoint_follows plans ks"
      "list_all2 (awaits (batch_wait_id input)) tools ks" "approval \<longleftrightarrow> list_ex qt_requires_approval tools"
    using plan_calls_Inr [OF s(3)] by blast
  have limit: "within_limit input ?calls" "used = lk_tool_calls_used (bt_checkpoint input) + length ?calls"
    using s(1,2) by (auto simp: within_limit_def calls_used_Some)
  note ids = planned_ids(2) [OF t(1)]
  show ?thesis
  proof (cases approval)
    case True
    obtain c' where c': "seal_batch env ((bt_checkpoint input)\<lparr>lk_last_updated_by := bt_attempt_id input, lk_current_batch := ks,
          lk_tool_calls_used := used, lk_effect_watermark := batch_wait_id input,
          lk_wait_ids := lk_wait_ids (bt_checkpoint input) @ [batch_wait_id input]\<rparr>) = Inr c'"
        "plan = ApprovalPlan \<lparr>ab_wait_id = batch_wait_id input, ab_node_instance_id = bt_node_instance_id input,
          ab_originating_attempt_id = bt_attempt_id input, ab_model_call_id = bt_model_call_id input,
          ab_calls = plans, ab_checkpoint = c'\<rparr>"
      using assms False s True by (auto simp: plan_initial_tool_batch_def Let_def bindR_eq_Inr)
    then have "checksum_is_valid env c'" by (auto simp: seal_batch_def dest: seal_valid)
    moreover obtain d where "c' = (bt_checkpoint input)\<lparr>lk_last_updated_by := bt_attempt_id input, lk_current_batch := ks,
          lk_tool_calls_used := used, lk_effect_watermark := batch_wait_id input,
          lk_wait_ids := lk_wait_ids (bt_checkpoint input) @ [batch_wait_id input]\<rparr>\<lparr>lk_checksum := d\<rparr>"
      using c'(1) by (auto simp: seal_batch_def dest!: seal_Inr)
    ultimately show ?thesis
      using t ids limit False True by (auto simp: c'(2) Let_def intro!: exI [of _ tools])
  next
    case no: False
    let ?ks = "map (\<lambda>k. k\<lparr>cc_status := ToolRequested, cc_wait_id := None\<rparr>) ks"
    obtain c' where c': "seal_batch env ((bt_checkpoint input)\<lparr>lk_last_updated_by := bt_attempt_id input, lk_current_batch := ?ks\<rparr>) = Inr c'"
        "plan = ExecutablePlan \<lparr>xb_model_call_id = bt_model_call_id input, xb_calls = plans, xb_checkpoint = c'\<rparr>"
      using assms False s no by (auto simp: plan_initial_tool_batch_def Let_def bindR_eq_Inr)
    then have "checksum_is_valid env c'" by (auto simp: seal_batch_def dest: seal_valid)
    moreover obtain d where "c' = (bt_checkpoint input)\<lparr>lk_last_updated_by := bt_attempt_id input, lk_current_batch := ?ks\<rparr>\<lparr>lk_checksum := d\<rparr>"
      using c'(1) by (auto simp: seal_batch_def dest!: seal_Inr)
    moreover have "list_all2 checkpoint_follows plans ?ks" using t(2) by (simp add: list_all2_map2)
    moreover have "list_all (\<lambda>t. \<not> qt_requires_approval t) tools" using t(4) no by (simp add: list_all_iff list_ex_iff)
    ultimately show ?thesis
      using t(1) ids limit(1) False by (auto simp: c'(2) Let_def list_all_iff intro!: exI [of _ tools])
  qed
qed

end
