(* ===== verification/Memory_Properties.thy ===== *)
theory Memory_Properties
  imports Batch_Properties
begin

text \<open>
  What a planned batch of memory calls promises: one capability, arguments within the grant, content
  in normal form, and a review for every proposal.
\<close>

section \<open>Normal content\<close>

definition content_normal :: "serde \<Rightarrow> memory_content \<Rightarrow> bool" where
  "content_normal sd c \<longleftrightarrow>
     mc_schema_version c = 1 \<and> 0 < length (mc_text c) \<and> length (mc_text c) \<le> 65536
     \<and> sorted (mc_tags c) \<and> distinct (mc_tags c) \<and> length (mc_tags c) \<le> 64
     \<and> (\<forall>t \<in> set (mc_tags c). t \<noteq> [] \<and> length t \<le> 256)
     \<and> (\<exists>a. to_vec sd (JObject (mc_attributes c)) = Inr a \<and> length a \<le> 262144)"

lemma distinct_remdups_adj_sorted: "sorted (xs :: 'a::linorder list) \<Longrightarrow> distinct (remdups_adj xs)"
proof (induction xs rule: remdups_adj.induct)
  case (3 x y xs)
  show ?case
  proof (cases "x = y")
    case False
    with 3(3) have "x \<notin> set (y # xs)" by fastforce
    with 3 False show ?thesis by simp
  qed (use 3 in simp)
qed simp_all

lemma tags_normal:
  fixes ts :: "string list"
  shows "sorted (remdups_adj (sort ts))" "distinct (remdups_adj (sort ts))" "set (remdups_adj (sort ts)) = set ts"
    "length (remdups_adj (sort ts)) \<le> length ts"
proof -
  show "sorted (remdups_adj (sort ts))" by (simp add: sorted_remdups_adj)
  show "distinct (remdups_adj (sort ts))" by (simp add: distinct_remdups_adj_sorted)
  show "length (remdups_adj (sort ts)) \<le> length ts" using remdups_adj_length [of "sort ts"] by simp
qed simp

lemma tags_fixed: "sorted ts \<Longrightarrow> distinct ts \<Longrightarrow> remdups_adj (sort ts) = (ts :: string list)"
  by (simp add: sorted_sort_id remdups_adj_distinct)

lemma normalize_content_normal: "normalize_content sd c = Inr c' \<Longrightarrow> content_normal sd c'"
  unfolding normalize_content_def bindR_eq_Inr ensureR_eq_Inr map_errR_eq_Inr sum.inject content_normal_def
  using tags_normal [of "mc_tags c"] by (elim exE conjE) (hypsubst, simp add: list_all_iff)

lemma content_normal_fixed: "content_normal sd c \<Longrightarrow> normalize_content sd c = Inr c"
  by (auto simp: normalize_content_def content_normal_def tags_fixed list_all_iff)

fun change_normal :: "serde \<Rightarrow> memory_change \<Rightarrow> bool" where
  "change_normal sd (CreateMemory c) = content_normal sd c"
| "change_normal sd (ReplaceMemory c) = content_normal sd c"
| "change_normal sd _ = True"

lemma normalize_change_normal: "normalize_change sd c = Inr c' \<Longrightarrow> change_normal sd c' \<and> is_create c' = is_create c"
  by (cases c) (auto simp: bindR_eq_Inr normalize_content_normal)

section \<open>Arguments within a grant\<close>

definition query_within :: "memory_grant \<Rightarrow> memory_search_query \<Rightarrow> bool" where
  "query_within g q \<longleftrightarrow>
     mq_scope_id q \<in> set (mg_scopes g) \<and> 1 \<le> mq_limit q
     \<and> mq_limit q \<le> min 100 (case mg_max_results g of None \<Rightarrow> 20 | Some n \<Rightarrow> n)
     \<and> sorted (mq_tags q) \<and> distinct (mq_tags q)
     \<and> (\<forall>t. mq_text q = Some t \<longrightarrow> trim t \<noteq> [] \<and> length t \<le> 4096)
     \<and> mq_status q \<in> {None, Some MemoryActive, Some MemoryObsolete}"

lemma parse_search_within: "parse_search_arguments env v g = Inr q \<Longrightarrow> query_within g q"
  unfolding parse_search_arguments_def Let_def bindR_eq_Inr ensureR_eq_Inr of_optionR_eq_Inr sum.inject query_within_def
  by (elim exE conjE) (auto simp: tags_normal Suc_le_eq split: option.split_asm)

definition proposal_within :: "'k memory_env \<Rightarrow> memory_grant \<Rightarrow> memory_proposal \<Rightarrow> bool" where
  "proposal_within env g p \<longleftrightarrow>
     mp_scope_id p \<in> set (mg_scopes g) \<and> change_normal (lg_serde (my_ledger env)) (mp_change p)
     \<and> 1 \<le> length (mp_reason p) \<and> length (mp_reason p) \<le> 4096
     \<and> distinct (mp_evidence_refs p) \<and> length (mp_evidence_refs p) \<le> 64
     \<and> (is_create (mp_change p) \<longleftrightarrow> mp_memory_id p = None) \<and> (is_create (mp_change p) \<longleftrightarrow> mp_expected_head p = None)
     \<and> (\<exists>bytes. to_vec (lg_serde (my_ledger env)) (my_encode_proposal env p) = Inr bytes
          \<and> length bytes \<le> (case mg_max_proposal_bytes g of None \<Rightarrow> 0 | Some n \<Rightarrow> n))"

lemma parse_proposal_within:
  assumes "parse_proposal env v g = Inr p'"
  shows "proposal_within env g p'"
proof -
  let ?sd = "lg_serde (my_ledger env)"
  obtain p where "normalize_proposal env p g = Inr p'" using assms by (auto simp: parse_proposal_def bindR_eq_Inr)
  then obtain u change bytes where s: "mp_scope_id p \<in> set (mg_scopes g)"
      "validate_proposal_material (mp_scope_id p) (mp_reason p) (mp_evidence_refs p) 1 TOOL_CALL_POLICY_VERSION = Inr u"
      "normalize_change ?sd (mp_change p) = Inr change"
      "to_vec ?sd (my_encode_proposal env (p\<lparr>mp_change := change\<rparr>)) = Inr bytes"
      "is_create change = (mp_memory_id (p\<lparr>mp_change := change\<rparr>) = None)"
      "is_create change = (mp_expected_head (p\<lparr>mp_change := change\<rparr>) = None)"
      "length bytes \<le> (case mg_max_proposal_bytes g of None \<Rightarrow> 0 | Some n \<Rightarrow> n)" "p\<lparr>mp_change := change\<rparr> = p'"
    unfolding normalize_proposal_def Let_def bindR_eq_Inr ensureR_eq_Inr map_errR_eq_Inr sum.inject
    by (elim exE conjE) (rule that; assumption)
  have "1 \<le> length (mp_reason p)" "length (mp_reason p) \<le> 4096" "distinct (mp_evidence_refs p)" "length (mp_evidence_refs p) \<le> 64"
    using s(2) by (auto simp: validate_proposal_material_def bindR_eq_Inr Suc_le_eq)
  moreover have "\<exists>bytes. to_vec ?sd (my_encode_proposal env p') = Inr bytes
      \<and> length bytes \<le> (case mg_max_proposal_bytes g of None \<Rightarrow> 0 | Some n \<Rightarrow> n)"
    using s(4,7,8) by blast
  ultimately show ?thesis
    using s(1,5,6) normalize_change_normal [OF s(3)] by (simp add: proposal_within_def flip: s(8))
qed

section \<open>Batches\<close>

definition payload_planned ::
  "(json \<Rightarrow> memory_grant \<Rightarrow> string + 'a) \<Rightarrow> ('a \<Rightarrow> memory_grant \<Rightarrow> string + string) \<Rightarrow> tool_call_ir \<times> memory_tool \<Rightarrow> 'a memory_call \<Rightarrow> bool" where
  "payload_planned parse digest ct c \<longleftrightarrow>
     parse (tc_arguments (fst ct)) (mt_grant (snd ct)) = Inr (my_payload c)
     \<and> digest (my_payload c) (mt_grant (snd ct)) = Inr (my_call_digest c)
     \<and> my_provider_call_id c = tc_provider_call_id (fst ct)"

lemma plan_memory_calls_Inr:
  assumes "plan_memory_calls parse digest pre model calls n = Inr cs"
  shows "list_all2 (payload_planned parse digest) calls cs"
    "map my_tool_call_id cs = map (numbered pre model) [n..<n + length calls]"
  using assms
proof (atomize (full), induction parse digest pre model calls n arbitrary: cs rule: plan_memory_calls.induct)
  case (2 parse digest pre model call t calls n)
  obtain payload d rest where s: "parse (tc_arguments call) (mt_grant t) = Inr payload" "digest payload (mt_grant t) = Inr d"
      "plan_memory_calls parse digest pre model calls (n + 1) = Inr rest"
      "cs = \<lparr>my_tool_call_id = numbered pre model n, my_provider_call_id = tc_provider_call_id call,
           my_call_index = n, my_call_digest = d, my_payload = payload\<rparr> # rest"
    using 2 by (auto simp: bindR_eq_Inr)
  have "list_all2 (payload_planned parse digest) calls rest \<and>
      map my_tool_call_id rest = map (numbered pre model) [n + 1..<n + 1 + length calls]"
    using 2 s by simp
  moreover have "payload_planned parse digest (call, t) (hd cs)" using s(1,2) by (simp add: s(4) payload_planned_def)
  moreover have "[n..<n + length ((call, t) # calls)] = n # [n + 1..<n + 1 + length calls]"
    by (subst upt_conv_Cons) simp_all
  ultimately show ?case by (simp add: s(4))
qed simp

definition memory_within ::
  "'k memory_input \<Rightarrow> memory_capability \<Rightarrow> (memory_grant \<Rightarrow> 'a \<Rightarrow> bool) \<Rightarrow> ('k, 'a) memory_batch \<Rightarrow> bool" where
  "memory_within input capability within_grant b \<longleftrightarrow>
     (\<exists>tools. map (find_memory_tool (mi_tools input)) (requested_calls (mi_items input)) = map Some tools
        \<and> tools \<noteq> [] \<and> (\<forall>t \<in> set tools. mg_capability (mt_grant t) = capability)
        \<and> list_all2 (\<lambda>t c. within_grant (mt_grant t) (my_payload c)) tools (mb_calls b))
     \<and> distinct (map my_tool_call_id (mb_calls b))
     \<and> map cc_tool_call_id (lk_current_batch (mb_checkpoint b)) = map my_tool_call_id (mb_calls b)
     \<and> lk_tool_calls_used (mb_checkpoint b) = lk_tool_calls_used (mi_checkpoint input) + length (mb_calls b)
     \<and> lk_tool_calls_used (mb_checkpoint b) \<le> mi_max_tool_calls input"

fun memory_sound :: "'k memory_env \<Rightarrow> 'k memory_input \<Rightarrow> 'k memory_plan \<Rightarrow> bool" where
  "memory_sound env input (SearchPlan b) \<longleftrightarrow>
     memory_within input SearchMemory query_within b \<and> checksum_is_valid (my_ledger env) (mb_checkpoint b)
     \<and> (\<forall>k \<in> set (lk_current_batch (mb_checkpoint b)). cc_status k = ToolCompleted \<and> cc_wait_id k = None)"
| "memory_sound env input (ProposalPlan w b) \<longleftrightarrow>
     memory_within input ProposeMemoryChange (proposal_within env) b \<and> checksum_is_valid (my_ledger env) (mb_checkpoint b)
     \<and> (\<forall>k \<in> set (lk_current_batch (mb_checkpoint b)). cc_status k = ToolAwaitingApproval \<and> cc_wait_id k = Some w)
     \<and> lk_wait_ids (mb_checkpoint b) = lk_wait_ids (mi_checkpoint input) @ [w]"

lemma memory_within_intro:
  assumes "list_all2 (payload_planned parse digest) (zip calls tools) cs" "length tools = length calls"
    "map my_tool_call_id cs = map (numbered pre model) [0..<length calls]"
    "calls = requested_calls (mi_items input)" "map (find_memory_tool (mi_tools input)) calls = map Some tools"
    "tools \<noteq> []" "\<forall>t \<in> set tools. mg_capability (mt_grant t) = capability"
    "\<And>v g p. parse v g = Inr p \<Longrightarrow> within_grant g p"
    "calls_used (mi_checkpoint input) (length calls) (mi_max_tool_calls input) = Some used"
    "lk_current_batch c = map (memory_checkpoint status wait_id) cs" "lk_tool_calls_used c = used"
  shows "memory_within input capability within_grant (memory_batch_of input cs c)"
proof -
  have len: "length cs = length calls" using assms(1,2) by (auto dest: list_all2_lengthD)
  have "list_all2 (\<lambda>t c. within_grant (mt_grant t) (my_payload c)) tools cs"
    using assms(1,2,8) len by (auto simp: list_all2_conv_all_nth payload_planned_def)
  moreover have "distinct (map my_tool_call_id cs)" unfolding assms(3) distinct_map by (auto simp: inj_on_def)
  moreover have "map cc_tool_call_id (lk_current_batch c) = map my_tool_call_id cs"
    by (simp add: assms(10) memory_checkpoint_def)
  ultimately show ?thesis
    using assms(4-7,9,11) len by (auto simp: memory_within_def memory_batch_of_def calls_used_Some)
qed

lemma plan_search_sound:
  assumes "plan_search env input (zip calls tools) used = Inr plan" "length tools = length calls"
    "calls = requested_calls (mi_items input)" "map (find_memory_tool (mi_tools input)) calls = map Some tools"
    "tools \<noteq> []" "\<forall>t \<in> set tools. mg_capability (mt_grant t) = SearchMemory"
    "calls_used (mi_checkpoint input) (length calls) (mi_max_tool_calls input) = Some used"
  shows "memory_sound env input plan"
proof -
  obtain cs c where s: "plan_memory_calls (parse_search_arguments env) (\<lambda>q. memory_digest env ''query'' (my_encode_query env q))
        ''memorysearch'' (mi_model_call_id input) (zip calls tools) 0 = Inr cs"
      "terminal_checkpoint env input cs used = Inr c" "plan = SearchPlan (memory_batch_of input cs c)"
    using assms(1) by (auto simp: plan_search_def bindR_eq_Inr)
  note p = plan_memory_calls_Inr [OF s(1)]
  have ids: "map my_tool_call_id cs = map (numbered ''memorysearch'' (mi_model_call_id input)) [0..<length calls]"
    using p(2) assms(2) by simp
  have seal: "seal (my_ledger env) ((mi_checkpoint input)\<lparr>lk_current_batch := map (memory_checkpoint ToolCompleted None) cs,
       lk_tool_calls_used := used, lk_effect_watermark := (if cs = [] then [] else my_tool_call_id (last cs))\<rparr>) = Inr c"
    using s(2) by (simp add: terminal_checkpoint_def seal_memory_def)
  then have c: "lk_current_batch c = map (memory_checkpoint ToolCompleted None) cs" "lk_tool_calls_used c = used"
    by (auto dest!: seal_Inr)
  have "memory_within input SearchMemory query_within (memory_batch_of input cs c)"
    by (rule memory_within_intro [OF p(1) assms(2) ids assms(3-6) parse_search_within assms(7) c])
  then show ?thesis using seal_valid [OF seal] by (auto simp: s(3) c(1) memory_batch_of_def memory_checkpoint_def)
qed

lemma plan_proposals_sound:
  assumes "plan_proposals env input (zip calls tools) used = Inr plan" "length tools = length calls"
    "calls = requested_calls (mi_items input)" "map (find_memory_tool (mi_tools input)) calls = map Some tools"
    "tools \<noteq> []" "\<forall>t \<in> set tools. mg_capability (mt_grant t) = ProposeMemoryChange"
    "calls_used (mi_checkpoint input) (length calls) (mi_max_tool_calls input) = Some used"
  shows "memory_sound env input plan"
proof -
  let ?w = "''wait_memory_review_'' @ mi_model_call_id input"
  obtain cs c where s: "plan_memory_calls (parse_proposal env) (\<lambda>p. memory_digest env ''input'' (my_encode_proposal env p))
        ''memoryproposal'' (mi_model_call_id input) (zip calls tools) 0 = Inr cs"
      "seal_memory env ((mi_checkpoint input)\<lparr>lk_current_batch := map (memory_checkpoint ToolAwaitingApproval (Some ?w)) cs,
          lk_tool_calls_used := used, lk_effect_watermark := ?w, lk_wait_ids := lk_wait_ids (mi_checkpoint input) @ [?w]\<rparr>) = Inr c"
      "plan = ProposalPlan ?w (memory_batch_of input cs c)"
    using assms(1) by (auto simp: plan_proposals_def bindR_eq_Inr Let_def)
  note p = plan_memory_calls_Inr [OF s(1)]
  have ids: "map my_tool_call_id cs = map (numbered ''memoryproposal'' (mi_model_call_id input)) [0..<length calls]"
    using p(2) assms(2) by simp
  have seal: "seal (my_ledger env) ((mi_checkpoint input)\<lparr>lk_current_batch := map (memory_checkpoint ToolAwaitingApproval (Some ?w)) cs,
          lk_tool_calls_used := used, lk_effect_watermark := ?w, lk_wait_ids := lk_wait_ids (mi_checkpoint input) @ [?w]\<rparr>) = Inr c"
    using s(2) by (simp add: seal_memory_def)
  then have c: "lk_current_batch c = map (memory_checkpoint ToolAwaitingApproval (Some ?w)) cs" "lk_tool_calls_used c = used"
      "lk_wait_ids c = lk_wait_ids (mi_checkpoint input) @ [?w]"
    by (auto dest!: seal_Inr)
  have "memory_within input ProposeMemoryChange (proposal_within env) (memory_batch_of input cs c)"
    by (rule memory_within_intro [OF p(1) assms(2) ids assms(3-6) parse_proposal_within assms(7) c(1,2)])
  then show ?thesis using seal_valid [OF seal] c(3) by (auto simp: s(3) c(1) memory_batch_of_def memory_checkpoint_def)
qed

lemma plan_memory_sound:
  assumes "plan_memory_tool_batch env input = Inr r"
  shows "case r of
      None \<Rightarrow> \<forall>call \<in> set (requested_calls (mi_items input)). find_memory_tool (mi_tools input) call = None
    | Some plan \<Rightarrow> memory_sound env input plan"
proof -
  let ?calls = "requested_calls (mi_items input)"
  let ?found = "map (find_memory_tool (mi_tools input)) ?calls"
  show ?thesis
  proof (cases "list_all (\<lambda>t. t = None) ?found")
    case True
    with assms show ?thesis by (auto simp: plan_memory_tool_batch_def Let_def list_all_iff)
  next
    case False
    define found where "found = ?found"
    define tools where "tools = map the found"
    define cap where "cap = mg_capability (mt_grant (hd tools))"
    have body: "(if None \<in> set found then Inl ''mixed_memory_tool_batch''
        else if list_ex (\<lambda>t. mg_capability (mt_grant t) \<noteq> cap) tools then Inl ''mixed_memory_capability_batch''
        else bindR (of_optionR ''tool_call_limit_exceeded''
            (calls_used (mi_checkpoint input) (length ?calls) (mi_max_tool_calls input))) (\<lambda>used.
          bindR (if cap = SearchMemory then plan_search env input (zip ?calls tools) used
                 else plan_proposals env input (zip ?calls tools) used) (\<lambda>plan. Inr (Some plan)))) = Inr r"
      using assms unfolding plan_memory_tool_batch_def Let_def if_not_P [OF False] cap_def tools_def found_def .
    then have some: "None \<notin> set found" by (auto split: if_splits)
    have found: "?found = map Some tools"
      unfolding tools_def found_def [symmetric] using some by (induction found) auto
    have "\<not> list_ex (\<lambda>t. mg_capability (mt_grant t) \<noteq> cap) tools" using body some by (auto split: if_splits)
    then have cap: "\<forall>t \<in> set tools. mg_capability (mt_grant t) = cap" by (simp add: list_ex_iff)
    have "tools \<noteq> []" using False by (auto simp: tools_def found_def)
    have len: "length tools = length ?calls" by (simp add: tools_def found_def)
    obtain used plan where s: "calls_used (mi_checkpoint input) (length ?calls) (mi_max_tool_calls input) = Some used"
        "(if cap = SearchMemory then plan_search env input (zip ?calls tools) used
          else plan_proposals env input (zip ?calls tools) used) = Inr plan" "r = Some plan"
      using body some \<open>\<not> list_ex _ tools\<close> by (auto simp only: if_False bindR_eq_Inr of_optionR_eq_Inr sum.inject)
    have "memory_sound env input plan"
    proof (cases cap)
      case SearchMemory
      show ?thesis
        by (rule plan_search_sound [OF _ len refl found \<open>tools \<noteq> []\<close> _ s(1)]) (use s(2) cap SearchMemory in simp_all)
    next
      case ProposeMemoryChange
      show ?thesis
        by (rule plan_proposals_sound [OF _ len refl found \<open>tools \<noteq> []\<close> _ s(1)]) (use s(2) cap ProposeMemoryChange in simp_all)
    qed
    then show ?thesis by (simp add: s(3))
  qed
qed

end
