(* ===== verification/Batch_Theorems.thy ===== *)
theory Batch_Theorems
  imports Memory_Properties Request_Theorems
begin

text \<open>
  The properties of tool batches and outputs, with a batch of the tool that the request of
  \<open>Request_Theorems\<close> exposes, a memory search and a JSON answer.
\<close>

section \<open>Tool batches\<close>

definition plain_ledger :: "unit ledger_env" where
  "plain_ledger =
     \<lparr>lg_serde = simple_serde, lg_sha = (\<lambda>_. ''00''), lg_encode_key = (\<lambda>_. JNull), lg_encode_grant = (\<lambda>_. JNull),
      lg_encode_memory_grant = (\<lambda>_. JNull)\<rparr>"

definition plain_checkpoint :: "unit loop_checkpoint" where
  "plain_checkpoint =
     \<lparr>lk_schema_version = 1, lk_node_instance_id = ''n1'', lk_last_updated_by = ''a0'', lk_graph_revision_id = ''g1'',
      lk_registry = \<lparr>rg_revision = ''r'', rg_entries = []\<rparr>, lk_context_snapshot_ref = ''c'', lk_read_set_digest = ''d'',
      lk_model_call_no = 1, lk_transcript_ref = ''t'', lk_continuation = None, lk_model_effect = None,
      lk_count_effect = None, lk_current_batch = [], lk_model_calls_used = 1, lk_count_calls_used = 0,
      lk_tool_calls_used = 0, lk_effect_watermark = ''a0'', lk_wait_ids = [], lk_checksum = []\<rparr>"

definition sum_call :: tool_call_ir where
  "sum_call = \<lparr>tc_id = ''c1'', tc_provider_call_id = None, tc_name = ''sum'', tc_arguments = JArray [JNumber ''1'']\<rparr>"

definition sum_input :: "request_tool list \<Rightarrow> unit batch_input" where
  "sum_input tools =
     \<lparr>bt_execution = ask_execution\<lparr>ex_limits := default_node_limits\<lparr>nl_max_tool_calls := Some 2\<rparr>\<rparr>, bt_tools = tools,
      bt_items = [AssistantToolCall ''i1'' sum_call],
      bt_model_call_id = ''m1'', bt_node_instance_id = ''n1'', bt_attempt_id = ''a1'', bt_checkpoint = plain_checkpoint,
      bt_now_ms = 0\<rparr>"

definition sum_tool :: request_tool where
  "sum_tool = request_tool_of sum_grant array_resolved"

lemma sum_planned: "\<not> isl (plan_initial_tool_batch plain_ledger (sum_input [sum_tool]))"
  by code_simp

lemma sum_approval: "\<not> isl (plan_initial_tool_batch plain_ledger (sum_input [sum_tool\<lparr>qt_requires_approval := True\<rparr>]))"
  by code_simp

text \<open>The kind of a plan follows from the tool that is called.\<close>

lemma sum_plan_tools:
  assumes "calls_planned env (sum_input [t]) 0 (requested_calls (bt_items (sum_input [t]))) tools plans"
  shows "tools = [t]"
proof -
  have "requested_calls (bt_items (sum_input [t])) = [sum_call]"
    by (simp add: sum_input_def requested_calls_def List.map_filter_simps)
  with assms have "length tools = 1" "find_exposed [t] (tc_name sum_call) = Some (tools ! 0)"
    by (auto simp: calls_planned_def call_planned_def sum_input_def)
  then show ?thesis by (cases tools) (auto simp: find_exposed_def split: if_splits)
qed

lemma sum_plan_kind:
  assumes "plan_initial_tool_batch env (sum_input [t]) = Inr plan"
  shows "if qt_requires_approval t then \<exists>b. plan = ApprovalPlan b else \<exists>b. plan = ExecutablePlan b"
proof (cases plan)
  case NoCalls
  with plan_batch_sound [OF assms] show ?thesis by (simp add: sum_input_def requested_calls_def List.map_filter_simps)
next
  case (ApprovalPlan b)
  with plan_batch_sound [OF assms] show ?thesis by (auto simp: Let_def dest!: sum_plan_tools)
next
  case (ExecutablePlan b)
  with plan_batch_sound [OF assms] show ?thesis by (auto simp: Let_def dest!: sum_plan_tools)
qed

lemma sum_batches:
  "\<exists>b. plan_initial_tool_batch plain_ledger (sum_input [sum_tool]) = Inr (ExecutablePlan b)"
  "\<exists>b. plan_initial_tool_batch plain_ledger (sum_input [sum_tool\<lparr>qt_requires_approval := True\<rparr>]) = Inr (ApprovalPlan b)"
proof -
  have "\<not> qt_requires_approval sum_tool"
    by (simp add: sum_tool_def request_tool_of_def array_resolved_def array_tool_def sum_grant_def)
  then show "\<exists>b. plan_initial_tool_batch plain_ledger (sum_input [sum_tool]) = Inr (ExecutablePlan b)"
    using sum_plan_kind [OF not_isl_Inr [OF sum_planned]] not_isl_Inr [OF sum_planned] by auto
  show "\<exists>b. plan_initial_tool_batch plain_ledger (sum_input [sum_tool\<lparr>qt_requires_approval := True\<rparr>]) = Inr (ApprovalPlan b)"
    using sum_plan_kind [OF not_isl_Inr [OF sum_approval]] not_isl_Inr [OF sum_approval] by auto
qed

text \<open>
  C9: a planned batch answers the requested calls in order: every call has a tool of the request, an
  identifier and an index of its own, the digest of what it will do, a bounded number of attempts and
  a checkpoint entry; the calls stay within the limit of the node; a batch that can be executed at
  once has no tool that needs an approval, and otherwise exactly the calls that need one wait for it;
  and the checkpoint carries a valid checksum.
\<close>
theorem tool_batch_sound:
  assumes "plan_initial_tool_batch env input = Inr plan"
  shows "batch_sound env input plan"
  by (rule plan_batch_sound [OF assms])

theorem tool_batch_sound_witness:
  "\<exists>b. plan_initial_tool_batch plain_ledger (sum_input [sum_tool\<lparr>qt_requires_approval := True\<rparr>]) = Inr (ApprovalPlan b)
     \<and> batch_sound plain_ledger (sum_input [sum_tool\<lparr>qt_requires_approval := True\<rparr>]) (ApprovalPlan b)"
  using sum_batches(2) tool_batch_sound by blast

section \<open>From the request to the calls\<close>

fun planned_calls :: "'k batch_plan \<Rightarrow> tool_plan_call list" where
  "planned_calls NoCalls = []"
| "planned_calls (ExecutablePlan b) = xb_calls b"
| "planned_calls (ApprovalPlan b) = ab_calls b"

definition needs_approval :: "request_tool \<Rightarrow> bool" where
  "needs_approval t \<longleftrightarrow>
     te_requires_approval (tool_effect_spec (rt_descriptor (qt_descriptor t))) \<or> tg_approval (qt_grant t) = Some AlwaysApprove"

definition waits_for :: "'k batch_plan \<Rightarrow> tool_plan_call \<Rightarrow> bool" where
  "waits_for plan p \<longleftrightarrow>
     (\<exists>b. plan = ApprovalPlan b \<and> (\<exists>k \<in> set (lk_current_batch (ab_checkpoint b)).
        cc_tool_call_id k = pc_tool_call_id p \<and> cc_call_digest k = pc_call_digest p \<and> cc_status k = ToolAwaitingApproval))"

text \<open>What a call may do that is planned for a request: it is granted, pinned and approved where it must be.\<close>

definition call_granted :: "tool_env \<Rightarrow> 'k build_input \<Rightarrow> 'k batch_plan \<Rightarrow> request_tool \<Rightarrow> tool_plan_call \<Rightarrow> bool" where
  "call_granted env inp plan t p \<longleftrightarrow>
     qt_grant t \<in> set (ex_tools (bi_execution inp)) \<and> tool_sound env (bi_registry inp) t
     \<and> pc_binding_id p = tg_binding_id (qt_grant t) \<and> pc_tool_id p = tg_tool_id (qt_grant t)
     \<and> pc_tool_version p = tg_version (qt_grant t) \<and> (needs_approval t \<longrightarrow> waits_for plan p)"

lemma planned_call_tool:
  assumes "batch_sound env input plan" "p \<in> set (planned_calls plan)"
  shows "\<exists>t \<in> set (bt_tools input). pc_binding_id p = qt_binding_id t \<and> pc_tool_id p = tool_id (rt_descriptor (qt_descriptor t))
      \<and> pc_tool_version p = tool_version (rt_descriptor (qt_descriptor t)) \<and> (qt_requires_approval t \<longrightarrow> waits_for plan p)"
proof -
  let ?calls = "requested_calls (bt_items input)"
  have tool: "t \<in> set (bt_tools input)" if "call_planned env input i call t q" for i call t q
    using that by (auto simp: call_planned_def find_exposed_def find_Some_iff)
  obtain tools where t: "calls_planned env input 0 ?calls tools (planned_calls plan)"
    using assms by (cases plan) (auto simp: Let_def)
  then obtain i where i: "i < length ?calls" "p = planned_calls plan ! i" "length tools = length ?calls"
      "length (planned_calls plan) = length ?calls" "call_planned env input i (?calls ! i) (tools ! i) p"
    using assms(2) by (auto simp: calls_planned_def in_set_conv_nth)
  show ?thesis
  proof (cases plan)
    case (ExecutablePlan b)
    then obtain ts where ts: "calls_planned env input 0 ?calls ts (xb_calls b)" "list_all (\<lambda>t. \<not> qt_requires_approval t) ts"
      using assms(1) by (auto simp: Let_def)
    then have c: "call_planned env input i (?calls ! i) (ts ! i) p" "\<not> qt_requires_approval (ts ! i)"
      using i(1,2) ExecutablePlan by (auto simp: calls_planned_def list_all_length)
    then show ?thesis using tool [OF c(1)] by (intro bexI [of _ "ts ! i"]) (auto simp: call_planned_def)
  next
    case (ApprovalPlan b)
    then obtain ts where ts: "calls_planned env input 0 ?calls ts (ab_calls b)"
        "list_all2 checkpoint_follows (ab_calls b) (lk_current_batch (ab_checkpoint b))"
        "list_all2 (awaits (ab_wait_id b)) ts (lk_current_batch (ab_checkpoint b))"
      using assms(1) by (auto simp: Let_def)
    let ?k = "lk_current_batch (ab_checkpoint b) ! i"
    have c: "call_planned env input i (?calls ! i) (ts ! i) p" "checkpoint_follows p ?k" "awaits (ab_wait_id b) (ts ! i) ?k"
        "?k \<in> set (lk_current_batch (ab_checkpoint b))"
      using i(1,2) ApprovalPlan ts by (auto simp: calls_planned_def list_all2_conv_all_nth)
    then have "qt_requires_approval (ts ! i) \<longrightarrow> waits_for plan p"
      using ApprovalPlan by (auto simp: waits_for_def checkpoint_follows_def awaits_def)
    with c tool [OF c(1)] show ?thesis by (intro bexI [of _ "ts ! i"]) (auto simp: call_planned_def)
  qed (use assms(2) in simp)
qed

lemma built_tools:
  assumes "build_llm_request env inp = Inr out" "t \<in> set (bo_tools out)"
  shows "qt_grant t \<in> set (ex_tools (bi_execution inp))" "tool_sound (be_tools env) (bi_registry inp) t"
proof -
  obtain tools where "resolve_tools (be_tools env) (bi_execution inp) (bi_registry inp) (bi_descriptors inp) = Inr (tools, bo_tools out)"
    using build_steps [OF assms(1)] by metis
  then have "resolve_grants (be_tools env) (rg_entries (bi_registry inp)) (bi_descriptors inp) (ex_tools (bi_execution inp)) {} = Inr (tools, bo_tools out)"
    by (auto simp: resolve_tools_def bindR_eq_Inr)
  note r = resolve_grants_Inr [OF this]
  have "qt_grant t \<in> set (map qt_grant (bo_tools out))" using assms(2) by simp
  then show "qt_grant t \<in> set (ex_tools (bi_execution inp))" using r by simp
  show "tool_sound (be_tools env) (bi_registry inp) t" using r assms(2) by (simp add: list_all_iff)
qed

text \<open>
  C8: what a model asks for never exceeds what the node was granted: every call planned for the tools
  of a built request belongs to a grant of the node, its descriptor is sound and pinned in the
  registry snapshot, and if the descriptor or the grant demands an approval, the call is not
  executed but waits for one under the digest of its arguments.
\<close>
theorem planned_calls_granted:
  assumes "build_llm_request benv inp = Inr out" "bt_tools input = bo_tools out"
    "plan_initial_tool_batch env input = Inr plan"
  shows "\<forall>p \<in> set (planned_calls plan). \<exists>t \<in> set (bo_tools out). call_granted (be_tools benv) inp plan t p"
proof
  fix p assume "p \<in> set (planned_calls plan)"
  then obtain t where t: "t \<in> set (bo_tools out)" "pc_binding_id p = qt_binding_id t"
      "pc_tool_id p = tool_id (rt_descriptor (qt_descriptor t))" "pc_tool_version p = tool_version (rt_descriptor (qt_descriptor t))"
      "qt_requires_approval t \<longrightarrow> waits_for plan p"
    using planned_call_tool [OF plan_batch_sound [OF assms(3)]] by (auto simp: assms(2))
  note b = built_tools [OF assms(1) t(1)]
  then have "call_granted (be_tools benv) inp plan t p"
    using t(2-5) by (auto simp: call_granted_def tool_sound_def grant_sound_def needs_approval_def)
  with t(1) show "\<exists>t \<in> set (bo_tools out). call_granted (be_tools benv) inp plan t p" by blast
qed

lemma ask_built_tools: "build_llm_request ask_build_env ask_build = Inr out \<Longrightarrow> bo_tools out = [sum_tool]"
proof -
  assume "build_llm_request ask_build_env ask_build = Inr out"
  then obtain tools where "resolve_tools (be_tools ask_build_env) (bi_execution ask_build) (bi_registry ask_build) (bi_descriptors ask_build)
      = Inr (tools, bo_tools out)"
    using build_steps by metis
  moreover have "be_tools ask_build_env = array_tools" "bi_execution ask_build = ask_execution"
    "bi_registry ask_build = ex_tool_registry ask_execution" "bi_descriptors ask_build = [array_resolved]"
    by (simp_all add: ask_build_env_def ask_build_def ask_execution_def)
  ultimately show ?thesis using ask_tools by (simp add: sum_tool_def)
qed

theorem planned_calls_granted_witness:
  "\<exists>out b. build_llm_request ask_build_env ask_build = Inr out
     \<and> plan_initial_tool_batch plain_ledger (sum_input (bo_tools out)) = Inr (ExecutablePlan b)
     \<and> (\<forall>p \<in> set (xb_calls b). \<exists>t \<in> set (bo_tools out). call_granted (be_tools ask_build_env) ask_build (ExecutablePlan b) t p)"
proof -
  obtain out where out: "build_llm_request ask_build_env ask_build = Inr out" using ask_builds by blast
  obtain b where b: "plan_initial_tool_batch plain_ledger (sum_input (bo_tools out)) = Inr (ExecutablePlan b)"
    using sum_batches(1) ask_built_tools [OF out] by auto
  have "bt_tools (sum_input (bo_tools out)) = bo_tools out" by (simp add: sum_input_def)
  from planned_calls_granted [OF out this b] out b show ?thesis by auto
qed

section \<open>Memory batches\<close>

definition plain_memory :: "unit memory_env" where
  "plain_memory =
     \<lparr>my_ledger = plain_ledger,
      my_decode_search = (\<lambda>_. Some \<lparr>mq_scope_id = ''s'', mq_text = Some ''x'', mq_tags = [''b'', ''a'', ''b''], mq_status = None, mq_limit = 5\<rparr>),
      my_decode_proposal = (\<lambda>_. None), my_encode_query = (\<lambda>_. JNull), my_encode_proposal = (\<lambda>_. JNull)\<rparr>"

definition recall_input :: "unit memory_input" where
  "recall_input =
     \<lparr>mi_tools = [\<lparr>mt_exposed_name = MEMORY_SEARCH_TOOL_NAME,
        mt_grant = \<lparr>mg_capability = SearchMemory, mg_scopes = [''s''], mg_max_results = Some 5, mg_max_proposal_bytes = None\<rparr>\<rparr>],
      mi_items = [AssistantToolCall ''i1'' \<lparr>tc_id = ''c1'', tc_provider_call_id = None, tc_name = ''search_memory'', tc_arguments = JNull\<rparr>],
      mi_model_call_id = ''m1'', mi_node_instance_id = ''n1'', mi_attempt_id = ''a1'', mi_checkpoint = plain_checkpoint,
      mi_max_tool_calls = 1\<rparr>"

fun is_search :: "'e + 'k memory_plan option \<Rightarrow> bool" where
  "is_search (Inr (Some (SearchPlan _))) = True"
| "is_search _ = False"

lemma recall_planned: "is_search (plan_memory_tool_batch plain_memory recall_input)"
  by code_simp

text \<open>
  C10: a planned batch of memory calls has one capability, and every call stays within the grant of its
  tool: a search in a granted scope with bounded results, a proposal in a granted scope with its
  content in normal form, naming a record exactly when it does not create one; searches are
  completed at once and every proposal waits for its review; when nothing is planned, no call
  named a memory tool.
\<close>
theorem memory_batch_sound:
  assumes "plan_memory_tool_batch env input = Inr r"
  shows "case r of
      None \<Rightarrow> \<forall>call \<in> set (requested_calls (mi_items input)). find_memory_tool (mi_tools input) call = None
    | Some plan \<Rightarrow> memory_sound env input plan"
  by (rule plan_memory_sound [OF assms])

theorem memory_batch_sound_witness:
  "\<exists>b. plan_memory_tool_batch plain_memory recall_input = Inr (Some (SearchPlan b))
     \<and> memory_sound plain_memory recall_input (SearchPlan b)"
proof -
  obtain b where b: "plan_memory_tool_batch plain_memory recall_input = Inr (Some (SearchPlan b))"
    using recall_planned by (cases "plan_memory_tool_batch plain_memory recall_input" rule: is_search.cases) auto
  from memory_batch_sound [OF b] b show ?thesis by auto
qed

section \<open>Outputs\<close>

lemma extract_parts_Inr:
  "extract_parts ps n t = Inr (m, out) \<longleftrightarrow>
     (\<forall>p \<in> set ps. text_of_part p \<noteq> None) \<and> m = n + length ps \<and> out = t @ concat (List.map_filter text_of_part ps)"
  by (induction ps arbitrary: n t) (auto simp: List.map_filter_simps split: option.splits)

lemma extract_json_bytes_Inr:
  "extract_json_bytes items = Inr out \<longleftrightarrow>
     concat (map assistant_parts items) \<noteq> [] \<and> (\<forall>p \<in> set (concat (map assistant_parts items)). text_of_part p \<noteq> None)
     \<and> out = assistant_text items"
  by (auto simp: extract_json_bytes_def bindR_eq_Inr extract_parts_Inr assistant_text_def)

text \<open>The answers that a node accepts as its output, with the value they become.\<close>

definition output_accepted ::
    "output_env \<Rightarrow> output_spec option \<Rightarrow> 'k turn_item list \<Rightarrow> 'k turn_item list \<Rightarrow> json \<Rightarrow> bool" where
  "output_accepted env spec last_items all_items v \<longleftrightarrow>
     (case spec of
        Some (JsonOutput schema _) \<Rightarrow>
          concat (map assistant_parts last_items) \<noteq> []
          \<and> (\<forall>p \<in> set (concat (map assistant_parts last_items)). text_of_part p \<noteq> None)
          \<and> canonical_parse (oe_no_duplicates env) (oe_parse env) (assistant_text last_items) = Inr v
          \<and> validate_schema (oe_schema env) schema v = Inr ()
      | Some (TextOutput final allow_empty) \<Rightarrow>
          (\<exists>t. v = JString t \<and> (allow_empty \<or> t \<noteq> [])
             \<and> t = assistant_text (if final = Some AllAssistantText then all_items else last_items))
      | None \<Rightarrow> v = JString (assistant_text last_items) \<and> assistant_text last_items \<noteq> [])"


text \<open>The repair material tells the model the code of the error and nothing of its answer.\<close>

lemma repair_instruction_closed:
  "rm_instruction (build_repair_material env code items) = rm_instruction (build_repair_material env code items')"
  by (simp add: build_repair_material_def)

end
