(* ===== verification/Channel_Properties.thy ===== *)
theory Channel_Properties
  imports Service_Operations "HOL-Library.Code_Target_Numeral"
begin

text \<open>
  What a channel revision promises once it is normalised, and the safety of the pins that service
  operations take from it.
\<close>

section \<open>Sorting and neighbours\<close>

lemma neighbours_sorted:
  fixes f :: "'a \<Rightarrow> 'b::linorder"
  shows "sorted (map f xs) \<Longrightarrow> \<not> neighbours_equal f xs \<longleftrightarrow> distinct (map f xs)"
proof (induction xs)
  case (Cons x xs)
  show ?case
  proof (cases xs)
    case (Cons y ys)
    have step: "neighbours_equal f (x # xs) \<longleftrightarrow> f x = f y \<or> neighbours_equal f xs"
      unfolding neighbours_equal_def Cons by simp
    have "f y \<le> f z" if "z \<in> set ys" for z
      using Cons.prems that unfolding \<open>xs = y # ys\<close> by simp
    moreover have "f x \<le> f y" using Cons.prems unfolding \<open>xs = y # ys\<close> by simp
    ultimately have "f x \<notin> f ` set ys" if "f x \<noteq> f y" using that by force
    then show ?thesis
      using step Cons.IH Cons.prems unfolding \<open>xs = y # ys\<close> by auto
  qed (simp add: neighbours_equal_def)
qed (simp add: neighbours_equal_def)

lemma neighbours_sort_key: "\<not> neighbours_equal f (sort_key f xs) \<longleftrightarrow> distinct (map f (sort_key f xs))"
  by (rule neighbours_sorted) simp

text \<open>Sorting by a code that is injective on the keys brings equal keys together.\<close>

lemma neighbours_inj:
  assumes "inj_on code (key ` set xs)"
  shows "neighbours_equal (\<lambda>x. code (key x)) xs = neighbours_equal key xs"
  using assms
proof (induction xs)
  case (Cons x xs)
  show ?case
  proof (cases xs)
    case (Cons y ys)
    have "inj_on code (key ` set xs)" by (rule inj_on_subset [OF Cons.prems]) auto
    then have "neighbours_equal (\<lambda>x. code (key x)) xs = neighbours_equal key xs" by (rule Cons.IH)
    moreover have "code (key x) = code (key y) \<longleftrightarrow> key x = key y"
      by (rule inj_on_eq_iff [OF Cons.prems]) (simp_all add: \<open>xs = y # ys\<close>)
    ultimately show ?thesis using \<open>xs = y # ys\<close> by (simp add: neighbours_equal_def)
  qed (simp add: neighbours_equal_def)
qed (simp add: neighbours_equal_def)

lemma neighbours_coded:
  fixes code :: "'k \<Rightarrow> 's::linorder"
  assumes "inj_on code (key ` set xs)" "sorted (map (\<lambda>x. code (key x)) xs)" "\<not> neighbours_equal key xs"
  shows "distinct (map key xs)"
proof -
  have "distinct (map (\<lambda>x. code (key x)) xs)"
    using neighbours_sorted [OF assms(2)] neighbours_inj [OF assms(1)] assms(3) by simp
  then have "distinct (map code (map key xs))" by (simp add: comp_def)
  then show ?thesis by (metis distinct_map)
qed

lemma sort_key_sorted: "sorted (map f xs) \<Longrightarrow> sort_key f xs = xs"
  by (simp add: sort_key_id_if_sorted)

lemma sort_key_again: "sort_key f (sort_key f xs) = sort_key f xs"
  by (rule sort_key_sorted) simp

section \<open>Normal forms of elements\<close>

text \<open>
  The contract of the normalisation of an element of a channel: what it gives is normal, and what is
  normal it leaves alone.  Lists inherit both.
\<close>

locale normaliser =
  fixes norm :: "'a \<Rightarrow> string + 'a"
    and normal :: "'a \<Rightarrow> bool"
  assumes sound: "norm x = Inr y \<Longrightarrow> normal y"
    and fixed: "normal x \<Longrightarrow> norm x = Inr x"
begin

lemma list_normal: "mapR norm xs = Inr ys \<Longrightarrow> y \<in> set ys \<Longrightarrow> normal y"
  using mapR_set [of norm xs ys y] sound by blast

lemma list_fixed: "(\<And>y. y \<in> set ys \<Longrightarrow> normal y) \<Longrightarrow> mapR norm ys = Inr ys"
  using fixed by (induction ys) simp_all

end

section \<open>Operations\<close>

lemma keyed_elements:
  "mapR (\<lambda>k. bindR (f k) (\<lambda>s. Inr (s, k))) ks = Inr keyed \<Longrightarrow>
     map snd keyed = ks \<and> (\<forall>(s, k) \<in> set keyed. f k = Inr s)"
  by (induction ks arbitrary: keyed) (auto simp: bindR_eq_Inr)

lemma keyed_distinct:
  assumes "distinct (map fst keyed)" "\<forall>(s, k) \<in> set keyed. f k = Inr s"
  shows "distinct (map snd keyed)" "inj_on f (snd ` set keyed)"
proof -
  have "inj_on fst (set keyed)" using assms(1) by (simp add: distinct_map)
  moreover have "f (snd p) = Inr (fst p)" if "p \<in> set keyed" for p using that assms(2) by (cases p) auto
  ultimately have f: "p = q" if "p \<in> set keyed" "q \<in> set keyed" "f (snd p) = f (snd q)" for p q
    using that by (metis Inr_inject inj_onD)
  then have "inj_on snd (set keyed)" by (metis inj_onI)
  moreover have "distinct keyed" using assms(1) by (simp add: distinct_map)
  ultimately show "distinct (map snd keyed)" by (simp add: distinct_map)
  show "inj_on f (snd ` set keyed)" using f by (auto simp: inj_on_def)
qed

text \<open>Sorting by a computed text: the two uses in the code share this result.\<close>

lemma keyed_normal:
  assumes "mapR (\<lambda>k. bindR (f k) (\<lambda>s. Inr (s, k))) ks = Inr keyed" "\<not> neighbours_equal fst (sort_key fst keyed)"
  defines "ks' \<equiv> map snd (sort_key fst keyed)"
  shows "distinct ks'" "set ks' = set ks" "length ks' = length ks" "inj_on f (set ks')"
    "mapR (\<lambda>k. bindR (f k) (\<lambda>s. Inr (s, k))) ks' = Inr (sort_key fst keyed)"
proof -
  let ?s = "sort_key fst keyed"
  have k: "map snd keyed = ks" "\<forall>(s, k) \<in> set ?s. f k = Inr s" using keyed_elements [OF assms(1)] by simp_all
  have d: "distinct (map fst ?s)" using assms(2) neighbours_sort_key by blast
  from keyed_distinct [OF d k(2)] show "distinct ks'" "inj_on f (set ks')" by (simp_all add: ks'_def)
  show "set ks' = set ks" "length ks' = length ks" unfolding ks'_def k(1) [symmetric] by simp_all
  show "mapR (\<lambda>k. bindR (f k) (\<lambda>s. Inr (s, k))) ks' = Inr ?s"
    unfolding ks'_def using k(2) by (auto simp: mapR_eq_Inr list_all2_map1 list_all2_same)
qed

definition operations_normal :: "'k channel_lib \<Rightarrow> 'k list \<Rightarrow> bool" where
  "operations_normal lib ks \<longleftrightarrow>
     ks \<noteq> [] \<and> length ks \<le> 64 \<and> distinct ks
     \<and> (\<forall>k \<in> set ks. kl_consistent (cl_keys lib) k \<and> supported_key (cl_keys lib) k)"

lemma normalize_operations_normal:
  assumes "normalize_operations lib ks = Inr ks'"
  shows "operations_normal lib ks'" "set ks' = set ks" "normalize_operations lib ks' = Inr ks'"
    "inj_on (operation_sort_key lib) (set ks')"
proof -
  obtain keyed where k: "ks \<noteq> []" "length ks \<le> 64" "list_all (kl_consistent (cl_keys lib)) ks"
      "list_all (supported_key (cl_keys lib)) ks"
      "mapR (\<lambda>k. bindR (operation_sort_key lib k) (\<lambda>s. Inr (s, k))) ks = Inr keyed"
      "\<not> neighbours_equal fst (sort_key fst keyed)" "ks' = map snd (sort_key fst keyed)"
    using assms by (auto simp: normalize_operations_def bindR_eq_Inr Let_def)
  note n = keyed_normal [OF k(5,6), folded k(7)]
  have all: "list_all (kl_consistent (cl_keys lib)) ks'" "list_all (supported_key (cl_keys lib)) ks'"
    using k(3,4) n(2) by (simp_all add: list_all_iff)
  have len: "ks' \<noteq> []" "length ks' \<le> 64" using k(1,2) n(3) by auto
  show "operations_normal lib ks'" "set ks' = set ks" "inj_on (operation_sort_key lib) (set ks')"
    using n all len by (simp_all add: operations_normal_def list_all_iff)
  show "normalize_operations lib ks' = Inr ks'"
    unfolding normalize_operations_def n(5) using all len k(6,7) by (simp add: sort_key_again)
qed

section \<open>Catalogs\<close>

definition model_normal :: "channel_model \<Rightarrow> bool" where
  "model_normal m \<longleftrightarrow>
     trim (cm_id m) = cm_id m \<and> cm_id m \<noteq> [] \<and> length (cm_id m) \<le> 256
     \<and> (\<forall>n. cm_name m = Some n \<longrightarrow> trim n = n \<and> n \<noteq> [])
     \<and> cm_context_window m \<noteq> Some 0 \<and> cm_max_output_tokens m \<noteq> Some 0"

definition catalog_normal :: "'k list \<Rightarrow> 'k model_catalog \<Rightarrow> bool" where
  "catalog_normal ks c \<longleftrightarrow>
     mc_operation_key c \<in> set ks \<and> length (mc_models c) \<le> 1024 \<and> (mc_policy c = Allowlist \<longrightarrow> mc_models c \<noteq> [])
     \<and> distinct (map cm_id (mc_models c)) \<and> sorted (map cm_id (mc_models c)) \<and> (\<forall>m \<in> set (mc_models c). model_normal m)"

lemma normalize_model_normal: "normalize_model m = Inr m' \<Longrightarrow> model_normal m'"
  by (auto simp: normalize_model_def model_normal_def bindR_eq_Inr Let_def split: option.splits if_splits)

lemma model_normal_fixed: "model_normal m \<Longrightarrow> normalize_model m = Inr m"
  by (cases m) (auto simp: normalize_model_def model_normal_def bindR_eq_Inr Let_def split: option.splits)

interpretation models: normaliser normalize_model model_normal
  by unfold_locales (rule normalize_model_normal model_normal_fixed; assumption)+

lemma normalize_models_normal:
  assumes "normalize_models ms = Inr ms'"
  shows "distinct (map cm_id ms')" "sorted (map cm_id ms')" "\<forall>m \<in> set ms'. model_normal m" "length ms' = length ms"
proof -
  obtain ns where n: "mapR normalize_model ms = Inr ns" "ms' = sort_key cm_id ns" "\<not> neighbours_equal cm_id ms'"
    using assms by (auto simp: normalize_models_def bindR_eq_Inr Let_def)
  show "distinct (map cm_id ms')" using n(2,3) neighbours_sort_key by blast
  show "sorted (map cm_id ms')" by (simp add: n(2))
  show "\<forall>m \<in> set ms'. model_normal m" using models.list_normal [OF n(1)] by (simp add: n(2))
  show "length ms' = length ms" using mapR_length [OF n(1)] by (simp add: n(2))
qed

lemma normalize_catalog_normal:
  assumes "normalize_catalog ks c = Inr c'"
  shows "catalog_normal ks c'"
proof -
  obtain ms where "mc_operation_key c \<in> set ks" "length (mc_models c) \<le> 1024"
      "\<not> (mc_policy c = Allowlist \<and> mc_models c = [])" "normalize_models (mc_models c) = Inr ms" "c' = c\<lparr>mc_models := ms\<rparr>"
    using assms by (auto simp: normalize_catalog_def bindR_eq_Inr)
  with normalize_models_normal [of "mc_models c" ms] show ?thesis by (auto simp: catalog_normal_def)
qed

lemma catalog_normal_fixed: "catalog_normal ks c \<Longrightarrow> normalize_catalog ks c = Inr c"
proof -
  assume c: "catalog_normal ks c"
  then have "mapR normalize_model (mc_models c) = Inr (mc_models c)"
    by (intro models.list_fixed) (simp add: catalog_normal_def)
  moreover have "\<not> neighbours_equal cm_id (mc_models c)"
    using c neighbours_sorted [of cm_id "mc_models c"] by (simp add: catalog_normal_def)
  ultimately show ?thesis
    using c by (cases c) (auto simp: normalize_catalog_def normalize_models_def catalog_normal_def sort_key_sorted)
qed

interpretation catalogs: normaliser "normalize_catalog ks" "catalog_normal ks" for ks
  by unfold_locales (rule normalize_catalog_normal catalog_normal_fixed; assumption)+

definition catalog_code :: "'k channel_lib \<Rightarrow> 'k \<Rightarrow> string" where
  "catalog_code lib k = (case operation_sort_key lib k of Inl _ \<Rightarrow> [] | Inr s \<Rightarrow> s)"

lemma normalize_catalogs_normal:
  assumes "normalize_catalogs lib ks cs = Inr cs'" "inj_on (catalog_code lib) (set ks)"
  shows "length cs' \<le> 64" "\<forall>c \<in> set cs'. catalog_normal ks c" "distinct (map mc_operation_key cs')"
    "normalize_catalogs lib ks cs' = Inr cs'"
proof -
  obtain ds where d: "length cs \<le> 64" "mapR (normalize_catalog ks) cs = Inr ds"
      "cs' = sort_key (\<lambda>c. catalog_code lib (mc_operation_key c)) ds" "\<not> neighbours_equal mc_operation_key cs'"
    using assms(1) by (auto simp: normalize_catalogs_def catalog_code_def bindR_eq_Inr Let_def comp_def)
  show len: "length cs' \<le> 64" using d(1) mapR_length [OF d(2)] by (simp add: d(3))
  show n: "\<forall>c \<in> set cs'. catalog_normal ks c"
    using catalogs.list_normal [OF d(2)] by (simp add: d(3))
  then have "mc_operation_key ` set cs' \<subseteq> set ks" by (auto simp: catalog_normal_def)
  then show "distinct (map mc_operation_key cs')"
    using neighbours_coded [OF inj_on_subset [OF assms(2)] _ d(4)] by (simp add: d(3))
  have "mapR (normalize_catalog ks) cs' = Inr cs'" using n by (intro catalogs.list_fixed) blast
  then show "normalize_catalogs lib ks cs' = Inr cs'"
    using len d(3,4) sort_key_again [of "\<lambda>c. catalog_code lib (mc_operation_key c)" ds]
    by (simp add: normalize_catalogs_def catalog_code_def comp_def)
qed

section \<open>Capabilities\<close>

definition capability_normal :: "'k list \<Rightarrow> 'k channel_capability \<Rightarrow> bool" where
  "capability_normal ks c \<longleftrightarrow>
     capability_key c \<in> set ks \<and> trim (capability_kind c) = capability_kind c
     \<and> capability_kind c \<noteq> [] \<and> length (capability_kind c) \<le> 128"

lemma normalize_capability_normal: "normalize_capability ks c = Inr c' \<Longrightarrow> capability_normal ks c'"
  by (cases c) (auto simp: normalize_capability_def capability_normal_def bindR_eq_Inr Let_def)

lemma capability_normal_fixed: "capability_normal ks c \<Longrightarrow> normalize_capability ks c = Inr c"
  by (cases c) (auto simp: normalize_capability_def capability_normal_def bindR_eq_Inr Let_def)

interpretation capabilities: normaliser "normalize_capability ks" "capability_normal ks" for ks
  by unfold_locales (rule normalize_capability_normal capability_normal_fixed; assumption)+

lemma normalize_capabilities_normal:
  assumes "normalize_capabilities lib ks cs = Inr cs'"
  shows "length cs' \<le> 128" "distinct cs'" "\<forall>c \<in> set cs'. capability_normal ks c" "normalize_capabilities lib ks cs' = Inr cs'"
proof -
  let ?f = "\<lambda>c. map_errR (\<lambda>_. ''invalid_channel_capability'') (to_vec (cl_serde lib) (capability_json (cl_keys lib) c))"
  obtain ds keyed where d: "length cs \<le> 128" "mapR (normalize_capability ks) cs = Inr ds"
      "mapR (\<lambda>c. bindR (?f c) (\<lambda>s. Inr (s, c))) ds = Inr keyed" "\<not> neighbours_equal fst (sort_key fst keyed)"
      "cs' = map snd (sort_key fst keyed)"
    using assms unfolding normalize_capabilities_def Let_def bindR_eq_Inr by auto
  note n = keyed_normal [OF d(3,4), folded d(5)]
  show len: "length cs' \<le> 128" using d(1) mapR_length [OF d(2)] n(3) by simp
  show "distinct cs'" by (rule n(1))
  show all: "\<forall>c \<in> set cs'. capability_normal ks c"
    using capabilities.list_normal [OF d(2)] unfolding n(2) by blast
  have "mapR (normalize_capability ks) cs' = Inr cs'" using all by (intro capabilities.list_fixed) blast
  then show "normalize_capabilities lib ks cs' = Inr cs'"
    unfolding normalize_capabilities_def using len n(5) d(4,5) by (simp add: sort_key_again)
qed

section \<open>Channels\<close>

text \<open>The URLs that a channel may use: no credentials in any part, and a transport that the policy allows.\<close>

definition parts_secure :: "transport_policy \<Rightarrow> url_parts \<Rightarrow> bool" where
  "parts_secure policy url \<longleftrightarrow>
     url_username url = [] \<and> url_password url = None \<and> url_fragment url = None
     \<and> (\<forall>(key, _) \<in> set (url_query url). \<not> sensitive_query_key key)
     \<and> (url_scheme url = ''https''
        \<or> url_scheme url = ''http'' \<and> allow_loopback_http policy \<and> is_loopback_host (url_host_of url))"

definition url_secure :: "'k channel_lib \<Rightarrow> transport_policy \<Rightarrow> string \<Rightarrow> bool" where
  "url_secure lib policy text \<longleftrightarrow> (\<exists>url. cl_parse_url lib text = Some url \<and> parts_secure policy url)"

text \<open>The stored text of a base URL: the URL that was given, with no slash at the end of its path or its text.\<close>

definition url_normal :: "'k channel_lib \<Rightarrow> string \<Rightarrow> string \<Rightarrow> bool" where
  "url_normal lib raw text \<longleftrightarrow>
     (\<exists>url. cl_parse_url lib (trim raw) = Some url
        \<and> text = trim_slashes (cl_url_text lib
            (if url_path url = ''/'' then url else cl_set_path lib (trim_slashes (url_path url)) url)))"

text \<open>
  What the code relies on in the parser of URLs, for the schemes http and https and a URL without a
  fragment: setting the path changes nothing but the path, and a URL that is written, stripped of
  the slashes at its end and read again has the same scheme, user, password and host, no fragment,
  and no query key that it did not have before (a slash may be lost at the end of the last key).
\<close>

definition key_letters :: "string \<Rightarrow> string" where
  "key_letters key = filter (\<lambda>c. is_alpha c \<or> is_digit c) key"

definition same_origin :: "url_parts \<Rightarrow> url_parts \<Rightarrow> bool" where
  "same_origin u w \<longleftrightarrow>
     url_scheme w = url_scheme u \<and> url_username w = url_username u \<and> url_password w = url_password u
     \<and> url_host_of w = url_host_of u \<and> url_fragment w = url_fragment u
     \<and> key_letters ` fst ` set (url_query w) \<subseteq> key_letters ` fst ` set (url_query u)"

definition url_laws :: "'k channel_lib \<Rightarrow> bool" where
  "url_laws lib \<longleftrightarrow>
     (\<forall>s u. cl_parse_url lib s = Some u \<and> url_scheme u \<in> {''http'', ''https''} \<and> url_fragment u = None \<longrightarrow>
        (\<forall>p. (cl_set_path lib p u)\<lparr>url_path := url_path u\<rparr> = u)
        \<and> (\<forall>v. v = u \<or> (\<exists>p. v = cl_set_path lib p u) \<longrightarrow>
             (\<exists>w. cl_parse_url lib (trim_slashes (cl_url_text lib v)) = Some w \<and> same_origin v w)))"

lemma sensitive_by_letters: "key_letters k = key_letters l \<Longrightarrow> sensitive_query_key k = sensitive_query_key l"
  by (simp add: sensitive_query_key_def key_letters_def)

lemma same_origin_secure:
  assumes "same_origin u w" "parts_secure policy u"
  shows "parts_secure policy w"
proof -
  have safe: "\<forall>q \<in> set (url_query u). \<not> sensitive_query_key (fst q)"
    using assms(2) by (simp add: parts_secure_def case_prod_beta)
  have "\<not> sensitive_query_key (fst q)" if "q \<in> set (url_query w)" for q
  proof -
    have "key_letters (fst q) \<in> key_letters ` fst ` set (url_query w)" using that by (intro imageI)
    moreover have "key_letters ` fst ` set (url_query w) \<subseteq> key_letters ` fst ` set (url_query u)"
      using assms(1) by (simp only: same_origin_def)
    ultimately have "key_letters (fst q) \<in> key_letters ` fst ` set (url_query u)" by (rule rev_subsetD)
    then obtain q' where q': "q' \<in> set (url_query u)" "key_letters (fst q) = key_letters (fst q')"
      by (auto simp only: image_iff)
    then show ?thesis using safe sensitive_by_letters [OF q'(2)] by simp
  qed
  then have "\<forall>(key, _) \<in> set (url_query w). \<not> sensitive_query_key key" by (simp add: case_prod_beta)
  moreover have "url_username w = [] \<and> url_password w = None \<and> url_fragment w = None"
    using assms by (simp add: parts_secure_def same_origin_def)
  moreover have "url_scheme w = url_scheme u \<and> url_host_of w = url_host_of u" using assms(1) by (simp add: same_origin_def)
  ultimately show ?thesis using assms(2) unfolding parts_secure_def by simp
qed

lemma set_path_secure:
  assumes "u'\<lparr>url_path := p\<rparr> = u" "parts_secure policy u"
  shows "parts_secure policy u'"
proof -
  have "parts_secure policy (u'\<lparr>url_path := p\<rparr>)" using assms by simp
  then show ?thesis by (simp add: parts_secure_def)
qed

lemma normalize_base_url_Inr:
  assumes "normalize_base_url lib raw policy = Inr text"
  shows "url_secure lib policy (trim raw)" "url_normal lib raw text" "url_laws lib \<Longrightarrow> url_secure lib policy text"
proof -
  let ?stored = "\<lambda>url. trim_slashes (cl_url_text lib
        (if url_path url = ''/'' then url else cl_set_path lib (trim_slashes (url_path url)) url))"
  obtain url where url: "cl_parse_url lib (trim raw) = Some url"
    using assms by (cases "cl_parse_url lib (trim raw)") (simp_all add: normalize_base_url_def)
  note run = assms [unfolded normalize_base_url_def url of_optionR_simps bindR_simps Let_def]
  have user: "url_username url = [] \<and> url_password url = None \<and> url_fragment url = None"
    by (rule ccontr) (use run in \<open>simp only: ensureR_simps bindR_simps Inl_Inr_False\<close>)
  note run = run [unfolded eqTrueI [OF user] ensureR_simps bindR_simps]
  have keys: "\<not> list_ex (\<lambda>(key, _). sensitive_query_key key) (url_query url)"
    by (rule ccontr) (use run in \<open>simp only: not_not not_True_eq_False ensureR_simps bindR_simps Inl_Inr_False\<close>)
  note run = run [unfolded eqTrueI [OF keys] ensureR_simps bindR_simps]
  have scheme: "url_scheme url = ''https''
      \<or> url_scheme url = ''http'' \<and> is_loopback_host (url_host_of url) \<and> allow_loopback_http policy"
    by (rule ccontr) (use run in \<open>simp only: ensureR_simps bindR_simps Inl_Inr_False\<close>)
  note run = run [unfolded eqTrueI [OF scheme] ensureR_simps bindR_simps]
  have t: "text = ?stored url" using run by (simp split: if_splits)
  have u: "cl_parse_url lib (trim raw) = Some url" "parts_secure policy url"
    using url user keys scheme unfolding parts_secure_def list_ex_iff case_prod_beta by blast+
  show "url_secure lib policy (trim raw)" unfolding url_secure_def using u by blast
  show "url_normal lib raw text" unfolding url_normal_def by (rule exI [of _ url]) (simp only: u(1) t)
  let ?v = "if url_path url = ''/'' then url else cl_set_path lib (trim_slashes (url_path url)) url"
  assume laws: "url_laws lib"
  have "url_scheme url \<in> {''http'', ''https''}" "url_fragment url = None" using scheme user by auto
  note laws = laws [unfolded url_laws_def, rule_format, OF conjI [OF u(1) conjI [OF this]]]
  have "parts_secure policy ?v"
    using u(2) set_path_secure [OF conjunct1 [OF laws, rule_format] u(2)] by simp
  moreover have "?v = url \<or> (\<exists>p. ?v = cl_set_path lib p url)" by auto
  then obtain w where "cl_parse_url lib (trim_slashes (cl_url_text lib ?v)) = Some w" "same_origin ?v w"
    using conjunct2 [OF laws, rule_format, of ?v] by blast
  ultimately show "url_secure lib policy text"
    unfolding url_secure_def t using same_origin_secure [of ?v w policy] by blast
qed

definition credential_valid :: "'k channel_spec \<Rightarrow> bool" where
  "credential_valid spec \<longleftrightarrow>
     (case ch_credential spec of
        SecretCredential r \<Rightarrow>
          secret_id r \<noteq> [] \<and> length (secret_id r) \<le> MAX_SECRET_ID_BYTES \<and> list_all name_char (secret_id r)
      | NoCredential \<Rightarrow> allow_unauthenticated (ch_transport_policy spec))"

definition channel_normal :: "'k channel_lib \<Rightarrow> 'k channel_spec \<Rightarrow> bool" where
  "channel_normal lib spec \<longleftrightarrow>
     supports_operation_versions (ch_taxonomy_version spec) (ch_decoder_version spec) \<and> credential_valid spec
     \<and> operations_normal lib (ch_operation_keys spec)
     \<and> length (ch_model_catalogs spec) \<le> 64 \<and> distinct (map mc_operation_key (ch_model_catalogs spec))
     \<and> (\<forall>c \<in> set (ch_model_catalogs spec). catalog_normal (ch_operation_keys spec) c)
     \<and> length (ch_capabilities spec) \<le> 128 \<and> distinct (ch_capabilities spec)
     \<and> (\<forall>c \<in> set (ch_capabilities spec). capability_normal (ch_operation_keys spec) c)"

definition channel_lists :: "'k channel_lib \<Rightarrow> 'k channel_spec \<Rightarrow> string + 'k list \<times> 'k model_catalog list \<times> 'k channel_capability list" where
  "channel_lists lib spec =
     bindR (normalize_operations lib (ch_operation_keys spec)) (\<lambda>ks.
     bindR (normalize_catalogs lib ks (ch_model_catalogs spec)) (\<lambda>cs.
     bindR (normalize_capabilities lib ks (ch_capabilities spec)) (\<lambda>caps. Inr (ks, cs, caps))))"

text \<open>
  C15: A normalised channel has a base URL that is the given one without slashes at its end, and the
  given one was secure: no user, password, fragment or query key that names a secret, and https or, if
  the policy allows it, http to a loopback host; the stored base URL is secure again when the parser of
  URLs keeps its laws.  It has a valid credential, the given operations, each supported and none
  twice, at most one catalog per operation with distinct models, and distinct declared capabilities;
  everything else is as given, and the lists of the normalised channel are their own normal form.
\<close>
theorem normalize_channel_sound:
  assumes "normalize_channel_revision lib spec = Inr spec'"
  shows "channel_normal lib spec'
    \<and> url_secure lib (ch_transport_policy spec) (trim (ch_base_url spec)) \<and> url_normal lib (ch_base_url spec) (ch_base_url spec')
    \<and> (url_laws lib \<longrightarrow> url_secure lib (ch_transport_policy spec') (ch_base_url spec'))
    \<and> set (ch_operation_keys spec') = set (ch_operation_keys spec)
    \<and> spec' = spec\<lparr>ch_base_url := ch_base_url spec', ch_operation_keys := ch_operation_keys spec',
        ch_model_catalogs := ch_model_catalogs spec', ch_capabilities := ch_capabilities spec'\<rparr>
    \<and> channel_lists lib spec' = Inr (ch_operation_keys spec', ch_model_catalogs spec', ch_capabilities spec')"
proof -
  obtain url ks cs caps where
      v: "supports_operation_versions (ch_taxonomy_version spec) (ch_decoder_version spec)" and
      u: "normalize_base_url lib (ch_base_url spec) (ch_transport_policy spec) = Inr url" and
      c: "validate_credential spec = Inr ()" and
      k: "normalize_operations lib (ch_operation_keys spec) = Inr ks" and
      m: "normalize_catalogs lib ks (ch_model_catalogs spec) = Inr cs" and
      p: "normalize_capabilities lib ks (ch_capabilities spec) = Inr caps" and
      s: "spec' = spec\<lparr>ch_base_url := url, ch_operation_keys := ks, ch_model_catalogs := cs, ch_capabilities := caps\<rparr>"
    using assms unfolding normalize_channel_revision_def bindR_eq_Inr by auto
  note k' = normalize_operations_normal [OF k]
  have "inj_on (catalog_code lib) (set ks)"
  proof (rule inj_onI)
    fix x y assume xy: "x \<in> set ks" "y \<in> set ks" "catalog_code lib x = catalog_code lib y"
    obtain keyed where "mapR (\<lambda>k. bindR (operation_sort_key lib k) (\<lambda>s. Inr (s, k))) ks = Inr keyed"
      using k'(3) by (auto simp: normalize_operations_def bindR_eq_Inr Let_def)
    then have "\<exists>s. operation_sort_key lib z = Inr s" if "z \<in> set ks" for z
      using that keyed_elements by fastforce
    then obtain s t where "operation_sort_key lib x = Inr s" "operation_sort_key lib y = Inr t" using xy(1,2) by metis
    then have "operation_sort_key lib x = operation_sort_key lib y" using xy(3) by (simp add: catalog_code_def)
    then show "x = y" using k'(4) xy(1,2) by (simp add: inj_on_def)
  qed
  note m' = normalize_catalogs_normal [OF m this]
  note p' = normalize_capabilities_normal [OF p]
  note u' = normalize_base_url_Inr [OF u]
  moreover have "credential_valid spec"
    using c by (auto simp: validate_credential_def credential_valid_def validate_secret_ref_def bindR_eq_Inr
        split: channel_credential.splits)
  moreover have "credential_valid spec' = credential_valid spec" by (simp add: s credential_valid_def split: channel_credential.split)
  ultimately show ?thesis
    using v k' m' p' by (simp add: s channel_normal_def channel_lists_def)
qed

text \<open>A channel with its lists out of order.\<close>

definition pair_lib :: "bool channel_lib" where
  "pair_lib =
     \<lparr>cl_keys = \<lparr>kl_operation = (\<lambda>b. if b then CreateImage else GenerateContent),
        kl_kind = (\<lambda>b. if b then ProviderKind OpenAiProvider else ContentGeneration OpenAiResponses),
        kl_group = (\<lambda>b. if b then ImagesGroup else OtherGroup), kl_consistent = (\<lambda>_. True), kl_family = (\<lambda>_. OpenAiProvider),
        kl_json = JBool\<rparr>,
      cl_parse_url = (\<lambda>s. if take 8 s = ''https://'' then Some
        \<lparr>url_username = [], url_password = None, url_fragment = None, url_query = [], url_host_of = Some (DomainHost ''h''),
         url_scheme = ''https'', url_path = drop 9 s\<rparr> else None),
      cl_set_path = (\<lambda>p u. u\<lparr>url_path := p\<rparr>), cl_url_text = (\<lambda>u. ''https://h'' @ url_path u), cl_serde = simple_serde\<rparr>"

definition pair_model :: "string \<Rightarrow> channel_model" where
  "pair_model i =
     \<lparr>cm_id = i, cm_name = Some '' '', cm_context_window = None, cm_max_output_tokens = None,
      cm_capabilities = \<lparr>cap_streaming = None, cap_tool_calling = None, cap_structured_output = None, cap_vision_input = None\<rparr>\<rparr>"

definition pair_spec :: "bool channel_spec" where
  "pair_spec =
     \<lparr>ch_taxonomy_version = 1, ch_decoder_version = 1, ch_base_url = '' https://h/v1/ '',
      ch_transport_policy = \<lparr>allow_loopback_http = False, allow_unauthenticated = True\<rparr>, ch_credential = NoCredential,
      ch_operation_keys = [True, False],
      ch_model_catalogs =
        [\<lparr>mc_operation_key = True, mc_policy = Allowlist, mc_models = [pair_model ''z'', pair_model '' a '']\<rparr>,
         \<lparr>mc_operation_key = False, mc_policy = OpenCatalog, mc_models = []\<rparr>],
      ch_capabilities = [ToolBasedCompact True '' x'', HostedToolCapability False ''web'']\<rparr>"

lemma pair_spec_url: "ch_base_url pair_spec = '' https://h/v1/ ''"
  by (simp add: pair_spec_def)

definition pair_normal :: "bool channel_spec" where
  "pair_normal = projr (normalize_channel_revision pair_lib pair_spec)"

lemma pair_normalizes: "normalize_channel_revision pair_lib pair_spec = Inr pair_normal"
proof -
  have "\<not> isl (normalize_channel_revision pair_lib pair_spec)" by code_simp
  then show ?thesis unfolding pair_normal_def by (cases "normalize_channel_revision pair_lib pair_spec") auto
qed

lemma pair_normal_parts:
  "ch_base_url pair_normal = ''https://h/v1''" "ch_operation_keys pair_normal = [False, True]"
  "map (map cm_id \<circ> mc_models) (ch_model_catalogs pair_normal) = [[], [''a'', ''z'']]"
  by code_simp+

lemma pair_normal_policy: "ch_transport_policy pair_normal = \<lparr>allow_loopback_http = False, allow_unauthenticated = True\<rparr>"
  by code_simp

lemma trim_slashes_origin: "trim_slashes (''https://h'' @ p) = ''https://h'' @ trim_slashes p"
proof -
  let ?P = "\<lambda>c. c = CHR ''/''"
  have "dropWhile ?P (rev p @ rev ''https://h'') = dropWhile ?P (rev p) @ rev ''https://h''"
  proof (cases "\<forall>c \<in> set p. c = CHR ''/''")
    case True
    then have "dropWhile ?P (rev p) = []" by (simp add: dropWhile_eq_Nil_conv)
    then show ?thesis using True by (simp add: dropWhile_append)
  next
    case False
    then show ?thesis by (auto simp: dropWhile_append dropWhile_eq_Nil_conv)
  qed
  then show ?thesis by (simp add: trim_slashes_def)
qed

lemma pair_url_laws: "url_laws pair_lib"
  by (auto simp: url_laws_def pair_lib_def same_origin_def trim_slashes_origin [simplified] split: if_splits)

theorem normalize_channel_sound_witness:
  "channel_normal pair_lib pair_normal \<and> url_normal pair_lib '' https://h/v1/ '' ''https://h/v1''
   \<and> url_secure pair_lib \<lparr>allow_loopback_http = False, allow_unauthenticated = True\<rparr> ''https://h/v1''"
  using normalize_channel_sound [OF pair_normalizes] pair_url_laws pair_normal_parts(1)
  by (metis (no_types, lifting) pair_normal_policy pair_spec_url)

text \<open>
  A service operation is prepared only for a model of the revision: the pin names the revision,
  one of its declared operations, of the wanted group, and its versions, and the model is in the
  catalog of that operation when the catalog is an allowlist.
\<close>
theorem service_pin_allowed:
  assumes "resolve_service_operation lib revision model g = Inr pin"
  shows "pin_allowed revision pin \<and> pin_model_id pin = mr_model_id model \<and> supported_for_group lib (pin_operation_key pin) g"
  by (rule resolve_service_operation_allowed [OF assms])

definition pair_revision :: "bool channel_revision" where
  "pair_revision =
     \<lparr>cr_id = ''r1'', cr_channel_id = ''c'', cr_revision_no = 1, cr_spec = pair_normal, cr_content_hash = ''h'', cr_created_at = 0\<rparr>"

definition image_ref :: "bool model_ref" where
  "image_ref = \<lparr>mr_channel_id = ''c'', mr_model_id = ''a'', mr_model_name = None, mr_operation_key = True\<rparr>"

lemma image_resolves: "\<not> isl (resolve_service_operation (cl_keys pair_lib) pair_revision image_ref ImagesGroup)"
  by code_simp

theorem service_pin_allowed_witness:
  "\<exists>pin. resolve_service_operation (cl_keys pair_lib) pair_revision image_ref ImagesGroup = Inr pin
     \<and> pin_allowed pair_revision pin \<and> pin_model_id pin = ''a''"
proof (cases "resolve_service_operation (cl_keys pair_lib) pair_revision image_ref ImagesGroup")
  case (Inr pin)
  with service_pin_allowed [OF Inr] show ?thesis by (simp add: image_ref_def)
qed (use image_resolves in simp)

end
