(* ===== verification/Context_Merge.thy ===== *)
theory Context_Merge
  imports State_Patch
begin

text \<open>
  \<open>crates/core/src/context_merge.rs\<close>: the three-way merge of two branches of a working
  context over their common base.  The accumulated vector of conflicts is an argument and a
  result; the union of the keys in a \<open>BTreeSet\<close> is a sorted list.
\<close>

section \<open>The code\<close>

record merge_conflict =
  mc_path :: string
  mc_base :: "json option"
  mc_source :: "json option"
  mc_target :: "json option"

record three_way_analysis =
  merged :: json
  conflicts :: "merge_conflict list"

definition replace_char :: "char \<Rightarrow> string \<Rightarrow> string \<Rightarrow> string" where
  "replace_char z by s = concat (map (\<lambda>c. if c = z then by else [c]) s)"

definition escape :: "string \<Rightarrow> string" where
  "escape value = replace_char (CHR ''/'') ''~1'' (replace_char (CHR ''~'') ''~0'' value)"

definition union_keys :: "(string \<times> json) list \<Rightarrow> (string \<times> json) list \<Rightarrow> (string \<times> json) list \<Rightarrow> string list" where
  "union_keys b s t = om_keys (om_of_list (map (\<lambda>k. (k, ())) (om_keys b @ om_keys s @ om_keys t)))"

definition child_path :: "string \<Rightarrow> string \<Rightarrow> string" where
  "child_path path key = path @ ''/'' @ escape key"

abbreviation osize :: "json option \<Rightarrow> nat" where
  "osize x \<equiv> (case x of None \<Rightarrow> 0 | Some v \<Rightarrow> size v)"

lemma om_get_size: "osize (om_get m k) \<le> size_list (size_prod (\<lambda>_. 0) size) m"
proof (cases "om_get m k")
  case (Some v)
  then have "(k, v) \<in> set m" by (rule om_get_in_set)
  then show ?thesis
    using Some by (auto intro!: size_list_estimation' [of "(k, v)"])
qed simp

function merge_value ::
    "string \<Rightarrow> json option \<Rightarrow> json option \<Rightarrow> json option \<Rightarrow> merge_conflict list \<Rightarrow> json option \<times> merge_conflict list"
  and merge_entries ::
    "string \<Rightarrow> (string \<times> json) list \<Rightarrow> (string \<times> json) list \<Rightarrow> (string \<times> json) list \<Rightarrow> string list
       \<Rightarrow> (string \<times> json) list \<Rightarrow> merge_conflict list \<Rightarrow> (string \<times> json) list \<times> merge_conflict list" where
  "merge_value path base source target cs =
     (if source = target then (source, cs)
      else if source = base then (target, cs)
      else if target = base then (source, cs)
      else case (base, source, target) of
        (Some (JObject b), Some (JObject s), Some (JObject t)) \<Rightarrow>
          (case merge_entries path b s t (union_keys b s t) [] cs of (m, cs) \<Rightarrow> (Some (JObject m), cs))
      | _ \<Rightarrow> (target, cs @ [\<lparr>mc_path = path, mc_base = base, mc_source = source, mc_target = target\<rparr>]))"
| "merge_entries path b s t [] m cs = (m, cs)"
| "merge_entries path b s t (k # ks) m cs =
     (case merge_value (child_path path k) (om_get b k) (om_get s k) (om_get t k) cs of
        (Some v, cs) \<Rightarrow> merge_entries path b s t ks (om_insert k v m) cs
      | (None, cs) \<Rightarrow> merge_entries path b s t ks m cs)"
  by pat_completeness auto
termination
proof (relation "measures
    [\<lambda>x. case x of Inl (_, b, s, t, _) \<Rightarrow> osize b + osize s + osize t
       | Inr (_, b, s, t, _) \<Rightarrow> size (JObject b) + size (JObject s) + size (JObject t),
     \<lambda>x. case x of Inl _ \<Rightarrow> 1 | Inr _ \<Rightarrow> 0,
     \<lambda>x. case x of Inl _ \<Rightarrow> 0 | Inr (_, _, _, _, ks, _) \<Rightarrow> length ks]", goal_cases)
  case (3 path b s t k ks m cs)
  show ?case
    using om_get_size [of b k] om_get_size [of s k] om_get_size [of t k] by simp
qed auto

declare merge_value.simps [simp del]

definition analyze_three_way :: "json \<Rightarrow> json \<Rightarrow> json \<Rightarrow> three_way_analysis" where
  "analyze_three_way base source target =
     (case merge_value [] (Some base) (Some source) (Some target) [] of
        (m, cs) \<Rightarrow> \<lparr>merged = (case m of None \<Rightarrow> JNull | Some v \<Rightarrow> v), conflicts = cs\<rparr>)"

section \<open>Paths\<close>

lemma escape_escape_token: "escape s = escape_token s"
proof (induction s)
  case (Cons c s)
  have "escape (c # s) = (if c = CHR ''~'' then ''~0'' else if c = CHR ''/'' then ''~1'' else [c]) @ escape s"
    by (simp add: escape_def replace_char_def)
  then show ?case by (simp add: Cons)
qed (simp add: escape_def replace_char_def)

lemma child_path_pointer: "child_path (pointer_of ts) k = pointer_of (ts @ [k])"
  by (simp add: child_path_def pointer_of_def escape_escape_token)

text \<open>The value at a path of object members, if there is one.\<close>

fun member_at :: "json option \<Rightarrow> string list \<Rightarrow> json option" where
  "member_at v [] = v"
| "member_at (Some (JObject m)) (k # ks) = member_at (om_get m k) ks"
| "member_at v (k # ks) = None"

fun is_object :: "json option \<Rightarrow> bool" where
  "is_object (Some (JObject _)) = True"
| "is_object _ = False"

lemma is_object_iff: "is_object v \<longleftrightarrow> (\<exists>m. v = Some (JObject m))"
  by (cases v rule: is_object.cases) auto

lemma member_at_not_object: "\<not> is_object v \<Longrightarrow> member_at v (k # ks) = None"
  by (cases v rule: is_object.cases) auto

section \<open>The accumulators\<close>

abbreviation value_of :: "string \<Rightarrow> json option \<Rightarrow> json option \<Rightarrow> json option \<Rightarrow> json option" where
  "value_of path b s t \<equiv> fst (merge_value path b s t [])"

abbreviation clashes_of :: "string \<Rightarrow> json option \<Rightarrow> json option \<Rightarrow> json option \<Rightarrow> merge_conflict list" where
  "clashes_of path b s t \<equiv> snd (merge_value path b s t [])"

lemma merge_value_leaf:
  "\<not> (is_object b \<and> is_object s \<and> is_object t) \<Longrightarrow> merge_value path b s t cs =
     (if s = t then (s, cs) else if s = b then (t, cs) else if t = b then (s, cs)
      else (t, cs @ [\<lparr>mc_path = path, mc_base = b, mc_source = s, mc_target = t\<rparr>]))"
  by (subst merge_value.simps) (auto split: option.splits json.splits)

lemma merge_value_same:
  "s = t \<Longrightarrow> merge_value path b s t cs = (s, cs)"
  "s = b \<Longrightarrow> merge_value path b s t cs = (t, cs)"
  "t = b \<Longrightarrow> merge_value path b s t cs = (s, cs)"
  by (simp_all add: merge_value.simps)

lemma merge_acc_ex:
  "\<exists>v C. \<forall>cs'. merge_value path b s t cs' = (v, cs' @ C)"
  "\<exists>m' C. \<forall>cs'. merge_entries path ob os ot ks m cs' = (m', cs' @ C)"
proof (induction path b s t "cs :: merge_conflict list" and path ob os ot ks m "cs :: merge_conflict list"
    rule: merge_value_merge_entries.induct)
  case (1 path b s t cs)
  show ?case
  proof (cases "s = t \<or> s = b \<or> t = b \<or> \<not> (is_object b \<and> is_object s \<and> is_object t)")
    case True
    then show ?thesis
      using merge_value_leaf [of b s t path] merge_value_same [of s t path b] merge_value_same [of s b path t]
        merge_value_same [of t b path s] by (cases "s = t"; cases "s = b"; cases "t = b") auto
  next
    case False
    then obtain b' s' t' where o: "b = Some (JObject b')" "s = Some (JObject s')" "t = Some (JObject t')"
      by (auto simp: is_object_iff)
    then obtain m' C where "\<forall>cs'. merge_entries path b' s' t' (union_keys b' s' t') [] cs' = (m', cs' @ C)"
      using 1 [OF _ _ _ refl o(1) refl refl o(2) refl o(3) refl] False by blast
    then have "merge_value path b s t cs' = (Some (JObject m'), cs' @ C)" for cs'
      using False o by (subst merge_value.simps) simp
    then show ?thesis by blast
  qed
next
  case (3 path b s t k ks m cs)
  obtain v C where v: "\<forall>cs'. merge_value (child_path path k) (om_get b k) (om_get s k) (om_get t k) cs' = (v, cs' @ C)"
    using 3(1) by blast
  show ?case
  proof (cases v)
    case None
    obtain m' D where "\<forall>cs'. merge_entries path b s t ks m cs' = (m', cs' @ D)"
      using 3(2) [of v "cs @ C"] v None by (simp, blast)
    then show ?thesis using v None by auto
  next
    case (Some w)
    obtain m' D where "\<forall>cs'. merge_entries path b s t ks (om_insert k w m) cs' = (m', cs' @ D)"
      using 3(3) [of v "cs @ C" w] v Some by (simp, blast)
    then show ?thesis using v Some by auto
  qed
qed auto

lemma merge_acc:
  "merge_value path b s t cs = (value_of path b s t, cs @ clashes_of path b s t)"
  using merge_acc_ex(1) [of path b s t] by (metis append_Nil fst_conv snd_conv)

section \<open>One level of the merge\<close>

abbreviation child_value :: "string \<Rightarrow> (string \<times> json) list \<Rightarrow> (string \<times> json) list \<Rightarrow> (string \<times> json) list \<Rightarrow> string \<Rightarrow> json option" where
  "child_value path b s t k \<equiv> value_of (child_path path k) (om_get b k) (om_get s k) (om_get t k)"

abbreviation child_clashes :: "string \<Rightarrow> (string \<times> json) list \<Rightarrow> (string \<times> json) list \<Rightarrow> (string \<times> json) list \<Rightarrow> string \<Rightarrow> merge_conflict list" where
  "child_clashes path b s t k \<equiv> clashes_of (child_path path k) (om_get b k) (om_get s k) (om_get t k)"

lemma merge_entries_result:
  assumes "distinct ks" "\<And>k. k \<in> set ks \<Longrightarrow> om_get m k = None" "om_wf m"
  shows "om_wf (fst (merge_entries path b s t ks m cs))
    \<and> (\<forall>k. om_get (fst (merge_entries path b s t ks m cs)) k =
        (if k \<in> set ks then child_value path b s t k else om_get m k))
    \<and> snd (merge_entries path b s t ks m cs) = cs @ concat (map (child_clashes path b s t) ks)"
  using assms
proof (induction ks arbitrary: m cs)
  case (Cons k ks)
  note mv = merge_acc [of "child_path path k" "om_get b k" "om_get s k" "om_get t k" cs]
  show ?case
  proof (cases "child_value path b s t k")
    case None
    then have "merge_entries path b s t (k # ks) m cs = merge_entries path b s t ks m (cs @ child_clashes path b s t k)"
      by (simp add: mv)
    then show ?thesis using Cons.IH [of m "cs @ child_clashes path b s t k"] Cons.prems None by auto
  next
    case (Some v)
    then have "merge_entries path b s t (k # ks) m cs =
        merge_entries path b s t ks (om_insert k v m) (cs @ child_clashes path b s t k)"
      by (simp add: mv)
    moreover have "om_get (om_insert k v m) l = None" if "l \<in> set ks" for l
      using that Cons.prems(1,2) by (auto simp: om.get_put)
    ultimately show ?thesis
      using Cons.IH [of "om_insert k v m" "cs @ child_clashes path b s t k"] Cons.prems Some
      by (auto simp: om.get_put om.wf_put)
  qed
qed simp

lemma union_keys_props:
  "distinct (union_keys b s t)"
  "set (union_keys b s t) = {k. om_get b k \<noteq> None \<or> om_get s k \<noteq> None \<or> om_get t k \<noteq> None}"
proof -
  show "distinct (union_keys b s t)"
    unfolding union_keys_def om_keys_def by (rule om_wf_distinct) simp
  have "k \<in> set (union_keys b s t) \<longleftrightarrow> k \<in> set (om_keys b @ om_keys s @ om_keys t)" for k
    unfolding union_keys_def om.keys_get om_get_of_list
    by (auto simp: map_of_eq_None_iff image_image simp flip: rev_map)
  then show "set (union_keys b s t) = {k. om_get b k \<noteq> None \<or> om_get s k \<noteq> None \<or> om_get t k \<noteq> None}"
    by (auto simp: om.keys_get)
qed

lemma merge_value_None: "value_of path None None None = None"
  by (simp add: merge_value.simps)

text \<open>Three pairwise different objects are merged member by member.\<close>

lemma merge_objects:
  assumes "s \<noteq> t" "s \<noteq> b" "t \<noteq> b"
  shows "\<exists>m. value_of path (Some (JObject b)) (Some (JObject s)) (Some (JObject t)) = Some (JObject m)
    \<and> om_wf m \<and> (\<forall>k. om_get m k = child_value path b s t k)"
    and "clashes_of path (Some (JObject b)) (Some (JObject s)) (Some (JObject t))
      = concat (map (child_clashes path b s t) (union_keys b s t))"
proof -
  have r: "om_wf (fst (merge_entries path b s t (union_keys b s t) [] []))
    \<and> (\<forall>k. om_get (fst (merge_entries path b s t (union_keys b s t) [] [])) k =
        (if k \<in> set (union_keys b s t) then child_value path b s t k else None))
    \<and> snd (merge_entries path b s t (union_keys b s t) [] []) = concat (map (child_clashes path b s t) (union_keys b s t))"
    using merge_entries_result [OF union_keys_props(1), of b s t "[]" path b s t "[]"]
    by (simp add: om_get_def om_wf_def)
  have eq: "merge_value path (Some (JObject b)) (Some (JObject s)) (Some (JObject t)) [] =
      (Some (JObject (fst (merge_entries path b s t (union_keys b s t) [] []))),
       snd (merge_entries path b s t (union_keys b s t) [] []))"
    using assms by (simp add: merge_value.simps split: prod.splits)
  show "\<exists>m. value_of path (Some (JObject b)) (Some (JObject s)) (Some (JObject t)) = Some (JObject m)
    \<and> om_wf m \<and> (\<forall>k. om_get m k = child_value path b s t k)"
    using r merge_value_None unfolding eq union_keys_props(2) by auto
  show "clashes_of path (Some (JObject b)) (Some (JObject s)) (Some (JObject t))
      = concat (map (child_clashes path b s t) (union_keys b s t))"
    using r unfolding eq by simp
qed

section \<open>What the merge promises\<close>

text \<open>A clash: three different values that are not three objects.\<close>

definition clash :: "json option \<Rightarrow> json option \<Rightarrow> json option \<Rightarrow> bool" where
  "clash b s t \<longleftrightarrow> s \<noteq> t \<and> s \<noteq> b \<and> t \<noteq> b \<and> \<not> (is_object b \<and> is_object s \<and> is_object t)"

text \<open>A clash at a path whose proper prefixes lead through objects in all three documents.\<close>

definition clash_at :: "string list \<Rightarrow> json option \<Rightarrow> json option \<Rightarrow> json option \<Rightarrow> bool" where
  "clash_at ts b s t \<longleftrightarrow> clash (member_at b ts) (member_at s ts) (member_at t ts)
     \<and> (\<forall>n < length ts. is_object (member_at b (take n ts)) \<and> is_object (member_at s (take n ts))
          \<and> is_object (member_at t (take n ts)))"

lemma clash_at_Nil: "clash_at [] b s t = clash b s t"
  by (simp add: clash_at_def)

lemma clash_at_Cons: "clash_at (k # ts) b s t \<longleftrightarrow>
    (\<exists>b' s' t'. b = Some (JObject b') \<and> s = Some (JObject s') \<and> t = Some (JObject t')
      \<and> clash_at ts (om_get b' k) (om_get s' k) (om_get t' k))"
proof (cases "is_object b \<and> is_object s \<and> is_object t")
  case True
  then show ?thesis by (auto simp: is_object_iff clash_at_def All_less_Suc2)
next
  case False
  then show ?thesis by (auto simp: is_object_iff clash_at_def All_less_Suc2)
qed

lemma no_clash: "\<not> clash_at ts b s s" "\<not> clash_at ts b b t" "\<not> clash_at ts b s b"
  by (simp_all add: clash_at_def clash_def)

lemma value_cases:
  obtains "s = t" | "s = b" | "t = b" | "clash b s t"
    | b' s' t' where "b = Some (JObject b')" "s = Some (JObject s')" "t = Some (JObject t')"
      "s' \<noteq> t'" "s' \<noteq> b'" "t' \<noteq> b'"
  by (auto simp: clash_def is_object_iff)

definition conflict_of :: "string list \<Rightarrow> json option \<Rightarrow> json option \<Rightarrow> json option \<Rightarrow> string list \<Rightarrow> merge_conflict" where
  "conflict_of us b s t ts = \<lparr>mc_path = pointer_of (us @ ts), mc_base = member_at b ts,
     mc_source = member_at s ts, mc_target = member_at t ts\<rparr>"

lemma clashes_complete:
  "clash_at ts b s t \<Longrightarrow> conflict_of us b s t ts \<in> set (clashes_of (pointer_of us) b s t)"
proof (induction ts arbitrary: us b s t)
  case Nil
  then show ?case
    by (auto simp: clash_at_Nil clash_def merge_value_leaf conflict_of_def)
next
  case (Cons k ts)
  then obtain b' s' t' where o: "b = Some (JObject b')" "s = Some (JObject s')" "t = Some (JObject t')"
    and c: "clash_at ts (om_get b' k) (om_get s' k) (om_get t' k)" by (auto simp: clash_at_Cons)
  then have ne: "s' \<noteq> t'" "s' \<noteq> b'" "t' \<noteq> b'" using no_clash by auto
  have "conflict_of (us @ [k]) (om_get b' k) (om_get s' k) (om_get t' k) ts \<in> set (child_clashes (pointer_of us) b' s' t' k)"
    using Cons.IH [OF c] by (simp add: child_path_pointer)
  moreover have "k \<in> set (union_keys b' s' t')"
    using c no_clash by (auto simp: union_keys_props)
  ultimately show ?case
    unfolding o merge_objects(2) [OF ne] by (auto simp: conflict_of_def)
qed

lemma clashes_sound:
  "c \<in> set (clashes_of (pointer_of us) b s t) \<Longrightarrow> \<exists>ts. clash_at ts b s t \<and> c = conflict_of us b s t ts"
proof (induction "osize b + osize s + osize t" arbitrary: us b s t rule: less_induct)
  case less
  show ?case
  proof (cases rule: value_cases [where s = s and t = t and b = b])
    case 4
    then have "c = conflict_of us b s t []"
      using less.prems by (auto simp: clash_def merge_value_leaf conflict_of_def)
    with 4 show ?thesis using clash_at_Nil by blast
  next
    case (5 b' s' t')
    obtain k where k: "c \<in> set (child_clashes (pointer_of us) b' s' t' k)"
      using less.prems unfolding 5(1-3) merge_objects(2) [OF 5(4-6)] by auto
    have "osize (om_get b' k) + osize (om_get s' k) + osize (om_get t' k) < osize b + osize s + osize t"
      using om_get_size [of b' k] om_get_size [of s' k] om_get_size [of t' k] 5 by simp
    then obtain ts where "clash_at ts (om_get b' k) (om_get s' k) (om_get t' k)"
      "c = conflict_of (us @ [k]) (om_get b' k) (om_get s' k) (om_get t' k) ts"
      using less.hyps k unfolding child_path_pointer by blast
    then show ?thesis
      using 5 by (intro exI [of _ "k # ts"]) (auto simp: clash_at_Cons conflict_of_def)
  qed (use less.prems in \<open>auto simp: merge_value_same\<close>)
qed

lemma merge_path:
  "\<nexists>ts. clash_at ts b s t \<Longrightarrow>
    (member_at s ps = member_at b ps \<longrightarrow> member_at (value_of path b s t) ps = member_at t ps)
    \<and> (member_at t ps = member_at b ps \<longrightarrow> member_at (value_of path b s t) ps = member_at s ps)
    \<and> (member_at s ps = member_at t ps \<longrightarrow> member_at (value_of path b s t) ps = member_at s ps)"
proof (induction ps arbitrary: path b s t)
  case Nil
  then show ?case by (auto simp: merge_value_same)
next
  case (Cons k ps)
  show ?case
  proof (cases rule: value_cases [where s = s and t = t and b = b])
    case 4
    then show ?thesis using Cons.prems clash_at_Nil by blast
  next
    case (5 b' s' t')
    obtain m where m: "value_of path b s t = Some (JObject m)" "om_get m k = child_value path b' s' t' k"
      using merge_objects(1) [OF 5(4-6), of path] unfolding 5(1-3) by blast
    have "\<nexists>ts. clash_at ts (om_get b' k) (om_get s' k) (om_get t' k)"
      using Cons.prems 5 by (auto simp: clash_at_Cons dest: spec [of _ "k # _"])
    then show ?thesis using Cons.IH m 5 by simp
  qed (auto simp: merge_value_same)
qed

lemma conflicts_analyze: "conflicts (analyze_three_way b s t) = clashes_of [] (Some b) (Some s) (Some t)"
  by (simp add: analyze_three_way_def split: prod.splits)

lemma value_of_Some: "\<exists>v. value_of path (Some b) (Some s) (Some t) = Some v"
proof (cases rule: value_cases [where s = "Some s" and t = "Some t" and b = "Some b"])
  case 4
  then show ?thesis by (auto simp: clash_def merge_value_leaf)
next
  case (5 b' s' t')
  then show ?thesis using merge_objects(1) [OF 5(4-6), of path] by auto
qed (auto simp: merge_value_same)

lemma merged_analyze: "Some (merged (analyze_three_way b s t)) = value_of [] (Some b) (Some s) (Some t)"
  using value_of_Some [of "[]" b s t] by (auto simp: analyze_three_way_def split: prod.splits)

text \<open>
  C37: the merge reports exactly the clashes: the paths at which base, source and target are
  three different values that are not all objects, and whose proper prefixes are objects in
  all three documents, each with the three values found there.
\<close>
theorem merge_conflicts_exact:
  "c \<in> set (conflicts (analyze_three_way b s t)) \<longleftrightarrow>
    (\<exists>ts. clash_at ts (Some b) (Some s) (Some t) \<and>
      c = \<lparr>mc_path = pointer_of ts, mc_base = member_at (Some b) ts, mc_source = member_at (Some s) ts,
           mc_target = member_at (Some t) ts\<rparr>)"
  using clashes_sound [of c "[]" "Some b" "Some s" "Some t"] clashes_complete [of _ "Some b" "Some s" "Some t" "[]"]
  by (auto simp: conflicts_analyze conflict_of_def pointer_of_def)

text \<open>
  C38: A merge without conflicts loses no change: at every path of members, what only the
  source changed is the source's, what only the target changed is the target's (removals
  included), and what both changed alike is theirs.
\<close>
theorem merge_keeps_changes:
  assumes "conflicts (analyze_three_way b s t) = []"
  shows "(member_at (Some s) ps = member_at (Some b) ps \<longrightarrow>
       member_at (Some (merged (analyze_three_way b s t))) ps = member_at (Some t) ps)
    \<and> (member_at (Some t) ps = member_at (Some b) ps \<longrightarrow>
       member_at (Some (merged (analyze_three_way b s t))) ps = member_at (Some s) ps)
    \<and> (member_at (Some s) ps = member_at (Some t) ps \<longrightarrow>
       member_at (Some (merged (analyze_three_way b s t))) ps = member_at (Some s) ps)"
proof -
  have "\<nexists>ts. clash_at ts (Some b) (Some s) (Some t)"
    using assms clashes_complete [of _ "Some b" "Some s" "Some t" "[]"]
    by (auto simp: conflicts_analyze pointer_of_def)
  then show ?thesis unfolding merged_analyze by (rule merge_path)
qed

lemma clash_sym: "clash b s t \<longleftrightarrow> clash b t s"
  by (auto simp: clash_def)

lemma clash_at_sym: "clash_at ts b s t \<longleftrightarrow> clash_at ts b t s"
  by (auto simp: clash_at_def clash_sym)

lemma value_sym:
  "\<nexists>ts. clash_at ts b s t \<Longrightarrow> value_of path b s t = value_of path' b t s"
proof (induction "osize b + osize s + osize t" arbitrary: path path' b s t rule: less_induct)
  case less
  show ?case
  proof (cases rule: value_cases [where s = s and t = t and b = b])
    case 4
    then show ?thesis using less.prems clash_at_Nil by blast
  next
    case (5 b' s' t')
    obtain m where m: "value_of path b s t = Some (JObject m)" "om_wf m" "\<forall>k. om_get m k = child_value path b' s' t' k"
      using merge_objects(1) [OF 5(4-6), of path] unfolding 5(1-3) by blast
    obtain m' where m': "value_of path' b t s = Some (JObject m')" "om_wf m'"
      "\<forall>k. om_get m' k = child_value path' b' t' s' k"
      using merge_objects(1) [of t' s' b' path'] 5(4-6) unfolding 5(1-3) by metis
    have "om_get m k = om_get m' k" for k
    proof -
      have "osize (om_get b' k) + osize (om_get s' k) + osize (om_get t' k) < osize b + osize s + osize t"
        using om_get_size [of b' k] om_get_size [of s' k] om_get_size [of t' k] 5 by simp
      moreover have "\<nexists>ts. clash_at ts (om_get b' k) (om_get s' k) (om_get t' k)"
        using less.prems 5 by (auto simp: clash_at_Cons dest: spec [of _ "k # _"])
      ultimately show ?thesis using less.hyps m(3) m'(3) by simp
    qed
    then have "m = m'" using m(2) m'(2) om_ext by blast
    then show ?thesis using m m' by simp
  qed (simp_all add: merge_value_same)
qed

text \<open>
  The merge is symmetric: merging the target into the source reports the same paths with
  the sides exchanged, and without conflicts gives the same document.
\<close>
theorem merge_symmetric:
  "mc_path ` set (conflicts (analyze_three_way b s t)) = mc_path ` set (conflicts (analyze_three_way b t s))
   \<and> (conflicts (analyze_three_way b s t) = [] \<longrightarrow>
        conflicts (analyze_three_way b t s) = [] \<and> merged (analyze_three_way b t s) = merged (analyze_three_way b s t))"
proof -
  have paths: "mc_path ` set (conflicts (analyze_three_way b s t))
      = {pointer_of ts |ts. clash_at ts (Some b) (Some s) (Some t)}" for s t
    using clashes_sound [of _ "[]" "Some b" "Some s" "Some t"] clashes_complete [of _ "Some b" "Some s" "Some t" "[]"]
    by (auto simp: conflicts_analyze conflict_of_def pointer_of_def image_iff) (metis merge_conflict.select_convs(1))+
  have same: "mc_path ` set (conflicts (analyze_three_way b s t)) = mc_path ` set (conflicts (analyze_three_way b t s))"
    unfolding paths using clash_at_sym by blast
  have "merged (analyze_three_way b t s) = merged (analyze_three_way b s t)"
    if "conflicts (analyze_three_way b s t) = []"
  proof -
    have "\<nexists>ts. clash_at ts (Some b) (Some s) (Some t)" using paths [of s t] that by auto
    then have "value_of [] (Some b) (Some t) (Some s) = value_of [] (Some b) (Some s) (Some t)"
      using value_sym by metis
    then show ?thesis by (metis merged_analyze option.inject)
  qed
  then show ?thesis using same by auto
qed

definition merge_base :: json where
  "merge_base = JObject [(''a'', JNumber ''1''), (''b'', JObject [(''x'', JNull)])]"

definition merge_left :: json where
  "merge_left = JObject [(''a'', JNumber ''2''), (''b'', JObject [(''x'', JNull), (''y'', JNull)])]"

definition merge_right :: json where
  "merge_right = JObject [(''b'', JObject [(''x'', JBool True)])]"

definition merge_right_only :: json where
  "merge_right_only = JObject [(''a'', JNumber ''1''), (''b'', JObject [(''x'', JBool True)])]"

lemma merge_keeps_changes_witness:
  "member_at (Some (merged (analyze_three_way merge_base merge_left merge_right_only))) [''b'', ''x''] = Some (JBool True)
   \<and> member_at (Some (merged (analyze_three_way merge_base merge_left merge_right_only))) [''a''] = Some (JNumber ''2'')"
proof -
  have c: "conflicts (analyze_three_way merge_base merge_left merge_right_only) = []"
    by code_simp
  show ?thesis
    using merge_keeps_changes [OF c, of "[''b'', ''x'']"] merge_keeps_changes [OF c, of "[''a'']"]
    by (simp add: merge_base_def merge_left_def merge_right_only_def om_get_def)
qed

lemma merge_symmetric_witness:
  "merged (analyze_three_way merge_base merge_right_only merge_left)
     = merged (analyze_three_way merge_base merge_left merge_right_only)"
proof -
  have c: "conflicts (analyze_three_way merge_base merge_left merge_right_only) = []"
    by code_simp
  show ?thesis using merge_symmetric [of merge_base merge_left merge_right_only] c by simp
qed

end
