(* ===== verification/Append_Merge.thy ===== *)
theory Append_Merge
  imports Context_Merge Canonical "HOL-Library.Product_Lexorder" "HOL-Library.Multiset" "HOL-Library.Sublist"
begin

text \<open>
  \<open>crates/core/src/context_merge/append.rs\<close>: two branches that only appended to an array
  of their common base are merged element by element.  The canonical hash of a value is the
  function of \<open>Canonical\<close>, over the arguments \<open>sd\<close> and \<open>sha\<close>.
\<close>

section \<open>The code\<close>

record append_item =
  ai_path :: string
  ai_element_id :: string
  ai_value :: json
  ai_branch_id :: string
  ai_sequence_no :: int
  ai_operation_id :: string
  ai_operation_index :: nat

record append_array_merge =
  am_value :: json
  am_integrated_source :: "append_item list"

definition stable_key :: "append_item \<Rightarrow> string \<times> int \<times> string \<times> nat \<times> string" where
  "stable_key item = (ai_branch_id item, ai_sequence_no item, ai_operation_id item,
     ai_operation_index item, ai_element_id item)"

fun unique_loop :: "append_item list \<Rightarrow> (string, append_item) omap \<Rightarrow> (string, append_item) omap option" where
  "unique_loop [] unique = Some unique"
| "unique_loop (item # rest) unique =
     (case om_get unique (ai_element_id item) of
        Some existing \<Rightarrow> if ai_value existing \<noteq> ai_value item then None else unique_loop rest unique
      | None \<Rightarrow> unique_loop rest (om_insert (ai_element_id item) item unique))"

definition unique_for_path :: "string \<Rightarrow> append_item list \<Rightarrow> (string, append_item) omap option" where
  "unique_for_path path items = unique_loop (filter (\<lambda>i. ai_path i = path) items) []"

fun hash_counts ::
  "serde \<Rightarrow> (string \<Rightarrow> string) \<Rightarrow> json list \<Rightarrow> (string, nat) omap \<Rightarrow> (string, nat) omap option" where
  "hash_counts sd sha [] counts = Some counts"
| "hash_counts sd sha (v # vs) counts =
     (case canonical_hash sd sha v of Inl _ \<Rightarrow> None
      | Inr h \<Rightarrow> hash_counts sd sha vs
          (om_insert h ((case om_get counts h of None \<Rightarrow> 0 | Some n \<Rightarrow> n) + 1) counts))"

definition tail_matches :: "serde \<Rightarrow> (string \<Rightarrow> string) \<Rightarrow> json list \<Rightarrow> append_item list \<Rightarrow> bool option" where
  "tail_matches sd sha tail items =
     Option.bind (hash_counts sd sha (map ai_value items) []) (\<lambda>expected.
     Option.bind (hash_counts sd sha tail []) (\<lambda>actual. Some (actual = expected)))"

fun combine_loop ::
  "(string \<times> append_item) list \<Rightarrow> (string, append_item) omap \<Rightarrow> (string, append_item) omap option" where
  "combine_loop [] combined = Some combined"
| "combine_loop ((element_id, source_item) # rest) combined =
     (case om_get combined element_id of
        Some target_item \<Rightarrow>
          if ai_value target_item \<noteq> ai_value source_item then None
          else combine_loop rest
            (if stable_key source_item < stable_key target_item
             then om_insert element_id source_item combined else combined)
      | None \<Rightarrow> combine_loop rest (om_insert element_id source_item combined))"

definition integrated :: "(string, append_item) omap \<Rightarrow> (string, append_item) omap \<Rightarrow> append_item list" where
  "integrated source_items target_items =
     map snd (filter (\<lambda>(element_id, source_item).
       case om_get target_items element_id of None \<Rightarrow> True
       | Some target_item \<Rightarrow> stable_key source_item < stable_key target_item) source_items)"

fun merge_append_only_arrays ::
  "serde \<Rightarrow> (string \<Rightarrow> string) \<Rightarrow> string \<Rightarrow> json \<Rightarrow> json \<Rightarrow> json \<Rightarrow> append_item list \<Rightarrow> append_item list
     \<Rightarrow> append_array_merge option" where
  "merge_append_only_arrays sd sha path (JArray base) (JArray source) (JArray target) source_items target_items =
     (if \<not> prefix base source \<or> \<not> prefix base target then None
      else
        Option.bind (unique_for_path path source_items) (\<lambda>source_items.
        Option.bind (unique_for_path path target_items) (\<lambda>target_items.
        Option.bind (tail_matches sd sha (drop (length base) source) (map snd source_items)) (\<lambda>sm.
        if \<not> sm then None
        else Option.bind (tail_matches sd sha (drop (length base) target) (map snd target_items)) (\<lambda>tm.
        if \<not> tm then None
        else Option.bind (combine_loop source_items target_items) (\<lambda>combined.
        let ordered = sort_key stable_key (map snd combined)
        in Some \<lparr>am_value = JArray (base @ map ai_value ordered),
                 am_integrated_source = integrated source_items target_items\<rparr>))))))"
| "merge_append_only_arrays sd sha path _ _ _ _ _ = None"

section \<open>The maps by element id\<close>

definition keyed :: "string \<Rightarrow> (string, append_item) omap \<Rightarrow> bool" where
  "keyed path m \<longleftrightarrow> om_wf m \<and> (\<forall>k i. om_get m k = Some i \<longrightarrow> ai_element_id i = k \<and> ai_path i = path)"

lemma keyed_insert: "keyed path m \<Longrightarrow> ai_path i = path \<Longrightarrow> ai_element_id i = k \<Longrightarrow> keyed path (om_insert k i m)"
  by (auto simp: keyed_def om.wf_put om.get_put)

lemma unique_loop_keyed:
  "unique_loop items m = Some u \<Longrightarrow> keyed path m \<Longrightarrow> list_all (\<lambda>i. ai_path i = path) items \<Longrightarrow> keyed path u"
  by (induction items m rule: unique_loop.induct) (auto simp: keyed_insert split: option.splits if_splits)

lemma unique_loop_ids:
  "unique_loop items m = Some u \<Longrightarrow> om_get u k \<noteq> None \<longleftrightarrow> om_get m k \<noteq> None \<or> k \<in> ai_element_id ` set items"
  by (induction items m rule: unique_loop.induct) (auto simp: om.get_put split: option.splits if_splits)

lemma unique_keyed: "unique_for_path path items = Some u \<Longrightarrow> keyed path u"
  unfolding unique_for_path_def
  by (erule unique_loop_keyed) (auto simp: keyed_def om_wf_def om_get_def list_all_iff)

lemma unique_ids: "unique_for_path path items = Some u \<Longrightarrow>
    om_get u k \<noteq> None \<longleftrightarrow> (\<exists>i \<in> set items. ai_path i = path \<and> ai_element_id i = k)"
  using unique_loop_ids [of "filter (\<lambda>i. ai_path i = path) items" "[]" u k]
  by (auto simp: unique_for_path_def om_get_def)

text \<open>The earlier of two items under the stable key.\<close>

definition earlier :: "append_item option \<Rightarrow> append_item option \<Rightarrow> append_item option" where
  "earlier s t = (case (s, t) of (None, _) \<Rightarrow> t | (_, None) \<Rightarrow> s
     | (Some a, Some b) \<Rightarrow> if stable_key a < stable_key b then Some a else Some b)"

lemma combine_loop_result:
  "combine_loop es m = Some c \<Longrightarrow> distinct (map fst es) \<Longrightarrow> om_wf m \<Longrightarrow>
    om_wf c \<and> (\<forall>k. om_get c k = earlier (map_of es k) (om_get m k))
    \<and> (\<forall>k a b. map_of es k = Some a \<longrightarrow> om_get m k = Some b \<longrightarrow> ai_value a = ai_value b)"
proof (induction es arbitrary: m)
  case Nil
  then show ?case by (simp add: earlier_def)
next
  case (Cons e es)
  obtain k i where e: "e = (k, i)" by (cases e)
  define m' where "m' = (case om_get m k of None \<Rightarrow> om_insert k i m
      | Some t \<Rightarrow> if stable_key i < stable_key t then om_insert k i m else m)"
  have m': "combine_loop es m' = Some c" "om_wf m'" "\<forall>t. om_get m k = Some t \<longrightarrow> ai_value t = ai_value i"
    using Cons.prems(1,3) by (auto simp: e m'_def om.wf_put split: option.splits if_splits)
  note IH = Cons.IH [OF m'(1) _ m'(2)]
  have k: "map_of es k = None" using Cons.prems(2) by (simp add: e map_of_eq_None_iff)
  have get: "om_get m' l = (if l = k then earlier (Some i) (om_get m k) else om_get m l)" for l
    by (auto simp: m'_def earlier_def om.get_put split: option.splits)
  have "om_wf c" using IH Cons.prems(2) by simp
  moreover have "om_get c l = earlier (map_of (e # es) l) (om_get m l)" for l
  proof (cases "l = k")
    case True
    then show ?thesis using IH Cons.prems(2) k get by (simp add: e) (simp add: earlier_def)
  next
    case False
    then show ?thesis using IH Cons.prems(2) get by (simp add: e)
  qed
  moreover have "ai_value a = ai_value b" if "map_of (e # es) l = Some a" "om_get m l = Some b" for l a b
    using that IH Cons.prems(2) get m'(3) by (cases "l = k") (auto simp: e)
  ultimately show ?case by blast
qed

lemma om_wf_map_of: "om_wf m \<Longrightarrow> map_of m k = om_get m k"
  by (simp add: om_get_def)

text \<open>The merged items: for each element id of either branch, the earlier of its items.\<close>

lemma combine_maps:
  assumes "keyed path s" "keyed path t" "combine_loop s t = Some c"
  shows "keyed path c" "om_get c k = earlier (om_get s k) (om_get t k)"
    "om_get s k = Some a \<Longrightarrow> om_get t k = Some b \<Longrightarrow> ai_value a = ai_value b"
proof -
  have w: "om_wf s" "om_wf t" using assms(1,2) by (simp_all add: keyed_def)
  note r = combine_loop_result [OF assms(3) om_wf_distinct [OF w(1)] w(2)]
  show c: "om_get c k = earlier (om_get s k) (om_get t k)" for k
    using r by (simp add: om_get_def)
  show "om_get s k = Some a \<Longrightarrow> om_get t k = Some b \<Longrightarrow> ai_value a = ai_value b"
    using r by (simp add: om_get_def)
  show "keyed path c"
    using r assms(1,2) c by (fastforce simp: keyed_def earlier_def split: option.splits if_splits)
qed

lemma keyed_items:
  assumes "keyed path m"
  shows "distinct (map snd m)" "inj_on stable_key (set (map snd m))" "distinct (map ai_element_id (map snd m))"
    "i \<in> set (map snd m) \<longleftrightarrow> om_get m (ai_element_id i) = Some i"
proof -
  have ids: "map ai_element_id (map snd m) = map fst m"
    using assms om_get_set [of m] by (auto simp: keyed_def)
  show d: "distinct (map ai_element_id (map snd m))"
    unfolding ids using assms om_wf_distinct by (auto simp: keyed_def)
  then show "distinct (map snd m)" by (simp only: distinct_map)
  show "inj_on stable_key (set (map snd m))"
    using d unfolding distinct_map by (auto simp: stable_key_def inj_on_def)
  show "i \<in> set (map snd m) \<longleftrightarrow> om_get m (ai_element_id i) = Some i"
  proof -
    have "om_get m k = Some i \<longleftrightarrow> (k, i) \<in> set m" for k
      by (rule om_get_set) (use assms in \<open>simp add: keyed_def\<close>)
    then have "i \<in> set (map snd m) \<longleftrightarrow> (\<exists>k. om_get m k = Some i)" by force
    then show ?thesis using assms unfolding keyed_def by blast
  qed
qed

section \<open>The merge\<close>

lemma merge_append_Some:
  assumes "merge_append_only_arrays sd sha path b s t si ti = Some r"
  obtains base source target us ut c where
    "b = JArray base" "s = JArray source" "t = JArray target" "prefix base source" "prefix base target"
    "unique_for_path path si = Some us" "unique_for_path path ti = Some ut"
    "tail_matches sd sha (drop (length base) source) (map snd us) = Some True"
    "tail_matches sd sha (drop (length base) target) (map snd ut) = Some True"
    "combine_loop us ut = Some c"
    "r = \<lparr>am_value = JArray (base @ map ai_value (sort_key stable_key (map snd c))),
      am_integrated_source = integrated us ut\<rparr>"
proof -
  obtain base source target where j: "b = JArray base" "s = JArray source" "t = JArray target"
    using assms by (elim merge_append_only_arrays.elims) auto
  then show thesis
    using assms that by (auto simp: bind_eq_Some_conv Let_def split: if_splits)
qed

text \<open>
  C39: merging two append-only arrays keeps the base as a prefix and appends one value for every
  element id that either branch recorded for this path, in the order of the stable keys
  (branch, sequence, operation, index, element); the item kept for an id is the earlier one of
  the two branches, and both branches agree on its value.
\<close>
theorem append_merge_items:
  assumes "merge_append_only_arrays sd sha path (JArray base) source target si ti = Some r"
  shows "\<exists>items. am_value r = JArray (base @ map ai_value items)
    \<and> sorted_wrt (\<lambda>a b. stable_key a < stable_key b) items
    \<and> (\<forall>i \<in> set items. ai_path i = path)
    \<and> distinct (map ai_element_id items)
    \<and> ai_element_id ` set items = {ai_element_id i | i. (i \<in> set si \<or> i \<in> set ti) \<and> ai_path i = path}
    \<and> (\<forall>us ut k. unique_for_path path si = Some us \<longrightarrow> unique_for_path path ti = Some ut \<longrightarrow>
         (\<forall>i. (i \<in> set items \<and> ai_element_id i = k) \<longleftrightarrow> earlier (om_get us k) (om_get ut k) = Some i)
         \<and> (\<forall>a c. om_get us k = Some a \<longrightarrow> om_get ut k = Some c \<longrightarrow> ai_value a = ai_value c))"
proof -
  obtain us ut c where h: "unique_for_path path si = Some us" "unique_for_path path ti = Some ut"
    "combine_loop us ut = Some c"
    "am_value r = JArray (base @ map ai_value (sort_key stable_key (map snd c)))"
    using assms by (elim merge_append_Some) auto
  note k = unique_keyed [OF h(1)] unique_keyed [OF h(2)]
  note c = combine_maps [OF k h(3)]
  note items = keyed_items [OF c(1)]
  let ?items = "sort_key stable_key (map snd c)"
  have member: "i \<in> set ?items \<and> ai_element_id i = k \<longleftrightarrow> earlier (om_get us k) (om_get ut k) = Some i" for i k
    using items(4) [of i] c(1,2) by (auto simp: keyed_def)
  have "sorted_wrt (<) (map stable_key ?items)"
    using items(1,2) by (simp add: strict_sorted_iff distinct_map)
  then have sorted: "sorted_wrt (\<lambda>a b. stable_key a < stable_key b) ?items"
    by (simp add: sorted_wrt_map)
  have "k \<in> ai_element_id ` set ?items \<longleftrightarrow> earlier (om_get us k) (om_get ut k) \<noteq> None" for k
  proof
    assume "k \<in> ai_element_id ` set ?items"
    then obtain i where "i \<in> set ?items \<and> ai_element_id i = k" by (auto simp only: image_iff)
    then show "earlier (om_get us k) (om_get ut k) \<noteq> None" using member [of i k] by simp
  next
    assume "earlier (om_get us k) (om_get ut k) \<noteq> None"
    then obtain i where "earlier (om_get us k) (om_get ut k) = Some i" by blast
    then have "i \<in> set ?items \<and> ai_element_id i = k" using member [of i k] by blast
    then show "k \<in> ai_element_id ` set ?items" by blast
  qed
  then have ids: "k \<in> ai_element_id ` set ?items \<longleftrightarrow> om_get us k \<noteq> None \<or> om_get ut k \<noteq> None" for k
    by (auto simp: earlier_def split: option.splits)
  have all_ids: "ai_element_id ` set ?items = {ai_element_id i | i. (i \<in> set si \<or> i \<in> set ti) \<and> ai_path i = path}"
  proof (rule set_eqI)
    fix k
    show "k \<in> ai_element_id ` set ?items \<longleftrightarrow>
        k \<in> {ai_element_id i | i. (i \<in> set si \<or> i \<in> set ti) \<and> ai_path i = path}"
      unfolding ids unique_ids [OF h(1)] unique_ids [OF h(2)] by blast
  qed
  have distinct: "distinct (map ai_element_id ?items)"
  proof -
    have "mset (map ai_element_id ?items) = mset (map ai_element_id (map snd c))"
      by (simp only: mset_map mset_sort)
    then show ?thesis using items(3) mset_eq_imp_distinct_iff by blast
  qed
  have paths: "\<forall>i \<in> set ?items. ai_path i = path"
    using items(4) c(1) by (auto simp: keyed_def)
  have kept: "\<forall>us' ut' k. unique_for_path path si = Some us' \<longrightarrow> unique_for_path path ti = Some ut' \<longrightarrow>
      (\<forall>i. (i \<in> set ?items \<and> ai_element_id i = k) \<longleftrightarrow> earlier (om_get us' k) (om_get ut' k) = Some i)
      \<and> (\<forall>a c. om_get us' k = Some a \<longrightarrow> om_get ut' k = Some c \<longrightarrow> ai_value a = ai_value c)"
    using member c(3) unfolding h(1,2) option.inject by blast
  show ?thesis
    by (rule exI [of _ ?items]) (intro conjI h(4) sorted paths distinct all_ids kept)
qed

text \<open>Two items of one element with the same stable key and value are the same item.\<close>

lemma stable_key_item:
  assumes "stable_key a = stable_key b" "ai_path a = ai_path b" "ai_value a = ai_value b"
  shows "a = b"
  using assms by (cases a; cases b) (simp add: stable_key_def)

lemma combine_loop_total:
  assumes "distinct (map fst es)" "om_wf m"
    "\<And>k a b. map_of es k = Some a \<Longrightarrow> om_get m k = Some b \<Longrightarrow> ai_value b = ai_value a"
  shows "\<exists>c. combine_loop es m = Some c"
  using assms
proof (induction es arbitrary: m)
  case (Cons e es)
  obtain k i where e: "e = (k, i)" by (cases e)
  define m' where "m' = (case om_get m k of None \<Rightarrow> om_insert k i m
      | Some t \<Rightarrow> if stable_key i < stable_key t then om_insert k i m else m)"
  have same_value: "ai_value t = ai_value i" if "om_get m k = Some t" for t
    using Cons.prems(3) [of k i t] that by (simp add: e)
  have step: "combine_loop (e # es) m = combine_loop es m'"
    using same_value by (auto simp: e m'_def split: option.splits)
  have k: "map_of es k = None" using Cons.prems(1) by (simp add: e map_of_eq_None_iff)
  have same: "om_get m' l = om_get m l" if "l \<noteq> k" for l
    using that by (auto simp: m'_def om.get_put split: option.splits)
  have "\<exists>c. combine_loop es m' = Some c"
  proof (rule Cons.IH)
    show "distinct (map fst es)" using Cons.prems(1) by simp
    show "om_wf m'" using Cons.prems(2) by (auto simp: m'_def om.wf_put split: option.splits)
    fix l a b
    assume a: "map_of es l = Some a" "om_get m' l = Some b"
    then have "l \<noteq> k" using k by auto
    then show "ai_value b = ai_value a" using Cons.prems(3) [of l a b] a same by (simp add: e)
  qed
  then show ?case unfolding step .
qed simp

lemma earlier_commute:
  assumes "keyed path s" "keyed path t"
    "\<And>a b. om_get s k = Some a \<Longrightarrow> om_get t k = Some b \<Longrightarrow> ai_value a = ai_value b"
  shows "earlier (om_get s k) (om_get t k) = earlier (om_get t k) (om_get s k)"
proof (cases "om_get s k"; cases "om_get t k")
  fix a b
  assume *: "om_get s k = Some a" "om_get t k = Some b"
  have "ai_path a = ai_path b" using * assms(1,2) by (simp add: keyed_def)
  then have "stable_key a = stable_key b \<Longrightarrow> a = b"
    using assms(3) [OF *] by (intro stable_key_item)
  then show ?thesis
    using * less_linear [of "stable_key a" "stable_key b"] less_not_sym [of "stable_key a" "stable_key b"]
    by (simp add: earlier_def del: less_prod_def' less_prod_simp) metis
qed (simp_all add: earlier_def)

lemma combine_commute:
  assumes "keyed path s" "keyed path t" "combine_loop s t = Some c"
  shows "combine_loop t s = Some c"
proof -
  have w: "om_wf s" "om_wf t" using assms(1,2) by (simp_all add: keyed_def)
  note r = combine_maps [OF assms]
  have "\<exists>c'. combine_loop t s = Some c'"
  proof (rule combine_loop_total [OF om_wf_distinct [OF w(2)] w(1)])
    fix k a b
    assume "map_of t k = Some a" "om_get s k = Some b"
    then show "ai_value b = ai_value a" using r(3) [of k b a] by (simp add: om_get_def)
  qed
  then obtain c' where c': "combine_loop t s = Some c'" ..
  note r' = combine_maps [OF assms(2,1) c']
  have "c' = c"
  proof (rule om_ext)
    show "om_wf c'" "om_wf c" using r(1) r'(1) by (simp_all add: keyed_def)
    show "om_get c' k = om_get c k" for k
      unfolding r(2) r'(2) by (rule sym, rule earlier_commute [OF assms(1,2) r(3)])
  qed
  then show ?thesis using c' by simp
qed

text \<open>
  Merging append-only arrays does not depend on which branch is called the source: with the
  branches swapped the merge succeeds too and gives the same array, so two replicas that merge
  each other's branch converge.
\<close>
theorem append_merge_symmetric:
  assumes "merge_append_only_arrays sd sha path b s t si ti = Some r"
  shows "\<exists>r'. merge_append_only_arrays sd sha path b t s ti si = Some r' \<and> am_value r' = am_value r"
proof -
  obtain base source target us ut c where h: "b = JArray base" "s = JArray source" "t = JArray target"
    "prefix base source" "prefix base target"
    "unique_for_path path si = Some us" "unique_for_path path ti = Some ut"
    "tail_matches sd sha (drop (length base) source) (map snd us) = Some True"
    "tail_matches sd sha (drop (length base) target) (map snd ut) = Some True"
    "combine_loop us ut = Some c"
    "r = \<lparr>am_value = JArray (base @ map ai_value (sort_key stable_key (map snd c))),
      am_integrated_source = integrated us ut\<rparr>"
    using assms by (rule merge_append_Some)
  have "combine_loop ut us = Some c"
    using unique_keyed [OF h(6)] unique_keyed [OF h(7)] h(10) by (rule combine_commute)
  then show ?thesis by (simp add: h Let_def)
qed

section \<open>No appended value is lost\<close>

lemma earlier_value:
  assumes "s = Some i \<or> t = Some i" "\<And>a b. s = Some a \<Longrightarrow> t = Some b \<Longrightarrow> ai_value a = ai_value b"
  shows "\<exists>j. earlier s t = Some j \<and> ai_value j = ai_value i"
proof (cases s; cases t)
  fix a b
  assume "s = Some a" "t = Some b"
  then show ?thesis using assms by (cases "stable_key a < stable_key b") (auto simp only: earlier_def prod.case option.case if_True if_False option.inject)
qed (use assms in \<open>auto simp: earlier_def\<close>)

lemma hash_counts_count:
  "hash_counts sd sha vs counts = Some c \<Longrightarrow>
    om_get c h \<noteq> None \<longleftrightarrow> om_get counts h \<noteq> None \<or> (\<exists>v \<in> set vs. canonical_hash sd sha v = Inr h)"
proof (induction vs arbitrary: counts)
  case (Cons v vs)
  then show ?case by (auto simp: om.get_put split: sum.splits if_splits)
qed simp

lemma tail_matches_values:
  assumes "tail_matches sd sha tail items = Some True" "v \<in> set tail"
  shows "\<exists>i \<in> set items. \<exists>h. canonical_hash sd sha v = Inr h \<and> canonical_hash sd sha (ai_value i) = Inr h"
proof -
  obtain m where e: "hash_counts sd sha (map ai_value items) [] = Some m"
    and a: "hash_counts sd sha tail [] = Some m"
    using assms(1) by (auto simp: tail_matches_def bind_eq_Some_conv)
  have "\<exists>h. canonical_hash sd sha v = Inr h"
  proof (rule ccontr)
    assume "\<not> ?thesis"
    then have "canonical_hash sd sha v \<in> range Inl" by (cases "canonical_hash sd sha v") auto
    then have "hash_counts sd sha tail c = None" for c
      using assms(2) by (induction tail arbitrary: c) (auto split: sum.splits)
    then show False using a by simp
  qed
  then obtain h where h: "canonical_hash sd sha v = Inr h" ..
  have "om_get m h \<noteq> None" using hash_counts_count [OF a, of h] h assms(2) by blast
  then have "\<exists>w \<in> set (map ai_value items). canonical_hash sd sha w = Inr h"
    using hash_counts_count [OF e, of h] by (simp add: om_get_def)
  then show ?thesis using h by auto
qed

text \<open>
  A merge of append-only arrays loses nothing that was appended: the base is a prefix of
  both branches, and for every value either branch has after it there is a value after the base
  in the result with the same canonical hash.
\<close>
theorem append_merge_keeps_tails:
  assumes "merge_append_only_arrays sd sha path (JArray base) (JArray source) (JArray target) si ti = Some r"
  shows "\<exists>tail. am_value r = JArray (base @ tail) \<and> prefix base source \<and> prefix base target
    \<and> (\<forall>v \<in> set (drop (length base) source) \<union> set (drop (length base) target). \<exists>w \<in> set tail.
         \<exists>h. canonical_hash sd sha v = Inr h \<and> canonical_hash sd sha w = Inr h)"
proof -
  obtain us ut c where h: "prefix base source" "prefix base target"
    "unique_for_path path si = Some us" "unique_for_path path ti = Some ut"
    "tail_matches sd sha (drop (length base) source) (map snd us) = Some True"
    "tail_matches sd sha (drop (length base) target) (map snd ut) = Some True"
    "combine_loop us ut = Some c"
    "am_value r = JArray (base @ map ai_value (sort_key stable_key (map snd c)))"
    using assms by (elim merge_append_Some) auto
  note k = unique_keyed [OF h(3)] unique_keyed [OF h(4)]
  note c = combine_maps [OF k h(7)]
  let ?tail = "map ai_value (sort_key stable_key (map snd c))"
  have kept: "ai_value i \<in> set ?tail" if "i \<in> set (map snd us) \<or> i \<in> set (map snd ut)" for i
  proof -
    let ?k = "ai_element_id i"
    have i: "om_get us ?k = Some i \<or> om_get ut ?k = Some i"
      using that keyed_items(4) [OF k(1)] keyed_items(4) [OF k(2)] by blast
    obtain j where j: "om_get c ?k = Some j" "ai_value j = ai_value i"
      using earlier_value [OF i c(3) [of ?k]] unfolding c(2) by blast
    have "ai_element_id j = ?k" using j(1) c(1) by (simp add: keyed_def)
    then have "j \<in> set (map snd c)" using j(1) keyed_items(4) [OF c(1)] by metis
    then have "j \<in> set (sort_key stable_key (map snd c))" by (simp only: set_sort)
    then show ?thesis unfolding j(2) [symmetric] set_map by (rule imageI)
  qed
  have "\<exists>w \<in> set ?tail. \<exists>h. canonical_hash sd sha v = Inr h \<and> canonical_hash sd sha w = Inr h"
    if "v \<in> set (drop (length base) source) \<union> set (drop (length base) target)" for v
    using that tail_matches_values [OF h(5)] tail_matches_values [OF h(6)] kept by blast
  then show ?thesis
    using h(1,2,8) by blast
qed

section \<open>A concrete merge\<close>

definition sample_item :: "string \<Rightarrow> json \<Rightarrow> string \<Rightarrow> append_item" where
  "sample_item eid v branch = \<lparr>ai_path = ''/log'', ai_element_id = eid, ai_value = v,
     ai_branch_id = branch, ai_sequence_no = 1, ai_operation_id = ''op'', ai_operation_index = 0\<rparr>"

definition sample_merge :: "bool \<Rightarrow> append_array_merge option" where
  "sample_merge swapped =
     (let a = [sample_item ''b'' (JBool True) ''main''];
          b = [sample_item ''a'' JNull ''draft'', sample_item ''b'' (JBool True) ''draft''];
          av = JArray [JNull, JBool True]; bv = JArray [JNull, JNull, JBool True]
      in if swapped then merge_append_only_arrays simple_serde (\<lambda>s. s) ''/log'' (JArray [JNull]) bv av b a
         else merge_append_only_arrays simple_serde (\<lambda>s. s) ''/log'' (JArray [JNull]) av bv a b)"

definition sample_result :: append_array_merge where
  "sample_result = \<lparr>am_value = JArray [JNull, JNull, JBool True], am_integrated_source = []\<rparr>"

lemma sample_hash [simp]:
  "canonical_hash simple_serde (\<lambda>s. s) JNull = Inr ''sha256:null''"
  "canonical_hash simple_serde (\<lambda>s. s) (JBool True) = Inr ''sha256:true''"
  by (simp_all add: canonical_hash_def to_vec_def hash_bytes_def validate_limits.simps MAX_JSON_DEPTH_def MAX_JSON_BYTES_def)

lemma sample_merges:
  "sample_merge True = Some \<lparr>am_value = am_value sample_result,
     am_integrated_source = [sample_item ''a'' JNull ''draft'', sample_item ''b'' (JBool True) ''draft'']\<rparr>"
  "sample_merge False = Some sample_result"
  by (simp_all add: sample_merge_def sample_item_def sample_result_def unique_for_path_def om_get_def
    tail_matches_def integrated_def stable_key_def Let_def)

lemma append_merge_items_witness:
  "\<exists>items :: append_item list. am_value sample_result = JArray (JNull # map ai_value items)
    \<and> distinct (map ai_element_id items) \<and> ai_element_id ` set items = {''a'', ''b''}"
proof -
  let ?a = "[sample_item ''b'' (JBool True) ''main'']"
  let ?b = "[sample_item ''a'' JNull ''draft'', sample_item ''b'' (JBool True) ''draft'']"
  have "merge_append_only_arrays simple_serde (\<lambda>s. s) ''/log'' (JArray [JNull])
      (JArray [JNull, JBool True]) (JArray [JNull, JNull, JBool True]) ?a ?b = Some sample_result"
    using sample_merges(2) by (simp only: sample_merge_def Let_def if_False)
  note r = append_merge_items [OF this]
  have "\<forall>i \<in> set ?a \<union> set ?b. ai_path i = ''/log''" by (simp add: sample_item_def)
  then have "{ai_element_id i | i. (i \<in> set ?a \<or> i \<in> set ?b) \<and> ai_path i = ''/log''}
      = ai_element_id ` (set ?a \<union> set ?b)" by blast
  also have "\<dots> = {''a'', ''b''}" by (simp add: sample_item_def insert_commute)
  finally have "{ai_element_id i | i. (i \<in> set ?a \<or> i \<in> set ?b) \<and> ai_path i = ''/log''} = {''a'', ''b''}" .
  note ids = this
  from r obtain items :: "append_item list" where "am_value sample_result = JArray ([JNull] @ map ai_value items)"
    "distinct (map ai_element_id items)" "ai_element_id ` set items = {''a'', ''b''}"
    unfolding ids by (elim exE conjE) (rule that, assumption+)
  then show ?thesis by (intro exI [of _ items]) simp
qed

lemma append_merge_symmetric_witness:
  "\<exists>r. sample_merge True = Some r \<and> am_value r = am_value sample_result"
proof -
  have "merge_append_only_arrays simple_serde (\<lambda>s. s) ''/log'' (JArray [JNull])
      (JArray [JNull, JBool True]) (JArray [JNull, JNull, JBool True])
      [sample_item ''b'' (JBool True) ''main'']
      [sample_item ''a'' JNull ''draft'', sample_item ''b'' (JBool True) ''draft''] = Some sample_result"
    using sample_merges(2) by (simp only: sample_merge_def Let_def if_False)
  from append_merge_symmetric [OF this] show ?thesis
    by (simp only: sample_merge_def Let_def if_True)
qed

lemma append_merge_keeps_tails_witness:
  "\<exists>tail. am_value sample_result = JArray (JNull # tail)
    \<and> (\<exists>w \<in> set tail. \<exists>h. canonical_hash simple_serde (\<lambda>s. s) (JBool True) = Inr h
         \<and> canonical_hash simple_serde (\<lambda>s. s) w = Inr h)"
proof -
  have "merge_append_only_arrays simple_serde (\<lambda>s. s) ''/log'' (JArray [JNull])
      (JArray [JNull, JBool True]) (JArray [JNull, JNull, JBool True])
      [sample_item ''b'' (JBool True) ''main'']
      [sample_item ''a'' JNull ''draft'', sample_item ''b'' (JBool True) ''draft''] = Some sample_result"
    using sample_merges(2) by (simp only: sample_merge_def Let_def if_False)
  from append_merge_keeps_tails [OF this] show ?thesis by auto
qed

end
