(* ===== verification/Retry_Delay.thy ===== *)
theory Retry_Delay
  imports Graph_Types
begin

text \<open>
  \<open>retry_delay_ms\<close> of \<open>crates/core/src/scheduler.rs\<close>: how long a failed attempt
  waits before the next one.  The computation runs in \<open>u128\<close> with saturating operations
  and comes back to \<open>u64\<close>; the jitter is taken from a SHA-256 digest, which is the argument
  \<open>sha\<close>.
\<close>

section \<open>The code\<close>

definition sat_add_u128 :: "nat \<Rightarrow> nat \<Rightarrow> nat" where
  "sat_add_u128 a b = min u128_max (a + b)"

definition sat_mul_u128 :: "nat \<Rightarrow> nat \<Rightarrow> nat" where
  "sat_mul_u128 a b = min u128_max (a * b)"

text \<open>The cast \<open>as u64\<close> keeps the low 64 bits.\<close>

definition as_u64 :: "nat \<Rightarrow> nat" where
  "as_u64 x = x mod 2 ^ 64"

definition backoff_step :: "retry_policy \<Rightarrow> nat \<Rightarrow> nat" where
  "backoff_step p base =
     as_u64 (min (sat_mul_u128 base (multiplier_micros p) div 1000000) (max_backoff_ms p))"

fun backoff_base :: "retry_policy \<Rightarrow> nat \<Rightarrow> nat" where
  "backoff_base p 0 = min (initial_backoff_ms p) (max_backoff_ms p)"
| "backoff_base p (Suc n) = backoff_step p (backoff_base p n)"

text \<open>The product of two \<open>u64\<close> values fits into \<open>u128\<close> (lemma \<open>u64_product\<close>).\<close>

definition jitter_span :: "retry_policy \<Rightarrow> nat \<Rightarrow> nat" where
  "jitter_span p base = as_u64 (min (base * jitter_ratio_micros p div 1000000) u64_max)"

definition from_be_bytes :: "string \<Rightarrow> nat" where
  "from_be_bytes bs = foldl (\<lambda>a c. 256 * a + byte c) 0 bs"

definition jitter_material :: "string \<Rightarrow> nat \<Rightarrow> string" where
  "jitter_material instance_id ordinal =
     ''retry-jitter/v1'' @ [CHR 0x00] @ instance_id @ [CHR 0x00] @ show_nat ordinal"

definition retry_delay_ms :: "(string \<Rightarrow> string) \<Rightarrow> retry_policy \<Rightarrow> string \<Rightarrow> nat \<Rightarrow> nat" where
  "retry_delay_ms sha p instance_id ordinal =
     (let base = backoff_base p ordinal; span = jitter_span p base
      in if span = 0 then base
         else let random = from_be_bytes (take 8 (sha (jitter_material instance_id ordinal)));
                  width = sat_add_u128 (sat_mul_u128 span 2) 1;
                  position = sat_mul_u128 random width div 2 ^ 64;
                  adjusted = (if span \<le> position then sat_add_u128 base (position - span)
                              else base - (span - position))
              in as_u64 (min adjusted (max_backoff_ms p)))"

section \<open>The width of the integers\<close>

definition policy_u64 :: "retry_policy \<Rightarrow> bool" where
  "policy_u64 p \<longleftrightarrow> initial_backoff_ms p \<le> u64_max \<and> multiplier_micros p \<le> u64_max
     \<and> max_backoff_ms p \<le> u64_max \<and> jitter_ratio_micros p \<le> u64_max"

lemma square_pred_le: "(n - 1) * (n - 1) \<le> n * n - (1 :: nat)"
  by (cases n) auto

lemma u64_product: "a \<le> u64_max \<Longrightarrow> b \<le> u64_max \<Longrightarrow> a * b \<le> u128_max"
proof -
  assume "a \<le> u64_max" "b \<le> u64_max"
  then have "a * b \<le> (2 ^ 64 - 1) * (2 ^ 64 - 1)" unfolding u64_max_def by (rule mult_le_mono)
  also have "\<dots> \<le> 2 ^ 64 * 2 ^ 64 - 1" by (rule square_pred_le)
  also have "\<dots> = u128_max" unfolding u128_max_def by (simp only: flip: power_add) simp
  finally show ?thesis .
qed

lemma as_u64_id: "x \<le> u64_max \<Longrightarrow> as_u64 x = x"
  unfolding as_u64_def u64_max_def by (simp add: le_less_trans)

lemma backoff_step_exact:
  assumes "policy_u64 p" "base \<le> u64_max"
  shows "backoff_step p base = min (base * multiplier_micros p div 1000000) (max_backoff_ms p)"
proof -
  have m: "multiplier_micros p \<le> u64_max" "max_backoff_ms p \<le> u64_max"
    using assms(1) by (auto simp: policy_u64_def)
  have "sat_mul_u128 base (multiplier_micros p) = base * multiplier_micros p"
    using u64_product [OF assms(2) m(1)] by (simp add: sat_mul_u128_def)
  then show ?thesis
    unfolding backoff_step_def using m(2) by (simp add: as_u64_id min.coboundedI2)
qed

lemma backoff_base_le: "policy_u64 p \<Longrightarrow> backoff_base p n \<le> max_backoff_ms p"
proof (induction n)
  case (Suc n)
  moreover have "max_backoff_ms p \<le> u64_max" using Suc(2) by (simp add: policy_u64_def)
  ultimately show ?case by (simp add: backoff_step_exact)
qed simp

lemma backoff_base_u64: "policy_u64 p \<Longrightarrow> backoff_base p n \<le> u64_max"
  using backoff_base_le [of p n] by (simp add: policy_u64_def)

lemma backoff_base_Suc:
  "policy_u64 p \<Longrightarrow>
     backoff_base p (Suc n) = min (backoff_base p n * multiplier_micros p div 1000000) (max_backoff_ms p)"
  by (simp add: backoff_step_exact backoff_base_u64)

lemma jitter_span_exact:
  "jitter_span p base = min (base * jitter_ratio_micros p div 1000000) u64_max"
  by (simp add: jitter_span_def as_u64_id)

lemma from_be_bytes_bound: "from_be_bytes bs < 256 ^ length bs"
proof (induction bs rule: rev_induct)
  case (snoc c bs)
  then show ?case using byte_less [of c] by (simp add: from_be_bytes_def)
qed (simp add: from_be_bytes_def)

section \<open>The delay\<close>

text \<open>The drawn position lies within the two spans around the base.\<close>

lemma position_bound:
  assumes "random < 2 ^ 64"
  shows "sat_mul_u128 random (sat_add_u128 (sat_mul_u128 w 2) 1) div 2 ^ 64 \<le> 2 * w"
proof -
  have "sat_mul_u128 random (sat_add_u128 (sat_mul_u128 w 2) 1) \<le> random * (2 * w + 1)"
    unfolding sat_mul_u128_def sat_add_u128_def by (intro min.coboundedI2 mult_le_mono) auto
  also have "\<dots> < 2 ^ 64 * (2 * w + 1)"
    using assms by (intro mult_strict_right_mono) auto
  finally have "sat_mul_u128 random (sat_add_u128 (sat_mul_u128 w 2) 1) div 2 ^ 64 < 2 * w + 1"
    by (intro less_mult_imp_div_less) (simp only: mult.commute)
  then show ?thesis by simp
qed

lemma retry_delay_near:
  fixes sha :: "string \<Rightarrow> string" and ordinal :: nat
  assumes "policy_u64 p"
  defines "base \<equiv> backoff_base p ordinal"
  defines "w \<equiv> jitter_span p base"
  shows "base - w \<le> retry_delay_ms sha p instance_id ordinal"
    and "retry_delay_ms sha p instance_id ordinal \<le> min (base + w) (max_backoff_ms p)"
proof -
  define random where "random = from_be_bytes (take 8 (sha (jitter_material instance_id ordinal)))"
  define drawn where "drawn = sat_mul_u128 random (sat_add_u128 (sat_mul_u128 w 2) 1) div 2 ^ 64"
  define adjusted where "adjusted = (if w \<le> drawn then sat_add_u128 base (drawn - w) else base - (w - drawn))"
  have le: "base \<le> max_backoff_ms p" "max_backoff_ms p \<le> u64_max"
    using backoff_base_le assms(1) unfolding base_def by (auto simp: policy_u64_def)
  have "random < 256 ^ length (take 8 (sha (jitter_material instance_id ordinal)))"
    unfolding random_def by (rule from_be_bytes_bound)
  also have "\<dots> \<le> 256 ^ 8" by (intro power_increasing) auto
  finally have drawn: "drawn \<le> 2 * w" unfolding drawn_def by (intro position_bound) simp
  have le128: "base \<le> u128_max" using le by (simp add: u64_max_def u128_max_def)
  have "base - w \<le> adjusted" "adjusted \<le> base + w"
    using drawn le128 by (auto simp: adjusted_def sat_add_u128_def)
  moreover have "as_u64 (min adjusted (max_backoff_ms p)) = min adjusted (max_backoff_ms p)"
    using le(2) by (intro as_u64_id) auto
  moreover have "retry_delay_ms sha p instance_id ordinal = as_u64 (min adjusted (max_backoff_ms p))"
    if "w \<noteq> 0"
    using that unfolding retry_delay_ms_def adjusted_def drawn_def random_def w_def base_def
    by (simp only: Let_def if_False)
  ultimately have *: "w \<noteq> 0 \<Longrightarrow> retry_delay_ms sha p instance_id ordinal = min adjusted (max_backoff_ms p)"
    "base - w \<le> adjusted" "adjusted \<le> base + w"
    by simp_all
  have 0: "retry_delay_ms sha p instance_id ordinal = base" if "w = 0"
    using that unfolding retry_delay_ms_def w_def base_def by (simp only: Let_def if_True simp_thms)
  show "base - w \<le> retry_delay_ms sha p instance_id ordinal"
    using * 0 le by (cases "w = 0") auto
  show "retry_delay_ms sha p instance_id ordinal \<le> min (base + w) (max_backoff_ms p)"
    using * 0 le by (cases "w = 0") auto
qed

text \<open>
  C19: whatever the policy and the digest, the delay stays within the jitter span around the
  exponential base and never exceeds the policy's maximum; no intermediate value leaves its
  integer width, also not when the policy's fields are the largest \<open>u64\<close>.
\<close>
theorem retry_delay_bounds:
  assumes "policy_u64 p"
  shows "retry_delay_ms sha p instance_id ordinal \<le> max_backoff_ms p
    \<and> backoff_base p ordinal - jitter_span p (backoff_base p ordinal) \<le> retry_delay_ms sha p instance_id ordinal
    \<and> retry_delay_ms sha p instance_id ordinal \<le> backoff_base p ordinal + jitter_span p (backoff_base p ordinal)"
  using retry_delay_near [OF assms] by auto

text \<open>A whole-number multiplier gives the capped geometric sequence.\<close>

lemma capped_product: "0 < m \<Longrightarrow> min (min a b * m) b = min (a * m) (b :: nat)"
proof (cases "a \<le> b")
  case False
  assume "0 < m"
  then have "b \<le> b * m" "b * m \<le> a * m" using False by simp_all
  then have "b \<le> a * m" by (rule order_trans)
  then show ?thesis using False \<open>b \<le> b * m\<close> by (simp add: min.absorb2)
qed simp

lemma backoff_base_geometric:
  assumes "policy_u64 p" "multiplier_micros p = m * 1000000" "0 < m"
  shows "backoff_base p n = min (initial_backoff_ms p * m ^ n) (max_backoff_ms p)"
proof (induction n)
  case (Suc n)
  have "backoff_base p (Suc n) = min (backoff_base p n * m) (max_backoff_ms p)"
    unfolding backoff_base_Suc [OF assms(1)] assms(2)
    by (metis nonzero_mult_div_cancel_right mult.assoc zero_neq_numeral)
  then show ?case
    unfolding Suc.IH capped_product [OF assms(3)] by (simp add: mult_ac)
qed simp

text \<open>A multiplier of at least one never shortens the base.\<close>

lemma backoff_base_mono:
  assumes "policy_u64 p" "1000000 \<le> multiplier_micros p"
  shows "backoff_base p n \<le> backoff_base p (Suc n)"
proof -
  have "backoff_base p n = backoff_base p n * 1000000 div 1000000" by simp
  also have "\<dots> \<le> backoff_base p n * multiplier_micros p div 1000000"
    using assms(2) by (intro div_le_mono mult_le_mono2)
  finally show ?thesis
    unfolding backoff_base_Suc [OF assms(1)] using backoff_base_le [OF assms(1)] by simp
qed

section \<open>The policy of the unit test\<close>

definition sample_policy :: retry_policy where
  "sample_policy = \<lparr>max_retries = 5, retry_on = [''node_timeout''], initial_backoff_ms = 100,
     multiplier_micros = 2000000, max_backoff_ms = 1000, jitter_ratio_micros = 250000,
     refresh_read_set = Never\<rparr>"

lemma sample_policy_u64: "policy_u64 sample_policy"
  by (simp add: policy_u64_def sample_policy_def u64_max_def)

lemma sample_base: "backoff_base sample_policy 2 = 400"
  by (simp add: numeral_2_eq_2 backoff_base_Suc [OF sample_policy_u64] del: backoff_base.simps(2))
    (simp add: sample_policy_def)

lemma retry_delay_bounds_witness:
  "300 \<le> retry_delay_ms (\<lambda>_. []) sample_policy ''instance-1'' 2
   \<and> retry_delay_ms (\<lambda>_. []) sample_policy ''instance-1'' 2 \<le> 500"
proof -
  have "jitter_span sample_policy 400 = 100"
    by (simp add: jitter_span_exact sample_policy_def u64_max_def)
  then show ?thesis
    using retry_delay_bounds [OF sample_policy_u64, where sha = "\<lambda>_. []" and instance_id = "''instance-1''" and ordinal = 2]
    unfolding sample_base by simp
qed

end
