(* ===== verification/Scheduler.thy ===== *)
theory Scheduler
  imports Retry_Delay Graph_Wellformed
begin

text \<open>
  \<open>crates/core/src/scheduler.rs\<close> with the types it takes from \<open>runtime.rs\<close> and
  \<open>application/error.rs\<close>: the execution of the built-in nodes and the loop that claims
  work from the store and executes it.

  The scheduler is written against two traits, \<open>SchedulerStore\<close> and
  \<open>LlmAttemptExecutor\<close>; they are records of operations on a store state \<open>'s\<close>, arguments
  of the definitions.  An operation returns its result and the state it leaves, also when it
  fails.  The types of the LLM layer (\<open>'llm\<close>, \<open>'snap\<close> for the execution snapshot,
  \<open>'b\<close> for a context binding) are not looked into here.
\<close>

section \<open>The data\<close>

datatype application_error =
    InvalidArgument string
  | Validation string "validation_issue list"
  | NotFound string string
  | Conflict string
  | IdempotencyConflict
  | Gone string
  | Unauthenticated string
  | RateLimited string
  | Unavailable
  | Internal

datatype wait_kind =
    HumanResponse | Approval | Webhook | Timer | ExternalJob | EffectResolution | SecretStoreUnlocked

record claimed_wait_resume =
  wr_wait_id :: string
  wr_kind :: wait_kind
  wr_continuation_ref :: string
  wr_continuation :: json
  wr_response_ref :: string
  wr_response :: json

record claimed_coordination_snapshot =
  join_key :: json

record 'b claimed_context_snapshot =
  cs_bindings :: "(string, 'b) omap"
  cs_read_set_ref :: string
  cs_read_set_digest :: string

record ('llm, 'snap, 'b) claimed_attempt =
  ca_wakeup_id :: string
  ca_run_id :: string
  ca_node_instance_id :: string
  ca_attempt_id :: string
  ca_worker_id :: string
  ca_lease_fence :: nat
  ca_run_control_epoch :: nat
  ca_node :: "'llm graph_node"
  ca_inputs :: "(string, json) omap"
  ca_memory :: "(string, json) omap"
  ca_router_control :: "control_snapshot option"
  ca_execution_snapshot :: "'snap option"
  ca_context_snapshot :: "'b claimed_context_snapshot option"
  ca_coordination :: "claimed_coordination_snapshot option"
  ca_wait_resume :: "claimed_wait_resume option"

datatype ('llm, 'snap, 'b) scheduler_work =
    Noop
  | Attempt "('llm, 'snap, 'b) claimed_attempt"
  | Activate string string string
  | Settle string string

datatype wait_timeout_policy = FailOnTimeout | ResumeWithTimeout

record external_wait_request =
  wait_kind_of :: wait_kind
  wait_request :: json
  wait_response_schema :: "json_schema_spec option"
  wait_correlation_key :: "string option"
  wait_deadline_at :: "int option"
  wait_on_timeout :: wait_timeout_policy

datatype builtin_result =
    Completed "(string, json) omap"
  | Expanded string "json list"
  | Failed string
  | Decided router_decision
  | RouterFailed decision_error
  | Waiting external_wait_request json

datatype llm_attempt_execution = Finalize builtin_result | Handled

record finalize_command =
  fc_wakeup_id :: string
  fc_attempt_id :: string
  fc_worker_id :: string
  fc_lease_fence :: nat
  fc_run_control_epoch :: nat
  fc_result_idempotency_key :: string
  fc_result :: builtin_result

section \<open>The traits\<close>

type_synonym ('s, 'a) store_op = "'s \<Rightarrow> (application_error + 'a) \<times> 's"

record ('s, 'llm, 'snap, 'b) scheduler_store =
  process_due_timers :: "int \<Rightarrow> ('s, nat) store_op"
  recover_expired_leases :: "int \<Rightarrow> ('s, nat) store_op"
  claim_next_work :: "string \<Rightarrow> int \<Rightarrow> int \<Rightarrow> ('s, ('llm, 'snap, 'b) scheduler_work option) store_op"
  mark_attempt_running :: "('llm, 'snap, 'b) claimed_attempt \<Rightarrow> int \<Rightarrow> ('s, unit) store_op"
  finalize_attempt :: "finalize_command \<Rightarrow> int \<Rightarrow> ('s, unit) store_op"
  activate_if_ready :: "string \<Rightarrow> string \<Rightarrow> string \<Rightarrow> int \<Rightarrow> ('s, unit) store_op"
  settle_run :: "string \<Rightarrow> string \<Rightarrow> int \<Rightarrow> ('s, unit) store_op"
  checkpoint_run :: "string \<Rightarrow> int \<Rightarrow> ('s, unit) store_op"

type_synonym ('s, 'llm, 'snap, 'b) llm_executor =
  "('llm, 'snap, 'b) claimed_attempt \<Rightarrow> int \<Rightarrow> ('s, llm_attempt_execution) store_op"

record ('s, 'llm, 'snap, 'b) scheduler =
  sch_store :: "('s, 'llm, 'snap, 'b) scheduler_store"
  sch_llm_executor :: "('s, 'llm, 'snap, 'b) llm_executor option"
  sch_worker_id :: string
  sch_lease_ms :: int

text \<open>\<open>?\<close> on an awaited operation.\<close>

definition andThen :: "('s, 'a) store_op \<Rightarrow> ('a \<Rightarrow> ('s, 'c) store_op) \<Rightarrow> ('s, 'c) store_op" where
  "andThen m f s = (case m s of (Inl e, s') \<Rightarrow> (Inl e, s') | (Inr a, s') \<Rightarrow> f a s')"

definition done_with :: "'a \<Rightarrow> ('s, 'a) store_op" where
  "done_with a s = (Inr a, s)"

definition new_scheduler :: "('s, 'llm, 'snap, 'b) scheduler_store \<Rightarrow> string \<Rightarrow> ('s, 'llm, 'snap, 'b) scheduler" where
  "new_scheduler st worker =
     \<lparr>sch_store = st, sch_llm_executor = None, sch_worker_id = worker, sch_lease_ms = 30000\<rparr>"

definition with_llm_executor ::
  "('s, 'llm, 'snap, 'b) llm_executor \<Rightarrow> ('s, 'llm, 'snap, 'b) scheduler \<Rightarrow> ('s, 'llm, 'snap, 'b) scheduler" where
  "with_llm_executor ex sch = sch\<lparr>sch_llm_executor := Some ex\<rparr>"

section \<open>The built-in nodes\<close>

fun is_llm_kind :: "'llm node_kind \<Rightarrow> bool" where
  "is_llm_kind (NLlm _) = True"
| "is_llm_kind _ = False"

definition execute_router :: "serde \<Rightarrow> ('llm, 'snap, 'b) claimed_attempt \<Rightarrow> builtin_result" where
  "execute_router sd a =
     (case ca_router_control a of
        None \<Rightarrow> RouterFailed (decision_error ControlSnapshotMissing None [])
      | Some ctl \<Rightarrow>
          (case evaluate_router sd (ca_node a) (ca_inputs a) (JObject (om_of_list (ca_memory a))) ctl of
             Inr d \<Rightarrow> Decided d
           | Inl e \<Rightarrow> RouterFailed e))"

definition execute_merge :: "('llm, 'snap, 'b) claimed_attempt \<Rightarrow> builtin_result" where
  "execute_merge a =
     (case ca_inputs a of
        [] \<Rightarrow> Failed ''merge_input_missing''
      | (_, v) # _ \<Rightarrow>
          (case outputs (ca_node a) of
             [] \<Rightarrow> Failed ''merge_output_missing''
           | output # _ \<Rightarrow> Completed (om_of_list [(out_name output, v)])))"

text \<open>The values of a join, by the declared inputs that have one.\<close>

fun present_inputs :: "(string, json) omap \<Rightarrow> input_port list \<Rightarrow> (string \<times> json) list" where
  "present_inputs m [] = []"
| "present_inputs m (p # ps) =
     (case om_get m (in_name p) of
        None \<Rightarrow> present_inputs m ps
      | Some v \<Rightarrow> (in_name p, v) # present_inputs m ps)"

definition execute_join :: "('llm, 'snap, 'b) claimed_attempt \<Rightarrow> builtin_result" where
  "execute_join a =
     (case ca_coordination a of
        None \<Rightarrow> Failed ''join_coordination_snapshot_missing''
      | Some c \<Rightarrow>
          (case outputs (ca_node a) of
             [] \<Rightarrow> Failed ''join_output_missing''
           | output # _ \<Rightarrow>
               Completed (om_of_list [(out_name output,
                 JObject (om_of_list
                   [(''key'', join_key c),
                    (''values'', JObject (om_of_list (present_inputs (ca_inputs a) (inputs (ca_node a)))))]))])))"

definition expand_item :: "nat \<Rightarrow> json \<Rightarrow> json" where
  "expand_item index item = JObject (om_of_list [(''index'', json_nat index), (''item'', item)])"

definition execute_expand :: "('llm, 'snap, 'b) claimed_attempt \<Rightarrow> nat \<Rightarrow> builtin_result" where
  "execute_expand a max_items =
     (case ca_inputs a of
        [] \<Rightarrow> Failed ''expand_input_missing''
      | (_, v) # _ \<Rightarrow>
          (case v of
             JArray items \<Rightarrow>
               if max_items < length items then Failed ''expand_item_limit_exceeded''
               else (case outputs (ca_node a) of
                       [] \<Rightarrow> Failed ''expand_output_missing''
                     | output # _ \<Rightarrow>
                         Expanded (out_name output)
                           (map (\<lambda>(i, item). expand_item i item) (enumerate 0 items)))
           | _ \<Rightarrow> Failed ''expand_input_not_array''))"

definition execute_builtin :: "serde \<Rightarrow> ('llm, 'snap, 'b) claimed_attempt \<Rightarrow> builtin_result" where
  "execute_builtin sd a =
     (case kind (ca_node a) of
        NInput _ \<Rightarrow> Completed (ca_inputs a)
      | NOutput _ \<Rightarrow> Completed []
      | NLlm _ \<Rightarrow> if ca_execution_snapshot a = None then Failed ''llm_execution_snapshot_missing''
                  else Failed ''llm_executor_unavailable''
      | NRouter _ \<Rightarrow> execute_router sd a
      | NMerge _ \<Rightarrow> execute_merge a
      | NJoinByKey _ _ _ \<Rightarrow> execute_join a
      | NAggregator _ \<Rightarrow> Failed ''aggregator_storage_execution_required''
      | NExpand max_items \<Rightarrow> execute_expand a max_items)"

section \<open>The loop\<close>

definition execute_attempt ::
  "serde \<Rightarrow> ('s, 'llm, 'snap, 'b) scheduler \<Rightarrow> ('llm, 'snap, 'b) claimed_attempt \<Rightarrow> int
     \<Rightarrow> ('s, llm_attempt_execution) store_op" where
  "execute_attempt sd sch a now =
     (if is_llm_kind (kind (ca_node a)) \<and> ca_execution_snapshot a \<noteq> None
      then (case sch_llm_executor sch of
              Some ex \<Rightarrow> ex a now
            | None \<Rightarrow> done_with (Finalize (execute_builtin sd a)))
      else done_with (Finalize (execute_builtin sd a)))"

definition result_key :: "string \<Rightarrow> nat \<Rightarrow> string" where
  "result_key attempt fence = ''result:'' @ attempt @ '':'' @ show_nat fence"

definition finalize_command_of :: "('llm, 'snap, 'b) claimed_attempt \<Rightarrow> builtin_result \<Rightarrow> finalize_command" where
  "finalize_command_of a result =
     \<lparr>fc_wakeup_id = ca_wakeup_id a, fc_attempt_id = ca_attempt_id a, fc_worker_id = ca_worker_id a,
      fc_lease_fence = ca_lease_fence a, fc_run_control_epoch = ca_run_control_epoch a,
      fc_result_idempotency_key = result_key (ca_attempt_id a) (ca_lease_fence a), fc_result = result\<rparr>"

definition saturating_i64 :: "int \<Rightarrow> int" where
  "saturating_i64 x = max i64_min (min i64_max x)"

text \<open>What is done with the claimed work; the run to checkpoint, if any.\<close>

definition perform ::
  "serde \<Rightarrow> ('s, 'llm, 'snap, 'b) scheduler \<Rightarrow> int \<Rightarrow> ('llm, 'snap, 'b) scheduler_work
     \<Rightarrow> ('s, string option) store_op" where
  "perform sd sch now work =
     (case work of
        Noop \<Rightarrow> done_with None
      | Attempt a \<Rightarrow>
          andThen (mark_attempt_running (sch_store sch) a now) (\<lambda>_.
          andThen (execute_attempt sd sch a now) (\<lambda>execution.
          case execution of
            Finalize result \<Rightarrow>
              andThen (finalize_attempt (sch_store sch) (finalize_command_of a result) now) (\<lambda>_.
              done_with (Some (ca_run_id a)))
          | Handled \<Rightarrow> done_with (Some (ca_run_id a))))
      | Activate wakeup run nd \<Rightarrow>
          andThen (activate_if_ready (sch_store sch) wakeup run nd now) (\<lambda>_. done_with (Some run))
      | Settle wakeup run \<Rightarrow>
          andThen (settle_run (sch_store sch) wakeup run now) (\<lambda>_. done_with (Some run)))"

definition run_one :: "serde \<Rightarrow> ('s, 'llm, 'snap, 'b) scheduler \<Rightarrow> int \<Rightarrow> ('s, bool) store_op" where
  "run_one sd sch now =
     andThen (process_due_timers (sch_store sch) now) (\<lambda>timer_work.
     andThen (recover_expired_leases (sch_store sch) now) (\<lambda>_.
     andThen (claim_next_work (sch_store sch) (sch_worker_id sch) now
                (saturating_i64 (now + sch_lease_ms sch))) (\<lambda>claimed.
     case claimed of
       None \<Rightarrow> done_with (0 < timer_work)
     | Some work \<Rightarrow>
         andThen (perform sd sch now work) (\<lambda>checkpoint.
         case checkpoint of
           None \<Rightarrow> done_with True
         | Some run \<Rightarrow> andThen (checkpoint_run (sch_store sch) run now) (\<lambda>_. done_with True)))))"

text \<open>The loop with its counter; \<open>left\<close> is \<open>max_steps - steps\<close>.\<close>

fun idle_loop :: "serde \<Rightarrow> ('s, 'llm, 'snap, 'b) scheduler \<Rightarrow> int \<Rightarrow> nat \<Rightarrow> nat \<Rightarrow> ('s, nat) store_op" where
  "idle_loop sd sch now 0 steps s = (Inr steps, s)"
| "idle_loop sd sch now (Suc left) steps s =
     (case run_one sd sch now s of
        (Inl e, s') \<Rightarrow> (Inl e, s')
      | (Inr busy, s') \<Rightarrow> if busy then idle_loop sd sch now left (steps + 1) s' else (Inr steps, s'))"

definition run_until_idle :: "serde \<Rightarrow> ('s, 'llm, 'snap, 'b) scheduler \<Rightarrow> int \<Rightarrow> nat \<Rightarrow> ('s, nat) store_op" where
  "run_until_idle sd sch now max_steps s = idle_loop sd sch now max_steps 0 s"

end
