(* ===== verification/Scheduler_Protocol.thy ===== *)
theory Scheduler_Protocol
  imports Scheduler
begin

text \<open>
  What the scheduler does to its store: the calls of one step and how they answer each other,
  observed by a store that keeps a log, and the result of the loop.
\<close>

section \<open>A store that logs its calls\<close>

datatype ('llm, 'snap, 'b) store_call =
    TimersCall int
  | RecoverCall int
  | ClaimCall string int int
  | MarkCall "('llm, 'snap, 'b) claimed_attempt" int
  | ExecuteCall "('llm, 'snap, 'b) claimed_attempt" int
  | FinalizeCall finalize_command int
  | ActivateCall string string string int
  | SettleCall string string int
  | CheckpointCall string int

text \<open>What a call answered: a value of the operation, or the error that it returned.\<close>

datatype ('llm, 'snap, 'b) store_answer =
    Refused application_error
  | Done
  | Counted nat
  | Claimed "('llm, 'snap, 'b) scheduler_work option"
  | Executed llm_attempt_execution

type_synonym ('llm, 'snap, 'b) store_log = "(('llm, 'snap, 'b) store_call \<times> ('llm, 'snap, 'b) store_answer) list"

definition logged ::
  "('llm, 'snap, 'b) store_call \<Rightarrow> ('a \<Rightarrow> ('llm, 'snap, 'b) store_answer) \<Rightarrow> ('s, 'a) store_op
     \<Rightarrow> ('s \<times> ('llm, 'snap, 'b) store_log, 'a) store_op" where
  "logged c answer m st =
     (case m (fst st) of
        (r, s') \<Rightarrow> (r, (s', snd st @ [(c, case r of Inl e \<Rightarrow> Refused e | Inr a \<Rightarrow> answer a)])))"

definition logged_store ::
  "('s, 'llm, 'snap, 'b) scheduler_store
     \<Rightarrow> ('s \<times> ('llm, 'snap, 'b) store_log, 'llm, 'snap, 'b) scheduler_store" where
  "logged_store st =
     \<lparr>process_due_timers = (\<lambda>now. logged (TimersCall now) Counted (process_due_timers st now)),
      recover_expired_leases = (\<lambda>now. logged (RecoverCall now) Counted (recover_expired_leases st now)),
      claim_next_work = (\<lambda>w now t. logged (ClaimCall w now t) Claimed (claim_next_work st w now t)),
      mark_attempt_running = (\<lambda>a now. logged (MarkCall a now) (\<lambda>_. Done) (mark_attempt_running st a now)),
      finalize_attempt = (\<lambda>c now. logged (FinalizeCall c now) (\<lambda>_. Done) (finalize_attempt st c now)),
      activate_if_ready = (\<lambda>w r n now. logged (ActivateCall w r n now) (\<lambda>_. Done) (activate_if_ready st w r n now)),
      settle_run = (\<lambda>w r now. logged (SettleCall w r now) (\<lambda>_. Done) (settle_run st w r now)),
      checkpoint_run = (\<lambda>r now. logged (CheckpointCall r now) (\<lambda>_. Done) (checkpoint_run st r now))\<rparr>"

definition logged_scheduler ::
  "('s, 'llm, 'snap, 'b) scheduler \<Rightarrow> ('s \<times> ('llm, 'snap, 'b) store_log, 'llm, 'snap, 'b) scheduler" where
  "logged_scheduler sch =
     \<lparr>sch_store = logged_store (sch_store sch),
      sch_llm_executor = map_option (\<lambda>ex a now. logged (ExecuteCall a now) Executed (ex a now)) (sch_llm_executor sch),
      sch_worker_id = sch_worker_id sch, sch_lease_ms = sch_lease_ms sch\<rparr>"

lemma logged_scheduler_sel [simp]:
  "sch_store (logged_scheduler sch) = logged_store (sch_store sch)"
  "sch_worker_id (logged_scheduler sch) = sch_worker_id sch"
  "sch_lease_ms (logged_scheduler sch) = sch_lease_ms sch"
  by (simp_all add: logged_scheduler_def)

text \<open>
  A log that stops at the error \<open>e\<close>: it follows a entries of \<open>W\<close> up to one of its calls, and
  that call, its last one, returned the error.
\<close>

definition stopped_at :: "application_error \<Rightarrow> ('c \<times> ('llm, 'snap, 'b) store_answer) list set
    \<Rightarrow> ('c \<times> ('llm, 'snap, 'b) store_answer) list \<Rightarrow> bool" where
  "stopped_at e W entries \<longleftrightarrow> (\<exists>before call answer after.
     entries = before @ [(call, Refused e)] \<and> before @ (call, answer) # after \<in> W)"

lemma stopped_atI: "before @ (call, answer) # after \<in> W \<Longrightarrow> stopped_at e W (before @ [(call, Refused e)])"
  by (auto simp: stopped_at_def)

text \<open>
  The logged operation \<open>m'\<close> does what \<open>m\<close> does; it logs an element of \<open>W a\<close> when it returns
  \<open>a\<close>, and when it fails a entries that stops at the error that it returns.
\<close>

definition tracks ::
  "('s, 'a) store_op \<Rightarrow> ('s \<times> ('llm, 'snap, 'b) store_log, 'a) store_op \<Rightarrow> ('a \<Rightarrow> ('llm, 'snap, 'b) store_log set)
     \<Rightarrow> bool" where
  "tracks m m' W \<longleftrightarrow> (\<forall>s entries. \<exists>r s' cs. m s = (r, s') \<and> m' (s, entries) = (r, (s', entries @ cs))
     \<and> (case r of Inr a \<Rightarrow> cs \<in> W a | Inl e \<Rightarrow> stopped_at e (\<Union>a. W a) cs))"

lemma tracks_logged [intro]: "tracks m (logged c answer m) (\<lambda>a. {[(c, answer a)]})"
  unfolding tracks_def
proof (intro allI)
  fix s entries
  obtain r s' where "m s = (r, s')" by fastforce
  then show "\<exists>r s' cs. m s = (r, s') \<and> logged c answer m (s, entries) = (r, s', entries @ cs)
      \<and> (case r of Inr a \<Rightarrow> cs \<in> {[(c, answer a)]} | Inl e \<Rightarrow> stopped_at e (\<Union>a. {[(c, answer a)]}) cs)"
    by (cases r) (auto simp: logged_def stopped_at_def)
qed

lemma tracks_done: "tracks (done_with a) (done_with a) (\<lambda>b. if b = a then {[]} else {})"
  by (auto simp: tracks_def done_with_def)

lemma tracks_nonempty: "tracks m m' W \<Longrightarrow> \<exists>a w. w \<in> W a"
  unfolding tracks_def stopped_at_def by (fastforce split: sum.splits)

lemma tracks_andThen:
  assumes m: "tracks m m' V" and f: "\<And>a. tracks (f a) (f' a) (W a)"
  shows "tracks (andThen m f) (andThen m' f') (\<lambda>b. {v @ w |v w. \<exists>a. v \<in> V a \<and> w \<in> W a b})"
    (is "tracks _ _ ?U")
  unfolding tracks_def
proof (intro allI)
  fix s entries
  from m obtain r s' cs where 1: "m s = (r, s')" "m' (s, entries) = (r, (s', entries @ cs))"
    "case r of Inr a \<Rightarrow> cs \<in> V a | Inl e \<Rightarrow> stopped_at e (\<Union>a. V a) cs"
    unfolding tracks_def by meson
  show "\<exists>r s' cs. andThen m f s = (r, s') \<and> andThen m' f' (s, entries) = (r, s', entries @ cs)
      \<and> (case r of Inr b \<Rightarrow> cs \<in> ?U b | Inl e \<Rightarrow> stopped_at e (\<Union>b. ?U b) cs)"
  proof (cases r)
    case (Inl e)
    then obtain before call answer rest a where
      v: "cs = before @ [(call, Refused e)]" "before @ (call, answer) # rest \<in> V a"
      using 1(3) by (auto simp: stopped_at_def)
    obtain b w where "w \<in> W a b" using tracks_nonempty [OF f] by blast
    with v(2) have "(before @ (call, answer) # rest) @ w \<in> ?U b" by blast
    then have "before @ (call, answer) # (rest @ w) \<in> (\<Union>b. ?U b)" by auto
    from stopped_atI [OF this, of e] have "stopped_at e (\<Union>b. ?U b) cs" by (simp add: v(1))
    then show ?thesis using 1(1,2) Inl by (simp add: andThen_def)
  next
    case (Inr a)
    from f [of a] obtain r2 s2 ds where 2: "f a s' = (r2, s2)"
      "f' a (s', entries @ cs) = (r2, (s2, (entries @ cs) @ ds))"
      "case r2 of Inr b \<Rightarrow> ds \<in> W a b | Inl e \<Rightarrow> stopped_at e (\<Union>b. W a b) ds"
      unfolding tracks_def by meson
    have c: "cs \<in> V a" using 1(3) Inr by simp
    have "case r2 of Inr b \<Rightarrow> cs @ ds \<in> ?U b | Inl e \<Rightarrow> stopped_at e (\<Union>b. ?U b) (cs @ ds)"
    proof (cases r2)
      case (Inl e)
      then obtain before call answer rest b where
        w: "ds = before @ [(call, Refused e)]" "before @ (call, answer) # rest \<in> W a b"
        using 2(3) by (auto simp: stopped_at_def)
      with c have "cs @ before @ (call, answer) # rest \<in> ?U b" by blast
      then have "(cs @ before) @ (call, answer) # rest \<in> (\<Union>b. ?U b)" by auto
      from stopped_atI [OF this, of e] have "stopped_at e (\<Union>b. ?U b) (cs @ ds)" by (simp add: w(1))
      then show ?thesis using Inl by simp
    next
      case (Inr b)
      then show ?thesis using 2(3) c by auto
    qed
    then show ?thesis using 1(1,2) 2(1,2) Inr by (simp add: andThen_def)
  qed
qed

lemma tracks_weaken:
  assumes "tracks m m' V" "\<And>a. V a \<subseteq> W a"
  shows "tracks m m' W"
  unfolding tracks_def
proof (intro allI)
  fix s entries
  from assms(1) obtain r s' cs where 1: "m s = (r, s')" "m' (s, entries) = (r, (s', entries @ cs))"
    "case r of Inr a \<Rightarrow> cs \<in> V a | Inl e \<Rightarrow> stopped_at e (\<Union>a. V a) cs"
    unfolding tracks_def by meson
  moreover have "case r of Inr a \<Rightarrow> cs \<in> W a | Inl e \<Rightarrow> stopped_at e (\<Union>a. W a) cs"
    using 1(3) assms(2) by (fastforce simp: stopped_at_def split: sum.splits)
  ultimately show "\<exists>r s' cs. m s = (r, s') \<and> m' (s, entries) = (r, s', entries @ cs)
      \<and> (case r of Inr a \<Rightarrow> cs \<in> W a | Inl e \<Rightarrow> stopped_at e (\<Union>a. W a) cs)" by blast
qed

section \<open>The calls of one step\<close>

text \<open>The attempts whose result the scheduler computes itself, with no call of the executor.\<close>

definition finalized_by ::
  "serde \<Rightarrow> ('s, 'llm, 'snap, 'b) scheduler \<Rightarrow> ('llm, 'snap, 'b) claimed_attempt \<Rightarrow> bool" where
  "finalized_by sd sch a \<longleftrightarrow>
     \<not> (is_llm_kind (kind (ca_node a)) \<and> ca_execution_snapshot a \<noteq> None \<and> sch_llm_executor sch \<noteq> None)"

text \<open>The calls that carry out a claimed piece of work, with their answers, when none of them fails.\<close>

inductive work_log ::
  "serde \<Rightarrow> ('s, 'llm, 'snap, 'b) scheduler \<Rightarrow> int \<Rightarrow> ('llm, 'snap, 'b) scheduler_work
     \<Rightarrow> ('llm, 'snap, 'b) store_log \<Rightarrow> bool"
  for sd sch now where
  noop: "work_log sd sch now Noop []"
| builtin: "finalized_by sd sch a \<Longrightarrow>
    work_log sd sch now (Attempt a)
      [(MarkCall a now, Done), (FinalizeCall (finalize_command_of a (execute_builtin sd a)) now, Done),
       (CheckpointCall (ca_run_id a) now, Done)]"
| executed: "\<not> finalized_by sd sch a \<Longrightarrow>
    work_log sd sch now (Attempt a)
      [(MarkCall a now, Done), (ExecuteCall a now, Executed (Finalize result)),
       (FinalizeCall (finalize_command_of a result) now, Done), (CheckpointCall (ca_run_id a) now, Done)]"
| handled: "\<not> finalized_by sd sch a \<Longrightarrow>
    work_log sd sch now (Attempt a)
      [(MarkCall a now, Done), (ExecuteCall a now, Executed Handled), (CheckpointCall (ca_run_id a) now, Done)]"
| activate: "work_log sd sch now (Activate wakeup run nd)
      [(ActivateCall wakeup run nd now, Done), (CheckpointCall run now, Done)]"
| settle: "work_log sd sch now (Settle wakeup run)
      [(SettleCall wakeup run now, Done), (CheckpointCall run now, Done)]"

text \<open>
  The log of a step that returns \<open>busy\<close>: timers, leases, one claim, and then the calls of the
  very work that the claim answered, or none.
\<close>

inductive step_log ::
  "serde \<Rightarrow> ('s, 'llm, 'snap, 'b) scheduler \<Rightarrow> int \<Rightarrow> bool \<Rightarrow> ('llm, 'snap, 'b) store_log \<Rightarrow> bool"
  for sd sch now where
  no_work: "step_log sd sch now (0 < n)
     [(TimersCall now, Counted n), (RecoverCall now, Counted m),
      (ClaimCall (sch_worker_id sch) now (saturating_i64 (now + sch_lease_ms sch)), Claimed None)]"
| work: "work_log sd sch now work entries \<Longrightarrow>
    step_log sd sch now True
     ([(TimersCall now, Counted n), (RecoverCall now, Counted m),
       (ClaimCall (sch_worker_id sch) now (saturating_i64 (now + sch_lease_ms sch)), Claimed (Some work))] @ entries)"

lemma tracks_store:
  "tracks (process_due_timers st now) (process_due_timers (logged_store st) now) (\<lambda>n. {[(TimersCall now, Counted n)]})"
  "tracks (recover_expired_leases st now) (recover_expired_leases (logged_store st) now) (\<lambda>n. {[(RecoverCall now, Counted n)]})"
  "tracks (claim_next_work st w now t) (claim_next_work (logged_store st) w now t) (\<lambda>c. {[(ClaimCall w now t, Claimed c)]})"
  "tracks (mark_attempt_running st a now) (mark_attempt_running (logged_store st) a now) (\<lambda>_. {[(MarkCall a now, Done)]})"
  unfolding logged_store_def scheduler_store.simps by (rule tracks_logged)+

text \<open>The same calls without the checkpoint, by the run that \<open>perform\<close> returns.\<close>

fun work_run :: "('llm, 'snap, 'b) scheduler_work \<Rightarrow> string option" where
  "work_run Noop = None"
| "work_run (Attempt a) = Some (ca_run_id a)"
| "work_run (Activate _ run _) = Some run"
| "work_run (Settle _ run) = Some run"

definition execution_log ::
  "serde \<Rightarrow> ('s, 'llm, 'snap, 'b) scheduler \<Rightarrow> int \<Rightarrow> ('llm, 'snap, 'b) claimed_attempt
     \<Rightarrow> llm_attempt_execution \<Rightarrow> ('llm, 'snap, 'b) store_log set" where
  "execution_log sd sch now a x =
     (if finalized_by sd sch a then (if x = Finalize (execute_builtin sd a) then {[]} else {})
      else {[(ExecuteCall a now, Executed x)]})"

lemma tracks_execute:
  "tracks (execute_attempt sd sch a now) (execute_attempt sd (logged_scheduler sch) a now)
     (execution_log sd sch now a)"
proof (cases "finalized_by sd sch a")
  case True
  then have "execute_attempt sd sch a now = done_with (Finalize (execute_builtin sd a))"
    "execute_attempt sd (logged_scheduler sch) a now = done_with (Finalize (execute_builtin sd a))"
    by (auto simp: execute_attempt_def finalized_by_def logged_scheduler_def split: option.splits)
  then show ?thesis
    using True by (auto intro: tracks_weaken [OF tracks_done] simp: execution_log_def)
next
  case False
  then obtain ex where "execute_attempt sd sch a now = ex a now"
    "execute_attempt sd (logged_scheduler sch) a now = logged (ExecuteCall a now) Executed (ex a now)"
    by (auto simp: execute_attempt_def finalized_by_def logged_scheduler_def split: option.splits)
  then show ?thesis
    using False by (auto intro: tracks_weaken [OF tracks_logged] simp: execution_log_def)
qed

definition finish_log ::
  "int \<Rightarrow> ('llm, 'snap, 'b) claimed_attempt \<Rightarrow> llm_attempt_execution \<Rightarrow> ('llm, 'snap, 'b) store_log" where
  "finish_log now a x =
     (case x of Finalize r \<Rightarrow> [(FinalizeCall (finalize_command_of a r) now, Done)] | Handled \<Rightarrow> [])"

lemma tracks_then_done:
  "tracks (andThen (m :: ('s, unit) store_op) (\<lambda>_. done_with x)) (andThen (logged c (\<lambda>_. Done) m) (\<lambda>_. done_with x))
     (\<lambda>b. if b = x then {[(c, Done)]} else {})"
  by (rule tracks_weaken [OF tracks_andThen [OF tracks_logged tracks_done]]) auto

lemma tracks_finish:
  "tracks
     (case x of
        Finalize result \<Rightarrow>
          andThen (finalize_attempt st (finalize_command_of a result) now) (\<lambda>_. done_with (Some (ca_run_id a)))
      | Handled \<Rightarrow> done_with (Some (ca_run_id a)))
     (case x of
        Finalize result \<Rightarrow>
          andThen (finalize_attempt (logged_store st) (finalize_command_of a result) now)
            (\<lambda>_. done_with (Some (ca_run_id a)))
      | Handled \<Rightarrow> done_with (Some (ca_run_id a)))
     (\<lambda>c. if c = Some (ca_run_id a) then {finish_log now a x} else {})"
proof (cases x)
  case (Finalize r)
  show ?thesis
    unfolding Finalize llm_attempt_execution.case logged_store_def scheduler_store.simps
    by (rule tracks_weaken [OF tracks_then_done]) (simp add: finish_log_def)
next
  case Handled
  show ?thesis
    unfolding Handled llm_attempt_execution.case
    by (rule tracks_weaken [OF tracks_done]) (simp add: finish_log_def)
qed

definition perform_log ::
  "serde \<Rightarrow> ('s, 'llm, 'snap, 'b) scheduler \<Rightarrow> int \<Rightarrow> ('llm, 'snap, 'b) scheduler_work
     \<Rightarrow> ('llm, 'snap, 'b) store_log set" where
  "perform_log sd sch now work =
     (case work of
        Noop \<Rightarrow> {[]}
      | Attempt a \<Rightarrow> {(MarkCall a now, Done) # es @ finish_log now a x |es x. es \<in> execution_log sd sch now a x}
      | Activate wakeup run nd \<Rightarrow> {[(ActivateCall wakeup run nd now, Done)]}
      | Settle wakeup run \<Rightarrow> {[(SettleCall wakeup run now, Done)]})"

lemma tracks_perform:
  "tracks (perform sd sch now work) (perform sd (logged_scheduler sch) now work)
     (\<lambda>c. if c = work_run work then perform_log sd sch now work else {})"
proof (cases work)
  case Noop
  show ?thesis
    unfolding Noop perform_def scheduler_work.case
    by (rule tracks_weaken [OF tracks_done]) (simp add: perform_log_def)
next
  case (Attempt a)
  show ?thesis
    unfolding perform_def Attempt scheduler_work.case logged_scheduler_sel
    by (rule tracks_weaken, rule tracks_andThen, rule tracks_store, rule tracks_andThen, rule tracks_execute,
        rule tracks_finish) (auto simp: perform_log_def split: if_splits)
next
  case (Activate w r n)
  show ?thesis
    unfolding Activate perform_def scheduler_work.case logged_scheduler_sel logged_store_def scheduler_store.simps
    by (rule tracks_weaken [OF tracks_then_done]) (simp add: perform_log_def)
next
  case (Settle w r)
  show ?thesis
    unfolding Settle perform_def scheduler_work.case logged_scheduler_sel logged_store_def scheduler_store.simps
    by (rule tracks_weaken [OF tracks_then_done]) (simp add: perform_log_def)
qed

lemma tracks_checkpoint:
  "tracks
     (case c of None \<Rightarrow> done_with True
      | Some run \<Rightarrow> andThen (checkpoint_run st run now) (\<lambda>_. done_with True))
     (case c of None \<Rightarrow> done_with True
      | Some run \<Rightarrow> andThen (checkpoint_run (logged_store st) run now) (\<lambda>_. done_with True))
     (\<lambda>b. if b then {case c of None \<Rightarrow> [] | Some run \<Rightarrow> [(CheckpointCall run now, Done)]} else {})"
proof (cases c)
  case None
  show ?thesis
    unfolding None option.case by (rule tracks_weaken [OF tracks_done]) simp
next
  case (Some run)
  show ?thesis
    unfolding Some option.case logged_store_def scheduler_store.simps
    by (rule tracks_weaken [OF tracks_then_done]) simp
qed

lemma work_log_complete:
  assumes "cs \<in> perform_log sd sch now work"
  shows "work_log sd sch now work
    (cs @ (case work_run work of None \<Rightarrow> [] | Some run \<Rightarrow> [(CheckpointCall run now, Done)]))"
proof (cases work)
  case (Attempt a)
  then obtain es x where "cs = (MarkCall a now, Done) # es @ finish_log now a x" "es \<in> execution_log sd sch now a x"
    using assms by (auto simp: perform_log_def)
  then show ?thesis
    unfolding Attempt
    by (cases x) (auto simp: execution_log_def finish_log_def intro: work_log.intros split: if_splits)
qed (use assms in \<open>auto simp: perform_log_def intro: work_log.intros\<close>)

lemma step_log_none:
  "busy = (0 < n) \<Longrightarrow> step_log sd sch now busy
     [(TimersCall now, Counted n), (RecoverCall now, Counted m),
      (ClaimCall (sch_worker_id sch) now (saturating_i64 (now + sch_lease_ms sch)), Claimed None)]"
  by (simp only: step_log.no_work)

lemma tracks_run_one:
  "tracks (run_one sd sch now) (run_one sd (logged_scheduler sch) now) (\<lambda>b. {entries. step_log sd sch now b entries})"
proof -
  let ?P = "\<lambda>work c. if c = work_run work then perform_log sd sch now work else {}"
  let ?K = "\<lambda>c b. if b then {case c of None \<Rightarrow> [] | Some run \<Rightarrow> [(CheckpointCall run now, Done)]} else {}"
  have inner: "tracks
     (case claimed of None \<Rightarrow> done_with (0 < timer_work)
      | Some work \<Rightarrow> andThen (perform sd sch now work) (\<lambda>checkpoint.
         case checkpoint of None \<Rightarrow> done_with True
         | Some run \<Rightarrow> andThen (checkpoint_run (sch_store sch) run now) (\<lambda>_. done_with True)))
     (case claimed of None \<Rightarrow> done_with (0 < timer_work)
      | Some work \<Rightarrow> andThen (perform sd (logged_scheduler sch) now work) (\<lambda>checkpoint.
         case checkpoint of None \<Rightarrow> done_with True
         | Some run \<Rightarrow> andThen (checkpoint_run (logged_store (sch_store sch)) run now) (\<lambda>_. done_with True)))
     (\<lambda>b. case claimed of None \<Rightarrow> if b = (0 < timer_work) then {[]} else {}
      | Some work \<Rightarrow> {entries. b \<and> work_log sd sch now work entries})" for claimed and timer_work :: nat
  proof (cases claimed)
    case None
    show ?thesis unfolding None option.case by (rule tracks_done)
  next
    case (Some work)
    show ?thesis
      unfolding Some option.case
    proof (rule tracks_weaken, rule tracks_andThen [OF tracks_perform tracks_checkpoint])
      show "{v @ w |v w. \<exists>c. v \<in> ?P work c \<and> w \<in> ?K c b} \<subseteq> {entries. b \<and> work_log sd sch now work entries}" for b :: bool
        using work_log_complete [of _ sd sch now work] by (auto split: if_splits)
    qed
  qed
  show ?thesis
    unfolding run_one_def logged_scheduler_sel
  proof (rule tracks_weaken, rule tracks_andThen, rule tracks_store, rule tracks_andThen, rule tracks_store,
      rule tracks_andThen, rule tracks_store, rule inner)
  qed (auto intro: step_log_none step_log.work [simplified] split: option.splits if_splits)
qed

text \<open>
  C16: one step of the scheduler lets the store process its timers and recover expired leases,
  then claims work under its own name and lease.  When the claim answers nothing, the step ends
  and is busy if a timer was due.  When it answers a piece of work, the calls that follow are
  those of that work: an attempt is marked running before it is executed, the result of the
  execution is finalized once, with the fence and the epoch it was claimed with, unless the
  executor says that it handled it, and the run is checkpointed last.  A step that fails has
  stopped at the first call that returned an error, and returns that error.
\<close>
theorem step_protocol:
  "\<exists>r s' entries. run_one sd sch now s = (r, s')
     \<and> run_one sd (logged_scheduler sch) now (s, []) = (r, (s', entries))
     \<and> (case r of
           Inr busy \<Rightarrow> step_log sd sch now busy entries
         | Inl e \<Rightarrow> \<exists>before call answer after busy. entries = before @ [(call, Refused e)]
             \<and> step_log sd sch now busy (before @ (call, answer) # after))"
proof -
  from tracks_run_one [of sd sch now] obtain r s' cs where
    "run_one sd sch now s = (r, s')" "run_one sd (logged_scheduler sch) now (s, []) = (r, (s', cs))"
    "case r of Inr b \<Rightarrow> cs \<in> {entries. step_log sd sch now b entries}
      | Inl e \<Rightarrow> stopped_at e (\<Union>b. {entries. step_log sd sch now b entries}) cs"
    unfolding tracks_def by (metis append_Nil)
  then show ?thesis by (auto simp: stopped_at_def split: sum.splits)
qed

section \<open>The idempotency key\<close>

lemma digits_suffix_unique:
  assumes "as @ CHR '':'' # ds = bs @ CHR '':'' # es" "list_all is_digit ds" "list_all is_digit es"
  shows "as = bs \<and> ds = es"
proof -
  have colon: "\<not> is_digit (CHR '':'')" by code_simp
  then have split: "takeWhile is_digit (rev xs @ CHR '':'' # zs) = rev xs" if "list_all is_digit xs" for xs zs
    using that by (subst takeWhile_append2) (simp_all add: list_all_iff)
  from arg_cong [OF assms(1), of rev] have r: "rev ds @ CHR '':'' # rev as = rev es @ CHR '':'' # rev bs"
    by simp
  then have "rev ds = rev es" using split [OF assms(2)] split [OF assms(3)] by metis
  with r show ?thesis by simp
qed

text \<open>
  Two finalizations carry the same idempotency key exactly when they are of the same attempt
  under the same lease fence.
\<close>
theorem result_key_unique: "result_key a f = result_key b g \<longleftrightarrow> a = b \<and> f = g"
  using digits_suffix_unique [of a "show_nat f" b "show_nat g"] show_nat_digits
  by (auto simp: result_key_def)

section \<open>The loop\<close>

text \<open>\<open>k\<close> steps that each found work.\<close>

inductive busy_steps ::
  "serde \<Rightarrow> ('s, 'llm, 'snap, 'b) scheduler \<Rightarrow> int \<Rightarrow> nat \<Rightarrow> 's \<Rightarrow> 's \<Rightarrow> bool"
  for sd sch now where
  none: "busy_steps sd sch now 0 s s"
| step: "run_one sd sch now s = (Inr True, s1) \<Longrightarrow> busy_steps sd sch now k s1 s2
    \<Longrightarrow> busy_steps sd sch now (Suc k) s s2"

inductive_cases busy_steps_zeroE: "busy_steps sd sch now 0 s t"
inductive_cases busy_steps_SucE: "busy_steps sd sch now (Suc k) s t"

inductive_simps busy_steps_zero [simp]: "busy_steps sd sch now 0 s t"
inductive_simps busy_steps_Suc: "busy_steps sd sch now (Suc k) s t"

text \<open>How the loop ends after \<open>k\<close> busy steps in the state \<open>t\<close>.\<close>

definition loop_end ::
  "serde \<Rightarrow> ('s, 'llm, 'snap, 'b) scheduler \<Rightarrow> int \<Rightarrow> nat \<Rightarrow> nat \<Rightarrow> 's
     \<Rightarrow> application_error + nat \<Rightarrow> 's \<Rightarrow> bool" where
  "loop_end sd sch now n k t r s' \<longleftrightarrow>
     (k = n \<and> s' = t \<and> r = Inr k)
     \<or> (k < n \<and> run_one sd sch now t = (Inr False, s') \<and> r = Inr k)
     \<or> (k < n \<and> (\<exists>e. run_one sd sch now t = (Inl e, s') \<and> r = Inl e))"

lemma idle_loop_end:
  "idle_loop sd sch now left steps s = (r, s') \<Longrightarrow>
     \<exists>k t. busy_steps sd sch now k s t \<and>
       loop_end sd sch now left k t (case r of Inr m \<Rightarrow> Inr (m - steps) | Inl e \<Rightarrow> Inl e) s'
       \<and> (case r of Inr m \<Rightarrow> m = steps + k | Inl e \<Rightarrow> True)"
proof (induction left arbitrary: steps s)
  case 0
  then show ?case by (auto intro!: exI [of _ 0] simp: loop_end_def)
next
  case (Suc left)
  obtain x s1 where one: "run_one sd sch now s = (x, s1)" by fastforce
  show ?case
  proof (cases "x = Inr True")
    case True
    then have "idle_loop sd sch now left (steps + 1) s1 = (r, s')" using Suc.prems one by simp
    from Suc.IH [OF this] obtain k t where
      k: "busy_steps sd sch now k s1 t" "loop_end sd sch now left k t
        (case r of Inr m \<Rightarrow> Inr (m - (steps + 1)) | Inl e \<Rightarrow> Inl e) s'"
        "case r of Inr m \<Rightarrow> m = steps + 1 + k | Inl e \<Rightarrow> True" by blast
    have "busy_steps sd sch now (Suc k) s t" using one True k(1) by (blast intro: busy_steps.step)
    moreover have "loop_end sd sch now (Suc left) (Suc k) t
        (case r of Inr m \<Rightarrow> Inr (m - steps) | Inl e \<Rightarrow> Inl e) s'"
      using k(2,3) by (cases r) (auto simp: loop_end_def)
    ultimately show ?thesis using k(3) by (intro exI [of _ "Suc k"] exI [of _ t]) (auto split: sum.splits)
  next
    case False
    then have "(r = Inr steps \<and> x = Inr False \<or> (\<exists>e. x = Inl e \<and> r = Inl e)) \<and> s' = s1"
      using Suc.prems one by (cases x) (auto split: if_splits)
    then show ?thesis
      using one by (intro exI [of _ 0] exI [of _ s]) (auto simp: loop_end_def)
  qed
qed

lemma busy_steps_unique:
  "busy_steps sd sch now k s t \<Longrightarrow> busy_steps sd sch now k s u \<Longrightarrow> t = u"
proof (induction arbitrary: u rule: busy_steps.induct)
  case (step s s1 k s2)
  from step.prems step.hyps(1) have "busy_steps sd sch now k s1 u" by (auto simp: busy_steps_Suc)
  then show ?case by (rule step.IH)
qed simp

lemma busy_steps_continue:
  "busy_steps sd sch now k s t \<Longrightarrow> busy_steps sd sch now m s u \<Longrightarrow> k < m \<Longrightarrow>
     \<exists>t'. run_one sd sch now t = (Inr True, t')"
proof (induction arbitrary: m rule: busy_steps.induct)
  case (none s)
  then show ?case by (cases m) (auto simp: busy_steps_Suc)
next
  case (step s s1 k s2)
  obtain m' where m: "m = Suc m'" using step.prems(2) by (cases m) auto
  then have "busy_steps sd sch now m' s1 u" using step.prems(1) step.hyps(1) by (auto simp: busy_steps_Suc)
  then show ?case using step.prems(2) unfolding m by (intro step.IH) auto
qed

text \<open>The end of the loop is determined.\<close>

lemma loop_end_unique:
  assumes "busy_steps sd sch now k s t" "loop_end sd sch now n k t r s'"
    and "busy_steps sd sch now m s u" "loop_end sd sch now n m u r' s''"
  shows "r = r' \<and> s' = s''"
proof -
  have "k = m"
  proof (rule ccontr)
    assume "k \<noteq> m"
    then consider "k < m" | "m < k" by linarith
    then show False
      using assms busy_steps_continue [of sd sch now k s t m u] busy_steps_continue [of sd sch now m s u k t]
      by cases (auto simp: loop_end_def)
  qed
  with assms busy_steps_unique [OF assms(1)] show ?thesis by (auto simp: loop_end_def)
qed

text \<open>
  C17: the loop returns \<open>r\<close> in the state \<open>s'\<close> exactly when there are \<open>k\<close> steps that
  found work, and either \<open>k\<close> is the maximum and it stops there with \<open>k\<close>, or the next step
  found nothing and it stops with \<open>k\<close>, or the next step failed and its error is returned.
\<close>
theorem run_until_idle_exact:
  "run_until_idle sd sch now max_steps s = (r, s') \<longleftrightarrow>
     (\<exists>k t. busy_steps sd sch now k s t \<and> loop_end sd sch now max_steps k t r s')"
proof -
  obtain q u where run: "run_until_idle sd sch now max_steps s = (q, u)" by fastforce
  from idle_loop_end [OF this [unfolded run_until_idle_def]]
  obtain k t where k: "busy_steps sd sch now k s t" "loop_end sd sch now max_steps k t q u"
    by (cases q) auto
  show ?thesis
  proof
    assume "run_until_idle sd sch now max_steps s = (r, s')"
    then show "\<exists>k t. busy_steps sd sch now k s t \<and> loop_end sd sch now max_steps k t r s'" using run k by auto
  next
    assume "\<exists>k t. busy_steps sd sch now k s t \<and> loop_end sd sch now max_steps k t r s'"
    then obtain m t' where "busy_steps sd sch now m s t'" "loop_end sd sch now max_steps m t' r s'" by blast
    then have "r = q \<and> s' = u" using k by (rule loop_end_unique)
    then show "run_until_idle sd sch now max_steps s = (r, s')" using run by simp
  qed
qed

end
