(* ===== verification/Scheduler_Nodes.thy ===== *)
theory Scheduler_Nodes
  imports Scheduler
begin

text \<open>
  What the built-in nodes hand to the store: the ports they emit on, the envelope of a join,
  the items of an expansion.
\<close>

section \<open>Ports\<close>

fun emitted_ports :: "builtin_result \<Rightarrow> string list" where
  "emitted_ports (Completed m) = om_keys m"
| "emitted_ports (Expanded port _) = [port]"
| "emitted_ports (Decided d) = selected_ports d"
| "emitted_ports _ = []"

lemma om_of_list_single [simp]: "om_of_list [(k, v)] = [(k, v)]"
  by (simp add: om_of_list_def)

lemma resolved_ok_object: "resolved_ok m \<Longrightarrow> wf_json (JObject (om_of_list m))"
  using om_insert_set_subset
proof -
  have "list_all (\<lambda>(_, v). wf_json v) (fold (\<lambda>(k, v). om_insert k v) m acc)"
    if "resolved_ok m" "list_all (\<lambda>(_, v). wf_json v) acc" for acc
    using that
  proof (induction m arbitrary: acc)
    case (Cons kv m)
    obtain k v where kv: "kv = (k, v)" by fastforce
    have "list_all (\<lambda>(_, v). wf_json v) (om_insert k v acc)"
      using om_insert_set_subset [of k v acc] Cons.prems by (auto simp: list_all_iff resolved_ok_def kv)
    moreover have "resolved_ok m" using Cons.prems(1) by (simp add: resolved_ok_def)
    ultimately show ?case using Cons.IH [of "om_insert k v acc"] by (simp add: kv)
  qed (simp add: resolved_ok_def)
  then show "resolved_ok m \<Longrightarrow> wf_json (JObject (om_of_list m))"
    by (simp add: om_of_list_def [of m, symmetric]) (simp add: om_of_list_def)
qed

lemma router_ports:
  assumes v: "valid_router sd' run (ca_node a) cfg" and k: "kind (ca_node a) = NRouter cfg"
    and ok: "resolved_ok (ca_inputs a)" "resolved_ok (ca_memory a)"
  shows "set (emitted_ports (execute_router sd a)) \<subseteq> set (map out_name (outputs (ca_node a)))"
proof (cases "execute_router sd a")
  case (Decided d)
  then obtain ctl where
    "evaluate_router sd (ca_node a) (ca_inputs a) (JObject (om_of_list (ca_memory a))) ctl = Inr d"
    by (auto simp: execute_router_def split: option.splits sum.splits)
  from decision_route [OF v k this ok(1) resolved_ok_object [OF ok(2)]]
  show ?thesis by (simp add: Decided valid_route_def)
qed (auto simp: execute_router_def split: option.splits sum.splits)


section \<open>Joins\<close>

lemma present_inputs_get:
  "map_of (rev (present_inputs m ps)) name = (if name \<in> set (map in_name ps) then om_get m name else None)"
proof (induction ps)
  case (Cons p ps)
  show ?case
  proof (cases "name = in_name p")
    case True
    show ?thesis using Cons.IH by (auto simp: True map_add_def split: option.splits)
  next
    case False
    then show ?thesis using Cons.IH by (auto simp: map_add_def split: option.splits)
  qed
qed simp

text \<open>
  An attempt of a join with its coordination snapshot completes its first output with an
  envelope of the join key and an object of the values, which has a field exactly for each
  declared input that the activation holds, with that input's value.
\<close>
theorem join_envelope:
  assumes "kind (ca_node a) = NJoinByKey keys limit timeout" "ca_coordination a = Some c"
    and "outputs (ca_node a) = port # ports"
  shows "\<exists>values. execute_builtin sd a = Completed [(out_name port,
        JObject [(''key'', join_key c), (''values'', JObject values)])]
      \<and> om_wf values
      \<and> (\<forall>name. om_get values name =
           (if name \<in> set (map in_name (inputs (ca_node a))) then om_get (ca_inputs a) name else None))"
proof -
  have "om_of_list [(''key'', x), (''values'', y)] = [(''key'', x), (''values'', y)]" for x y :: json
    by (simp add: om_of_list_def)
  then have "execute_builtin sd a = Completed [(out_name port, JObject [(''key'', join_key c),
      (''values'', JObject (om_of_list (present_inputs (ca_inputs a) (inputs (ca_node a)))))])]"
    using assms by (simp add: execute_builtin_def execute_join_def)
  moreover have "om_get (om_of_list (present_inputs (ca_inputs a) (inputs (ca_node a)))) name =
      (if name \<in> set (map in_name (inputs (ca_node a))) then om_get (ca_inputs a) name else None)" for name
    unfolding om_get_of_list present_inputs_get ..
  ultimately show ?thesis by (intro exI [of _ "om_of_list (present_inputs (ca_inputs a) (inputs (ca_node a)))"]) auto
qed

section \<open>Delays of applied nodes\<close>

text \<open>
  The retry policy of an applied node never shortens the base of the delay, and the jitter at
  most doubles it.
\<close>

lemma applied_retry_delay:
  assumes "apply_graph env draft taxonomy decoder = Some (Inr g)" "nd \<in> set (ad_nodes (ag_definition g))"
    and "node_retry_policy nd = Some p" "policy_u64 p"
  shows "backoff_base p n \<le> backoff_base p (Suc n)" "retry_delay_ms sha p i n \<le> 2 * backoff_base p n"
proof -
  have v: "valid_policy p"
    using applied_well_formed(1) [OF assms(1)] assms(2,3) by (auto simp: well_formed_def list_all_iff valid_node_def)
  then show "backoff_base p n \<le> backoff_base p (Suc n)"
    using assms(4) by (intro backoff_base_mono) (auto simp: valid_policy_def)
  have "jitter_ratio_micros p \<le> 1000000" using v by (simp add: valid_policy_def)
  then have "backoff_base p n * jitter_ratio_micros p div 1000000 \<le> backoff_base p n * 1000000 div 1000000"
    by (intro div_le_mono mult_le_mono2)
  then have "jitter_span p (backoff_base p n) \<le> backoff_base p n"
    unfolding jitter_span_exact by (simp add: min.coboundedI1)
  then show "retry_delay_ms sha p i n \<le> 2 * backoff_base p n"
    using retry_delay_near(2) [OF assms(4), where ordinal = n and sha = sha and instance_id = i] by simp
qed

section \<open>Concrete attempts\<close>

definition sample_attempt ::
  "'llm graph_node \<Rightarrow> (string, json) omap \<Rightarrow> control_snapshot option \<Rightarrow> claimed_coordination_snapshot option
     \<Rightarrow> ('llm, 'snap, 'b) claimed_attempt" where
  "sample_attempt nd ins ctl c =
     \<lparr>ca_wakeup_id = ''w'', ca_run_id = ''run'', ca_node_instance_id = ''i'', ca_attempt_id = ''a'',
      ca_worker_id = ''worker'', ca_lease_fence = 1, ca_run_control_epoch = 0, ca_node = nd, ca_inputs = ins,
      ca_memory = [], ca_router_control = ctl, ca_execution_snapshot = None, ca_context_snapshot = None,
      ca_coordination = c, ca_wait_resume = None\<rparr>"


definition join_node :: "unit graph_node" where
  "join_node = \<lparr>node_id = ''j'', node_name = None, is_entry = False,
     inputs = [\<lparr>in_name = ''left'', in_schema = None, in_selector = WholeValue\<rparr>], outputs = [default_output],
     timeout_ms = None, node_retry_policy = None, kind = NJoinByKey [] 1 1\<rparr>"

lemma join_envelope_witness:
  "\<exists>values. execute_builtin plain_serde (sample_attempt join_node [(''left'', JNull), (''other'', JBool True)] None
        (Some \<lparr>join_key = JString ''k''\<rparr>) :: (unit, unit, unit) claimed_attempt)
      = Completed [(''default'', JObject [(''key'', JString ''k''), (''values'', JObject values)])]
    \<and> om_get values ''left'' = Some JNull \<and> om_get values ''other'' = None"
proof -
  let ?a = "sample_attempt join_node [(''left'', JNull), (''other'', JBool True)] None
    (Some \<lparr>join_key = JString ''k''\<rparr>) :: (unit, unit, unit) claimed_attempt"
  have "kind (ca_node ?a) = NJoinByKey [] 1 1" "ca_coordination ?a = Some \<lparr>join_key = JString ''k''\<rparr>"
    "outputs (ca_node ?a) = [default_output]"
    by (simp_all add: sample_attempt_def join_node_def)
  from join_envelope [OF this, of plain_serde] obtain vs where
    v: "execute_builtin plain_serde ?a = Completed [(''default'',
        JObject [(''key'', JString ''k''), (''values'', JObject vs)])]"
      "\<And>name. om_get vs name = (if name \<in> set (map in_name (inputs (ca_node ?a)))
        then om_get (ca_inputs ?a) name else None)"
    by (auto simp: default_output_def)
  have "om_get vs ''left'' = Some JNull" "om_get vs ''other'' = None"
    unfolding v(2) by (simp_all add: sample_attempt_def join_node_def om_get_def)
  with v(1) show ?thesis by blast
qed

end
