(* ===== verification/Stream_Finalizer.thy ===== *)
theory Stream_Finalizer
  imports Llm_Transcript
begin

text \<open>
  \<open>StreamFinalizer\<close> of \<open>crates/core/src/llm/ir/finalizer.rs\<close>: the state machine that takes
  the events of a model call in order and ends with one terminal.  A push returns its result and
  the state it leaves, also when it fails, since the code changes the state before some of its
  checks.  The hash maps of accumulated texts and tool deltas are ordered maps; the order in which
  the code walks the texts only decides which of two errors it reports first.  Sums of lengths
  saturate in the code and are far below the limit of \<open>usize\<close>.
\<close>

section \<open>The code\<close>

datatype 'k terminal = TerminalCompleted "'k llm_response" | TerminalFailed "'k llm_api_error"

record tool_delta_state =
  td_item_id :: string
  td_name_seen :: "string option"
  td_args :: string
  td_completed :: bool

definition no_delta :: tool_delta_state where
  "no_delta = \<lparr>td_item_id = [], td_name_seen = None, td_args = [], td_completed = False\<rparr>"

record 'k finalizer =
  sf_call_id :: "string option"
  sf_next_seq :: nat
  sf_started :: bool
  sf_terminal :: "'k terminal option"
  sf_item_order :: "string list"
  sf_seen_items :: "string set"
  sf_text :: "(string, string) omap"
  sf_tool_deltas :: "(string, tool_delta_state) omap"

definition new_finalizer :: "'k finalizer" where
  "new_finalizer =
     \<lparr>sf_call_id = None, sf_next_seq = 0, sf_started = False, sf_terminal = None,
      sf_item_order = [], sf_seen_items = {}, sf_text = [], sf_tool_deltas = []\<rparr>"

type_synonym 'k outcome = "(string + unit) \<times> 'k finalizer"

definition observe :: "string \<Rightarrow> 'k finalizer \<Rightarrow> 'k outcome" where
  "observe i st =
     (if i = [] \<or> 128 < length i then (Inl ''invalid_stream_item_id'', st)
      else if i \<in> sf_seen_items st then (Inr (), st)
      else (Inr (), st\<lparr>sf_seen_items := insert i (sf_seen_items st), sf_item_order := sf_item_order st @ [i]\<rparr>))"

definition after :: "'k outcome \<Rightarrow> ('k finalizer \<Rightarrow> 'k outcome) \<Rightarrow> 'k outcome" where
  "after m f = (case m of (Inl e, st) \<Rightarrow> (Inl e, st) | (Inr _, st) \<Rightarrow> f st)"

definition bad_delta_text :: "string \<Rightarrow> bool" where
  "bad_delta_text text \<longleftrightarrow> text = [] \<or> 256 * 1024 < length text"

definition text_of :: "'k finalizer \<Rightarrow> string \<Rightarrow> string" where
  "text_of st i = (case om_get (sf_text st) i of None \<Rightarrow> [] | Some t \<Rightarrow> t)"

definition push_text :: "string \<Rightarrow> string \<Rightarrow> 'k finalizer \<Rightarrow> 'k outcome" where
  "push_text i text st =
     (if bad_delta_text text then (Inl ''invalid_text_delta'', st)
      else after (observe i st) (\<lambda>st.
        let buffer = text_of st i
        in if 4 * 1024 * 1024 < length buffer + length text
           then (Inl ''stream_text_limit'', st\<lparr>sf_text := om_insert i buffer (sf_text st)\<rparr>)
           else (Inr (), st\<lparr>sf_text := om_insert i (buffer @ text) (sf_text st)\<rparr>)))"

definition push_reasoning :: "string \<Rightarrow> string \<Rightarrow> 'k finalizer \<Rightarrow> 'k outcome" where
  "push_reasoning i text st =
     (if bad_delta_text text then (Inl ''invalid_reasoning_delta'', st) else observe i st)"

definition delta_of :: "'k finalizer \<Rightarrow> string \<Rightarrow> tool_delta_state" where
  "delta_of st call = (case om_get (sf_tool_deltas st) call of None \<Rightarrow> no_delta | Some d \<Rightarrow> d)"

definition put_delta :: "string \<Rightarrow> tool_delta_state \<Rightarrow> 'k finalizer \<Rightarrow> 'k finalizer" where
  "put_delta call d st = st\<lparr>sf_tool_deltas := om_insert call d (sf_tool_deltas st)\<rparr>"

definition push_arguments :: "string \<Rightarrow> string option \<Rightarrow> tool_delta_state \<Rightarrow> 'k finalizer \<Rightarrow> 'k outcome" where
  "push_arguments call arguments d st =
     (case arguments of
        None \<Rightarrow> (Inr (), put_delta call d st)
      | Some delta \<Rightarrow>
          if 256 * 1024 < length (td_args d) + length delta
          then (Inl ''tool_arguments_limit'', put_delta call d st)
          else (Inr (), put_delta call (d\<lparr>td_args := td_args d @ delta\<rparr>) st))"

definition push_tool_delta ::
  "string \<Rightarrow> string \<Rightarrow> string option \<Rightarrow> string option \<Rightarrow> 'k finalizer \<Rightarrow> 'k outcome" where
  "push_tool_delta i call name arguments st =
     after (observe i st) (\<lambda>st.
     let d = delta_of st call
     in if td_completed d \<or> td_item_id d \<noteq> [] \<and> td_item_id d \<noteq> i
        then (Inl ''tool_delta_identity_error'', put_delta call d st)
        else
          (let d = d\<lparr>td_item_id := i\<rparr>
           in case name of
                None \<Rightarrow> push_arguments call arguments d st
              | Some n \<Rightarrow>
                  if td_name_seen d \<noteq> None \<and> td_name_seen d \<noteq> Some n
                  then (Inl ''tool_delta_name_error'', put_delta call d st)
                  else push_arguments call arguments (d\<lparr>td_name_seen := Some n\<rparr>) st))"

text \<open>\<open>to_vec(..).ok()\<close>: two values that cannot be written count as equal.\<close>

definition same_canonical :: "serde \<Rightarrow> json \<Rightarrow> json \<Rightarrow> bool" where
  "same_canonical sd a b \<longleftrightarrow>
     (case to_vec sd a of Inl _ \<Rightarrow> None | Inr s \<Rightarrow> Some s) = (case to_vec sd b of Inl _ \<Rightarrow> None | Inr s \<Rightarrow> Some s)"

definition push_tool_completed :: "('k, 'g) ir_env \<Rightarrow> 'k turn_item \<Rightarrow> 'k finalizer \<Rightarrow> 'k outcome" where
  "push_tool_completed env item st =
     (case item of
        AssistantToolCall i call \<Rightarrow>
          after (observe i st) (\<lambda>st.
          let d = delta_of st (tc_id call); st = put_delta (tc_id call) d st
          in if td_completed d \<or> td_item_id d \<noteq> [] \<and> td_item_id d \<noteq> i
                \<or> td_name_seen d \<noteq> None \<and> td_name_seen d \<noteq> Some (tc_name call)
             then (Inl ''tool_terminal_mismatch'', st)
             else if td_args d = [] then (Inr (), put_delta (tc_id call) (d\<lparr>td_completed := True\<rparr>) st)
             else (case ie_parse env (td_args d) of
                     None \<Rightarrow> (Inl ''incomplete_tool_arguments'', st)
                   | Some parsed \<Rightarrow>
                       if same_canonical (ie_serde env) parsed (tc_arguments call)
                       then (Inr (), put_delta (tc_id call) (d\<lparr>td_completed := True\<rparr>) st)
                       else (Inl ''tool_arguments_mismatch'', st)))
      | _ \<Rightarrow> (Inl ''invalid_tool_terminal_item'', st))"

definition push_hosted :: "'k turn_item \<Rightarrow> 'k finalizer \<Rightarrow> 'k outcome" where
  "push_hosted item st =
     (case item of
        HostedTool i _ _ _ _ _ \<Rightarrow> observe i st
      | _ \<Rightarrow> (Inl ''invalid_hosted_stream_item'', st))"

definition validate_usage_event :: "llm_usage \<Rightarrow> string + unit" where
  "validate_usage_event u = ensureR (list_all (\<lambda>v. v \<le> 10000000000) (usage_values u)) ''stream_usage_limit''"

definition validate_failure :: "('k, 'g) ir_env \<Rightarrow> 'k llm_api_error \<Rightarrow> string + unit" where
  "validate_failure env e =
     ensureR (ie_consistent env (le_operation_key e)
       \<and> supports_operation_versions (le_operation_taxonomy_version e) (le_adapter_decoder_version e)
       \<and> le_message e \<noteq> [] \<and> length (le_message e) \<le> 4096
       \<and> (case le_code e of None \<Rightarrow> True | Some c \<Rightarrow> length c \<le> 128)) ''invalid_stream_failure''"

text \<open>The last position of an id, as the collected map of positions has it.\<close>

definition position_of :: "'k turn_item list \<Rightarrow> string \<Rightarrow> nat option" where
  "position_of items i = map_of (rev (zip (map item_id items) [0..<length items])) i"

fun check_order :: "'k turn_item list \<Rightarrow> string list \<Rightarrow> nat option \<Rightarrow> string + unit" where
  "check_order items [] previous = Inr ()"
| "check_order items (i # is) previous =
     (case position_of items i of
        None \<Rightarrow> Inl ''stream_item_missing_from_terminal''
      | Some p \<Rightarrow>
          (case previous of
             Some q \<Rightarrow> if p \<le> q then Inl ''stream_item_order_mismatch'' else check_order items is (Some p)
           | None \<Rightarrow> check_order items is (Some p)))"

definition message_text :: "content_part list \<Rightarrow> string" where
  "message_text content = concat (map (\<lambda>p. case p of TextPart t \<Rightarrow> t | _ \<Rightarrow> []) content)"

definition check_text :: "'k turn_item list \<Rightarrow> string \<times> string \<Rightarrow> string + unit" where
  "check_text items kv =
     (case find (\<lambda>it. item_id it = fst kv) items of
        Some (Message _ _ content _ _) \<Rightarrow> ensureR (message_text content = snd kv) ''stream_text_mismatch''
      | _ \<Rightarrow> Inl ''stream_text_item_missing'')"

definition validate_response_order_and_text :: "'k finalizer \<Rightarrow> 'k llm_response \<Rightarrow> string + unit" where
  "validate_response_order_and_text st r =
     bindR (check_order (rs_items r) (sf_item_order st) None) (\<lambda>_.
     eachR (check_text (rs_items r)) (sf_text st))"

definition push_completed :: "('k, 'g) ir_env \<Rightarrow> 'k llm_response \<Rightarrow> 'k finalizer \<Rightarrow> 'k outcome" where
  "push_completed env r st =
     (let checks =
        bindR (ensureR (rs_model_call_id r = (case sf_call_id st of None \<Rightarrow> [] | Some c \<Rightarrow> c))
            ''stream_terminal_call_mismatch'') (\<lambda>_.
        bindR (ensureR (list_all (\<lambda>(_, d). td_completed d) (sf_tool_deltas st)) ''incomplete_tool_call'') (\<lambda>_.
        bindR (validate_response_ir env r) (\<lambda>_.
        validate_response_order_and_text st r)))
      in case checks of
           Inl e \<Rightarrow> (Inl e, st)
         | Inr _ \<Rightarrow> (Inr (), st\<lparr>sf_terminal := Some (TerminalCompleted r)\<rparr>))"

definition push_failed :: "('k, 'g) ir_env \<Rightarrow> 'k llm_api_error \<Rightarrow> 'k finalizer \<Rightarrow> 'k outcome" where
  "push_failed env e st =
     (case validate_failure env e of
        Inl c \<Rightarrow> (Inl c, st)
      | Inr _ \<Rightarrow> (Inr (), st\<lparr>sf_terminal := Some (TerminalFailed e)\<rparr>))"

definition apply_event :: "('k, 'g) ir_env \<Rightarrow> 'k stream_event \<Rightarrow> 'k finalizer \<Rightarrow> 'k outcome" where
  "apply_event env ev st =
     (case ev of
        Started _ _ \<Rightarrow>
          if sf_started st then (Inl ''duplicate_stream_start'', st) else (Inr (), st\<lparr>sf_started := True\<rparr>)
      | TextDelta _ _ i text \<Rightarrow> push_text i text st
      | ReasoningDelta _ _ i text \<Rightarrow> push_reasoning i text st
      | ToolCallDelta _ _ i call name arguments \<Rightarrow> push_tool_delta i call name arguments st
      | ToolCallCompleted _ _ item \<Rightarrow> push_tool_completed env item st
      | HostedToolEvent _ _ item \<Rightarrow> push_hosted item st
      | UsageEvent _ _ u \<Rightarrow> (validate_usage_event u, st)
      | CompletedEvent _ _ r \<Rightarrow> push_completed env r st
      | FailedEvent _ _ e \<Rightarrow> push_failed env e st)"

definition push :: "('k, 'g) ir_env \<Rightarrow> 'k stream_event \<Rightarrow> 'k finalizer \<Rightarrow> 'k outcome" where
  "push env ev st =
     (if sf_terminal st \<noteq> None then (Inl ''stream_after_terminal'', st)
      else if event_seq ev \<noteq> sf_next_seq st then (Inl ''stream_sequence_error'', st)
      else if sf_call_id st \<noteq> None \<and> sf_call_id st \<noteq> Some (event_call_id ev)
      then (Inl ''stream_call_mismatch'', st)
      else
        (let st = st\<lparr>sf_call_id := Some (event_call_id ev)\<rparr>
         in if \<not> sf_started st \<and> \<not> is_started ev then (Inl ''stream_start_missing'', st)
            else apply_event env ev (st\<lparr>sf_next_seq := min u64_max (sf_next_seq st + 1)\<rparr>)))"

definition finish :: "'k finalizer \<Rightarrow> string + 'k terminal" where
  "finish st = of_optionR ''stream_terminal_missing'' (sf_terminal st)"

text \<open>A stream is pushed event by event, and given up at the first error (\<open>push(event)?\<close>).\<close>

fun push_all :: "('k, 'g) ir_env \<Rightarrow> 'k stream_event list \<Rightarrow> 'k finalizer \<Rightarrow> 'k outcome" where
  "push_all env [] st = (Inr (), st)"
| "push_all env (ev # evs) st = after (push env ev st) (push_all env evs)"

definition run_stream :: "('k, 'g) ir_env \<Rightarrow> 'k stream_event list \<Rightarrow> string + 'k terminal" where
  "run_stream env evs =
     (case push_all env evs new_finalizer of (Inl e, _) \<Rightarrow> Inl e | (Inr _, st) \<Rightarrow> finish st)"

end
