(* ===== verification/Stream_Properties.thy ===== *)
theory Stream_Properties
  imports Stream_Finalizer "HOL-Library.Sublist"
begin

text \<open>
  What a stream that ends with a terminal is: the properties of the finalizer over the whole
  sequence of pushed events.
\<close>

section \<open>The events of a stream\<close>

text \<open>The elements of a list in the order of their first occurrence.\<close>

definition first_seen :: "'a list \<Rightarrow> 'a list" where
  "first_seen xs = rev (remdups (rev xs))"

lemma first_seen_snoc:
  "first_seen (xs @ [x]) = (if x \<in> set xs then first_seen xs else first_seen xs @ [x])"
  by (simp add: first_seen_def)

lemma first_seen_simps [simp]: "first_seen [] = []" "set (first_seen xs) = set xs" "distinct (first_seen xs)"
  by (simp_all add: first_seen_def)

fun observed :: "'k stream_event \<Rightarrow> string list" where
  "observed (TextDelta _ _ i _) = [i]"
| "observed (ReasoningDelta _ _ i _) = [i]"
| "observed (ToolCallDelta _ _ i _ _ _) = [i]"
| "observed (ToolCallCompleted _ _ item) = [item_id item]"
| "observed (HostedToolEvent _ _ item) = [item_id item]"
| "observed _ = []"

fun text_delta :: "'k stream_event \<Rightarrow> (string \<times> string) option" where
  "text_delta (TextDelta _ _ i t) = Some (i, t)"
| "text_delta _ = None"

definition text_ids :: "'k stream_event list \<Rightarrow> string set" where
  "text_ids evs = {i. \<exists>ev \<in> set evs. \<exists>t. text_delta ev = Some (i, t)}"

definition streamed_text :: "'k stream_event list \<Rightarrow> string \<Rightarrow> string" where
  "streamed_text evs i =
     concat (map (\<lambda>ev. case text_delta ev of Some (j, t) \<Rightarrow> if j = i then t else [] | None \<Rightarrow> []) evs)"

fun argument_delta :: "string \<Rightarrow> 'k stream_event \<Rightarrow> string" where
  "argument_delta call (ToolCallDelta _ _ _ c _ (Some a)) = (if c = call then a else [])"
| "argument_delta call _ = []"

definition streamed_arguments :: "'k stream_event list \<Rightarrow> string \<Rightarrow> string" where
  "streamed_arguments evs call = concat (map (argument_delta call) evs)"

fun name_delta :: "string \<Rightarrow> 'k stream_event \<Rightarrow> string list" where
  "name_delta call (ToolCallDelta _ _ _ c (Some n) _) = (if c = call then [n] else [])"
| "name_delta call _ = []"

text \<open>The names that the deltas of a call carried.\<close>

definition streamed_names :: "'k stream_event list \<Rightarrow> string \<Rightarrow> string list" where
  "streamed_names evs call = concat (map (name_delta call) evs)"

fun call_item :: "string \<Rightarrow> 'k stream_event \<Rightarrow> string list" where
  "call_item call (ToolCallDelta _ _ i c _ _) = (if c = call then [i] else [])"
| "call_item call (ToolCallCompleted _ _ (AssistantToolCall i c)) = (if tc_id c = call then [i] else [])"
| "call_item call _ = []"

text \<open>The items under which the deltas and the completion of a call came.\<close>

definition call_items :: "'k stream_event list \<Rightarrow> string \<Rightarrow> string list" where
  "call_items evs call = concat (map (call_item call) evs)"

fun completion :: "string \<Rightarrow> 'k stream_event \<Rightarrow> tool_call_ir list" where
  "completion call (ToolCallCompleted _ _ (AssistantToolCall _ c)) = (if tc_id c = call then [c] else [])"
| "completion call _ = []"

definition completions :: "'k stream_event list \<Rightarrow> string \<Rightarrow> tool_call_ir list" where
  "completions evs call = concat (map (completion call) evs)"

fun tool_ids_of :: "'k stream_event \<Rightarrow> string set" where
  "tool_ids_of (ToolCallDelta _ _ _ c _ _) = {c}"
| "tool_ids_of (ToolCallCompleted _ _ (AssistantToolCall _ c)) = {tc_id c}"
| "tool_ids_of _ = {}"

definition tool_ids :: "'k stream_event list \<Rightarrow> string set" where
  "tool_ids evs = (\<Union>ev \<in> set evs. tool_ids_of ev)"

fun terminal_of :: "'k stream_event \<Rightarrow> 'k terminal option" where
  "terminal_of (CompletedEvent _ _ r) = Some (TerminalCompleted r)"
| "terminal_of (FailedEvent _ _ e) = Some (TerminalFailed e)"
| "terminal_of _ = None"

section \<open>Accepted streams\<close>

inductive accepted :: "('k, 'g) ir_env \<Rightarrow> 'k stream_event list \<Rightarrow> 'k finalizer \<Rightarrow> bool" for env where
  none: "accepted env [] new_finalizer"
| more: "accepted env evs st \<Longrightarrow> push env ev st = (Inr (), st') \<Longrightarrow> accepted env (evs @ [ev]) st'"

lemma after_Inr: "after m f = (Inr (), st') \<longleftrightarrow> (\<exists>st. m = (Inr (), st) \<and> f st = (Inr (), st'))"
  by (auto simp: after_def split: prod.splits sum.splits)

lemma accepted_push_all:
  "accepted env before st \<Longrightarrow> push_all env evs st = (Inr (), st') \<Longrightarrow> accepted env (before @ evs) st'"
proof (induction evs arbitrary: before st)
  case (Cons ev evs)
  from Cons.prems(2) obtain st1 where "push env ev st = (Inr (), st1)" "push_all env evs st1 = (Inr (), st')"
    by (auto simp: after_Inr)
  with Cons.IH [of "before @ [ev]" st1] Cons.prems(1) show ?case by (auto intro: accepted.more)
qed simp

lemma run_stream_accepted:
  assumes "run_stream env evs = Inr t"
  obtains st where "accepted env evs st" "sf_terminal st = Some t"
proof -
  from assms obtain st where "push_all env evs new_finalizer = (Inr (), st)" "finish st = Inr t"
    by (auto simp: run_stream_def split: prod.splits sum.splits)
  then show thesis
    using accepted_push_all [OF accepted.none, of env evs st] that by (auto simp: finish_def)
qed

text \<open>A push that succeeds: the checks before the event is applied, and its effect on each field.\<close>

definition prepared :: "'k stream_event \<Rightarrow> 'k finalizer \<Rightarrow> 'k finalizer" where
  "prepared ev st = st\<lparr>sf_call_id := Some (event_call_id ev), sf_next_seq := min u64_max (sf_next_seq st + 1)\<rparr>"

lemma push_Inr:
  assumes "push env ev st = (Inr (), st')"
  shows "sf_terminal st = None" "event_seq ev = sf_next_seq st"
    "sf_call_id st = None \<or> sf_call_id st = Some (event_call_id ev)"
    "sf_started st \<or> is_started ev" "apply_event env ev (prepared ev st) = (Inr (), st')"
  using assms by (auto simp: push_def prepared_def Let_def split: if_splits)

lemma prepared_sel [simp]:
  "sf_call_id (prepared ev st) = Some (event_call_id ev)"
  "sf_next_seq (prepared ev st) = min u64_max (sf_next_seq st + 1)"
  "sf_started (prepared ev st) = sf_started st" "sf_terminal (prepared ev st) = sf_terminal st"
  "sf_item_order (prepared ev st) = sf_item_order st" "sf_seen_items (prepared ev st) = sf_seen_items st"
  "sf_text (prepared ev st) = sf_text st" "sf_tool_deltas (prepared ev st) = sf_tool_deltas st"
  by (simp_all add: prepared_def)

lemma observe_Inr:
  "observe i st = (Inr (), st') \<longleftrightarrow> i \<noteq> [] \<and> length i \<le> 128 \<and>
     st' = (if i \<in> sf_seen_items st then st
            else st\<lparr>sf_seen_items := insert i (sf_seen_items st), sf_item_order := sf_item_order st @ [i]\<rparr>)"
  by (auto simp: observe_def)

lemmas apply_simps = apply_event_def push_text_def push_reasoning_def push_hosted_def push_completed_def
  push_failed_def after_Inr observe_Inr Let_def

lemma push_tool_delta_Inr:
  assumes "push_tool_delta i call name arguments st = (Inr (), st')"
  obtains st1 d where "observe i st = (Inr (), st1)" "\<not> td_completed (delta_of st1 call)"
    "st' = put_delta call d st1" "\<not> td_completed d"
    "td_args d = td_args (delta_of st1 call) @ (case arguments of None \<Rightarrow> [] | Some a \<Rightarrow> a)"
    "td_item_id (delta_of st1 call) = [] \<or> td_item_id (delta_of st1 call) = i" "td_item_id d = i"
    "td_name_seen d = (case name of None \<Rightarrow> td_name_seen (delta_of st1 call) | Some n \<Rightarrow> Some n)"
    "\<And>n. name = Some n \<Longrightarrow> td_name_seen (delta_of st1 call) = None \<or> td_name_seen (delta_of st1 call) = Some n"
  using assms
  by (fastforce simp: push_tool_delta_def after_Inr Let_def push_arguments_def split: if_splits option.splits)

lemma om_insert_twice [simp]: "om_insert k v (om_insert k w m) = om_insert k v m"
  by (induction k v m rule: om_insert.induct) auto

lemma put_delta_twice [simp]: "put_delta call d (put_delta call e st) = put_delta call d st"
  by (simp add: put_delta_def)

lemma push_tool_completed_Inr:
  assumes "push_tool_completed env item st = (Inr (), st')"
  obtains i c st1 where "item = AssistantToolCall i c" "observe i st = (Inr (), st1)"
    "\<not> td_completed (delta_of st1 (tc_id c))"
    "st' = put_delta (tc_id c) ((delta_of st1 (tc_id c))\<lparr>td_completed := True\<rparr>) st1"
    "td_args (delta_of st1 (tc_id c)) = [] \<or> (\<exists>p. ie_parse env (td_args (delta_of st1 (tc_id c))) = Some p
       \<and> same_canonical (ie_serde env) p (tc_arguments c))"
    "td_item_id (delta_of st1 (tc_id c)) = [] \<or> td_item_id (delta_of st1 (tc_id c)) = i"
    "td_name_seen (delta_of st1 (tc_id c)) = None \<or> td_name_seen (delta_of st1 (tc_id c)) = Some (tc_name c)"
  using assms
  by (auto simp: push_tool_completed_def after_Inr Let_def split: turn_item.splits if_splits option.splits)

lemma observe_frame:
  assumes "observe i st = (Inr (), st1)"
  shows "sf_call_id st1 = sf_call_id st" "sf_next_seq st1 = sf_next_seq st" "sf_started st1 = sf_started st"
    "sf_terminal st1 = sf_terminal st" "sf_text st1 = sf_text st" "sf_tool_deltas st1 = sf_tool_deltas st"
    "sf_seen_items st1 = insert i (sf_seen_items st)"
    "sf_item_order st1 = (if i \<in> sf_seen_items st then sf_item_order st else sf_item_order st @ [i])"
  using assms by (auto simp: observe_Inr)

lemma put_delta_frame [simp]:
  "sf_call_id (put_delta c d st) = sf_call_id st" "sf_next_seq (put_delta c d st) = sf_next_seq st"
  "sf_started (put_delta c d st) = sf_started st" "sf_terminal (put_delta c d st) = sf_terminal st"
  "sf_text (put_delta c d st) = sf_text st" "sf_seen_items (put_delta c d st) = sf_seen_items st"
  "sf_item_order (put_delta c d st) = sf_item_order st"
  "sf_tool_deltas (put_delta c d st) = om_insert c d (sf_tool_deltas st)"
  by (simp_all add: put_delta_def)

text \<open>The fields that every event treats alike.\<close>

lemma apply_frame:
  assumes "apply_event env ev st = (Inr (), st')"
  shows "sf_call_id st' = sf_call_id st \<and> sf_next_seq st' = sf_next_seq st
    \<and> sf_started st' = (sf_started st \<or> is_started ev)
    \<and> (is_started ev \<longrightarrow> \<not> sf_started st)
    \<and> sf_terminal st' = (case terminal_of ev of None \<Rightarrow> sf_terminal st | Some t \<Rightarrow> Some t)
    \<and> sf_seen_items st' = set (observed ev) \<union> sf_seen_items st
    \<and> sf_item_order st' = sf_item_order st @ filter (\<lambda>i. i \<notin> sf_seen_items st) (observed ev)
    \<and> sf_text st' = (case text_delta ev of None \<Rightarrow> sf_text st
        | Some (i, t) \<Rightarrow> om_insert i (text_of st i @ t) (sf_text st))"
proof (cases ev)
  case (ToolCallDelta c n i call name arguments)
  with assms have "push_tool_delta i call name arguments st = (Inr (), st')" by (simp add: apply_event_def)
  from push_tool_delta_Inr [OF this] obtain st1 d where
    "observe i st = (Inr (), st1)" "st' = put_delta call d st1" by metis
  with ToolCallDelta show ?thesis by (simp add: observe_frame)
next
  case (ToolCallCompleted c n item)
  with assms have "push_tool_completed env item st = (Inr (), st')" by (simp add: apply_event_def)
  from push_tool_completed_Inr [OF this] obtain i call st1 d where
    "item = AssistantToolCall i call" "observe i st = (Inr (), st1)" "st' = put_delta (tc_id call) d st1" by metis
  with ToolCallCompleted show ?thesis by (simp add: observe_frame)
next
  case (TextDelta c n i tx)
  with assms obtain st1 where o: "observe i st = (Inr (), st1)"
    and st': "st' = st1\<lparr>sf_text := om_insert i (text_of st1 i @ tx) (sf_text st1)\<rparr>"
    by (auto simp: apply_simps split: if_splits)
  have "text_of st1 i = text_of st i" by (simp add: text_of_def observe_frame [OF o])
  then show ?thesis using TextDelta st' by (simp add: observe_frame [OF o])
next
  case (ReasoningDelta c n i tx)
  with assms have "observe i st = (Inr (), st')" by (auto simp: apply_event_def push_reasoning_def split: if_splits)
  with ReasoningDelta show ?thesis by (simp add: observe_frame)
next
  case (HostedToolEvent c n item)
  with assms have "observe (item_id item) st = (Inr (), st')"
    by (cases item) (auto simp: apply_event_def push_hosted_def)
  with HostedToolEvent show ?thesis by (simp add: observe_frame)
qed (use assms in \<open>auto simp: apply_event_def push_completed_def push_failed_def Let_def split: if_splits sum.splits\<close>)

section \<open>Order and terminals\<close>

lemma accepted_sequence:
  "accepted env evs st \<Longrightarrow>
     sf_next_seq st = min u64_max (length evs)
     \<and> map event_seq evs = map (min u64_max) [0..<length evs]
     \<and> (\<forall>ev \<in> set evs. sf_call_id st = Some (event_call_id ev))
     \<and> sf_started st = (evs \<noteq> [])
     \<and> (evs \<noteq> [] \<longrightarrow> is_started (hd evs) \<and> list_all (\<lambda>ev. \<not> is_started ev) (tl evs))
     \<and> list_all (\<lambda>ev. terminal_of ev = None) (butlast evs)
     \<and> sf_terminal st = (if evs = [] then None else terminal_of (last evs))"
proof (induction rule: accepted.induct)
  case none
  show ?case by (simp add: new_finalizer_def)
next
  case (more evs st ev st')
  note p = push_Inr [OF more.hyps(2)]
  note f = apply_frame [OF p(5), simplified]
  have t: "list_all (\<lambda>ev. terminal_of ev = None) evs"
    using more.IH p(1) by (cases evs rule: rev_cases) auto
  have min: "min u64_max (Suc (min u64_max (length evs))) = min u64_max (Suc (length evs))" by simp
  show ?case
    using more.IH f p(1,2,3,4) t min by (cases evs) (auto split: option.splits)
qed

lemma accepted_observed:
  "accepted env evs st \<Longrightarrow>
     sf_item_order st = first_seen (concat (map observed evs))
     \<and> sf_seen_items st = set (concat (map observed evs))"
proof (induction rule: accepted.induct)
  case none
  show ?case by (simp add: new_finalizer_def)
next
  case (more evs st ev st')
  note f = apply_frame [OF push_Inr(5) [OF more.hyps(2)], simplified]
  have "observed ev = [] \<or> (\<exists>i. observed ev = [i])" by (cases ev) auto
  then show ?case using more.IH f by (auto simp: first_seen_snoc)
qed

lemma accepted_text:
  "accepted env evs st \<Longrightarrow>
     om_get (sf_text st) i = (if i \<in> text_ids evs then Some (streamed_text evs i) else None)"
proof (induction rule: accepted.induct)
  case none
  show ?case by (simp add: new_finalizer_def om_get_def text_ids_def)
next
  case (more evs st ev st')
  note f = apply_frame [OF push_Inr(5) [OF more.hyps(2)], simplified]
  have none: "streamed_text evs i = []" if "i \<notin> text_ids evs"
    using that by (fastforce simp: streamed_text_def text_ids_def split: option.splits)
  show ?case
  proof (cases "text_delta ev")
    case None
    then have "text_ids (evs @ [ev]) = text_ids evs" "streamed_text (evs @ [ev]) i = streamed_text evs i"
      by (auto simp: text_ids_def streamed_text_def)
    then show ?thesis using more.IH f None by simp
  next
    case (Some jt)
    obtain j t where jt: "jt = (j, t)" by fastforce
    have "text_ids (evs @ [ev]) = insert j (text_ids evs)" using Some jt by (auto simp: text_ids_def)
    moreover have "streamed_text (evs @ [ev]) i = streamed_text evs i @ (if j = i then t else [])"
      using Some jt by (simp add: streamed_text_def)
    moreover have "sf_text st' = om_insert j (text_of (prepared ev st) j @ t) (sf_text st)" using f Some jt by simp
    ultimately show ?thesis
      using more.IH none by (auto simp: om_get_insert text_of_def)
  qed
qed

section \<open>Tool calls\<close>

lemma delta_of_put:
  "delta_of (put_delta c d st) call = (if call = c then d else delta_of st call)"
  by (simp add: delta_of_def om_get_insert)

lemma apply_other_tools:
  assumes "apply_event env ev st = (Inr (), st')" "tool_ids_of ev = {}"
  shows "sf_tool_deltas st' = sf_tool_deltas st"
proof (cases ev)
  case (ToolCallCompleted c n item)
  with assms show ?thesis by (cases item) (auto simp: apply_event_def push_tool_completed_def)
next
  case (HostedToolEvent c n item)
  with assms show ?thesis by (cases item) (auto simp: apply_event_def push_hosted_def observe_frame)
qed (use assms in \<open>auto simp: apply_event_def push_text_def push_reasoning_def push_completed_def push_failed_def
    after_Inr Let_def observe_frame split: if_splits sum.splits\<close>)

text \<open>The accumulated arguments of a call, and that a completion closes it.\<close>

definition tool_inv ::
  "('k, 'g) ir_env \<Rightarrow> 'k stream_event list \<Rightarrow> (string, tool_delta_state) omap \<Rightarrow> string \<Rightarrow> tool_delta_state \<Rightarrow> bool" where
  "tool_inv env evs m call d \<longleftrightarrow>
     (om_get m call \<noteq> None \<longleftrightarrow> call \<in> tool_ids evs)
     \<and> td_args d = streamed_arguments evs call
     \<and> (td_completed d \<longleftrightarrow> completions evs call \<noteq> [])
     \<and> (completions evs call = [] \<or> (\<exists>c. completions evs call = [c] \<and>
          (td_args d = [] \<or> (\<exists>p. ie_parse env (td_args d) = Some p
             \<and> same_canonical (ie_serde env) p (tc_arguments c)))))"

lemma snoc_events:
  "tool_ids (evs @ [ev]) = tool_ids evs \<union> tool_ids_of ev"
  "streamed_arguments (evs @ [ev]) call = streamed_arguments evs call @ argument_delta call ev"
  "completions (evs @ [ev]) call = completions evs call @ completion call ev"
  "streamed_names (evs @ [ev]) call = streamed_names evs call @ name_delta call ev"
  "call_items (evs @ [ev]) call = call_items evs call @ call_item call ev"
  by (auto simp: tool_ids_def streamed_arguments_def completions_def streamed_names_def call_items_def)

lemma call_items_completed: "completions evs call \<noteq> [] \<Longrightarrow> call_items evs call \<noteq> []"
proof -
  have "call_item call ev \<noteq> []" if "completion call ev \<noteq> []" for ev :: "'a stream_event"
  proof (cases ev)
    case (ToolCallCompleted n m item)
    then show ?thesis using that by (cases item) (auto split: if_splits)
  qed (use that in auto)
  then show "completions evs call \<noteq> [] \<Longrightarrow> call_items evs call \<noteq> []"
    by (auto simp: completions_def call_items_def)
qed

lemma other_events:
  "tool_ids_of ev = {} \<Longrightarrow> argument_delta call ev = [] \<and> completion call ev = [] \<and> name_delta call ev = []
     \<and> call_item call ev = []"
proof (cases ev)
  case (ToolCallCompleted c n item)
  moreover assume "tool_ids_of ev = {}"
  ultimately show ?thesis by (cases item) auto
qed auto

lemma accepted_tools:
  "accepted env evs st \<Longrightarrow> tool_inv env evs (sf_tool_deltas st) call (delta_of st call)"
proof (induction rule: accepted.induct)
  case none
  show ?case
    by (simp add: tool_inv_def new_finalizer_def om_get_def tool_ids_def streamed_arguments_def completions_def
        delta_of_def no_delta_def)
next
  case (more evs st ev st')
  note a = push_Inr(5) [OF more.hyps(2)]
  have prep: "delta_of (prepared ev st) call = delta_of st call" for call by (simp add: delta_of_def)
  consider (delta) n m i c name arguments where "ev = ToolCallDelta n m i c name arguments"
    | (completed) n m item where "ev = ToolCallCompleted n m item" "tool_ids_of ev \<noteq> {}"
    | (other) "tool_ids_of ev = {}"
    by (cases ev) auto
  then show ?case
  proof cases
    case delta
    with a have "push_tool_delta i c name arguments (prepared ev st) = (Inr (), st')" by (simp add: apply_event_def)
    from push_tool_delta_Inr [OF this] obtain st1 d where o: "observe i (prepared ev st) = (Inr (), st1)" and
      d: "\<not> td_completed (delta_of st1 c)" "st' = put_delta c d st1" "\<not> td_completed d"
        "td_args d = td_args (delta_of st1 c) @ (case arguments of None \<Rightarrow> [] | Some a \<Rightarrow> a)" by metis
    have "delta_of st1 c' = delta_of st c'" for c' using observe_frame(6) [OF o] by (simp add: delta_of_def)
    moreover have "sf_tool_deltas st' = om_insert c d (sf_tool_deltas st)"
      using d(2) observe_frame(6) [OF o] by simp
    ultimately show ?thesis
      using more.IH d unfolding tool_inv_def snoc_events delta
      by (cases arguments) (auto simp: delta_of_put om_get_insert)
  next
    case completed
    with a have "push_tool_completed env item (prepared ev st) = (Inr (), st')" by (simp add: apply_event_def)
    from push_tool_completed_Inr [OF this] obtain i c st1 where it: "item = AssistantToolCall i c" and
      o: "observe i (prepared ev st) = (Inr (), st1)" and d: "\<not> td_completed (delta_of st1 (tc_id c))"
        "st' = put_delta (tc_id c) ((delta_of st1 (tc_id c))\<lparr>td_completed := True\<rparr>) st1"
        "td_args (delta_of st1 (tc_id c)) = [] \<or> (\<exists>p. ie_parse env (td_args (delta_of st1 (tc_id c))) = Some p
           \<and> same_canonical (ie_serde env) p (tc_arguments c))" by metis
    have "delta_of st1 c' = delta_of st c'" for c' using observe_frame(6) [OF o] by (simp add: delta_of_def)
    moreover have "sf_tool_deltas st' =
        om_insert (tc_id c) ((delta_of st1 (tc_id c))\<lparr>td_completed := True\<rparr>) (sf_tool_deltas st)"
      using d(2) observe_frame(6) [OF o] by simp
    ultimately show ?thesis
      using more.IH d unfolding tool_inv_def snoc_events completed(1) it by (auto simp: delta_of_put om_get_insert)
  next
    case other
    have "sf_tool_deltas st' = sf_tool_deltas st" using apply_other_tools [OF a other] by simp
    then have "delta_of st' call = delta_of st call" "sf_tool_deltas st' = sf_tool_deltas st"
      by (simp_all add: delta_of_def)
    then show ?thesis
      using more.IH other_events [OF other, of call] other unfolding tool_inv_def snoc_events by auto
  qed
qed

text \<open>The name and the item of a call: they do not change, and the completion has them too.\<close>

definition identity_inv :: "'k stream_event list \<Rightarrow> string \<Rightarrow> tool_delta_state \<Rightarrow> bool" where
  "identity_inv evs call d \<longleftrightarrow>
     set (streamed_names evs call) = set_option (td_name_seen d)
     \<and> (if td_item_id d \<noteq> [] then set (call_items evs call) = {td_item_id d}
        else call_items evs call = [] \<or> td_completed d \<and> (\<exists>i. call_items evs call = [i]))
     \<and> (\<forall>c \<in> set (completions evs call). set_option (td_name_seen d) \<subseteq> {tc_name c})"

lemma accepted_identity: "accepted env evs st \<Longrightarrow> identity_inv evs call (delta_of st call)"
proof (induction rule: accepted.induct)
  case none
  show ?case
    by (simp add: identity_inv_def streamed_names_def call_items_def completions_def delta_of_def new_finalizer_def om_get_def
        no_delta_def)
next
  case (more evs st ev st')
  note a = push_Inr(5) [OF more.hyps(2)]
  note tools = accepted_tools [OF more.hyps(1), of call, unfolded tool_inv_def]
  have open_call: "completions evs call = []" if "\<not> td_completed (delta_of st call)" using tools that by blast
  have prep: "delta_of (prepared ev st) c = delta_of st c" for c by (simp add: delta_of_def)
  consider (delta) n m i c name arguments where "ev = ToolCallDelta n m i c name arguments"
    | (completed) n m item where "ev = ToolCallCompleted n m item" "tool_ids_of ev \<noteq> {}"
    | (other) "tool_ids_of ev = {}"
    by (cases ev) auto
  then show ?case
  proof cases
    case delta
    with a have "push_tool_delta i c name arguments (prepared ev st) = (Inr (), st')" by (simp add: apply_event_def)
    from push_tool_delta_Inr [OF this] obtain st1 d where o: "observe i (prepared ev st) = (Inr (), st1)" and
      d: "\<not> td_completed (delta_of st1 c)" "st' = put_delta c d st1"
        "td_item_id (delta_of st1 c) = [] \<or> td_item_id (delta_of st1 c) = i" "td_item_id d = i"
        "td_name_seen d = (case name of None \<Rightarrow> td_name_seen (delta_of st1 c) | Some n \<Rightarrow> Some n)"
        "\<And>n. name = Some n \<Longrightarrow> td_name_seen (delta_of st1 c) = None \<or> td_name_seen (delta_of st1 c) = Some n" by metis
    have same: "delta_of st1 c' = delta_of st c'" for c' using observe_frame(6) [OF o] by (simp add: delta_of_def)
    have i: "i \<noteq> []" using o by (simp add: observe_Inr)
    show ?thesis
    proof (cases "call = c")
      case True
      have "set (streamed_names (evs @ [ev]) call) = set_option (td_name_seen d)"
        using more.IH d(5,6) True by (cases name) (auto simp: identity_inv_def snoc_events delta same)
      moreover have "set (call_items (evs @ [ev]) call) = {i}"
        using more.IH d(1,3) True by (auto simp: identity_inv_def snoc_events delta same split: if_splits)
      moreover have "completions (evs @ [ev]) call = []"
        using open_call d(1) True by (simp add: snoc_events delta same)
      ultimately show ?thesis using True i d(2,4) by (simp add: identity_inv_def delta_of_put)
    next
      case False
      then have "name_delta call ev = []" by (cases name) (simp_all add: delta)
      with False show ?thesis using more.IH by (simp add: identity_inv_def snoc_events delta d(2) delta_of_put same)
    qed
  next
    case completed
    with a have "push_tool_completed env item (prepared ev st) = (Inr (), st')" by (simp add: apply_event_def)
    from push_tool_completed_Inr [OF this] obtain i c st1 where it: "item = AssistantToolCall i c" and
      o: "observe i (prepared ev st) = (Inr (), st1)" and d: "\<not> td_completed (delta_of st1 (tc_id c))"
        "st' = put_delta (tc_id c) ((delta_of st1 (tc_id c))\<lparr>td_completed := True\<rparr>) st1"
        "td_item_id (delta_of st1 (tc_id c)) = [] \<or> td_item_id (delta_of st1 (tc_id c)) = i"
        "td_name_seen (delta_of st1 (tc_id c)) = None \<or> td_name_seen (delta_of st1 (tc_id c)) = Some (tc_name c)" by metis
    have same: "delta_of st1 c' = delta_of st c'" for c' using observe_frame(6) [OF o] by (simp add: delta_of_def)
    note ev = completed(1) [unfolded it]
    show ?thesis
    proof (cases "call = tc_id c")
      case True
      let ?d = "delta_of st call"
      have "set (streamed_names (evs @ [ev]) call) = set_option (td_name_seen ?d)"
        using more.IH by (simp add: identity_inv_def snoc_events ev)
      moreover have "if td_item_id ?d \<noteq> [] then set (call_items (evs @ [ev]) call) = {td_item_id ?d}
          else call_items (evs @ [ev]) call = [i]"
        using more.IH d(1,3) True by (auto simp: identity_inv_def snoc_events ev same split: if_splits)
      moreover have "completions (evs @ [ev]) call = [c]"
        using open_call d(1) True by (simp add: snoc_events ev same)
      moreover have "set_option (td_name_seen ?d) \<subseteq> {tc_name c}" using d(4) True by (auto simp: same)
      ultimately show ?thesis using True d(2) by (auto simp: identity_inv_def delta_of_put same)
    next
      case False
      then show ?thesis using more.IH by (simp add: identity_inv_def snoc_events ev d(2) delta_of_put same)
    qed
  next
    case other
    have "sf_tool_deltas st' = sf_tool_deltas st" using apply_other_tools [OF a other] by simp
    then have "delta_of st' call = delta_of st call" by (simp add: delta_of_def)
    then show ?thesis using more.IH other_events [OF other, of call] unfolding identity_inv_def snoc_events by simp
  qed
qed

section \<open>Completed streams\<close>

text \<open>The last push of a completed stream.\<close>

lemma accepted_completed:
  assumes "accepted env evs st" "sf_terminal st = Some (TerminalCompleted r)"
  obtains c n es s where "evs = es @ [CompletedEvent c n r]" "accepted env es s" "rs_model_call_id r = c"
    "list_all (\<lambda>(_, d). td_completed d) (sf_tool_deltas s)" "validate_response_ir env r = Inr ()"
    "validate_response_order_and_text s r = Inr ()"
  using assms(1)
proof cases
  case none
  then show thesis using assms(2) by (simp add: new_finalizer_def)
next
  case (more es s ev)
  note p = push_Inr [OF more(3)]
  have "sf_terminal st = (if evs = [] then None else terminal_of (last evs))"
    using accepted_sequence [OF assms(1)] by blast
  then have "terminal_of ev = Some (TerminalCompleted r)" using assms(2) more(1) by simp
  then obtain c n where ev: "ev = CompletedEvent c n r" by (cases ev) auto
  have "push_completed env r (prepared ev s) = (Inr (), st)" using p(5) ev by (simp add: apply_event_def)
  then have checks: "rs_model_call_id r = c" "list_all (\<lambda>(_, d). td_completed d) (sf_tool_deltas s)"
    "validate_response_ir env r = Inr ()" "validate_response_order_and_text (prepared ev s) r = Inr ()"
    using ev by (auto simp: push_completed_def Let_def bindR_eq_Inr split: sum.splits)
  moreover have "validate_response_order_and_text (prepared ev s) r = validate_response_order_and_text s r"
    by (simp add: validate_response_order_and_text_def)
  ultimately show thesis using that more(1,2) ev by simp
qed

text \<open>With distinct ids the position of an id is its index, and the order check is a subsequence test.\<close>

lemma position_of_Some:
  assumes "distinct (map item_id items)"
  shows "position_of items i = Some p \<longleftrightarrow> p < length items \<and> item_id (items ! p) = i"
proof -
  have d: "distinct (map fst (rev (zip (map item_id items) [0..<length items])))"
    using assms by (simp add: rev_map [symmetric])
  have "position_of items i = Some p \<longleftrightarrow> (i, p) \<in> set (zip (map item_id items) [0..<length items])"
    unfolding position_of_def using map_of_eq_Some_iff [OF d] by simp
  also have "\<dots> \<longleftrightarrow> (\<exists>n < length items. item_id (items ! n) = i \<and> n = p)"
    unfolding in_set_zip by (rule iff_exI) auto
  finally show ?thesis by blast
qed

lemma check_order_subseq:
  assumes "distinct (map item_id items)"
  shows "check_order items is previous = Inr () \<Longrightarrow>
    subseq is (map item_id (case previous of None \<Rightarrow> items | Some q \<Rightarrow> drop (Suc q) items))"
proof (induction "is" arbitrary: previous)
  case (Cons i "is")
  obtain p where p: "position_of items i = Some p" "check_order items is (Some p) = Inr ()"
    and q: "\<forall>q. previous = Some q \<longrightarrow> q < p"
    using Cons.prems by (auto split: option.splits if_splits)
  have at: "p < length items" "item_id (items ! p) = i" using p(1) position_of_Some [OF assms] by auto
  let ?from = "case previous of None \<Rightarrow> items | Some q \<Rightarrow> drop (Suc q) items"
  have tail: "subseq is (map item_id (drop (Suc p) items))" using Cons.IH [OF p(2)] by simp
  have "drop p items = items ! p # drop (Suc p) items" by (rule Cons_nth_drop_Suc [symmetric, OF at(1)])
  then have "subseq (i # is) (map item_id (drop p items))" using tail at(2) by simp
  moreover have "\<exists>m. drop p items = drop m ?from"
  proof (cases previous)
    case (Some k)
    then have "p = (p - Suc k) + Suc k" using q by simp
    then show ?thesis using Some by (metis drop_drop option.simps(5))
  qed auto
  then obtain m where "drop p items = drop m ?from" by blast
  ultimately show ?case by (metis drop_map subseq_order.trans suffix_drop suffix_imp_subseq)
qed simp

lemma check_text_message:
  assumes "check_text items (i, t) = Inr ()"
  shows "\<exists>role content provenance placeholder. Message i role content provenance placeholder \<in> set items
    \<and> message_text content = t"
proof -
  obtain it where f: "find (\<lambda>it. item_id it = i) items = Some it" using assms by (auto simp: check_text_def split: option.splits)
  then have "it \<in> set items" "item_id it = i" by (auto simp: find_Some_iff)
  with f assms show ?thesis by (cases it) (auto simp: check_text_def)
qed

end
