(* ===== verification/Stream_Theorems.thy ===== *)
theory Stream_Theorems
  imports Stream_Properties
begin

text \<open>
  The guarantees of the stream finalizer, and concrete streams: one that completes, and one whose
  terminal response holds another tool call than the one that was streamed.
\<close>

section \<open>Guarantees\<close>

lemma middle_events:
  assumes "evs = es @ [ev]" "list_all P (butlast evs)" "es = e # mid"
  shows "list_all P mid"
  using assms by simp

text \<open>
  C20: a stream ends with a terminal only when it is one start event, events that neither start nor
  end a stream, and one terminal event, whose content is the result; all events carry the same
  call id, and their sequence numbers count up from zero without a gap or a repetition (as far as
  64 bits reach).  A stream that stops before its terminal event yields an error.
\<close>
theorem stream_shape:
  assumes "run_stream env evs = Inr t"
  shows "\<exists>call mid end. evs = Started call 0 # mid @ [end] \<and> terminal_of end = Some t
    \<and> list_all (\<lambda>ev. terminal_of ev = None \<and> \<not> is_started ev) mid
    \<and> list_all (\<lambda>ev. event_call_id ev = call) evs
    \<and> map event_seq evs = map (min u64_max) [0..<length evs]"
proof -
  obtain st where a: "accepted env evs st" "sf_terminal st = Some t"
    using run_stream_accepted [OF assms] .
  note s = accepted_sequence [OF a(1)]
  have ne: "evs \<noteq> []" and last: "terminal_of (last evs) = Some t" using s a(2) by (auto split: if_splits)
  obtain ev rest where evs: "evs = ev # rest" using ne by (cases evs) auto
  obtain call n where ev: "ev = Started call n" using s evs by (cases ev) auto
  have "rest \<noteq> []" using last evs ev by auto
  then obtain mid e where rest: "rest = mid @ [e]" by (cases rest rule: rev_cases) auto
  have "n = 0"
  proof -
    have "event_seq (evs ! 0) = map event_seq evs ! 0" using ne by simp
    also have "\<dots> = min u64_max 0" using s ne by (simp add: nth_append evs)
    finally show ?thesis by (simp add: evs ev)
  qed
  moreover have "terminal_of e = Some t" using last evs rest by simp
  moreover have "list_all (\<lambda>ev. terminal_of ev = None \<and> \<not> is_started ev) mid"
    using s unfolding evs rest by (simp add: butlast_append list_all_iff)
  moreover have "list_all (\<lambda>ev. event_call_id ev = call) evs"
    using s unfolding evs ev by (auto simp: list_all_iff)
  ultimately show ?thesis using s evs ev rest by blast
qed

text \<open>
  C21: the response of a completed stream is a valid response of its call; the items that the
  stream showed stand in it in the order in which they were first observed, and for each item
  that streamed text it holds a message of that id whose text is the concatenation of the deltas.
\<close>
theorem stream_content:
  assumes "run_stream env evs = Inr (TerminalCompleted r)"
  shows "well_formed_transcript env {} (rs_items r)
    \<and> subseq (first_seen (concat (map observed evs))) (map item_id (rs_items r))
    \<and> (\<forall>i \<in> text_ids evs. \<exists>role content provenance placeholder.
         Message i role content provenance placeholder \<in> set (rs_items r)
         \<and> message_text content = streamed_text evs i)"
proof -
  obtain st where a: "accepted env evs st" "sf_terminal st = Some (TerminalCompleted r)"
    using run_stream_accepted [OF assms] .
  from accepted_completed [OF a] obtain c n es s where
    es: "evs = es @ [CompletedEvent c n r]" "accepted env es s" and
    v: "validate_response_ir env r = Inr ()" "validate_response_order_and_text s r = Inr ()" by metis
  have wf: "well_formed_transcript env {} (rs_items r)" by (rule validate_response_Inr(3) [OF v(1)])
  have o: "check_order (rs_items r) (sf_item_order s) None = Inr ()"
    "\<forall>kv \<in> set (sf_text s). check_text (rs_items r) kv = Inr ()"
    using v(2) by (auto simp: validate_response_order_and_text_def bindR_eq_Inr)
  have "subseq (sf_item_order s) (map item_id (rs_items r))"
    using check_order_subseq [OF _ o(1)] wf by (simp add: well_formed_transcript_def)
  then have "subseq (first_seen (concat (map observed evs))) (map item_id (rs_items r))"
    using accepted_observed [OF es(2)] by (simp add: es(1))
  moreover have "\<exists>role content provenance placeholder.
         Message i role content provenance placeholder \<in> set (rs_items r)
         \<and> message_text content = streamed_text evs i" if "i \<in> text_ids evs" for i
  proof -
    have "i \<in> text_ids es" "streamed_text evs i = streamed_text es i"
      using that by (auto simp: text_ids_def streamed_text_def es(1))
    then have "om_get (sf_text s) i = Some (streamed_text evs i)" using accepted_text [OF es(2)] by simp
    then have "(i, streamed_text evs i) \<in> set (sf_text s)" by (rule om_get_in_set)
    then show ?thesis using o(2) check_text_message by blast
  qed
  ultimately show ?thesis using wf by blast
qed

text \<open>
  C22: a stream completes only when every tool call that it mentioned was completed by exactly one
  event; all its deltas and its completion came under one item, every name that a delta carried is
  the name of the completed call, and the argument deltas, if there were any, form one JSON document
  that has the canonical form of the completed call's arguments.
\<close>
theorem stream_tool_calls:
  assumes "run_stream env evs = Inr (TerminalCompleted r)" "call \<in> tool_ids evs"
  shows "\<exists>c i. completions evs call = [c] \<and> set (call_items evs call) = {i}
    \<and> set (streamed_names evs call) \<subseteq> {tc_name c}
    \<and> (streamed_arguments evs call = []
       \<or> (\<exists>p. ie_parse env (streamed_arguments evs call) = Some p
           \<and> same_canonical (ie_serde env) p (tc_arguments c)))"
proof -
  obtain st where a: "accepted env evs st" "sf_terminal st = Some (TerminalCompleted r)"
    using run_stream_accepted [OF assms(1)] .
  from accepted_completed [OF a] obtain c n es s where
    es: "evs = es @ [CompletedEvent c n r]" "accepted env es s" and
    t: "list_all (\<lambda>(_, d). td_completed d) (sf_tool_deltas s)" by metis
  have same: "tool_ids evs = tool_ids es" "streamed_arguments evs call = streamed_arguments es call"
    "completions evs call = completions es call" "streamed_names evs call = streamed_names es call"
    "call_items evs call = call_items es call"
    unfolding es(1) snoc_events by simp_all
  note inv = accepted_tools [OF es(2), of call]
  then obtain d where d: "om_get (sf_tool_deltas s) call = Some d"
    using assms(2) same(1) by (auto simp: tool_inv_def)
  then have "(call, d) \<in> set (sf_tool_deltas s)" by (rule om_get_in_set)
  then have "td_completed (delta_of s call)" using t d by (auto simp: list_all_iff delta_of_def)
  then obtain k where k: "completions evs call = [k]"
      "streamed_arguments evs call = [] \<or> (\<exists>p. ie_parse env (streamed_arguments evs call) = Some p
         \<and> same_canonical (ie_serde env) p (tc_arguments k))"
    using inv unfolding tool_inv_def same by auto
  have id: "identity_inv es call (delta_of s call)" by (rule accepted_identity [OF es(2)])
  have "set (streamed_names evs call) \<subseteq> {tc_name k}" using id k(1) by (simp add: identity_inv_def same)
  moreover have "call_items es call \<noteq> []" using k(1) call_items_completed [of es call] by (simp add: same)
  then have "\<exists>i. set (call_items evs call) = {i}" using id by (auto simp: identity_inv_def same split: if_splits)
  ultimately show ?thesis using k by blast
qed

text \<open>After a terminal nothing is accepted and nothing changes, whatever is pushed.\<close>

lemma push_after_terminal: "sf_terminal st \<noteq> None \<Longrightarrow> push env ev st = (Inl ''stream_after_terminal'', st)"
  by (simp add: push_def)

section \<open>Concrete streams\<close>

definition sample_env :: "(unit, unit) ir_env" where
  "sample_env =
     \<lparr>ie_serde = simple_serde, ie_parse = (\<lambda>s. if s = ''null'' then Some JNull else None),
      ie_consistent = (\<lambda>_. True), ie_generation = (\<lambda>_. True), ie_compiles = (\<lambda>_. True),
      ie_encode_request = (\<lambda>_. JNull), ie_encode_response = (\<lambda>_. JNull), ie_encode_items = (\<lambda>_. JNull)\<rparr>"

definition sample_call :: "string \<Rightarrow> json \<Rightarrow> unit turn_item" where
  "sample_call name arguments = AssistantToolCall ''t''
     \<lparr>tc_id = ''c'', tc_provider_call_id = None, tc_name = name, tc_arguments = arguments\<rparr>"

definition sample_response :: "unit turn_item \<Rightarrow> unit llm_response" where
  "sample_response item =
     \<lparr>rs_model_call_id = ''m'',
      rs_items = [Message ''x'' FromAssistant [TextPart ''hello''] None False, item],
      rs_usage = None, rs_finish_reason = Some FinishToolCalls, rs_continuation = None, rs_raw_response_ref = None\<rparr>"

definition sample_stream :: "unit turn_item \<Rightarrow> unit stream_event list" where
  "sample_stream item =
     [Started ''m'' 0, TextDelta ''m'' 1 ''x'' ''he'', TextDelta ''m'' 2 ''x'' ''llo'',
      ToolCallDelta ''m'' 3 ''t'' ''c'' (Some ''add'') (Some ''null''),
      ToolCallCompleted ''m'' 4 (sample_call ''add'' JNull),
      CompletedEvent ''m'' 5 (sample_response item)]"

lemma sample_env_sel [simp]:
  "ie_serde sample_env = simple_serde" "ie_parse sample_env ''null'' = Some JNull"
  "ie_encode_response sample_env r = JNull"
  by (simp_all add: sample_env_def)

lemma to_vec_atoms [simp]: "to_vec sd JNull = Inr ''null''" "to_vec sd (JBool True) = Inr ''true''"
  by (simp_all add: to_vec_def validate_limits.simps MAX_JSON_BYTES_def MAX_JSON_DEPTH_def)

lemma sample_ids [simp]: "id_ok 128 ''m''" "id_ok 128 ''x''" "id_ok 128 ''t''" "id_ok 128 ''c''"
  by code_simp+

lemma names_ok [simp]: "tool_name_ok ''add''" "tool_name_ok ''remove''"
  by code_simp+

lemma sample_valid:
  assumes "tool_name_ok name" "arguments = JNull \<or> arguments = JBool True"
  shows "validate_response_ir sample_env (sample_response (sample_call name arguments)) = Inr ()"
proof -
  have "well_formed_transcript sample_env {} (rs_items (sample_response (sample_call name arguments)))"
    using assms
    by (auto simp: well_formed_transcript_def sample_response_def sample_call_def content_ok_def
        MAX_TEXT_BYTES_def less_Suc_eq)
  then show ?thesis
    by (simp add: validate_response_ir_def bindR_eq_Inr validate_transcript_Inr bounded_canonical_def MAX_IR_BYTES_def
        sample_response_def)
qed

lemma sample_runs:
  assumes "tool_name_ok name" "arguments = JNull \<or> arguments = JBool True"
  shows "run_stream sample_env (sample_stream (sample_call name arguments))
    = Inr (TerminalCompleted (sample_response (sample_call name arguments)))"
  using sample_valid [OF assms]
  by (simp add: run_stream_def sample_stream_def push_def apply_simps push_all.simps after_def new_finalizer_def
      observe_def push_text_def bad_delta_text_def text_of_def om_get_def push_tool_delta_def delta_of_def no_delta_def
      push_arguments_def put_delta_def push_tool_completed_def same_canonical_def finish_def u64_max_def
      validate_response_order_and_text_def position_of_def check_text_def message_text_def sample_response_def
      sample_call_def)

lemma stream_shape_witness:
  "\<exists>call mid end. sample_stream (sample_call ''add'' JNull) = Started call 0 # mid @ [end] \<and> length mid = 4"
proof -
  from stream_shape [OF sample_runs [of "''add''" JNull]] obtain call mid e where
    "sample_stream (sample_call ''add'' JNull) = Started call 0 # mid @ [e]" by auto
  moreover from this have "length mid = 4" by (auto simp: sample_stream_def append_eq_Cons_conv Cons_eq_append_conv)
  ultimately show ?thesis by blast
qed

lemma stream_content_witness:
  "\<exists>role content provenance placeholder.
     Message ''x'' role content provenance placeholder \<in> set (rs_items (sample_response (sample_call ''add'' JNull)))
     \<and> message_text content = ''hello''"
proof -
  have "''x'' \<in> text_ids (sample_stream (sample_call ''add'' JNull))" by (auto simp: text_ids_def sample_stream_def)
  moreover have "streamed_text (sample_stream (sample_call ''add'' JNull)) ''x'' = ''hello''"
    by (simp add: streamed_text_def sample_stream_def)
  ultimately show ?thesis using stream_content [OF sample_runs [of "''add''" JNull]] by force
qed

lemma stream_tool_calls_witness:
  "\<exists>c i. completions (sample_stream (sample_call ''add'' JNull)) ''c'' = [c] \<and> tc_name c = ''add''
     \<and> set (call_items (sample_stream (sample_call ''add'' JNull)) ''c'') = {i}
     \<and> same_canonical simple_serde JNull (tc_arguments c)"
proof -
  let ?evs = "sample_stream (sample_call ''add'' JNull)"
  have call: "''c'' \<in> tool_ids ?evs" by (auto simp: tool_ids_def sample_stream_def)
  have arguments: "streamed_arguments ?evs ''c'' = ''null''" by (simp add: streamed_arguments_def sample_stream_def)
  have names: "streamed_names ?evs ''c'' = [''add'']" by (simp add: streamed_names_def sample_stream_def)
  have null: "JNull = JNull \<or> JNull = JBool True" by simp
  from stream_tool_calls [OF sample_runs [OF names_ok(1) null] call] obtain c i where
    "completions ?evs ''c'' = [c]" "set (call_items ?evs ''c'') = {i}" "''add'' = tc_name c"
    "same_canonical simple_serde JNull (tc_arguments c)"
    unfolding arguments names by auto
  then show ?thesis by metis
qed

text \<open>
  The terminal response is not compared with the tool calls that the stream completed: a
  stream that completed the call \<open>c\<close> of one tool ends with a response in which the same item
  holds the same call with another name and other arguments.
\<close>
theorem terminal_call_unchecked:
  "\<exists>evs r c d. run_stream sample_env evs = Inr (TerminalCompleted r)
     \<and> completions evs ''c'' = [c] \<and> AssistantToolCall ''t'' d \<in> set (rs_items r)
     \<and> tc_id d = tc_id c \<and> tc_name d \<noteq> tc_name c \<and> tc_arguments d \<noteq> tc_arguments c"
proof -
  let ?d = "\<lparr>tc_id = ''c'', tc_provider_call_id = None, tc_name = ''remove'', tc_arguments = JBool True\<rparr>"
  let ?c = "\<lparr>tc_id = ''c'', tc_provider_call_id = None, tc_name = ''add'', tc_arguments = JNull\<rparr>"
  let ?item = "sample_call ''remove'' (JBool True)"
  have "run_stream sample_env (sample_stream ?item) = Inr (TerminalCompleted (sample_response ?item))"
    by (intro sample_runs) auto
  moreover have "completions (sample_stream ?item) ''c'' = [?c]"
    by (simp add: completions_def sample_stream_def sample_call_def)
  moreover have "AssistantToolCall ''t'' ?d \<in> set (rs_items (sample_response ?item))"
    by (simp add: sample_response_def sample_call_def)
  ultimately show ?thesis
    by (intro exI [of _ "sample_stream ?item"] exI [of _ "sample_response ?item"] exI [of _ ?c] exI [of _ ?d]) simp
qed

section \<open>A request\<close>

definition sample_instruction :: "instruction_role \<Rightarrow> context_trust \<Rightarrow> instruction_ir" where
  "sample_instruction role trust =
     \<lparr>ins_id = ''m'', ins_role = role, ins_content = [TextPart ''hello''],
      ins_provenance = \<lparr>cp_id = ''x'', cp_item_id = ''t'', cp_source_type = ''s'', cp_source_id = ''s'',
        cp_trust = trust, cp_sensitivity = PublicData, cp_final_role = ContextRole, cp_transformations = []\<rparr>\<rparr>"

definition sample_request :: "instruction_role \<Rightarrow> context_trust \<Rightarrow> (unit, unit) llm_request" where
  "sample_request role trust =
     \<lparr>rq_model = ''m'', rq_instructions = [sample_instruction role trust],
      rq_transcript = [Message ''x'' FromUser [TextPart ''hello''] None False], rq_tools = [], rq_hosted_tools = [],
      rq_tool_choice = None, rq_response_format = None, rq_generation = None, rq_extensions = None,
      rq_metadata = [], rq_continuation = None\<rparr>"

lemma sample_request_valid:
  "validate_request_ir sample_env (sample_request ContextInstruction UserInput) = Inr ()"
proof -
  have m: "id_ok 256 ''m''" by code_simp
  have t: "well_formed_transcript sample_env {''m''} (rq_transcript (sample_request ContextInstruction UserInput))"
    by (simp add: well_formed_transcript_def sample_request_def content_ok_def MAX_TEXT_BYTES_def)
  have "to_vec simple_serde (JObject []) = Inr ''{}''"
    by (simp add: to_vec_def validate_limits.simps MAX_JSON_BYTES_def MAX_JSON_DEPTH_def MAX_COLLECTION_ITEMS_def join_def)
  moreover have "ie_encode_request sample_env r = JNull" for r by (simp add: sample_env_def)
  ultimately show ?thesis
    using m t
    by (simp add: validate_request_ir_def bindR_eq_Inr validate_transcript_Inr sample_request_def sample_instruction_def
        validate_instruction_def content_ok_def MAX_TEXT_BYTES_def authority_valid_def validate_tool_descriptors_def
        validate_metadata_def validate_extensions_def bounded_canonical_def MAX_IR_BYTES_def)
qed

lemma request_authority_witness:
  "ins_role (sample_instruction ContextInstruction UserInput) = ContextInstruction
   \<and> distinct (map ins_id (rq_instructions (sample_request ContextInstruction UserInput))
       @ map item_id (rq_transcript (sample_request ContextInstruction UserInput)))"
  using request_authority [OF sample_request_valid, of "sample_instruction ContextInstruction UserInput"]
  by (simp add: sample_request_def sample_instruction_def)

end
