(* ===== verification/Context_Truncation.thy ===== *)
theory Context_Truncation
  imports Context_Budget_Properties
begin

text \<open>
  A truncated text: it is exactly the first or the last scalars of the text, and with a counter
  that never counts less for more text it is the longest such cut that fits.  The counters are the
  interface \<open>monotone_counter\<close>, which the estimate of the code implements.
\<close>

section \<open>What is cut\<close>

fun part_text :: "content_part \<Rightarrow> string list" where
  "part_text (TextPart t) = scalars t"
| "part_text _ = []"

definition content_text :: "content_part list \<Rightarrow> string list" where
  "content_text content = concat (map part_text content)"

lemma content_text_simps [simp]:
  "content_text [] = []" "content_text (p # ps) = part_text p @ content_text ps"
  by (simp_all add: content_text_def)

lemma length_content_text: "length (content_text content) = content_scalars content"
proof -
  have "length (part_text p) = part_scalars p" for p by (cases p) (simp_all add: scalar_count_def)
  then show ?thesis by (induction content) (simp_all add: content_scalars_def)
qed

lemma take_scalars_Nil: "take_scalars n t = [] \<longleftrightarrow> n = 0 \<or> t = []"
proof -
  have "take_scalars n t = [] \<longleftrightarrow> scalar_count (take_scalars n t) = 0" by (simp only: scalar_count_zero)
  also have "\<dots> \<longleftrightarrow> n = 0 \<or> scalar_count t = 0" unfolding scalar_count_take by linarith
  finally show ?thesis by simp
qed

lemma keep_head_text: "content_text (keep_head_scalars n content) = take n (content_text content)"
proof (induction content arbitrary: n)
  case (Cons p ps)
  then show ?case
    by (cases p) (auto simp: Let_def take_scalars_Nil scalar_count_def min_def)
qed simp

lemma keep_tail_loop_text:
  "content_text (keep_tail_loop skip remaining content) = take remaining (drop skip (content_text content))"
proof (induction content arbitrary: skip remaining)
  case (Cons p ps)
  show ?case
  proof (cases p)
    case (TextPart t)
    show ?thesis
    proof (cases "scalar_count t \<le> skip")
      case True
      then show ?thesis using Cons TextPart by (simp add: scalar_count_def)
    next
      case False
      have n: "scalars (take_scalars remaining (drop_scalars skip t)) = take remaining (drop skip (scalars t))" by simp
      then have "take_scalars remaining (drop_scalars skip t) = [] \<longleftrightarrow> take remaining (drop skip (scalars t)) = []"
        by (metis concat_scalars concat.simps(1) scalars.simps(1))
      then show ?thesis
        using Cons [of 0] TextPart False n
        by (auto simp: Let_def scalar_count_def min_def)
    qed
  qed (use Cons in simp_all)
qed simp

lemma keep_scalars_text:
  "content_text (keep_scalars content n keep_head) =
     (if keep_head then take n (content_text content)
      else drop (content_scalars content - n) (content_text content))"
proof -
  have "length (drop (content_scalars content - n) (content_text content)) \<le> n"
    by (simp add: length_content_text)
  then show ?thesis
    by (simp add: keep_scalars_def keep_head_text keep_tail_scalars_def keep_tail_loop_text)
qed

section \<open>Shorter contents\<close>

inductive shorter :: "content_part list \<Rightarrow> content_part list \<Rightarrow> bool" where
  none: "shorter [] ys"
| skip: "shorter xs ys \<Longrightarrow> shorter xs (y # ys)"
| part: "scalar_count t \<le> scalar_count u \<Longrightarrow> shorter xs ys \<Longrightarrow> shorter (TextPart t # xs) (TextPart u # ys)"

lemma shorter_append_head: "shorter xs ys \<Longrightarrow> scalar_count t \<le> scalar_count u \<Longrightarrow>
    shorter ((if t = [] then [] else [TextPart t]) @ xs) ((if u = [] then [] else [TextPart u]) @ ys)"
  using scalar_count_zero [of t] scalar_count_zero [of u]
  by (cases "t = []"; cases "u = []") (auto intro: shorter.intros simp del: scalar_count_zero)

lemma shorter_head: "m \<le> n \<Longrightarrow> shorter (keep_head_scalars m content) (keep_head_scalars n content)"
proof (induction content arbitrary: m n)
  case (Cons p ps)
  have empty: "keep_head_scalars 0 ps = []" for ps by (induction ps) (auto split: content_part.splits)
  show ?case
  proof (cases p)
    case (TextPart t)
    show ?thesis
    proof (cases "m = 0")
      case True
      then show ?thesis using empty [of "p # ps"] by (simp only: shorter.none)
    next
      case False
      have step: "keep_head_scalars k (p # ps) =
          (if take_scalars k t = [] then [] else [TextPart (take_scalars k t)])
          @ keep_head_scalars (k - min k (scalar_count t)) ps" if "0 < k" for k
        using that by (simp add: TextPart Let_def)
      have pos: "0 < m" "0 < n" using False Cons.prems by auto
      have "m - min m (scalar_count t) \<le> n - min n (scalar_count t)" using Cons.prems by (auto simp: min_def)
      moreover have "scalar_count (take_scalars m t) \<le> scalar_count (take_scalars n t)"
        using Cons.prems by (auto simp: min_def)
      ultimately show ?thesis
        unfolding step [OF pos(1)] step [OF pos(2)] by (intro shorter_append_head Cons.IH)
    qed
  qed (use Cons in simp_all)
qed (simp add: shorter.none)

text \<open>What remains behind the first scalars.\<close>

fun drop_text :: "nat \<Rightarrow> content_part list \<Rightarrow> content_part list" where
  "drop_text k [] = []"
| "drop_text k (p # ps) =
     (case p of
        TextPart t \<Rightarrow>
          if scalar_count t \<le> k then drop_text (k - scalar_count t) ps
          else TextPart (drop_scalars k t) # drop_text 0 ps
      | _ \<Rightarrow> drop_text k ps)"

lemma take_scalars_all: "scalar_count t \<le> n \<Longrightarrow> take_scalars n t = t"
  by (simp add: take_scalars_def scalar_count_def)

lemma keep_tail_drop:
  "content_scalars content \<le> k + remaining \<Longrightarrow> keep_tail_loop k remaining content = drop_text k content"
proof (induction content arbitrary: k remaining)
  case (Cons p ps)
  show ?case
  proof (cases p)
    case (TextPart t)
    show ?thesis
    proof (cases "scalar_count t \<le> k")
      case True
      then show ?thesis using Cons TextPart by (simp add: content_scalars_def)
    next
      case False
      have all: "take_scalars remaining (drop_scalars k t) = drop_scalars k t"
        using Cons.prems TextPart False by (intro take_scalars_all) (simp add: content_scalars_def)
      have "drop_scalars k t \<noteq> []"
        using False scalar_count_drop [of k t] scalar_count_zero [of "drop_scalars k t"] by linarith
      moreover have "content_scalars ps \<le> 0 + (remaining - (scalar_count t - k))"
        using Cons.prems TextPart False by (simp add: content_scalars_def)
      ultimately show ?thesis using Cons.IH [of 0] TextPart False all by (simp add: Let_def)
    qed
  qed (use Cons in \<open>simp_all add: content_scalars_def\<close>)
qed simp

lemma shorter_drop: "l \<le> k \<Longrightarrow> shorter (drop_text k content) (drop_text l content)"
proof (induction content arbitrary: k l)
  case (Cons p ps)
  show ?case
  proof (cases p)
    case (TextPart t)
    then show ?thesis
      using Cons.prems Cons.IH [of "l - scalar_count t" "k - scalar_count t"] Cons.IH [of 0 "k - scalar_count t"]
        Cons.IH [of 0 0] by (auto intro: shorter.intros)
  qed (use Cons in simp_all)
qed (simp add: shorter.none)

lemma shorter_keep: "m \<le> n \<Longrightarrow> shorter (keep_scalars content m h) (keep_scalars content n h)"
  by (auto simp: keep_scalars_def keep_tail_scalars_def keep_tail_drop intro: shorter_head shorter_drop)

section \<open>Monotone counters\<close>

locale monotone_counter =
  fixes count :: token_counter
  assumes total: "\<exists>n. count role content = Inr n"
    and mono: "shorter xs ys \<Longrightarrow> count role xs = Inr a \<Longrightarrow> count role ys = Inr b \<Longrightarrow> a \<le> b"
begin

lemma cut_total: "\<exists>n. cut_tokens count role content h k = Inr n"
  using total by (simp add: cut_tokens_def Let_def)

lemma cut_mono:
  assumes "m \<le> n" "cut_tokens count role content h m = Inr a" "cut_tokens count role content h n = Inr b"
  shows "a \<le> b"
proof (cases "keep_scalars content m h = []")
  case True
  then show ?thesis using assms(2) by (simp add: cut_tokens_def)
next
  case False
  have s: "shorter (keep_scalars content m h) (keep_scalars content n h)" using assms(1) by (rule shorter_keep)
  then have "keep_scalars content n h \<noteq> []" using False by (auto elim: shorter.cases)
  then show ?thesis using assms(2,3) False mono [OF s] by (auto simp: cut_tokens_def Let_def)
qed

text \<open>The search ends with the largest cut that fits.\<close>

definition fitting :: "context_role \<Rightarrow> content_part list \<Rightarrow> bool \<Rightarrow> nat \<Rightarrow> nat \<Rightarrow> bool" where
  "fitting role content h cap k \<longleftrightarrow> (\<exists>t. cut_tokens count role content h k = Inr t \<and> t \<le> cap)"

lemma fitting_down: "fitting role content h cap n \<Longrightarrow> m \<le> n \<Longrightarrow> fitting role content h cap m"
  using cut_total cut_mono unfolding fitting_def by (meson order_trans)

lemma search_largest:
  assumes "\<And>k. best = Some k \<Longrightarrow> fst k < low \<and> fitting role content h cap (fst k)"
    "\<And>k. k < low \<Longrightarrow> \<exists>b. best = Some b \<and> k \<le> fst b"
    "\<And>k. high < k \<Longrightarrow> k \<le> limit \<Longrightarrow> \<not> fitting role content h cap k"
  shows "\<exists>r. search_cut (cut_tokens count role content h) cap low high best = Inr r
    \<and> (\<forall>k \<le> limit. fitting role content h cap k \<longrightarrow> (\<exists>b. r = Some b \<and> k \<le> fst b))"
  using assms
proof (induction "cut_tokens count role content h" cap low high best rule: search_cut.induct)
  case (1 cap low high best)
  let ?mid = "low + (high - low) div 2"
  obtain t where t: "cut_tokens count role content h ?mid = Inr t" using cut_total by blast
  have step: "search_cut (cut_tokens count role content h) cap low high best =
     (if high < low then Inr best
      else if t \<le> cap then search_cut (cut_tokens count role content h) cap (?mid + 1) high (Some (?mid, t))
      else if ?mid = 0 then Inr best
      else search_cut (cut_tokens count role content h) cap low (?mid - 1) best)"
    unfolding search_cut.simps [of _ cap low high best] Let_def t by simp
  show ?case
  proof (cases "high < low")
    case True
    have "\<exists>b. best = Some b \<and> k \<le> fst b" if "k \<le> limit" "fitting role content h cap k" for k
      using "1.prems"(2,3) that True by (meson leI le_less_trans)
    then show ?thesis using True step by auto
  next
    case False
    show ?thesis
    proof (cases "t \<le> cap")
      case True
      have "search_cut (cut_tokens count role content h) cap low high best
          = search_cut (cut_tokens count role content h) cap (?mid + 1) high (Some (?mid, t))"
        using False True step by simp
      moreover have "\<exists>r. search_cut (cut_tokens count role content h) cap (?mid + 1) high (Some (?mid, t)) = Inr r
          \<and> (\<forall>k \<le> limit. fitting role content h cap k \<longrightarrow> (\<exists>b. r = Some b \<and> k \<le> fst b))"
        using "1.prems"(3) t True by (intro "1.hyps"(1) [OF False refl t True]) (auto simp: fitting_def)
      ultimately show ?thesis by (simp only:)
    next
      case Fit: False
      have bad: "\<not> fitting role content h cap k" if "?mid \<le> k" for k
        using fitting_down [of role content h cap k ?mid] that t Fit by (auto simp: fitting_def)
      show ?thesis
      proof (cases "?mid = 0")
        case True
        have "search_cut (cut_tokens count role content h) cap low high best = Inr best"
          by (simp only: step False Fit True if_True if_False simp_thms)
        then show ?thesis using bad True by auto
      next
        case False': False
        have "search_cut (cut_tokens count role content h) cap low high best
            = search_cut (cut_tokens count role content h) cap low (?mid - 1) best"
          by (simp only: step False Fit False' if_False)
        moreover have "\<exists>r. search_cut (cut_tokens count role content h) cap low (?mid - 1) best = Inr r
            \<and> (\<forall>k \<le> limit. fitting role content h cap k \<longrightarrow> (\<exists>b. r = Some b \<and> k \<le> fst b))"
          using "1.prems"(1,2) bad False' by (intro "1.hyps"(2) [OF False refl t Fit False']) auto
        ultimately show ?thesis by (simp only:)
      qed
    qed
  qed
qed

lemma search_all:
  "\<exists>r. search_cut (cut_tokens count role content h) cap 0 limit None = Inr r
    \<and> (\<forall>k \<le> limit. fitting role content h cap k \<longrightarrow> (\<exists>b. r = Some b \<and> k \<le> fst b))"
  by (rule search_largest) auto

lemma search_total: "\<exists>r. search_cut (cut_tokens count role content h) cap 0 limit None = Inr r"
  using search_all [of role content h cap limit] by (elim exE conjE) (rule exI)

end

section \<open>The estimate\<close>

lemma estimate_sum: "a \<le> u64_max \<Longrightarrow>
    foldl (\<lambda>n p. min u64_max (n + estimated_part p)) a content = min u64_max (a + sum_list (map estimated_part content))"
proof (induction content arbitrary: a)
  case (Cons p ps)
  then show ?case by (simp add: min_def)
qed simp

lemma shorter_sum: "shorter xs ys \<Longrightarrow> sum_list (map estimated_part xs) \<le> sum_list (map estimated_part ys)"
  by (induction rule: shorter.induct) (auto intro: add_mono div_le_mono)

lemma estimate_count_eq: "estimate_count role content = Inr (min u64_max (4 + sum_list (map estimated_part content)))"
proof -
  have "4 \<le> u64_max" by (simp add: u64_max_def)
  then show ?thesis by (simp only: estimate_count_def estimate_sum)
qed

interpretation estimate: monotone_counter estimate_count
proof
  fix role xs ys a b
  assume "shorter xs ys" "estimate_count role xs = Inr a" "estimate_count role ys = Inr b"
  then show "a \<le> b" using shorter_sum [of xs ys] by (auto simp: estimate_count_eq)
qed (simp add: estimate_count_eq)

section \<open>Truncated groups\<close>

definition all_text :: "content_part list \<Rightarrow> bool" where
  "all_text content \<longleftrightarrow> (\<forall>p \<in> set content. \<exists>t. p = TextPart t)"

definition cut :: "bool \<Rightarrow> nat \<Rightarrow> string list \<Rightarrow> string list" where
  "cut keep_head n t = (if keep_head then take n t else drop (length t - n) t)"

definition cut_fits :: "nat \<Rightarrow> context_role \<Rightarrow> content_part list \<Rightarrow> bool \<Rightarrow> nat \<Rightarrow> bool" where
  "cut_fits cap role content keep_head n \<longleftrightarrow>
     (\<exists>t. cut_tokens estimate_count role content keep_head n = Inr t \<and> t \<le> cap)"

text \<open>The candidate \<open>d\<close> has the first or last scalars of \<open>c\<close>, as many as fit.\<close>

definition largest_cut :: "nat \<Rightarrow> bool \<Rightarrow> context_candidate \<Rightarrow> context_candidate \<Rightarrow> bool" where
  "largest_cut cap keep_head c d \<longleftrightarrow>
     (\<exists>n \<le> length (content_text (cc_content c)).
        content_text (cc_content d) = cut keep_head n (content_text (cc_content c))
        \<and> estimate_count (cc_role c) (cc_content d) = Inr (cc_token_count d) \<and> cc_token_count d \<le> cap
        \<and> (\<forall>m. n < m \<and> m \<le> length (content_text (cc_content c)) \<longrightarrow>
              \<not> cut_fits cap (cc_role c) (cc_content c) keep_head m))"

lemma truncate_group_result:
  assumes "truncate_group counter cap h g = Inr (g', outcome)" "cg_candidates g = [c]"
    "search_cut (cut_tokens counter (cc_role c) (cc_content c) h) cap 0 (content_scalars (cc_content c)) None = Inr r"
  shows "(r = None \<or> keep_scalars (cc_content c) (fst (the r)) h = []) \<and> \<not> oo_included outcome
    \<or> (\<exists>d. r \<noteq> None \<and> cg_candidates g' = [d] \<and> cc_content d = keep_scalars (cc_content c) (fst (the r)) h
          \<and> cc_content d \<noteq> [] \<and> cc_token_count d = snd (the r) \<and> oo_included outcome)"
proof (cases "r = None \<or> keep_scalars (cc_content c) (fst (the r)) h = []")
  case True
  then show ?thesis
    using assms by (cases r) (auto simp: truncate_group_def drop_group_def Let_def split: if_splits)
next
  case False
  then obtain n t where r: "r = Some (n, t)" "keep_scalars (cc_content c) n h \<noteq> []" by auto
  show ?thesis
    using assms r
    by (intro disjI2 exI [of _ "hd (cg_candidates g')"]) (auto simp: truncate_group_def Let_def split: if_splits)
qed

lemma cut_bounds:
  assumes "search_cut (cut_tokens estimate_count role content h) cap 0 (content_scalars content) None = Inr r"
  shows "\<And>n t. r = Some (n, t) \<Longrightarrow> cut_tokens estimate_count role content h n = Inr t \<and> t \<le> cap \<and> n \<le> content_scalars content"
    and "\<And>m. m \<le> content_scalars content \<Longrightarrow> cut_fits cap role content h m \<Longrightarrow> \<exists>b. r = Some b \<and> m \<le> fst b"
proof -
  fix n t
  assume "r = Some (n, t)"
  then show "cut_tokens estimate_count role content h n = Inr t \<and> t \<le> cap \<and> n \<le> content_scalars content"
    using search_cut_sound [of "cut_tokens estimate_count role content h" cap 0 _ None n t] assms by auto
next
  fix m
  assume "m \<le> content_scalars content" "cut_fits cap role content h m"
  then show "\<exists>b. r = Some b \<and> m \<le> fst b"
    using estimate.search_all [of role content h cap "content_scalars content"] assms
    by (auto simp: estimate.fitting_def cut_fits_def)
qed

lemma largest_cut_kept:
  assumes run: "search_cut (cut_tokens estimate_count (cc_role c) (cc_content c) h) cap 0
      (content_scalars (cc_content c)) None = Inr (Some (n, t))"
    and d: "cc_content d = keep_scalars (cc_content c) n h" "cc_content d \<noteq> []" "cc_token_count d = t"
  shows "largest_cut cap h c d"
proof -
  note b = cut_bounds(1) [OF run refl]
  have "content_text (cc_content d) = cut h n (content_text (cc_content c))"
    by (simp add: d(1) keep_scalars_text cut_def length_content_text)
  moreover have "estimate_count (cc_role c) (cc_content d) = Inr (cc_token_count d)"
    using b d by (simp add: cut_tokens_def Let_def)
  moreover have "\<not> cut_fits cap (cc_role c) (cc_content c) h m" if "n < m" "m \<le> content_scalars (cc_content c)" for m
    using cut_bounds(2) [OF run that(2)] that(1) by auto
  ultimately show ?thesis unfolding largest_cut_def length_content_text using b d(3) by blast
qed

lemma nothing_kept:
  assumes "keep_scalars content n h = []" "n \<le> content_scalars content"
  shows "n = 0"
proof -
  have "content_text (keep_scalars content n h) = []" using assms(1) by simp
  moreover have "length (content_text (keep_scalars content n h)) = n"
    using assms(2) by (simp add: keep_scalars_text length_content_text)
  ultimately show ?thesis by simp
qed

text \<open>
  C28: truncating an optional item to its room keeps a prefix (or suffix) of its text, cut at scalar
  boundaries, whose estimated count is the reported one and fits, and no longer cut would fit.  The
  item is dropped only when not even one scalar fits.
\<close>
theorem truncation_largest:
  assumes "truncate_group estimate_count cap keep_head g = Inr (g', outcome)" "cg_candidates g = [c]"
  shows "if oo_included outcome then \<exists>d. cg_candidates g' = [d] \<and> largest_cut cap keep_head c d
     else \<forall>m. 0 < m \<and> m \<le> length (content_text (cc_content c)) \<longrightarrow> \<not> cut_fits cap (cc_role c) (cc_content c) keep_head m"
proof (cases "oo_included outcome")
  case True
  obtain r where r: "search_cut (cut_tokens estimate_count (cc_role c) (cc_content c) keep_head) cap 0
      (content_scalars (cc_content c)) None = Inr r"
    by (rule exE [OF estimate.search_total])
  from truncate_group_result [OF assms r] True obtain d n t where
    d: "r = Some (n, t)" "cg_candidates g' = [d]" "cc_content d = keep_scalars (cc_content c) n keep_head"
    "cc_content d \<noteq> []" "cc_token_count d = t" by auto
  show ?thesis using largest_cut_kept [OF r [unfolded d(1)] d(3-5)] d(2) True by simp
next
  case False
  obtain r where r: "search_cut (cut_tokens estimate_count (cc_role c) (cc_content c) keep_head) cap 0
      (content_scalars (cc_content c)) None = Inr r"
    by (rule exE [OF estimate.search_total])
  have none: "r = None \<or> keep_scalars (cc_content c) (fst (the r)) keep_head = []"
    using truncate_group_result [OF assms r] False by blast
  have "fst b = 0" if b: "r = Some b" for b
    using none b cut_bounds(1) [OF r, of "fst b" "snd b"] nothing_kept [of "cc_content c" "fst b" keep_head] by simp
  then have "\<not> cut_fits cap (cc_role c) (cc_content c) keep_head m"
    if "0 < m" "m \<le> content_scalars (cc_content c)" for m
    using cut_bounds(2) [OF r that(2)] that(1) by fastforce
  then show ?thesis using False by (simp add: length_content_text)
qed

theorem truncation_largest_witness:
  "largest_cut 6 True (sample_candidate ''o'' ''abcdef'')
     (hd (cg_candidates (fst (projr (truncate_group estimate_count 6 True
        (sample_group ''o'' 1 False (Some TruncateTail) [sample_candidate ''o'' ''abcdef'']))))))"
proof -
  let ?g = "sample_group ''o'' 1 False (Some TruncateTail) [sample_candidate ''o'' ''abcdef'']"
  have "case truncate_group estimate_count 6 True ?g of Inr (_, r) \<Rightarrow> oo_included r | _ \<Rightarrow> False" by code_simp
  then obtain g' r where run: "truncate_group estimate_count 6 True ?g = Inr (g', r)" "oo_included r"
    by (auto split: sum.splits)
  have "cg_candidates ?g = [sample_candidate ''o'' ''abcdef'']" by (simp add: sample_group_def)
  from truncation_largest [OF run(1) this] run show ?thesis by auto
qed

end
