(* ===== verification/Spec2Isabelle.thy ===== *)
theory Spec2Isabelle
  imports Batch_Theorems Request_Theorems Llm_Node_Theorems Channel_Properties Router_Refinement Router_Decision Context_Merge Append_Merge Graph_Wellformed
    Scheduler_Protocol Scheduler_Nodes Stream_Theorems Context_Truncation
    Context_Assembly Llm_Transcript
begin

text \<open>
  A verification library for the core of zhuangsheng, a local-first asynchronous graph
  runtime.  The core crate (\<open>crates/core/src\<close>) is pure code over JSON documents; the
  storage, server and client parts around it are I/O.

  \<^bold>\<open>The program.\<close>  A draft of a graph is applied: its nodes, edges, policies, routers, schemas and
  language-model nodes are normalised and checked, and the result is an immutable definition with
  pinned digests.  A run of the graph is driven by a scheduler, which claims work from a store and
  executes the built-in nodes; a router node evaluates expressions of a small language over the
  inputs of the node.  A language-model node assembles a context from a preset within a token budget,
  builds a request from the context, its granted tools and the transcript so far, and folds the
  stream of the answer into a response.  Working contexts are JSON documents that change by patches
  and whose branches are merged.

  \<^bold>\<open>Conventions.\<close>  A Rust string is the list of its UTF-8 bytes.  A fallible function returns a sum,
  \<open>Inl\<close> the error (a code, or the error value where callers look into it) and \<open>Inr\<close> the result;
  \<open>bindR\<close> is the operator \<open>?\<close>.  A \<open>BTreeMap\<close> and a JSON object are association lists with
  strictly ascending keys.  A JSON number is its text.  Unsigned integers are natural numbers and
  signed ones integers, with every check, saturation and wrap of the source written out.  Code that is
  not in the repository (hash, regular expressions, JSON path, JSON schema validator, URL parser,
  the keys of provider operations, the (de)serialisations that serde derives) is an argument:
  a field of the records \<open>serde\<close>, \<open>selector_lib\<close>, \<open>regex_lib\<close>, \<open>key_lib\<close>, \<open>channel_lib\<close>,
  \<open>schema_env\<close>, \<open>tool_env\<close>, \<open>llm_env\<close>, \<open>ctx_env\<close>, \<open>assembly_env\<close>, \<open>ir_env\<close>, \<open>build_env\<close>,
  \<open>apply_env\<close>.  What a property needs of it is a named hypothesis (\<open>quote_codec\<close>,
  \<open>lower_laws\<close>, \<open>url_laws\<close>) with an instance in its witness.

  \<^bold>\<open>Documents.\<close>  \<open>Prelude\<close>, \<open>Ordmap\<close>, \<open>Utf8\<close> and \<open>Json\<close> hold the shared vocabulary, and
  \<open>Errors\<close> the error values (\<open>error.rs\<close>).  \<open>Canonical_Number\<close> and \<open>Canonical\<close> model
  \<open>canonical.rs\<close> and \<open>canonical/number.rs\<close>: normalised numbers keep their exact value and are
  unique, and canonical bytes determine the document.  \<open>State_Patch\<close> (\<open>state/patch.rs\<close>):
  pointers, patches and their conflicts; an operation changes only what its pointer names and
  patches without a conflict commute.  \<open>Context_Merge\<close> and \<open>Append_Merge\<close>
  (\<open>context_merge.rs\<close>, \<open>context_merge/append.rs\<close>): the three-way merges and exactly when they
  conflict.  \<open>Selector\<close> is \<open>selector.rs\<close>.

  \<^bold>\<open>Router.\<close>  \<open>Router_Value\<close>, \<open>Router_Ast\<close>, \<open>Router_Lexer\<close>, \<open>Router_Parser\<close> and
  \<open>Router_Eval\<close> model the files of \<open>router/\<close>.  \<open>Router_Grammar\<close> shows that the parser accepts
  only what the grammar derives and never panics; \<open>Router_Semantics\<close> gives the meaning of
  expressions without fuel and \<open>Router_Refinement\<close> shows that the evaluator implements it.
  \<open>Router_Decision\<close> is one activation of a router (\<open>router/decision.rs\<close>).

  \<^bold>\<open>Graphs.\<close>  \<open>Graph_Types\<close>, \<open>Graph_Structure\<close>, \<open>Graph_Validation\<close>, \<open>Graph_Cycle\<close> and
  \<open>Graph_Apply\<close> model \<open>graph/\<close>.  \<open>Graph_Tarjan\<close> proves Tarjan's algorithm as written,
  \<open>Graph_Guards\<close> that the accepted graphs are those whose cycles are guarded, and
  \<open>Graph_Wellformed\<close> what every applied graph promises; the checks that designs/11 asks for and the
  code does not make (schemas along an edge, reachable outputs, limits of a workspace) are not part of
  it.  \<open>Schema\<close> and \<open>Schema_Properties\<close> (\<open>schema.rs\<close>, \<open>schema/validate.rs\<close>) are the
  closed profile of JSON schemas, which the code does not enforce below \<open>additionalProperties\<close>, and
  what a valid instance satisfies.

  \<^bold>\<open>Scheduler.\<close>  \<open>Retry_Delay\<close> and \<open>Scheduler\<close> model \<open>scheduler.rs\<close> over an abstract
  store; \<open>Scheduler_Protocol\<close> gives the calls of a step, each with the answer on which the next
  ones depend, and what the loop returns; it does not show that the work of a store ever ends, which
  depends on the store.  \<open>Scheduler_Nodes\<close> is what the built-in nodes hand over.

  \<^bold>\<open>Language-model nodes.\<close>  \<open>Llm_Config\<close>, \<open>Channel\<close>, \<open>Service_Operations\<close>,
  \<open>Tool_Registry\<close> and \<open>Llm_Node\<close> model the configuration: channels
  (\<open>llm/channel*.rs\<close>, \<open>secret.rs\<close>), service operations (\<open>llm/service_*.rs\<close>), tools
  (\<open>llm/tool_registry*.rs\<close>) and the node itself (\<open>graph/llm*.rs\<close>).  \<open>Channel_Properties\<close>
  shows that normalisation gives a consistent channel with a secure base URL; \<open>Llm_Node_Properties\<close> and
  \<open>Llm_Node_Theorems\<close> that a node passes exactly when it is ready, and that this holds of
  every node of an applied graph.

  \<^bold>\<open>Contexts and requests.\<close>  \<open>Context_Types\<close>, \<open>Context_Spec\<close>, \<open>Text_Transform\<close>,
  \<open>Context_Resolve\<close>, \<open>Context_Budget\<close>, \<open>Context_Post_Process\<close> and \<open>Context_Engine\<close>
  model \<open>llm/context/\<close> and \<open>llm/text_transform/\<close>.  \<open>Context_Normal_Form\<close>: normalised presets
  are fixed points; \<open>Context_Budget_Properties\<close> and \<open>Context_Truncation\<close>: the budget holds and
  cuts as little as it can; \<open>Context_Post_Properties\<close>: no rule loses or launders content;
  \<open>Context_Authority\<close> and \<open>Context_Assembly\<close>: the whole assembly.  \<open>Llm_Ir\<close>,
  \<open>Llm_Ir_Validate\<close>, \<open>Llm_Transcript\<close> and \<open>Stream_Finalizer\<close>, \<open>Stream_Properties\<close>,
  \<open>Stream_Theorems\<close> model \<open>llm/ir/\<close>: the transcripts that are accepted and the streams that
  complete.  \<open>Request_Builder\<close>, \<open>Request_Properties\<close> and \<open>Request_Theorems\<close>
  (\<open>llm/request_builder*.rs\<close>): what a built request may expose, and the authority of
  instructions from the preset to the request.

  \<^bold>\<open>Tool calls and outputs.\<close>  \<open>Llm_Ledger\<close> is the loop checkpoint with its checksum and the digest
  of a call (\<open>llm/ledger.rs\<close>, \<open>tool_ledger.rs\<close>); \<open>Tool_Batch\<close> and \<open>Memory_Batch\<close> plan what a
  response asks for (\<open>llm/tool_batch.rs\<close>, \<open>memory_tool_batch*.rs\<close>, \<open>memory/\<close>); \<open>Llm_Output\<close>
  (\<open>llm/output.rs\<close>) is the output of a node.  \<open>Batch_Properties\<close>, \<open>Memory_Properties\<close> and
  \<open>Batch_Theorems\<close>: planned calls are granted, pinned, limited and approved where they must be, and
  the outputs are exactly the accepted answers.

  \<^bold>\<open>Interfaces.\<close>  The contracts between components are locales, each interpreted on the model:
  ordered maps (\<open>Ordmap\<close>), the normalisers of the lists of a channel
  (\<open>Channel_Properties\<close>), monotone token counters (\<open>Context_Truncation\<close>), and the schema
  compiler and the language-model stage that the application of a graph relies on
  (\<open>Llm_Node_Properties\<close>).

  \<^bold>\<open>Bounds and fuel.\<close>  The parser of router expressions recurses through nested expressions only;
  its nesting counter stops it, so \<open>PARSE_LEVELS\<close>, more than \<open>MAX_AST_DEPTH\<close>, is enough fuel,
  and the number of tokens is enough for its loops: \<open>compile_never_panics\<close> holds for every source
  text.  The fuel of the evaluator is the program's own.  The depth-first and breadth-first searches
  of graphs take fuel computed from the numbers of nodes and edges, and the theorems about them show
  that they do not run out of it.  The idle loop of the scheduler is bounded by its own step limit.
  All other recursion is structural or has a measure.

  \<^bold>\<open>Not modelled.\<close>  The storage crate (SQL over a database), the HTTP server, desktop adapter,
  plugin host and clients are I/O and glue.  Of the core crate: the encodings of provider protocols
  (\<open>llm/adapter/\<close>), the commands and views of the ledgers, the ledger of token counts, the services
  of \<open>application/\<close>, and the records of conversations.  Texts that only describe an error,
  the scanner of \<open>serde_json\<close>, floating-point rounding, and the serialisations that serde derives
  (other than those written out) are arguments or left out.
\<close>

end
